(* ===== verification/KboPrelude.thy ===== *)
theory KboPrelude
  imports Main "HOL-Library.Word" "HOL-Library.Char_ord" "HOL-Library.Multiset"
begin

text \<open>
  Shared vocabulary of the development: the fixed-width integer types of the native layer,
  the C view of strings and buffers, and the generic lemmas on words, lists and options
  that the component theories share.

  Conventions used by every theory:
  \<^item> \<open>uint32_t\<close>, \<open>uint16_t\<close>, \<open>uint8_t\<close>, \<open>uintptr_t\<close> are words of their width, so addition
    and multiplication wrap as in C.
  \<^item> \<open>LONG\<close>, \<open>int32_t\<close> and \<open>int\<close> are \<open>int\<close>; where the code can leave the 32-bit range
    the wrap-around is written with \<open>i32\<close>.
  \<^item> A NUL-terminated C string is the list of its characters without the terminator;
    a pointer that may be NULL is an \<open>option\<close>.
  \<^item> A function with output pointers returns the values it stores; a NULL output pointer
    means that the caller discards that component.
\<close>

section \<open>Integer types\<close>

type_synonym u8 = "8 word"
type_synonym u16 = "16 word"
type_synonym u32 = "32 word"
type_synonym u64 = "64 word"

text \<open>Reading a value modulo \<open>2 ^ 32\<close> as a two's complement 32-bit integer.\<close>

definition i32 :: "int \<Rightarrow> int" where
  "i32 x = (x + 2 ^ 31) mod 2 ^ 32 - 2 ^ 31"

lemma i32_id [simp]: "- (2 ^ 31) \<le> x \<Longrightarrow> x < 2 ^ 31 \<Longrightarrow> i32 x = x"
  by (simp add: i32_def)

lemma i32_range: "- (2 ^ 31) \<le> i32 x \<and> i32 x < 2 ^ 31"
proof -
  have "0 \<le> (x + 2 ^ 31) mod 2 ^ 32" and "(x + 2 ^ 31) mod 2 ^ 32 < (2 ^ 32 :: int)"
    by simp_all
  then show ?thesis by (simp add: i32_def)
qed

lemmas i32_lower = i32_range [THEN conjunct1]
lemmas i32_upper = i32_range [THEN conjunct2]

lemma sint_eq_uint: "uint (x :: u32) < 2147483648 \<Longrightarrow> sint x = uint x"
proof -
  have "signed_take_bit 31 u = u" if "0 \<le> u" "u < 2147483648" for u :: int
    using that by (intro signed_take_bit_int_eq_self) auto
  moreover assume "uint x < 2147483648"
  ultimately have "signed_take_bit 31 (uint x) = uint x" by simp
  then show ?thesis by (simp add: sint_uint)
qed

text \<open>Truncating signed division of C.\<close>

definition c_div :: "int \<Rightarrow> int \<Rightarrow> int" where
  "c_div a b = sgn a * sgn b * (\<bar>a\<bar> div \<bar>b\<bar>)"

lemma c_div_nonneg: "0 \<le> a \<Longrightarrow> 0 < b \<Longrightarrow> c_div a b = a div b"
  by (auto simp: c_div_def sgn_if)

section \<open>Lemma collections\<close>

named_theorems unat_simps \<open>facts that move word arithmetic to nat\<close>

lemma unat_u32_bound: "unat (x :: u32) < 4294967296"
  using unsigned_less [of x] by simp

lemma unat_div_u32 [unat_simps]: "unat ((x :: u32) div y) = unat x div unat y"
  by (simp add: unat_div_distrib)

lemma unat_mod_u32 [unat_simps]: "unat ((x :: u32) mod y) = unat x mod unat y"
  by (simp add: unat_mod_distrib)

lemma unat_plus_u32: "unat x + unat y < 2 ^ 32 \<Longrightarrow> unat ((x :: u32) + y) = unat x + unat y"
  by (simp add: unat_word_ariths)

lemma unat_mult_u32: "unat x * unat y < 2 ^ 32 \<Longrightarrow> unat ((x :: u32) * y) = unat x * unat y"
  by (simp add: unat_word_ariths)

lemma unat_minus_u32: "unat y \<le> unat x \<Longrightarrow> unat ((x :: u32) - y) = unat x - unat y"
  by (simp add: unat_sub word_le_nat_alt)

lemma word_eq_unat: "(x :: u32) = y \<longleftrightarrow> unat x = unat y"
  by (simp add: word_unat_eq_iff)

lemma unat_pred_u32: "1 \<le> unat (x :: u32) \<Longrightarrow> unat (x - 1) = unat x - 1"
  by (simp add: unat_minus_u32)

lemma word_order_unat: "((x :: u32) < y) = (unat x < unat y)" "((x :: u32) \<le> y) = (unat x \<le> unat y)"
  by (simp_all add: word_less_nat_alt word_le_nat_alt)

section \<open>Decimal text\<close>

text \<open>The \<open>%u\<close> and \<open>%0wu\<close> conversions of \<open>snprintf\<close>.\<close>

definition digit_char :: "nat \<Rightarrow> char" where
  "digit_char d = char_of (48 + d)"

definition char_digit :: "char \<Rightarrow> nat" where
  "char_digit c = of_char c - 48"

definition is_digit :: "char \<Rightarrow> bool" where
  "is_digit c \<longleftrightarrow> CHR ''0'' \<le> c \<and> c \<le> CHR ''9''"

fun show_nat :: "nat \<Rightarrow> string" where
  "show_nat n = (if n < 10 then [digit_char n] else show_nat (n div 10) @ [digit_char (n mod 10)])"

declare show_nat.simps [simp del]

definition pad0 :: "nat \<Rightarrow> string \<Rightarrow> string" where
  "pad0 w s = replicate (w - length s) CHR ''0'' @ s"

text \<open>Reading digits, most significant first.\<close>

definition digits_value :: "string \<Rightarrow> nat" where
  "digits_value s = foldl (\<lambda>v c. v * 10 + char_digit c) 0 s"

lemma is_digit_iff: "is_digit c \<longleftrightarrow> 48 \<le> (of_char c :: nat) \<and> (of_char c :: nat) \<le> 57"
  by (simp add: is_digit_def less_eq_char_def)

lemma of_char_digit_char: "d < 10 \<Longrightarrow> of_char (digit_char d) = (48 + d :: nat)"
  by (simp add: digit_char_def)

lemma char_digit_digit_char [simp]: "d < 10 \<Longrightarrow> char_digit (digit_char d) = d"
  by (simp add: char_digit_def of_char_digit_char)

lemma is_digit_digit_char [simp]: "d < 10 \<Longrightarrow> is_digit (digit_char d)"
  by (simp add: is_digit_iff of_char_digit_char)

lemma digits_value_shift:
  "foldl (\<lambda>v c. v * 10 + char_digit c) v t = v * 10 ^ length t + digits_value t"
proof (induction t arbitrary: v)
  case Nil
  show ?case by (simp add: digits_value_def)
next
  case (Cons c t)
  have "digits_value (c # t) = foldl (\<lambda>v c. v * 10 + char_digit c) (char_digit c) t"
    by (simp add: digits_value_def)
  also have "\<dots> = char_digit c * 10 ^ length t + digits_value t" by (rule Cons)
  finally have d: "digits_value (c # t) = char_digit c * 10 ^ length t + digits_value t" .
  have "foldl (\<lambda>v c. v * 10 + char_digit c) v (c # t)
      = (v * 10 + char_digit c) * 10 ^ length t + digits_value t"
    by (simp only: foldl_Cons Cons)
  then show ?case by (simp only: d) (simp add: algebra_simps)
qed

lemma digits_value_append: "digits_value (s @ t) = digits_value s * 10 ^ length t + digits_value t"
  using digits_value_shift [of "digits_value s" t] by (simp add: digits_value_def)

lemma digits_value_single [simp]: "digits_value [c] = char_digit c"
  by (simp add: digits_value_def)

lemma digits_value_Nil [simp]: "digits_value [] = 0"
  by (simp add: digits_value_def)

lemma show_nat_value [simp]: "digits_value (show_nat n) = n"
proof (induction n rule: show_nat.induct)
  case (1 n)
  then show ?case by (subst show_nat.simps) (simp add: digits_value_append)
qed

lemma show_nat_digits: "\<forall>c \<in> set (show_nat n). is_digit c"
proof (induction n rule: show_nat.induct)
  case (1 n)
  then show ?case by (subst show_nat.simps) auto
qed

lemma show_nat_nonempty [simp]: "show_nat n \<noteq> []"
  by (subst show_nat.simps) simp

lemma show_nat_length: "n < 10 ^ k \<Longrightarrow> 0 < k \<Longrightarrow> length (show_nat n) \<le> k"
proof (induction n arbitrary: k rule: show_nat.induct)
  case (1 n)
  show ?case
  proof (cases "n < 10")
    case True
    then show ?thesis using 1 by (subst show_nat.simps) simp
  next
    case False
    obtain k' where k: "k = Suc k'" "0 < k'"
      using 1(2,3) False by (cases k; cases "k - 1") auto
    have "n div 10 < 10 ^ k'" using 1(2) k by (simp add: less_mult_imp_div_less mult.commute)
    then show ?thesis using 1(1) [OF False] k False by (subst show_nat.simps) simp
  qed
qed

lemma digits_value_zeros: "digits_value (replicate k CHR ''0'') = 0"
  by (induction k) (simp_all add: digits_value_append [of "[_]", simplified] char_digit_def)

lemma digits_value_pad0 [simp]: "digits_value (pad0 w s) = digits_value s"
  by (simp add: pad0_def digits_value_append digits_value_zeros)

lemma length_pad0: "length (pad0 w s) = max w (length s)"
  by (simp add: pad0_def)

lemma pad0_digits: "\<forall>c \<in> set s. is_digit c \<Longrightarrow> \<forall>c \<in> set (pad0 w s). is_digit c"
  by (auto simp: pad0_def is_digit_def)

section \<open>Text comparison\<close>

text \<open>The locale-independent \<open>_stricmp\<close> as a comparison of folded texts.\<close>

definition ascii_fold :: "char \<Rightarrow> char" where
  "ascii_fold c = (if CHR ''A'' \<le> c \<and> c \<le> CHR ''Z'' then char_of (of_char c + (32 :: nat)) else c)"

definition stricmp_equal :: "string \<Rightarrow> string \<Rightarrow> bool" where
  "stricmp_equal a b \<longleftrightarrow> map ascii_fold a = map ascii_fold b"

section \<open>Bounded text buffers and throttled logs\<close>

text \<open>
  \<open>snprintf (buf, n, "%s", s)\<close> stores at most \<open>n - 1\<close> characters.
\<close>

definition strbuf :: "nat \<Rightarrow> string \<Rightarrow> string" where
  "strbuf n s = take (n - 1) s"

definition MAX_PATH :: nat where "MAX_PATH = 260"

lemma strbuf_id [simp]: "length s < n \<Longrightarrow> strbuf n s = s"
  by (simp add: strbuf_def)

lemma strbuf_length: "0 < n \<Longrightarrow> length (strbuf n s) < n"
  by (auto simp: strbuf_def min_def)

lemma strbuf_empty [simp]: "strbuf n [] = []"
  by (simp add: strbuf_def)

text \<open>
  \<open>InterlockedIncrement\<close> of a \<open>LONG\<close>, and the log throttle built on it: the counter after
  the call and whether this line is written (the first 80 and then every 500th).
\<close>

definition interlocked_increment :: "int \<Rightarrow> int" where
  "interlocked_increment x = i32 (x + 1)"

definition log_allowed :: "int \<Rightarrow> int \<times> bool" where
  "log_allowed c = (let index = interlocked_increment c in (index, index \<le> 80 \<or> index mod 500 = 0))"

lemma interlocked_increment_id [simp]:
  "- (2 ^ 31) \<le> x \<Longrightarrow> x < 2 ^ 31 - 1 \<Longrightarrow> interlocked_increment x = x + 1"
  by (simp add: interlocked_increment_def)

end
