(* ===== verification/TextDate.thy ===== *)
theory TextDate
  imports KboPrelude
begin

text \<open>
  Calendar arithmetic of \<open>native/src/core/dates/core_text_date.c\<close> with the bounds of
  \<open>constants/kbo_date_constants.h\<close>: packed dates \<open>yyyymmdd\<close>, day serials, the inverse of
  the serial by binary search over the years and a scan over the months, addition of
  days, and the date text of history rows.  The reference semantics is the day count of
  the proleptic Gregorian calendar on natural numbers.
\<close>

section \<open>Constants\<close>

definition KBO_HISTORY_YEAR_MIN :: u32 where "KBO_HISTORY_YEAR_MIN = 1800"
definition KBO_TEXT_DATE_YEAR_MIN :: u32 where "KBO_TEXT_DATE_YEAR_MIN = 1980"
definition KBO_SEASON_YEAR_MIN :: u32 where "KBO_SEASON_YEAR_MIN = 1982"
definition KBO_SIM_YEAR_MAX :: u32 where "KBO_SIM_YEAR_MAX = 2200"
definition KBO_RECORD_YEAR_MAX :: u32 where "KBO_RECORD_YEAR_MAX = 2300"

section \<open>The code\<close>

definition kbo_yyyymmdd_parts :: "u32 \<Rightarrow> bool \<times> u32 \<times> u32 \<times> u32" where
  "kbo_yyyymmdd_parts yyyymmdd =
     (let year = yyyymmdd div 10000;
          month = (yyyymmdd div 100) mod 100;
          day = yyyymmdd mod 100
      in (year \<ge> KBO_TEXT_DATE_YEAR_MIN \<and> year \<le> KBO_SIM_YEAR_MAX, year, month, day))"

definition kbo_is_leap_year :: "u32 \<Rightarrow> bool" where
  "kbo_is_leap_year year \<longleftrightarrow> (year mod 4 = 0 \<and> year mod 100 \<noteq> 0) \<or> year mod 400 = 0"

definition days_before_month :: "u32 list" where
  "days_before_month = [0, 31, 59, 90, 120, 151, 181, 212, 243, 273, 304, 334]"

definition days_by_month :: "u32 list" where
  "days_by_month = [31, 28, 31, 30, 31, 30, 31, 31, 30, 31, 30, 31]"

definition kbo_date_serial :: "u32 \<Rightarrow> u32 \<Rightarrow> u32 \<Rightarrow> u32" where
  "kbo_date_serial year month day =
     (if year < 1 \<or> month < 1 \<or> month > 12 \<or> day < 1 \<or> day > 31 then 0
      else
        let max_day = (if month = 2 \<and> kbo_is_leap_year year then 29
                       else days_by_month ! unat (month - 1))
        in if day > max_day then 0
           else
             let y = year - 1;
                 serial = y * 365 + y div 4 - y div 100 + y div 400;
                 serial = serial + days_before_month ! unat (month - 1);
                 serial = (if month > 2 \<and> kbo_is_leap_year year then serial + 1 else serial)
             in serial + day)"

definition kbo_yyyymmdd_valid :: "u32 \<Rightarrow> bool" where
  "kbo_yyyymmdd_valid yyyymmdd =
     (case kbo_yyyymmdd_parts yyyymmdd of (ok, year, month, day) \<Rightarrow>
        ok \<and> kbo_date_serial year month day \<noteq> 0)"

text \<open>
  The loops of \<open>kbo_yyyymmdd_from_serial\<close>: the binary search for the year and the scan
  over the months.  The bounds of the search are the constants 1980 and 2200, so its
  \<open>uint32_t\<close> variables never wrap; they are naturals here, read back as a word where the
  code calls \<open>kbo_date_serial\<close>.
\<close>

function year_search :: "u32 \<Rightarrow> nat \<Rightarrow> nat \<Rightarrow> nat" where
  "year_search serial low high =
     (if low < high
      then let mid = low + (high - low + 1) div 2
           in if kbo_date_serial (of_nat mid) 1 1 \<le> serial
              then year_search serial mid high
              else year_search serial low (mid - 1)
      else low)"
  by pat_completeness auto
termination
  by (relation "measure (\<lambda>(serial, low, high). high - low)") auto

declare year_search.simps [simp del]

fun month_scan :: "u32 \<Rightarrow> u32 \<Rightarrow> u32 list \<Rightarrow> u32 \<Rightarrow> u32" where
  "month_scan year month [] day_of_year = 0"
| "month_scan year month (table_day # rest) day_of_year =
     (let max_day = (if month = 2 \<and> kbo_is_leap_year year then 29 else table_day)
      in if day_of_year \<le> max_day then year * 10000 + month * 100 + day_of_year
         else month_scan year (month + 1) rest (day_of_year - max_day))"

definition kbo_yyyymmdd_from_serial :: "u32 \<Rightarrow> u32" where
  "kbo_yyyymmdd_from_serial serial =
     (let min_serial = kbo_date_serial KBO_TEXT_DATE_YEAR_MIN 1 1;
          max_serial = kbo_date_serial KBO_SIM_YEAR_MAX 12 31
      in if serial < min_serial \<or> serial > max_serial then 0
         else let year = of_nat (year_search serial (unat KBO_TEXT_DATE_YEAR_MIN)
                                                    (unat KBO_SIM_YEAR_MAX));
                  day_of_year = serial - kbo_date_serial year 1 1 + 1
              in month_scan year 1 days_by_month day_of_year)"

definition kbo_yyyymmdd_add_days :: "u32 \<Rightarrow> u32 \<Rightarrow> u32" where
  "kbo_yyyymmdd_add_days yyyymmdd add_days =
     (case kbo_yyyymmdd_parts yyyymmdd of (ok, year, month, day) \<Rightarrow>
        if \<not> ok then 0
        else let serial = kbo_date_serial year month day
             in if serial = 0 \<or> 4294967295 - serial < add_days then 0
                else kbo_yyyymmdd_from_serial (serial + add_days))"

section \<open>Reference calendar\<close>

text \<open>
  The calendar on naturals, by counting: the days of a date are the lengths of the years
  before it, of the months before it and its day of the month.
\<close>

definition leap :: "nat \<Rightarrow> bool" where
  "leap y \<longleftrightarrow> (4 dvd y \<and> \<not> 100 dvd y) \<or> 400 dvd y"

definition year_len :: "nat \<Rightarrow> nat" where
  "year_len y = (if leap y then 366 else 365)"

definition month_len :: "nat \<Rightarrow> nat \<Rightarrow> nat" where
  "month_len y m = (if m = 2 then (if leap y then 29 else 28)
                    else if m \<in> {4, 6, 9, 11} then 30 else 31)"

definition real_date :: "nat \<Rightarrow> nat \<Rightarrow> nat \<Rightarrow> bool" where
  "real_date y m d \<longleftrightarrow> 1 \<le> y \<and> 1 \<le> m \<and> m \<le> 12 \<and> 1 \<le> d \<and> d \<le> month_len y m"

definition days_to_year :: "nat \<Rightarrow> nat" where
  "days_to_year y = (\<Sum>k = 1..<y. year_len k)"

definition days_to_month :: "nat \<Rightarrow> nat \<Rightarrow> nat" where
  "days_to_month y m = (\<Sum>k = 1..<m. month_len y k)"

definition day_number :: "nat \<Rightarrow> nat \<Rightarrow> nat \<Rightarrow> nat" where
  "day_number y m d = days_to_year y + days_to_month y m + d"

lemma days_to_year_Suc: "1 \<le> y \<Longrightarrow> days_to_year (Suc y) = days_to_year y + year_len y"
  by (simp add: days_to_year_def)

lemma days_to_month_Suc: "1 \<le> m \<Longrightarrow> days_to_month y (Suc m) = days_to_month y m + month_len y m"
  by (simp add: days_to_month_def)

lemma leap_count_le: "n div 100 \<le> (n :: nat) div 4"
  by (simp add: div_le_mono2)

lemma leap_count_Suc:
  "Suc n div 4 - Suc n div 100 + Suc n div 400 =
     n div 4 - n div 100 + n div 400 + (if leap (Suc n) then 1 else 0)"
proof -
  have a: "Suc n div k = n div k + (if k dvd Suc n then 1 else 0)" for k
    by (simp add: div_Suc dvd_eq_mod_eq_0)
  have b: "4 dvd Suc n" if "100 dvd Suc n" using that by (rule dvd_trans [rotated]) simp
  have c: "100 dvd Suc n" if "400 dvd Suc n" using that by (rule dvd_trans [rotated]) simp
  show ?thesis
    using leap_count_le [of n] b c
    by (cases "4 dvd Suc n"; cases "100 dvd Suc n"; cases "400 dvd Suc n")
      (simp_all only: a leap_def if_True if_False, simp_all add: Suc_diff_le trans_le_add1)
qed

lemma days_to_year_closed:
  "days_to_year (Suc n) = 365 * n + (n div 4 - n div 100 + n div 400)"
proof (induction n)
  case 0
  show ?case by (simp add: days_to_year_def)
next
  case (Suc n)
  have "days_to_year (Suc (Suc n)) = days_to_year (Suc n) + year_len (Suc n)"
    by (rule days_to_year_Suc) simp
  then show ?case using Suc leap_count_Suc [of n] by (simp add: year_len_def)
qed

lemma month_cases12:
  assumes "1 \<le> m" and "m \<le> (12 :: nat)"
  obtains "m = 1" | "m = 2" | "m = 3" | "m = 4" | "m = 5" | "m = 6" | "m = 7" | "m = 8"
    | "m = 9" | "m = 10" | "m = 11" | "m = 12"
proof -
  have "m = 1 \<or> m = 2 \<or> m = 3 \<or> m = 4 \<or> m = 5 \<or> m = 6 \<or> m = 7 \<or> m = 8
      \<or> m = 9 \<or> m = 10 \<or> m = 11 \<or> m = 12"
    using assms by arith
  then show thesis using that by blast
qed

lemma days_to_month_table:
  "days_to_month y 1 = 0" "days_to_month y 2 = 31"
  "days_to_month y 3 = 59 + (if leap y then 1 else 0)"
  "days_to_month y 4 = 90 + (if leap y then 1 else 0)"
  "days_to_month y 5 = 120 + (if leap y then 1 else 0)"
  "days_to_month y 6 = 151 + (if leap y then 1 else 0)"
  "days_to_month y 7 = 181 + (if leap y then 1 else 0)"
  "days_to_month y 8 = 212 + (if leap y then 1 else 0)"
  "days_to_month y 9 = 243 + (if leap y then 1 else 0)"
  "days_to_month y 10 = 273 + (if leap y then 1 else 0)"
  "days_to_month y 11 = 304 + (if leap y then 1 else 0)"
  "days_to_month y 12 = 334 + (if leap y then 1 else 0)"
  "days_to_month y 13 = year_len y"
  by (simp_all add: days_to_month_def month_len_def year_len_def numeral_eq_Suc
      atLeastLessThanSuc)

lemma unat_numeral_u32 [simp]:
  "unat (10000 :: u32) = 10000" "unat (100 :: u32) = 100" "unat (365 :: u32) = 365"
  by simp_all

lemma leap_refines: "kbo_is_leap_year y = leap (unat y)"
  by (simp add: kbo_is_leap_year_def leap_def word_eq_unat unat_simps dvd_eq_mod_eq_0)

section \<open>The code computes the reference calendar\<close>

lemma table_month_len:
  assumes "1 \<le> k" and "k \<le> 12"
  shows "(if k = 2 \<and> leap y then 29 else unat (days_by_month ! (k - 1))) = month_len y k"
  using assms by (rule month_cases12) (simp_all add: days_by_month_def month_len_def)

lemma table_days_to_month:
  assumes "1 \<le> k" and "k \<le> 12"
  shows "unat (days_before_month ! (k - 1)) + (if 2 < k \<and> leap y then 1 else 0) = days_to_month y k"
  using assms by (rule month_cases12)
    (simp_all add: days_before_month_def days_to_month_table [unfolded One_nat_def])

lemma month_len_le: "month_len y k \<le> 31"
  by (simp add: month_len_def)

lemma days_to_month_le: "1 \<le> k \<Longrightarrow> k \<le> 12 \<Longrightarrow> days_to_month y k \<le> 335"
  by (rule month_cases12 [of k]) (auto simp: days_to_month_table [unfolded One_nat_def])

lemma year_days_refines:
  assumes "unat z \<le> 429495"
  shows "unat (z * 365 + z div 4 - z div 100 + z div 400 :: u32) = days_to_year (Suc (unat z))"
proof -
  define n where "n = unat z"
  have n: "unat z = n" "n \<le> 429495"
    using assms by (simp_all add: n_def)
  have q: "n div 4 \<le> n" "n div 100 \<le> n div 4" "n div 400 \<le> n"
    by (simp_all add: leap_count_le)
  have m: "unat (z * 365) = n * 365"
    using n by (simp add: unat_mult_u32)
  have a: "unat (z * 365 + z div 4) = n * 365 + n div 4"
    using m n q by (subst unat_plus_u32) (simp_all add: unat_simps)
  have b: "unat (z * 365 + z div 4 - z div 100) = n * 365 + n div 4 - n div 100"
    using a n q by (subst unat_minus_u32) (simp_all add: unat_simps)
  have "unat (z * 365 + z div 4 - z div 100 + z div 400)
      = n * 365 + n div 4 - n div 100 + n div 400"
    using b n q by (subst unat_plus_u32) (simp_all add: unat_simps)
  then show ?thesis using q n by (simp add: days_to_year_closed mult.commute add.assoc)
qed

lemma days_to_year_le: "1 \<le> y \<Longrightarrow> days_to_year y \<le> 366 * y"
proof -
  assume "1 \<le> y"
  have "days_to_year y \<le> (\<Sum>k = 1..<y. 366)"
    unfolding days_to_year_def by (rule sum_mono) (simp add: year_len_def)
  then show ?thesis by (simp add: algebra_simps)
qed

lemma kbo_date_serial_refines:
  assumes "unat y \<le> 429496"
  shows "unat (kbo_date_serial y m d) =
     (if real_date (unat y) (unat m) (unat d) then day_number (unat y) (unat m) (unat d) else 0)"
proof (cases "1 \<le> unat y \<and> 1 \<le> unat m \<and> unat m \<le> 12 \<and> 1 \<le> unat d \<and> unat d \<le> 31")
  case False
  then have "kbo_date_serial y m d = 0"
    by (auto simp: kbo_date_serial_def word_order_unat)
  moreover have "\<not> real_date (unat y) (unat m) (unat d)"
    using False month_len_le [of "unat y" "unat m"] by (auto simp: real_date_def)
  ultimately show ?thesis by simp
next
  case True
  let ?k = "unat m"
  have k: "1 \<le> ?k" "?k \<le> 12" using True by auto
  have m2: "m = 2 \<longleftrightarrow> ?k = 2" "(2 < m) = (2 < ?k)"
    by (simp_all add: word_eq_unat word_order_unat)
  have max_day: "unat (if m = 2 \<and> kbo_is_leap_year y then 29 else days_by_month ! unat (m - 1))
      = month_len (unat y) ?k"
  proof -
    have "unat (if m = 2 \<and> kbo_is_leap_year y then 29 else days_by_month ! unat (m - 1))
        = (if ?k = 2 \<and> leap (unat y) then 29 else unat (days_by_month ! (?k - 1)))"
      by (simp add: m2 leap_refines unat_pred_u32 [OF k(1)])
    then show ?thesis by (simp only: table_month_len [OF k])
  qed
  define s0 where "s0 = (y - 1) * 365 + (y - 1) div 4 - (y - 1) div 100 + (y - 1) div 400"
  define s1 where "s1 = s0 + days_before_month ! unat (m - 1)"
  define s2 where "s2 = (if 2 < m \<and> kbo_is_leap_year y then s1 + 1 else s1)"
  have s0: "unat s0 = days_to_year (unat y)"
    unfolding s0_def using True assms year_days_refines [of "y - 1"] by (simp add: unat_pred_u32)
  have b: "days_to_year (unat y) \<le> 366 * 429496"
    using days_to_year_le [of "unat y"] True assms by simp
  have t: "unat (days_before_month ! (?k - 1)) + (if 2 < ?k \<and> leap (unat y) then 1 else 0)
      = days_to_month (unat y) ?k"
    by (rule table_days_to_month [OF k])
  have c: "days_to_month (unat y) ?k \<le> 335" by (rule days_to_month_le [OF k])
  have s1: "unat s1 = days_to_year (unat y) + unat (days_before_month ! (?k - 1))"
    unfolding s1_def using s0 b t c k
    by (subst unat_plus_u32) (simp_all add: unat_pred_u32 split: if_splits)
  have s2: "unat s2 = days_to_year (unat y) + days_to_month (unat y) ?k"
    using s1 b t c unat_plus_u32 [of s1 1]
    by (auto simp: s2_def m2 leap_refines split: if_splits)
  have s3: "unat (s2 + d) = day_number (unat y) ?k (unat d)"
    using s2 b c True by (subst unat_plus_u32) (simp_all add: day_number_def)
  have "kbo_date_serial y m d =
      (if d > (if m = 2 \<and> kbo_is_leap_year y then 29 else days_by_month ! unat (m - 1)) then 0
       else s2 + d)"
    using True by (simp add: kbo_date_serial_def Let_def s0_def s1_def s2_def word_order_unat)
  then show ?thesis
    using True max_day s3 by (simp add: real_date_def word_order_unat)
qed

section \<open>Order of the reference calendar\<close>

lemma days_to_month_mono: "m \<le> m' \<Longrightarrow> days_to_month y m \<le> days_to_month y m'"
  unfolding days_to_month_def by (rule sum_mono2) auto

lemma days_to_year_mono: "y \<le> y' \<Longrightarrow> days_to_year y \<le> days_to_year y'"
  unfolding days_to_year_def by (rule sum_mono2) auto

lemma real_date_month_end:
  assumes "real_date y m d" and "m < m'"
  shows "days_to_month y m + d \<le> days_to_month y m'"
proof -
  have "days_to_month y m + d \<le> days_to_month y (Suc m)"
    using assms by (simp add: real_date_def days_to_month_Suc)
  also have "\<dots> \<le> days_to_month y m'"
    using assms by (intro days_to_month_mono) simp
  finally show ?thesis .
qed

lemma real_date_year_end:
  assumes "real_date y m d" and "y < y'"
  shows "day_number y m d \<le> days_to_year y'"
proof -
  have "days_to_month y m + d \<le> days_to_month y 13"
    using assms by (intro real_date_month_end) (auto simp: real_date_def)
  then have "day_number y m d \<le> days_to_year (Suc y)"
    using assms by (simp add: day_number_def real_date_def days_to_year_Suc
        days_to_month_table [unfolded One_nat_def])
  also have "\<dots> \<le> days_to_year y'"
    using assms by (intro days_to_year_mono) simp
  finally show ?thesis .
qed

lemma day_number_less:
  assumes "real_date y m d" and "real_date y' m' d'"
    and "y < y' \<or> (y = y' \<and> (m < m' \<or> (m = m' \<and> d < d')))"
  shows "day_number y m d < day_number y' m' d'"
proof -
  have pos: "1 \<le> d'" using assms(2) by (simp add: real_date_def)
  consider "y < y'" | "y = y'" "m < m'" | "y = y'" "m = m'" "d < d'"
    using assms(3) by blast
  then show ?thesis
  proof cases
    case 1
    with assms(1) have "day_number y m d \<le> days_to_year y'" by (rule real_date_year_end)
    then show ?thesis using pos by (simp add: day_number_def)
  next
    case 2
    with assms(1) have "days_to_month y m + d \<le> days_to_month y m'"
      by (intro real_date_month_end)
    then show ?thesis using 2 pos by (simp add: day_number_def)
  next
    case 3
    then show ?thesis by (simp add: day_number_def)
  qed
qed

section \<open>Packed dates\<close>

text \<open>The serial of a packed date, the expression the callers write out.\<close>

definition serial_of :: "u32 \<Rightarrow> u32" where
  "serial_of d = kbo_date_serial (d div 10000) ((d div 100) mod 100) (d mod 100)"

definition year_of :: "u32 \<Rightarrow> nat" where "year_of d = unat d div 10000"
definition month_of :: "u32 \<Rightarrow> nat" where "month_of d = (unat d div 100) mod 100"
definition day_of :: "u32 \<Rightarrow> nat" where "day_of d = unat d mod 100"

lemma unat_parts:
  "unat (d div 10000) = year_of d"
  "unat ((d div 100) mod 100) = month_of d"
  "unat (d mod 100) = day_of d"
  by (simp_all add: year_of_def month_of_def day_of_def unat_simps)

lemma unat_split: "unat d = year_of d * 10000 + month_of d * 100 + day_of d"
proof -
  have a: "unat d = (unat d div 100) * 100 + day_of d"
    by (simp only: day_of_def div_mult_mod_eq)
  have b: "unat d div 100 = year_of d * 100 + month_of d"
    by (simp add: year_of_def month_of_def div_mult2_eq [of _ 100 100, simplified])
  show ?thesis using a b by simp
qed

lemma year_of_le: "year_of d \<le> 429496"
  using unat_u32_bound [of d] by (simp add: year_of_def)

lemma serial_of_refines:
  "unat (serial_of d) =
     (if real_date (year_of d) (month_of d) (day_of d)
      then day_number (year_of d) (month_of d) (day_of d) else 0)"
  unfolding serial_of_def
  using kbo_date_serial_refines
    [of "d div 10000" "(d div 100) mod 100" "d mod 100",
      unfolded unat_parts(2), unfolded unat_parts(1,3)] year_of_le [of d]
  by simp

lemma valid_iff:
  "kbo_yyyymmdd_valid d \<longleftrightarrow>
     1980 \<le> year_of d \<and> year_of d \<le> 2200 \<and> real_date (year_of d) (month_of d) (day_of d)"
proof -
  have "kbo_yyyymmdd_valid d \<longleftrightarrow>
      1980 \<le> year_of d \<and> year_of d \<le> 2200 \<and> unat (serial_of d) \<noteq> 0"
    by (auto simp: kbo_yyyymmdd_valid_def kbo_yyyymmdd_parts_def serial_of_def Let_def
        word_order_unat unat_parts(1) KBO_TEXT_DATE_YEAR_MIN_def KBO_SIM_YEAR_MAX_def unat_eq_0)
  then show ?thesis
    by (auto simp: serial_of_refines day_number_def real_date_def)
qed

lemma valid_nonzero: "kbo_yyyymmdd_valid d \<Longrightarrow> d \<noteq> 0"
  by (auto simp: valid_iff year_of_def)

lemma not_valid_0 [simp]: "\<not> kbo_yyyymmdd_valid 0"
  using valid_nonzero by blast

lemma serial_of_valid:
  "kbo_yyyymmdd_valid d \<Longrightarrow> unat (serial_of d) = day_number (year_of d) (month_of d) (day_of d)"
  by (simp add: serial_of_refines valid_iff)

lemma packed_less_iff:
  assumes "kbo_yyyymmdd_valid a" and "kbo_yyyymmdd_valid b"
  shows "a < b \<longleftrightarrow> year_of a < year_of b \<or> (year_of a = year_of b \<and>
     (month_of a < month_of b \<or> (month_of a = month_of b \<and> day_of a < day_of b)))"
proof -
  have "month_of a < 100" "day_of a < 100" "month_of b < 100" "day_of b < 100"
    by (simp_all add: month_of_def day_of_def)
  then show ?thesis
    by (simp add: word_order_unat unat_split [of a] unat_split [of b]) linarith
qed

lemma serial_less_if:
  assumes "kbo_yyyymmdd_valid a" and "kbo_yyyymmdd_valid b" and "a < b"
  shows "serial_of a < serial_of b"
proof -
  have "day_number (year_of a) (month_of a) (day_of a) < day_number (year_of b) (month_of b) (day_of b)"
    using assms packed_less_iff [OF assms(1,2)]
    by (intro day_number_less) (auto simp: valid_iff)
  then show ?thesis using assms by (simp add: word_order_unat serial_of_valid)
qed

lemma serial_less_iff:
  assumes "kbo_yyyymmdd_valid a" and "kbo_yyyymmdd_valid b"
  shows "serial_of a < serial_of b \<longleftrightarrow> a < b"
  using serial_less_if [of a b] serial_less_if [of b a] assms
  by (metis less_asym linorder_less_linear)

lemma serial_inj:
  assumes "kbo_yyyymmdd_valid a" and "kbo_yyyymmdd_valid b" and "serial_of a = serial_of b"
  shows "a = b"
  using serial_less_iff [OF assms(1,2)] serial_less_iff [OF assms(2,1)] assms(3)
  by (metis less_irrefl linorder_less_linear)

section \<open>The inverse of the serial\<close>

lemma serial_first_day:
  "1 \<le> y \<Longrightarrow> y \<le> 2200 \<Longrightarrow> unat (kbo_date_serial (of_nat y) 1 1) = days_to_year y + 1"
  by (subst kbo_date_serial_refines)
    (simp_all add: unat_of_nat real_date_def month_len_def day_number_def
      days_to_month_table [unfolded One_nat_def])

lemma year_search_spec:
  assumes "1 \<le> low" and "low \<le> high" and "high \<le> 2200" and "days_to_year low < unat s"
  shows "low \<le> year_search s low high \<and> year_search s low high \<le> high
     \<and> days_to_year (year_search s low high) < unat s
     \<and> (year_search s low high < high \<longrightarrow> unat s \<le> days_to_year (Suc (year_search s low high)))"
  using assms
proof (induction s low high rule: year_search.induct)
  case (1 s low high)
  show ?case
  proof (cases "low < high")
    case False
    then have "year_search s low high = low" by (subst year_search.simps) simp
    then show ?thesis using False "1.prems" by simp
  next
    case True
    define mid where "mid = low + (high - low + 1) div 2"
    have mid: "low < mid" "mid \<le> high" using True by (auto simp: mid_def)
    have guard: "kbo_date_serial (of_nat mid) 1 1 \<le> s \<longleftrightarrow> days_to_year mid < unat s"
      using mid "1.prems" by (simp add: word_order_unat serial_first_day Suc_le_eq)
    show ?thesis
    proof (cases "days_to_year mid < unat s")
      case t: True
      have "year_search s low high = year_search s mid high"
        using True t guard by (simp add: year_search.simps [of s low high] mid_def Let_def)
      then show ?thesis
        using "1.IH"(1) [OF True mid_def] guard t mid "1.prems" by simp
    next
      case f: False
      have eq: "year_search s low high = year_search s low (mid - 1)"
        using True f guard by (simp add: year_search.simps [of s low high] mid_def Let_def)
      have ih: "low \<le> year_search s low (mid - 1) \<and> year_search s low (mid - 1) \<le> mid - 1
          \<and> days_to_year (year_search s low (mid - 1)) < unat s
          \<and> (year_search s low (mid - 1) < mid - 1 \<longrightarrow>
              unat s \<le> days_to_year (Suc (year_search s low (mid - 1))))"
        using "1.IH"(2) [OF True mid_def] guard f mid "1.prems" by simp
      have "unat s \<le> days_to_year (Suc (mid - 1))" using f mid by simp
      with ih have "unat s \<le> days_to_year (Suc (year_search s low (mid - 1)))"
        by (cases "year_search s low (mid - 1) < mid - 1") auto
      then show ?thesis using ih eq mid by auto
    qed
  qed
qed

text \<open>A packed date and its reading back.\<close>

definition pack :: "nat \<Rightarrow> nat \<Rightarrow> nat \<Rightarrow> u32" where
  "pack y m d = of_nat y * 10000 + of_nat m * 100 + of_nat d"

lemma unat_pack:
  assumes "y \<le> 2200" and "m < 100" and "d < 100"
  shows "unat (pack y m d) = y * 10000 + m * 100 + d"
proof -
  have "pack y m d = of_nat (y * 10000 + m * 100 + d)" by (simp add: pack_def)
  then show ?thesis using assms by (simp only: unat_of_nat) simp
qed

lemma pack_parts:
  assumes "y \<le> 2200" and "m < 100" and "d < 100"
  shows "year_of (pack y m d) = y" "month_of (pack y m d) = m" "day_of (pack y m d) = d"
proof -
  have u: "unat (pack y m d) = (y * 100 + m) * 100 + d"
    using unat_pack [OF assms] by simp
  then have q: "unat (pack y m d) div 100 = y * 100 + m" using assms by simp
  then show "month_of (pack y m d) = m" using assms by (simp add: month_of_def)
  have "unat (pack y m d) div 10000 = unat (pack y m d) div 100 div 100"
    by (simp add: div_mult2_eq [of _ 100 100, simplified])
  then show "year_of (pack y m d) = y" using q assms by (simp add: year_of_def)
  show "day_of (pack y m d) = d"
    unfolding day_of_def u using assms by (simp only: mod_mult_self3) simp
qed

lemma drop_days_by_month:
  "1 \<le> k \<Longrightarrow> k \<le> 12 \<Longrightarrow>
     drop (k - 1) days_by_month = days_by_month ! (k - 1) # drop k days_by_month"
  using Cons_nth_drop_Suc [of "k - 1" days_by_month, symmetric]
  by (simp add: days_by_month_def)

lemma month_scan_spec:
  assumes "1 \<le> k" and "k \<le> 12" and "1 \<le> unat w"
    and "unat w + days_to_month y k \<le> year_len y" and "1 \<le> y" and "y \<le> 2200"
  shows "\<exists>m d. real_date y m d \<and> days_to_month y m + d = days_to_month y k + unat w
     \<and> month_scan (of_nat y) (of_nat k) (drop (k - 1) days_by_month) w = pack y m d"
  using assms
proof (induction "12 - k" arbitrary: k w)
  case IH: (0 k w)
  then have k: "k = 12" by simp
  have len: "month_len y 12 = 31" by (simp add: month_len_def)
  have "unat w \<le> 31"
    using IH(5) k by (simp add: days_to_month_table year_len_def split: if_splits)
  then show ?case
    using IH k len
    by (intro exI [of _ 12] exI [of _ "unat w"])
      (simp add: real_date_def days_by_month_def pack_def word_order_unat)
next
  case (Suc x k w)
  have k: "1 \<le> k" "k \<le> 12" "Suc k \<le> 12" using Suc.prems Suc.hyps(2) by auto
  have two: "(of_nat k = (2 :: u32)) = (k = 2)"
    using k by (simp add: word_eq_unat unat_of_nat)
  have lp: "kbo_is_leap_year (of_nat y) = leap y"
    using Suc.prems by (simp add: leap_refines unat_of_nat)
  define mx where "mx = (if of_nat k = (2 :: u32) \<and> kbo_is_leap_year (of_nat y) then 29
     else days_by_month ! (k - 1))"
  have mx: "unat mx = month_len y k"
  proof -
    have "unat mx = (if k = 2 \<and> leap y then 29 else unat (days_by_month ! (k - 1)))"
      by (simp add: mx_def two lp)
    then show ?thesis by (simp only: table_month_len [OF k(1,2)])
  qed
  have step: "month_scan (of_nat y) (of_nat k) (drop (k - 1) days_by_month) w =
     (if w \<le> mx then of_nat y * 10000 + of_nat k * 100 + w
      else month_scan (of_nat y) (of_nat (Suc k)) (drop k days_by_month) (w - mx))"
    unfolding drop_days_by_month [OF k(1,2)] by (simp add: mx_def Let_def add.commute)
  show ?case
  proof (cases "w \<le> mx")
    case True
    then have "real_date y k (unat w)"
      using mx k Suc.prems by (simp add: real_date_def word_order_unat)
    then show ?thesis using True step by (intro exI) (auto simp: pack_def)
  next
    case False
    have w: "unat (w - mx) = unat w - month_len y k" "month_len y k < unat w"
      using False mx by (simp_all add: unat_minus_u32 word_order_unat)
    have "\<exists>m d. real_date y m d \<and> days_to_month y m + d = days_to_month y (Suc k) + unat (w - mx)
       \<and> month_scan (of_nat y) (of_nat (Suc k)) (drop (Suc k - 1) days_by_month) (w - mx) = pack y m d"
      using Suc.hyps(2) Suc.prems w k
      by (intro Suc.hyps(1)) (simp_all add: days_to_month_Suc)
    then show ?thesis
      using step False w k by (simp add: days_to_month_Suc)
  qed
qed

lemma serial_bounds:
  "unat (kbo_date_serial KBO_TEXT_DATE_YEAR_MIN 1 1) = days_to_year 1980 + 1"
  "unat (kbo_date_serial KBO_SIM_YEAR_MAX 12 31) = days_to_year 2201"
  using days_to_year_Suc [of 2200]
  by (simp_all add: kbo_date_serial_refines KBO_TEXT_DATE_YEAR_MIN_def KBO_SIM_YEAR_MAX_def
      real_date_def month_len_def day_number_def days_to_month_table [unfolded One_nat_def]
      year_len_def leap_def)

lemma from_serial_in_range:
  assumes "days_to_year 1980 < unat s" and "unat s \<le> days_to_year 2201"
  shows "kbo_yyyymmdd_valid (kbo_yyyymmdd_from_serial s)
     \<and> serial_of (kbo_yyyymmdd_from_serial s) = s"
proof -
  define y where "y = year_search s 1980 2200"
  have y: "1980 \<le> y" "y \<le> 2200" "days_to_year y < unat s" "y < 2200 \<longrightarrow> unat s \<le> days_to_year (Suc y)"
    using year_search_spec [of 1980 2200 s] assms(1) by (simp_all add: y_def)
  have top: "unat s \<le> days_to_year (Suc y)"
    using y assms(2) by (cases "y < 2200") auto
  have fy: "unat (kbo_date_serial (of_nat y) 1 1) = days_to_year y + 1"
    using y by (simp add: serial_first_day)
  define w where "w = s - kbo_date_serial (of_nat y) 1 1 + 1"
  have d: "unat (s - kbo_date_serial (of_nat y) 1 1) = unat s - (days_to_year y + 1)"
    using y fy by (simp add: unat_minus_u32)
  have w: "unat w = unat s - days_to_year y"
    unfolding w_def using d y unat_u32_bound [of s] by (subst unat_plus_u32) simp_all
  have lim: "unat KBO_TEXT_DATE_YEAR_MIN = 1980" "unat KBO_SIM_YEAR_MAX = 2200"
    by (simp_all add: KBO_TEXT_DATE_YEAR_MIN_def KBO_SIM_YEAR_MAX_def)
  have "\<not> s < kbo_date_serial KBO_TEXT_DATE_YEAR_MIN 1 1" "\<not> s > kbo_date_serial KBO_SIM_YEAR_MAX 12 31"
    using assms by (simp_all add: word_order_unat serial_bounds)
  then have res: "kbo_yyyymmdd_from_serial s = month_scan (of_nat y) 1 days_by_month w"
    by (simp add: kbo_yyyymmdd_from_serial_def Let_def lim y_def w_def)
  have "\<exists>m d. real_date y m d \<and> days_to_month y m + d = days_to_month y 1 + unat w
     \<and> month_scan (of_nat y) (of_nat 1) (drop (1 - 1) days_by_month) w = pack y m d"
    using w y top days_to_year_Suc [of y]
    by (intro month_scan_spec) (simp_all add: days_to_month_table [unfolded One_nat_def])
  then obtain m d' where md: "real_date y m d'" "days_to_month y m + d' = unat w"
      "kbo_yyyymmdd_from_serial s = pack y m d'"
    using res by (auto simp: days_to_month_table [unfolded One_nat_def])
  have b: "m < 100" "d' < 100"
    using md(1) month_len_le [of y m] by (auto simp: real_date_def)
  have v: "kbo_yyyymmdd_valid (pack y m d')"
    using md(1) y b by (simp add: valid_iff pack_parts)
  have "unat (serial_of (pack y m d')) = unat s"
    using serial_of_valid [OF v] md y b w by (simp add: pack_parts day_number_def)
  then have "serial_of (pack y m d') = s" by (simp add: word_eq_unat)
  then show ?thesis using v md(3) by simp
qed

lemma from_serial_out_of_range:
  "unat s \<le> days_to_year 1980 \<or> days_to_year 2201 < unat s \<Longrightarrow> kbo_yyyymmdd_from_serial s = 0"
  by (auto simp: kbo_yyyymmdd_from_serial_def Let_def word_order_unat serial_bounds)

lemma valid_serial_range:
  assumes "kbo_yyyymmdd_valid d"
  shows "days_to_year 1980 < unat (serial_of d) \<and> unat (serial_of d) \<le> days_to_year 2201"
proof -
  have r: "real_date (year_of d) (month_of d) (day_of d)" "1980 \<le> year_of d" "year_of d \<le> 2200"
    using assms by (auto simp: valid_iff)
  have "days_to_year 1980 \<le> days_to_year (year_of d)" using r by (intro days_to_year_mono)
  moreover have "1 \<le> day_of d" using r by (simp add: real_date_def)
  moreover have "day_number (year_of d) (month_of d) (day_of d) \<le> days_to_year 2201"
    using r by (intro real_date_year_end) auto
  ultimately show ?thesis using assms by (simp add: serial_of_valid day_number_def)
qed

lemma days_to_year_2201: "days_to_year 2201 = 803533"
  using days_to_year_closed [of 2200] by simp

lemma days_to_year_1980: "days_to_year 1980 = 722814"
  using days_to_year_closed [of 1979] by simp

lemma from_serial_of: "kbo_yyyymmdd_valid d \<Longrightarrow> kbo_yyyymmdd_from_serial (serial_of d) = d"
  using from_serial_in_range [of "serial_of d"] valid_serial_range [of d] by (auto intro: serial_inj)

section \<open>Adding days\<close>

lemma parts_serial:
  "kbo_yyyymmdd_parts d = (1980 \<le> year_of d \<and> year_of d \<le> 2200, d div 10000, (d div 100) mod 100, d mod 100)"
  by (simp add: kbo_yyyymmdd_parts_def Let_def word_order_unat unat_parts
      KBO_TEXT_DATE_YEAR_MIN_def KBO_SIM_YEAR_MAX_def)

lemma add_days_unfold:
  "kbo_yyyymmdd_add_days d n =
     (if kbo_yyyymmdd_valid d \<and> unat (serial_of d) + unat n \<le> 4294967295
      then kbo_yyyymmdd_from_serial (serial_of d + n) else 0)"
proof -
  have a: "unat (4294967295 - serial_of d) = 4294967295 - unat (serial_of d)"
    using unat_u32_bound [of "serial_of d"] by (subst unat_minus_u32) auto
  have "kbo_yyyymmdd_valid d = (1980 \<le> year_of d \<and> year_of d \<le> 2200 \<and> serial_of d \<noteq> 0)"
    by (auto simp: kbo_yyyymmdd_valid_def parts_serial serial_of_def)
  then show ?thesis
    using unat_u32_bound [of "serial_of d"]
    by (auto simp: kbo_yyyymmdd_add_days_def parts_serial serial_of_def [symmetric] Let_def
        word_order_unat a)
qed

lemma add_days_serial:
  assumes "kbo_yyyymmdd_valid d"
  shows "if unat (serial_of d) + unat n \<le> days_to_year 2201
     then kbo_yyyymmdd_valid (kbo_yyyymmdd_add_days d n)
       \<and> unat (serial_of (kbo_yyyymmdd_add_days d n)) = unat (serial_of d) + unat n
     else kbo_yyyymmdd_add_days d n = 0"
proof (cases "unat (serial_of d) + unat n \<le> 4294967295")
  case False
  then show ?thesis using assms by (simp add: add_days_unfold days_to_year_2201)
next
  case True
  then have s: "unat (serial_of d + n) = unat (serial_of d) + unat n"
    by (intro unat_plus_u32) simp
  have eq: "kbo_yyyymmdd_add_days d n = kbo_yyyymmdd_from_serial (serial_of d + n)"
    using True assms by (simp add: add_days_unfold)
  show ?thesis
    using from_serial_in_range [of "serial_of d + n"] from_serial_out_of_range [of "serial_of d + n"]
      valid_serial_range [OF assms] s eq
    by auto
qed

lemma add_days_nonzero:
  assumes "kbo_yyyymmdd_valid d"
  shows "kbo_yyyymmdd_add_days d n \<noteq> 0 \<longleftrightarrow> unat (serial_of d) + unat n \<le> days_to_year 2201"
  using add_days_serial [OF assms, of n] valid_nonzero by (auto split: if_splits)

lemma add_days_valid:
  "kbo_yyyymmdd_valid d \<Longrightarrow> kbo_yyyymmdd_add_days d n \<noteq> 0 \<Longrightarrow> kbo_yyyymmdd_valid (kbo_yyyymmdd_add_days d n)"
  using add_days_serial [of d n] by (auto split: if_splits)

lemma add_days_serial_eq:
  "kbo_yyyymmdd_valid d \<Longrightarrow> kbo_yyyymmdd_add_days d n \<noteq> 0 \<Longrightarrow>
     unat (serial_of (kbo_yyyymmdd_add_days d n)) = unat (serial_of d) + unat n"
  using add_days_serial [of d n] by (auto split: if_splits)

lemma add_days_greater:
  assumes "kbo_yyyymmdd_valid d" and "kbo_yyyymmdd_add_days d n \<noteq> 0" and "0 < n"
  shows "d < kbo_yyyymmdd_add_days d n"
proof -
  have "serial_of d < serial_of (kbo_yyyymmdd_add_days d n)"
    using add_days_serial_eq [OF assms(1,2)] assms(3) by (simp add: word_order_unat)
  then show ?thesis
    using serial_less_iff [OF assms(1) add_days_valid [OF assms(1,2)]] by simp
qed

section \<open>Interface: successive dates\<close>

text \<open>
  What the consumers of the calendar rely on: a validity test and a successor with an
  invalid end marker.
\<close>

locale date_successor =
  fixes valid :: "'d :: linorder \<Rightarrow> bool"
    and nxt :: "'d \<Rightarrow> 'd"
    and none :: 'd
  assumes none_invalid: "\<not> valid none"
    and nxt_valid: "valid d \<Longrightarrow> nxt d \<noteq> none \<Longrightarrow> valid (nxt d)"
    and nxt_greater: "valid d \<Longrightarrow> nxt d \<noteq> none \<Longrightarrow> d < nxt d"
begin

lemma chain_valid:
  "successively (\<lambda>a b. b = nxt a \<and> b \<noteq> none) (d # ds) \<Longrightarrow> valid d \<Longrightarrow> x \<in> set (d # ds) \<Longrightarrow> valid x"
  by (induction ds arbitrary: d) (auto intro: nxt_valid)

lemma chain_sorted:
  "successively (\<lambda>a b. b = nxt a \<and> b \<noteq> none) (d # ds) \<Longrightarrow> valid d \<Longrightarrow> sorted_wrt (<) (d # ds)"
proof (induction ds arbitrary: d)
  case Nil
  then show ?case by simp
next
  case (Cons e ds)
  then have e: "e = nxt d" "e \<noteq> none" "valid e" "d < e"
    by (auto intro: nxt_valid nxt_greater)
  have "sorted_wrt (<) (e # ds)" using Cons e by auto
  then show ?case using e by auto
qed

end

interpretation kbo_calendar: date_successor kbo_yyyymmdd_valid "\<lambda>d. kbo_yyyymmdd_add_days d 1" 0
  by unfold_locales (auto intro: add_days_valid add_days_greater)

section \<open>Text helpers\<close>

fun ascii_lower :: "char \<Rightarrow> char" where
  "ascii_lower c = (if CHR ''A'' \<le> c \<and> c \<le> CHR ''Z''
     then char_of (of_char c - of_char CHR ''A'' + of_char CHR ''a'' :: nat) else c)"

fun ascii_equals_loop :: "string \<Rightarrow> string \<Rightarrow> bool" where
  "ascii_equals_loop (ca # a) (cb # b) =
     (if ascii_lower ca \<noteq> ascii_lower cb then False else ascii_equals_loop a b)"
| "ascii_equals_loop a b = (a = [] \<and> b = [])"

definition ascii_equals_ignore_case :: "string option \<Rightarrow> string option \<Rightarrow> bool" where
  "ascii_equals_ignore_case a b =
     (case (a, b) of (Some a, Some b) \<Rightarrow> ascii_equals_loop a b | _ \<Rightarrow> False)"

text \<open>
  \<open>kbo_format_history_date\<close>: the output buffer is given by its size (\<open>None\<close> for a NULL
  buffer); the result is the text written, or \<open>None\<close> where the code returns 0.
\<close>

definition kbo_format_history_date ::
    "nat option \<Rightarrow> u32 \<Rightarrow> u32 \<Rightarrow> u32 \<Rightarrow> string option" where
  "kbo_format_history_date out_size year month day =
     (case out_size of None \<Rightarrow> None | Some cap \<Rightarrow>
        if cap < 9 \<or> year < KBO_HISTORY_YEAR_MIN \<or> year > KBO_SIM_YEAR_MAX
           \<or> month < 1 \<or> month > 12 \<or> day < 1 then None
        else
          let max_day = (if month = 2 \<and> kbo_is_leap_year year then 29
                         else days_by_month ! unat (month - 1))
          in if day > max_day then None
             else Some (take (cap - 1)
                     (pad0 4 (show_nat (unat year)) @ pad0 2 (show_nat (unat month))
                        @ pad0 2 (show_nat (unat day)))))"

lemma ascii_equals_loop_iff: "ascii_equals_loop a b \<longleftrightarrow> map ascii_lower a = map ascii_lower b"
  by (induction a b rule: ascii_equals_loop.induct) auto

section \<open>Properties\<close>

text \<open>
  C13: on every year a packed date can hold, the serial the code computes is the number of
  days counted by the reference calendar, and it is 0 exactly on the triples that are not
  dates.
\<close>

theorem date_serial_counts_days:
  assumes "unat year \<le> 429496"
  shows "unat (kbo_date_serial year month day) =
     (if real_date (unat year) (unat month) (unat day)
      then day_number (unat year) (unat month) (unat day) else 0)"
  using assms by (rule kbo_date_serial_refines)

theorem date_serial_counts_days_witness:
  "unat (kbo_date_serial 2024 2 29) = day_number 2024 2 29 \<and> kbo_date_serial 2023 2 29 = 0"
proof -
  have "real_date 2024 2 29" "\<not> real_date 2023 2 29"
    by (simp_all add: real_date_def month_len_def leap_def)
  then show ?thesis
    using date_serial_counts_days [of 2024 2 29] date_serial_counts_days [of 2023 2 29]
    by (simp add: unat_eq_0)
qed

text \<open>
  C14: adding days to a valid date gives the valid date that many days later, and 0 exactly
  when that day lies after the last supported day, 2200-12-31.
\<close>

theorem add_days_correct:
  assumes "kbo_yyyymmdd_valid d"
  shows "if unat (serial_of d) + unat n \<le> day_number 2200 12 31
     then kbo_yyyymmdd_valid (kbo_yyyymmdd_add_days d n)
       \<and> unat (serial_of (kbo_yyyymmdd_add_days d n)) = unat (serial_of d) + unat n
     else kbo_yyyymmdd_add_days d n = 0"
proof -
  have "day_number 2200 12 31 = days_to_year 2201"
    using days_to_year_Suc [of 2200]
    by (simp add: day_number_def days_to_month_table year_len_def leap_def)
  then show ?thesis using add_days_serial [OF assms, of n] by simp
qed

theorem add_days_correct_witness:
  "kbo_yyyymmdd_add_days 20231231 60 = 20240229 \<and> kbo_yyyymmdd_add_days 22001231 1 = 0"
proof -
  have "kbo_yyyymmdd_valid 20231231" "kbo_yyyymmdd_valid 20240229" "kbo_yyyymmdd_valid 22001231"
    by code_simp+
  moreover have "serial_of 20231231 = 738885" "serial_of 20240229 = 738945" "serial_of 22001231 = 803533"
    by code_simp+
  moreover have "day_number 2200 12 31 = 803533"
    using days_to_year_closed [of 2199] by (simp add: day_number_def days_to_month_table leap_def)
  ultimately show ?thesis
    using add_days_correct [of 20231231 60] add_days_correct [of 22001231 1]
      serial_inj [of "kbo_yyyymmdd_add_days 20231231 60" 20240229]
    by (simp add: word_eq_unat)
qed

text \<open>
  Packed dates are ordered as their days are: on valid dates the comparison of the
  packed numbers agrees with the comparison of the serials, and the serial determines the
  date, which \<open>kbo_yyyymmdd_from_serial\<close> recovers.
\<close>

theorem packed_order_and_roundtrip:
  assumes "kbo_yyyymmdd_valid a" and "kbo_yyyymmdd_valid b"
  shows "(a < b \<longleftrightarrow> serial_of a < serial_of b) \<and> kbo_yyyymmdd_from_serial (serial_of a) = a"
  using assms by (simp add: serial_less_iff from_serial_of)

theorem packed_order_and_roundtrip_witness:
  "serial_of 20240229 < serial_of 20240301 \<and> kbo_yyyymmdd_from_serial (serial_of 20240229) = 20240229"
proof -
  have "kbo_yyyymmdd_valid 20240229" "kbo_yyyymmdd_valid 20240301" by code_simp+
  then show ?thesis using packed_order_and_roundtrip [of 20240229 20240301] by simp
qed

end
