(* ===== verification/WaiverDate.thy ===== *)
theory WaiverDate
  imports TextDate
begin

text \<open>
  The date helpers of the waiver and free agency code,
  \<open>native/src/foreign/common/dates/foreign_waiver_date.c\<close>: a second, counting implementation
  of date arithmetic beside \<open>core_text_date.c\<close>, and the parser of date texts.  The lemmas show
  that on valid dates the two implementations agree, that months and years are added as on
  a calendar with the day clamped, and that the parser reads what the formatter writes.

  The loop counter of \<open>kbo_add_days_yyyymmdd\<close> only counts down, so it is the natural
  number the recursion is on.
\<close>

section \<open>Operations\<close>

definition kbo_days_in_month :: "u32 \<Rightarrow> u32 \<Rightarrow> int" where
  "kbo_days_in_month year month =
     (if month < 1 \<or> month > 12 then 0
      else if month = 2 \<and> kbo_is_leap_year year then 29
      else [0, 31, 28, 31, 30, 31, 30, 31, 31, 30, 31, 30, 31] ! unat month)"

definition kbo_add_one_month_yyyymmdd :: "u32 \<Rightarrow> u32" where
  "kbo_add_one_month_yyyymmdd yyyymmdd =
     (let year = yyyymmdd div 10000;
          month = (yyyymmdd div 100) mod 100;
          day = yyyymmdd mod 100
      in if year < KBO_TEXT_DATE_YEAR_MIN \<or> month < 1 \<or> month > 12 \<or> day < 1 \<or> day > 31 then 0
         else
           let month1 = month + 1;
               (month2, year2) = (if month1 > 12 then (1, year + 1) else (month1, year));
               dim = kbo_days_in_month year2 month2
           in if dim \<le> 0 then 0
              else let day2 = (if day > word_of_int dim then word_of_int dim else day)
                   in year2 * 10000 + month2 * 100 + day2)"

fun add_days_loop :: "nat \<Rightarrow> u32 \<Rightarrow> u32 \<Rightarrow> u32 \<Rightarrow> u32" where
  "add_days_loop 0 year month day = year * 10000 + month * 100 + day"
| "add_days_loop (Suc add_days) year month day =
     (let dim = kbo_days_in_month year month
      in if dim \<le> 0 then 0
         else if day + 1 > word_of_int dim then
           (if month + 1 > 12 then add_days_loop add_days (year + 1) 1 1
            else add_days_loop add_days year (month + 1) 1)
         else add_days_loop add_days year month (day + 1))"

definition kbo_add_days_yyyymmdd :: "u32 \<Rightarrow> u32 \<Rightarrow> u32" where
  "kbo_add_days_yyyymmdd yyyymmdd add_days =
     (let year = yyyymmdd div 10000;
          month = (yyyymmdd div 100) mod 100;
          day = yyyymmdd mod 100
      in if year < KBO_TEXT_DATE_YEAR_MIN \<or> month < 1 \<or> month > 12 \<or> day < 1 \<or> day > 31 then 0
         else add_days_loop (unat add_days) year month day)"

definition kbo_add_years_yyyymmdd :: "u32 \<Rightarrow> u32 \<Rightarrow> u32" where
  "kbo_add_years_yyyymmdd yyyymmdd add_years =
     (let year = yyyymmdd div 10000;
          month = (yyyymmdd div 100) mod 100;
          day = yyyymmdd mod 100
      in if year < KBO_HISTORY_YEAR_MIN \<or> year > KBO_SIM_YEAR_MAX
            \<or> month < 1 \<or> month > 12 \<or> day < 1 \<or> day > 31 then 0
         else
           let year1 = year + add_years;
               year2 = (if year1 > KBO_SIM_YEAR_MAX then KBO_SIM_YEAR_MAX else year1);
               dim = kbo_days_in_month year2 month
           in if dim \<le> 0 then 0
              else let day2 = (if day > word_of_int dim then word_of_int dim else day)
                   in year2 * 10000 + month * 100 + day2)"

text \<open>The value of a digit, \<open>c - '0'\<close>, and the text as a NUL-terminated string.\<close>

definition digit_value :: "char \<Rightarrow> u32" where
  "digit_value c = of_nat (of_char c) - 48"

definition kbo_parse_yyyymmdd :: "string option \<Rightarrow> u32 option" where
  "kbo_parse_yyyymmdd date_text =
     (case date_text of
        None \<Rightarrow> None
      | Some text \<Rightarrow>
          let ymd =
            (if length text \<ge> 8 \<and> (\<forall>i \<in> set [0..<8]. is_digit (text ! i)) then Some (take 8 text)
             else if length text \<ge> 10 \<and> text ! 4 = CHR ''-'' \<and> text ! 7 = CHR ''-''
             then Some [text ! 0, text ! 1, text ! 2, text ! 3, text ! 5, text ! 6, text ! 8, text ! 9]
             else None)
          in case ymd of
               None \<Rightarrow> None
             | Some s \<Rightarrow>
                 if (\<exists>i \<in> set [0..<8]. \<not> is_digit (s ! i)) then None
                 else Some (digit_value (s ! 0) * 10000000 + digit_value (s ! 1) * 1000000
                   + digit_value (s ! 2) * 100000 + digit_value (s ! 3) * 10000
                   + digit_value (s ! 4) * 1000 + digit_value (s ! 5) * 100
                   + digit_value (s ! 6) * 10 + digit_value (s ! 7)))"

section \<open>Counting days agrees with the serial arithmetic\<close>

lemma days_in_month_refines:
  assumes "1 \<le> unat m" and "unat m \<le> 12"
  shows "kbo_days_in_month y m = int (month_len (unat y) (unat m))"
proof -
  have "m = 2 \<longleftrightarrow> unat m = 2" by (simp add: word_eq_unat)
  then show ?thesis
    using assms leap_refines [of y]
    by (rule_tac month_cases12 [of "unat m"])
      (simp_all add: kbo_days_in_month_def month_len_def word_order_unat)
qed

lemma month_len_pos: "28 \<le> month_len y m"
  by (simp add: month_len_def)

text \<open>One round of the loop is one day on the calendar.\<close>

lemma add_days_loop_step:
  assumes r: "real_date (unat y) (unat m) (unat d)" and y: "unat y \<le> 2200"
  obtains y' m' d' where "add_days_loop (Suc n) y m d = add_days_loop n y' m' d'"
    and "real_date (unat y') (unat m') (unat d')" and "unat y' \<le> 2201"
    and "day_number (unat y') (unat m') (unat d') = day_number (unat y) (unat m) (unat d) + 1"
proof -
  have b: "1 \<le> unat m" "unat m \<le> 12" "1 \<le> unat y" "1 \<le> unat d" "unat d \<le> month_len (unat y) (unat m)"
    using r by (auto simp: real_date_def)
  let ?len = "month_len (unat y) (unat m)"
  have dim: "kbo_days_in_month y m = int ?len" using b by (intro days_in_month_refines)
  have len: "28 \<le> ?len" "?len \<le> 31" by (simp_all add: month_len_pos month_len_le)
  have plus: "unat (d + 1) = unat d + 1" "unat (m + 1) = unat m + 1" "unat (y + 1) = unat y + 1"
    using b len y by (subst unat_plus_u32; simp)+
  have "unat (word_of_int (int ?len) :: u32) = ?len" using len by (simp add: unat_of_nat)
  then have c1: "(d + 1 > word_of_int (int ?len)) = (unat d + 1 > ?len)"
    by (simp add: word_order_unat plus)
  have c2: "(m + 1 > 12) = (unat m + 1 > 12)" by (simp add: word_order_unat plus)
  note unf = add_days_loop.simps(2) dim Let_def c1 c2
  consider "unat d + 1 \<le> ?len" | "unat d = ?len" "unat m < 12" | "unat d = ?len" "unat m = 12"
    using b by linarith
  then show thesis
  proof cases
    case 1
    show thesis
    proof (rule that [of y m "d + 1"])
      show "add_days_loop (Suc n) y m d = add_days_loop n y m (d + 1)"
        unfolding unf using 1 len by simp
      show "real_date (unat y) (unat m) (unat (d + 1))" using b 1 by (simp add: plus real_date_def)
      show "day_number (unat y) (unat m) (unat (d + 1)) = day_number (unat y) (unat m) (unat d) + 1"
        by (simp add: plus day_number_def)
      show "unat y \<le> 2201" using y by simp
    qed
  next
    case 2
    show thesis
    proof (rule that [of y "m + 1" 1])
      show "add_days_loop (Suc n) y m d = add_days_loop n y (m + 1) 1"
        unfolding unf using 2 len by simp
      show "real_date (unat y) (unat (m + 1)) (unat (1 :: u32))"
        using b 2 month_len_pos [of "unat y" "unat m + 1"] by (simp add: plus real_date_def)
      show "day_number (unat y) (unat (m + 1)) (unat (1 :: u32)) = day_number (unat y) (unat m) (unat d) + 1"
        using b 2 by (simp add: plus day_number_def days_to_month_Suc)
      show "unat y \<le> 2201" using y by simp
    qed
  next
    case 3
    show thesis
    proof (rule that [of "y + 1" 1 1])
      show "add_days_loop (Suc n) y m d = add_days_loop n (y + 1) 1 1"
        unfolding unf using 3 len by simp
      show "real_date (unat (y + 1)) (unat (1 :: u32)) (unat (1 :: u32))"
        using b month_len_pos [of "unat y + 1" 1] by (simp add: plus real_date_def)
      have "day_number (unat y) 12 (unat d) = days_to_year (unat y) + year_len (unat y)"
        using 3 by (simp add: day_number_def days_to_month_table [unfolded One_nat_def] month_len_def year_len_def)
      then show "day_number (unat (y + 1)) (unat (1 :: u32)) (unat (1 :: u32))
          = day_number (unat y) (unat m) (unat d) + 1"
        using b 3 by (simp add: plus day_number_def days_to_year_Suc days_to_month_def)
      show "unat (y + 1) \<le> 2201" using y plus by simp
    qed
  qed
qed

lemma add_days_loop_spec:
  assumes "real_date (unat y) (unat m) (unat d)" and "unat y \<le> 2200" and "1980 \<le> unat y"
    and "day_number (unat y) (unat m) (unat d) + n \<le> days_to_year 2201"
  shows "kbo_yyyymmdd_valid (add_days_loop n y m d)
     \<and> unat (serial_of (add_days_loop n y m d)) = day_number (unat y) (unat m) (unat d) + n"
  using assms
proof (induction n arbitrary: y m d)
  case 0
  have b: "unat m < 100" "unat d < 100"
    using 0(1) month_len_le [of "unat y" "unat m"] by (auto simp: real_date_def)
  have p: "add_days_loop 0 y m d = pack (unat y) (unat m) (unat d)" by (simp add: pack_def)
  have "kbo_yyyymmdd_valid (pack (unat y) (unat m) (unat d))"
    using 0 b by (simp add: valid_iff pack_parts)
  then show ?case using 0 b unfolding p by (simp add: serial_of_valid pack_parts)
next
  case (Suc n)
  obtain y' m' d' where s: "add_days_loop (Suc n) y m d = add_days_loop n y' m' d'"
      "real_date (unat y') (unat m') (unat d')" "unat y' \<le> 2201"
      "day_number (unat y') (unat m') (unat d') = day_number (unat y) (unat m) (unat d) + 1"
    by (rule add_days_loop_step [OF Suc.prems(1,2)])
  have "unat y' \<le> 2200"
  proof (rule ccontr)
    assume "\<not> unat y' \<le> 2200"
    then have y': "unat y' = 2201" using s(3) by simp
    have "1 \<le> unat d'" using s(2) by (simp add: real_date_def)
    then have "days_to_year 2201 < day_number (unat y') (unat m') (unat d')"
      by (simp add: y' day_number_def)
    then show False using s(4) Suc.prems(4) by simp
  qed
  moreover have "unat y \<le> unat y'"
  proof (rule ccontr)
    assume "\<not> unat y \<le> unat y'"
    then have "day_number (unat y') (unat m') (unat d') \<le> days_to_year (unat y)"
      using s(2) by (intro real_date_year_end) auto
    then show False using s(4) by (simp add: day_number_def)
  qed
  ultimately have "1980 \<le> unat y'" "unat y' \<le> 2200" using Suc.prems(3) by simp_all
  from Suc.IH [OF s(2) this(2,1)] Suc.prems(4) s(1,4) show ?case by simp
qed

lemma day_of_div_100 [simp]: "day_of (d div 100) = month_of d"
  using unat_parts(2,3) by metis

lemma unpacked_valid:
  assumes "kbo_yyyymmdd_valid d"
  shows "\<not> (d div 10000 < KBO_TEXT_DATE_YEAR_MIN \<or> (d div 100) mod 100 < 1 \<or> (d div 100) mod 100 > 12
     \<or> d mod 100 < 1 \<or> d mod 100 > 31)"
proof -
  have "1980 \<le> year_of d" "1 \<le> month_of d" "month_of d \<le> 12" "1 \<le> day_of d" "day_of d \<le> 31"
    using assms month_len_le [of "year_of d" "month_of d"] by (auto simp: valid_iff real_date_def)
  then show ?thesis by (simp add: word_order_unat unat_parts KBO_TEXT_DATE_YEAR_MIN_def)
qed

lemma add_days_agree:
  assumes v: "kbo_yyyymmdd_valid d" and r: "kbo_yyyymmdd_add_days d n \<noteq> 0"
  shows "kbo_add_days_yyyymmdd d n = kbo_yyyymmdd_add_days d n"
proof -
  let ?r = "add_days_loop (unat n) (d div 10000) ((d div 100) mod 100) (d mod 100)"
  have v': "1980 \<le> year_of d" "year_of d \<le> 2200" "real_date (year_of d) (month_of d) (day_of d)"
    using v by (auto simp: valid_iff)
  have s: "unat (serial_of d) = day_number (year_of d) (month_of d) (day_of d)"
    using v by (rule serial_of_valid)
  have spec: "kbo_yyyymmdd_valid ?r \<and> unat (serial_of ?r) = unat (serial_of d) + unat n"
    using add_days_loop_spec [of "d div 10000" "(d div 100) mod 100" "d mod 100" "unat n"]
      v' r add_days_nonzero [OF v, of n] unfolding unat_parts s by simp
  have "?r = kbo_yyyymmdd_add_days d n"
  proof (rule serial_inj)
    show "kbo_yyyymmdd_valid ?r" using spec by blast
    show "kbo_yyyymmdd_valid (kbo_yyyymmdd_add_days d n)" by (rule add_days_valid [OF v r])
    have "unat (serial_of ?r) = unat (serial_of (kbo_yyyymmdd_add_days d n))"
      using spec add_days_serial_eq [OF v r] by (simp only:)
    then show "serial_of ?r = serial_of (kbo_yyyymmdd_add_days d n)" by (simp only: word_eq_unat)
  qed
  then show ?thesis
    using unpacked_valid [OF v] by (simp only: kbo_add_days_yyyymmdd_def Let_def if_False)
qed

section \<open>Parsing and formatting\<close>

lemma digit_value_digits: "is_digit c \<Longrightarrow> digit_value c = of_nat (char_digit c)"
  by (simp add: digit_value_def char_digit_def is_digit_iff of_nat_diff)

lemma list8: "length s = 8 \<Longrightarrow> \<exists>a b c d e f g h. s = [a, b, c, d, e, f, g, h]"
  by (auto simp: length_Suc_conv numeral_eq_Suc)

lemma digits_value8:
  "digits_value [a, b, c, d, e, f, g, h] = char_digit a * 10000000 + char_digit b * 1000000
     + char_digit c * 100000 + char_digit d * 10000 + char_digit e * 1000 + char_digit f * 100
     + char_digit g * 10 + char_digit h"
  by (simp add: digits_value_def)

lemma parse_digits:
  assumes "length s = 8" and "\<forall>c \<in> set s. is_digit c"
  shows "kbo_parse_yyyymmdd (Some (s @ rest)) = Some (of_nat (digits_value s))"
proof -
  obtain a b c d e f g h where s: "s = [a, b, c, d, e, f, g, h]" using list8 [OF assms(1)] by blast
  have i: "[0..<8] = [0, 1, 2, 3, 4, 5, 6, 7 :: nat]" by code_simp
  have "s ! 1 = b" "s ! 2 = c" "s ! 3 = d" "s ! 4 = e" "s ! 5 = f" "s ! 6 = g" "s ! 7 = h"
    by (simp_all add: s numeral_eq_Suc)
  moreover have "\<forall>i \<in> set [0..<8]. is_digit (s ! i)" using assms by simp
  ultimately show ?thesis
    using assms by (simp add: kbo_parse_yyyymmdd_def Let_def nth_append s digits_value8 i
        digit_value_digits algebra_simps)
qed

lemma parse_dashed:
  assumes "length s = 8" and "\<forall>c \<in> set s. is_digit c"
  shows "kbo_parse_yyyymmdd (Some (take 4 s @ ''-'' @ take 2 (drop 4 s) @ ''-'' @ drop 6 s @ rest))
     = Some (of_nat (digits_value s))"
proof -
  obtain a b c d e f g h where s: "s = [a, b, c, d, e, f, g, h]" using list8 [OF assms(1)] by blast
  have i: "[0..<8] = [0, 1, 2, 3, 4, 5, 6, 7 :: nat]" by code_simp
  have n: "\<not> is_digit (CHR ''-'')" by (simp add: is_digit_iff)
  show ?thesis
    using assms unfolding s
    by (simp add: kbo_parse_yyyymmdd_def Let_def digits_value8 i n digit_value_digits algebra_simps)
qed

lemma pad0_show_length: "n < 10 ^ k \<Longrightarrow> 0 < k \<Longrightarrow> length (pad0 k (show_nat n)) = k"
  using show_nat_length [of n k] by (simp add: length_pad0 max_def)

lemma format_then_parse:
  assumes v: "kbo_yyyymmdd_valid d" and cap: "9 \<le> cap"
  obtains s where "length s = 8" and "\<forall>c \<in> set s. is_digit c" and "of_nat (digits_value s) = d"
    and "kbo_format_history_date (Some cap) (d div 10000) ((d div 100) mod 100) (d mod 100) = Some s"
proof -
  have r: "1980 \<le> year_of d" "year_of d \<le> 2200" "1 \<le> month_of d" "month_of d \<le> 12" "1 \<le> day_of d"
      "day_of d \<le> month_len (year_of d) (month_of d)"
    using v by (auto simp: valid_iff real_date_def)
  have "day_of d \<le> 31" using r(6) month_len_le [of "year_of d" "month_of d"] by simp
  let ?s = "pad0 4 (show_nat (year_of d)) @ pad0 2 (show_nat (month_of d)) @ pad0 2 (show_nat (day_of d))"
  have l: "length (pad0 4 (show_nat (year_of d))) = 4" "length (pad0 2 (show_nat (month_of d))) = 2"
      "length (pad0 2 (show_nat (day_of d))) = 2"
    using r \<open>day_of d \<le> 31\<close> by (auto intro!: pad0_show_length)
  have len: "length ?s = 8" using l by simp
  have m2: "((d div 100) mod 100 = 2) = (month_of d = 2)"
    using unat_parts(2) [of d] by (simp add: word_eq_unat)
  have lp: "kbo_is_leap_year (d div 10000) = leap (year_of d)"
    by (simp add: leap_refines unat_parts)
  have "unat ((d div 100) mod 100 - 1) = month_of d - 1"
    using unat_pred_u32 [of "(d div 100) mod 100"] r by (simp add: unat_parts)
  then have md: "unat (if (d div 100) mod 100 = 2 \<and> kbo_is_leap_year (d div 10000) then 29
        else days_by_month ! unat ((d div 100) mod 100 - 1)) = month_len (year_of d) (month_of d)"
    using table_month_len [of "month_of d" "year_of d"] r by (auto simp: m2 lp)
  show thesis
  proof (rule that [of ?s])
    show "length ?s = 8" by (rule len)
    show "\<forall>c \<in> set ?s. is_digit c"
      using pad0_digits [OF show_nat_digits] by auto
    have "digits_value ?s = unat d"
      using l by (simp add: digits_value_append unat_split [of d])
    then show "of_nat (digits_value ?s) = d" by simp
    show "kbo_format_history_date (Some cap) (d div 10000) ((d div 100) mod 100) (d mod 100) = Some ?s"
      using cap r len md
      by (simp add: kbo_format_history_date_def Let_def word_order_unat unat_parts
          KBO_HISTORY_YEAR_MIN_def KBO_SIM_YEAR_MAX_def)
  qed
qed

section \<open>Clamping the day\<close>

lemma clamp_day:
  assumes "1 \<le> unat m" and "unat m \<le> 12" and "1 \<le> day_of d"
  shows "\<not> kbo_days_in_month y m \<le> 0"
    and "(if d mod 100 > word_of_int (kbo_days_in_month y m) then word_of_int (kbo_days_in_month y m)
          else d mod 100) = (of_nat (min (day_of d) (month_len (unat y) (unat m))) :: u32)"
proof -
  let ?len = "month_len (unat y) (unat m)"
  have dim: "kbo_days_in_month y m = int ?len" using assms by (intro days_in_month_refines)
  show "\<not> kbo_days_in_month y m \<le> 0" using dim month_len_pos [of "unat y" "unat m"] by simp
  have len: "unat (word_of_int (int ?len) :: u32) = ?len"
    using month_len_le [of "unat y" "unat m"] by (simp add: unat_of_nat)
  have "d mod 100 = of_nat (day_of d)" by (simp only: unat_parts(3) [symmetric]) simp
  then show "(if d mod 100 > word_of_int (kbo_days_in_month y m) then word_of_int (kbo_days_in_month y m)
      else d mod 100) = (of_nat (min (day_of d) ?len) :: u32)"
    unfolding dim using len unat_parts(3) [of d] by (auto simp: word_order_unat min_def)
qed

lemma parts_as_words:
  "d div 10000 = of_nat (year_of d)" "(d div 100) mod 100 = of_nat (month_of d)"
  by (simp_all only: unat_parts [symmetric]) simp_all

lemma add_one_month_clamps:
  assumes "kbo_yyyymmdd_valid d"
  shows "kbo_add_one_month_yyyymmdd d =
     (let (y, m) = (if month_of d = 12 then (year_of d + 1, 1) else (year_of d, month_of d + 1))
      in pack y m (min (day_of d) (month_len y m)))"
proof -
  have r: "1980 \<le> year_of d" "year_of d \<le> 2200" "1 \<le> month_of d" "month_of d \<le> 12" "1 \<le> day_of d"
    using assms(1) by (auto simp: valid_iff real_date_def)
  have m1: "unat ((d div 100) mod 100 + 1) = month_of d + 1"
    using r by (subst unat_plus_u32) (simp_all add: unat_parts)
  have y1: "unat (d div 10000 + 1) = year_of d + 1"
    using r by (subst unat_plus_u32) (simp_all add: unat_parts)
  have g: "((d div 100) mod 100 + 1 > 12) = (month_of d = 12)"
    using r m1 by (simp only: word_order_unat) auto
  define y2 :: u32 where "y2 = (if month_of d = 12 then d div 10000 + 1 else d div 10000)"
  define m2 :: u32 where "m2 = (if month_of d = 12 then 1 else (d div 100) mod 100 + 1)"
  have u: "unat y2 = (if month_of d = 12 then year_of d + 1 else year_of d)"
      "unat m2 = (if month_of d = 12 then 1 else month_of d + 1)"
    using m1 y1 by (simp_all add: y2_def m2_def unat_parts)
  have um: "1 \<le> unat m2" "unat m2 \<le> 12" using u(2) r by auto
  have "kbo_add_one_month_yyyymmdd d =
      (if kbo_days_in_month y2 m2 \<le> 0 then 0
       else y2 * 10000 + m2 * 100
         + (if d mod 100 > word_of_int (kbo_days_in_month y2 m2)
            then word_of_int (kbo_days_in_month y2 m2) else d mod 100))"
    using unpacked_valid [OF assms(1)] unfolding kbo_add_one_month_yyyymmdd_def Let_def g
    by (simp only: y2_def m2_def if_False split: if_split) simp
  also have "\<dots> = y2 * 10000 + m2 * 100 + of_nat (min (day_of d) (month_len (unat y2) (unat m2)))"
    by (simp only: clamp_day [OF um r(5)] if_False)
  also have "\<dots> = pack (unat y2) (unat m2) (min (day_of d) (month_len (unat y2) (unat m2)))"
    by (simp add: pack_def)
  finally show ?thesis using u by (cases "month_of d = 12") simp_all
qed

lemma add_years_clamps:
  assumes "kbo_yyyymmdd_valid d" and "unat n < 4294960000"
  shows "kbo_add_years_yyyymmdd d n =
     (let y = min 2200 (year_of d + unat n)
      in pack y (month_of d) (min (day_of d) (month_len y (month_of d))))"
proof -
  have r: "1980 \<le> year_of d" "year_of d \<le> 2200" "1 \<le> month_of d" "month_of d \<le> 12" "1 \<le> day_of d"
      "day_of d \<le> 31"
    using assms(1) month_len_le [of "year_of d" "month_of d"] by (auto simp: valid_iff real_date_def)
  have yn: "unat (d div 10000 + n) = year_of d + unat n"
    using r assms(2) by (subst unat_plus_u32) (simp_all add: unat_parts)
  define y2 where "y2 = (if d div 10000 + n > KBO_SIM_YEAR_MAX then KBO_SIM_YEAR_MAX else d div 10000 + n)"
  have u: "unat y2 = min 2200 (year_of d + unat n)"
    using yn by (simp add: y2_def word_order_unat KBO_SIM_YEAR_MAX_def min_def)
  have um: "1 \<le> unat ((d div 100) mod 100)" "unat ((d div 100) mod 100) \<le> 12"
    using r by (simp_all add: unat_parts)
  have guard: "\<not> (d div 10000 < KBO_HISTORY_YEAR_MIN \<or> d div 10000 > KBO_SIM_YEAR_MAX
      \<or> (d div 100) mod 100 < 1 \<or> (d div 100) mod 100 > 12 \<or> d mod 100 < 1 \<or> d mod 100 > 31)"
    using r by (simp add: word_order_unat unat_parts KBO_HISTORY_YEAR_MIN_def KBO_SIM_YEAR_MAX_def)
  have "kbo_add_years_yyyymmdd d n = y2 * 10000 + (d div 100) mod 100 * 100
      + of_nat (min (day_of d) (month_len (unat y2) (unat ((d div 100) mod 100))))"
    unfolding kbo_add_years_yyyymmdd_def Let_def y2_def [symmetric]
    by (simp only: guard if_False clamp_day [OF um r(5)])
  also have "\<dots> = pack (unat y2) (unat ((d div 100) mod 100))
      (min (day_of d) (month_len (unat y2) (unat ((d div 100) mod 100))))"
    by (simp add: pack_def)
  finally show ?thesis by (simp only: u unat_parts(2) Let_def)
qed

section \<open>Properties\<close>

text \<open>
  The two implementations of date arithmetic agree: counting the days one by one
  through the month lengths gives the date the serial arithmetic gives, for every valid
  date and every number of days up to the last supported date.
\<close>

theorem counting_adder_agrees:
  assumes "kbo_yyyymmdd_valid d" and "kbo_yyyymmdd_add_days d n \<noteq> 0"
  shows "kbo_add_days_yyyymmdd d n = kbo_yyyymmdd_add_days d n"
  using assms by (rule add_days_agree)

theorem counting_adder_agrees_witness:
  "kbo_add_days_yyyymmdd 20240228 2 = kbo_yyyymmdd_add_days 20240228 2
     \<and> kbo_yyyymmdd_add_days 20240228 2 = 20240301"
proof -
  have v: "kbo_yyyymmdd_valid 20240228" by code_simp
  have v': "kbo_yyyymmdd_valid 20240301" by code_simp
  have "serial_of 20240228 = 738944" "serial_of 20240301 = 738946" by code_simp+
  then have s: "unat (serial_of 20240301) = unat (serial_of 20240228) + unat (2 :: u32)"
    and le: "unat (serial_of 20240228) + unat (2 :: u32) \<le> 803533"
    by simp_all
  have n: "kbo_yyyymmdd_add_days 20240228 2 \<noteq> 0"
  proof -
    show ?thesis using le by (simp only: add_days_nonzero [OF v] days_to_year_2201)
  qed
  have "unat (serial_of (kbo_yyyymmdd_add_days 20240228 2)) = unat (serial_of 20240301)"
    by (simp only: add_days_serial_eq [OF v n] s)
  then have "kbo_yyyymmdd_add_days 20240228 2 = 20240301"
    by (intro serial_inj [OF add_days_valid [OF v n] v']) (simp only: word_eq_unat)
  then show ?thesis using counting_adder_agrees [OF v n] by (simp only:)
qed

text \<open>
  What the formatter writes, the parser reads: the text of a valid date parses back to
  it, with or without dashes between its parts and whatever follows.
\<close>

theorem date_text_roundtrip:
  assumes "kbo_yyyymmdd_valid d" and "9 \<le> cap"
  shows "\<exists>s. kbo_format_history_date (Some cap) (d div 10000) ((d div 100) mod 100) (d mod 100) = Some s
     \<and> length s = 8
     \<and> kbo_parse_yyyymmdd (Some (s @ rest)) = Some d
     \<and> kbo_parse_yyyymmdd (Some (take 4 s @ ''-'' @ take 2 (drop 4 s) @ ''-'' @ drop 6 s @ rest)) = Some d"
proof -
  obtain s where s: "length s = 8" "\<forall>c \<in> set s. is_digit c" "of_nat (digits_value s) = d"
      "kbo_format_history_date (Some cap) (d div 10000) ((d div 100) mod 100) (d mod 100) = Some s"
    by (rule format_then_parse [OF assms])
  then show ?thesis
    using parse_digits [OF s(1,2), of rest] parse_dashed [OF s(1,2), of rest] by (simp only: s(3)) simp
qed

theorem date_text_roundtrip_witness:
  "kbo_parse_yyyymmdd (Some ''2024-02-29T00'') = Some 20240229"
proof -
  have v: "kbo_yyyymmdd_valid 20240229" by code_simp
  have f: "kbo_format_history_date (Some 9) (20240229 div 10000) ((20240229 div 100) mod 100) (20240229 mod 100)
      = Some ''20240229''" by code_simp
  obtain s where "kbo_format_history_date (Some 9) (20240229 div 10000) ((20240229 div 100) mod 100) (20240229 mod 100)
      = Some s" "kbo_parse_yyyymmdd (Some (take 4 s @ ''-'' @ take 2 (drop 4 s) @ ''-'' @ drop 6 s @ ''T00''))
      = Some 20240229"
    using date_text_roundtrip [OF v, of 9 "''T00''"] by auto
  then show ?thesis using f by simp
qed

text \<open>
  Adding a month or years moves the month or the year and clamps the day to the length
  of the month reached; years stop at 2200.
\<close>

theorem months_and_years_clamp_the_day:
  assumes "kbo_yyyymmdd_valid d" and "unat n < 4294960000"
  shows "kbo_add_one_month_yyyymmdd d =
     (let (y, m) = (if month_of d = 12 then (year_of d + 1, 1) else (year_of d, month_of d + 1))
      in pack y m (min (day_of d) (month_len y m)))
   \<and> kbo_add_years_yyyymmdd d n =
     (let y = min 2200 (year_of d + unat n)
      in pack y (month_of d) (min (day_of d) (month_len y (month_of d))))"
  using add_one_month_clamps [OF assms(1)] add_years_clamps [OF assms] by (rule conjI)

theorem months_and_years_clamp_the_day_witness:
  "kbo_add_one_month_yyyymmdd 20240131 = 20240229 \<and> kbo_add_years_yyyymmdd 20240229 1 = 20250228"
proof -
  have v: "kbo_yyyymmdd_valid 20240131" "kbo_yyyymmdd_valid 20240229" by code_simp+
  show ?thesis
    using months_and_years_clamp_the_day [OF v(1), of 0]
      months_and_years_clamp_the_day [OF v(2), of 1]
    by (simp add: month_of_def year_of_def day_of_def pack_def month_len_def leap_def)
qed

end
