(* ===== verification/DateBoundary.thy ===== *)
theory DateBoundary
  imports TextDate
begin

text \<open>
  The date boundary record of \<open>native/src/core/dates/boundary/current_date_boundary.c\<close>:
  the save scope (path and epoch) that accepted dates belong to, the flags computed for an
  accepted date, and the latest accepted context.  The module's globals are the fields of
  \<open>date_boundary\<close>; its lock makes every operation atomic.  Log text is not modelled, the
  log throttle counter is.  The current save path is read from the running game, so it is
  an input: \<open>None\<close> where \<open>kbo_get_current_save_path\<close> returns 0.
\<close>

unbundle bit_operations_syntax

section \<open>Constants, contexts and the module state\<close>

definition SOURCE_LIVE_POST_ADVANCE :: u32 where "SOURCE_LIVE_POST_ADVANCE = 1"
definition SOURCE_SAVE_ENTER :: u32 where "SOURCE_SAVE_ENTER = 2"
definition SOURCE_WATCHPOINT :: u32 where "SOURCE_WATCHPOINT = 3"

definition FLAG_ACCEPTED :: u32 where "FLAG_ACCEPTED = 0x01"
definition FLAG_TRUSTED :: u32 where "FLAG_TRUSTED = 0x02"
definition FLAG_FIRST_DATE :: u32 where "FLAG_FIRST_DATE = 0x04"
definition FLAG_SAVE_SCOPE_KNOWN :: u32 where "FLAG_SAVE_SCOPE_KNOWN = 0x08"
definition FLAG_SAVE_SCOPE_CHANGED :: u32 where "FLAG_SAVE_SCOPE_CHANGED = 0x10"
definition FLAG_SAVE_ENTER :: u32 where "FLAG_SAVE_ENTER = 0x80"

lemmas boundary_flags =
  FLAG_ACCEPTED_def FLAG_TRUSTED_def FLAG_FIRST_DATE_def FLAG_SAVE_SCOPE_KNOWN_def
  FLAG_SAVE_SCOPE_CHANGED_def FLAG_SAVE_ENTER_def

record boundary_context =
  bc_date :: u32
  bc_previous_date :: u32
  bc_expected_next_date :: u32
  bc_sequence :: u32
  bc_site_rva :: u32
  bc_source_kind :: u32
  bc_save_epoch :: u32
  bc_flags :: u32
  bc_save_path :: string

definition empty_context :: boundary_context where
  "empty_context = \<lparr>bc_date = 0, bc_previous_date = 0, bc_expected_next_date = 0,
     bc_sequence = 0, bc_site_rva = 0, bc_source_kind = 0, bc_save_epoch = 0, bc_flags = 0,
     bc_save_path = []\<rparr>"

record date_boundary =
  db_latest_context :: boundary_context
  db_latest_valid :: bool
  db_save_path :: string
  db_save_epoch :: int
  db_log_count :: int

definition initial_boundary :: date_boundary where
  "initial_boundary = \<lparr>db_latest_context = empty_context, db_latest_valid = False,
     db_save_path = [], db_save_epoch = 1, db_log_count = 0\<rparr>"

section \<open>Operations\<close>

definition boundary_log_allowed :: "date_boundary \<Rightarrow> date_boundary \<times> bool" where
  "boundary_log_allowed b =
     (case log_allowed (db_log_count b) of (c, ok) \<Rightarrow> (b\<lparr>db_log_count := c\<rparr>, ok))"

definition kbo_date_boundary_source_label :: "u32 \<Rightarrow> string" where
  "kbo_date_boundary_source_label source_kind =
     (if source_kind = SOURCE_LIVE_POST_ADVANCE then ''live_post_advance''
      else if source_kind = SOURCE_SAVE_ENTER then ''save_enter''
      else if source_kind = SOURCE_WATCHPOINT then ''watchpoint''
      else ''unknown'')"

definition kbo_date_boundary_current_save_epoch :: "date_boundary \<Rightarrow> u32" where
  "kbo_date_boundary_current_save_epoch b =
     (if db_save_epoch b > 0 then word_of_int (db_save_epoch b) else 0)"

definition kbo_date_boundary_current_save_path :: "string option \<Rightarrow> bool \<times> string" where
  "kbo_date_boundary_current_save_path cur_save =
     (case cur_save of None \<Rightarrow> (False, []) | Some p \<Rightarrow> (p \<noteq> [], p))"

text \<open>
  The result of the refresh: the new state, whether the scope changed, the epoch and
  whether a save scope is known.
\<close>

definition kbo_date_boundary_refresh_save_scope ::
    "string option \<Rightarrow> date_boundary \<Rightarrow> date_boundary \<times> bool \<times> u32 \<times> bool" where
  "kbo_date_boundary_refresh_save_scope cur_save b =
     (let (known, save_path) = kbo_date_boundary_current_save_path cur_save;
          changed = (known \<and> db_save_path b \<noteq> save_path);
          b1 = (if changed then
                  let epoch = interlocked_increment (db_save_epoch b)
                  in b\<lparr>db_save_path := strbuf MAX_PATH save_path,
                       db_save_epoch := (if epoch \<le> 0 then 1 else epoch)\<rparr>
                else b);
          epoch = kbo_date_boundary_current_save_epoch b1;
          scope_known = (db_save_path b1 \<noteq> []);
          b2 = (if changed then fst (boundary_log_allowed b1) else b1)
      in (b2, changed, epoch, scope_known))"

definition kbo_date_boundary_reset :: "date_boundary \<Rightarrow> date_boundary" where
  "kbo_date_boundary_reset b =
     (let epoch = interlocked_increment (db_save_epoch b);
          b1 = b\<lparr>db_latest_context := empty_context, db_latest_valid := False, db_save_path := [],
                 db_save_epoch := (if epoch \<le> 0 then 1 else epoch)\<rparr>
      in fst (boundary_log_allowed b1))"

definition kbo_date_boundary_context_is_trusted :: "u32 \<Rightarrow> u32 \<Rightarrow> u32 \<Rightarrow> u32 \<Rightarrow> bool" where
  "kbo_date_boundary_context_is_trusted date previous_date expected_next_date source_kind =
     (if \<not> kbo_yyyymmdd_valid date then False
      else if previous_date = 0 then True
      else if source_kind = SOURCE_SAVE_ENTER then False
      else expected_next_date \<noteq> 0 \<and> date = expected_next_date)"

text \<open>The statement \<open>if (c) flags |= f\<close>.\<close>

definition or_if :: "bool \<Rightarrow> u32 \<Rightarrow> u32 \<Rightarrow> u32" where
  "or_if c f flags = (if c then flags OR f else flags)"

lemma or_if_and: "or_if c f flags AND g = (flags AND g) OR (if c then f AND g else 0)"
  by (simp add: or_if_def word_ao_dist)

definition kbo_date_boundary_record_accept ::
    "string option \<Rightarrow> u32 \<Rightarrow> u32 \<Rightarrow> u32 \<Rightarrow> u32 \<Rightarrow> u32 \<Rightarrow> u32 \<Rightarrow> u32 \<Rightarrow> date_boundary
       \<Rightarrow> date_boundary \<times> boundary_context" where
  "kbo_date_boundary_record_accept cur_save date previous_date expected_next_date sequence
       site_rva source_kind base_flags b =
     (let (b1, save_scope_changed, save_epoch, save_scope_known) =
            kbo_date_boundary_refresh_save_scope cur_save b;
          flags = base_flags OR FLAG_ACCEPTED;
          flags = or_if (previous_date = 0) FLAG_FIRST_DATE flags;
          flags = or_if save_scope_known FLAG_SAVE_SCOPE_KNOWN flags;
          flags = or_if save_scope_changed FLAG_SAVE_SCOPE_CHANGED flags;
          flags = or_if (source_kind = SOURCE_SAVE_ENTER) FLAG_SAVE_ENTER flags;
          flags = or_if (kbo_date_boundary_context_is_trusted date previous_date
                           expected_next_date source_kind) FLAG_TRUSTED flags;
          context = \<lparr>bc_date = date, bc_previous_date = previous_date,
                     bc_expected_next_date = expected_next_date, bc_sequence = sequence,
                     bc_site_rva = site_rva, bc_source_kind = source_kind,
                     bc_save_epoch = save_epoch, bc_flags = flags,
                     bc_save_path = (if db_save_path b1 \<noteq> []
                                     then strbuf MAX_PATH (db_save_path b1) else [])\<rparr>;
          b2 = b1\<lparr>db_latest_context := context, db_latest_valid := True\<rparr>;
          b3 = (if flags AND (FLAG_FIRST_DATE OR FLAG_SAVE_SCOPE_CHANGED) \<noteq> 0
                   \<or> source_kind \<noteq> SOURCE_LIVE_POST_ADVANCE
                   \<or> flags AND FLAG_TRUSTED = 0
                then fst (boundary_log_allowed b2) else b2)
      in (b3, context))"

definition kbo_date_boundary_record_reject :: "date_boundary \<Rightarrow> date_boundary" where
  "kbo_date_boundary_record_reject b = fst (boundary_log_allowed b)"

definition kbo_date_boundary_latest :: "date_boundary \<Rightarrow> bool \<times> boundary_context" where
  "kbo_date_boundary_latest b =
     (db_latest_valid b, if db_latest_valid b then db_latest_context b else empty_context)"

section \<open>Lemmas\<close>

lemma boundary_log_allowed_simps [simp]:
  "db_latest_context (fst (boundary_log_allowed b)) = db_latest_context b"
  "db_latest_valid (fst (boundary_log_allowed b)) = db_latest_valid b"
  "db_save_path (fst (boundary_log_allowed b)) = db_save_path b"
  "db_save_epoch (fst (boundary_log_allowed b)) = db_save_epoch b"
  by (simp_all add: boundary_log_allowed_def log_allowed_def Let_def)

text \<open>The invariant of the module: a positive 32-bit epoch and a path that fits its buffer.\<close>

definition boundary_ok :: "date_boundary \<Rightarrow> bool" where
  "boundary_ok b \<longleftrightarrow> 0 < db_save_epoch b \<and> db_save_epoch b < 2 ^ 31
     \<and> length (db_save_path b) < MAX_PATH"

lemma next_epoch_ok:
  "0 < (if interlocked_increment e \<le> 0 then 1 else interlocked_increment e)
   \<and> (if interlocked_increment e \<le> 0 then 1 else interlocked_increment e) < 2 ^ 31"
  using i32_range [of "e + 1"] by (simp add: interlocked_increment_def)

lemma initial_boundary_ok: "boundary_ok initial_boundary"
  by (simp add: boundary_ok_def initial_boundary_def MAX_PATH_def)

lemma refresh_ok:
  "boundary_ok b \<Longrightarrow> boundary_ok (fst (kbo_date_boundary_refresh_save_scope cur_save b))"
  using next_epoch_ok [of "db_save_epoch b"]
  by (simp add: boundary_ok_def kbo_date_boundary_refresh_save_scope_def Let_def split_beta
      strbuf_length MAX_PATH_def)

lemma reset_ok: "boundary_ok b \<Longrightarrow> boundary_ok (kbo_date_boundary_reset b)"
  using next_epoch_ok [of "db_save_epoch b"]
  by (simp add: boundary_ok_def kbo_date_boundary_reset_def Let_def MAX_PATH_def)

lemma accept_ok:
  "boundary_ok b \<Longrightarrow>
     boundary_ok (fst (kbo_date_boundary_record_accept cur_save d pd en sq site src fl b))"
  using refresh_ok [of b cur_save]
  by (simp add: boundary_ok_def kbo_date_boundary_record_accept_def Let_def split_beta)

lemma reject_ok: "boundary_ok b \<Longrightarrow> boundary_ok (kbo_date_boundary_record_reject b)"
  by (simp add: boundary_ok_def kbo_date_boundary_record_reject_def)

lemma refresh_unchanged:
  assumes "\<not> fst (snd (kbo_date_boundary_refresh_save_scope cur_save b))"
  shows "fst (kbo_date_boundary_refresh_save_scope cur_save b) = b"
  using assms by (auto simp: kbo_date_boundary_refresh_save_scope_def Let_def split_beta)

text \<open>A second refresh under the same path finds nothing to change.\<close>

lemma refresh_idem:
  assumes "\<forall>p. cur_save = Some p \<longrightarrow> length p < MAX_PATH"
  shows "\<not> fst (snd (kbo_date_boundary_refresh_save_scope cur_save
     (fst (kbo_date_boundary_refresh_save_scope cur_save b))))"
  using assms
  by (auto simp: kbo_date_boundary_refresh_save_scope_def kbo_date_boundary_current_save_path_def
      Let_def split_beta split: option.splits)

text \<open>The context an accepted date leaves behind.\<close>

lemma accept_fields [simp]:
  "bc_date (snd (kbo_date_boundary_record_accept cs d pd en sq site src fl b)) = d"
  "bc_previous_date (snd (kbo_date_boundary_record_accept cs d pd en sq site src fl b)) = pd"
  "bc_expected_next_date (snd (kbo_date_boundary_record_accept cs d pd en sq site src fl b)) = en"
  "bc_sequence (snd (kbo_date_boundary_record_accept cs d pd en sq site src fl b)) = sq"
  "bc_site_rva (snd (kbo_date_boundary_record_accept cs d pd en sq site src fl b)) = site"
  "bc_source_kind (snd (kbo_date_boundary_record_accept cs d pd en sq site src fl b)) = src"
  by (simp_all add: kbo_date_boundary_record_accept_def Let_def split_beta)

lemma accept_latest:
  "kbo_date_boundary_latest (fst (kbo_date_boundary_record_accept cs d pd en sq site src fl b))
     = (True, snd (kbo_date_boundary_record_accept cs d pd en sq site src fl b))"
  by (simp add: kbo_date_boundary_record_accept_def kbo_date_boundary_latest_def Let_def split_beta)

lemma accept_flags_trusted:
  assumes "fl AND FLAG_TRUSTED = 0"
  shows "(bc_flags (snd (kbo_date_boundary_record_accept cs d pd en sq site src fl b)) AND FLAG_TRUSTED \<noteq> 0)
     \<longleftrightarrow> kbo_date_boundary_context_is_trusted d pd en src"
proof -
  have bits: "FLAG_ACCEPTED AND FLAG_TRUSTED = 0" "FLAG_FIRST_DATE AND FLAG_TRUSTED = 0"
      "FLAG_SAVE_SCOPE_KNOWN AND FLAG_TRUSTED = 0" "FLAG_SAVE_SCOPE_CHANGED AND FLAG_TRUSTED = 0"
      "FLAG_SAVE_ENTER AND FLAG_TRUSTED = 0" "FLAG_TRUSTED AND FLAG_TRUSTED \<noteq> 0"
    by (simp_all add: boundary_flags)
  show ?thesis
    using assms bits
    by (simp add: kbo_date_boundary_record_accept_def Let_def split_beta or_if_and word_ao_dist
        cong: if_cong)
qed

lemma accept_flags_accepted:
  "bc_flags (snd (kbo_date_boundary_record_accept cs d pd en sq site src fl b)) AND FLAG_ACCEPTED \<noteq> 0"
proof -
  have bits: "FLAG_ACCEPTED AND FLAG_ACCEPTED = 1" "FLAG_FIRST_DATE AND FLAG_ACCEPTED = 0"
      "FLAG_SAVE_SCOPE_KNOWN AND FLAG_ACCEPTED = 0" "FLAG_SAVE_SCOPE_CHANGED AND FLAG_ACCEPTED = 0"
      "FLAG_SAVE_ENTER AND FLAG_ACCEPTED = 0" "FLAG_TRUSTED AND FLAG_ACCEPTED = 0"
    by (simp_all add: boundary_flags)
  have one: "x OR 1 \<noteq> 0" for x :: u32
    by (simp add: or_eq_0_iff)
  show ?thesis
    using bits one
    by (simp add: kbo_date_boundary_record_accept_def Let_def split_beta or_if_and word_ao_dist
        cong: if_cong)
qed

end
