(* ===== verification/TickSync.thy ===== *)
theory TickSync
  imports TextDate
begin

text \<open>
  The synchronous consumers of the date tick,
  \<open>native/src/core/dates/tick/capture/sync/current_date_tick_sync_consumers.c\<close>: a table
  of at most 16 callbacks, registered with a phase and an ordinal, dispatched for a date in
  the order of (phase, ordinal), each at most once per date.  The callbacks belong to other
  subsystems; they are named by their address and their effect is the parameter \<open>invoke\<close>
  on a world state of any type.
\<close>

section \<open>Slots\<close>

text \<open>The dispatch key of a slot, ordered as \<open>kbo_current_date_tick_sync_consumer_before\<close> orders.\<close>

datatype sync_key = SyncKey (key_phase: u32) (key_ordinal: u32)

instantiation sync_key :: linorder
begin

definition less_eq_sync_key :: "sync_key \<Rightarrow> sync_key \<Rightarrow> bool" where
  "less_eq_sync_key a b \<longleftrightarrow> key_phase a < key_phase b
     \<or> key_phase a = key_phase b \<and> key_ordinal a \<le> key_ordinal b"

definition less_sync_key :: "sync_key \<Rightarrow> sync_key \<Rightarrow> bool" where
  "less_sync_key a b \<longleftrightarrow> key_phase a < key_phase b
     \<or> key_phase a = key_phase b \<and> key_ordinal a < key_ordinal b"

instance
  by standard (auto simp: less_eq_sync_key_def less_sync_key_def intro: sync_key.expand)

end

record sync_slot =
  sl_label :: string
  sl_callback :: nat
  sl_context :: nat
  sl_phase :: u32
  sl_ordinal :: u32
  sl_last_dispatched_date :: u32
  sl_processing_date :: u32
  sl_log_count :: int

record sync_state =
  sy_slots :: "sync_slot list"
  sy_next_ordinal :: int

definition KBO_CURRENT_DATE_TICK_SYNC_CONSUMER_MAX :: nat where
  "KBO_CURRENT_DATE_TICK_SYNC_CONSUMER_MAX = 16"

definition SYNC_PHASE_DOMAIN :: u32 where "SYNC_PHASE_DOMAIN = 20"

definition slot_key :: "sync_slot \<Rightarrow> sync_key" where
  "slot_key s = SyncKey (sl_phase s) (sl_ordinal s)"

definition initial_sync :: sync_state where
  "initial_sync = \<lparr>sy_slots = [], sy_next_ordinal = 0\<rparr>"

section \<open>Registration\<close>

definition kbo_current_date_tick_log_label :: "string option \<Rightarrow> string" where
  "kbo_current_date_tick_log_label label =
     (case label of None \<Rightarrow> ''current_date_tick''
      | Some l \<Rightarrow> if l \<noteq> [] then l else ''current_date_tick'')"

text \<open>A NULL callback is address 0.\<close>

definition kbo_current_date_tick_register_sync_consumer_ex ::
    "string option \<Rightarrow> u32 \<Rightarrow> nat \<Rightarrow> nat \<Rightarrow> sync_state \<Rightarrow> sync_state \<times> bool" where
  "kbo_current_date_tick_register_sync_consumer_ex label phase callback ctx st =
     (if callback = 0 then (st, False)
      else
        let safe_label = kbo_current_date_tick_log_label label
        in if \<exists>slot \<in> set (sy_slots st). sl_callback slot = callback
                \<and> (label = None \<or> sl_label slot = safe_label)
           then (st, True)
           else if length (sy_slots st) \<ge> KBO_CURRENT_DATE_TICK_SYNC_CONSUMER_MAX
           then (st, False)
           else
             let ordinal = interlocked_increment (sy_next_ordinal st);
                 slot = \<lparr>sl_label = strbuf 64 safe_label, sl_callback = callback,
                         sl_context = ctx, sl_phase = phase, sl_ordinal = word_of_int ordinal,
                         sl_last_dispatched_date = 0, sl_processing_date = 0, sl_log_count = 0\<rparr>
             in (\<lparr>sy_slots = sy_slots st @ [slot], sy_next_ordinal = ordinal\<rparr>, True))"

definition kbo_current_date_tick_register_sync_consumer ::
    "string option \<Rightarrow> nat \<Rightarrow> nat \<Rightarrow> sync_state \<Rightarrow> sync_state \<times> bool" where
  "kbo_current_date_tick_register_sync_consumer label callback ctx st =
     kbo_current_date_tick_register_sync_consumer_ex label SYNC_PHASE_DOMAIN callback ctx st"

section \<open>Dispatch order\<close>

definition kbo_current_date_tick_sync_consumer_before ::
    "sync_slot list \<Rightarrow> nat \<Rightarrow> nat \<Rightarrow> bool" where
  "kbo_current_date_tick_sync_consumer_before slots left right =
     (let a = slots ! left; b = slots ! right
      in if sl_phase a \<noteq> sl_phase b then sl_phase a < sl_phase b
         else sl_ordinal a < sl_ordinal b)"

text \<open>
  The insertion sort of the index array.  The inner loop shifts the sorted prefix to the
  right while \<open>value\<close> comes before its last element; the prefix is kept here from its last
  element backwards.
\<close>

fun insert_index :: "sync_slot list \<Rightarrow> nat \<Rightarrow> nat list \<Rightarrow> nat list" where
  "insert_index slots v [] = [v]"
| "insert_index slots v (p # rest) =
     (if kbo_current_date_tick_sync_consumer_before slots v p
      then p # insert_index slots v rest else v # p # rest)"

fun sort_sync_loop :: "sync_slot list \<Rightarrow> nat list \<Rightarrow> nat list \<Rightarrow> nat list" where
  "sort_sync_loop slots prefix [] = rev prefix"
| "sort_sync_loop slots prefix (v # vs) = sort_sync_loop slots (insert_index slots v prefix) vs"

definition kbo_current_date_tick_sort_sync_consumer_indices ::
    "sync_slot list \<Rightarrow> nat list \<Rightarrow> nat list" where
  "kbo_current_date_tick_sort_sync_consumer_indices slots indices = sort_sync_loop slots [] indices"

section \<open>Dispatch\<close>

definition slot_log :: "sync_slot \<Rightarrow> sync_slot" where
  "slot_log s = s\<lparr>sl_log_count := fst (log_allowed (sl_log_count s))\<rparr>"

text \<open>One slot of the dispatch loop: the slot, the world and whether the slot is complete.\<close>

definition dispatch_slot ::
    "(nat \<Rightarrow> nat \<Rightarrow> u32 \<Rightarrow> u32 \<Rightarrow> 'w \<Rightarrow> bool \<times> 'w) \<Rightarrow> u32 \<Rightarrow> u32
       \<Rightarrow> sync_slot \<Rightarrow> 'w \<Rightarrow> sync_slot \<times> 'w \<times> bool" where
  "dispatch_slot invoke date site_rva slot w =
     (if sl_last_dispatched_date slot = date then (slot, w, True)
      else if sl_processing_date slot \<noteq> 0 then (slot, w, False)
      else
        let slot1 = slot\<lparr>sl_processing_date := date\<rparr>;
            (slot2, w2, ok) =
              (if sl_last_dispatched_date slot1 \<noteq> date \<and> sl_callback slot1 \<noteq> 0
               then let slot' = slot_log slot1;
                        (ok, w') = invoke (sl_callback slot') (sl_context slot') date site_rva w
                    in (slot', w', ok)
               else (slot1, w, True));
            slot3 = (if ok then slot2\<lparr>sl_last_dispatched_date := date\<rparr> else slot_log slot2)
        in (slot3\<lparr>sl_processing_date := 0\<rparr>, w2, ok))"

fun dispatch_loop ::
    "(nat \<Rightarrow> nat \<Rightarrow> u32 \<Rightarrow> u32 \<Rightarrow> 'w \<Rightarrow> bool \<times> 'w) \<Rightarrow> u32 \<Rightarrow> u32
       \<Rightarrow> nat list \<Rightarrow> sync_slot list \<Rightarrow> 'w \<Rightarrow> bool \<Rightarrow> sync_slot list \<times> 'w \<times> bool" where
  "dispatch_loop invoke date site_rva [] slots w complete = (slots, w, complete)"
| "dispatch_loop invoke date site_rva (i # is) slots w complete =
     (case dispatch_slot invoke date site_rva (slots ! i) w of (slot, w', ok) \<Rightarrow>
        dispatch_loop invoke date site_rva is (slots[i := slot]) w' (complete \<and> ok))"

definition kbo_current_date_tick_dispatch_sync_consumers ::
    "(nat \<Rightarrow> nat \<Rightarrow> u32 \<Rightarrow> u32 \<Rightarrow> 'w \<Rightarrow> bool \<times> 'w) \<Rightarrow> u32 \<Rightarrow> u32
       \<Rightarrow> sync_state \<Rightarrow> 'w \<Rightarrow> sync_state \<times> 'w \<times> bool" where
  "kbo_current_date_tick_dispatch_sync_consumers invoke date site_rva st w =
     (if \<not> kbo_yyyymmdd_valid date then (st, w, False)
      else
        let registered = min (length (sy_slots st)) KBO_CURRENT_DATE_TICK_SYNC_CONSUMER_MAX;
            indices = filter (\<lambda>i. sl_callback (sy_slots st ! i) \<noteq> 0) [0..<registered];
            sorted_indices = kbo_current_date_tick_sort_sync_consumer_indices (sy_slots st) indices;
            (slots, w', complete) = dispatch_loop invoke date site_rva sorted_indices (sy_slots st) w True
        in (st\<lparr>sy_slots := slots\<rparr>, w', complete))"

definition kbo_current_date_tick_reset_sync_consumer_dates :: "sync_state \<Rightarrow> sync_state" where
  "kbo_current_date_tick_reset_sync_consumer_dates st =
     st\<lparr>sy_slots := map (\<lambda>s. s\<lparr>sl_last_dispatched_date := 0, sl_processing_date := 0\<rparr>) (sy_slots st)\<rparr>"

section \<open>The sort is the stable sort by key\<close>

lemma before_iff_key:
  "kbo_current_date_tick_sync_consumer_before slots i j \<longleftrightarrow> slot_key (slots ! i) < slot_key (slots ! j)"
  by (auto simp: kbo_current_date_tick_sync_consumer_before_def slot_key_def less_sync_key_def Let_def)

lemma mset_insert_index: "mset (insert_index slots v p) = add_mset v (mset p)"
  by (induction slots v p rule: insert_index.induct) auto

lemma set_insert_index: "set (insert_index slots v p) = insert v (set p)"
  using mset_insert_index [of slots v p] by (metis set_mset_add_mset_insert set_mset_mset)

lemma sorted_insert_index:
  "sorted (map (\<lambda>i. slot_key (slots ! i)) (rev p)) \<Longrightarrow>
     sorted (map (\<lambda>i. slot_key (slots ! i)) (rev (insert_index slots v p)))"
  by (induction slots v p rule: insert_index.induct)
    (auto simp: sorted_append before_iff_key set_insert_index not_less)

lemma filter_insert_index:
  "filter (\<lambda>x. f k = f x) (rev (insert_index slots v p)) = filter (\<lambda>x. f k = f x) (rev p @ [v])"
  if f: "f = (\<lambda>i. slot_key (slots ! i))"
  by (induction p) (auto simp: before_iff_key f)

lemma mset_sort_sync_loop: "mset (sort_sync_loop slots p vs) = mset p + mset vs"
  by (induction slots p vs rule: sort_sync_loop.induct) (auto simp: mset_insert_index)

lemma sorted_sort_sync_loop:
  "sorted (map (\<lambda>i. slot_key (slots ! i)) (rev p)) \<Longrightarrow>
     sorted (map (\<lambda>i. slot_key (slots ! i)) (sort_sync_loop slots p vs))"
  by (induction slots p vs rule: sort_sync_loop.induct) (simp_all add: sorted_insert_index)

lemma filter_sort_sync_loop:
  assumes "f = (\<lambda>i. slot_key (slots ! i))"
  shows "filter (\<lambda>x. f k = f x) (sort_sync_loop slots p vs) = filter (\<lambda>x. f k = f x) (rev p @ vs)"
  using assms
proof (induction slots p vs rule: sort_sync_loop.induct)
  case (2 slots p v vs)
  then have "filter (\<lambda>x. f k = f x) (sort_sync_loop slots p (v # vs))
      = filter (\<lambda>x. f k = f x) (rev (insert_index slots v p)) @ filter (\<lambda>x. f k = f x) vs"
    by simp
  also have "\<dots> = filter (\<lambda>x. f k = f x) (rev p @ [v]) @ filter (\<lambda>x. f k = f x) vs"
    by (simp only: filter_insert_index [OF "2.prems"])
  finally show ?case by simp
qed simp

lemma sort_sync_is_sort_key:
  "kbo_current_date_tick_sort_sync_consumer_indices slots is = sort_key (\<lambda>i. slot_key (slots ! i)) is"
proof (rule properties_for_sort_key [symmetric])
  show "mset (kbo_current_date_tick_sort_sync_consumer_indices slots is) = mset is"
    by (simp add: kbo_current_date_tick_sort_sync_consumer_indices_def mset_sort_sync_loop)
  show "filter (\<lambda>x. slot_key (slots ! k) = slot_key (slots ! x))
          (kbo_current_date_tick_sort_sync_consumer_indices slots is)
        = filter (\<lambda>x. slot_key (slots ! k) = slot_key (slots ! x)) is" for k
    using filter_sort_sync_loop [of "\<lambda>i. slot_key (slots ! i)" slots k "[]" "is"]
    by (simp add: kbo_current_date_tick_sort_sync_consumer_indices_def)
  show "sorted (map (\<lambda>i. slot_key (slots ! i)) (kbo_current_date_tick_sort_sync_consumer_indices slots is))"
    by (simp add: kbo_current_date_tick_sort_sync_consumer_indices_def sorted_sort_sync_loop)
qed

section \<open>What a dispatch does\<close>

text \<open>A slot whose callback the dispatch for \<open>date\<close> has to call.\<close>

definition slot_pending :: "u32 \<Rightarrow> sync_slot \<Rightarrow> bool" where
  "slot_pending date s \<longleftrightarrow> sl_last_dispatched_date s \<noteq> date \<and> sl_processing_date s = 0"

text \<open>The world after calling the pending slots of a list, in the order of the list.\<close>

fun call_slots ::
    "(nat \<Rightarrow> nat \<Rightarrow> u32 \<Rightarrow> u32 \<Rightarrow> 'w \<Rightarrow> bool \<times> 'w) \<Rightarrow> u32 \<Rightarrow> u32 \<Rightarrow> sync_slot list \<Rightarrow> 'w \<Rightarrow> 'w" where
  "call_slots invoke date site [] w = w"
| "call_slots invoke date site (s # ss) w =
     call_slots invoke date site ss
       (if slot_pending date s then snd (invoke (sl_callback s) (sl_context s) date site w) else w)"

lemma slot_log_simps [simp]:
  "sl_callback (slot_log s) = sl_callback s" "sl_context (slot_log s) = sl_context s"
  "sl_phase (slot_log s) = sl_phase s" "sl_ordinal (slot_log s) = sl_ordinal s"
  "sl_label (slot_log s) = sl_label s"
  "sl_last_dispatched_date (slot_log s) = sl_last_dispatched_date s"
  "sl_processing_date (slot_log s) = sl_processing_date s"
  by (simp_all add: slot_log_def)

lemma dispatch_slot_key [simp]:
  "sl_callback (fst (dispatch_slot invoke date site s w)) = sl_callback s"
  "sl_phase (fst (dispatch_slot invoke date site s w)) = sl_phase s"
  "sl_ordinal (fst (dispatch_slot invoke date site s w)) = sl_ordinal s"
  by (auto simp: dispatch_slot_def Let_def split: prod.splits)

lemma dispatch_slot_world:
  "sl_callback s \<noteq> 0 \<Longrightarrow>
     fst (snd (dispatch_slot invoke date site s w)) =
       (if slot_pending date s then snd (invoke (sl_callback s) (sl_context s) date site w) else w)"
  by (auto simp: dispatch_slot_def slot_pending_def Let_def split: prod.splits)

lemma dispatch_slot_complete:
  "snd (snd (dispatch_slot invoke date site s w)) \<Longrightarrow>
     sl_last_dispatched_date (fst (dispatch_slot invoke date site s w)) = date"
  by (auto simp: dispatch_slot_def Let_def split: prod.splits if_splits)

lemma dispatch_slot_done:
  "sl_last_dispatched_date s = date \<Longrightarrow> dispatch_slot invoke date site s w = (s, w, True)"
  by (simp add: dispatch_slot_def)

lemma dispatch_loop_complete_mono:
  "snd (snd (dispatch_loop invoke date site is slots w c)) \<Longrightarrow> c"
  by (induction invoke date site "is" slots w c rule: dispatch_loop.induct)
    (auto split: prod.splits)

lemma dispatch_loop_length [simp]:
  "length (fst (dispatch_loop invoke date site is slots w c)) = length slots"
  by (induction invoke date site "is" slots w c rule: dispatch_loop.induct)
    (auto split: prod.splits)

lemma dispatch_loop_other:
  "j \<notin> set is \<Longrightarrow> fst (dispatch_loop invoke date site is slots w c) ! j = slots ! j"
  by (induction invoke date site "is" slots w c rule: dispatch_loop.induct)
    (auto split: prod.splits)

lemma dispatch_loop_world:
  assumes "distinct is" and "\<forall>i \<in> set is. i < length slots \<and> sl_callback (slots ! i) \<noteq> 0"
  shows "fst (snd (dispatch_loop invoke date site is slots w c))
     = call_slots invoke date site (map ((!) slots) is) w"
  using assms
proof (induction "is" arbitrary: slots w c)
  case Nil
  show ?case by simp
next
  case (Cons i "is")
  obtain s' w' ok where d: "dispatch_slot invoke date site (slots ! i) w = (s', w', ok)"
    by (cases "dispatch_slot invoke date site (slots ! i) w") auto
  have w': "w' = (if slot_pending date (slots ! i)
      then snd (invoke (sl_callback (slots ! i)) (sl_context (slots ! i)) date site w) else w)"
    using dispatch_slot_world [of "slots ! i" invoke date site w] Cons.prems d by simp
  have same: "map ((!) (slots[i := s'])) is = map ((!) slots) is"
    using Cons.prems(1) by (auto intro!: map_cong nth_list_update_neq)
  have "\<forall>j \<in> set is. j < length (slots[i := s']) \<and> sl_callback (slots[i := s'] ! j) \<noteq> 0"
    using Cons.prems by (auto simp: nth_list_update)
  then show ?case
    using Cons.IH [of "slots[i := s']" w' "c \<and> ok"] Cons.prems(1) d w' same by simp
qed

lemma dispatch_loop_all_done:
  assumes "distinct is" and "\<forall>i \<in> set is. i < length slots"
    and "snd (snd (dispatch_loop invoke date site is slots w c))" and "i \<in> set is"
  shows "sl_last_dispatched_date (fst (dispatch_loop invoke date site is slots w c) ! i) = date"
  using assms
proof (induction "is" arbitrary: slots w c)
  case (Cons k "is")
  obtain s' w' ok where d: "dispatch_slot invoke date site (slots ! k) w = (s', w', ok)"
    by (cases "dispatch_slot invoke date site (slots ! k) w") auto
  have ok: ok using Cons.prems(3) d dispatch_loop_complete_mono by fastforce
  show ?case
  proof (cases "i = k")
    case True
    then show ?thesis
      using dispatch_slot_complete [of invoke date site "slots ! k" w] d ok Cons.prems
      by (simp add: dispatch_loop_other)
  next
    case False
    then show ?thesis
      using Cons.IH [of "slots[k := s']" w' "c \<and> ok"] Cons.prems d by simp
  qed
qed simp

lemma dispatch_loop_noop:
  assumes "\<forall>i \<in> set is. sl_last_dispatched_date (slots ! i) = date"
  shows "dispatch_loop invoke date site is slots w c = (slots, w, c)"
  using assms by (induction "is") (auto simp: dispatch_slot_done)

section \<open>The dispatch as a whole\<close>

text \<open>
  Well-formed tables: within capacity and without NULL callbacks.  Every operation keeps
  this.
\<close>

definition sync_ok :: "sync_state \<Rightarrow> bool" where
  "sync_ok st \<longleftrightarrow> length (sy_slots st) \<le> KBO_CURRENT_DATE_TICK_SYNC_CONSUMER_MAX
     \<and> (\<forall>s \<in> set (sy_slots st). sl_callback s \<noteq> 0)"

lemma initial_sync_ok: "sync_ok initial_sync"
  by (simp add: sync_ok_def initial_sync_def)

lemma register_sync_ok:
  "sync_ok st \<Longrightarrow> sync_ok (fst (kbo_current_date_tick_register_sync_consumer_ex label ph cb cx st))"
  by (auto simp: sync_ok_def kbo_current_date_tick_register_sync_consumer_ex_def Let_def)

lemma reset_sync_ok: "sync_ok st \<Longrightarrow> sync_ok (kbo_current_date_tick_reset_sync_consumer_dates st)"
  by (auto simp: sync_ok_def kbo_current_date_tick_reset_sync_consumer_dates_def)

lemma dispatch_loop_callbacks:
  "map sl_callback (fst (dispatch_loop invoke date site is slots w c)) = map sl_callback slots"
proof (induction "is" arbitrary: slots w c)
  case (Cons i "is")
  obtain s' w' ok where d: "dispatch_slot invoke date site (slots ! i) w = (s', w', ok)"
    by (cases "dispatch_slot invoke date site (slots ! i) w") auto
  have "sl_callback s' = sl_callback (slots ! i)"
    using dispatch_slot_key(1) [of invoke date site "slots ! i" w] d by simp
  then have "map sl_callback (slots[i := s']) = map sl_callback slots"
    by (cases "i < length slots") (auto simp: map_update list_update_same_conv list_update_beyond)
  then show ?case using Cons d by simp
qed simp

definition dispatch_order :: "sync_state \<Rightarrow> nat list" where
  "dispatch_order st = sort_key (\<lambda>i. slot_key (sy_slots st ! i)) [0..<length (sy_slots st)]"

lemma dispatch_order_props [simp]:
  "distinct (dispatch_order st)" "set (dispatch_order st) = {0..<length (sy_slots st)}"
  by (simp_all add: dispatch_order_def)

lemma map_nth_dispatch_order: "map ((!) (sy_slots st)) (dispatch_order st) = sort_key slot_key (sy_slots st)"
proof -
  have "sort_key slot_key (map ((!) xs) ns) = map ((!) xs) (sort_key (\<lambda>i. slot_key (xs ! i)) ns)"
    for xs :: "sync_slot list" and ns
  proof (induction ns)
    case (Cons n ns)
    have "insort_key slot_key (xs ! n) (map ((!) xs) ms) = map ((!) xs) (insort_key (\<lambda>i. slot_key (xs ! i)) n ms)"
      for ms by (induction ms) auto
    then show ?case using Cons by simp
  qed simp
  then show ?thesis unfolding dispatch_order_def by (metis map_nth)
qed

lemma dispatch_unfold:
  assumes "sync_ok st" and "kbo_yyyymmdd_valid date"
  shows "kbo_current_date_tick_dispatch_sync_consumers invoke date site st w =
     (let r = dispatch_loop invoke date site (dispatch_order st) (sy_slots st) w True
      in (st\<lparr>sy_slots := fst r\<rparr>, fst (snd r), snd (snd r)))"
proof -
  have "min (length (sy_slots st)) KBO_CURRENT_DATE_TICK_SYNC_CONSUMER_MAX = length (sy_slots st)"
    using assms(1) by (simp add: sync_ok_def)
  moreover have "filter (\<lambda>i. sl_callback (sy_slots st ! i) \<noteq> 0) [0..<length (sy_slots st)]
      = [0..<length (sy_slots st)]"
    using assms(1) by (auto simp: sync_ok_def)
  ultimately show ?thesis
    using assms(2)
    by (simp add: kbo_current_date_tick_dispatch_sync_consumers_def Let_def split_beta
        sort_sync_is_sort_key dispatch_order_def)
qed

lemma dispatch_sync_ok:
  assumes "sync_ok st"
  shows "sync_ok (fst (kbo_current_date_tick_dispatch_sync_consumers invoke date site st w))"
proof (cases "kbo_yyyymmdd_valid date")
  case False
  then show ?thesis using assms by (simp add: kbo_current_date_tick_dispatch_sync_consumers_def)
next
  case True
  define ss where "ss = fst (dispatch_loop invoke date site (dispatch_order st) (sy_slots st) w True)"
  have "sl_callback ` set ss = sl_callback ` set (sy_slots st)"
    using arg_cong [where f = set,
        OF dispatch_loop_callbacks [of invoke date site "dispatch_order st" "sy_slots st" w True]]
    by (simp add: ss_def)
  then have "\<forall>s \<in> set ss. sl_callback s \<noteq> 0"
    using assms unfolding sync_ok_def by (metis imageE image_eqI)
  then show ?thesis
    using assms by (simp add: dispatch_unfold [OF assms True] sync_ok_def Let_def ss_def)
qed

section \<open>Properties\<close>

text \<open>
  C16: a dispatch calls exactly the consumers that have not completed the date and are not
  being processed, each once, in the order of phase and then registration ordinal,
  threading the world through the calls.
\<close>

theorem dispatch_calls_pending_in_order:
  assumes "sync_ok st" and "kbo_yyyymmdd_valid date"
  shows "fst (snd (kbo_current_date_tick_dispatch_sync_consumers invoke date site st w))
     = call_slots invoke date site (sort_key slot_key (sy_slots st)) w"
proof -
  have "\<forall>i \<in> set (dispatch_order st). i < length (sy_slots st) \<and> sl_callback (sy_slots st ! i) \<noteq> 0"
    using assms(1) by (auto simp: sync_ok_def)
  then show ?thesis
    by (simp add: dispatch_unfold [OF assms] Let_def dispatch_loop_world map_nth_dispatch_order)
qed

definition demo_sync :: sync_state where
  "demo_sync =
     (let (s1, _) = kbo_current_date_tick_register_sync_consumer_ex (Some ''repair'') 30 7 0 initial_sync;
          (s2, _) = kbo_current_date_tick_register_sync_consumer_ex (Some ''context'') 0 5 0 s1
      in s2)"

lemma demo_sync_ok: "sync_ok demo_sync"
  unfolding demo_sync_def Let_def split_beta
  by (intro register_sync_ok initial_sync_ok)

theorem dispatch_calls_pending_in_order_witness:
  "fst (snd (kbo_current_date_tick_dispatch_sync_consumers
      (\<lambda>cb cx d site w. (True, w @ [cb])) 20240301 0 demo_sync [])) = [5, 7]"
proof -
  have v: "kbo_yyyymmdd_valid 20240301" by code_simp
  show ?thesis
    unfolding dispatch_calls_pending_in_order [OF demo_sync_ok v]
    by (simp add: demo_sync_def kbo_current_date_tick_register_sync_consumer_ex_def
        initial_sync_def Let_def KBO_CURRENT_DATE_TICK_SYNC_CONSUMER_MAX_def
        kbo_current_date_tick_log_label_def slot_key_def less_eq_sync_key_def slot_pending_def)
qed

text \<open>
  C22: dispatch is idempotent per date: once a dispatch reports that every consumer
  completed the date, dispatching the date again calls nobody, changes nothing and reports
  completion again.
\<close>

theorem dispatch_once_per_date:
  assumes "sync_ok st" and "kbo_yyyymmdd_valid date"
    and "kbo_current_date_tick_dispatch_sync_consumers invoke date site st w = (st', w', True)"
  shows "kbo_current_date_tick_dispatch_sync_consumers invoke' date site' st' w2 = (st', w2, True)"
proof -
  define r where "r = dispatch_loop invoke date site (dispatch_order st) (sy_slots st) w True"
  have st': "st' = st\<lparr>sy_slots := fst r\<rparr>" and comp: "snd (snd r)"
    using assms(3) by (auto simp: dispatch_unfold [OF assms(1,2)] Let_def r_def)
  have ok: "sync_ok st'"
    using dispatch_sync_ok [OF assms(1), of invoke date site w] assms(3) by simp
  have "\<forall>i \<in> set (dispatch_order st'). sl_last_dispatched_date (sy_slots st' ! i) = date"
    using dispatch_loop_all_done [of "dispatch_order st" "sy_slots st" invoke date site w True]
      comp st' by (simp add: r_def)
  then show ?thesis
    by (simp add: dispatch_unfold [OF ok assms(2)] dispatch_loop_noop)
qed

theorem dispatch_once_per_date_witness:
  "kbo_current_date_tick_dispatch_sync_consumers (\<lambda>cb cx d site w. (True, w @ [cb])) 20240301 0
     (fst (kbo_current_date_tick_dispatch_sync_consumers (\<lambda>cb cx d site w. (True, w @ [cb]))
        20240301 0 demo_sync [])) [] =
   (fst (kbo_current_date_tick_dispatch_sync_consumers (\<lambda>cb cx d site w. (True, w @ [cb]))
        20240301 0 demo_sync []), [], True)"
proof -
  let ?inv = "\<lambda>cb cx (d :: u32) (site :: u32) w. (True, w @ [cb :: nat])"
  have v: "kbo_yyyymmdd_valid 20240301" by code_simp
  have "snd (snd (kbo_current_date_tick_dispatch_sync_consumers ?inv 20240301 0 demo_sync []))"
    unfolding dispatch_unfold [OF demo_sync_ok v]
    by (simp add: demo_sync_def dispatch_order_def Let_def slot_log_def log_allowed_def
        kbo_current_date_tick_register_sync_consumer_ex_def initial_sync_def dispatch_slot_def
        KBO_CURRENT_DATE_TICK_SYNC_CONSUMER_MAX_def kbo_current_date_tick_log_label_def
        slot_key_def less_eq_sync_key_def)
  then show ?thesis
    by (intro dispatch_once_per_date [OF demo_sync_ok v, of ?inv 0 "[]" _
        "fst (snd (kbo_current_date_tick_dispatch_sync_consumers ?inv 20240301 0 demo_sync []))"])
      (simp add: prod_eq_iff)
qed

end
