(* ===== verification/EventRing.thy ===== *)
theory EventRing
  imports KboPrelude
begin

text \<open>
  Event rings: arrays indexed by the low bits of a growing event number, used by the date
  tick (256 entries) and by the season phase capture (64 entries).  The locale states what
  the readers rely on; its lemma says that writing event \<open>n\<close> keeps the last events
  readable.
\<close>

unbundle bit_operations_syntax

definition ring_slot :: "u32 \<Rightarrow> int \<Rightarrow> nat" where
  "ring_slot ring_mask event_no = unat ((word_of_int event_no :: u32) AND ring_mask)"

text \<open>The ring holds the most recent \<open>cap\<close> entries of a log.\<close>

definition ring_holds :: "nat \<Rightarrow> (int \<Rightarrow> nat) \<Rightarrow> (nat \<Rightarrow> 'a) \<Rightarrow> 'a list \<Rightarrow> bool" where
  "ring_holds cap slot r log \<longleftrightarrow>
     (\<forall>n < length log. length log \<le> n + cap \<longrightarrow> r (slot (int n)) = log ! n)"

locale event_ring =
  fixes cap :: nat
    and slot :: "int \<Rightarrow> nat"
  assumes slot_less: "slot n < cap"
    and slot_inj: "m \<le> n \<Longrightarrow> n < m + int cap \<Longrightarrow> slot m = slot n \<Longrightarrow> m = n"
begin

lemma holds_empty: "ring_holds cap slot r []"
  by (simp add: ring_holds_def)

lemma holds_push:
  assumes "ring_holds cap slot r log"
  shows "ring_holds cap slot (r(slot (int (length log)) := v)) (log @ [v])"
  unfolding ring_holds_def
proof (intro allI impI)
  fix n
  assume n: "n < length (log @ [v])" "length (log @ [v]) \<le> n + cap"
  show "(r(slot (int (length log)) := v)) (slot (int n)) = (log @ [v]) ! n"
  proof (cases "n = length log")
    case False
    then have "slot (int n) \<noteq> slot (int (length log))"
      using n slot_inj [of "int n" "int (length log)"] by auto
    then show ?thesis
      using assms n False by (simp add: ring_holds_def nth_append)
  qed simp
qed

lemma holds_read:
  "ring_holds cap slot r log \<Longrightarrow> n < length log \<Longrightarrow> length log \<le> n + cap \<Longrightarrow> r (slot (int n)) = log ! n"
  by (simp add: ring_holds_def)

end

lemma ring_slot_mask: "k \<le> 32 \<Longrightarrow> ring_slot (mask k) n = nat (n mod 2 ^ k)"
proof -
  assume k: "k \<le> 32"
  have "(word_of_int n :: u32) AND mask k = word_of_int (take_bit k n)"
    by (intro bit_eqI) (auto simp add: bit_and_iff bit_word_of_int_iff bit_mask_iff bit_take_bit_iff)
  then have "unat ((word_of_int n :: u32) AND mask k) = nat (take_bit 32 (take_bit k n))"
    by (simp add: unat_eq_nat_uint uint_word_of_int take_bit_eq_mod)
  then show ?thesis
    using k by (simp add: ring_slot_def take_bit_take_bit min_def) (simp add: take_bit_eq_mod)
qed

lemma mod_window:
  assumes "m \<le> n" and "n < m + c" and "m mod c = n mod (c :: int)"
  shows "m = n"
proof -
  have "(n - m) mod c = 0" using assms(3) by (simp add: mod_diff_eq [symmetric])
  moreover have "0 \<le> n - m" "n - m < c" using assms by auto
  ultimately show ?thesis by simp
qed

lemma ring_slot_event_ring:
  assumes "k \<le> 32"
  shows "event_ring (2 ^ k) (ring_slot (mask k))"
proof
  show "ring_slot (mask k) n < 2 ^ k" for n
    using assms by (simp add: ring_slot_mask nat_less_iff)
  show "m = n" if "m \<le> n" "n < m + int (2 ^ k)" "ring_slot (mask k) m = ring_slot (mask k) n" for m n
    using that assms by (intro mod_window [of m n "2 ^ k"]) (simp_all add: ring_slot_mask eq_nat_nat_iff)
qed

end
