(* ===== verification/DateTick.thy ===== *)
theory DateTick
  imports DateBoundary TickSync EventRing
begin

text \<open>
  The date tick: \<open>native/src/core/dates/tick/current_date_tick_capture.c\<close> with its
  readers \<open>capture/latest/current_date_tick_latest.c\<close> and
  \<open>capture/cursor/current_date_tick_cursor.c\<close>.  Dates published by the game hooks are
  checked against the last published date, recorded at the boundary and written to a ring
  of 256 events that cursors read.

  \<open>tick_state\<close> holds the module's globals, together with those of the boundary and of the
  synchronous consumers it calls.  The counters are \<open>LONG\<close>s, the last published date is a
  \<open>LONG\<close> that holds a packed date and is kept as its unsigned reading.  Every call runs
  without interference from other threads, so the compare-and-exchange loop of the
  publisher takes its first iteration.  \<open>game_env\<close> is what the running game answers
  during a call: its save path and its current date.
\<close>

section \<open>State\<close>

record game_env =
  env_save_path :: "string option"
  env_today :: "u32 option"

record tick_state =
  tk_boundary :: date_boundary
  tk_sync :: sync_state
  tk_write_cursor :: int
  tk_published_sequence :: int
  tk_last_published_date :: u32
  tk_event_dates :: "nat \<Rightarrow> u32"
  tk_event_site_rvas :: "nat \<Rightarrow> u32"
  tk_event_source_kinds :: "nat \<Rightarrow> u32"
  tk_event_save_epochs :: "nat \<Rightarrow> u32"
  tk_rejected_log_count :: int
  tk_save_scope_path :: string

definition initial_tick :: tick_state where
  "initial_tick = \<lparr>tk_boundary = initial_boundary, tk_sync = initial_sync, tk_write_cursor = 0,
     tk_published_sequence = 0, tk_last_published_date = 0, tk_event_dates = (\<lambda>_. 0),
     tk_event_site_rvas = (\<lambda>_. 0), tk_event_source_kinds = (\<lambda>_. 0),
     tk_event_save_epochs = (\<lambda>_. 0), tk_rejected_log_count = 0, tk_save_scope_path = []\<rparr>"

definition RING_SIZE :: int where "RING_SIZE = 256"
definition RING_MASK :: u32 where "RING_MASK = 255"
definition SAVE_ENTER_SITE_RVA :: u32 where "SAVE_ENTER_SITE_RVA = 0xffffffef"
definition WATCHPOINT_SITE_RVA :: u32 where "WATCHPOINT_SITE_RVA = 0xfffffff0"

datatype publish_mode = PublishLive | PublishSaveEnter

text \<open>The calls of consumers, with their effect on the rest of the process.\<close>

type_synonym 'w invoke = "nat \<Rightarrow> nat \<Rightarrow> u32 \<Rightarrow> u32 \<Rightarrow> 'w \<Rightarrow> bool \<times> 'w"

section \<open>Publishing\<close>

definition kbo_current_date_tick_source_kind :: "u32 \<Rightarrow> publish_mode \<Rightarrow> u32" where
  "kbo_current_date_tick_source_kind site_rva mode =
     (if mode = PublishSaveEnter then SOURCE_SAVE_ENTER
      else if site_rva = WATCHPOINT_SITE_RVA then SOURCE_WATCHPOINT
      else SOURCE_LIVE_POST_ADVANCE)"

definition kbo_current_date_tick_latest_sequence :: "tick_state \<Rightarrow> int" where
  "kbo_current_date_tick_latest_sequence st = tk_published_sequence st"

definition rejected_log :: "tick_state \<Rightarrow> tick_state" where
  "rejected_log st = st\<lparr>tk_rejected_log_count := fst (log_allowed (tk_rejected_log_count st))\<rparr>"

definition kbo_current_date_tick_refresh_save_scope_for_source ::
    "game_env \<Rightarrow> tick_state \<Rightarrow> tick_state \<times> bool" where
  "kbo_current_date_tick_refresh_save_scope_for_source env st =
     (let (b, changed, _, _) =
            kbo_date_boundary_refresh_save_scope (env_save_path env) (tk_boundary st);
          st1 = st\<lparr>tk_boundary := b\<rparr>
      in if changed then
           let previous_date = tk_last_published_date st1;
               st2 = st1\<lparr>tk_last_published_date := 0,
                         tk_sync := kbo_current_date_tick_reset_sync_consumer_dates (tk_sync st1)\<rparr>
           in (if previous_date \<noteq> 0 then rejected_log st2 else st2, True)
         else (st1, False))"

definition boundary_reject :: "tick_state \<Rightarrow> tick_state" where
  "boundary_reject st = st\<lparr>tk_boundary := kbo_date_boundary_record_reject (tk_boundary st)\<rparr>"

text \<open>The tail of the publisher: take an event number, record the boundary, write the ring.\<close>

definition write_event ::
    "game_env \<Rightarrow> u32 \<Rightarrow> u32 \<Rightarrow> u32 \<Rightarrow> u32 \<Rightarrow> u32 \<Rightarrow> bool \<Rightarrow> tick_state \<Rightarrow> tick_state" where
  "write_event env date previous_date expected_next site_rva source_kind save_scope_changed st =
     (let event_no = tk_write_cursor st;
          st1 = st\<lparr>tk_write_cursor := i32 (event_no + 1)\<rparr>;
          index = ring_slot RING_MASK event_no;
          (b, boundary) =
            kbo_date_boundary_record_accept (env_save_path env) date previous_date expected_next
              (word_of_int event_no + 1) site_rva source_kind
              (if save_scope_changed then FLAG_SAVE_SCOPE_CHANGED else 0) (tk_boundary st1)
      in st1\<lparr>tk_boundary := b,
             tk_event_dates := (tk_event_dates st1)(index := date),
             tk_event_site_rvas := (tk_event_site_rvas st1)(index := site_rva),
             tk_event_source_kinds := (tk_event_source_kinds st1)(index := source_kind),
             tk_event_save_epochs := (tk_event_save_epochs st1)(index := bc_save_epoch boundary),
             tk_published_sequence := interlocked_increment (tk_published_sequence st1)\<rparr>)"

definition kbo_current_date_tick_publish_core ::
    "game_env \<Rightarrow> u32 \<Rightarrow> u32 \<Rightarrow> publish_mode \<Rightarrow> tick_state \<Rightarrow> tick_state \<times> bool" where
  "kbo_current_date_tick_publish_core env date site_rva mode st =
     (let source_kind = kbo_current_date_tick_source_kind site_rva mode
      in if \<not> kbo_yyyymmdd_valid date then (boundary_reject st, False)
      else
        let (st1, save_scope_changed) = kbo_current_date_tick_refresh_save_scope_for_source env st;
            previous_date = tk_last_published_date st1
        in if previous_date = date then
             (if mode = PublishSaveEnter then
                (write_event env date previous_date (kbo_yyyymmdd_add_days previous_date 1)
                   site_rva source_kind save_scope_changed st1, True)
              else (st1, False))
           else if previous_date \<noteq> 0 \<and> mode = PublishSaveEnter then
             (rejected_log (boundary_reject st1), False)
           else if previous_date \<noteq> 0 \<and>
                   (kbo_yyyymmdd_add_days previous_date 1 = 0
                    \<or> date \<noteq> kbo_yyyymmdd_add_days previous_date 1) then
             (rejected_log (boundary_reject st1), False)
           else
             (write_event env date previous_date
                (if previous_date \<noteq> 0 then kbo_yyyymmdd_add_days previous_date 1 else 0)
                site_rva source_kind save_scope_changed
                (st1\<lparr>tk_last_published_date := date\<rparr>), True))"

definition kbo_current_date_tick_publish :: "game_env \<Rightarrow> u32 \<Rightarrow> u32 \<Rightarrow> tick_state \<Rightarrow> tick_state \<times> bool" where
  "kbo_current_date_tick_publish env date site_rva st =
     kbo_current_date_tick_publish_core env date site_rva PublishLive st"

section \<open>The latest published date\<close>

definition kbo_current_date_tick_latest_published_date :: "tick_state \<Rightarrow> u32 option" where
  "kbo_current_date_tick_latest_published_date st =
     (let date = tk_last_published_date st
      in if kbo_yyyymmdd_valid date then Some date else None)"

definition kbo_current_date_tick_latest_components :: "tick_state \<Rightarrow> (u32 \<times> u32 \<times> u32) option" where
  "kbo_current_date_tick_latest_components st =
     (case kbo_current_date_tick_latest_published_date st of
        None \<Rightarrow> None
      | Some date \<Rightarrow> Some (date div 10000, (date div 100) mod 100, date mod 100))"

definition kbo_current_date_tick_latest_history_date ::
    "nat option \<Rightarrow> u32 \<Rightarrow> tick_state \<Rightarrow> string option" where
  "kbo_current_date_tick_latest_history_date out_size fallback_year st =
     (let direct =
        (case kbo_current_date_tick_latest_components st of
           None \<Rightarrow> None
         | Some (year, month, day) \<Rightarrow> kbo_format_history_date out_size year month day)
      in case direct of Some text \<Rightarrow> Some text
         | None \<Rightarrow> if fallback_year = 0 then None
                   else kbo_format_history_date out_size fallback_year 1 1)"

definition kbo_current_date_tick_latest_boundary_context :: "tick_state \<Rightarrow> bool \<times> boundary_context" where
  "kbo_current_date_tick_latest_boundary_context st = kbo_date_boundary_latest (tk_boundary st)"

section \<open>Dispatch, candidates, resync, save enter\<close>

definition kbo_current_date_tick_dispatch ::
    "'w invoke \<Rightarrow> u32 \<Rightarrow> u32 \<Rightarrow> tick_state \<Rightarrow> 'w \<Rightarrow> tick_state \<times> 'w \<times> bool" where
  "kbo_current_date_tick_dispatch invoke date site_rva st w =
     (case kbo_current_date_tick_dispatch_sync_consumers invoke date site_rva (tk_sync st) w of
        (sy, w', complete) \<Rightarrow> (st\<lparr>tk_sync := sy\<rparr>, w', complete))"

definition kbo_current_date_tick_publish_and_dispatch ::
    "game_env \<Rightarrow> 'w invoke \<Rightarrow> u32 \<Rightarrow> u32 \<Rightarrow> tick_state \<Rightarrow> 'w \<Rightarrow> tick_state \<times> 'w \<times> bool" where
  "kbo_current_date_tick_publish_and_dispatch env invoke date site_rva st w =
     (let (st1, _) = kbo_current_date_tick_publish env date site_rva st
      in if kbo_current_date_tick_latest_published_date st1 \<noteq> Some date then (st1, w, False)
         else kbo_current_date_tick_dispatch invoke date site_rva st1 w)"

text \<open>The result: whether the date is publishable, the previous and the expected next date.\<close>

definition kbo_current_date_tick_live_candidate_publishable ::
    "game_env \<Rightarrow> u32 \<Rightarrow> u32 \<Rightarrow> tick_state \<Rightarrow> tick_state \<times> bool \<times> u32 \<times> u32" where
  "kbo_current_date_tick_live_candidate_publishable env date site_rva st =
     (if \<not> kbo_yyyymmdd_valid date then (st, False, 0, 0)
      else
        let (st1, _) = kbo_current_date_tick_refresh_save_scope_for_source env st
        in case kbo_current_date_tick_latest_published_date st1 of
             None \<Rightarrow> (st1, True, 0, 0)
           | Some previous_date \<Rightarrow>
               if previous_date = 0 then (st1, True, 0, 0)
               else if date = previous_date then (st1, True, previous_date, 0)
               else let expected_next = kbo_yyyymmdd_add_days previous_date 1
                    in (st1, expected_next \<noteq> 0 \<and> date = expected_next, previous_date, expected_next))"

definition kbo_current_date_tick_force_resync :: "tick_state \<Rightarrow> tick_state" where
  "kbo_current_date_tick_force_resync st =
     st\<lparr>tk_last_published_date := 0, tk_published_sequence := 0, tk_write_cursor := 0,
        tk_event_dates := (\<lambda>_. 0), tk_event_site_rvas := (\<lambda>_. 0),
        tk_event_source_kinds := (\<lambda>_. 0), tk_event_save_epochs := (\<lambda>_. 0),
        tk_save_scope_path := [],
        tk_boundary := kbo_date_boundary_reset (tk_boundary st),
        tk_sync := kbo_current_date_tick_reset_sync_consumer_dates (tk_sync st)\<rparr>"

definition kbo_current_date_tick_publish_save_enter_current ::
    "game_env \<Rightarrow> 'w invoke \<Rightarrow> string option \<Rightarrow> tick_state \<Rightarrow> 'w \<Rightarrow> tick_state \<times> 'w \<times> bool" where
  "kbo_current_date_tick_publish_save_enter_current env invoke save_path st w =
     (case save_path of
        None \<Rightarrow> (st, w, False)
      | Some path \<Rightarrow>
          if path = [] then (st, w, False)
          else
            let changed = (tk_save_scope_path st \<noteq> path);
                st1 = (if changed then
                         st\<lparr>tk_last_published_date := 0,
                            tk_save_scope_path := strbuf MAX_PATH path,
                            tk_sync := kbo_current_date_tick_reset_sync_consumer_dates (tk_sync st)\<rparr>
                       else st)
            in case env_today env of
                 None \<Rightarrow> (st1, w, False)
               | Some today \<Rightarrow>
                   if \<not> kbo_yyyymmdd_valid today then (st1, w, False)
                   else
                     let (st2, published) =
                           kbo_current_date_tick_publish_core env today SAVE_ENTER_SITE_RVA
                             PublishSaveEnter st1
                     in if published then
                          let (st3, w', _) = kbo_current_date_tick_dispatch invoke today SAVE_ENTER_SITE_RVA st2 w
                          in (st3, w', True)
                        else (st2, w, False))"

section \<open>Cursors\<close>

record tick_event =
  ev_sequence :: u32
  ev_date :: u32
  ev_site_rva :: u32
  ev_source_kind :: u32
  ev_save_epoch :: u32

definition kbo_current_date_tick_cursor_init :: "tick_state \<Rightarrow> int" where
  "kbo_current_date_tick_cursor_init st = kbo_current_date_tick_latest_sequence st"

definition kbo_current_date_tick_cursor_skip_to_latest :: "tick_state \<Rightarrow> int" where
  "kbo_current_date_tick_cursor_skip_to_latest st = kbo_current_date_tick_latest_sequence st"

definition kbo_current_date_tick_clamp_missed :: "int \<Rightarrow> u32" where
  "kbo_current_date_tick_clamp_missed missed =
     (if missed \<le> 0 then 0 else if missed > 4294967295 then 4294967295 else word_of_int missed)"

text \<open>The event a cursor position denotes, as the reader assembles it from the arrays.\<close>

definition event_at :: "tick_state \<Rightarrow> int \<Rightarrow> tick_event" where
  "event_at st event_no =
     (let index = ring_slot RING_MASK event_no
      in \<lparr>ev_sequence = word_of_int event_no + 1, ev_date = tk_event_dates st index,
          ev_site_rva = tk_event_site_rvas st index,
          ev_source_kind = tk_event_source_kinds st index,
          ev_save_epoch = tk_event_save_epochs st index\<rparr>)"

text \<open>
  \<open>peek\<close>: the cursor's next sequence and its overflow log counter (\<open>None\<close> for a NULL
  counter) go in and come out, with the event and the number of missed events if there is
  one to read.
\<close>

definition kbo_current_date_tick_peek_ex ::
    "tick_state \<Rightarrow> int \<Rightarrow> int option \<Rightarrow> int \<times> int option \<times> (tick_event \<times> u32) option" where
  "kbo_current_date_tick_peek_ex st next_sequence overflow_log =
     (let latest = kbo_current_date_tick_latest_sequence st
      in if next_sequence < 0 \<or> next_sequence > latest then (latest, overflow_log, None)
         else if next_sequence = latest then (next_sequence, overflow_log, None)
         else
           let available = latest - next_sequence
           in if available > RING_SIZE
              then let missed = available - RING_SIZE;
                       next' = latest - RING_SIZE
                   in (next', map_option (\<lambda>c. fst (log_allowed c)) overflow_log,
                       Some (event_at st next', kbo_current_date_tick_clamp_missed missed))
              else (next_sequence, overflow_log, Some (event_at st next_sequence, 0)))"

definition kbo_current_date_tick_next_ex :: "tick_state \<Rightarrow> int \<Rightarrow> int \<times> (tick_event \<times> u32) option" where
  "kbo_current_date_tick_next_ex st next_sequence =
     (case kbo_current_date_tick_peek_ex st next_sequence None of
        (next', _, None) \<Rightarrow> (next', None)
      | (next', _, Some e) \<Rightarrow> (next' + 1, Some e))"

definition kbo_current_date_tick_next :: "tick_state \<Rightarrow> int \<Rightarrow> int \<times> tick_event option" where
  "kbo_current_date_tick_next st next_sequence =
     (case kbo_current_date_tick_next_ex st next_sequence of
        (next', r) \<Rightarrow> (next', map_option fst r))"

end
