(* ===== verification/DateTickProps.thy ===== *)
theory DateTickProps
  imports DateTick
begin

text \<open>
  Correctness of the date tick against its specification: a log of accepted boundary
  contexts.  \<open>tick_rep st log\<close> says that a state represents a log; every operation keeps
  it, a publish appends one entry or none, and the cursors read the log.
\<close>

section \<open>The abstraction\<close>

definition event_of :: "boundary_context \<Rightarrow> u32 \<times> u32 \<times> u32 \<times> u32" where
  "event_of c = (bc_date c, bc_site_rva c, bc_source_kind c, bc_save_epoch c)"

definition ring_row :: "tick_state \<Rightarrow> nat \<Rightarrow> u32 \<times> u32 \<times> u32 \<times> u32" where
  "ring_row st i = (tk_event_dates st i, tk_event_site_rvas st i,
     tk_event_source_kinds st i, tk_event_save_epochs st i)"

text \<open>Which context may follow another in one run of the tick.\<close>

definition accepted_after :: "boundary_context \<Rightarrow> boundary_context \<Rightarrow> bool" where
  "accepted_after a b \<longleftrightarrow> bc_previous_date b = 0
     \<or> bc_previous_date b = bc_date a
       \<and> (bc_date b = kbo_yyyymmdd_add_days (bc_date a) 1
          \<or> bc_source_kind b = SOURCE_SAVE_ENTER \<and> bc_date b = bc_date a)"

definition entry_ok :: "nat \<Rightarrow> boundary_context \<Rightarrow> bool" where
  "entry_ok n c \<longleftrightarrow> bc_sequence c = of_nat n + 1 \<and> kbo_yyyymmdd_valid (bc_date c)
     \<and> (bc_flags c AND FLAG_ACCEPTED \<noteq> 0)
     \<and> (bc_flags c AND FLAG_TRUSTED \<noteq> 0 \<longleftrightarrow>
          bc_previous_date c = 0 \<or> bc_source_kind c \<noteq> SOURCE_SAVE_ENTER)"

definition tick_base :: "tick_state \<Rightarrow> boundary_context list \<Rightarrow> bool" where
  "tick_base st log \<longleftrightarrow>
     tk_published_sequence st = int (length log) \<and> tk_write_cursor st = int (length log)
     \<and> length log < 2 ^ 31
     \<and> ring_holds 256 (ring_slot RING_MASK) (ring_row st) (map event_of log)
     \<and> (\<forall>n < length log. entry_ok n (log ! n))
     \<and> successively accepted_after log
     \<and> (log \<noteq> [] \<longrightarrow> bc_previous_date (hd log) = 0)
     \<and> boundary_ok (tk_boundary st) \<and> sync_ok (tk_sync st)"

definition tick_rep :: "tick_state \<Rightarrow> boundary_context list \<Rightarrow> bool" where
  "tick_rep st log \<longleftrightarrow> tick_base st log
     \<and> (tk_last_published_date st \<noteq> 0 \<longrightarrow> log \<noteq> [] \<and> tk_last_published_date st = bc_date (last log))"

interpretation tick_ring: event_ring 256 "ring_slot RING_MASK"
proof -
  have "RING_MASK = mask 8" by (simp add: RING_MASK_def mask_eq_exp_minus_1)
  then show "event_ring 256 (ring_slot RING_MASK)" using ring_slot_event_ring [of 8] by simp
qed

lemma initial_tick_rep: "tick_rep initial_tick []"
  by (simp add: tick_rep_def tick_base_def initial_tick_def tick_ring.holds_empty
      initial_boundary_ok initial_sync_ok)

text \<open>The base only looks at the ring, the counters, the boundary and the consumers.\<close>

lemma tick_base_cong:
  "tk_published_sequence st' = tk_published_sequence st \<Longrightarrow> tk_write_cursor st' = tk_write_cursor st \<Longrightarrow>
   ring_row st' = ring_row st \<Longrightarrow>
   boundary_ok (tk_boundary st') \<Longrightarrow> sync_ok (tk_sync st') \<Longrightarrow> tick_base st log \<Longrightarrow> tick_base st' log"
  by (simp add: tick_base_def)

lemma ring_row_simps [simp]:
  "ring_row (st\<lparr>tk_boundary := b\<rparr>) = ring_row st"
  "ring_row (st\<lparr>tk_sync := sy\<rparr>) = ring_row st"
  "ring_row (st\<lparr>tk_last_published_date := d\<rparr>) = ring_row st"
  "ring_row (st\<lparr>tk_rejected_log_count := n\<rparr>) = ring_row st"
  "ring_row (st\<lparr>tk_save_scope_path := path\<rparr>) = ring_row st"
  by (simp_all add: ring_row_def fun_eq_iff)

section \<open>Writing an event\<close>

lemma successively_snoc:
  "successively P (xs @ [x]) \<longleftrightarrow> successively P xs \<and> (xs \<noteq> [] \<longrightarrow> P (last xs) x)"
  by (induction xs rule: induct_list012) auto

lemma write_event_base:
  assumes base: "tick_base st log" and room: "Suc (length log) < 2 ^ 31"
    and v: "kbo_yyyymmdd_valid date"
    and prev: "prev \<noteq> 0 \<Longrightarrow> log \<noteq> [] \<and> prev = bc_date (last log)
       \<and> expected = kbo_yyyymmdd_add_days prev 1
       \<and> (date = expected \<or> kind = SOURCE_SAVE_ENTER \<and> date = prev)"
  shows "\<exists>c. tick_base (write_event env date prev expected site kind changed st) (log @ [c])
     \<and> bc_date c = date \<and> bc_previous_date c = prev \<and> bc_site_rva c = site \<and> bc_source_kind c = kind
     \<and> kbo_date_boundary_latest (tk_boundary (write_event env date prev expected site kind changed st)) = (True, c)"
proof -
  define r where "r = kbo_date_boundary_record_accept (env_save_path env) date prev expected
     (word_of_int (int (length log)) + 1) site kind
     (if changed then FLAG_SAVE_SCOPE_CHANGED else 0) (tk_boundary st)"
  define c where "c = snd r"
  let ?st = "write_event env date prev expected site kind changed st"
  have c: "bc_date c = date" "bc_previous_date c = prev" "bc_site_rva c = site"
      "bc_source_kind c = kind" "bc_sequence c = of_nat (length log) + 1"
    by (simp_all add: c_def r_def)
  have w: "tk_write_cursor st = int (length log)" "tk_published_sequence st = int (length log)"
    using base by (auto simp: tick_base_def)
  have st: "tk_boundary ?st = fst r" "tk_sync ?st = tk_sync st"
      "tk_write_cursor ?st = int (Suc (length log))" "tk_published_sequence ?st = int (Suc (length log))"
      "ring_row ?st = (ring_row st)(ring_slot RING_MASK (int (length log)) := event_of c)"
    using room
    by (simp_all add: write_event_def Let_def split_beta w r_def c_def ring_row_def event_of_def
        fun_eq_iff)
  have trusted: "kbo_date_boundary_context_is_trusted date prev expected kind
      \<longleftrightarrow> prev = 0 \<or> kind \<noteq> SOURCE_SAVE_ENTER"
    using v prev valid_nonzero [OF v] by (auto simp: kbo_date_boundary_context_is_trusted_def)
  have "(if changed then FLAG_SAVE_SCOPE_CHANGED else 0) AND FLAG_TRUSTED = 0"
    by (simp add: boundary_flags)
  then have e: "entry_ok (length log) c"
    unfolding entry_ok_def c c_def r_def
    by (simp add: accept_flags_trusted accept_flags_accepted trusted v)
  have link: "log \<noteq> [] \<longrightarrow> accepted_after (last log) c"
    using prev by (auto simp: accepted_after_def c)
  have hd: "bc_previous_date (hd (log @ [c])) = 0"
    using base prev c by (cases log) (auto simp: tick_base_def)
  have rows: "ring_holds 256 (ring_slot RING_MASK) (ring_row ?st) (map event_of (log @ [c]))"
    using base tick_ring.holds_push [of "ring_row st" "map event_of log" "event_of c"]
    by (simp add: tick_base_def st)
  have "tick_base ?st (log @ [c])"
    using base room e link hd rows accept_ok
    unfolding tick_base_def st
    by (auto simp: successively_snoc nth_append less_Suc_eq r_def)
  moreover have "kbo_date_boundary_latest (tk_boundary ?st) = (True, c)"
    unfolding st c_def r_def by (rule accept_latest)
  ultimately show ?thesis using c by blast
qed

section \<open>The invariant under every operation\<close>

lemma refresh_source_rep:
  assumes "tick_rep st log"
  shows "tick_rep (fst (kbo_current_date_tick_refresh_save_scope_for_source env st)) log"
  using assms refresh_ok [of "tk_boundary st" "env_save_path env"] reset_sync_ok
  by (auto simp: kbo_current_date_tick_refresh_save_scope_for_source_def Let_def split_beta
      tick_rep_def tick_base_def rejected_log_def)

lemma boundary_reject_rep: "tick_rep st log \<Longrightarrow> tick_rep (boundary_reject st) log"
  by (auto simp: boundary_reject_def tick_rep_def tick_base_def reject_ok)

lemma rejected_log_rep: "tick_rep st log \<Longrightarrow> tick_rep (rejected_log st) log"
  by (auto simp: rejected_log_def tick_rep_def tick_base_def)

lemma write_event_last [simp]:
  "tk_last_published_date (write_event env d p e site k ch st) = tk_last_published_date st"
  by (simp add: write_event_def Let_def split_beta)

lemma publish_core_rep:
  assumes rep: "tick_rep st log" and room: "Suc (length log) < 2 ^ 31"
  shows "case kbo_current_date_tick_publish_core env date site mode st of
     (st', published) \<Rightarrow>
       if published then \<exists>c. tick_rep st' (log @ [c]) \<and> bc_date c = date \<and> bc_site_rva c = site
            \<and> bc_source_kind c = kbo_current_date_tick_source_kind site mode
            \<and> bc_previous_date c =
                tk_last_published_date (fst (kbo_current_date_tick_refresh_save_scope_for_source env st))
            \<and> kbo_date_boundary_latest (tk_boundary st') = (True, c)
       else tick_rep st' log"
proof -
  let ?k = "kbo_current_date_tick_source_kind site mode"
  obtain st1 ch where r: "kbo_current_date_tick_refresh_save_scope_for_source env st = (st1, ch)"
    by (cases "kbo_current_date_tick_refresh_save_scope_for_source env st") auto
  have rep1: "tick_rep st1 log" using refresh_source_rep [OF rep, of env] r by simp
  let ?p = "tk_last_published_date st1"
  have p: "?p \<noteq> 0 \<Longrightarrow> log \<noteq> [] \<and> ?p = bc_date (last log)" using rep1 by (simp add: tick_rep_def)
  show ?thesis
  proof (cases "kbo_yyyymmdd_valid date")
    case False
    then show ?thesis
      using boundary_reject_rep [OF rep] by (simp add: kbo_current_date_tick_publish_core_def)
  next
    case v: True
    have nz: "date \<noteq> 0" using v by (rule valid_nonzero)
    note core = kbo_current_date_tick_publish_core_def Let_def r
    consider (same) "?p = date" | (reject) "?p \<noteq> date" "?p \<noteq> 0"
        "mode = PublishSaveEnter \<or> kbo_yyyymmdd_add_days ?p 1 = 0 \<or> date \<noteq> kbo_yyyymmdd_add_days ?p 1"
      | (accept) "?p \<noteq> date" "?p \<noteq> 0 \<Longrightarrow> mode = PublishLive \<and> date = kbo_yyyymmdd_add_days ?p 1"
      by (cases mode) auto
    then show ?thesis
    proof cases
      case same
      show ?thesis
      proof (cases "mode = PublishSaveEnter")
        case True
        have "\<exists>c. tick_base (write_event env date date (kbo_yyyymmdd_add_days date 1) site ?k ch st1) (log @ [c])
           \<and> bc_date c = date \<and> bc_previous_date c = date \<and> bc_site_rva c = site \<and> bc_source_kind c = ?k
           \<and> kbo_date_boundary_latest (tk_boundary
                (write_event env date date (kbo_yyyymmdd_add_days date 1) site ?k ch st1)) = (True, c)"
          using rep1 room v p same True
          by (intro write_event_base) (auto simp: tick_rep_def kbo_current_date_tick_source_kind_def)
        then show ?thesis using v same True by (auto simp: core tick_rep_def)
      next
        case False
        then show ?thesis using v same rep1 by (simp add: core)
      qed
    next
      case reject
      then show ?thesis
        using v boundary_reject_rep [OF rep1] by (auto simp: core intro: rejected_log_rep)
    next
      case accept
      let ?e = "if ?p \<noteq> 0 then kbo_yyyymmdd_add_days ?p 1 else 0"
      let ?s = "st1\<lparr>tk_last_published_date := date\<rparr>"
      have "tick_base ?s log" using rep1 by (auto simp: tick_rep_def tick_base_def)
      then have "\<exists>c. tick_base (write_event env date ?p ?e site ?k ch ?s) (log @ [c])
         \<and> bc_date c = date \<and> bc_previous_date c = ?p \<and> bc_site_rva c = site \<and> bc_source_kind c = ?k
         \<and> kbo_date_boundary_latest (tk_boundary (write_event env date ?p ?e site ?k ch ?s)) = (True, c)"
        using room v p accept by (intro write_event_base) auto
      moreover have "kbo_current_date_tick_publish_core env date site mode st
          = (write_event env date ?p ?e site ?k ch ?s, True)"
        using v accept nz by (auto simp: core)
      ultimately show ?thesis by (auto simp: tick_rep_def r)
    qed
  qed
qed

lemma dispatch_rep:
  "tick_rep st log \<Longrightarrow> tick_rep (fst (kbo_current_date_tick_dispatch invoke date site st w)) log"
  using dispatch_sync_ok [of "tk_sync st" invoke date site w]
  by (auto simp: kbo_current_date_tick_dispatch_def tick_rep_def tick_base_def split: prod.splits)

lemma resync_rep: "tick_rep st log \<Longrightarrow> tick_rep (kbo_current_date_tick_force_resync st) []"
  by (simp add: kbo_current_date_tick_force_resync_def tick_rep_def tick_base_def
      tick_ring.holds_empty reset_ok reset_sync_ok)

lemma candidate_rep:
  "tick_rep st log \<Longrightarrow> tick_rep (fst (kbo_current_date_tick_live_candidate_publishable env date site st)) log"
  using refresh_source_rep [of st log env]
  by (auto simp: kbo_current_date_tick_live_candidate_publishable_def Let_def split_beta
      split: option.splits)

lemma publish_rep:
  assumes "tick_rep st log" and "Suc (length log) < 2 ^ 31"
  shows "\<exists>log'. tick_rep (fst (kbo_current_date_tick_publish_core env date site mode st)) log'
     \<and> length log' \<le> Suc (length log)"
proof -
  obtain st' ok where r: "kbo_current_date_tick_publish_core env date site mode st = (st', ok)"
    by (cases "kbo_current_date_tick_publish_core env date site mode st") auto
  show ?thesis
  proof (cases ok)
    case True
    then obtain c where "tick_rep st' (log @ [c])"
      using publish_core_rep [OF assms, where env = env and date = date and site = site and mode = mode] r by auto
    then show ?thesis using r by (intro exI [of _ "log @ [c]"]) simp
  next
    case False
    then have "tick_rep st' log" using publish_core_rep [OF assms, where env = env and date = date and site = site and mode = mode] r by simp
    then show ?thesis using r by (intro exI [of _ log]) simp
  qed
qed

lemma publish_and_dispatch_rep:
  assumes "tick_rep st log" and "Suc (length log) < 2 ^ 31"
  shows "\<exists>log'. tick_rep (fst (kbo_current_date_tick_publish_and_dispatch env invoke date site st w)) log'
     \<and> length log' \<le> Suc (length log)"
proof -
  obtain log' where l: "tick_rep (fst (kbo_current_date_tick_publish env date site st)) log'"
      "length log' \<le> Suc (length log)"
    using publish_rep [OF assms] unfolding kbo_current_date_tick_publish_def by blast
  show ?thesis
    using l dispatch_rep [OF l(1), of invoke date site w]
    by (intro exI [of _ log'])
      (simp add: kbo_current_date_tick_publish_and_dispatch_def Let_def split_beta)
qed

lemma save_enter_rep:
  assumes "tick_rep st log" and "Suc (length log) < 2 ^ 31"
  shows "\<exists>log'. tick_rep (fst (kbo_current_date_tick_publish_save_enter_current env invoke path st w)) log'
     \<and> length log' \<le> Suc (length log)"
proof (cases "\<exists>p. path = Some p \<and> p \<noteq> []")
  case False
  then show ?thesis
    using assms(1) by (intro exI [of _ log])
      (auto simp: kbo_current_date_tick_publish_save_enter_current_def split: option.splits)
next
  case True
  then obtain p where p: "path = Some p" "p \<noteq> []" by auto
  define st1 where "st1 = (if tk_save_scope_path st \<noteq> p then
       st\<lparr>tk_last_published_date := 0, tk_save_scope_path := strbuf MAX_PATH p,
          tk_sync := kbo_current_date_tick_reset_sync_consumer_dates (tk_sync st)\<rparr> else st)"
  have rep1: "tick_rep st1 log"
    using assms(1) reset_sync_ok by (auto simp: st1_def tick_rep_def tick_base_def)
  show ?thesis
  proof (cases "\<exists>today. env_today env = Some today \<and> kbo_yyyymmdd_valid today")
    case False
    then show ?thesis
      using rep1 p by (intro exI [of _ log])
        (auto simp: kbo_current_date_tick_publish_save_enter_current_def Let_def st1_def
          split: option.splits)
  next
    case True
    then obtain d where d: "env_today env = Some d" "kbo_yyyymmdd_valid d" by auto
    define r where "r = kbo_current_date_tick_publish_core env d SAVE_ENTER_SITE_RVA PublishSaveEnter st1"
    obtain log' where l: "tick_rep (fst r) log'" "length log' \<le> Suc (length log)"
      using publish_rep [OF rep1 assms(2)] unfolding r_def by blast
    have "fst (kbo_current_date_tick_publish_save_enter_current env invoke path st w) =
        (if snd r then fst (kbo_current_date_tick_dispatch invoke d SAVE_ENTER_SITE_RVA (fst r) w) else fst r)"
      using p d by (simp add: kbo_current_date_tick_publish_save_enter_current_def Let_def split_beta
          r_def st1_def)
    then show ?thesis
      using l dispatch_rep [OF l(1), of invoke d SAVE_ENTER_SITE_RVA w]
      by (intro exI [of _ log']) simp
  qed
qed

section \<open>Reachable states\<close>

text \<open>
  The states the module can reach: any interleaving of its entry points, with any
  answers of the game, any consumer callbacks and any change of the rest of the process.
  The number counts the calls that may publish.
\<close>

inductive tick_reachable :: "nat \<Rightarrow> tick_state \<Rightarrow> 'w \<Rightarrow> bool" where
  start: "tick_reachable 0 initial_tick w"
| publish: "tick_reachable n st w \<Longrightarrow>
     tick_reachable (Suc n) (fst (kbo_current_date_tick_publish env date site st)) w"
| publish_and_dispatch: "tick_reachable n st w \<Longrightarrow>
     kbo_current_date_tick_publish_and_dispatch env invoke date site st w = (st', w', r) \<Longrightarrow>
     tick_reachable (Suc n) st' w'"
| candidate: "tick_reachable n st w \<Longrightarrow>
     tick_reachable n (fst (kbo_current_date_tick_live_candidate_publishable env date site st)) w"
| save_enter: "tick_reachable n st w \<Longrightarrow>
     kbo_current_date_tick_publish_save_enter_current env invoke path st w = (st', w', r) \<Longrightarrow>
     tick_reachable (Suc n) st' w'"
| resync: "tick_reachable n st w \<Longrightarrow> tick_reachable n (kbo_current_date_tick_force_resync st) w"
| register: "tick_reachable n st w \<Longrightarrow>
     tick_reachable n (st\<lparr>tk_sync := fst (kbo_current_date_tick_register_sync_consumer_ex
        label phase callback ctx (tk_sync st))\<rparr>) w"
| world: "tick_reachable n st w \<Longrightarrow> tick_reachable n st w'"

lemma tick_reachable_rep:
  assumes "tick_reachable n st w" and "n < 2 ^ 31 - 1"
  shows "\<exists>log. tick_rep st log \<and> length log \<le> n"
  using assms
proof (induction rule: tick_reachable.induct)
  case (start w)
  then show ?case using initial_tick_rep by fastforce
next
  case (publish n st w env date site)
  then obtain log where "tick_rep st log" "length log \<le> n" by auto
  moreover have "Suc (length log) < 2 ^ 31" using publish.prems calculation by simp
  ultimately show ?case
    using publish_rep [of st log env date site PublishLive]
    unfolding kbo_current_date_tick_publish_def by fastforce
next
  case (publish_and_dispatch n st w env invoke date site st' w' r)
  then obtain log where "tick_rep st log" "length log \<le> n" by auto
  moreover have "Suc (length log) < 2 ^ 31" using publish_and_dispatch.prems calculation by simp
  ultimately show ?case
    using publish_and_dispatch_rep [of st log env invoke date site w] publish_and_dispatch.hyps by fastforce
next
  case (candidate n st w env date site)
  then show ?case using candidate_rep by blast
next
  case (save_enter n st w env invoke path st' w' r)
  then obtain log where "tick_rep st log" "length log \<le> n" by auto
  moreover have "Suc (length log) < 2 ^ 31" using save_enter.prems calculation by simp
  ultimately show ?case
    using save_enter_rep [of st log env invoke path w] save_enter.hyps by fastforce
next
  case (resync n st w)
  then show ?case using resync_rep by fastforce
next
  case (register n st w label phase callback ctx)
  then obtain log where "tick_rep st log" "length log \<le> n" by auto
  then show ?case
    using register_sync_ok [of "tk_sync st"]
    by (intro exI [of _ log]) (auto simp: tick_rep_def tick_base_def)
qed auto

section \<open>Cursors read the log\<close>

definition log_event :: "nat \<Rightarrow> boundary_context \<Rightarrow> tick_event" where
  "log_event n c = \<lparr>ev_sequence = of_nat n + 1, ev_date = bc_date c, ev_site_rva = bc_site_rva c,
     ev_source_kind = bc_source_kind c, ev_save_epoch = bc_save_epoch c\<rparr>"

lemma event_at_log:
  assumes "tick_rep st log" and "n < length log" and "length log \<le> n + 256"
  shows "event_at st (int n) = log_event n (log ! n)"
proof -
  have "ring_row st (ring_slot RING_MASK (int n)) = event_of (log ! n)"
    using assms tick_ring.holds_read [of "ring_row st" "map event_of log" n]
    by (simp add: tick_rep_def tick_base_def)
  then show ?thesis
    by (simp add: event_at_def log_event_def ring_row_def event_of_def Let_def)
qed

lemma peek_log:
  assumes rep: "tick_rep st log" and n: "n \<le> length log"
  shows "kbo_current_date_tick_peek_ex st (int n) ov =
     (if n = length log then (int n, ov, None)
      else let k = max n (length log - 256)
           in (int k, (if k = n then ov else map_option (\<lambda>c. fst (log_allowed c)) ov),
               Some (log_event k (log ! k), of_nat (k - n))))"
proof -
  have latest: "kbo_current_date_tick_latest_sequence st = int (length log)"
    using rep by (simp add: kbo_current_date_tick_latest_sequence_def tick_rep_def tick_base_def)
  have small: "length log < 2 ^ 31" using rep by (simp add: tick_rep_def tick_base_def)
  consider "n = length log" | "n < length log" "length log \<le> n + 256" | "n + 256 < length log"
    using n by linarith
  then show ?thesis
  proof cases
    case 3
    then have k: "max n (length log - 256) = length log - 256" and ne: "length log - 256 \<noteq> n"
      by auto
    have "event_at st (int (length log) - 256) = log_event (length log - 256) (log ! (length log - 256))"
      using event_at_log [OF rep, of "length log - 256"] 3 by simp
    then show ?thesis
      using 3 small ne
      by (simp add: kbo_current_date_tick_peek_ex_def latest Let_def RING_SIZE_def k
          kbo_current_date_tick_clamp_missed_def of_nat_diff)
  next
    case 2
    then have k: "max n (length log - 256) = n" by simp
    show ?thesis
      using 2 event_at_log [OF rep 2]
      by (simp add: kbo_current_date_tick_peek_ex_def latest Let_def RING_SIZE_def k)
  next
    case 1
    then show ?thesis by (simp add: kbo_current_date_tick_peek_ex_def latest Let_def)
  qed
qed

text \<open>Reading \<open>k\<close> events one after the other with a cursor.\<close>

fun read_events :: "tick_state \<Rightarrow> int \<Rightarrow> nat \<Rightarrow> tick_event list" where
  "read_events st pos 0 = []"
| "read_events st pos (Suc k) =
     (case kbo_current_date_tick_next_ex st pos of
        (_, None) \<Rightarrow> []
      | (pos', Some (e, missed)) \<Rightarrow> e # read_events st pos' k)"

lemma next_ex_log:
  assumes "tick_rep st log" and "n < length log" and "length log \<le> n + 256"
  shows "kbo_current_date_tick_next_ex st (int n) = (int (Suc n), Some (log_event n (log ! n), 0))"
proof -
  have "max n (length log - 256) = n" using assms by simp
  then show ?thesis
    using peek_log [OF assms(1), of n None] assms by (simp add: kbo_current_date_tick_next_ex_def)
qed

lemma read_events_log:
  assumes "tick_rep st log" and "n \<le> length log" and "length log \<le> n + 256"
  shows "read_events st (int n) (length log - n) = map (\<lambda>i. log_event i (log ! i)) [n..<length log]"
  using assms(2,3)
proof (induction "length log - n" arbitrary: n)
  case (Suc k)
  then have n: "n < length log" by simp
  have "read_events st (int n) (length log - n)
      = log_event n (log ! n) # read_events st (int (Suc n)) (length log - Suc n)"
    using next_ex_log [OF assms(1) n] Suc.prems Suc.hyps(2) by (simp add: Suc_diff_Suc [symmetric] n)
  also have "\<dots> = log_event n (log ! n) # map (\<lambda>i. log_event i (log ! i)) [Suc n..<length log]"
    using Suc.hyps(1) [of "Suc n"] Suc.hyps(2) Suc.prems n by simp
  finally show ?case using n by (simp add: upt_rec [of n])
qed simp

section \<open>Properties\<close>

definition demo_env :: game_env where
  "demo_env = \<lparr>env_save_path = Some ''kbo.lg'', env_today = Some 20240301\<rparr>"

definition demo_tick :: tick_state where
  "demo_tick = fst (kbo_current_date_tick_publish demo_env 20240302 7
     (fst (kbo_current_date_tick_publish demo_env 20240301 7 initial_tick)))"

lemma demo_tick_reachable: "tick_reachable 2 demo_tick ()"
proof -
  have "tick_reachable (Suc (Suc 0)) demo_tick ()"
    unfolding demo_tick_def by (intro tick_reachable.publish tick_reachable.start)
  then show ?thesis by (simp add: numeral_2_eq_2)
qed

text \<open>
  C23: while the save scope stays the same and a date has been published, a live publish
  succeeds exactly for the day after it; it then makes that later day the last published
  date, and otherwise leaves the last published date as it was.
\<close>

theorem live_publish_advances_one_day:
  assumes "\<not> fst (snd (kbo_date_boundary_refresh_save_scope (env_save_path env) (tk_boundary st)))"
    and "kbo_yyyymmdd_valid (tk_last_published_date st)"
    and "kbo_current_date_tick_publish env date site st = (st', published)"
  shows "(published \<longleftrightarrow> date = kbo_yyyymmdd_add_days (tk_last_published_date st) 1 \<and> date \<noteq> 0)
     \<and> tk_last_published_date st' = (if published then date else tk_last_published_date st)
     \<and> (published \<longrightarrow> tk_last_published_date st < date \<and> kbo_yyyymmdd_valid date)"
proof -
  let ?p = "tk_last_published_date st"
  have r: "kbo_current_date_tick_refresh_save_scope_for_source env st = (st, False)"
    using assms(1) refresh_unchanged [OF assms(1)]
    by (simp add: kbo_current_date_tick_refresh_save_scope_for_source_def Let_def split_beta)
  have p: "?p \<noteq> 0" using assms(2) by (rule valid_nonzero)
  have nv: "kbo_yyyymmdd_add_days ?p 1 \<noteq> 0 \<Longrightarrow>
      kbo_yyyymmdd_valid (kbo_yyyymmdd_add_days ?p 1) \<and> ?p < kbo_yyyymmdd_add_days ?p 1"
    using add_days_valid [OF assms(2)] add_days_greater [OF assms(2)] by auto
  show ?thesis
    using assms(3) p nv
    by (auto simp: kbo_current_date_tick_publish_def kbo_current_date_tick_publish_core_def Let_def r
        boundary_reject_def rejected_log_def split: if_splits)
qed

theorem live_publish_advances_one_day_witness:
  "snd (kbo_current_date_tick_publish demo_env 20240303 7 demo_tick)
   \<and> \<not> snd (kbo_current_date_tick_publish demo_env 20240305 7 demo_tick)"
proof -
  have last: "tk_last_published_date demo_tick = 20240302" by code_simp
  have same: "\<not> fst (snd (kbo_date_boundary_refresh_save_scope (env_save_path demo_env) (tk_boundary demo_tick)))"
    by code_simp
  have v: "kbo_yyyymmdd_valid (tk_last_published_date demo_tick)" unfolding last by code_simp
  have n: "kbo_yyyymmdd_add_days 20240302 1 = 20240303" by code_simp
  show ?thesis
    using live_publish_advances_one_day [OF same v, of 20240303 7]
      live_publish_advances_one_day [OF same v, of 20240305 7]
    by (auto simp: last n prod_eq_iff)
qed

text \<open>
  C2: what a cursor inside the published range gets.  With nothing left it gets nothing;
  otherwise it gets the event at its position, or at the oldest position still in the ring
  with the exact number of events it missed.
\<close>

theorem peek_accounts_for_every_event:
  assumes "tick_reachable n st w" and "n < 2 ^ 31 - 1"
    and "0 \<le> pos" and "pos \<le> tk_published_sequence st"
  shows "case kbo_current_date_tick_peek_ex st pos ov of
     (pos', ov', None) \<Rightarrow> pos = tk_published_sequence st \<and> pos' = pos
   | (pos', ov', Some (e, missed)) \<Rightarrow>
       pos < tk_published_sequence st \<and> pos' = max pos (tk_published_sequence st - 256)
       \<and> int (unat missed) = pos' - pos \<and> e = event_at st pos'"
proof -
  obtain log where l: "tick_rep st log" using tick_reachable_rep [OF assms(1,2)] by blast
  have len: "tk_published_sequence st = int (length log)" "length log < 2 ^ 31"
    using l by (auto simp: tick_rep_def tick_base_def)
  define m where "m = nat pos"
  have m: "pos = int m" "m \<le> length log" using assms(3,4) len by (auto simp: m_def)
  show ?thesis
  proof (cases "m = length log")
    case True
    then show ?thesis using peek_log [OF l m(2), of ov] m len by simp
  next
    case False
    define k where "k = max m (length log - 256)"
    have k: "m \<le> k" "k < length log" "length log \<le> k + 256"
      using False m by (auto simp: k_def)
    have "int k = max pos (int (length log) - 256)"
      using m by (simp add: k_def max_def) linarith
    moreover have "uint (word_of_nat (k - m) :: u32) = int k - int m"
    proof -
      have "unat (word_of_nat (k - m) :: u32) = k - m"
        using k len by (simp add: unat_of_nat del: of_nat_diff)
      then show ?thesis using k(1) by (simp only: uint_nat of_nat_diff)
    qed
    moreover have "kbo_current_date_tick_peek_ex st pos ov =
        (int k, (if k = m then ov else map_option (\<lambda>c. fst (log_allowed c)) ov),
         Some (log_event k (log ! k), of_nat (k - m)))"
      using peek_log [OF l m(2), of ov] False by (simp add: m k_def Let_def)
    ultimately show ?thesis
      using event_at_log [OF l k(2,3)] k m False len by (simp del: of_nat_diff)
  qed
qed

theorem peek_accounts_for_every_event_witness:
  "case kbo_current_date_tick_peek_ex demo_tick 1 None of
     (pos', ov', None) \<Rightarrow> False
   | (pos', ov', Some (e, missed)) \<Rightarrow> pos' = 1 \<and> missed = 0 \<and> e = event_at demo_tick 1"
proof -
  have p: "tk_published_sequence demo_tick = 2" by code_simp
  show ?thesis
    using peek_accounts_for_every_event [OF demo_tick_reachable, of 1 None] p
    by (auto split: option.splits prod.splits simp: word_uint_eq_iff)
qed

text \<open>
  C17: a cursor that is not more than 256 events behind reads every published event after
  its position, in order of their sequence numbers, and then finds nothing.
\<close>

theorem cursor_reads_all_in_order:
  assumes "tick_reachable n st w" and "n < 2 ^ 31 - 1"
    and "0 \<le> pos" and "pos \<le> tk_published_sequence st" and "tk_published_sequence st \<le> pos + 256"
  shows "read_events st pos (nat (tk_published_sequence st - pos))
       = map (event_at st) [pos..tk_published_sequence st - 1]
     \<and> snd (kbo_current_date_tick_next_ex st (tk_published_sequence st)) = None"
proof -
  obtain log where l: "tick_rep st log" using tick_reachable_rep [OF assms(1,2)] by blast
  have len: "tk_published_sequence st = int (length log)"
    using l by (auto simp: tick_rep_def tick_base_def)
  define m where "m = nat pos"
  have m: "pos = int m" "m \<le> length log" "length log \<le> m + 256"
    using assms(3-5) len by (auto simp: m_def)
  have "map (event_at st) [int m..int (length log) - 1] = map (\<lambda>i. event_at st (int i)) [m..<length log]"
    using m(2) by (intro nth_equalityI) auto
  also have "\<dots> = map (\<lambda>i. log_event i (log ! i)) [m..<length log]"
    using m(3) by (intro map_cong refl) (auto intro: event_at_log [OF l])
  finally have "read_events st pos (nat (tk_published_sequence st - pos))
       = map (event_at st) [pos..tk_published_sequence st - 1]"
    using read_events_log [OF l m(2,3)] m len by (simp add: nat_diff_distrib)
  moreover have "snd (kbo_current_date_tick_next_ex st (tk_published_sequence st)) = None"
    using peek_log [OF l order_refl, of None] len by (simp add: kbo_current_date_tick_next_ex_def)
  ultimately show ?thesis ..
qed

theorem cursor_reads_all_in_order_witness:
  "read_events demo_tick 0 2 = [event_at demo_tick 0, event_at demo_tick 1]"
proof -
  have p: "tk_published_sequence demo_tick = 2" by code_simp
  show ?thesis
    using cursor_reads_all_in_order [OF demo_tick_reachable, of 0] p
    by (simp add: upto.simps)
qed

text \<open>
  A resync restarts the sequence at 0 but leaves the cursors as they are.  A cursor
  that is polled before the next publish goes back to 0 with nothing to read, whatever it
  held.  One that is not polled keeps its position: here a cursor that had read the only
  event so far is polled after two new dates were published, and gets the second of them
  with no missed events reported; the first is never delivered to it.
\<close>

definition resynced_tick :: tick_state where
  "resynced_tick = fst (kbo_current_date_tick_publish demo_env 20250402 7
     (fst (kbo_current_date_tick_publish demo_env 20250401 7
       (kbo_current_date_tick_force_resync
         (fst (kbo_current_date_tick_publish demo_env 20240301 7 initial_tick))))))"

theorem resync_and_cursors:
  "kbo_current_date_tick_peek_ex (kbo_current_date_tick_force_resync st) pos ov = (0, ov, None)
   \<and> kbo_current_date_tick_cursor_init
        (fst (kbo_current_date_tick_publish demo_env 20240301 7 initial_tick)) = 1
   \<and> map_option (\<lambda>(e, missed). (ev_date e, missed))
        (snd (kbo_current_date_tick_next_ex resynced_tick 1)) = Some (20250402, 0)
   \<and> ev_date (event_at resynced_tick 0) = 20250401"
proof (intro conjI)
  show "kbo_current_date_tick_peek_ex (kbo_current_date_tick_force_resync st) pos ov = (0, ov, None)"
    by (simp add: kbo_current_date_tick_peek_ex_def kbo_current_date_tick_latest_sequence_def
        kbo_current_date_tick_force_resync_def Let_def)
qed code_simp+

end
