(* ===== verification/TickHistory.thy ===== *)
theory TickHistory
  imports DateTickProps
begin

text \<open>
  The history of the date tick.  A run of the module is a list of calls of its entry points;
  \<open>tick_history\<close> executes it and notes, after every call, what the module then reports: the
  latest boundary context whenever the published sequence moved.  Beside each context it
  notes whether a new chain of dates began with it.  That is read off the calls alone: the
  first date of all, the first date after a forced resync, and the first date after the save
  scope changed.  The lemmas show that the chain is the one the tick promises.
\<close>

section \<open>Calls\<close>

datatype 'w tick_call =
    Publish game_env u32 u32
  | PublishAndDispatch game_env "'w invoke" u32 u32
  | Candidate game_env u32 u32
  | SaveEnter game_env "'w invoke" "string option"
  | ForceResync
  | Register "string option" u32 nat nat
  | Elsewhere 'w

fun run_call :: "'w tick_call \<Rightarrow> tick_state \<times> 'w \<Rightarrow> tick_state \<times> 'w" where
  "run_call (Publish env date site) (st, w) = (fst (kbo_current_date_tick_publish env date site st), w)"
| "run_call (PublishAndDispatch env invoke date site) (st, w) =
     (case kbo_current_date_tick_publish_and_dispatch env invoke date site st w of (st', w', _) \<Rightarrow> (st', w'))"
| "run_call (Candidate env date site) (st, w) =
     (fst (kbo_current_date_tick_live_candidate_publishable env date site st), w)"
| "run_call (SaveEnter env invoke path) (st, w) =
     (case kbo_current_date_tick_publish_save_enter_current env invoke path st w of (st', w', _) \<Rightarrow> (st', w'))"
| "run_call ForceResync (st, w) = (kbo_current_date_tick_force_resync st, w)"
| "run_call (Register label phase callback ctx) (st, w) =
     (st\<lparr>tk_sync := fst (kbo_current_date_tick_register_sync_consumer_ex label phase callback ctx (tk_sync st))\<rparr>, w)"
| "run_call (Elsewhere w') (st, w) = (st, w')"

text \<open>Whether a call begins a new chain of dates: after it the next date has no previous one.\<close>

definition scope_changes :: "game_env \<Rightarrow> tick_state \<Rightarrow> bool" where
  "scope_changes env st =
     fst (snd (kbo_date_boundary_refresh_save_scope (env_save_path env) (tk_boundary st)))"

fun starts_over :: "'w tick_call \<Rightarrow> tick_state \<Rightarrow> bool" where
  "starts_over (Publish env date site) st = (kbo_yyyymmdd_valid date \<and> scope_changes env st)"
| "starts_over (PublishAndDispatch env invoke date site) st = (kbo_yyyymmdd_valid date \<and> scope_changes env st)"
| "starts_over (Candidate env date site) st = (kbo_yyyymmdd_valid date \<and> scope_changes env st)"
| "starts_over (SaveEnter env invoke path) st =
     (case path of None \<Rightarrow> False
      | Some p \<Rightarrow> p \<noteq> [] \<and>
          (tk_save_scope_path st \<noteq> p
           \<or> (case env_today env of None \<Rightarrow> False
              | Some today \<Rightarrow> kbo_yyyymmdd_valid today \<and> scope_changes env st)))"
| "starts_over ForceResync st = True"
| "starts_over (Register label phase callback ctx) st = False"
| "starts_over (Elsewhere w) st = False"

type_synonym history = "(bool \<times> boundary_context) list \<times> bool"

definition noted :: "bool \<Rightarrow> tick_state \<Rightarrow> tick_state \<Rightarrow> (bool \<times> boundary_context) list \<Rightarrow> history" where
  "noted fresh st st' log =
     (if tk_published_sequence st' \<noteq> tk_published_sequence st
      then (log @ [(fresh, snd (kbo_current_date_tick_latest_boundary_context st'))], False)
      else (log, fresh))"

fun observe :: "'w tick_call \<Rightarrow> tick_state \<Rightarrow> tick_state \<Rightarrow> history \<Rightarrow> history" where
  "observe ForceResync st st' (log, fresh) = ([], True)"
| "observe call st st' (log, fresh) = noted (fresh \<or> starts_over call st) st st' log"

fun tick_history :: "'w tick_call list \<Rightarrow> tick_state \<times> 'w \<Rightarrow> history \<Rightarrow> (tick_state \<times> 'w) \<times> history" where
  "tick_history [] s h = (s, h)"
| "tick_history (c # cs) s h =
     (let s' = run_call c s in tick_history cs s' (observe c (fst s) (fst s') h))"

section \<open>The invariant of the history\<close>

definition hist_ok :: "tick_state \<Rightarrow> history \<Rightarrow> bool" where
  "hist_ok st h \<longleftrightarrow> tick_rep st (map snd (fst h))
     \<and> (snd h \<longleftrightarrow> tk_last_published_date st = 0)
     \<and> kbo_current_date_tick_latest_boundary_context st =
         (if fst h = [] then (False, empty_context) else (True, snd (last (fst h))))
     \<and> (\<forall>(f, c) \<in> set (fst h). f \<longleftrightarrow> bc_previous_date c = 0)"

lemma hist_rep: "hist_ok st (log, fresh) \<Longrightarrow> tick_rep st (map snd log)"
  by (simp add: hist_ok_def)

lemma rep_sequence: "tick_rep st log \<Longrightarrow> tk_published_sequence st = int (length log)"
  by (simp add: tick_rep_def tick_base_def)

lemma initial_hist: "hist_ok initial_tick ([], True)"
  using initial_tick_rep
  by (simp add: hist_ok_def initial_tick_def initial_boundary_def kbo_date_boundary_latest_def
      kbo_current_date_tick_latest_boundary_context_def)

text \<open>Calls that touch neither the last date nor the latest context keep the history.\<close>

lemma hist_ok_frame:
  assumes "hist_ok st h" and "tick_rep st' (map snd (fst h))"
    and "tk_last_published_date st' = tk_last_published_date st"
    and "kbo_date_boundary_latest (tk_boundary st') = kbo_date_boundary_latest (tk_boundary st)"
  shows "hist_ok st' h"
  using assms by (simp add: hist_ok_def kbo_current_date_tick_latest_boundary_context_def)

lemma noted_same:
  "tick_rep st (map snd log) \<Longrightarrow> tick_rep st' (map snd log) \<Longrightarrow> noted f st st' log = (log, f)"
  by (simp add: noted_def rep_sequence)

section \<open>The calls\<close>

lemma latest_boundary_simps [simp]:
  "kbo_date_boundary_latest (fst (boundary_log_allowed b)) = kbo_date_boundary_latest b"
  by (simp add: kbo_date_boundary_latest_def)

lemma refresh_latest [simp]:
  "kbo_date_boundary_latest (fst (kbo_date_boundary_refresh_save_scope p b)) = kbo_date_boundary_latest b"
  by (simp add: kbo_date_boundary_latest_def kbo_date_boundary_refresh_save_scope_def Let_def split_beta)

lemma refresh_source_fields:
  "tk_last_published_date (fst (kbo_current_date_tick_refresh_save_scope_for_source env st))
     = (if scope_changes env st then 0 else tk_last_published_date st)"
  "kbo_date_boundary_latest (tk_boundary (fst (kbo_current_date_tick_refresh_save_scope_for_source env st)))
     = kbo_date_boundary_latest (tk_boundary st)"
  by (simp_all add: kbo_current_date_tick_refresh_save_scope_for_source_def scope_changes_def Let_def
      split_beta rejected_log_def)

lemma refresh_source_hist:
  assumes "hist_ok st (log, fresh)"
  shows "hist_ok (fst (kbo_current_date_tick_refresh_save_scope_for_source env st))
     (log, fresh \<or> scope_changes env st)"
  using assms refresh_source_rep [OF hist_rep [OF assms], of env] refresh_source_fields
  by (auto simp: hist_ok_def kbo_current_date_tick_latest_boundary_context_def)

lemma candidate_hist:
  assumes "hist_ok st (log, fresh)"
  shows "hist_ok (fst (kbo_current_date_tick_live_candidate_publishable env date site st))
     (log, fresh \<or> (kbo_yyyymmdd_valid date \<and> scope_changes env st))"
  using assms refresh_source_hist [OF assms, of env]
  by (auto simp: kbo_current_date_tick_live_candidate_publishable_def Let_def split_beta
      split: option.splits)

lemma reject_fields [simp]:
  "tk_last_published_date (boundary_reject st) = tk_last_published_date st"
  "kbo_date_boundary_latest (tk_boundary (boundary_reject st)) = kbo_date_boundary_latest (tk_boundary st)"
  "tk_last_published_date (rejected_log st) = tk_last_published_date st"
  "tk_boundary (rejected_log st) = tk_boundary st"
  by (simp_all add: boundary_reject_def rejected_log_def kbo_date_boundary_record_reject_def)

lemma publish_core_refused:
  assumes "\<not> snd (kbo_current_date_tick_publish_core env date site mode st)"
  shows "tk_last_published_date (fst (kbo_current_date_tick_publish_core env date site mode st))
       = (if kbo_yyyymmdd_valid date \<and> scope_changes env st then 0 else tk_last_published_date st)
     \<and> kbo_date_boundary_latest (tk_boundary (fst (kbo_current_date_tick_publish_core env date site mode st)))
       = kbo_date_boundary_latest (tk_boundary st)"
  using assms refresh_source_fields [of env st]
  by (auto simp: kbo_current_date_tick_publish_core_def Let_def split_beta split: if_splits)

lemma publish_core_accepted:
  assumes "snd (kbo_current_date_tick_publish_core env date site mode st)"
  shows "kbo_yyyymmdd_valid date
     \<and> tk_last_published_date (fst (kbo_current_date_tick_publish_core env date site mode st)) = date"
  using assms
  by (auto simp: kbo_current_date_tick_publish_core_def Let_def split_beta split: if_splits)

lemma publish_core_hist:
  assumes h: "hist_ok st (log, fresh)" and room: "Suc (length log) < 2 ^ 31"
  shows "hist_ok (fst (kbo_current_date_tick_publish_core env date site mode st))
     (noted (fresh \<or> (kbo_yyyymmdd_valid date \<and> scope_changes env st)) st
        (fst (kbo_current_date_tick_publish_core env date site mode st)) log)"
proof -
  obtain st' ok where r: "kbo_current_date_tick_publish_core env date site mode st = (st', ok)"
    by (cases "kbo_current_date_tick_publish_core env date site mode st") auto
  have room': "Suc (length (map snd log)) < 2 ^ 31" using room by simp
  note core = publish_core_rep [OF hist_rep [OF h] room', where env = env and date = date and site = site and mode = mode]
  show ?thesis
  proof (cases ok)
    case False
    then have "tick_rep st' (map snd log)" using core r by simp
    then show ?thesis
      using h False publish_core_refused [of env date site mode st] noted_same [OF hist_rep [OF h], of st'] r
      by (auto simp: hist_ok_def kbo_current_date_tick_latest_boundary_context_def)
  next
    case True
    then obtain c where c: "tick_rep st' (map snd log @ [c])"
        "bc_previous_date c = tk_last_published_date (fst (kbo_current_date_tick_refresh_save_scope_for_source env st))"
        "kbo_date_boundary_latest (tk_boundary st') = (True, c)"
      using core r by auto
    have date: "kbo_yyyymmdd_valid date" "tk_last_published_date st' = date"
      using publish_core_accepted [of env date site mode st] r True by auto
    then have "tk_last_published_date st' \<noteq> 0" using valid_nonzero by simp
    moreover have "noted f st st' log = (log @ [(f, c)], False)" for f
      using rep_sequence [OF c(1)] rep_sequence [OF hist_rep [OF h]] c(3)
      by (simp add: noted_def kbo_current_date_tick_latest_boundary_context_def)
    ultimately show ?thesis
      using h c date r refresh_source_fields(1) [of env st]
      by (auto simp: hist_ok_def kbo_current_date_tick_latest_boundary_context_def)
  qed
qed

lemma dispatch_fields:
  "tk_last_published_date (fst (kbo_current_date_tick_dispatch invoke date site st w)) = tk_last_published_date st"
  "tk_boundary (fst (kbo_current_date_tick_dispatch invoke date site st w)) = tk_boundary st"
  "tk_published_sequence (fst (kbo_current_date_tick_dispatch invoke date site st w)) = tk_published_sequence st"
  by (simp_all add: kbo_current_date_tick_dispatch_def split: prod.splits)

lemma dispatch_hist:
  assumes "hist_ok st h"
  shows "hist_ok (fst (kbo_current_date_tick_dispatch invoke date site st w)) h"
proof (rule hist_ok_frame [OF assms])
  show "tick_rep (fst (kbo_current_date_tick_dispatch invoke date site st w)) (map snd (fst h))"
    using assms by (intro dispatch_rep) (simp add: hist_ok_def)
qed (simp_all add: dispatch_fields)

lemma noted_dispatch:
  "noted f st (fst (kbo_current_date_tick_dispatch invoke date site st' w)) log = noted f st st' log"
  by (simp add: noted_def dispatch_fields kbo_current_date_tick_latest_boundary_context_def)

lemma hist_noted_length: "length (fst (noted f st st' log)) \<le> Suc (length log)"
  by (simp add: noted_def)

lemma hist_mono_fresh: "snd (noted f st st' log) \<Longrightarrow> f"
  by (simp add: noted_def split: if_splits)

lemma save_enter_hist:
  assumes h: "hist_ok st (log, fresh)" and room: "Suc (length log) < 2 ^ 31"
    and r: "kbo_current_date_tick_publish_save_enter_current env invoke path st w = (st', w', b)"
  shows "hist_ok st' (noted (fresh \<or> starts_over (SaveEnter env invoke path) st) st st' log)"
proof (cases "\<exists>p. path = Some p \<and> p \<noteq> []")
  case False
  then have "st' = st" "\<not> starts_over (SaveEnter env invoke path) st"
    using r by (auto simp: kbo_current_date_tick_publish_save_enter_current_def split: option.splits)
  then show ?thesis using h by (simp add: noted_def)
next
  case True
  then obtain p where p: "path = Some p" "p \<noteq> []" by auto
  define st1 where "st1 = (if tk_save_scope_path st \<noteq> p then
       st\<lparr>tk_last_published_date := 0, tk_save_scope_path := strbuf MAX_PATH p,
          tk_sync := kbo_current_date_tick_reset_sync_consumer_dates (tk_sync st)\<rparr> else st)"
  have same: "scope_changes env st1 = scope_changes env st"
      "tk_published_sequence st1 = tk_published_sequence st"
    by (simp_all add: st1_def scope_changes_def)
  have rep1: "tick_rep st1 (map snd log)"
    using hist_rep [OF h] reset_sync_ok by (auto simp: st1_def tick_rep_def tick_base_def)
  have h1: "hist_ok st1 (log, fresh \<or> tk_save_scope_path st \<noteq> p)"
    using h rep1 by (auto simp: hist_ok_def st1_def kbo_current_date_tick_latest_boundary_context_def)
  have noted1: "noted f st1 st2 log = noted f st st2 log" for f st2 by (simp add: noted_def same)
  show ?thesis
  proof (cases "\<exists>today. env_today env = Some today \<and> kbo_yyyymmdd_valid today")
    case False
    then have "st' = st1"
      using r p by (auto simp: kbo_current_date_tick_publish_save_enter_current_def Let_def st1_def split: option.splits)
    moreover have "starts_over (SaveEnter env invoke path) st = (tk_save_scope_path st \<noteq> p)"
      using False p by (auto split: option.splits)
    ultimately show ?thesis using h1 same(2) by (simp add: noted_def)
  next
    case True
    then obtain d where d: "env_today env = Some d" "kbo_yyyymmdd_valid d" by auto
    define q where "q = kbo_current_date_tick_publish_core env d SAVE_ENTER_SITE_RVA PublishSaveEnter st1"
    let ?f = "fresh \<or> starts_over (SaveEnter env invoke path) st"
    have "hist_ok (fst q) (noted ?f st (fst q) log)"
      using publish_core_hist [OF h1 room, of env d SAVE_ENTER_SITE_RVA PublishSaveEnter] p d same(1)
      by (auto simp: q_def noted1 disj_ac)
    moreover have "st' = (if snd q then fst (kbo_current_date_tick_dispatch invoke d SAVE_ENTER_SITE_RVA (fst q) w)
        else fst q)"
      using r p d by (simp add: kbo_current_date_tick_publish_save_enter_current_def Let_def split_beta
          q_def st1_def split: if_splits)
    ultimately show ?thesis by (simp add: dispatch_hist noted_dispatch)
  qed
qed

lemma resync_hist:
  assumes "hist_ok st h"
  shows "hist_ok (kbo_current_date_tick_force_resync st) ([], True)"
proof -
  have "tick_rep (kbo_current_date_tick_force_resync st) []"
    using assms by (intro resync_rep [of st "map snd (fst h)"]) (simp add: hist_ok_def)
  then show ?thesis
    by (simp add: hist_ok_def kbo_current_date_tick_force_resync_def kbo_date_boundary_reset_def Let_def
        kbo_date_boundary_latest_def kbo_current_date_tick_latest_boundary_context_def)
qed

text \<open>One call.\<close>

lemma run_call_hist:
  assumes h: "hist_ok st (log, fresh)" and room: "Suc (length log) < 2 ^ 31"
    and r: "run_call c (st, w) = (st', w')"
  shows "hist_ok st' (observe c st st' (log, fresh))"
proof (cases c)
  case (Publish env date site)
  then show ?thesis
    using publish_core_hist [OF h room, of env date site PublishLive] r
    by (auto simp: kbo_current_date_tick_publish_def)
next
  case (PublishAndDispatch env invoke date site)
  let ?p = "fst (kbo_current_date_tick_publish env date site st)"
  have "hist_ok ?p (noted (fresh \<or> starts_over c st) st ?p log)"
    using publish_core_hist [OF h room, of env date site PublishLive] PublishAndDispatch
    by (simp add: kbo_current_date_tick_publish_def)
  moreover have "st' = ?p \<or> st' = fst (kbo_current_date_tick_dispatch invoke date site ?p w)"
    using r PublishAndDispatch
    by (auto simp: kbo_current_date_tick_publish_and_dispatch_def Let_def split_beta split: if_splits)
  ultimately show ?thesis using PublishAndDispatch by (auto simp: noted_dispatch intro: dispatch_hist)
next
  case (Candidate env date site)
  have st': "st' = fst (kbo_current_date_tick_live_candidate_publishable env date site st)"
    using r Candidate by simp
  have n: "hist_ok st' (log, fresh \<or> starts_over c st)"
    using candidate_hist [OF h, of env date site] Candidate st' by simp
  from noted_same [OF hist_rep [OF h] hist_rep [OF n]] show ?thesis using n Candidate by simp
next
  case (SaveEnter env invoke path)
  then obtain b where "kbo_current_date_tick_publish_save_enter_current env invoke path st w = (st', w', b)"
    using r by (auto split: prod.splits)
  from save_enter_hist [OF h room this] show ?thesis by (simp add: SaveEnter)
next
  case ForceResync
  then show ?thesis using resync_hist [OF h] r by simp
next
  case (Register label phase callback ctx)
  have st': "st' = st\<lparr>tk_sync := fst (kbo_current_date_tick_register_sync_consumer_ex
      label phase callback ctx (tk_sync st))\<rparr>" using r Register by simp
  have "hist_ok st' (log, fresh)"
  proof (rule hist_ok_frame [OF h])
    show "tick_rep st' (map snd (fst (log, fresh)))"
      using hist_rep [OF h] register_sync_ok [of "tk_sync st"]
      by (auto simp: st' tick_rep_def tick_base_def)
  qed (simp_all add: st')
  then show ?thesis using Register by (simp add: noted_def st')
next
  case (Elsewhere w2)
  then show ?thesis using h r by (simp add: noted_def)
qed

lemma observe_length:
  "length (fst (observe c st st' (log, fresh))) \<le> Suc (length log)"
  by (cases c) (simp_all add: noted_def)

lemma tick_history_ok:
  assumes "hist_ok st h" and "length (fst h) + length calls < 2 ^ 31"
    and "tick_history calls (st, w) h = ((st', w'), h')"
  shows "hist_ok st' h' \<and> length (fst h') \<le> length (fst h) + length calls"
  using assms
proof (induction calls arbitrary: st w h)
  case (Cons c calls)
  obtain st1 w1 where c: "run_call c (st, w) = (st1, w1)" by fastforce
  obtain log fresh where l: "h = (log, fresh)" by fastforce
  let ?h = "observe c st st1 h"
  have len: "length (fst ?h) \<le> Suc (length log)" unfolding l by (rule observe_length)
  have ok: "hist_ok st1 ?h"
    using run_call_hist [of st log fresh c w st1 w1] Cons.prems(1,2) c by (simp add: l)
  have "hist_ok st' h' \<and> length (fst h') \<le> length (fst ?h) + length calls"
    using Cons.prems(2,3) len by (intro Cons.IH [OF ok]) (auto simp: c l)
  then show ?case using len by (auto simp: l)
qed simp

text \<open>Every reachable state is the end of a history.\<close>

lemma tick_history_append:
  "tick_history (xs @ ys) s h = (let (s', h') = tick_history xs s h in tick_history ys s' h')"
  by (induction xs arbitrary: s h) (simp_all add: Let_def)

lemma tick_history_snoc:
  "tick_history xs s h = ((st, w), h') \<Longrightarrow> \<exists>h''. tick_history (xs @ [c]) s h = (run_call c (st, w), h'')"
  by (simp add: tick_history_append Let_def)

lemma reachable_history:
  "tick_reachable n st w \<Longrightarrow> \<exists>w0 calls h. tick_history calls (initial_tick, w0) ([], True) = ((st, w), h)"
proof (induction rule: tick_reachable.induct)
  case (start w)
  show ?case by (intro exI [of _ w] exI [of _ "[]"] exI [of _ "([], True)"]) simp
next
  case (publish n st w env date site)
  then obtain w0 calls h where "tick_history calls (initial_tick, w0) ([], True) = ((st, w), h)" by blast
  from tick_history_snoc [OF this, of "Publish env date site"] show ?case by fastforce
next
  case (publish_and_dispatch n st w env invoke date site st' w' r)
  then obtain w0 calls h where "tick_history calls (initial_tick, w0) ([], True) = ((st, w), h)" by blast
  from tick_history_snoc [OF this, of "PublishAndDispatch env invoke date site"]
  show ?case using publish_and_dispatch.hyps(2) by fastforce
next
  case (candidate n st w env date site)
  then obtain w0 calls h where "tick_history calls (initial_tick, w0) ([], True) = ((st, w), h)" by blast
  from tick_history_snoc [OF this, of "Candidate env date site"] show ?case by fastforce
next
  case (save_enter n st w env invoke path st' w' r)
  then obtain w0 calls h where "tick_history calls (initial_tick, w0) ([], True) = ((st, w), h)" by blast
  from tick_history_snoc [OF this, of "SaveEnter env invoke path"]
  show ?case using save_enter.hyps(2) by fastforce
next
  case (resync n st w)
  then obtain w0 calls h where "tick_history calls (initial_tick, w0) ([], True) = ((st, w), h)" by blast
  from tick_history_snoc [OF this, of ForceResync] show ?case by fastforce
next
  case (register n st w label phase callback ctx)
  then obtain w0 calls h where "tick_history calls (initial_tick, w0) ([], True) = ((st, w), h)" by blast
  from tick_history_snoc [OF this, of "Register label phase callback ctx"] show ?case by fastforce
next
  case (world n st w w')
  then obtain w0 calls h where "tick_history calls (initial_tick, w0) ([], True) = ((st, w), h)" by blast
  from tick_history_snoc [OF this, of "Elsewhere w'"] show ?case by fastforce
qed

section \<open>Property\<close>

text \<open>
  C1: what the module has published after any sequence of (fewer than \<open>2 ^ 31\<close>) calls, from
  the start of the process.  The history is what was observed: after each call that moved the published
  sequence, the latest boundary context; a forced resync empties it.  The sequence counts
  it, the ring holds its last 256 entries, and the module still reports its last entry.
  Every entry is a valid date.  An entry with which a chain began (the first after the start
  or a resync, or after the save scope changed) has no previous date and is trusted; every
  other one has the entry before it as its previous date and lies one day after it, or, on
  entering a save, repeats it, and is trusted exactly if it does not come from entering a
  save.  The last published date is that of the last entry, unless a new chain is due.
\<close>

theorem published_dates_form_chains:
  assumes "tick_history calls (initial_tick, w) ([], True) = ((st, w'), (log, fresh))"
    and "length calls < 2 ^ 31"
  shows "tk_published_sequence st = int (length log)
     \<and> kbo_current_date_tick_latest_boundary_context st
         = (if log = [] then (False, empty_context) else (True, snd (last log)))
     \<and> tk_last_published_date st = (if fresh then 0 else bc_date (snd (last log)))
     \<and> (\<forall>i < length log. case log ! i of (starts, c) \<Rightarrow>
          (length log \<le> i + 256 \<longrightarrow> event_at st (int i) = log_event i c)
          \<and> kbo_yyyymmdd_valid (bc_date c)
          \<and> (bc_flags c AND FLAG_TRUSTED \<noteq> 0 \<longleftrightarrow> starts \<or> bc_source_kind c \<noteq> SOURCE_SAVE_ENTER)
          \<and> (if starts then bc_previous_date c = 0
             else 0 < i \<and> bc_previous_date c = bc_date (snd (log ! (i - 1)))
               \<and> (bc_date c = kbo_yyyymmdd_add_days (bc_date (snd (log ! (i - 1)))) 1
                  \<or> bc_source_kind c = SOURCE_SAVE_ENTER \<and> bc_date c = bc_date (snd (log ! (i - 1))))))"
proof -
  have ok: "hist_ok st (log, fresh)"
    using tick_history_ok [OF initial_hist _ assms(1)] assms(2) by simp
  let ?log = "map snd log"
  have rep: "tick_rep st ?log" using ok by (rule hist_rep)
  have base: "\<forall>n < length ?log. entry_ok n (?log ! n)" "successively accepted_after ?log"
      "?log \<noteq> [] \<longrightarrow> bc_previous_date (hd ?log) = 0"
    using rep by (simp_all add: tick_rep_def tick_base_def)
  have entry: "case log ! i of (starts, c) \<Rightarrow>
          (length log \<le> i + 256 \<longrightarrow> event_at st (int i) = log_event i c)
          \<and> kbo_yyyymmdd_valid (bc_date c)
          \<and> (bc_flags c AND FLAG_TRUSTED \<noteq> 0 \<longleftrightarrow> starts \<or> bc_source_kind c \<noteq> SOURCE_SAVE_ENTER)
          \<and> (if starts then bc_previous_date c = 0
             else 0 < i \<and> bc_previous_date c = bc_date (snd (log ! (i - 1)))
               \<and> (bc_date c = kbo_yyyymmdd_add_days (bc_date (snd (log ! (i - 1)))) 1
                  \<or> bc_source_kind c = SOURCE_SAVE_ENTER \<and> bc_date c = bc_date (snd (log ! (i - 1)))))"
    if i: "i < length log" for i
  proof -
    obtain starts c where c: "log ! i = (starts, c)" by fastforce
    then have "(starts, c) \<in> set log" using i by (metis nth_mem)
    then have starts: "starts \<longleftrightarrow> bc_previous_date c = 0" using ok by (auto simp: hist_ok_def)
    have e: "entry_ok i c" using base(1) i c by force
    have ev: "length log \<le> i + 256 \<longrightarrow> event_at st (int i) = log_event i c"
      using event_at_log [OF rep, of i] i c by simp
    show ?thesis
    proof (cases starts)
      case True
      then show ?thesis using c starts e ev by (simp add: entry_ok_def)
    next
      case False
      have pos: "0 < i" using base(3) False starts c i by (cases log; cases i) auto
      then have "accepted_after (snd (log ! (i - 1))) c"
        using successively_nth [OF base(2), of "i - 1"] i c by simp
      then show ?thesis using c starts e ev False pos by (auto simp: entry_ok_def accepted_after_def)
    qed
  qed
  have "tk_last_published_date st = (if fresh then 0 else bc_date (snd (last log)))"
    using ok rep by (auto simp: hist_ok_def tick_rep_def last_map)
  then show ?thesis using ok rep_sequence [OF rep] entry by (simp add: hist_ok_def)
qed

definition demo_calls :: "unit tick_call list" where
  "demo_calls = [Publish demo_env 20240301 7, Publish demo_env 20240305 7, Publish demo_env 20240302 7,
     SaveEnter (demo_env\<lparr>env_today := Some 20250301\<rparr>) (\<lambda>_ _ _ _ w. (True, w)) (Some ''other.lg'')]"

theorem published_dates_form_chains_witness:
  "case tick_history demo_calls (initial_tick, ()) ([], True) of ((st, w'), (log, fresh)) \<Rightarrow>
     map (\<lambda>(starts, c). (starts, bc_date c)) log = [(True, 20240301), (False, 20240302), (True, 20250301)]
     \<and> event_at st 1 = log_event 1 (snd (log ! 1)) \<and> tk_last_published_date st = 20250301"
proof -
  obtain st w' log fresh where r: "tick_history demo_calls (initial_tick, ()) ([], True) = ((st, w'), (log, fresh))"
    by (metis surj_pair)
  have "(case tick_history demo_calls (initial_tick, ()) ([], True) of ((st, w'), (log, fresh)) \<Rightarrow>
      (map (\<lambda>(starts, c). (starts, bc_date c)) log, fresh))
      = ([(True, 20240301), (False, 20240302), (True, 20250301)], False)" by code_simp
  then have dates: "map (\<lambda>(starts, c). (starts, bc_date c)) log
      = [(True, 20240301), (False, 20240302), (True, 20250301)]" and f: "\<not> fresh"
    unfolding r by simp_all
  have len: "length log = 3" using arg_cong [OF dates, of length] by simp
  have l: "length demo_calls < 2 ^ 31" by (simp add: demo_calls_def)
  note chains = published_dates_form_chains [OF r l]
  have "bc_date (snd (last log)) = 20250301"
    using arg_cong [OF dates, of last] len by (cases log rule: rev_cases) (auto simp: split_beta)
  then have "tk_last_published_date st = 20250301" using chains f by simp
  moreover have "event_at st (int 1) = log_event 1 (snd (log ! 1))"
    using chains [THEN conjunct2, THEN conjunct2, THEN conjunct2, rule_format, of 1] len
    by (simp add: split_beta del: One_nat_def)
  ultimately show ?thesis using dates by (simp add: r split_beta)
qed

end
