(* ===== verification/TickConsumer.thy ===== *)
theory TickConsumer
  imports DateTickProps
begin

text \<open>
  The polling consumer of the date tick:
  \<open>native/src/core/dates/tick/capture/consumer/current_date_tick_consumer.c\<close>.
  A consumer owns a cursor into the event ring, the save it works for, the last date it
  processed and at most one pending event; \<open>next\<close> hands out the pending work until
  \<open>mark_processed\<close> acknowledges it.

  \<open>tick_consumer\<close> is \<open>KboCurrentDateTickConsumer\<close> field by field.  The two loops of the
  code poll the ring until it is drained; they are \<open>partial_function\<close>s whose value
  \<open>None\<close> stands for not returning, and the lemmas show that they return.  The event
  ring is the one of theory \<open>DateTick\<close>; the consumer may publish the date of a save that
  was just entered, so the tick state and the process world \<open>'w\<close> are threaded through.
\<close>

section \<open>State\<close>

record tick_consumer =
  cn_next_sequence :: int
  cn_pending_event :: tick_event
  cn_save_path :: string
  cn_label :: string
  cn_last_processed_date :: u32
  cn_pending_date :: u32
  cn_flags :: u32
  cn_pending_valid :: int
  cn_overflow_log_count :: int
  cn_reset_log_count :: int
  cn_observed_log_count :: int
  cn_hook_log_count :: int

record tick_work =
  wk_date :: u32
  wk_event_date :: u32
  wk_site_rva :: u32
  wk_sequence :: u32
  wk_missed_events :: u32
  wk_source_kind :: u32
  wk_save_epoch :: u32
  wk_gap :: int

definition EMIT_CURRENT_ON_SAVE_ENTER :: u32 where "EMIT_CURRENT_ON_SAVE_ENTER = 1"
definition COALESCE_TO_LATEST :: u32 where "COALESCE_TO_LATEST = 2"

definition zero_event :: tick_event where
  "zero_event = \<lparr>ev_sequence = 0, ev_date = 0, ev_site_rva = 0, ev_source_kind = 0, ev_save_epoch = 0\<rparr>"

section \<open>Pending event\<close>

definition kbo_current_date_tick_consumer_clear_pending :: "tick_consumer \<Rightarrow> tick_consumer" where
  "kbo_current_date_tick_consumer_clear_pending c =
     c\<lparr>cn_pending_event := zero_event, cn_pending_date := 0, cn_pending_valid := 0\<rparr>"

definition kbo_current_date_tick_consumer_pending_valid_value :: "u32 \<Rightarrow> int" where
  "kbo_current_date_tick_consumer_pending_valid_value missed_events =
     (if missed_events \<ge> 2147483647 then 2147483647 else uint missed_events + 1)"

definition kbo_current_date_tick_consumer_pending_missed_events :: "tick_consumer \<Rightarrow> u32" where
  "kbo_current_date_tick_consumer_pending_missed_events c =
     (if cn_pending_valid c \<le> 1 then 0 else word_of_int (cn_pending_valid c - 1))"

definition kbo_current_date_tick_add_missed_events :: "u32 \<Rightarrow> u32 \<Rightarrow> u32" where
  "kbo_current_date_tick_add_missed_events left right =
     (if 0xffffffff - left < right then 0xffffffff else left + right)"

definition kbo_current_date_tick_consumer_set_pending ::
    "tick_event \<Rightarrow> u32 \<Rightarrow> u32 \<Rightarrow> tick_consumer \<Rightarrow> tick_consumer" where
  "kbo_current_date_tick_consumer_set_pending event pending_date missed_events c =
     c\<lparr>cn_pending_event := event, cn_pending_date := pending_date,
       cn_pending_valid := kbo_current_date_tick_consumer_pending_valid_value missed_events\<rparr>"

definition kbo_current_date_tick_consumer_label :: "tick_consumer \<Rightarrow> string" where
  "kbo_current_date_tick_consumer_label c =
     (if cn_label c = [] then ''current_date_tick_consumer'' else cn_label c)"

definition kbo_current_date_tick_consumer_pending_work :: "tick_consumer \<Rightarrow> tick_work option" where
  "kbo_current_date_tick_consumer_pending_work c =
     (if cn_pending_valid c = 0 then None
      else Some \<lparr>wk_date = cn_pending_date c,
                 wk_event_date = ev_date (cn_pending_event c),
                 wk_site_rva = ev_site_rva (cn_pending_event c),
                 wk_sequence = ev_sequence (cn_pending_event c),
                 wk_missed_events = kbo_current_date_tick_consumer_pending_missed_events c,
                 wk_source_kind = ev_source_kind (cn_pending_event c),
                 wk_save_epoch = ev_save_epoch (cn_pending_event c),
                 wk_gap = 0\<rparr>)"

section \<open>Coalescing\<close>

definition kbo_current_date_tick_consumer_coalesce_enabled :: "tick_consumer \<Rightarrow> bool" where
  "kbo_current_date_tick_consumer_coalesce_enabled c \<longleftrightarrow> cn_flags c AND COALESCE_TO_LATEST \<noteq> 0"

text \<open>An event the consumer has no use for: invalid, or not after the last processed date.\<close>

definition stale_event :: "u32 \<Rightarrow> tick_event \<Rightarrow> bool" where
  "stale_event last_processed_date event \<longleftrightarrow> \<not> kbo_yyyymmdd_valid (ev_date event)
     \<or> (last_processed_date \<noteq> 0 \<and> ev_date event \<le> last_processed_date)"

text \<open>
  The loop of \<open>coalesce_event\<close>: cursor, overflow log counter, the selected event with its
  missed events, and the number of skipped events.
\<close>

partial_function (option) coalesce_loop ::
    "tick_state \<Rightarrow> u32 \<Rightarrow> int \<Rightarrow> int \<Rightarrow> tick_event \<Rightarrow> u32 \<Rightarrow> u32
       \<Rightarrow> (int \<times> int \<times> tick_event \<times> u32 \<times> u32) option" where
  [code]: "coalesce_loop ts last_processed_date next ovf selected selected_missed skipped_events =
     (case kbo_current_date_tick_peek_ex ts next (Some ovf) of
        (next', ovf', None) \<Rightarrow> Some (next', the ovf', selected, selected_missed, skipped_events)
      | (next', ovf', Some (event, missed_events)) \<Rightarrow>
          let next'' = sint (ev_sequence event)
          in if stale_event last_processed_date event then
               coalesce_loop ts last_processed_date next'' (the ovf') selected selected_missed skipped_events
             else if ev_date event \<le> ev_date selected then
               coalesce_loop ts last_processed_date next'' (the ovf') selected selected_missed
                 (kbo_current_date_tick_add_missed_events skipped_events 1)
             else
               coalesce_loop ts last_processed_date next'' (the ovf') event missed_events
                 (kbo_current_date_tick_add_missed_events skipped_events 1))"

text \<open>The result: the consumer, the selected event, the missed and the skipped events.\<close>

definition kbo_current_date_tick_consumer_coalesce_event ::
    "tick_state \<Rightarrow> tick_event \<Rightarrow> u32 \<Rightarrow> tick_consumer
       \<Rightarrow> (tick_consumer \<times> tick_event \<times> u32 \<times> u32) option" where
  "kbo_current_date_tick_consumer_coalesce_event ts first_event io_missed_events c =
     (let next = (if cn_next_sequence c < sint (ev_sequence first_event)
                  then sint (ev_sequence first_event) else cn_next_sequence c)
      in case coalesce_loop ts (cn_last_processed_date c) next (cn_overflow_log_count c)
                first_event io_missed_events 0 of
           None \<Rightarrow> None
         | Some (next', ovf', selected, selected_missed, skipped_events) \<Rightarrow>
             Some (c\<lparr>cn_next_sequence := next', cn_overflow_log_count := ovf'\<rparr>, selected,
                   kbo_current_date_tick_add_missed_events selected_missed skipped_events,
                   skipped_events))"

section \<open>Save scope\<close>

definition kbo_current_date_tick_consumer_reset_save ::
    "tick_state \<Rightarrow> string \<Rightarrow> bool \<Rightarrow> tick_consumer \<Rightarrow> tick_consumer" where
  "kbo_current_date_tick_consumer_reset_save ts save_path preserve_pending_hooks c =
     (let c1 = kbo_current_date_tick_consumer_clear_pending
                 (c\<lparr>cn_save_path := strbuf MAX_PATH save_path, cn_last_processed_date := 0\<rparr>);
          c2 = (if preserve_pending_hooks then c1
                else c1\<lparr>cn_next_sequence := kbo_current_date_tick_cursor_skip_to_latest ts\<rparr>)
      in c2\<lparr>cn_reset_log_count := fst (log_allowed (cn_reset_log_count c2))\<rparr>)"

text \<open>The result: the consumer, whether the save changed and whether it is the first known one.\<close>

definition kbo_current_date_tick_consumer_refresh_save_path ::
    "game_env \<Rightarrow> tick_state \<Rightarrow> tick_consumer \<Rightarrow> (tick_consumer \<times> bool \<times> bool) option" where
  "kbo_current_date_tick_consumer_refresh_save_path env ts c =
     (case env_save_path env of
        None \<Rightarrow> None
      | Some save_path \<Rightarrow>
          if cn_save_path c \<noteq> [] \<and> cn_save_path c = save_path then Some (c, False, False)
          else let first_known_save = (cn_save_path c = [])
               in Some (kbo_current_date_tick_consumer_reset_save ts save_path first_known_save c,
                        True, first_known_save))"

definition kbo_current_date_tick_consumer_publish_save_enter_current ::
    "game_env \<Rightarrow> 'w invoke \<Rightarrow> tick_consumer \<Rightarrow> tick_state \<Rightarrow> 'w \<Rightarrow> tick_state \<times> 'w \<times> bool" where
  "kbo_current_date_tick_consumer_publish_save_enter_current env invoke c ts w =
     (if cn_flags c AND EMIT_CURRENT_ON_SAVE_ENTER = 0 then (ts, w, False)
      else kbo_current_date_tick_publish_save_enter_current env invoke (Some (cn_save_path c)) ts w)"

definition kbo_current_date_tick_consumer_needs_save_enter_current :: "tick_consumer \<Rightarrow> bool" where
  "kbo_current_date_tick_consumer_needs_save_enter_current c \<longleftrightarrow>
     cn_flags c AND EMIT_CURRENT_ON_SAVE_ENTER \<noteq> 0 \<and> cn_last_processed_date c = 0
     \<and> cn_pending_valid c = 0"

section \<open>Entry points\<close>

definition zero_consumer :: tick_consumer where
  "zero_consumer = \<lparr>cn_next_sequence = 0, cn_pending_event = zero_event, cn_save_path = [],
     cn_label = [], cn_last_processed_date = 0, cn_pending_date = 0, cn_flags = 0,
     cn_pending_valid = 0, cn_overflow_log_count = 0, cn_reset_log_count = 0,
     cn_observed_log_count = 0, cn_hook_log_count = 0\<rparr>"

definition kbo_current_date_tick_consumer_init ::
    "tick_state \<Rightarrow> string option \<Rightarrow> u32 \<Rightarrow> tick_consumer" where
  "kbo_current_date_tick_consumer_init ts label flags =
     zero_consumer\<lparr>cn_next_sequence := kbo_current_date_tick_cursor_init ts,
       cn_label := strbuf 64 (case label of
                     None \<Rightarrow> ''current_date_tick_consumer''
                   | Some l \<Rightarrow> if l = [] then ''current_date_tick_consumer'' else l),
       cn_flags := flags\<rparr>"

text \<open>What \<open>next\<close> does with the first event that is not stale.\<close>

definition consumer_take ::
    "tick_state \<Rightarrow> tick_event \<Rightarrow> u32 \<Rightarrow> tick_consumer \<Rightarrow> (tick_consumer \<times> tick_work option) option" where
  "consumer_take ts event missed_events c =
     (case (if kbo_current_date_tick_consumer_coalesce_enabled c
            then kbo_current_date_tick_consumer_coalesce_event ts event missed_events c
            else Some (c, event, missed_events, 0)) of
        None \<Rightarrow> None
      | Some (c1, event', missed', skipped_events) \<Rightarrow>
          let c2 = kbo_current_date_tick_consumer_set_pending event' (ev_date event') missed' c1;
              c3 = c2\<lparr>cn_hook_log_count := fst (log_allowed (cn_hook_log_count c2))\<rparr>;
              c4 = (if skipped_events \<noteq> 0
                    then c3\<lparr>cn_observed_log_count := fst (log_allowed (cn_observed_log_count c3))\<rparr>
                    else c3)
          in Some (c4, kbo_current_date_tick_consumer_pending_work c4))"

partial_function (option) consumer_scan ::
    "tick_state \<Rightarrow> tick_consumer \<Rightarrow> (tick_consumer \<times> tick_work option) option" where
  [code]: "consumer_scan ts c =
     (case kbo_current_date_tick_peek_ex ts (cn_next_sequence c) (Some (cn_overflow_log_count c)) of
        (next', ovf', None) \<Rightarrow>
          Some (c\<lparr>cn_next_sequence := next', cn_overflow_log_count := the ovf'\<rparr>, None)
      | (next', ovf', Some (event, missed_events)) \<Rightarrow>
          let c1 = c\<lparr>cn_next_sequence := next', cn_overflow_log_count := the ovf'\<rparr>
          in if stale_event (cn_last_processed_date c1) event
             then consumer_scan ts (c1\<lparr>cn_next_sequence := i32 (cn_next_sequence c1 + 1)\<rparr>)
             else consumer_take ts event missed_events c1)"

definition kbo_current_date_tick_consumer_next ::
    "game_env \<Rightarrow> 'w invoke \<Rightarrow> tick_consumer \<Rightarrow> tick_state \<Rightarrow> 'w
       \<Rightarrow> (tick_consumer \<times> tick_state \<times> 'w \<times> tick_work option) option" where
  "kbo_current_date_tick_consumer_next env invoke c ts w =
     (case kbo_current_date_tick_consumer_refresh_save_path env ts c of
        None \<Rightarrow> Some (c, ts, w, None)
      | Some (c1, save_changed, first_known_save) \<Rightarrow>
          let (ts1, w1, _) =
                (if save_changed \<or> kbo_current_date_tick_consumer_needs_save_enter_current c1
                 then kbo_current_date_tick_consumer_publish_save_enter_current env invoke c1 ts w
                 else (ts, w, False))
          in if cn_pending_valid c1 \<noteq> 0
             then Some (c1, ts1, w1, kbo_current_date_tick_consumer_pending_work c1)
             else map_option (\<lambda>(c2, work). (c2, ts1, w1, work)) (consumer_scan ts1 c1))"

definition kbo_current_date_tick_consumer_mark_processed :: "tick_consumer \<Rightarrow> tick_consumer" where
  "kbo_current_date_tick_consumer_mark_processed c =
     (if cn_pending_valid c = 0 then c
      else
        let processed_date = cn_pending_date c;
            c1 = (if kbo_yyyymmdd_valid processed_date
                  then c\<lparr>cn_last_processed_date := processed_date\<rparr> else c);
            pending_sequence = ev_sequence (cn_pending_event c1);
            c2 = (if pending_sequence \<noteq> 0 \<and> cn_next_sequence c1 < sint pending_sequence
                  then c1\<lparr>cn_next_sequence := sint pending_sequence\<rparr> else c1)
        in kbo_current_date_tick_consumer_clear_pending c2)"

definition kbo_current_date_tick_consumer_skip_to_latest :: "tick_state \<Rightarrow> tick_consumer \<Rightarrow> tick_consumer" where
  "kbo_current_date_tick_consumer_skip_to_latest ts c =
     kbo_current_date_tick_consumer_clear_pending
       (c\<lparr>cn_next_sequence := kbo_current_date_tick_cursor_skip_to_latest ts\<rparr>)"

end
