(* ===== verification/TickConsumerProps.thy ===== *)
theory TickConsumerProps
  imports TickConsumer
begin

text \<open>
  The consumer against the log of the tick: what its two loops compute on the events a
  state represents, that they return, and the protocol of \<open>next\<close> and \<open>mark_processed\<close>.
\<close>

section \<open>Missed events\<close>

lemma add_missed_unat:
  "unat (kbo_current_date_tick_add_missed_events a b) = min (unat a + unat b) (2 ^ 32 - 1)"
proof -
  have m: "unat (0xffffffff - a) = 2 ^ 32 - 1 - unat a"
    using unat_u32_bound [of a] by (subst unat_sub) (simp_all add: word_le_nat_alt)
  show ?thesis
  proof (cases "0xffffffff - a < b")
    case True
    then have "2 ^ 32 - 1 < unat a + unat b" using m by (simp add: word_less_nat_alt)
    then show ?thesis using True by (simp add: kbo_current_date_tick_add_missed_events_def)
  next
    case False
    then have "unat a + unat b < 2 ^ 32"
      using m unat_u32_bound [of a] by (simp add: word_less_nat_alt)
    then show ?thesis using False
      by (simp add: kbo_current_date_tick_add_missed_events_def unat_plus_if')
  qed
qed

lemma pending_valid_value_pos [simp]: "0 < kbo_current_date_tick_consumer_pending_valid_value m"
  by (simp add: kbo_current_date_tick_consumer_pending_valid_value_def)

lemma pending_missed_roundtrip:
  assumes "cn_pending_valid c = kbo_current_date_tick_consumer_pending_valid_value m"
    and "unat m < 2 ^ 31 - 1"
  shows "kbo_current_date_tick_consumer_pending_missed_events c = m"
proof -
  have lt: "m < 2147483647" using assms(2) by (simp add: word_less_nat_alt)
  have "uint m + 1 \<le> 1 \<longleftrightarrow> m = 0" using uint_ge_0 [of m] by (simp add: word_uint_eq_iff)
  then show ?thesis using assms(1) lt
    by (simp add: kbo_current_date_tick_consumer_pending_missed_events_def
        kbo_current_date_tick_consumer_pending_valid_value_def not_le [symmetric])
qed

section \<open>The coalescing loop as a fold\<close>

definition fresh :: "u32 \<Rightarrow> tick_event \<Rightarrow> bool" where
  "fresh last_processed_date e \<longleftrightarrow> \<not> stale_event last_processed_date e"

definition coalesce_step ::
    "u32 \<Rightarrow> tick_event \<times> u32 \<times> u32 \<Rightarrow> tick_event \<Rightarrow> tick_event \<times> u32 \<times> u32" where
  "coalesce_step last_processed_date = (\<lambda>(sel, missed, skipped) e.
     if \<not> fresh last_processed_date e then (sel, missed, skipped)
     else if ev_date e \<le> ev_date sel
          then (sel, missed, kbo_current_date_tick_add_missed_events skipped 1)
     else (e, 0, kbo_current_date_tick_add_missed_events skipped 1))"

lemma coalesce_step_apply:
  "coalesce_step lp (sel, missed, skipped) e =
     (if \<not> fresh lp e then (sel, missed, skipped)
      else if ev_date e \<le> ev_date sel
           then (sel, missed, kbo_current_date_tick_add_missed_events skipped 1)
      else (e, 0, kbo_current_date_tick_add_missed_events skipped 1))"
  by (simp add: coalesce_step_def)

definition log_events :: "boundary_context list \<Rightarrow> nat \<Rightarrow> tick_event list" where
  "log_events log n = map (\<lambda>i. log_event i (log ! i)) [n..<length log]"

lemma log_events_end [simp]: "log_events log (length log) = []"
  by (simp add: log_events_def)

lemma log_events_cons: "n < length log \<Longrightarrow> log_events log n = log_event n (log ! n) # log_events log (Suc n)"
  by (simp add: log_events_def upt_rec [of n])

lemma log_event_date [simp]: "ev_date (log_event n c) = bc_date c"
  by (simp add: log_event_def)

lemma log_event_sequence:
  "n + 1 < 2 ^ 31 \<Longrightarrow> sint (ev_sequence (log_event n c)) = int (Suc n)"
proof -
  assume n: "n + 1 < 2 ^ 31"
  have "ev_sequence (log_event n c) = word_of_int (int (Suc n))" by (simp add: log_event_def)
  moreover have "sint (word_of_int (int (Suc n)) :: u32) = int (Suc n)"
    using n by (simp only: sint_sbintrunc') (simp add: signed_take_bit_int_eq_self)
  ultimately show ?thesis by metis
qed

lemma tick_rep_small: "tick_rep st log \<Longrightarrow> length log < 2 ^ 31"
  by (simp add: tick_rep_def tick_base_def)

lemma tick_rep_published: "tick_rep st log \<Longrightarrow> tk_published_sequence st = int (length log)"
  by (simp add: tick_rep_def tick_base_def)

lemma peek_at_end:
  "tick_rep st log \<Longrightarrow> kbo_current_date_tick_peek_ex st (int (length log)) ov = (int (length log), ov, None)"
  using peek_log [of st log "length log"] by simp

lemma peek_within:
  assumes "tick_rep st log" and "n < length log" and "length log \<le> n + 256"
  shows "kbo_current_date_tick_peek_ex st (int n) ov = (int n, ov, Some (log_event n (log ! n), 0))"
proof -
  have "max n (length log - 256) = n" using assms(3) by simp
  then show ?thesis using peek_log [OF assms(1), of n ov] assms(2) by simp
qed

lemma coalesce_loop_log:
  assumes "tick_rep st log" and "n \<le> length log" and "length log \<le> n + 256"
  shows "coalesce_loop st lp (int n) ov sel missed skipped =
     (case foldl (coalesce_step lp) (sel, missed, skipped) (log_events log n) of
        (sel', missed', skipped') \<Rightarrow> Some (int (length log), ov, sel', missed', skipped'))"
  using assms(2,3)
proof (induction "length log - n" arbitrary: n sel missed skipped)
  case 0
  then have "n = length log" by simp
  then show ?case using peek_at_end [OF assms(1)] by (subst coalesce_loop.simps) simp
next
  case (Suc k)
  then have n: "n < length log" by simp
  have s: "sint (ev_sequence (log_event n (log ! n))) = int (Suc n)"
    using n tick_rep_small [OF assms(1)] by (intro log_event_sequence) linarith
  have ih: "coalesce_loop st lp (int (Suc n)) ov sel missed skipped =
     (case foldl (coalesce_step lp) (sel, missed, skipped) (log_events log (Suc n)) of
        (sel', missed', skipped') \<Rightarrow> Some (int (length log), ov, sel', missed', skipped'))"
    for sel missed skipped
    using Suc n by (intro Suc.hyps(1)) auto
  show ?case
    by (subst coalesce_loop.simps)
      (simp add: peek_within [OF assms(1) n Suc.prems(2)] s ih log_events_cons [OF n] Let_def
        coalesce_step_def fresh_def del: of_nat_Suc)
qed

text \<open>What the fold selects and counts.\<close>

lemma coalesce_fold:
  assumes "foldl (coalesce_step lp) (sel, missed, skipped) es = (sel', missed', skipped')"
    and "unat skipped + length es < 2 ^ 31"
  shows "(\<forall>e \<in> set es. fresh lp e \<longrightarrow> ev_date e \<le> ev_date sel')
     \<and> ev_date sel \<le> ev_date sel'
     \<and> (sel' = sel \<or> sel' \<in> set es \<and> fresh lp sel')
     \<and> missed' = (if ev_date sel' = ev_date sel then missed else 0)
     \<and> unat skipped' = unat skipped + length (filter (fresh lp) es)"
  using assms
proof (induction es arbitrary: sel missed skipped)
  case (Cons e es)
  have up: "unat (kbo_current_date_tick_add_missed_events skipped 1) = Suc (unat skipped)"
    using Cons.prems(2) by (simp add: add_missed_unat)
  consider "\<not> fresh lp e" | "fresh lp e" "ev_date e \<le> ev_date sel" | "fresh lp e" "ev_date sel < ev_date e"
    by force
  then show ?case
  proof cases
    case 1
    then show ?thesis
      using Cons.IH [of sel missed skipped] Cons.prems by (auto simp: coalesce_step_apply split del: if_split)
  next
    case 2
    then show ?thesis
      using Cons.IH [of sel missed "kbo_current_date_tick_add_missed_events skipped 1"] Cons.prems up
      by (fastforce simp: coalesce_step_apply)
  next
    case 3
    have st: "coalesce_step lp (sel, missed, skipped) e
        = (e, 0, kbo_current_date_tick_add_missed_events skipped 1)"
      using 3 by (auto simp: coalesce_step_apply)
    have f: "foldl (coalesce_step lp) (e, 0, kbo_current_date_tick_add_missed_events skipped 1) es
        = (sel', missed', skipped')"
      using Cons.prems(1) by (simp add: st)
    have b: "unat (kbo_current_date_tick_add_missed_events skipped 1) + length es < 2 ^ 31"
      using Cons.prems(2) up by simp
    note ih = Cons.IH [OF f b]
    have lt: "ev_date sel < ev_date sel'" using ih 3(2) by (meson order_less_le_trans)
    show ?thesis using ih lt 3(1) up by auto
  qed
qed simp

section \<open>The scan\<close>

lemma uint_from_unat: "unat w = n \<Longrightarrow> uint w = int n"
  by (simp only: uint_nat)

lemma of_nat_small_u32: "n < 2 ^ 31 \<Longrightarrow> unat (of_nat n :: u32) = n"
  by (simp add: unat_of_nat)

lemma cursor_overflow_commute:
  "c\<lparr>cn_overflow_log_count := ov, cn_next_sequence := i\<rparr>
     = c\<lparr>cn_next_sequence := i, cn_overflow_log_count := ov\<rparr>"
  by (cases c) simp

lemma i32_Suc: "n < 2 ^ 31 - 1 \<Longrightarrow> i32 (int n + 1) = int (Suc n)"
  using interlocked_increment_id [of "int n"] by (simp add: interlocked_increment_def)

definition first_fresh :: "u32 \<Rightarrow> boundary_context list \<Rightarrow> nat \<Rightarrow> nat option" where
  "first_fresh lp log n = find (\<lambda>i. fresh lp (log_event i (log ! i))) [n..<length log]"

lemma first_fresh_cons:
  "n < length log \<Longrightarrow> first_fresh lp log n =
     (if fresh lp (log_event n (log ! n)) then Some n else first_fresh lp log (Suc n))"
  by (simp add: first_fresh_def upt_rec [of n])

lemma first_fresh_end [simp]: "first_fresh lp log (length log) = None"
  by (simp add: first_fresh_def)

lemma first_fresh_Some:
  "first_fresh lp log n = Some i \<Longrightarrow> n \<le> i \<and> i < length log \<and> fresh lp (log_event i (log ! i))
     \<and> (\<forall>j. n \<le> j \<longrightarrow> j < i \<longrightarrow> \<not> fresh lp (log_event j (log ! j)))"
proof (induction "length log - n" arbitrary: n)
  case 0
  then show ?case by (simp add: first_fresh_def)
next
  case (Suc k)
  then have n: "n < length log" "k = length log - Suc n" by auto
  show ?case
  proof (cases "fresh lp (log_event n (log ! n))")
    case True
    then show ?thesis using Suc.prems n by (simp add: first_fresh_cons)
  next
    case False
    then have "first_fresh lp log (Suc n) = Some i" using Suc.prems n by (simp add: first_fresh_cons)
    note ih = Suc.hyps(1) [OF n(2) this]
    show ?thesis using ih False by (metis Suc_leI Suc_leD le_eq_less_or_eq)
  qed
qed

lemma first_fresh_None:
  "first_fresh lp log n = None \<Longrightarrow> n \<le> j \<Longrightarrow> j < length log \<Longrightarrow> \<not> fresh lp (log_event j (log ! j))"
  unfolding first_fresh_def find_None_iff by auto

lemma first_fresh_filter:
  "filter (\<lambda>j. fresh lp (log_event j (log ! j))) [n..<length log] =
     (case first_fresh lp log n of None \<Rightarrow> []
      | Some i \<Rightarrow> i # filter (\<lambda>j. fresh lp (log_event j (log ! j))) [Suc i..<length log])"
proof (induction "length log - n" arbitrary: n)
  case 0
  then show ?case by (simp add: first_fresh_def)
next
  case (Suc k)
  then have n: "n < length log" "k = length log - Suc n" by auto
  then show ?case using Suc.hyps(1) [OF n(2)] by (simp add: first_fresh_cons upt_rec [of n])
qed

lemma scan_within:
  assumes "tick_rep ts log" and "cn_next_sequence c = int n" and "n \<le> length log"
    and "length log \<le> n + 256"
  shows "consumer_scan ts c =
     (case first_fresh (cn_last_processed_date c) log n of
        None \<Rightarrow> Some (c\<lparr>cn_next_sequence := int (length log)\<rparr>, None)
      | Some i \<Rightarrow> consumer_take ts (log_event i (log ! i)) 0 (c\<lparr>cn_next_sequence := int i\<rparr>))"
  using assms(2-4)
proof (induction "length log - n" arbitrary: n c)
  case 0
  then have "n = length log" by simp
  then show ?case using 0 peek_at_end [OF assms(1)] by (subst consumer_scan.simps) simp
next
  case (Suc k)
  then have n: "n < length log" by simp
  then have i: "i32 (int n + 1) = int (Suc n)"
    using tick_rep_small [OF assms(1)] by (intro i32_Suc) linarith
  have kk: "k = length log - Suc n" using Suc.hyps(2) by simp
  have ih: "consumer_scan ts (c\<lparr>cn_next_sequence := int (Suc n)\<rparr>) =
     (case first_fresh (cn_last_processed_date c) log (Suc n) of
        None \<Rightarrow> Some (c\<lparr>cn_next_sequence := int (length log)\<rparr>, None)
      | Some i \<Rightarrow> consumer_take ts (log_event i (log ! i)) 0 (c\<lparr>cn_next_sequence := int i\<rparr>))"
    using Suc.hyps(1) [of "Suc n" "c\<lparr>cn_next_sequence := int (Suc n)\<rparr>"] kk Suc.prems n
    by (simp del: of_nat_Suc split: option.splits)
  show ?case
    by (subst consumer_scan.simps)
      (simp add: peek_within [OF assms(1) n Suc.prems(3)] Suc.prems(1) i ih
        first_fresh_cons [OF n] fresh_def del: of_nat_Suc)
qed

text \<open>
  The whole scan.  Only an overflow before the first poll moves the cursor, touches the
  overflow log counter and reports missed events, and these only if the oldest event that
  is left is the one taken.
\<close>

lemma scan_log:
  assumes rep: "tick_rep ts log" and n: "cn_next_sequence c = int n" "n \<le> length log"
  defines "k \<equiv> max n (length log - 256)"
  shows "\<exists>ov. consumer_scan ts c =
     (case first_fresh (cn_last_processed_date c) log k of
        None \<Rightarrow> Some (c\<lparr>cn_next_sequence := int (length log), cn_overflow_log_count := ov\<rparr>, None)
      | Some i \<Rightarrow> consumer_take ts (log_event i (log ! i)) (if i = k then of_nat (k - n) else 0)
                   (c\<lparr>cn_next_sequence := int i, cn_overflow_log_count := ov\<rparr>))"
proof (cases "length log \<le> n + 256")
  case True
  then have "k = n" by (simp add: k_def)
  then show ?thesis
    using scan_within [OF rep n True]
    by (intro exI [of _ "cn_overflow_log_count c"]) (auto split: option.splits)
next
  case False
  then have k: "k = length log - 256" "n < k" "k < length log" by (auto simp: k_def)
  define ov where "ov = fst (log_allowed (cn_overflow_log_count c))"
  define c' where "c' = c\<lparr>cn_next_sequence := int (Suc k), cn_overflow_log_count := ov\<rparr>"
  have peek: "kbo_current_date_tick_peek_ex ts (int n) (Some (cn_overflow_log_count c)) =
      (int k, Some ov, Some (log_event k (log ! k), of_nat (k - n)))"
    using peek_log [OF rep n(2), of "Some (cn_overflow_log_count c)"] k False
    by (simp add: k_def [symmetric] Let_def ov_def del: of_nat_diff)
  have i: "i32 (int k + 1) = int (Suc k)"
    using k tick_rep_small [OF rep] by (intro i32_Suc) linarith
  have rest: "consumer_scan ts c' = (case first_fresh (cn_last_processed_date c) log (Suc k) of
        None \<Rightarrow> Some (c'\<lparr>cn_next_sequence := int (length log)\<rparr>, None)
      | Some i \<Rightarrow> consumer_take ts (log_event i (log ! i)) 0 (c'\<lparr>cn_next_sequence := int i\<rparr>))"
    using scan_within [OF rep, of c' "Suc k"] k by (simp add: c'_def)
  have ne: "first_fresh lp log (Suc k) = Some i \<Longrightarrow> i \<noteq> k" for lp i
    using first_fresh_Some [of lp log "Suc k" i] by auto
  show ?thesis
    by (rule exI [of _ ov], subst consumer_scan.simps)
      (use rest ne in \<open>auto simp: cursor_overflow_commute n(1) peek i first_fresh_cons [OF k(3)] fresh_def c'_def
        simp del: of_nat_Suc of_nat_diff split: option.splits\<close>)
qed

section \<open>Taking an event\<close>

text \<open>A consumer whose pending fields are consistent.\<close>

definition consumer_ok :: "tick_consumer \<Rightarrow> bool" where
  "consumer_ok c \<longleftrightarrow> (cn_pending_valid c \<noteq> 0 \<longrightarrow>
     fresh (cn_last_processed_date c) (cn_pending_event c)
     \<and> cn_pending_date c = ev_date (cn_pending_event c))"

lemma fresh_valid: "fresh lp e \<Longrightarrow> kbo_yyyymmdd_valid (ev_date e)"
  by (simp add: fresh_def stale_event_def)

lemma fresh_later: "fresh lp e \<Longrightarrow> lp \<noteq> 0 \<Longrightarrow> lp < ev_date e"
  by (auto simp: fresh_def stale_event_def)

lemma fresh_mono: "fresh lp e \<Longrightarrow> kbo_yyyymmdd_valid (ev_date e') \<Longrightarrow> ev_date e \<le> ev_date e' \<Longrightarrow> fresh lp e'"
  by (auto simp: fresh_def stale_event_def)

text \<open>
  The pending event a take leaves behind, with the missed events it reports: the event
  itself, or with coalescing the result of the fold over the rest of the log.
\<close>

definition take_result ::
    "tick_consumer \<Rightarrow> boundary_context list \<Rightarrow> nat \<Rightarrow> u32 \<Rightarrow> tick_event \<times> u32 \<times> int" where
  "take_result c log i missed =
     (if kbo_current_date_tick_consumer_coalesce_enabled c
      then (case foldl (coalesce_step (cn_last_processed_date c)) (log_event i (log ! i), missed, 0)
                   (log_events log (Suc i)) of
              (sel, m, skipped) \<Rightarrow>
                (sel, kbo_current_date_tick_add_missed_events m skipped, int (length log)))
      else (log_event i (log ! i), missed, int i))"

lemma take_result_update [simp]:
  "take_result (c\<lparr>cn_next_sequence := a, cn_overflow_log_count := b\<rparr>) log i missed = take_result c log i missed"
  by (simp add: take_result_def kbo_current_date_tick_consumer_coalesce_enabled_def)

lemma take_log:
  assumes rep: "tick_rep ts log" and i: "i < length log" "length log \<le> i + 256"
    and c: "cn_next_sequence c = int i"
    and r: "take_result c log i missed = (e, m, next')"
  shows "\<exists>c'. consumer_take ts (log_event i (log ! i)) missed c
       = Some (c', kbo_current_date_tick_consumer_pending_work c')
     \<and> cn_pending_event c' = e \<and> cn_pending_date c' = ev_date e
     \<and> cn_pending_valid c' = kbo_current_date_tick_consumer_pending_valid_value m
     \<and> cn_next_sequence c' = next' \<and> cn_last_processed_date c' = cn_last_processed_date c
     \<and> cn_save_path c' = cn_save_path c \<and> cn_flags c' = cn_flags c"
proof (cases "kbo_current_date_tick_consumer_coalesce_enabled c")
  case False
  then show ?thesis
    using r c by (simp add: consumer_take_def take_result_def Let_def
        kbo_current_date_tick_consumer_set_pending_def)
next
  case True
  have s: "sint (ev_sequence (log_event i (log ! i))) = int (Suc i)"
    using i tick_rep_small [OF rep] by (intro log_event_sequence) linarith
  obtain sel sm sk where f: "foldl (coalesce_step (cn_last_processed_date c))
      (log_event i (log ! i), missed, 0) (log_events log (Suc i)) = (sel, sm, sk)"
    by (cases "foldl (coalesce_step (cn_last_processed_date c))
      (log_event i (log ! i), missed, 0) (log_events log (Suc i))") auto
  have l: "coalesce_loop ts (cn_last_processed_date c) (int (Suc i)) (cn_overflow_log_count c)
      (log_event i (log ! i)) missed 0 = Some (int (length log), cn_overflow_log_count c, sel, sm, sk)"
    using coalesce_loop_log [OF rep, of "Suc i"] i f by simp
  show ?thesis
    using r True c s l f
    by (simp add: consumer_take_def take_result_def Let_def kbo_current_date_tick_consumer_coalesce_event_def
        kbo_current_date_tick_consumer_set_pending_def del: of_nat_Suc)
qed

lemma take_result_fresh:
  assumes "take_result c log i missed = (e, m, next')" and "i < length log" and "length log < 2 ^ 31"
    and "fresh (cn_last_processed_date c) (log_event i (log ! i))"
  shows "fresh (cn_last_processed_date c) e"
proof (cases "kbo_current_date_tick_consumer_coalesce_enabled c")
  case True
  then obtain sm sk where f: "foldl (coalesce_step (cn_last_processed_date c))
      (log_event i (log ! i), missed, 0) (log_events log (Suc i)) = (e, sm, sk)"
    using assms(1) by (auto simp: take_result_def split: prod.splits)
  have "unat (0 :: u32) + length (log_events log (Suc i)) < 2 ^ 31"
    using assms(3) by (simp add: log_events_def less_imp_diff_less)
  then show ?thesis using coalesce_fold [OF f] assms(4) by auto
qed (use assms in \<open>simp add: take_result_def\<close>)

section \<open>The entry points\<close>

lemma pending_work_None [simp]: "cn_pending_valid c = 0 \<Longrightarrow> kbo_current_date_tick_consumer_pending_work c = None"
  by (simp add: kbo_current_date_tick_consumer_pending_work_def)

lemma pending_work_date:
  "kbo_current_date_tick_consumer_pending_work c = Some work \<Longrightarrow>
     cn_pending_valid c \<noteq> 0 \<and> wk_date work = cn_pending_date c
     \<and> wk_event_date work = ev_date (cn_pending_event c)
     \<and> wk_missed_events work = kbo_current_date_tick_consumer_pending_missed_events c"
  by (auto simp: kbo_current_date_tick_consumer_pending_work_def split: if_splits)

text \<open>A scan from any cursor returns, and leaves a consistent consumer.\<close>

lemma scan_facts:
  assumes rep: "tick_rep ts log" and p: "cn_pending_valid c = 0"
  shows "\<exists>c'. consumer_scan ts c = Some (c', kbo_current_date_tick_consumer_pending_work c')
     \<and> consumer_ok c' \<and> cn_last_processed_date c' = cn_last_processed_date c
     \<and> cn_save_path c' = cn_save_path c \<and> cn_flags c' = cn_flags c"
proof (cases "0 \<le> cn_next_sequence c \<and> cn_next_sequence c \<le> int (length log)")
  case False
  then have "kbo_current_date_tick_peek_ex ts (cn_next_sequence c) (Some (cn_overflow_log_count c))
      = (int (length log), Some (cn_overflow_log_count c), None)"
    using tick_rep_published [OF rep]
    by (auto simp: kbo_current_date_tick_peek_ex_def kbo_current_date_tick_latest_sequence_def Let_def)
  then show ?thesis using p by (subst consumer_scan.simps) (simp add: consumer_ok_def)
next
  case True
  then obtain n where n: "cn_next_sequence c = int n" "n \<le> length log"
    by (metis nonneg_int_cases of_nat_le_iff)
  let ?k = "max n (length log - 256)"
  obtain ov where ov: "consumer_scan ts c =
     (case first_fresh (cn_last_processed_date c) log ?k of
        None \<Rightarrow> Some (c\<lparr>cn_next_sequence := int (length log), cn_overflow_log_count := ov\<rparr>, None)
      | Some i \<Rightarrow> consumer_take ts (log_event i (log ! i)) (if i = ?k then of_nat (?k - n) else 0)
                   (c\<lparr>cn_next_sequence := int i, cn_overflow_log_count := ov\<rparr>))"
    using scan_log [OF rep n] by blast
  show ?thesis
  proof (cases "first_fresh (cn_last_processed_date c) log ?k")
    case None
    then show ?thesis using ov p by (simp add: consumer_ok_def)
  next
    case (Some i)
    note i = first_fresh_Some [OF Some]
    define c1 where "c1 = c\<lparr>cn_next_sequence := int i, cn_overflow_log_count := ov\<rparr>"
    define missed :: u32 where "missed = (if i = ?k then of_nat (?k - n) else 0)"
    obtain e m next' where r: "take_result c1 log i missed = (e, m, next')"
      by (cases "take_result c1 log i missed")
    have lo: "length log \<le> i + 256" using i by linarith
    have "fresh (cn_last_processed_date c1) e"
      using take_result_fresh [OF r] i tick_rep_small [OF rep] by (simp add: c1_def)
    then show ?thesis
      using take_log [OF rep _ lo _ r] i ov Some
      by (fastforce simp: c1_def missed_def consumer_ok_def)
  qed
qed

lemma refresh_same_save:
  "env_save_path env = Some p \<Longrightarrow> p \<noteq> [] \<Longrightarrow> cn_save_path c = p \<Longrightarrow>
     kbo_current_date_tick_consumer_refresh_save_path env ts c = Some (c, False, False)"
  by (simp add: kbo_current_date_tick_consumer_refresh_save_path_def)

lemma next_pending:
  assumes "env_save_path env = Some p" and "p \<noteq> []" and "cn_save_path c = p" and "cn_pending_valid c \<noteq> 0"
  shows "kbo_current_date_tick_consumer_next env invoke c ts w
     = Some (c, ts, w, kbo_current_date_tick_consumer_pending_work c)"
  using assms
  by (simp add: kbo_current_date_tick_consumer_next_def refresh_same_save
      kbo_current_date_tick_consumer_needs_save_enter_current_def)

lemma reset_save_facts:
  "cn_pending_valid (kbo_current_date_tick_consumer_reset_save ts p b c) = 0
   \<and> cn_last_processed_date (kbo_current_date_tick_consumer_reset_save ts p b c) = 0
   \<and> cn_save_path (kbo_current_date_tick_consumer_reset_save ts p b c) = strbuf MAX_PATH p
   \<and> cn_flags (kbo_current_date_tick_consumer_reset_save ts p b c) = cn_flags c"
  by (simp add: kbo_current_date_tick_consumer_reset_save_def Let_def
      kbo_current_date_tick_consumer_clear_pending_def)

lemma publish_save_enter_rep:
  assumes "tick_rep ts log" and "Suc (length log) < 2 ^ 31"
  shows "\<exists>log'. tick_rep (fst (kbo_current_date_tick_consumer_publish_save_enter_current env invoke c ts w)) log'"
  using assms(1) save_enter_rep [OF assms, of env invoke "Some (cn_save_path c)" w]
  by (auto simp: kbo_current_date_tick_consumer_publish_save_enter_current_def)

text \<open>What every call of \<open>next\<close> keeps.\<close>

lemma next_facts:
  assumes rep: "tick_rep ts log" "Suc (length log) < 2 ^ 31" and ok: "consumer_ok c"
  shows "\<exists>c' ts' w' r. kbo_current_date_tick_consumer_next env invoke c ts w = Some (c', ts', w', r)
     \<and> consumer_ok c'
     \<and> (env_save_path env \<noteq> None \<longrightarrow> r = kbo_current_date_tick_consumer_pending_work c')
     \<and> (env_save_path env = Some (cn_save_path c) \<and> cn_save_path c \<noteq> [] \<longrightarrow>
          cn_last_processed_date c' = cn_last_processed_date c \<and> cn_save_path c' = cn_save_path c)"
proof (cases "kbo_current_date_tick_consumer_refresh_save_path env ts c")
  case None
  then have "env_save_path env = None"
    by (auto simp: kbo_current_date_tick_consumer_refresh_save_path_def Let_def split: option.splits if_splits)
  then show ?thesis using None ok by (simp add: kbo_current_date_tick_consumer_next_def)
next
  case (Some x)
  then obtain c1 changed fk where x: "kbo_current_date_tick_consumer_refresh_save_path env ts c = Some (c1, changed, fk)"
    by (cases x) auto
  have path: "env_save_path env \<noteq> None"
    using x by (auto simp: kbo_current_date_tick_consumer_refresh_save_path_def split: option.splits)
  have c1: "consumer_ok c1"
    "env_save_path env = Some (cn_save_path c) \<Longrightarrow> cn_save_path c \<noteq> [] \<Longrightarrow> c1 = c"
    using x ok reset_save_facts [of ts _ _ c]
    by (auto simp: kbo_current_date_tick_consumer_refresh_save_path_def consumer_ok_def Let_def
        split: option.splits if_splits)
  define q where "q = (if changed \<or> kbo_current_date_tick_consumer_needs_save_enter_current c1
      then kbo_current_date_tick_consumer_publish_save_enter_current env invoke c1 ts w
      else (ts, w, False))"
  obtain log1 where log1: "tick_rep (fst q) log1"
    using publish_save_enter_rep [OF rep, of env invoke c1 w] rep(1) unfolding q_def by (cases "changed \<or>
      kbo_current_date_tick_consumer_needs_save_enter_current c1") auto
  have n: "kbo_current_date_tick_consumer_next env invoke c ts w =
     (if cn_pending_valid c1 \<noteq> 0
      then Some (c1, fst q, fst (snd q), kbo_current_date_tick_consumer_pending_work c1)
      else map_option (\<lambda>(c2, work). (c2, fst q, fst (snd q), work)) (consumer_scan (fst q) c1))"
    by (simp add: kbo_current_date_tick_consumer_next_def x q_def split_beta Let_def)
  show ?thesis
  proof (cases "cn_pending_valid c1 = 0")
    case True
    then show ?thesis using scan_facts [OF log1 True] n path c1(2) by auto
  next
    case False
    then show ?thesis using n c1 path by auto
  qed
qed

section \<open>What a poll delivers\<close>

text \<open>A consumer inside its save with nothing pending and no date to publish first.\<close>

definition polls_ring :: "game_env \<Rightarrow> tick_consumer \<Rightarrow> bool" where
  "polls_ring env c \<longleftrightarrow> env_save_path env = Some (cn_save_path c) \<and> cn_save_path c \<noteq> []
     \<and> cn_pending_valid c = 0 \<and> \<not> kbo_current_date_tick_consumer_needs_save_enter_current c"

lemma next_scans:
  "polls_ring env c \<Longrightarrow> kbo_current_date_tick_consumer_next env invoke c ts w
     = map_option (\<lambda>(c2, work). (c2, ts, w, work)) (consumer_scan ts c)"
  by (simp add: polls_ring_def kbo_current_date_tick_consumer_next_def refresh_same_save)

text \<open>The poll in terms of the log: the result of the take at the first fresh entry.\<close>

lemma next_log:
  assumes rep: "tick_rep ts log" and n: "cn_next_sequence c = int n" "n \<le> length log"
    and env: "polls_ring env c"
  defines "k \<equiv> max n (length log - 256)"
  shows "case first_fresh (cn_last_processed_date c) log k of
       None \<Rightarrow> \<exists>c'. kbo_current_date_tick_consumer_next env invoke c ts w = Some (c', ts, w, None)
                  \<and> cn_next_sequence c' = int (length log)
     | Some i \<Rightarrow> \<forall>e m next'. take_result c log i (if i = k then of_nat (k - n) else 0) = (e, m, next') \<longrightarrow>
          (\<exists>c' work. kbo_current_date_tick_consumer_next env invoke c ts w = Some (c', ts, w, Some work)
             \<and> cn_next_sequence c' = next' \<and> wk_date work = ev_date e \<and> wk_sequence work = ev_sequence e
             \<and> (unat m < 2 ^ 31 - 1 \<longrightarrow> wk_missed_events work = m))"
proof -
  obtain ov where ov: "consumer_scan ts c =
     (case first_fresh (cn_last_processed_date c) log k of
        None \<Rightarrow> Some (c\<lparr>cn_next_sequence := int (length log), cn_overflow_log_count := ov\<rparr>, None)
      | Some i \<Rightarrow> consumer_take ts (log_event i (log ! i)) (if i = k then of_nat (k - n) else 0)
                   (c\<lparr>cn_next_sequence := int i, cn_overflow_log_count := ov\<rparr>))"
    using scan_log [OF rep n] unfolding k_def by blast
  show ?thesis
  proof (cases "first_fresh (cn_last_processed_date c) log k")
    case None
    then show ?thesis using ov next_scans [OF env, of invoke ts w] by simp
  next
    case (Some i)
    note i = first_fresh_Some [OF Some]
    have lo: "length log \<le> i + 256" using i k_def by linarith
    define c1 where "c1 = c\<lparr>cn_next_sequence := int i, cn_overflow_log_count := ov\<rparr>"
    have "\<exists>c' work. kbo_current_date_tick_consumer_next env invoke c ts w = Some (c', ts, w, Some work)
             \<and> cn_next_sequence c' = next' \<and> wk_date work = ev_date e \<and> wk_sequence work = ev_sequence e
             \<and> (unat m < 2 ^ 31 - 1 \<longrightarrow> wk_missed_events work = m)"
      if r: "take_result c log i (if i = k then of_nat (k - n) else 0) = (e, m, next')" for e m next'
    proof -
      have r1: "take_result c1 log i (if i = k then of_nat (k - n) else 0) = (e, m, next')"
        using r by (simp add: c1_def)
      obtain c' where c': "consumer_take ts (log_event i (log ! i)) (if i = k then of_nat (k - n) else 0) c1
            = Some (c', kbo_current_date_tick_consumer_pending_work c')"
          "cn_pending_event c' = e" "cn_pending_date c' = ev_date e"
          "cn_pending_valid c' = kbo_current_date_tick_consumer_pending_valid_value m"
          "cn_next_sequence c' = next'"
        using take_log [OF rep _ lo _ r1] i by (auto simp: c1_def)
      have "kbo_current_date_tick_consumer_next env invoke c ts w
          = Some (c', ts, w, kbo_current_date_tick_consumer_pending_work c')"
        using ov Some c'(1) next_scans [OF env, of invoke ts w] by (simp add: c1_def)
      moreover have "cn_pending_valid c' \<noteq> 0"
        using c'(4) pending_valid_value_pos [of m] by linarith
      ultimately show ?thesis
        using c' pending_missed_roundtrip [OF c'(4)]
        by (simp add: kbo_current_date_tick_consumer_pending_work_def)
    qed
    then show ?thesis using Some by simp
  qed
qed

section \<open>Properties\<close>

text \<open>
  The life of a consumer inside one save \<open>p\<close>, from the reset that entered it: polls against
  any reachable state of the tick, acknowledgements and skips.  The list collects the dates
  it acknowledged.
\<close>

inductive consumer_run :: "string \<Rightarrow> tick_consumer \<Rightarrow> 'w \<Rightarrow> u32 list \<Rightarrow> bool" where
  enter: "cn_save_path c = p \<Longrightarrow> cn_last_processed_date c = 0 \<Longrightarrow> cn_pending_valid c = 0 \<Longrightarrow>
     consumer_run p c w []"
| poll: "consumer_run p c w ds \<Longrightarrow> tick_reachable n ts w \<Longrightarrow> n + 1 < 2 ^ 31 - 1 \<Longrightarrow>
     env_save_path env = Some p \<Longrightarrow>
     kbo_current_date_tick_consumer_next env invoke c ts w = Some (c', ts', w', r) \<Longrightarrow>
     consumer_run p c' w' ds"
| mark: "consumer_run p c w ds \<Longrightarrow>
     consumer_run p (kbo_current_date_tick_consumer_mark_processed c) w
       (if cn_pending_valid c = 0 then ds else ds @ [cn_pending_date c])"
| skip: "consumer_run p c w ds \<Longrightarrow>
     consumer_run p (kbo_current_date_tick_consumer_skip_to_latest ts c) w ds"
| world: "consumer_run p c w ds \<Longrightarrow> consumer_run p c w' ds"

definition run_ok :: "string \<Rightarrow> tick_consumer \<Rightarrow> u32 list \<Rightarrow> bool" where
  "run_ok p c ds \<longleftrightarrow> consumer_ok c \<and> cn_save_path c = p
     \<and> sorted_wrt (<) ds \<and> (\<forall>d \<in> set ds. kbo_yyyymmdd_valid d)
     \<and> cn_last_processed_date c = (if ds = [] then 0 else last ds)"

lemma mark_facts:
  assumes "consumer_ok c" and "cn_pending_valid c \<noteq> 0"
  shows "cn_last_processed_date (kbo_current_date_tick_consumer_mark_processed c) = cn_pending_date c
     \<and> cn_pending_valid (kbo_current_date_tick_consumer_mark_processed c) = 0
     \<and> cn_save_path (kbo_current_date_tick_consumer_mark_processed c) = cn_save_path c
     \<and> kbo_yyyymmdd_valid (cn_pending_date c)"
  using assms
  by (auto simp: kbo_current_date_tick_consumer_mark_processed_def Let_def consumer_ok_def
      kbo_current_date_tick_consumer_clear_pending_def dest: fresh_valid)

lemma run_ok_mark:
  assumes "run_ok p c ds"
  shows "run_ok p (kbo_current_date_tick_consumer_mark_processed c)
     (if cn_pending_valid c = 0 then ds else ds @ [cn_pending_date c])"
proof (cases "cn_pending_valid c = 0")
  case True
  then show ?thesis using assms by (simp add: kbo_current_date_tick_consumer_mark_processed_def)
next
  case False
  have f: "fresh (cn_last_processed_date c) (cn_pending_event c)"
    "cn_pending_date c = ev_date (cn_pending_event c)"
    using assms False by (auto simp: run_ok_def consumer_ok_def)
  have "d < cn_pending_date c" if "d \<in> set ds" for d
  proof -
    have ne: "ds \<noteq> []" using that by auto
    then have l: "cn_last_processed_date c = last ds" "kbo_yyyymmdd_valid (last ds)"
      using assms by (auto simp: run_ok_def)
    have "d \<le> last ds"
    proof -
      have "ds = butlast ds @ [last ds]" using ne by simp
      then have "d \<in> set (butlast ds) \<or> d = last ds" using that by (metis Un_iff empty_iff insert_iff list.set set_append)
      moreover have "sorted_wrt (<) (butlast ds @ [last ds])" using assms ne by (simp add: run_ok_def)
      ultimately show ?thesis by (auto simp: sorted_wrt_append)
    qed
    also have "last ds < cn_pending_date c"
      using fresh_later [OF f(1)] f(2) l valid_nonzero [OF l(2)] by simp
    finally show ?thesis .
  qed
  then show ?thesis
    using False assms mark_facts [of c] by (auto simp: run_ok_def sorted_wrt_append consumer_ok_def)
qed

lemma run_invariant: "consumer_run p c w ds \<Longrightarrow> p \<noteq> [] \<Longrightarrow> run_ok p c ds"
proof (induction rule: consumer_run.induct)
  case (enter c p w)
  then show ?case by (simp add: run_ok_def consumer_ok_def)
next
  case (poll p c w ds n ts env invoke c' ts' w' r)
  obtain log where l: "tick_rep ts log" "length log \<le> n"
    using tick_reachable_rep [OF poll.hyps(2)] poll.hyps(3) by auto
  have s: "Suc (length log) < 2 ^ 31" using l(2) poll.hyps(3) by simp
  have ok: "run_ok p c ds" using poll.IH poll.prems by simp
  then have "consumer_ok c" by (simp add: run_ok_def)
  from next_facts [OF l(1) s this, of env invoke w]
  show ?case using ok poll.hyps(4,5) poll.prems by (auto simp: run_ok_def)
next
  case (mark p c w ds)
  then show ?case by (intro run_ok_mark) simp
next
  case (skip p c w ds ts)
  then show ?case
    by (simp add: run_ok_def consumer_ok_def kbo_current_date_tick_consumer_skip_to_latest_def
        kbo_current_date_tick_consumer_clear_pending_def)
qed simp

definition demo_consumer :: tick_consumer where
  "demo_consumer = zero_consumer\<lparr>cn_save_path := ''kbo.lg''\<rparr>"

lemma demo_consumer_ok: "consumer_ok demo_consumer"
  by (simp add: demo_consumer_def zero_consumer_def consumer_ok_def)

lemma demo_poll:
  "\<exists>c' work. kbo_current_date_tick_consumer_next demo_env invoke demo_consumer demo_tick ()
       = Some (c', demo_tick, (), Some work)
     \<and> wk_date work = 20240301 \<and> cn_pending_valid c' \<noteq> 0 \<and> cn_pending_date c' = 20240301"
proof -
  have pub: "tk_published_sequence demo_tick = 2" by code_simp
  have date: "ev_date (event_at demo_tick 0) = 20240301" by code_simp
  have valid: "kbo_yyyymmdd_valid 20240301" by code_simp
  have peek: "kbo_current_date_tick_peek_ex demo_tick 0 ov = (0, ov, Some (event_at demo_tick 0, 0))" for ov
    by (simp add: kbo_current_date_tick_peek_ex_def kbo_current_date_tick_latest_sequence_def pub
        Let_def RING_SIZE_def)
  have scan: "consumer_scan demo_tick demo_consumer = consumer_take demo_tick (event_at demo_tick 0) 0 demo_consumer"
    by (subst consumer_scan.simps)
      (simp add: demo_consumer_def zero_consumer_def peek date valid stale_event_def)
  have co: "\<not> kbo_current_date_tick_consumer_coalesce_enabled demo_consumer"
    by (simp add: demo_consumer_def zero_consumer_def kbo_current_date_tick_consumer_coalesce_enabled_def)
  have nx: "kbo_current_date_tick_consumer_next demo_env invoke demo_consumer demo_tick ()
       = map_option (\<lambda>(c2, work). (c2, demo_tick, (), work)) (consumer_scan demo_tick demo_consumer)"
    by (simp add: kbo_current_date_tick_consumer_next_def demo_env_def demo_consumer_def zero_consumer_def
        kbo_current_date_tick_consumer_refresh_save_path_def
        kbo_current_date_tick_consumer_needs_save_enter_current_def)
  show ?thesis
    unfolding nx scan
    by (simp add: consumer_take_def co Let_def kbo_current_date_tick_consumer_set_pending_def date
        kbo_current_date_tick_consumer_pending_work_def kbo_current_date_tick_consumer_pending_valid_value_def)
qed

text \<open>
  C6: a poll returns, whatever the cursor of the consumer holds, against every reachable
  state of the tick; when a save is known its answer is the pending work, with a date that
  is valid and after the last processed one.
\<close>

theorem consumer_next_returns:
  assumes "tick_reachable n ts w" and "n < 2 ^ 31 - 2" and "consumer_ok c"
  shows "case kbo_current_date_tick_consumer_next env invoke c ts w of
       None \<Rightarrow> False
     | Some (c', ts', w', r) \<Rightarrow> consumer_ok c'
         \<and> (env_save_path env \<noteq> None \<longrightarrow> r = kbo_current_date_tick_consumer_pending_work c')
         \<and> (\<forall>work. r = Some work \<and> env_save_path env \<noteq> None \<longrightarrow> kbo_yyyymmdd_valid (wk_date work)
              \<and> (cn_last_processed_date c' \<noteq> 0 \<longrightarrow> cn_last_processed_date c' < wk_date work))"
proof -
  obtain log where l: "tick_rep ts log" "length log \<le> n"
    using tick_reachable_rep [OF assms(1)] assms(2) by auto
  have s: "Suc (length log) < 2 ^ 31" using l(2) assms(2) by simp
  obtain c' ts' w' r where n: "kbo_current_date_tick_consumer_next env invoke c ts w = Some (c', ts', w', r)"
    "consumer_ok c'" "env_save_path env \<noteq> None \<longrightarrow> r = kbo_current_date_tick_consumer_pending_work c'"
    using next_facts [OF l(1) s assms(3), of env invoke w] by auto
  have "kbo_yyyymmdd_valid (wk_date work) \<and> (cn_last_processed_date c' \<noteq> 0 \<longrightarrow>
      cn_last_processed_date c' < wk_date work)"
    if "kbo_current_date_tick_consumer_pending_work c' = Some work" for work
    using pending_work_date [OF that] n(2) fresh_valid fresh_later by (auto simp: consumer_ok_def)
  then show ?thesis using n by auto
qed

theorem consumer_next_returns_witness:
  "kbo_current_date_tick_consumer_next demo_env (\<lambda>_ _ _ _ w. (True, w)) demo_consumer demo_tick () \<noteq> None"
  using consumer_next_returns [OF demo_tick_reachable _ demo_consumer_ok, of demo_env "\<lambda>_ _ _ _ w. (True, w)"]
  by (auto split: option.splits)

text \<open>
  C21: work that was handed out is handed out again, unchanged, by every later poll in the
  same save until it is marked as processed, whatever was published in the meantime; after
  the mark the date counts as processed and nothing is pending.
\<close>

theorem work_is_redelivered_until_marked:
  assumes "kbo_current_date_tick_consumer_next env invoke c ts w = Some (c', ts', w', Some work)"
    and "tick_reachable n ts w" and "n < 2 ^ 31 - 2" and "consumer_ok c"
    and "env_save_path env = Some (cn_save_path c)" and "cn_save_path c \<noteq> []"
    and "env_save_path env2 = env_save_path env"
  shows "kbo_current_date_tick_consumer_next env2 invoke2 c' ts2 w2 = Some (c', ts2, w2, Some work)
     \<and> cn_last_processed_date (kbo_current_date_tick_consumer_mark_processed c') = wk_date work
     \<and> cn_pending_valid (kbo_current_date_tick_consumer_mark_processed c') = 0"
proof -
  obtain log where l: "tick_rep ts log" "length log \<le> n"
    using tick_reachable_rep [OF assms(2)] assms(3) by auto
  have s: "Suc (length log) < 2 ^ 31" using l(2) assms(3) by simp
  have c': "consumer_ok c'" "kbo_current_date_tick_consumer_pending_work c' = Some work"
    "cn_save_path c' = cn_save_path c"
    using next_facts [OF l(1) s assms(4), of env invoke w] assms(1,5,6) by auto
  have p: "cn_pending_valid c' \<noteq> 0" "wk_date work = cn_pending_date c'"
    using pending_work_date [OF c'(2)] by auto
  show ?thesis
    using next_pending [of env2 "cn_save_path c" c' invoke2 ts2 w2] assms(5-7) c' p mark_facts [OF c'(1) p(1)]
    by simp
qed

theorem work_is_redelivered_until_marked_witness:
  "\<exists>c' work. kbo_current_date_tick_consumer_next demo_env (\<lambda>_ _ _ _ w. (True, w)) c' initial_tick ()
      = Some (c', initial_tick, (), Some work) \<and> wk_date work = 20240301"
proof -
  let ?inv = "\<lambda>_ _ _ _ w. (True, w)"
  have p: "env_save_path demo_env = Some (cn_save_path demo_consumer)" "cn_save_path demo_consumer \<noteq> []"
    by (simp_all add: demo_env_def demo_consumer_def)
  obtain c' work where
    n: "kbo_current_date_tick_consumer_next demo_env ?inv demo_consumer demo_tick () = Some (c', demo_tick, (), Some work)"
    and d: "wk_date work = 20240301" using demo_poll by blast
  show ?thesis
    using work_is_redelivered_until_marked [OF n demo_tick_reachable _ demo_consumer_ok p refl, of ?inv initial_tick "()"] d
    by auto
qed

text \<open>
  C7: the dates a consumer acknowledges during one save are valid and strictly increasing,
  so no date is processed twice or out of order.
\<close>

theorem processed_dates_increase:
  assumes "consumer_run p c w ds" and "p \<noteq> []"
  shows "sorted_wrt (<) ds \<and> (\<forall>d \<in> set ds. kbo_yyyymmdd_valid d)
     \<and> (ds \<noteq> [] \<longrightarrow> cn_last_processed_date c = last ds)"
  using run_invariant [OF assms] by (simp add: run_ok_def)

theorem processed_dates_increase_witness:
  "\<exists>c. consumer_run ''kbo.lg'' c () [20240301] \<and> cn_last_processed_date c = 20240301"
proof -
  let ?inv = "\<lambda>_ _ _ _ w. (True, w)"
  have "consumer_run ''kbo.lg'' demo_consumer () []"
    by (rule consumer_run.enter) (simp_all add: demo_consumer_def zero_consumer_def)
  note poll = consumer_run.poll [OF this demo_tick_reachable, of demo_env]
  obtain c' work where
    n: "kbo_current_date_tick_consumer_next demo_env ?inv demo_consumer demo_tick () = Some (c', demo_tick, (), Some work)"
    and c': "cn_pending_valid c' \<noteq> 0" "cn_pending_date c' = 20240301" using demo_poll by blast
  have "env_save_path demo_env = Some ''kbo.lg''" by (simp add: demo_env_def)
  then have "consumer_run ''kbo.lg'' c' () []" using poll n by simp
  from consumer_run.mark [OF this]
  have run: "consumer_run ''kbo.lg'' (kbo_current_date_tick_consumer_mark_processed c') () [20240301]"
    using c' by simp
  show ?thesis using run processed_dates_increase [OF run] by auto
qed


text \<open>
  Without coalescing, a poll of a consumer that has nothing pending hands out the
  first event at or after its cursor that is valid and later than the last processed date,
  with its own sequence number, and leaves the cursor on it; the events it passes over are
  all of no use.  If there is none it answers nothing and the cursor is at the end.  Events
  that fell out of the ring are reported as missed when the oldest one left is taken.
\<close>

theorem plain_poll_takes_first_fresh:
  assumes "tick_reachable n ts w" and "n < 2 ^ 31 - 1"
    and "0 \<le> cn_next_sequence c" and "cn_next_sequence c \<le> tk_published_sequence ts"
    and "polls_ring env c" and "\<not> kbo_current_date_tick_consumer_coalesce_enabled c"
  defines "oldest \<equiv> max (cn_next_sequence c) (tk_published_sequence ts - 256)"
  shows "\<exists>c' r. kbo_current_date_tick_consumer_next env invoke c ts w = Some (c', ts, w, r)
     \<and> (case r of
         None \<Rightarrow> cn_next_sequence c' = tk_published_sequence ts
           \<and> (\<forall>j \<in> {oldest..<tk_published_sequence ts}. \<not> fresh (cn_last_processed_date c) (event_at ts j))
       | Some work \<Rightarrow> cn_next_sequence c' \<in> {oldest..<tk_published_sequence ts}
           \<and> fresh (cn_last_processed_date c) (event_at ts (cn_next_sequence c'))
           \<and> (\<forall>j \<in> {oldest..<cn_next_sequence c'}. \<not> fresh (cn_last_processed_date c) (event_at ts j))
           \<and> wk_date work = ev_date (event_at ts (cn_next_sequence c'))
           \<and> wk_sequence work = ev_sequence (event_at ts (cn_next_sequence c'))
           \<and> uint (wk_missed_events work)
               = (if cn_next_sequence c' = oldest then oldest - cn_next_sequence c else 0))"
proof -
  obtain log where l: "tick_rep ts log" using tick_reachable_rep [OF assms(1,2)] by blast
  note pub = tick_rep_published [OF l]
  obtain m where m: "cn_next_sequence c = int m" "m \<le> length log"
    using assms(3,4) pub by (metis nonneg_int_cases of_nat_le_iff)
  define k where "k = max m (length log - 256)"
  have old: "oldest = int k" using m by (simp add: oldest_def pub k_def max_def) linarith
  have ev: "event_at ts j = log_event (nat j) (log ! nat j)" if "oldest \<le> j" "j < int (length log)" for j
    using event_at_log [OF l, of "nat j"] that old by (simp add: k_def)
  note nx = next_log [OF l m assms(5), of invoke w, folded k_def]
  show ?thesis
  proof (cases "first_fresh (cn_last_processed_date c) log k")
    case None
    then obtain c' where "kbo_current_date_tick_consumer_next env invoke c ts w = Some (c', ts, w, None)"
      "cn_next_sequence c' = int (length log)" using nx by auto
    moreover have "\<not> fresh (cn_last_processed_date c) (event_at ts j)"
      if "j \<in> {oldest..<int (length log)}" for j
    proof -
      have "k \<le> nat j" "nat j < length log" using that old by auto
      then show ?thesis using first_fresh_None [OF None, of "nat j"] that ev [of j] by simp
    qed
    ultimately show ?thesis by (simp add: pub)
  next
    case (Some i)
    note i = first_fresh_Some [OF Some]
    obtain c' work where c': "kbo_current_date_tick_consumer_next env invoke c ts w = Some (c', ts, w, Some work)"
      "cn_next_sequence c' = int i" "wk_date work = ev_date (log_event i (log ! i))"
      "wk_sequence work = ev_sequence (log_event i (log ! i))"
      "unat (if i = k then of_nat (k - m) else 0 :: u32) < 2 ^ 31 - 1 \<longrightarrow>
         wk_missed_events work = (if i = k then of_nat (k - m) else 0)"
      using nx Some assms(6) by (auto simp: take_result_def)
    have "k < 2 ^ 31 - 1" using i tick_rep_small [OF l] by auto
    then have lt: "k - m < 2 ^ 31 - 1" by (rule less_imp_diff_less)
    have u: "unat (of_nat (k - m) :: u32) = k - m"
      by (rule of_nat_small_u32) (use lt in simp)
    have "unat (wk_missed_events work) = (if i = k then k - m else 0)"
      using c'(5) u lt by (cases "i = k") simp_all
    from uint_from_unat [OF this]
    have "uint (wk_missed_events work) = (if i = k then int (k - m) else 0)"
      by (cases "i = k") simp_all
    moreover have "\<not> fresh (cn_last_processed_date c) (event_at ts j)" if "j \<in> {oldest..<int i}" for j
      using that i ev [of j] old by auto
    ultimately show ?thesis
      using c' i ev [of "int i"] old m k_def by (auto simp: pub)
  qed
qed

theorem plain_poll_takes_first_fresh_witness:
  "\<exists>c' r. kbo_current_date_tick_consumer_next demo_env (\<lambda>_ _ _ _ w. (True, w)) demo_consumer demo_tick ()
     = Some (c', demo_tick, (), r)"
proof -
  have p: "polls_ring demo_env demo_consumer"
    by (simp add: polls_ring_def demo_env_def demo_consumer_def zero_consumer_def
        kbo_current_date_tick_consumer_needs_save_enter_current_def)
  have pub: "tk_published_sequence demo_tick = 2" by code_simp
  have c: "cn_next_sequence demo_consumer = 0" "\<not> kbo_current_date_tick_consumer_coalesce_enabled demo_consumer"
    by (simp_all add: demo_consumer_def zero_consumer_def kbo_current_date_tick_consumer_coalesce_enabled_def)
  show ?thesis
    using plain_poll_takes_first_fresh [OF demo_tick_reachable _ _ _ p c(2), of "\<lambda>_ _ _ _ w. (True, w)"] c(1) pub
    by auto
qed


text \<open>
  With coalescing, a poll reads everything up to the last published event and hands
  out the date that is the latest among all fresh events in reach; the others are counted
  as missed.  The number of events that had already fallen out of the ring is added only if
  the date taken is that of the oldest event: when a later one is selected it is lost.
\<close>

theorem coalescing_poll_takes_latest:
  assumes "tick_reachable n ts w" and "n < 2 ^ 31 - 1"
    and "0 \<le> cn_next_sequence c" and "cn_next_sequence c \<le> tk_published_sequence ts"
    and "polls_ring env c" and "kbo_current_date_tick_consumer_coalesce_enabled c"
  defines "oldest \<equiv> max (cn_next_sequence c) (tk_published_sequence ts - 256)"
  defines "date \<equiv> \<lambda>j. ev_date (event_at ts j)"
  defines "F \<equiv> filter (\<lambda>j. fresh (cn_last_processed_date c) (event_at ts j))
                 [oldest..tk_published_sequence ts - 1]"
  shows "\<exists>c' r. kbo_current_date_tick_consumer_next env invoke c ts w = Some (c', ts, w, r)
     \<and> cn_next_sequence c' = tk_published_sequence ts
     \<and> (case r of
         None \<Rightarrow> F = []
       | Some work \<Rightarrow> F \<noteq> [] \<and> wk_date work \<in> date ` set F \<and> (\<forall>j \<in> set F. date j \<le> wk_date work)
           \<and> uint (wk_missed_events work) = int (length F) - 1
               + (if wk_date work = date (hd F) \<and> hd F = oldest then oldest - cn_next_sequence c else 0))"
proof -
  obtain log where l: "tick_rep ts log" using tick_reachable_rep [OF assms(1,2)] by blast
  note pub = tick_rep_published [OF l] and small = tick_rep_small [OF l]
  obtain m where m: "cn_next_sequence c = int m" "m \<le> length log"
    using assms(3,4) pub by (metis nonneg_int_cases of_nat_le_iff)
  define k where "k = max m (length log - 256)"
  have old: "oldest = int k" using m by (simp add: oldest_def pub k_def max_def) linarith
  have k: "k \<le> length log" "m \<le> k" using m by (auto simp: k_def)
  define lp where "lp = cn_last_processed_date c"
  define P where "P = (\<lambda>j. fresh lp (log_event j (log ! j)))"
  have ev: "event_at ts (int j) = log_event j (log ! j)" if "k \<le> j" "j < length log" for j
  proof -
    have "length log - 256 \<le> j" using that by (simp add: k_def)
    then have "length log \<le> j + 256" by linarith
    then show ?thesis using event_at_log [OF l that(2)] by simp
  qed
  have upto: "[oldest..tk_published_sequence ts - 1] = map int [k..<length log]"
    unfolding old pub using k(1) by (intro nth_equalityI) auto
  have F: "F = map int (filter P [k..<length log])"
    unfolding F_def upto filter_map by (intro arg_cong [where f = "map int"] filter_cong refl)
      (simp add: ev P_def lp_def)
  note nx = next_log [OF l m assms(5), of invoke w, folded k_def]
  note ff = first_fresh_filter [of lp log k, folded P_def]
  show ?thesis
  proof (cases "first_fresh lp log k")
    case None
    then show ?thesis using nx ff F by (auto simp: lp_def pub)
  next
    case (Some i)
    note i = first_fresh_Some [OF Some]
    define missed :: u32 where "missed = (if i = k then of_nat (k - m) else 0)"
    obtain e sm sk where f: "foldl (coalesce_step lp) (log_event i (log ! i), missed, 0)
        (log_events log (Suc i)) = (e, sm, sk)"
      by (cases "foldl (coalesce_step lp) (log_event i (log ! i), missed, 0) (log_events log (Suc i))") auto
    have b: "unat (0 :: u32) + length (log_events log (Suc i)) < 2 ^ 31"
      using small by (simp add: log_events_def less_imp_diff_less)
    note fold = coalesce_fold [OF f b]
    have Fi: "F = int i # map int (filter P [Suc i..<length log])" using F ff Some by simp
    have len: "length (filter (fresh lp) (log_events log (Suc i))) = length (filter P [Suc i..<length log])"
      by (simp add: log_events_def filter_map P_def o_def)
    have le: "length (filter P [Suc i..<length log]) \<le> length log - Suc i"
      using length_filter_le [of P "[Suc i..<length log]"] by simp
    have um: "unat missed = (if i = k then k - m else 0)"
    proof -
      have "k < 2 ^ 31" using i small by auto
      then have "k - m < 2 ^ 31" by (rule less_imp_diff_less)
      from of_nat_small_u32 [OF this] show ?thesis by (simp add: missed_def del: of_nat_diff)
    qed
    have usm: "unat sm = (if ev_date e = bc_date (log ! i) then unat missed else 0)" using fold by simp
    define m' where "m' = kbo_current_date_tick_add_missed_events sm sk"
    have um': "unat m' = unat sm + length (filter P [Suc i..<length log])"
      using fold len le usm um i small k by (auto simp: m'_def add_missed_unat split: if_splits)
    have bound: "unat m' < 2 ^ 31 - 1"
      using um' le usm um i small k by (auto split: if_splits)
    have r: "take_result c log i missed = (e, m', int (length log))"
      using f assms(6) by (simp add: take_result_def m'_def lp_def)
    obtain c' work where c': "kbo_current_date_tick_consumer_next env invoke c ts w = Some (c', ts, w, Some work)"
      "cn_next_sequence c' = int (length log)" "wk_date work = ev_date e" "wk_missed_events work = m'"
      using nx Some r bound by (auto simp: lp_def missed_def)
    have dates: "date ` set F = insert (bc_date (log ! i)) (ev_date ` {x \<in> set (log_events log (Suc i)). fresh lp x})"
    proof -
      have "{x \<in> set (log_events log (Suc i)). fresh lp x}
          = (\<lambda>j. log_event j (log ! j)) ` {j \<in> {Suc i..<length log}. P j}"
        by (auto simp: log_events_def P_def)
      moreover have "date ` int ` {j \<in> {Suc i..<length log}. P j}
          = (\<lambda>j. bc_date (log ! j)) ` {j \<in> {Suc i..<length log}. P j}"
        unfolding image_image using i by (intro image_cong refl) (simp add: date_def ev)
      moreover have "set F = insert (int i) (int ` {j \<in> {Suc i..<length log}. P j})"
        unfolding Fi by auto
      ultimately show ?thesis using i by (simp add: image_image date_def ev)
    qed
    have "ev_date e \<in> date ` set F" "\<forall>d \<in> date ` set F. d \<le> ev_date e"
      unfolding dates using fold by auto
    moreover have "uint m' = int (length F) - 1
        + (if ev_date e = date (hd F) \<and> hd F = oldest then oldest - cn_next_sequence c else 0)"
    proof -
      have d: "date (int i) = bc_date (log ! i)" using i by (simp add: date_def ev)
      show ?thesis
        unfolding uint_from_unat [OF um'] Fi using usm um k(2) by (simp add: d old m(1) of_nat_diff)
    qed
    ultimately show ?thesis using c' by (simp add: pub Fi)
  qed
qed

theorem coalescing_poll_takes_latest_witness:
  "\<exists>c' r. kbo_current_date_tick_consumer_next demo_env (\<lambda>_ _ _ _ w. (True, w))
       (demo_consumer\<lparr>cn_flags := 2\<rparr>) demo_tick () = Some (c', demo_tick, (), r)
     \<and> cn_next_sequence c' = 2"
proof -
  let ?c = "demo_consumer\<lparr>cn_flags := 2\<rparr>"
  have p: "polls_ring demo_env ?c"
    by (simp add: polls_ring_def demo_env_def demo_consumer_def zero_consumer_def
        kbo_current_date_tick_consumer_needs_save_enter_current_def EMIT_CURRENT_ON_SAVE_ENTER_def)
  have pub: "tk_published_sequence demo_tick = 2" by code_simp
  have c: "cn_next_sequence ?c = 0" "kbo_current_date_tick_consumer_coalesce_enabled ?c"
    by (simp_all add: demo_consumer_def zero_consumer_def COALESCE_TO_LATEST_def
        kbo_current_date_tick_consumer_coalesce_enabled_def)
  show ?thesis
    using coalescing_poll_takes_latest [OF demo_tick_reachable _ _ _ p c(2), of "\<lambda>_ _ _ _ w. (True, w)"] c(1) pub
    by auto
qed

end
