(* ===== verification/GameMemory.thy ===== *)
theory GameMemory
  imports DateTick
begin

text \<open>
  Reading the game's objects: the offsets of \<open>native/src/bootstrap/abi/ootp_offsets.h\<close>,
  the year limits of \<open>core/dates/constants/kbo_date_constants.h\<close> and the check that a
  pointer is the league object with a given id, \<open>core/core_league_context_parts/candidates/
  league_candidate.c\<close>.

  The memory of the game is a parameter: \<open>game_memory\<close> answers which ranges are readable
  and what they hold.  The code never reads outside a range it has checked.
\<close>

record game_memory =
  gm_readable :: "u64 \<Rightarrow> u64 \<Rightarrow> bool"
  gm_u8 :: "u64 \<Rightarrow> u8"
  gm_u32 :: "u64 \<Rightarrow> u32"

definition LEAGUE_ID_OFFSET :: u64 where "LEAGUE_ID_OFFSET = 0x4cc0"
definition LEAGUE_YEAR_OFFSET :: u64 where "LEAGUE_YEAR_OFFSET = 0x44ec"
definition LEAGUE_PHASE_OFFSET :: u64 where "LEAGUE_PHASE_OFFSET = 0x44f0"
definition LEAGUE_PHASE_YEAR_OFFSET :: u64 where "LEAGUE_PHASE_YEAR_OFFSET = 0x44f4"

definition SEASON_YEAR_MIN :: u32 where "SEASON_YEAR_MIN = 1982"
definition SIM_YEAR_MAX :: u32 where "SIM_YEAR_MAX = 2200"

definition kbo_season_phase_year_plausible :: "u32 \<Rightarrow> bool" where
  "kbo_season_phase_year_plausible year \<longleftrightarrow> year \<ge> SEASON_YEAR_MIN \<and> year \<le> SIM_YEAR_MAX"

text \<open>A year next to a reference year that is itself plausible.\<close>

definition year_far_from :: "u32 \<Rightarrow> u32 \<Rightarrow> bool" where
  "year_far_from league_year current_year \<longleftrightarrow> kbo_season_phase_year_plausible current_year
     \<and> (league_year + 1 < current_year \<or> league_year > current_year + 1)"

definition kbo_find_current_kbo_league_year :: "tick_state \<Rightarrow> u32" where
  "kbo_find_current_kbo_league_year ts =
     (case kbo_current_date_tick_latest_published_date ts of
        Some today \<Rightarrow> today div 10000 | None \<Rightarrow> 0)"

definition kbo_league_candidate_matches_id :: "game_memory \<Rightarrow> u32 \<Rightarrow> u64 \<Rightarrow> u32 \<Rightarrow> u64 \<Rightarrow> bool" where
  "kbo_league_candidate_matches_id gm current_year candidate league_id id_offset =
     (if candidate = 0 \<or> league_id = 0
          \<or> \<not> gm_readable gm candidate (LEAGUE_ID_OFFSET + 16)
          \<or> \<not> gm_readable gm (candidate + LEAGUE_PHASE_YEAR_OFFSET) 4 then False
      else if gm_u32 gm (candidate + id_offset) \<noteq> league_id then False
      else
        let league_year = gm_u32 gm (candidate + LEAGUE_YEAR_OFFSET);
            phase = gm_u8 gm (candidate + LEAGUE_PHASE_OFFSET);
            phase_year = gm_u32 gm (candidate + LEAGUE_PHASE_YEAR_OFFSET)
        in if \<not> kbo_season_phase_year_plausible league_year then False
           else if year_far_from league_year current_year then False
           else if phase > 4 then False
           else \<not> (phase_year \<noteq> 0 \<and> \<not> kbo_season_phase_year_plausible phase_year))"

end
