(* ===== verification/SeasonPhase.thy ===== *)
theory SeasonPhase
  imports GameMemory
begin

text \<open>
  The season phase of the league: the rules in
  \<open>native/src/core/season/phase/season_phase_rules.c\<close>, the ring of phase writes caught by
  the hooks in \<open>capture/season_phase_capture.c\<close> and the resolution of the current phase in
  \<open>season_phase.c\<close>.

  \<open>capture_state\<close> holds the module's globals: the 64-slot ring the hook stubs write, the
  consumed sequence and the latest accepted capture.  The game memory is a parameter, and
  so are three lookups of other modules: the league pointer of an id, the opening day of a
  season, and whether a code address is that of a known hook site in this build.
\<close>

section \<open>Rules\<close>

definition PHASE_OFFSEASON_RESET :: u8 where "PHASE_OFFSEASON_RESET = 0"
definition PHASE_OFFSEASON_STARTED :: u8 where "PHASE_OFFSEASON_STARTED = 1"
definition PHASE_PRESEASON :: u8 where "PHASE_PRESEASON = 2"
definition PHASE_REGULAR_SEASON :: u8 where "PHASE_REGULAR_SEASON = 3"
definition PHASE_POSTSEASON :: u8 where "PHASE_POSTSEASON = 4"
definition PHASE_UNKNOWN :: u8 where "PHASE_UNKNOWN = 0xff"

lemmas phase_defs = PHASE_OFFSEASON_RESET_def PHASE_OFFSEASON_STARTED_def PHASE_PRESEASON_def
  PHASE_REGULAR_SEASON_def PHASE_POSTSEASON_def PHASE_UNKNOWN_def

definition kbo_season_phase_date_valid :: "u32 \<Rightarrow> bool" where
  "kbo_season_phase_date_valid yyyymmdd \<longleftrightarrow> serial_of yyyymmdd \<noteq> 0"

definition kbo_season_phase_known :: "u8 \<Rightarrow> bool" where
  "kbo_season_phase_known phase \<longleftrightarrow> phase \<le> PHASE_POSTSEASON"

definition kbo_season_phase_date_on_or_after :: "u32 \<Rightarrow> u32 \<Rightarrow> bool" where
  "kbo_season_phase_date_on_or_after date anchor \<longleftrightarrow>
     serial_of date \<noteq> 0 \<and> serial_of anchor \<noteq> 0 \<and> serial_of date \<ge> serial_of anchor"

definition kbo_season_phase_label :: "u8 \<Rightarrow> string" where
  "kbo_season_phase_label phase =
     (if phase = PHASE_OFFSEASON_RESET then ''offseason_or_reset''
      else if phase = PHASE_OFFSEASON_STARTED then ''offseason_started''
      else if phase = PHASE_PRESEASON then ''preseason_or_spring''
      else if phase = PHASE_REGULAR_SEASON then ''regular_season''
      else if phase = PHASE_POSTSEASON then ''postseason_or_transition''
      else ''unknown'')"

definition kbo_season_phase_is_offseason :: "u8 \<Rightarrow> bool" where
  "kbo_season_phase_is_offseason phase \<longleftrightarrow>
     phase = PHASE_OFFSEASON_RESET \<or> phase = PHASE_OFFSEASON_STARTED"

definition kbo_season_phase_can_enter_offseason :: "u8 \<Rightarrow> bool" where
  "kbo_season_phase_can_enter_offseason phase \<longleftrightarrow>
     phase = PHASE_REGULAR_SEASON \<or> phase = PHASE_POSTSEASON"

definition kbo_season_phase_is_preseason_or_regular :: "u8 \<Rightarrow> bool" where
  "kbo_season_phase_is_preseason_or_regular phase \<longleftrightarrow>
     phase = PHASE_PRESEASON \<or> phase = PHASE_REGULAR_SEASON"

definition SEASON_PHASE_WRITE_1_RVA :: u32 where "SEASON_PHASE_WRITE_1_RVA = 0x00B6BF71"
definition SEASON_PHASE_WRITE_0_RVA :: u32 where "SEASON_PHASE_WRITE_0_RVA = 0x00B6C797"

definition kbo_season_phase_site_is_offseason_transition :: "(u32 \<Rightarrow> u32 \<Rightarrow> bool) \<Rightarrow> u32 \<Rightarrow> bool" where
  "kbo_season_phase_site_is_offseason_transition rva_matches site_rva \<longleftrightarrow>
     rva_matches site_rva SEASON_PHASE_WRITE_1_RVA \<or> rva_matches site_rva SEASON_PHASE_WRITE_0_RVA"

text \<open>
  The effective phase and the \<open>out_corrected\<close> flag: today, the league year, the raw phase,
  the opening day and the known start of the off-season (0 for unknown).
\<close>

definition kbo_season_phase_effective_from_values ::
    "u32 \<Rightarrow> u32 \<Rightarrow> u8 \<Rightarrow> u32 \<Rightarrow> u32 \<Rightarrow> u8 \<times> bool" where
  "kbo_season_phase_effective_from_values today league_year raw_phase opening_day known_offseason_start =
     (let raw_known = kbo_season_phase_known raw_phase;
          date_year = today div 10000;
          month_day = today mod 10000;
          not_offseason = (raw_phase \<noteq> PHASE_OFFSEASON_RESET \<and> raw_phase \<noteq> PHASE_OFFSEASON_STARTED)
      in if \<not> kbo_season_phase_date_valid today then
           (if raw_known then raw_phase else PHASE_UNKNOWN, False)
         else if known_offseason_start \<noteq> 0
              \<and> kbo_season_phase_date_on_or_after today known_offseason_start then
           (PHASE_OFFSEASON_RESET, not_offseason)
         else if kbo_season_phase_year_plausible league_year \<and> league_year > date_year
              \<and> month_day \<ge> 1001 then
           (PHASE_OFFSEASON_RESET, not_offseason)
         else if raw_phase = PHASE_REGULAR_SEASON \<or> raw_phase = PHASE_POSTSEASON then (raw_phase, False)
         else if kbo_season_phase_date_valid opening_day
              \<and> serial_of today \<noteq> 0 \<and> serial_of opening_day \<noteq> 0
              \<and> date_year = opening_day div 10000 then
           (if serial_of today < serial_of opening_day then
              (let effective = (if month_day \<ge> 301 then PHASE_PRESEASON
                                else if raw_known then raw_phase else PHASE_OFFSEASON_RESET)
               in (effective, \<not> raw_known \<or> effective \<noteq> raw_phase))
            else
              (let effective = (if month_day < 1001 then PHASE_REGULAR_SEASON
                                else if month_day < 1201 then PHASE_POSTSEASON
                                else PHASE_OFFSEASON_RESET)
               in (effective, \<not> raw_known \<or> effective \<noteq> raw_phase)))
         else if raw_phase = PHASE_PRESEASON then (raw_phase, False)
         else
           (let fallback = (if month_day \<ge> 301 \<and> month_day \<le> 415 then PHASE_PRESEASON
                            else if month_day \<ge> 416 \<and> month_day < 1001 then PHASE_REGULAR_SEASON
                            else if month_day \<ge> 1001 \<and> month_day < 1201 then PHASE_POSTSEASON
                            else if raw_known then raw_phase
                            else PHASE_OFFSEASON_RESET)
            in (fallback, \<not> raw_known \<or> fallback \<noteq> raw_phase)))"

section \<open>Captured phase writes\<close>

definition CAPTURE_RING_SIZE :: int where "CAPTURE_RING_SIZE = 64"
definition CAPTURE_RING_MASK :: u32 where "CAPTURE_RING_MASK = 63"

record capture_snapshot =
  sn_sequence :: u32
  sn_date :: u32
  sn_league_id :: u32
  sn_league_ptr :: u64
  sn_league_year :: u32
  sn_phase :: u8
  sn_raw_phase_after_write :: u8
  sn_phase_year :: u32
  sn_site_rva :: u32

record capture_state =
  cp_published_sequence :: int
  cp_consumed_sequence :: int
  cp_league_ptrs :: "nat \<Rightarrow> u64"
  cp_values :: "nat \<Rightarrow> u32"
  cp_site_rvas :: "nat \<Rightarrow> u32"
  cp_latest_capture :: capture_snapshot
  cp_latest_capture_valid :: bool

definition kbo_season_phase_capture_phase_known :: "u32 \<Rightarrow> bool" where
  "kbo_season_phase_capture_phase_known phase \<longleftrightarrow> phase \<le> 4"

definition kbo_season_phase_capture_date_serial :: "u32 \<Rightarrow> u32" where
  "kbo_season_phase_capture_date_serial yyyymmdd = (if yyyymmdd = 0 then 0 else serial_of yyyymmdd)"

definition kbo_season_phase_capture_league_matches ::
    "game_memory \<Rightarrow> u32 \<Rightarrow> u64 \<Rightarrow> u32 \<Rightarrow> bool" where
  "kbo_season_phase_capture_league_matches gm current_year league_ptr league_id =
     (if league_ptr = 0 \<or> league_id = 0
          \<or> \<not> gm_readable gm league_ptr (LEAGUE_ID_OFFSET + 16)
          \<or> \<not> gm_readable gm (league_ptr + LEAGUE_PHASE_YEAR_OFFSET) 4 then False
      else
        (gm_u32 gm (league_ptr + LEAGUE_ID_OFFSET) = league_id
          \<and> kbo_league_candidate_matches_id gm current_year league_ptr league_id LEAGUE_ID_OFFSET)
        \<or> (gm_u32 gm (league_ptr + LEAGUE_ID_OFFSET + 8) = league_id
          \<and> kbo_league_candidate_matches_id gm current_year league_ptr league_id (LEAGUE_ID_OFFSET + 8)))"

definition kbo_season_phase_capture_snapshot_still_usable ::
    "game_memory \<Rightarrow> u32 \<Rightarrow> capture_snapshot \<Rightarrow> u32 \<Rightarrow> u32 \<Rightarrow> bool" where
  "kbo_season_phase_capture_snapshot_still_usable gm current_year snapshot league_id today =
     (if sn_sequence snapshot = 0 \<or> sn_league_id snapshot \<noteq> league_id
          \<or> \<not> kbo_season_phase_capture_phase_known (ucast (sn_phase snapshot))
          \<or> \<not> kbo_season_phase_year_plausible (sn_league_year snapshot)
          \<or> \<not> kbo_season_phase_capture_league_matches gm current_year (sn_league_ptr snapshot) league_id
      then False
      else
        let today_serial = kbo_season_phase_capture_date_serial today;
            event_serial = kbo_season_phase_capture_date_serial (sn_date snapshot)
        in if today_serial \<noteq> 0 \<and> event_serial \<noteq> 0 \<and> today_serial < event_serial then False
           else \<not> year_far_from (sn_league_year snapshot) (today div 10000))"

text \<open>The snapshot one ring entry gives, if it is acceptable.\<close>

definition capture_snapshot_of ::
    "game_memory \<Rightarrow> u32 \<Rightarrow> u32 \<Rightarrow> u32 \<Rightarrow> capture_state \<Rightarrow> int \<Rightarrow> capture_snapshot option" where
  "capture_snapshot_of gm current_year league_id today st event_no =
     (let index = ring_slot CAPTURE_RING_MASK event_no;
          league_ptr = cp_league_ptrs st index;
          value = cp_values st index;
          site_rva = cp_site_rvas st index
      in if \<not> kbo_season_phase_capture_phase_known value
            \<or> \<not> kbo_season_phase_capture_league_matches gm current_year league_ptr league_id then None
         else
           let league_year = gm_u32 gm (league_ptr + LEAGUE_YEAR_OFFSET);
               raw_phase = gm_u8 gm (league_ptr + LEAGUE_PHASE_OFFSET);
               phase_year = gm_u32 gm (league_ptr + LEAGUE_PHASE_YEAR_OFFSET)
           in if \<not> kbo_season_phase_year_plausible league_year
                 \<or> \<not> kbo_season_phase_capture_phase_known (ucast raw_phase)
                 \<or> (phase_year \<noteq> 0 \<and> \<not> kbo_season_phase_year_plausible phase_year) then None
              else Some \<lparr>sn_sequence = word_of_int event_no + 1, sn_date = today,
                         sn_league_id = league_id, sn_league_ptr = league_ptr,
                         sn_league_year = league_year, sn_phase = ucast value,
                         sn_raw_phase_after_write = raw_phase, sn_phase_year = phase_year,
                         sn_site_rva = site_rva\<rparr>)"

definition capture_accept ::
    "game_memory \<Rightarrow> u32 \<Rightarrow> u32 \<Rightarrow> u32 \<Rightarrow> capture_state \<Rightarrow> int \<Rightarrow> capture_state" where
  "capture_accept gm current_year league_id today st event_no =
     (case capture_snapshot_of gm current_year league_id today st event_no of
        None \<Rightarrow> st
      | Some snapshot \<Rightarrow> st\<lparr>cp_latest_capture := snapshot, cp_latest_capture_valid := True\<rparr>)"

definition kbo_season_phase_capture_drain ::
    "game_memory \<Rightarrow> u32 \<Rightarrow> u32 \<Rightarrow> u32 \<Rightarrow> capture_state \<Rightarrow> capture_state" where
  "kbo_season_phase_capture_drain gm current_year league_id today st =
     (if league_id = 0 then st
      else
        let latest = cp_published_sequence st;
            consumed = cp_consumed_sequence st
        in if latest = consumed then st
           else
             let consumed = (if i32 (latest - consumed) > CAPTURE_RING_SIZE
                             then latest - CAPTURE_RING_SIZE else consumed);
                 st' = foldl (capture_accept gm current_year league_id today) st [consumed..latest - 1]
             in st'\<lparr>cp_consumed_sequence := latest\<rparr>)"

definition kbo_season_phase_capture_latest ::
    "game_memory \<Rightarrow> u32 \<Rightarrow> u32 \<Rightarrow> u32 \<Rightarrow> capture_state \<Rightarrow> capture_state \<times> capture_snapshot option" where
  "kbo_season_phase_capture_latest gm current_year league_id today st =
     (if league_id = 0 then (st, None)
      else
        let st' = kbo_season_phase_capture_drain gm current_year league_id today st
        in (st', if cp_latest_capture_valid st'
                    \<and> kbo_season_phase_capture_snapshot_still_usable gm current_year
                        (cp_latest_capture st') league_id today
                 then Some (cp_latest_capture st') else None))"

section \<open>Resolution\<close>

record season_phase_info =
  pi_date :: u32
  pi_league_id :: u32
  pi_league_ptr :: u64
  pi_league_year :: u32
  pi_raw_phase :: u8
  pi_raw_phase_year :: u32
  pi_captured_phase :: u8
  pi_capture_raw_phase_after_write :: u8
  pi_capture_phase_year :: u32
  pi_capture_site_rva :: u32
  pi_capture_date :: u32
  pi_capture_sequence :: u32
  pi_effective_phase :: u8
  pi_opening_day :: u32
  pi_known_offseason_start :: u32
  pi_raw_valid :: bool
  pi_capture_valid :: bool
  pi_capture_used :: bool
  pi_opening_day_valid :: bool
  pi_corrected :: bool

definition kbo_season_phase_init_info :: season_phase_info where
  "kbo_season_phase_init_info = \<lparr>pi_date = 0, pi_league_id = 0, pi_league_ptr = 0, pi_league_year = 0,
     pi_raw_phase = PHASE_UNKNOWN, pi_raw_phase_year = 0, pi_captured_phase = PHASE_UNKNOWN,
     pi_capture_raw_phase_after_write = PHASE_UNKNOWN, pi_capture_phase_year = 0,
     pi_capture_site_rva = 0, pi_capture_date = 0, pi_capture_sequence = 0,
     pi_effective_phase = PHASE_UNKNOWN, pi_opening_day = 0, pi_known_offseason_start = 0,
     pi_raw_valid = False, pi_capture_valid = False, pi_capture_used = False,
     pi_opening_day_valid = False, pi_corrected = False\<rparr>"

definition kbo_season_phase_info_has_today_offseason_transition_capture ::
    "(u32 \<Rightarrow> u32 \<Rightarrow> bool) \<Rightarrow> season_phase_info \<Rightarrow> u32 \<Rightarrow> bool" where
  "kbo_season_phase_info_has_today_offseason_transition_capture rva_matches info today \<longleftrightarrow>
     pi_capture_valid info \<and> pi_capture_date info = today
     \<and> kbo_season_phase_is_offseason (pi_captured_phase info)
     \<and> kbo_season_phase_site_is_offseason_transition rva_matches (pi_capture_site_rva info)"

text \<open>The result of reading the raw phase, and whether it is usable.\<close>

definition kbo_season_phase_read_raw ::
    "game_memory \<Rightarrow> (u32 \<Rightarrow> u64) \<Rightarrow> u32 \<Rightarrow> season_phase_info \<times> bool" where
  "kbo_season_phase_read_raw gm find_league_ptr league_id =
     (let info = kbo_season_phase_init_info
      in if league_id = 0 then (info, False)
      else
        let league_ptr = find_league_ptr league_id
        in if league_ptr = 0 \<or> \<not> gm_readable gm league_ptr (LEAGUE_PHASE_YEAR_OFFSET + 4)
           then (info\<lparr>pi_league_id := league_id\<rparr>, False)
           else
             let league_year = gm_u32 gm (league_ptr + LEAGUE_YEAR_OFFSET);
                 raw_phase = gm_u8 gm (league_ptr + LEAGUE_PHASE_OFFSET);
                 raw_phase_year = gm_u32 gm (league_ptr + LEAGUE_PHASE_YEAR_OFFSET);
                 info' = info\<lparr>pi_league_id := league_id, pi_league_ptr := league_ptr,
                              pi_league_year := league_year, pi_raw_phase := raw_phase,
                              pi_raw_phase_year := raw_phase_year\<rparr>
             in if league_year < SEASON_YEAR_MIN \<or> league_year > SIM_YEAR_MAX
                   \<or> raw_phase > PHASE_POSTSEASON then (info', False)
                else (info'\<lparr>pi_raw_valid := True\<rparr>, True))"

definition kbo_season_phase_schedule_year :: "u32 \<Rightarrow> u32 \<Rightarrow> u32" where
  "kbo_season_phase_schedule_year today league_year =
     (let date_year = today div 10000;
          month_day = today mod 10000
      in if league_year < SEASON_YEAR_MIN \<or> league_year > SIM_YEAR_MAX then date_year
         else if date_year > league_year \<and> month_day \<le> 701 then date_year
         else league_year)"

type_synonym resolve_opening = "u32 \<Rightarrow> u32 \<Rightarrow> u32 \<Rightarrow> u64 \<Rightarrow> u32 option"

definition kbo_season_phase_resolve_opening_day ::
    "resolve_opening \<Rightarrow> season_phase_info \<Rightarrow> u32 \<Rightarrow> u32 option" where
  "kbo_season_phase_resolve_opening_day resolve raw_info today =
     (if today = 0 then None
      else resolve (pi_league_id raw_info)
             (kbo_season_phase_schedule_year today (pi_league_year raw_info)) today (pi_league_ptr raw_info))"

definition apply_capture :: "capture_snapshot \<Rightarrow> season_phase_info \<Rightarrow> season_phase_info" where
  "apply_capture capture info =
     (let info1 = info\<lparr>pi_capture_valid := True, pi_captured_phase := sn_phase capture,
                       pi_capture_raw_phase_after_write := sn_raw_phase_after_write capture,
                       pi_capture_phase_year := sn_phase_year capture,
                       pi_capture_site_rva := sn_site_rva capture,
                       pi_capture_date := sn_date capture,
                       pi_capture_sequence := sn_sequence capture\<rparr>
      in if \<not> pi_raw_valid info1 \<or> pi_league_ptr info1 = 0
            \<or> pi_league_ptr info1 \<noteq> sn_league_ptr capture
         then info1\<lparr>pi_league_ptr := sn_league_ptr capture, pi_league_year := sn_league_year capture,
                    pi_raw_phase := sn_raw_phase_after_write capture,
                    pi_raw_phase_year := sn_phase_year capture, pi_raw_valid := True\<rparr>
         else info1)"

definition kbo_season_phase_resolve ::
    "game_memory \<Rightarrow> (u32 \<Rightarrow> u64) \<Rightarrow> resolve_opening \<Rightarrow> u32 \<Rightarrow> u32 \<Rightarrow> u32 \<Rightarrow> u32 \<Rightarrow> capture_state
       \<Rightarrow> capture_state \<times> season_phase_info \<times> bool" where
  "kbo_season_phase_resolve gm find_league_ptr resolve current_year league_id today known_offseason_start st =
     (let (raw_info, raw_ok) = kbo_season_phase_read_raw gm find_league_ptr league_id;
          info = (if raw_ok then raw_info\<lparr>pi_date := today, pi_known_offseason_start := known_offseason_start\<rparr>
                  else
                    let info0 = kbo_season_phase_init_info\<lparr>pi_date := today, pi_league_id := league_id,
                                  pi_known_offseason_start := known_offseason_start\<rparr>
                    in if league_id \<noteq> 0
                       then info0\<lparr>pi_league_id := league_id, pi_raw_phase := pi_raw_phase raw_info,
                                  pi_raw_phase_year := pi_raw_phase_year raw_info,
                                  pi_league_ptr := pi_league_ptr raw_info,
                                  pi_league_year := pi_league_year raw_info\<rparr>
                       else info0);
          (st', capture) = kbo_season_phase_capture_latest gm current_year league_id today st;
          info = (case capture of None \<Rightarrow> info | Some snapshot \<Rightarrow> apply_capture snapshot info);
          info = (case kbo_season_phase_resolve_opening_day resolve info today of
                    None \<Rightarrow> info
                  | Some opening_day \<Rightarrow> info\<lparr>pi_opening_day := opening_day, pi_opening_day_valid := True\<rparr>);
          phase_source = (if pi_capture_valid info then pi_captured_phase info else pi_raw_phase info);
          info = info\<lparr>pi_capture_used := pi_capture_valid info\<rparr>;
          (effective, source_corrected) =
            kbo_season_phase_effective_from_values today (pi_league_year info) phase_source
              (pi_opening_day info) known_offseason_start;
          info = info\<lparr>pi_effective_phase := effective,
                      pi_corrected := source_corrected
                        \<or> (pi_capture_used info
                           \<and> (\<not> pi_raw_valid info \<or> pi_raw_phase info \<noteq> pi_captured_phase info))\<rparr>
      in (st', info, pi_effective_phase info \<noteq> PHASE_UNKNOWN))"

end
