(* ===== verification/SeasonPhaseProps.thy ===== *)
theory SeasonPhaseProps
  imports SeasonPhase
begin

text \<open>
  Correctness of the season phase: the rules give a known phase and report corrections
  faithfully, the phases of a year come in order, a drain leaves the latest acceptable
  capture, and a resolution uses it.
\<close>

section \<open>Serials as an order on real dates\<close>

lemma serial_nonzero: "serial_of d \<noteq> 0 \<longleftrightarrow> real_date (year_of d) (month_of d) (day_of d)"
  using serial_of_refines [of d] by (auto simp: unat_eq_0 [symmetric] day_number_def real_date_def)

lemma serial_less_if_real:
  assumes "serial_of a \<noteq> 0" and "serial_of b \<noteq> 0" and "a < b"
  shows "serial_of a < serial_of b"
proof -
  have "month_of a < 100" "day_of a < 100" "month_of b < 100" "day_of b < 100"
    by (simp_all add: month_of_def day_of_def)
  then have "year_of a < year_of b \<or> (year_of a = year_of b \<and>
     (month_of a < month_of b \<or> (month_of a = month_of b \<and> day_of a < day_of b)))"
    using assms(3) by (simp add: word_order_unat unat_split [of a] unat_split [of b]) linarith
  then have "day_number (year_of a) (month_of a) (day_of a) < day_number (year_of b) (month_of b) (day_of b)"
    using assms(1,2) by (intro day_number_less) (auto simp: serial_nonzero)
  then show ?thesis using assms(1,2) by (simp add: word_order_unat serial_of_refines serial_nonzero)
qed

lemma serial_mono_real:
  assumes "serial_of a \<noteq> 0" and "serial_of b \<noteq> 0"
  shows "serial_of a \<le> serial_of b \<longleftrightarrow> a \<le> b"
  using serial_less_if_real [of a b] serial_less_if_real [of b a] assms
  by (metis leD le_less linorder_less_linear)

lemma same_year_month_day:
  assumes "a \<le> (b :: u32)" and "a div 10000 = b div 10000"
  shows "a mod 10000 \<le> b mod 10000"
proof -
  have "unat a div 10000 = unat b div 10000" using assms(2) by (simp add: word_eq_unat unat_simps)
  moreover have "unat a \<le> unat b" using assms(1) by (simp add: word_order_unat)
  ultimately have "unat a mod 10000 \<le> unat b mod 10000"
    by (metis div_mult_mod_eq add_le_cancel_left)
  then show ?thesis by (simp add: word_order_unat unat_simps)
qed

section \<open>The rules\<close>

lemma phase_known_le: "kbo_season_phase_known p \<longleftrightarrow> p \<le> 4"
  by (simp add: kbo_season_phase_known_def phase_defs)

text \<open>The two reasons that make a day off-season whatever the game says.\<close>

definition offseason_forced :: "u32 \<Rightarrow> u32 \<Rightarrow> u32 \<Rightarrow> bool" where
  "offseason_forced today league_year start \<longleftrightarrow>
     start \<noteq> 0 \<and> kbo_season_phase_date_on_or_after today start
     \<or> kbo_season_phase_year_plausible league_year \<and> league_year > today div 10000 \<and> today mod 10000 \<ge> 1001"

definition in_opening_year :: "u32 \<Rightarrow> u32 \<Rightarrow> bool" where
  "in_opening_year today od \<longleftrightarrow> serial_of od \<noteq> 0 \<and> today div 10000 = od div 10000"

text \<open>The rules once the off-season is not forced, branch by branch.\<close>

definition phase_by_opening :: "u32 \<Rightarrow> u8 \<Rightarrow> u32 \<Rightarrow> u8" where
  "phase_by_opening today raw od =
     (if serial_of today < serial_of od
      then (if today mod 10000 \<ge> 301 then 2 else if raw \<le> 4 then raw else 0)
      else if today mod 10000 < 1001 then 3 else if today mod 10000 < 1201 then 4 else 0)"

definition phase_by_month :: "u32 \<Rightarrow> u8 \<Rightarrow> u8" where
  "phase_by_month today raw =
     (if today mod 10000 \<ge> 301 \<and> today mod 10000 \<le> 415 then 2
      else if today mod 10000 \<ge> 416 \<and> today mod 10000 < 1001 then 3
      else if today mod 10000 \<ge> 1001 \<and> today mod 10000 < 1201 then 4
      else if raw \<le> 4 then raw else 0)"

lemma if_merge: "(if A then x else if B then x else y) = (if A \<or> B then x else y)"
  by simp

lemma effective_valid:
  assumes "serial_of today \<noteq> 0"
  shows "kbo_season_phase_effective_from_values today league_year raw od start =
     (if offseason_forced today league_year start then (0, raw \<noteq> 0 \<and> raw \<noteq> 1)
      else if raw = 3 \<or> raw = 4 then (raw, False)
      else if in_opening_year today od
           then (phase_by_opening today raw od,
                 \<not> raw \<le> 4 \<or> phase_by_opening today raw od \<noteq> raw)
      else if raw = 2 then (raw, False)
      else (phase_by_month today raw, \<not> raw \<le> 4 \<or> phase_by_month today raw \<noteq> raw))"
  using assms
  unfolding kbo_season_phase_effective_from_values_def offseason_forced_def in_opening_year_def
    phase_by_opening_def phase_by_month_def kbo_season_phase_date_valid_def phase_known_le phase_defs Let_def
  by (cases "serial_of today < serial_of od") (simp_all add: if_merge cong: if_cong split del: if_split)

lemma phase_by_opening_le: "phase_by_opening today raw od \<le> 4"
  by (simp add: phase_by_opening_def)

lemma phase_by_month_le: "phase_by_month today raw \<le> 4"
  by (simp add: phase_by_month_def)

text \<open>
  On a real date the effective phase is always one of the five phases; it is flagged
  as corrected exactly when it differs from the raw phase, except that an off-season that
  has started (1) may silently be reported as reset (0).  On anything else a known raw
  phase is kept.
\<close>

theorem effective_phase_and_correction:
  "case kbo_season_phase_effective_from_values today league_year raw od start of
     (effective, corrected) \<Rightarrow>
       (if kbo_season_phase_date_valid today
        then effective \<le> 4 \<and> (corrected \<longleftrightarrow> effective \<noteq> raw
               \<and> \<not> (effective = 0 \<and> raw = 1 \<and> offseason_forced today league_year start))
        else \<not> corrected \<and> effective = (if raw \<le> 4 then raw else 0xff))"
proof (cases "serial_of today = 0")
  case True
  then show ?thesis
    by (simp add: kbo_season_phase_effective_from_values_def Let_def phase_known_le
        kbo_season_phase_date_valid_def phase_defs)
next
  case False
  have "\<not> raw \<le> 4 \<Longrightarrow> x \<le> 4 \<Longrightarrow> x \<noteq> raw" for x by auto
  then show ?thesis
    using False phase_by_opening_le [where today = today and raw = raw and od = od]
      phase_by_month_le [where today = today and raw = raw]
    by (simp add: effective_valid [OF False] kbo_season_phase_date_valid_def split del: if_split)
      (simp split: if_splits, blast?)
qed

definition phase_rank :: "u8 \<Rightarrow> nat" where
  "phase_rank p = (if p = 2 then 0 else if p = 3 then 1 else if p = 4 then 2 else 3)"

definition effective_phase :: "u32 \<Rightarrow> u32 \<Rightarrow> u8 \<Rightarrow> u32 \<Rightarrow> u32 \<Rightarrow> u8" where
  "effective_phase today league_year raw od start =
     fst (kbo_season_phase_effective_from_values today league_year raw od start)"

lemma rank_opening_mono:
  assumes "serial_of d1 \<le> serial_of d2" and "d1 mod 10000 \<le> d2 mod 10000"
    and "301 \<le> d1 mod 10000"
  shows "phase_rank (phase_by_opening d1 raw od) \<le> phase_rank (phase_by_opening d2 raw od)"
  using assms by (auto simp: phase_rank_def phase_by_opening_def)

lemma not_ge_416: "\<not> (416 :: u32) \<le> x \<Longrightarrow> x \<le> 415"
  by (simp add: word_order_unat)

lemma rank_month_mono:
  assumes "d1 mod 10000 \<le> d2 mod 10000" and "301 \<le> d1 mod 10000" and "raw \<notin> {2, 3, 4}"
  shows "phase_rank (phase_by_month d1 raw) \<le> phase_rank (phase_by_month d2 raw)"
  using assms not_ge_416 [of "d1 mod 10000"] by (auto simp: phase_rank_def phase_by_month_def)

lemma offseason_forced_mono:
  assumes "serial_of d1 \<noteq> 0" and "serial_of d2 \<noteq> 0" and "d1 \<le> d2"
    and "d1 div 10000 = d2 div 10000" and "offseason_forced d1 league_year start"
  shows "offseason_forced d2 league_year start"
  using assms serial_mono_real [OF assms(1,2)] same_year_month_day [OF assms(3,4)]
  by (auto simp: offseason_forced_def kbo_season_phase_date_on_or_after_def)

text \<open>
  C24: for fixed readings of the game the phases come in order.  Of two days of one calendar
  year, both from March 1 on, taken with the same raw phase, the same league year, the same
  opening day and the same known start of the off-season, the later one never has an earlier
  effective phase (pre-season, regular season, post-season, off-season).  Nothing is said of
  days on which the game reports different values: a raw phase that changes can move the
  effective phase back (\<open>changed_raw_phase_goes_back\<close>).
\<close>

theorem phases_in_order_for_fixed_readings:
  assumes "kbo_season_phase_date_valid d1" and "kbo_season_phase_date_valid d2"
    and "d1 \<le> d2" and "d1 div 10000 = d2 div 10000" and "301 \<le> d1 mod 10000"
  shows "phase_rank (effective_phase d1 league_year raw od start)
       \<le> phase_rank (effective_phase d2 league_year raw od start)"
proof -
  have v: "serial_of d1 \<noteq> 0" "serial_of d2 \<noteq> 0"
    using assms(1,2) by (simp_all add: kbo_season_phase_date_valid_def)
  note md = same_year_month_day [OF assms(3,4)]
  have s: "serial_of d1 \<le> serial_of d2" using serial_mono_real [OF v] assms(3) by simp
  have top: "phase_rank p \<le> phase_rank 0" for p by (simp add: phase_rank_def)
  have oy: "in_opening_year d1 od = in_opening_year d2 od" using assms(4) by (simp add: in_opening_year_def)
  show ?thesis
  proof (cases "offseason_forced d2 league_year start")
    case True
    then show ?thesis using top by (simp add: effective_phase_def effective_valid [OF v(2)])
  next
    case False
    then have "\<not> offseason_forced d1 league_year start"
      using offseason_forced_mono [OF v assms(3,4)] by blast
    then show ?thesis
      using False oy rank_opening_mono [OF s md assms(5)] rank_month_mono [OF md assms(5)]
      by (simp add: effective_phase_def effective_valid [OF v(1)] effective_valid [OF v(2)])
  qed
qed

lemma changed_raw_phase_goes_back:
  "effective_phase 20240416 2024 0 0 0 = 3 \<and> effective_phase 20240420 2024 2 0 0 = 2"
  by code_simp

theorem phases_in_order_for_fixed_readings_witness:
  "phase_rank (effective_phase 20240310 2024 0 20240323 0) \<le> phase_rank (effective_phase 20240501 2024 0 20240323 0)
   \<and> effective_phase 20240310 2024 0 20240323 0 = 2 \<and> effective_phase 20240501 2024 0 20240323 0 = 3"
proof -
  have "kbo_season_phase_date_valid 20240310" "kbo_season_phase_date_valid 20240501"
    by code_simp+
  from phases_in_order_for_fixed_readings [OF this, of 2024 0 20240323 0]
  have "phase_rank (effective_phase 20240310 2024 0 20240323 0)
      \<le> phase_rank (effective_phase 20240501 2024 0 20240323 0)" by simp
  moreover have "effective_phase 20240310 2024 0 20240323 0 = 2" by code_simp
  moreover have "effective_phase 20240501 2024 0 20240323 0 = 3" by code_simp
  ultimately show ?thesis by blast
qed

section \<open>Captures\<close>

definition accepted_captures ::
    "game_memory \<Rightarrow> u32 \<Rightarrow> u32 \<Rightarrow> u32 \<Rightarrow> capture_state \<Rightarrow> capture_snapshot list" where
  "accepted_captures gm current_year league_id today st =
     List.map_filter (capture_snapshot_of gm current_year league_id today st)
       [max (cp_consumed_sequence st) (cp_published_sequence st - 64)..cp_published_sequence st - 1]"

lemma capture_snapshot_of_cong:
  assumes "cp_league_ptrs st' = cp_league_ptrs st" and "cp_values st' = cp_values st"
    and "cp_site_rvas st' = cp_site_rvas st"
  shows "capture_snapshot_of gm cy lid today st' n = capture_snapshot_of gm cy lid today st n"
  using assms by (simp add: capture_snapshot_of_def)

lemma foldl_capture_accept:
  "foldl (capture_accept gm cy lid today) st ns =
     (case List.map_filter (capture_snapshot_of gm cy lid today st) ns of
        [] \<Rightarrow> st
      | x # xs \<Rightarrow> st\<lparr>cp_latest_capture := last (x # xs), cp_latest_capture_valid := True\<rparr>)"
proof (induction ns arbitrary: st)
  case Nil
  then show ?case by (simp add: map_filter_simps)
next
  case (Cons n ns)
  show ?case
  proof (cases "capture_snapshot_of gm cy lid today st n")
    case None
    then show ?thesis using Cons.IH [of st] by (simp add: capture_accept_def map_filter_simps)
  next
    case (Some x)
    let ?st = "st\<lparr>cp_latest_capture := x, cp_latest_capture_valid := True\<rparr>"
    have c: "capture_snapshot_of gm cy lid today ?st = capture_snapshot_of gm cy lid today st"
      by (rule ext) (rule capture_snapshot_of_cong, simp_all)
    show ?thesis
      using Some Cons.IH [of ?st]
      by (simp add: capture_accept_def map_filter_simps c split: list.splits)
  qed
qed

lemma drain_result:
  assumes "lid \<noteq> 0" and "0 \<le> cp_consumed_sequence st"
    and "cp_consumed_sequence st \<le> cp_published_sequence st" and "cp_published_sequence st < 2 ^ 31"
  shows "kbo_season_phase_capture_drain gm cy lid today st =
     (case accepted_captures gm cy lid today st of
        [] \<Rightarrow> st\<lparr>cp_consumed_sequence := cp_published_sequence st\<rparr>
      | x # xs \<Rightarrow> st\<lparr>cp_consumed_sequence := cp_published_sequence st,
           cp_latest_capture := last (x # xs), cp_latest_capture_valid := True\<rparr>)"
proof (cases "cp_published_sequence st = cp_consumed_sequence st")
  case True
  then show ?thesis
    by (simp add: kbo_season_phase_capture_drain_def accepted_captures_def map_filter_simps)
next
  case False
  have "i32 (cp_published_sequence st - cp_consumed_sequence st)
      = cp_published_sequence st - cp_consumed_sequence st"
    using interlocked_increment_id [of "cp_published_sequence st - cp_consumed_sequence st - 1"] assms(2-4)
    by (simp add: interlocked_increment_def)
  moreover have "max c (p - 64) = (if p - c > 64 then p - 64 else c)" for c p :: int by simp
  ultimately show ?thesis
    using assms(1) False
    by (simp add: kbo_season_phase_capture_drain_def Let_def foldl_capture_accept accepted_captures_def
        CAPTURE_RING_SIZE_def split: list.splits)
qed

text \<open>
  A drain consumes everything the hooks published; the latest capture becomes the last
  acceptable event among those not consumed yet and still in the ring of 64, or stays if
  there is none, and a second drain changes nothing.
\<close>

theorem drain_keeps_last_acceptable:
  fixes gm :: game_memory and cy today :: u32
  assumes "lid \<noteq> 0" and "0 \<le> cp_consumed_sequence st"
    and "cp_consumed_sequence st \<le> cp_published_sequence st" and "cp_published_sequence st < 2 ^ 31"
  defines "st' \<equiv> kbo_season_phase_capture_drain gm cy lid today st"
    and "accepted \<equiv> accepted_captures gm cy lid today st"
  shows "cp_consumed_sequence st' = cp_published_sequence st
     \<and> cp_latest_capture st' = (if accepted = [] then cp_latest_capture st else last accepted)
     \<and> (cp_latest_capture_valid st' \<longleftrightarrow> cp_latest_capture_valid st \<or> accepted \<noteq> [])
     \<and> kbo_season_phase_capture_drain gm cy lid today st' = st'"
proof -
  have c: "cp_consumed_sequence st' = cp_published_sequence st"
      "cp_published_sequence st' = cp_published_sequence st"
    unfolding st'_def drain_result [OF assms(1-4)] by (auto split: list.splits)
  then have "kbo_season_phase_capture_drain gm cy lid today st' = st'"
    by (simp add: kbo_season_phase_capture_drain_def)
  moreover have "cp_latest_capture st' = (if accepted = [] then cp_latest_capture st else last accepted)
      \<and> (cp_latest_capture_valid st' \<longleftrightarrow> cp_latest_capture_valid st \<or> accepted \<noteq> [])"
    unfolding st'_def accepted_def drain_result [OF assms(1-4)] by (auto split: list.splits)
  ultimately show ?thesis using c(1) by blast
qed

text \<open>A game with one league object at address 4096 of league 100 in 2024, in phase 3.\<close>

definition demo_game :: game_memory where
  "demo_game = \<lparr>gm_readable = (\<lambda>_ _. True),
     gm_u8 = (\<lambda>a. if a = 4096 + LEAGUE_PHASE_OFFSET then 3 else 0),
     gm_u32 = (\<lambda>a. if a = 4096 + LEAGUE_ID_OFFSET then 100
                  else if a = 4096 + LEAGUE_YEAR_OFFSET then 2024 else 0)\<rparr>"

definition demo_capture :: capture_state where
  "demo_capture = \<lparr>cp_published_sequence = 2, cp_consumed_sequence = 0,
     cp_league_ptrs = (\<lambda>i. if i = 0 then 4096 else 0), cp_values = (\<lambda>_. 4), cp_site_rvas = (\<lambda>_. 7),
     cp_latest_capture = \<lparr>sn_sequence = 0, sn_date = 0, sn_league_id = 0, sn_league_ptr = 0,
       sn_league_year = 0, sn_phase = 0, sn_raw_phase_after_write = 0, sn_phase_year = 0, sn_site_rva = 0\<rparr>,
     cp_latest_capture_valid = False\<rparr>"

lemma demo_accepted:
  "map sn_phase (accepted_captures demo_game 2024 100 20241001 demo_capture) = [4]"
  by code_simp

theorem drain_keeps_last_acceptable_witness:
  "sn_phase (cp_latest_capture (kbo_season_phase_capture_drain demo_game 2024 100 20241001 demo_capture)) = 4
   \<and> cp_consumed_sequence (kbo_season_phase_capture_drain demo_game 2024 100 20241001 demo_capture) = 2"
proof -
  have "map sn_phase (accepted_captures demo_game 2024 100 20241001 demo_capture) = [4]"
    by (rule demo_accepted)
  then obtain x where x: "accepted_captures demo_game 2024 100 20241001 demo_capture = [x]" "sn_phase x = 4"
    by (auto simp: map_eq_Cons_conv)
  show ?thesis
    using drain_keeps_last_acceptable [of 100 demo_capture demo_game 2024 20241001] x
    by (simp add: demo_capture_def)
qed

text \<open>An event that was just accepted is usable on the same day.\<close>

lemma accepted_usable:
  assumes "capture_snapshot_of gm cy lid today st n = Some x" and "0 \<le> n" and "n < 2 ^ 31"
    and "\<not> year_far_from (sn_league_year x) (today div 10000)"
  shows "kbo_season_phase_capture_snapshot_still_usable gm cy x lid today \<and> sn_date x = today"
proof -
  have "(word_of_int n + 1 :: u32) = of_nat (nat n + 1)" using assms(2) by simp
  moreover have "unat (of_nat (nat n + 1) :: u32) = nat n + 1"
    using assms(2,3) unfolding unat_of_nat by (intro mod_less) simp
  ultimately have seq: "(word_of_int n + 1 :: u32) \<noteq> 0" by (metis add_is_0 one_neq_zero unat_0)
  have v: "(ucast (ucast v :: u8) :: u32) = v" if "v \<le> 4" for v :: u32
  proof -
    have "unat v \<le> 4" using that by (simp add: word_order_unat)
    then show ?thesis by (simp add: word_eq_unat unsigned_ucast_eq take_bit_eq_mod unat_mod_distrib)
  qed
  show ?thesis
    using assms(1,4) seq v
    by (auto simp: capture_snapshot_of_def kbo_season_phase_capture_snapshot_still_usable_def Let_def
        kbo_season_phase_capture_phase_known_def split: if_splits)
qed

text \<open>
  A phase write the hooks caught since the last resolution wins over what the league
  object says: the captured phase is the last acceptable event's, dated today, the effective
  phase is the rules' answer for it, and the resolution is marked as corrected whenever the
  effective phase or the object's phase differs from the captured one (up to the silent
  reset of a started off-season).
\<close>

theorem resolve_uses_latest_capture:
  fixes find :: "u32 \<Rightarrow> u64" and res :: resolve_opening
  assumes "lid \<noteq> 0" and "0 \<le> cp_consumed_sequence st"
    and "cp_consumed_sequence st \<le> cp_published_sequence st" and "cp_published_sequence st < 2 ^ 31"
    and "accepted_captures gm cy lid today st \<noteq> []"
    and "\<not> year_far_from (sn_league_year (last (accepted_captures gm cy lid today st))) (today div 10000)"
  defines "snap \<equiv> last (accepted_captures gm cy lid today st)"
  shows "case kbo_season_phase_resolve gm find res cy lid today start st of (st', info, ok) \<Rightarrow>
       cp_consumed_sequence st' = cp_published_sequence st
     \<and> pi_capture_used info \<and> pi_captured_phase info = sn_phase snap
     \<and> pi_capture_date info = today \<and> pi_league_ptr info = sn_league_ptr snap
     \<and> (pi_effective_phase info, pi_corrected info) =
         (case kbo_season_phase_effective_from_values today (pi_league_year info) (sn_phase snap)
                 (pi_opening_day info) start of
            (effective, corrected) \<Rightarrow> (effective, corrected \<or> pi_raw_phase info \<noteq> sn_phase snap))
     \<and> (ok \<longleftrightarrow> pi_effective_phase info \<noteq> PHASE_UNKNOWN)"
proof -
  let ?st = "st\<lparr>cp_consumed_sequence := cp_published_sequence st, cp_latest_capture := snap,
                cp_latest_capture_valid := True\<rparr>"
  have d: "kbo_season_phase_capture_drain gm cy lid today st = ?st"
    using drain_result [OF assms(1-4), of gm cy today] assms(5) by (simp add: snap_def split: list.splits)
  have "snap \<in> set (accepted_captures gm cy lid today st)" unfolding snap_def by (rule last_in_set [OF assms(5)])
  then obtain n where n: "capture_snapshot_of gm cy lid today st n = Some snap" "0 \<le> n" "n < 2 ^ 31"
    using assms(2,4) by (auto simp: accepted_captures_def List.map_filter_def)
  have u: "kbo_season_phase_capture_snapshot_still_usable gm cy snap lid today" "sn_date snap = today"
    using accepted_usable [OF n] assms(6) by (auto simp: snap_def)
  have l: "kbo_season_phase_capture_latest gm cy lid today st = (?st, Some snap)"
    using assms(1) u by (simp add: kbo_season_phase_capture_latest_def d Let_def)
  have ap: "pi_raw_valid (apply_capture snap i)" "pi_league_ptr (apply_capture snap i) = sn_league_ptr snap"
    "pi_capture_valid (apply_capture snap i)" "pi_captured_phase (apply_capture snap i) = sn_phase snap"
    "pi_capture_date (apply_capture snap i) = today" for i
    using u(2) by (auto simp: apply_capture_def Let_def)
  show ?thesis
    unfolding kbo_season_phase_resolve_def Let_def l
    by (auto simp: ap split: prod.splits option.splits)
qed

theorem resolve_uses_latest_capture_witness:
  "case kbo_season_phase_resolve demo_game (\<lambda>_. 4096) (\<lambda>_ _ _ _. None) 2024 100 20241001 0 demo_capture of
     (st', info, ok) \<Rightarrow> pi_captured_phase info = 4 \<and> pi_capture_date info = 20241001"
proof -
  obtain x where x: "accepted_captures demo_game 2024 100 20241001 demo_capture = [x]" "sn_phase x = 4"
    using demo_accepted by (auto simp: map_eq_Cons_conv)
  have "map sn_league_year (accepted_captures demo_game 2024 100 20241001 demo_capture) = [2024]"
    by code_simp
  then have y: "sn_league_year x = 2024" by (simp add: x)
  have f: "\<not> year_far_from 2024 (20241001 div 10000)" by code_simp
  show ?thesis
    using resolve_uses_latest_capture [where lid = 100 and st = demo_capture and gm = demo_game and cy = 2024
        and today = 20241001 and find = "\<lambda>_. 4096" and res = "\<lambda>_ _ _ _. None" and start = 0] x y f
    by (simp add: demo_capture_def split_beta)
qed

end
