(* ===== verification/CbtRules.thy ===== *)
theory CbtRules
  imports KboPrelude
begin

text \<open>
  The rules of the competitive balance tax: \<open>native/src/competitive_balance_tax/rules/cbt_rules.c\<close>.
  A rule set has a table of at most 32 payroll thresholds by season, an optional override
  and the tax rates.

  \<open>cbt_rules\<close> is \<open>KboCbtRules\<close> with the threshold table as a list (its length is
  \<open>threshold_count\<close>); \<open>int32_t\<close> values are ints in range, with the conversions written out.
  The JSON text is read through \<open>json_reader\<close>, the three lookups of
  \<open>core_flags/json/json_bool_parser.c\<close> (built on the vendored jsmn tokenizer).  The scan
  over the objects of the threshold array is the code's own.
\<close>

section \<open>The rule set\<close>

record threshold_row =
  tr_season :: u32
  tr_threshold :: int

record cbt_rules =
  cr_enabled :: bool
  cr_top_player_count :: u32
  cr_draft_penalty_min_consecutive :: u32
  cr_draft_penalty_stages :: u32
  cr_tax_rate_1 :: u32
  cr_tax_rate_2 :: u32
  cr_tax_rate_3plus :: u32
  cr_annual_increase_pct :: u32
  cr_exception_deadline_days_after_opening :: u32
  cr_announcement_days_after_opening :: u32
  cr_event_scheduler_max_attempts :: u32
  cr_event_scheduler_sleep_ms :: u32
  cr_event_scheduler_log_attempts :: "u32 list"
  cr_threshold_override :: int
  cr_thresholds :: "threshold_row list"

definition CBT_THRESHOLD_MAX :: nat where "CBT_THRESHOLD_MAX = 32"

definition kbo_cbt_rules_init_defaults :: cbt_rules where
  "kbo_cbt_rules_init_defaults = \<lparr>cr_enabled = False, cr_top_player_count = 0,
     cr_draft_penalty_min_consecutive = 0, cr_draft_penalty_stages = 0, cr_tax_rate_1 = 0,
     cr_tax_rate_2 = 0, cr_tax_rate_3plus = 0, cr_annual_increase_pct = 0,
     cr_exception_deadline_days_after_opening = 0, cr_announcement_days_after_opening = 0,
     cr_event_scheduler_max_attempts = 0, cr_event_scheduler_sleep_ms = 0,
     cr_event_scheduler_log_attempts = [0, 0, 0, 0, 0], cr_threshold_override = 0, cr_thresholds = []\<rparr>"

text \<open>The update in place of the row of a season, if there is one.\<close>

fun update_threshold :: "u32 \<Rightarrow> int \<Rightarrow> threshold_row list \<Rightarrow> threshold_row list option" where
  "update_threshold season threshold [] = None"
| "update_threshold season threshold (r # rs) =
     (if tr_season r = season then Some (r\<lparr>tr_threshold := threshold\<rparr> # rs)
      else map_option (\<lambda>rs'. r # rs') (update_threshold season threshold rs))"

definition kbo_cbt_rules_add_threshold :: "u32 \<Rightarrow> int \<Rightarrow> cbt_rules \<Rightarrow> cbt_rules \<times> bool" where
  "kbo_cbt_rules_add_threshold season threshold out =
     (if season = 0 \<or> threshold \<le> 0 \<or> length (cr_thresholds out) \<ge> CBT_THRESHOLD_MAX then (out, False)
      else case update_threshold season threshold (cr_thresholds out) of
          Some rows \<Rightarrow> (out\<lparr>cr_thresholds := rows\<rparr>, True)
        | None \<Rightarrow> (out\<lparr>cr_thresholds := cr_thresholds out
                     @ [\<lparr>tr_season = season, tr_threshold = threshold\<rparr>]\<rparr>, True))"

section \<open>Reading the rules\<close>

record json_reader =
  jr_flag :: "string \<Rightarrow> string \<Rightarrow> int option"
  jr_int :: "string \<Rightarrow> string \<Rightarrow> int option"
  jr_span :: "string \<Rightarrow> string \<Rightarrow> string option"
  jr_skip_ws :: "string \<Rightarrow> string"

text \<open>
  The inner scan over one object: the number of characters up to and including the closing
  brace, \<open>None\<close> if the text ends first.
\<close>

fun object_scan :: "string \<Rightarrow> int \<Rightarrow> bool \<Rightarrow> bool \<Rightarrow> nat option" where
  "object_scan [] depth in_string escaped = None"
| "object_scan (ch # p) depth in_string escaped =
     map_option Suc
      (if in_string then
         (if escaped then object_scan p depth True False
          else if ch = CHR 0x5c then object_scan p depth True True
          else if ch = CHR 0x22 then object_scan p depth False False
          else object_scan p depth True False)
       else if ch = CHR 0x22 then object_scan p depth True escaped
       else if ch = CHR ''{'' then object_scan p (depth + 1) False escaped
       else if ch = CHR ''}'' then
         (if depth - 1 = 0 then Some 0 else object_scan p (depth - 1) False escaped)
       else object_scan p depth False escaped)"

lemma object_scan_bounds: "object_scan s depth in_string escaped = Some n \<Longrightarrow> 0 < n \<and> n \<le> length s"
  by (induction s depth in_string escaped arbitrary: n rule: object_scan.induct)
    (auto split: if_splits)

text \<open>The outer scan: the rows of the objects, at most 32.\<close>

function thresholds_scan :: "json_reader \<Rightarrow> string \<Rightarrow> threshold_row list \<Rightarrow> threshold_row list" where
  "thresholds_scan rd p parsed =
     (if p = [] \<or> length parsed \<ge> CBT_THRESHOLD_MAX then parsed
      else if hd p \<noteq> CHR ''{'' then thresholds_scan rd (tl p) parsed
      else case object_scan p 0 False False of
          None \<Rightarrow> parsed
        | Some n \<Rightarrow>
            let object = take n p
            in case (jr_int rd object ''season'', jr_int rd object ''threshold'') of
                 (Some season, Some threshold) \<Rightarrow>
                   thresholds_scan rd (drop n p)
                     (if season > 0 \<and> threshold > 0
                      then parsed @ [\<lparr>tr_season = word_of_int season, tr_threshold = threshold\<rparr>]
                      else parsed)
               | _ \<Rightarrow> thresholds_scan rd (drop n p) parsed)"
  by pat_completeness auto
termination
  by (relation "measure (\<lambda>(rd, p, parsed). length p)") (auto dest: object_scan_bounds)

declare thresholds_scan.simps [simp del]

definition kbo_cbt_rules_parse_thresholds :: "json_reader \<Rightarrow> string \<Rightarrow> cbt_rules \<Rightarrow> cbt_rules" where
  "kbo_cbt_rules_parse_thresholds rd json out =
     (case jr_span rd json ''thresholds'' of
        None \<Rightarrow> out
      | Some span \<Rightarrow>
          if span = [] then out
          else let array_start = jr_skip_ws rd span
               in if array_start = [] \<or> hd array_start \<noteq> CHR ''['' then out
                  else
                    let parsed = thresholds_scan rd span []
                    in if parsed = [] then out
                       else foldl (\<lambda>o' r. fst (kbo_cbt_rules_add_threshold (tr_season r) (tr_threshold r) o'))
                              (out\<lparr>cr_thresholds := []\<rparr>) parsed)"

text \<open>One scalar key: kept as it is unless the text has a value in the given range.\<close>

definition int_in :: "json_reader \<Rightarrow> string \<Rightarrow> string \<Rightarrow> int \<Rightarrow> int \<Rightarrow> u32 \<Rightarrow> u32" where
  "int_in rd json key lo hi old =
     (case jr_int rd json key of
        Some v \<Rightarrow> if lo \<le> v \<and> v \<le> hi then word_of_int v else old
      | None \<Rightarrow> old)"

definition kbo_cbt_rules_parse_json :: "json_reader \<Rightarrow> string \<Rightarrow> cbt_rules \<Rightarrow> cbt_rules" where
  "kbo_cbt_rules_parse_json rd json out =
     kbo_cbt_rules_parse_thresholds rd json
      (out\<lparr>cr_enabled := (case jr_flag rd json ''enabled'' of Some v \<Rightarrow> v \<noteq> 0 | None \<Rightarrow> cr_enabled out),
           cr_top_player_count := int_in rd json ''top_player_count'' 1 200 (cr_top_player_count out),
           cr_threshold_override :=
             (case jr_int rd json ''threshold_override'' of
                Some v \<Rightarrow> if v > 0 then v else cr_threshold_override out
              | None \<Rightarrow> cr_threshold_override out),
           cr_tax_rate_1 := int_in rd json ''tax_rate_1'' 1 1000 (cr_tax_rate_1 out),
           cr_tax_rate_2 := int_in rd json ''tax_rate_2'' 1 1000 (cr_tax_rate_2 out),
           cr_tax_rate_3plus := int_in rd json ''tax_rate_3plus'' 1 1000 (cr_tax_rate_3plus out),
           cr_annual_increase_pct := int_in rd json ''annual_increase_pct'' 0 100 (cr_annual_increase_pct out),
           cr_draft_penalty_min_consecutive :=
             int_in rd json ''draft_penalty_min_consecutive'' 1 10 (cr_draft_penalty_min_consecutive out),
           cr_draft_penalty_stages := int_in rd json ''draft_penalty_stages'' 1 100 (cr_draft_penalty_stages out),
           cr_exception_deadline_days_after_opening :=
             int_in rd json ''exception_deadline_days_after_opening'' 0 60
               (cr_exception_deadline_days_after_opening out),
           cr_announcement_days_after_opening :=
             int_in rd json ''announcement_days_after_opening'' 0 60 (cr_announcement_days_after_opening out),
           cr_event_scheduler_max_attempts :=
             int_in rd json ''event_scheduler_max_attempts'' 1 10000 (cr_event_scheduler_max_attempts out),
           cr_event_scheduler_sleep_ms :=
             int_in rd json ''event_scheduler_sleep_ms'' 100 600000 (cr_event_scheduler_sleep_ms out),
           cr_event_scheduler_log_attempts :=
             map (\<lambda>i. int_in rd json (''event_scheduler_log_attempt_'' @ show_nat (i + 1)) 1 10000
                        (cr_event_scheduler_log_attempts out ! i)) [0..<5]\<rparr>)"

text \<open>\<open>kbo_cbt_rules_load\<close>: the text of the rules file, if it could be opened and read.\<close>

definition kbo_cbt_rules_load :: "json_reader \<Rightarrow> string option \<Rightarrow> cbt_rules" where
  "kbo_cbt_rules_load rd file =
     (case file of
        None \<Rightarrow> kbo_cbt_rules_init_defaults
      | Some buf \<Rightarrow>
          if length buf = 0 \<or> length buf > 65536 then kbo_cbt_rules_init_defaults
          else kbo_cbt_rules_parse_json rd buf kbo_cbt_rules_init_defaults)"

section \<open>Thresholds and rates\<close>

text \<open>
  The scan of \<open>kbo_cbt_get_threshold\<close>: \<open>Inl\<close> the threshold of the season itself, or \<open>Inr\<close>
  the best earlier threshold and the last known season with its threshold.
\<close>

fun threshold_scan ::
    "u32 \<Rightarrow> threshold_row list \<Rightarrow> int \<Rightarrow> u32 \<Rightarrow> u32 \<Rightarrow> int \<Rightarrow> int + (int \<times> u32 \<times> int)" where
  "threshold_scan season [] best best_season last_known last_known_threshold =
     Inr (best, last_known, last_known_threshold)"
| "threshold_scan season (r # rs) best best_season last_known last_known_threshold =
     (if season = tr_season r then Inl (tr_threshold r)
      else
        let (best', best_season') =
              (if tr_season r \<le> season \<and> tr_season r \<ge> best_season
               then (tr_threshold r, tr_season r) else (best, best_season));
            (last_known', last_known_threshold') =
              (if tr_season r \<ge> last_known
               then (tr_season r, tr_threshold r) else (last_known, last_known_threshold))
        in threshold_scan season rs best' best_season' last_known' last_known_threshold')"

text \<open>One year of growth.\<close>

definition grow :: "u32 \<Rightarrow> int \<Rightarrow> int" where
  "grow pct val = i32 (val + i32 (c_div (val * sint pct) 100))"

definition kbo_cbt_get_threshold :: "cbt_rules \<Rightarrow> u32 \<Rightarrow> int" where
  "kbo_cbt_get_threshold rules season =
     (if cr_threshold_override rules > 0 then cr_threshold_override rules
      else case cr_thresholds rules of
          [] \<Rightarrow> 0
        | r0 # _ \<Rightarrow>
            (case threshold_scan season (cr_thresholds rules) (tr_threshold r0) 0 (tr_season r0) (tr_threshold r0) of
               Inl threshold \<Rightarrow> threshold
             | Inr (best, last_known, last_known_threshold) \<Rightarrow>
                 if season > last_known \<and> cr_annual_increase_pct rules > 0
                 then (grow (cr_annual_increase_pct rules) ^^ unat (season - last_known)) last_known_threshold
                 else best))"

definition kbo_cbt_get_tax_rate :: "cbt_rules \<Rightarrow> u32 \<Rightarrow> u32" where
  "kbo_cbt_get_tax_rate rules consecutive_count =
     (if consecutive_count = 0 then 0
      else if consecutive_count = 1 then cr_tax_rate_1 rules
      else if consecutive_count = 2 then cr_tax_rate_2 rules
      else cr_tax_rate_3plus rules)"

end
