(* ===== verification/CbtRulesProps.thy ===== *)
theory CbtRulesProps
  imports CbtRules
begin

text \<open>
  What loading guarantees of a rule set, and what the threshold lookup returns in every
  position of a season relative to the table.
\<close>

section \<open>The invariant of a loaded rule set\<close>

definition thresholds_ok :: "threshold_row list \<Rightarrow> bool" where
  "thresholds_ok rows \<longleftrightarrow> distinct (map tr_season rows) \<and> length rows \<le> CBT_THRESHOLD_MAX
     \<and> (\<forall>r \<in> set rows. tr_season r \<noteq> 0 \<and> 0 < tr_threshold r)"

definition rules_ok :: "cbt_rules \<Rightarrow> bool" where
  "rules_ok rules \<longleftrightarrow> thresholds_ok (cr_thresholds rules) \<and> 0 \<le> cr_threshold_override rules
     \<and> cr_top_player_count rules \<le> 200
     \<and> cr_tax_rate_1 rules \<le> 1000 \<and> cr_tax_rate_2 rules \<le> 1000 \<and> cr_tax_rate_3plus rules \<le> 1000
     \<and> cr_annual_increase_pct rules \<le> 100
     \<and> cr_draft_penalty_min_consecutive rules \<le> 10 \<and> cr_draft_penalty_stages rules \<le> 100
     \<and> cr_exception_deadline_days_after_opening rules \<le> 60
     \<and> cr_announcement_days_after_opening rules \<le> 60
     \<and> cr_event_scheduler_max_attempts rules \<le> 10000
     \<and> cr_event_scheduler_sleep_ms rules \<le> 600000
     \<and> length (cr_event_scheduler_log_attempts rules) = 5"

lemma update_threshold_None:
  "update_threshold s t rows = None \<longleftrightarrow> s \<notin> tr_season ` set rows"
  by (induction rows) auto

lemma update_threshold_Some:
  "update_threshold s t rows = Some rows' \<Longrightarrow>
     map tr_season rows' = map tr_season rows
     \<and> set rows' \<subseteq> insert \<lparr>tr_season = s, tr_threshold = t\<rparr> (set rows)"
proof (induction rows arbitrary: rows')
  case (Cons r rs)
  show ?case
  proof (cases "tr_season r = s")
    case True
    then have "r\<lparr>tr_threshold := t\<rparr> = \<lparr>tr_season = s, tr_threshold = t\<rparr>" by (cases r) simp
    then show ?thesis using True Cons.prems by auto
  next
    case False
    then show ?thesis using Cons by auto
  qed
qed simp

lemma add_threshold_ok:
  assumes "thresholds_ok (cr_thresholds out)"
  shows "thresholds_ok (cr_thresholds (fst (kbo_cbt_rules_add_threshold s t out)))"
proof (cases "s = 0 \<or> t \<le> 0 \<or> length (cr_thresholds out) \<ge> CBT_THRESHOLD_MAX")
  case True
  then show ?thesis using assms by (simp add: kbo_cbt_rules_add_threshold_def)
next
  case False
  show ?thesis
  proof (cases "update_threshold s t (cr_thresholds out)")
    case None
    then show ?thesis
      using False assms update_threshold_None [of s t "cr_thresholds out"]
      by (auto simp: kbo_cbt_rules_add_threshold_def thresholds_ok_def)
  next
    case (Some rows)
    note u = update_threshold_Some [OF Some]
    have "length rows = length (cr_thresholds out)" using u map_eq_imp_length_eq by blast
    moreover have "\<forall>r \<in> set rows. tr_season r \<noteq> 0 \<and> 0 < tr_threshold r"
      using u False assms by (fastforce simp: thresholds_ok_def)
    ultimately show ?thesis
      using Some False assms u by (simp add: kbo_cbt_rules_add_threshold_def thresholds_ok_def)
  qed
qed

definition scalars :: "cbt_rules \<Rightarrow> cbt_rules" where
  "scalars rules = rules\<lparr>cr_thresholds := []\<rparr>"

lemma add_threshold_scalars [simp]: "scalars (fst (kbo_cbt_rules_add_threshold s t out)) = scalars out"
  by (simp add: kbo_cbt_rules_add_threshold_def scalars_def split: option.splits)

lemma parse_thresholds_scalars [simp]:
  "scalars (kbo_cbt_rules_parse_thresholds rd json out) = scalars out"
proof -
  have "scalars (foldl (\<lambda>o' r. fst (kbo_cbt_rules_add_threshold (tr_season r) (tr_threshold r) o')) o0 rs)
      = scalars o0" for o0 and rs :: "threshold_row list"
    by (induction rs arbitrary: o0) simp_all
  then show ?thesis
    by (auto simp: kbo_cbt_rules_parse_thresholds_def Let_def scalars_def split: option.splits)
qed

lemma parse_thresholds_ok:
  assumes "thresholds_ok (cr_thresholds out)"
  shows "thresholds_ok (cr_thresholds (kbo_cbt_rules_parse_thresholds rd json out))"
proof -
  have "thresholds_ok (cr_thresholds (foldl (\<lambda>o' r. fst (kbo_cbt_rules_add_threshold (tr_season r)
      (tr_threshold r) o')) o0 rs))" if "thresholds_ok (cr_thresholds o0)"
    for o0 and rs :: "threshold_row list"
    using that by (induction rs arbitrary: o0) (simp_all add: add_threshold_ok)
  moreover have "thresholds_ok []" by (simp add: thresholds_ok_def)
  ultimately show ?thesis
    using assms by (auto simp: kbo_cbt_rules_parse_thresholds_def Let_def split: option.splits)
qed

lemma rules_ok_scalars:
  "rules_ok rules \<longleftrightarrow> thresholds_ok (cr_thresholds rules) \<and> rules_ok (scalars rules)"
  by (auto simp: rules_ok_def scalars_def thresholds_ok_def CBT_THRESHOLD_MAX_def)

lemma int_in_le:
  assumes "old \<le> bound" and "0 \<le> lo" and "hi = uint bound"
  shows "int_in rd json key lo hi old \<le> bound"
proof -
  have "(word_of_int v :: u32) \<le> bound" if "lo \<le> v" "v \<le> hi" for v
  proof -
    have "uint (word_of_int v :: u32) = v"
      using that assms(2,3) uint_bounded [of bound] by (simp add: uint_word_of_int)
    then show ?thesis using that assms(3) by (simp add: word_le_def)
  qed
  then show ?thesis using assms(1) by (auto simp: int_in_def split: option.splits)
qed

lemma parse_thresholds_rules_ok:
  "rules_ok out \<Longrightarrow> rules_ok (kbo_cbt_rules_parse_thresholds rd json out)"
  using rules_ok_scalars [of out] rules_ok_scalars [of "kbo_cbt_rules_parse_thresholds rd json out"]
    parse_thresholds_ok [of out rd json] by simp

lemma parse_json_ok: "rules_ok out \<Longrightarrow> rules_ok (kbo_cbt_rules_parse_json rd json out)"
  unfolding kbo_cbt_rules_parse_json_def
  by (rule parse_thresholds_rules_ok) (simp add: rules_ok_def int_in_le split: option.split)

text \<open>
  Whatever the rules file holds, a loaded rule set has at most 32 positive thresholds
  of distinct seasons and every other value within the limits the program relies on.
\<close>

theorem loaded_rules_in_range: "rules_ok (kbo_cbt_rules_load rd file)"
proof -
  have d: "rules_ok kbo_cbt_rules_init_defaults"
    by (simp add: rules_ok_def kbo_cbt_rules_init_defaults_def thresholds_ok_def)
  then show ?thesis
    by (simp add: kbo_cbt_rules_load_def parse_json_ok split: option.split)
qed

section \<open>The threshold lookup\<close>

lemma scan_own_season:
  assumes "distinct (map tr_season rows)" and "r \<in> set rows" and "tr_season r = season"
  shows "threshold_scan season rows best bs lk lkt = Inl (tr_threshold r)"
  using assms
proof (induction rows arbitrary: best bs lk lkt)
  case (Cons a rows)
  then show ?case by (cases "a = r") (auto simp: Let_def image_iff split: prod.splits)
qed simp

text \<open>What the scan accumulates when the season has no row of its own.\<close>

lemma scan_other_season:
  assumes "season \<notin> tr_season ` set rows"
  shows "\<exists>best' lk' lkt'. threshold_scan season rows best bs lk lkt = Inr (best', lk', lkt')
     \<and> (\<forall>r \<in> set rows. tr_season r \<le> lk') \<and> lk \<le> lk'
     \<and> ((lk', lkt') = (lk, lkt) \<or> (\<exists>r \<in> set rows. lk' = tr_season r \<and> lkt' = tr_threshold r))
     \<and> (best' = best \<and> (\<forall>r \<in> set rows. tr_season r < season \<longrightarrow> tr_season r < bs)
        \<or> (\<exists>r \<in> set rows. best' = tr_threshold r \<and> tr_season r < season \<and> bs \<le> tr_season r
             \<and> (\<forall>r' \<in> set rows. tr_season r' < season \<longrightarrow> tr_season r' \<le> tr_season r)))"
  using assms
proof (induction rows arbitrary: best bs lk lkt)
  case (Cons a rows)
  define b1 where "b1 = (if tr_season a \<le> season \<and> tr_season a \<ge> bs then (tr_threshold a, tr_season a) else (best, bs))"
  define l1 where "l1 = (if tr_season a \<ge> lk then (tr_season a, tr_threshold a) else (lk, lkt))"
  have s: "threshold_scan season (a # rows) best bs lk lkt
      = threshold_scan season rows (fst b1) (snd b1) (fst l1) (snd l1)"
    using Cons.prems by (auto simp: b1_def l1_def Let_def)
  have ne: "season \<noteq> tr_season a" "season \<notin> tr_season ` set rows" using Cons.prems by auto
  obtain best' lk' lkt' where ih: "threshold_scan season rows (fst b1) (snd b1) (fst l1) (snd l1) = Inr (best', lk', lkt')"
     "\<forall>r \<in> set rows. tr_season r \<le> lk'" "fst l1 \<le> lk'"
     "(lk', lkt') = l1 \<or> (\<exists>r \<in> set rows. lk' = tr_season r \<and> lkt' = tr_threshold r)"
     "best' = fst b1 \<and> (\<forall>r \<in> set rows. tr_season r < season \<longrightarrow> tr_season r < snd b1)
        \<or> (\<exists>r \<in> set rows. best' = tr_threshold r \<and> tr_season r < season \<and> snd b1 \<le> tr_season r
             \<and> (\<forall>r' \<in> set rows. tr_season r' < season \<longrightarrow> tr_season r' \<le> tr_season r))"
    using Cons.IH [OF ne(2), of "fst b1" "snd b1" "fst l1" "snd l1"] by auto
  have l: "\<forall>r \<in> set (a # rows). tr_season r \<le> lk'" "lk \<le> lk'"
     "((lk', lkt') = (lk, lkt) \<or> (\<exists>r \<in> set (a # rows). lk' = tr_season r \<and> lkt' = tr_threshold r))"
    using ih(2-4) by (auto simp: l1_def split: if_splits)
  have b: "best' = best \<and> (\<forall>r \<in> set (a # rows). tr_season r < season \<longrightarrow> tr_season r < bs)
        \<or> (\<exists>r \<in> set (a # rows). best' = tr_threshold r \<and> tr_season r < season \<and> bs \<le> tr_season r
             \<and> (\<forall>r' \<in> set (a # rows). tr_season r' < season \<longrightarrow> tr_season r' \<le> tr_season r))"
  proof (cases "tr_season a < season \<and> bs \<le> tr_season a")
    case True
    then have "b1 = (tr_threshold a, tr_season a)" by (auto simp: b1_def)
    then show ?thesis using ih(5) True by (fastforce intro: less_imp_le)
  next
    case False
    then have "b1 = (best, bs)" using ne(1) by (auto simp: b1_def)
    then show ?thesis using ih(5) False by fastforce
  qed
  show ?case
    unfolding s ih(1)
    by (rule exI [of _ best'], rule exI [of _ lk'], rule exI [of _ lkt']) (intro conjI refl l b)
qed simp

text \<open>
  The threshold of a season.  A season of the table has its own threshold.  After the
  last season of the table the last threshold grows by the yearly percentage, if there is
  one; between two seasons, and after the last one without growth, the latest earlier
  season counts; before the first season the first row of the table does.
\<close>

theorem threshold_of_any_season:
  assumes "cr_threshold_override rules \<le> 0" and "distinct (map tr_season (cr_thresholds rules))"
  defines "rows \<equiv> set (cr_thresholds rules)"
    and "grown \<equiv> \<lambda>r season. (grow (cr_annual_increase_pct rules) ^^ unat (season - tr_season r)) (tr_threshold r)"
  shows "(\<forall>r \<in> rows. kbo_cbt_get_threshold rules (tr_season r) = tr_threshold r)
     \<and> (\<forall>r \<in> rows. (\<forall>r' \<in> rows. tr_season r' \<le> tr_season r) \<longrightarrow> tr_season r < season \<longrightarrow>
          kbo_cbt_get_threshold rules season
            = (if cr_annual_increase_pct rules = 0 then tr_threshold r else grown r season))
     \<and> (\<forall>r \<in> rows. (\<forall>r' \<in> rows. tr_season r' < season \<longrightarrow> tr_season r' \<le> tr_season r) \<longrightarrow> tr_season r < season \<longrightarrow>
          season \<notin> tr_season ` rows \<longrightarrow> (\<exists>r' \<in> rows. season < tr_season r') \<longrightarrow>
          kbo_cbt_get_threshold rules season = tr_threshold r)
     \<and> ((\<forall>r \<in> rows. season < tr_season r) \<longrightarrow> rows \<noteq> {} \<longrightarrow>
          kbo_cbt_get_threshold rules season = tr_threshold (hd (cr_thresholds rules)))"
proof (cases "cr_thresholds rules")
  case Nil
  then show ?thesis by (simp add: rows_def)
next
  case (Cons r0 rest)
  have inj: "tr_season a = tr_season b \<Longrightarrow> a = b" if "a \<in> rows" "b \<in> rows" for a b
    using that assms(2) by (auto simp: rows_def distinct_map inj_on_def)
  have own: "kbo_cbt_get_threshold rules (tr_season r) = tr_threshold r" if "r \<in> rows" for r
    using scan_own_season [OF assms(2), of r "tr_season r"] that assms(1) Cons
    by (simp add: kbo_cbt_get_threshold_def rows_def)
  show ?thesis
  proof (cases "season \<in> tr_season ` rows")
    case True
    then show ?thesis using own by force
  next
    case False
    obtain best' lk' lkt' where sc: "threshold_scan season (cr_thresholds rules) (tr_threshold r0) 0 (tr_season r0)
          (tr_threshold r0) = Inr (best', lk', lkt')"
      and lk: "\<forall>r \<in> rows. tr_season r \<le> lk'"
        "(lk', lkt') = (tr_season r0, tr_threshold r0) \<or> (\<exists>r \<in> rows. lk' = tr_season r \<and> lkt' = tr_threshold r)"
      and best: "best' = tr_threshold r0 \<and> (\<forall>r \<in> rows. tr_season r < season \<longrightarrow> tr_season r < 0)
        \<or> (\<exists>r \<in> rows. best' = tr_threshold r \<and> tr_season r < season \<and> 0 \<le> tr_season r
             \<and> (\<forall>r' \<in> rows. tr_season r' < season \<longrightarrow> tr_season r' \<le> tr_season r))"
      using scan_other_season [of season "cr_thresholds rules" "tr_threshold r0" 0 "tr_season r0" "tr_threshold r0"]
        False unfolding rows_def by auto
    have val: "kbo_cbt_get_threshold rules season =
        (if season > lk' \<and> cr_annual_increase_pct rules > 0
         then (grow (cr_annual_increase_pct rules) ^^ unat (season - lk')) lkt' else best')"
      using assms(1) Cons sc by (simp add: kbo_cbt_get_threshold_def)
    have r0: "r0 \<in> rows" using Cons by (simp add: rows_def)
    then obtain rl where rl: "rl \<in> rows" "lk' = tr_season rl" "lkt' = tr_threshold rl" using lk(2) by auto
    have latest: "best' = tr_threshold r" if "r \<in> rows" "tr_season r < season"
        "\<forall>r' \<in> rows. tr_season r' < season \<longrightarrow> tr_season r' \<le> tr_season r" for r
      using best that inj by (metis antisym not_less_zero word_not_simps(1))
    have last: "r = rl" if "r \<in> rows" "\<forall>r' \<in> rows. tr_season r' \<le> tr_season r" for r
      using that rl lk(1) inj by (metis antisym)
    have first: "best' = tr_threshold r0" if "\<forall>r \<in> rows. season < tr_season r"
      using best that by (metis less_asym)
    have "kbo_cbt_get_threshold rules season
            = (if cr_annual_increase_pct rules = 0 then tr_threshold r else grown r season)"
      if "r \<in> rows" "\<forall>r' \<in> rows. tr_season r' \<le> tr_season r" "tr_season r < season" for r
      using val last [OF that(1,2)] latest [OF that(1,3)] that rl by (auto simp: grown_def word_gt_0)
    moreover have "\<not> season > lk'" if "r' \<in> rows" "season < tr_season r'" for r'
      using that lk(1) by (meson less_le_trans less_asym)
    ultimately show ?thesis
      using own val latest first False Cons r0 by (auto simp: less_imp_le)
  qed
qed

definition demo_rules :: cbt_rules where
  "demo_rules = kbo_cbt_rules_init_defaults\<lparr>cr_annual_increase_pct := 5, cr_top_player_count := 2,
     cr_tax_rate_1 := 50, cr_tax_rate_2 := 100, cr_tax_rate_3plus := 150,
     cr_draft_penalty_min_consecutive := 2, cr_draft_penalty_stages := 9,
     cr_thresholds := [\<lparr>tr_season = 2024, tr_threshold = 1000\<rparr>, \<lparr>tr_season = 2026, tr_threshold = 1200\<rparr>]\<rparr>"

theorem threshold_of_any_season_witness:
  "kbo_cbt_get_threshold demo_rules 2026 = 1200 \<and> kbo_cbt_get_threshold demo_rules 2027 = 1260
   \<and> kbo_cbt_get_threshold demo_rules 2025 = 1000 \<and> kbo_cbt_get_threshold demo_rules 2020 = 1000"
proof -
  have o: "cr_threshold_override demo_rules \<le> 0" "distinct (map tr_season (cr_thresholds demo_rules))"
    by (simp_all add: demo_rules_def kbo_cbt_rules_init_defaults_def)
  have g: "grow 5 1200 = 1260" by code_simp
  note t = threshold_of_any_season [OF o]
  show ?thesis
    using t [of 2026] t [of 2027] t [of 2025] t [of 2020] g
    by (simp add: demo_rules_def kbo_cbt_rules_init_defaults_def)
qed

end
