(* ===== verification/KeyedTable.thy ===== *)
theory KeyedTable
  imports KboPrelude
begin

text \<open>
  Tables: arrays of rows searched from the front by a key, as the stores of the program keep
  them.  \<open>first_index\<close> is the search loop; \<open>row_map\<close> reads a table as a partial function from
  keys to rows, the abstract value the table stands for when no key occurs twice.
\<close>

section \<open>The search loop\<close>

fun first_index :: "('a \<Rightarrow> bool) \<Rightarrow> 'a list \<Rightarrow> nat option" where
  "first_index P [] = None"
| "first_index P (x # xs) = (if P x then Some 0 else map_option Suc (first_index P xs))"

lemma first_index_None: "first_index P xs = None \<longleftrightarrow> (\<forall>x \<in> set xs. \<not> P x)"
  by (induction xs) auto

lemma first_index_Some:
  "first_index P xs = Some i \<Longrightarrow> i < length xs \<and> P (xs ! i) \<and> (\<forall>j < i. \<not> P (xs ! j))"
proof (induction xs arbitrary: i)
  case (Cons x xs)
  then show ?case by (auto split: if_splits simp: nth_Cons' less_Suc_eq_0_disj)
qed simp

lemma first_index_append:
  "first_index P (xs @ ys) = (case first_index P xs of Some i \<Rightarrow> Some i
     | None \<Rightarrow> map_option ((+) (length xs)) (first_index P ys))"
proof (induction xs)
  case Nil
  have "(+) 0 = (id :: nat \<Rightarrow> nat)" by (rule ext) simp
  then show ?case by (simp add: option.map_id)
next
  case (Cons x xs)
  then show ?case by (cases "first_index P ys") (auto split: option.splits)
qed

lemma first_index_update:
  "i < length xs \<Longrightarrow> (P v \<longleftrightarrow> P (xs ! i)) \<Longrightarrow> first_index P (xs[i := v]) = first_index P xs"
  by (induction xs arbitrary: i) (auto split: nat.splits)

section \<open>A table as a map\<close>

definition row_map :: "('r \<Rightarrow> 'k) \<Rightarrow> 'r list \<Rightarrow> ('k \<rightharpoonup> 'r)" where
  "row_map key rows = map_of (map (\<lambda>r. (key r, r)) rows)"

lemma row_map_Nil [simp]: "row_map key [] = Map.empty"
  by (simp add: row_map_def)

lemma row_map_Cons [simp]: "row_map key (r # rows) = (row_map key rows)(key r \<mapsto> r)"
  by (simp add: row_map_def)

lemma row_map_append: "row_map key (rows @ rows') = row_map key rows' ++ row_map key rows"
  by (simp add: row_map_def)

lemma row_map_SomeD: "row_map key rows k = Some r \<Longrightarrow> r \<in> set rows \<and> key r = k"
  by (induction rows) (auto split: if_splits)

lemma row_map_None: "row_map key rows k = None \<longleftrightarrow> k \<notin> key ` set rows"
  by (induction rows) auto

lemma row_map_iff:
  "distinct (map key rows) \<Longrightarrow> row_map key rows k = Some r \<longleftrightarrow> r \<in> set rows \<and> key r = k"
  by (auto simp: row_map_def map_of_eq_Some_iff o_def)

lemma option_eqI: "(\<And>x. a = Some x \<longleftrightarrow> b = Some x) \<Longrightarrow> a = b"
  by (metis option.exhaust)

lemma row_map_snoc:
  "key r \<notin> key ` set rows \<Longrightarrow> row_map key (rows @ [r]) = (row_map key rows)(key r \<mapsto> r)"
  by (rule ext) (auto simp: row_map_append map_add_def row_map_None [THEN iffD2] split: option.split)

lemma keys_update: "key r = key (rows ! i) \<Longrightarrow> map key (rows[i := r]) = map key rows"
  by (metis list_update_id map_update)

lemma row_map_update:
  assumes "distinct (map key rows)" and "i < length rows" and "key r = key (rows ! i)"
  shows "row_map key (rows[i := r]) = (row_map key rows)(key r \<mapsto> r)"
proof (rule ext)
  fix k
  have d: "distinct (map key (rows[i := r]))" using assms by (simp only: keys_update)
  have s: "set (rows[i := r]) = insert r (set rows - {rows ! i})"
    using assms by (intro set_update_distinct) (auto simp: distinct_map)
  show "row_map key (rows[i := r]) k = ((row_map key rows)(key r \<mapsto> r)) k"
  proof (cases "k = key r")
    case True
    have "r \<in> set (rows[i := r])" using s by simp
    then show ?thesis using True row_map_iff [OF d, of k r] by simp
  next
    case False
    have "row_map key (rows[i := r]) k = row_map key rows k"
    proof (rule option_eqI)
      fix x
      show "row_map key (rows[i := r]) k = Some x \<longleftrightarrow> row_map key rows k = Some x"
        unfolding row_map_iff [OF d] row_map_iff [OF assms(1)] s using False assms(3) by auto
    qed
    then show ?thesis using False by simp
  qed
qed

lemma row_map_filter:
  assumes "distinct (map key rows)"
  shows "row_map key (filter P rows) k =
     (case row_map key rows k of None \<Rightarrow> None | Some r \<Rightarrow> if P r then Some r else None)"
proof -
  have d: "distinct (map key (filter P rows))" using assms by (rule distinct_map_filter)
  have "row_map key (filter P rows) k = Some x \<longleftrightarrow> row_map key rows k = Some x \<and> P x" for x
    unfolding row_map_iff [OF d] row_map_iff [OF assms] by auto
  then show ?thesis by (intro option_eqI) (auto split: option.splits)
qed

lemma row_map_perm:
  assumes "distinct (map key rows)" and "mset rows' = mset rows"
  shows "row_map key rows' = row_map key rows"
proof (rule ext)
  fix k
  have "mset (map key rows') = mset (map key rows)" using assms(2) by simp
  then have d: "distinct (map key rows')" using assms(1) by (metis mset_eq_imp_distinct_iff)
  have s: "set rows' = set rows" using assms(2) by (metis set_mset_mset)
  have "row_map key rows' k = Some x \<longleftrightarrow> row_map key rows k = Some x" for x
    unfolding row_map_iff [OF d] row_map_iff [OF assms(1)] s ..
  then show "row_map key rows' k = row_map key rows k" by (intro option_eqI) simp
qed

section \<open>Insert or update\<close>

text \<open>The row with the key of \<open>r\<close> is replaced, or \<open>r\<close> is appended if there is room.\<close>

definition upsert :: "('r \<Rightarrow> 'k) \<Rightarrow> nat \<Rightarrow> 'r \<Rightarrow> 'r list \<Rightarrow> 'r list option" where
  "upsert key capacity r rows =
     (case first_index (\<lambda>x. key x = key r) rows of
        Some i \<Rightarrow> Some (rows[i := r])
      | None \<Rightarrow> if length rows < capacity then Some (rows @ [r]) else None)"

lemma upsert_Some:
  assumes "upsert key capacity r rows = Some rows'" and "distinct (map key rows)" and "length rows \<le> capacity"
  shows "row_map key rows' = (row_map key rows)(key r \<mapsto> r)" and "distinct (map key rows')"
    and "length rows' \<le> capacity" and "set rows' \<subseteq> insert r (set rows)"
proof -
  have "row_map key rows' = (row_map key rows)(key r \<mapsto> r) \<and> distinct (map key rows')
     \<and> length rows' \<le> capacity \<and> set rows' \<subseteq> insert r (set rows)"
  proof (cases "first_index (\<lambda>x. key x = key r) rows")
    case None
    then have "key r \<notin> key ` set rows" by (auto simp: first_index_None image_iff)
    moreover have "rows' = rows @ [r] \<and> length rows < capacity"
      using assms(1) None by (simp add: upsert_def split: if_splits)
    ultimately show ?thesis using assms(2) by (auto simp: row_map_snoc)
  next
    case (Some i)
    note f = first_index_Some [OF Some]
    have i: "i < length rows" "key r = key (rows ! i)" using f by simp_all
    have "rows' = rows[i := r]" using assms(1) Some by (simp add: upsert_def)
    then show ?thesis
      using row_map_update [OF assms(2) i] keys_update [OF i(2)] assms(2,3) set_update_subset_insert [of rows i r] by simp
  qed
  then show "row_map key rows' = (row_map key rows)(key r \<mapsto> r)" "distinct (map key rows')"
    "length rows' \<le> capacity" "set rows' \<subseteq> insert r (set rows)" by simp_all
qed

lemma upsert_None:
  "upsert key capacity r rows = None \<longleftrightarrow> key r \<notin> key ` set rows \<and> capacity \<le> length rows"
proof (cases "first_index (\<lambda>x. key x = key r) rows")
  case None
  then have "key r \<notin> key ` set rows" by (auto simp: first_index_None image_iff)
  then show ?thesis using None by (simp add: upsert_def not_less)
next
  case (Some i)
  then have "rows ! i \<in> set rows" "key (rows ! i) = key r" using first_index_Some [OF Some] by simp_all
  then have "key r \<in> key ` set rows" by (metis imageI)
  then show ?thesis using Some by (simp add: upsert_def)
qed

end
