(* ===== verification/CbtPayroll.thy ===== *)
theory CbtPayroll
  imports KeyedTable
begin

text \<open>
  Team payrolls of the competitive balance tax:
  \<open>native/src/competitive_balance_tax/process/payroll/cbt_payroll_compute.c\<close>, with the
  lookup and the bookkeeping of exception designations in \<open>exceptions/cbt_exceptions.c\<close>.

  A salary row carries the fields of \<open>KboFaSalarySnapshotGrade\<close> that the code reads; a team
  payroll is \<open>KboCbtTeamPayroll\<close> with the used part of its salary array as a list.  The
  designations live in a database; its rows are a list here.
\<close>

section \<open>Data\<close>

record salary_grade =
  sg_ranking_team_id :: u32
  sg_foreign_flag :: bool
  sg_salary :: int
  sg_player_key :: string
  sg_player_name :: string

record exception_designation =
  ed_season :: u32
  ed_team_id :: u32
  ed_player_key :: string
  ed_player_name :: string

record team_payroll =
  tp_team_id :: u32
  tp_domestic_salaries :: "int list"
  tp_top_n_sum :: int
  tp_exception_credit :: int

definition CBT_TEAM_MAX :: nat where "CBT_TEAM_MAX = 32"
definition CBT_SALARY_SCRATCH_MAX :: u32 where "CBT_SALARY_SCRATCH_MAX = 200"
definition CBT_EXCEPTION_MAX :: nat where "CBT_EXCEPTION_MAX = 64"

section \<open>Exception designations\<close>

definition kbo_cbt_exception_find_designation ::
    "exception_designation list \<Rightarrow> u32 \<Rightarrow> u32 \<Rightarrow> string \<Rightarrow> nat option" where
  "kbo_cbt_exception_find_designation rows season team_id player_key =
     (if season = 0 \<or> team_id = 0 \<or> player_key = [] then None
      else first_index (\<lambda>r. ed_season r = season \<and> ed_team_id r = team_id
                          \<and> stricmp_equal (ed_player_key r) player_key) rows)"

text \<open>
  Saving: the designations after the write, or \<open>None\<close> when it is refused.  Eligibility is
  seven seasons with the team, a query of the player history.
\<close>

definition kbo_cbt_exception_save_designation ::
    "(u32 \<Rightarrow> string \<Rightarrow> int option) \<Rightarrow> u32 \<Rightarrow> u32 \<Rightarrow> string \<Rightarrow> string \<Rightarrow> exception_designation list
       \<Rightarrow> exception_designation list option" where
  "kbo_cbt_exception_save_designation team_seasons season team_id player_key player_name rows =
     (if season < 1982 \<or> season > 2200 \<or> team_id = 0 \<or> player_key = [] then None
      else if \<not> (case team_seasons team_id player_key of None \<Rightarrow> False | Some n \<Rightarrow> n \<ge> 7) then None
      else
        let row = \<lparr>ed_season = season, ed_team_id = team_id,
                   ed_player_key = strbuf 64 player_key, ed_player_name = strbuf 96 player_name\<rparr>
        in case first_index (\<lambda>r. ed_season r = season \<and> ed_team_id r = team_id) rows of
             Some slot \<Rightarrow> Some (rows[slot := row])
           | None \<Rightarrow> if length rows \<ge> CBT_EXCEPTION_MAX then None else Some (rows @ [row]))"

definition kbo_cbt_exception_clear_designation ::
    "u32 \<Rightarrow> u32 \<Rightarrow> exception_designation list \<Rightarrow> exception_designation list" where
  "kbo_cbt_exception_clear_designation season team_id rows =
     filter (\<lambda>r. \<not> (ed_season r = season \<and> ed_team_id r = team_id)) rows"

section \<open>Payroll\<close>

definition kbo_cbt_find_team :: "team_payroll list \<Rightarrow> u32 \<Rightarrow> nat option" where
  "kbo_cbt_find_team teams team_id = first_index (\<lambda>t. tp_team_id t = team_id) teams"

definition kbo_cbt_effective_top_n :: "u32 \<Rightarrow> u32" where
  "kbo_cbt_effective_top_n top_n =
     (if top_n = 0 then 1
      else if top_n > CBT_SALARY_SCRATCH_MAX then CBT_SALARY_SCRATCH_MAX else top_n)"

text \<open>The loop for the first smallest salary: index, minimum and position so far.\<close>

fun min_scan :: "int list \<Rightarrow> nat \<Rightarrow> nat \<Rightarrow> int \<Rightarrow> nat \<times> int" where
  "min_scan [] i min_index min_salary = (min_index, min_salary)"
| "min_scan (s # ss) i min_index min_salary =
     (if s < min_salary then min_scan ss (Suc i) i s else min_scan ss (Suc i) min_index min_salary)"

definition kbo_cbt_track_top_salary :: "int \<Rightarrow> u32 \<Rightarrow> int list \<Rightarrow> int list" where
  "kbo_cbt_track_top_salary salary top_n salaries =
     (if salary \<le> 0 then salaries
      else if int (length salaries) < sint top_n then salaries @ [salary]
      else
        let (min_index, min_salary) = min_scan (tl salaries) 1 0 (hd salaries)
        in if salary > min_salary then salaries[min_index := salary] else salaries)"

text \<open>The adjusted salary and the credit.\<close>

definition kbo_cbt_adjust_salary_for_exception ::
    "exception_designation list \<Rightarrow> u32 \<Rightarrow> salary_grade \<Rightarrow> int \<times> int" where
  "kbo_cbt_adjust_salary_for_exception exceptions season grade =
     (if sg_salary grade \<le> 0 \<or> sg_player_key grade = [] then (sg_salary grade, 0)
      else case kbo_cbt_exception_find_designation exceptions season
                  (sg_ranking_team_id grade) (sg_player_key grade) of
          None \<Rightarrow> (sg_salary grade, 0)
        | Some _ \<Rightarrow> let credit = c_div (sg_salary grade) 2 in (sg_salary grade - credit, credit))"

definition new_team :: "u32 \<Rightarrow> team_payroll" where
  "new_team team_id = \<lparr>tp_team_id = team_id, tp_domestic_salaries = [], tp_top_n_sum = 0,
     tp_exception_credit = 0\<rparr>"

definition payroll_step ::
    "u32 \<Rightarrow> exception_designation list \<Rightarrow> u32 \<Rightarrow> team_payroll list \<Rightarrow> salary_grade \<Rightarrow> team_payroll list" where
  "payroll_step season exceptions top_n teams g =
     (if sg_ranking_team_id g = 0 \<or> sg_foreign_flag g \<or> sg_salary g \<le> 0 then teams
      else
        let found = kbo_cbt_find_team teams (sg_ranking_team_id g)
        in if found = None \<and> length teams \<ge> CBT_TEAM_MAX then teams
           else
             let (ti, teams1) =
                   (case found of
                      Some ti \<Rightarrow> (ti, teams)
                    | None \<Rightarrow> (length teams, teams @ [new_team (sg_ranking_team_id g)]));
                 tp = teams1 ! ti;
                 (adjusted_salary, exception_credit) = kbo_cbt_adjust_salary_for_exception exceptions season g
             in teams1[ti := tp\<lparr>tp_exception_credit := i32 (tp_exception_credit tp + exception_credit),
                  tp_domestic_salaries :=
                    kbo_cbt_track_top_salary adjusted_salary top_n (tp_domestic_salaries tp)\<rparr>])"

definition payroll_sum :: "int list \<Rightarrow> int" where
  "payroll_sum salaries = foldl (\<lambda>sum s. i32 (sum + s)) 0 salaries"

definition kbo_cbt_compute_team_payrolls ::
    "salary_grade list \<Rightarrow> u32 \<Rightarrow> exception_designation list \<Rightarrow> u32 \<Rightarrow> team_payroll list" where
  "kbo_cbt_compute_team_payrolls grades season exceptions top_n =
     map (\<lambda>tp. tp\<lparr>tp_top_n_sum := payroll_sum (tp_domestic_salaries tp)\<rparr>)
       (foldl (payroll_step season exceptions (kbo_cbt_effective_top_n top_n)) [] grades)"

end
