(* ===== verification/CbtPayrollProps.thy ===== *)
theory CbtPayrollProps
  imports CbtPayroll
begin

text \<open>
  The payroll of a team is the sum of its highest adjusted domestic salaries: the tracking
  keeps a multiset of the \<open>n\<close> largest, for every team of the table.
\<close>

section \<open>Keeping the largest\<close>

definition keeps_top :: "nat \<Rightarrow> int multiset \<Rightarrow> int multiset \<Rightarrow> bool" where
  "keeps_top n S K \<longleftrightarrow> K \<subseteq># S \<and> size K = min n (size S) \<and> (\<forall>x \<in># K. \<forall>y \<in># S - K. y \<le> x)"

lemma keeps_top_empty [simp]: "keeps_top n {#} {#}"
  by (simp add: keeps_top_def)

lemma min_scan_spec:
  assumes "ks = pre @ ss" and "mi < length pre" and "ks ! mi = ms" and "\<forall>x \<in> set pre. ms \<le> x"
  shows "fst (min_scan ss (length pre) mi ms) < length ks
     \<and> ks ! fst (min_scan ss (length pre) mi ms) = snd (min_scan ss (length pre) mi ms)
     \<and> (\<forall>x \<in> set ks. snd (min_scan ss (length pre) mi ms) \<le> x)"
  using assms
proof (induction ss arbitrary: pre mi ms)
  case (Cons s ss)
  have pre': "ks = (pre @ [s]) @ ss" "length (pre @ [s]) = Suc (length pre)" "ks ! length pre = s"
    using Cons.prems(1) by auto
  show ?case
  proof (cases "s < ms")
    case True
    have "\<forall>x \<in> set (pre @ [s]). s \<le> x" using Cons.prems(4) True by fastforce
    from Cons.IH [OF pre'(1) _ pre'(3) this] show ?thesis using True pre'(2) by simp
  next
    case False
    have "mi < length (pre @ [s])" "\<forall>x \<in> set (pre @ [s]). ms \<le> x" using Cons.prems False by auto
    from Cons.IH [OF pre'(1) this(1) Cons.prems(3) this(2)] show ?thesis using False pre'(2) by simp
  qed
qed auto

lemma mset_replace:
  assumes "i < length ks"
  shows "mset (ks[i := v]) = add_mset v (mset ks - {#ks ! i#})"
  using assms by (simp add: mset_update)

lemma keeps_top_add:
  assumes "keeps_top n S (mset ks)" and "n = nat (sint top_n)" and "0 < sint top_n" and "0 < v"
  shows "keeps_top n (add_mset v S) (mset (kbo_cbt_track_top_salary v top_n ks))"
proof -
  obtain D where D: "S = mset ks + D"
    using assms(1) by (auto simp: keeps_top_def mset_subset_eq_exists_conv)
  have size_ks: "length ks = min n (length ks + size D)" and above: "\<forall>x \<in> set ks. \<forall>y \<in># D. y \<le> x"
    using assms(1) by (auto simp: keeps_top_def D)
  show ?thesis
  proof (cases "length ks < n")
    case True
    then have "D = {#}" using size_ks by (simp add: min_def split: if_splits)
    then show ?thesis
      using True assms(2-4) by (auto simp: keeps_top_def kbo_cbt_track_top_salary_def D)
  next
    case False
    then have len: "length ks = n" using size_ks by simp
    then obtain k ks' where ks: "ks = k # ks'" using assms(2,3) by (cases ks) auto
    define mi where "mi = fst (min_scan (tl ks) 1 0 (hd ks))"
    define ms where "ms = snd (min_scan (tl ks) 1 0 (hd ks))"
    have m: "mi < length ks" "ks ! mi = ms" "\<forall>x \<in> set ks. ms \<le> x"
      using min_scan_spec [of ks "[k]" ks' 0 k] ks by (auto simp: mi_def ms_def)
    obtain R where R: "mset ks = add_mset ms R"
      using m(1,2) by (metis mset_add nth_mem set_mset_mset)
    have sets: "set ks = insert ms (set_mset R)" using R by (metis set_mset_add_mset_insert set_mset_mset)
    have track: "kbo_cbt_track_top_salary v top_n ks = (if v > ms then ks[mi := v] else ks)"
      using len assms(2-4) by (simp add: kbo_cbt_track_top_salary_def mi_def ms_def split_beta)
    show ?thesis
    proof (cases "v > ms")
      case True
      have K: "mset (ks[mi := v]) = add_mset v R" using mset_replace [OF m(1), of v] m(2) R by simp
      have "\<forall>x \<in># add_mset v R. \<forall>y \<in># add_mset ms D. y \<le> x"
        using True above m(3) sets by force
      moreover have "add_mset v S - add_mset v R = add_mset ms D" by (simp add: D R)
      moreover have "add_mset v R \<subseteq># add_mset v S" by (simp add: D R)
      moreover have "size (add_mset v R) = min n (size (add_mset v S))"
        using len R by (metis D min.absorb1 mset_update K length_list_update size_mset le_add1 size_union
            size_add_mset le_SucI)
      ultimately show ?thesis using True unfolding track keeps_top_def by (simp add: K)
    next
      case False
      have "\<forall>x \<in># mset ks. \<forall>y \<in># add_mset v D. y \<le> x" using False above m(3) by force
      moreover have "add_mset v S - mset ks = add_mset v D" by (simp add: D)
      moreover have "mset ks \<subseteq># add_mset v S" by (simp add: D subset_mset.add_increasing2)
      ultimately show ?thesis using False len unfolding track keeps_top_def by (simp add: D)
    qed
  qed
qed

section \<open>The table of teams\<close>

definition counts_for :: "u32 \<Rightarrow> salary_grade \<Rightarrow> bool" where
  "counts_for t g \<longleftrightarrow> sg_ranking_team_id g = t \<and> t \<noteq> 0 \<and> \<not> sg_foreign_flag g \<and> 0 < sg_salary g"

text \<open>The adjusted domestic salaries and the credits of a team, in the order of the rows.\<close>

definition team_adjusted ::
    "u32 \<Rightarrow> exception_designation list \<Rightarrow> u32 \<Rightarrow> salary_grade list \<Rightarrow> (int \<times> int) list" where
  "team_adjusted season exceptions t grades =
     map (kbo_cbt_adjust_salary_for_exception exceptions season) (filter (counts_for t) grades)"

lemma team_adjusted_snoc:
  "team_adjusted season ex t (gs @ [g]) =
     (if counts_for t g then team_adjusted season ex t gs @ [kbo_cbt_adjust_salary_for_exception ex season g]
      else team_adjusted season ex t gs)"
  by (simp add: team_adjusted_def)

lemma adjusted_positive:
  "0 < sg_salary g \<Longrightarrow> 0 < fst (kbo_cbt_adjust_salary_for_exception ex season g)"
  by (auto simp: kbo_cbt_adjust_salary_for_exception_def Let_def c_div_nonneg split: option.splits)

lemma i32_add: "i32 (i32 a + b) = i32 (a + b)"
  by (simp add: i32_def mod_simps algebra_simps)

lemma payroll_sum_total: "payroll_sum ss = i32 (sum_list ss)"
proof -
  have "foldl (\<lambda>sum s. i32 (sum + s)) (i32 a) ss = i32 (a + sum_list ss)" for a
    by (induction ss arbitrary: a) (simp_all add: i32_add add.assoc)
  from this [of 0] show ?thesis by (simp add: payroll_sum_def)
qed

text \<open>One team of the table is right for the rows processed so far.\<close>

definition team_ok ::
    "nat \<Rightarrow> u32 \<Rightarrow> exception_designation list \<Rightarrow> salary_grade list \<Rightarrow> team_payroll \<Rightarrow> bool" where
  "team_ok n season ex gs tp \<longleftrightarrow> tp_team_id tp \<noteq> 0
     \<and> keeps_top n (mset (map fst (team_adjusted season ex (tp_team_id tp) gs))) (mset (tp_domestic_salaries tp))
     \<and> tp_exception_credit tp = i32 (sum_list (map snd (team_adjusted season ex (tp_team_id tp) gs)))"

definition table_ok ::
    "nat \<Rightarrow> u32 \<Rightarrow> exception_designation list \<Rightarrow> salary_grade list \<Rightarrow> team_payroll list \<Rightarrow> bool" where
  "table_ok n season ex gs teams \<longleftrightarrow> distinct (map tp_team_id teams) \<and> length teams \<le> CBT_TEAM_MAX
     \<and> (\<forall>tp \<in> set teams. team_ok n season ex gs tp)
     \<and> (\<forall>g \<in> set gs. counts_for (sg_ranking_team_id g) g \<longrightarrow>
          sg_ranking_team_id g \<in> tp_team_id ` set teams \<or> length teams = CBT_TEAM_MAX)"

lemma team_ok_other:
  "team_ok n season ex gs tp \<Longrightarrow> \<not> counts_for (tp_team_id tp) g \<Longrightarrow> team_ok n season ex (gs @ [g]) tp"
  by (simp add: team_ok_def team_adjusted_snoc)

lemma team_ok_add:
  assumes "team_ok n season ex gs tp" and "counts_for (tp_team_id tp) g"
    and "n = nat (sint top_n)" and "0 < sint top_n"
    and "kbo_cbt_adjust_salary_for_exception ex season g = (adj, credit)"
  shows "team_ok n season ex (gs @ [g])
     (tp\<lparr>tp_exception_credit := i32 (tp_exception_credit tp + credit),
         tp_domestic_salaries := kbo_cbt_track_top_salary adj top_n (tp_domestic_salaries tp)\<rparr>)"
proof -
  have "0 < adj" using adjusted_positive [of g ex season] assms(2,5) by (simp add: counts_for_def)
  then show ?thesis
    using assms keeps_top_add [OF _ assms(3,4) \<open>0 < adj\<close>]
    by (simp add: team_ok_def team_adjusted_snoc i32_add)
qed

lemma table_ok_step:
  assumes ok: "table_ok n season ex gs teams" and n: "n = nat (sint top_n)" "0 < sint top_n"
  shows "table_ok n season ex (gs @ [g]) (payroll_step season ex top_n teams g)"
proof (cases "counts_for (sg_ranking_team_id g) g")
  case False
  then have "payroll_step season ex top_n teams g = teams"
    by (auto simp: payroll_step_def counts_for_def)
  moreover have "\<not> counts_for t g" for t using False by (auto simp: counts_for_def)
  ultimately show ?thesis using ok False team_ok_other by (auto simp: table_ok_def)
next
  case True
  let ?t = "sg_ranking_team_id g"
  obtain adj credit where adj: "kbo_cbt_adjust_salary_for_exception ex season g = (adj, credit)"
    by (cases "kbo_cbt_adjust_salary_for_exception ex season g") auto
  define upd where "upd = (\<lambda>tp :: team_payroll. tp\<lparr>tp_exception_credit := i32 (tp_exception_credit tp + credit),
      tp_domestic_salaries := kbo_cbt_track_top_salary adj top_n (tp_domestic_salaries tp)\<rparr>)"
  have other: "\<not> counts_for t g" if "t \<noteq> ?t" for t using that by (simp add: counts_for_def)
  have upd_id: "tp_team_id (upd tp) = tp_team_id tp" for tp by (simp add: upd_def)
  have place: "table_ok n season ex (gs @ [g]) (teams1[ti := upd (teams1 ! ti)])"
    if t1: "distinct (map tp_team_id teams1)" "length teams1 \<le> CBT_TEAM_MAX"
      "\<forall>tp \<in> set teams1. team_ok n season ex gs tp" "ti < length teams1" "tp_team_id (teams1 ! ti) = ?t"
      "\<forall>g \<in> set gs. counts_for (sg_ranking_team_id g) g \<longrightarrow>
          sg_ranking_team_id g \<in> tp_team_id ` set teams1 \<or> length teams1 = CBT_TEAM_MAX" for teams1 ti
  proof -
    have ids: "map tp_team_id (teams1[ti := upd (teams1 ! ti)]) = map tp_team_id teams1"
      using t1(4) by (simp add: map_update upd_id list_update_same_conv)
    then have idset: "tp_team_id ` set (teams1[ti := upd (teams1 ! ti)]) = tp_team_id ` set teams1"
      by (metis set_map)
    have "team_ok n season ex (gs @ [g]) ((teams1[ti := upd (teams1 ! ti)]) ! j)" if j: "j < length teams1" for j
    proof (cases "j = ti")
      case True
      then show ?thesis
        using team_ok_add [OF _ _ n adj, of gs "teams1 ! ti"] t1 \<open>counts_for ?t g\<close> j by (simp add: upd_def)
    next
      case False
      then have "tp_team_id (teams1 ! j) \<noteq> ?t"
        using t1(1,4,5) j by (metis distinct_conv_nth length_map nth_map)
      then show ?thesis using False j t1(3) other team_ok_other by simp
    qed
    then have "\<forall>tp \<in> set (teams1[ti := upd (teams1 ! ti)]). team_ok n season ex (gs @ [g]) tp"
      by (metis in_set_conv_nth length_list_update)
    moreover have "?t \<in> tp_team_id ` set teams1" using t1(4,5) by (metis imageI nth_mem)
    ultimately show ?thesis using t1 ids idset by (auto simp: table_ok_def)
  qed
  show ?thesis
  proof (cases "kbo_cbt_find_team teams ?t")
    case (Some ti)
    then have "payroll_step season ex top_n teams g = teams[ti := upd (teams ! ti)]"
      using True adj by (simp add: payroll_step_def counts_for_def upd_def Let_def)
    moreover have "ti < length teams" "tp_team_id (teams ! ti) = ?t"
      using first_index_Some Some unfolding kbo_cbt_find_team_def by blast+
    ultimately show ?thesis using place [of teams ti] ok by (simp add: table_ok_def)
  next
    case None
    then have new: "?t \<notin> tp_team_id ` set teams"
      by (auto simp: kbo_cbt_find_team_def first_index_None)
    show ?thesis
    proof (cases "length teams \<ge> CBT_TEAM_MAX")
      case full: True
      then have "payroll_step season ex top_n teams g = teams"
        using None True by (simp add: payroll_step_def)
      moreover have "\<not> counts_for (tp_team_id tp) g" if "tp \<in> set teams" for tp
        using that new by (intro other) (metis imageI)
      moreover have "length teams = CBT_TEAM_MAX" using ok full by (simp add: table_ok_def)
      ultimately show ?thesis using ok team_ok_other by (auto simp: table_ok_def)
    next
      case space: False
      let ?teams1 = "teams @ [new_team ?t]"
      have step: "payroll_step season ex top_n teams g = ?teams1[length teams := upd (?teams1 ! length teams)]"
        using True None space adj by (simp add: payroll_step_def counts_for_def upd_def Let_def)
      have "counts_for ?t g' \<Longrightarrow> sg_ranking_team_id g' = ?t" for g' by (simp add: counts_for_def)
      then have "filter (counts_for ?t) gs = []"
        using ok new space by (fastforce simp: table_ok_def filter_empty_conv)
      then have "team_ok n season ex gs (new_team ?t)"
        using True by (simp add: team_ok_def new_team_def team_adjusted_def counts_for_def)
      then show ?thesis
        unfolding step using ok new space by (intro place) (auto simp: table_ok_def new_team_def)
    qed
  qed
qed

lemma table_ok_foldl:
  assumes "n = nat (sint top_n)" and "0 < sint top_n"
  shows "table_ok n season ex gs (foldl (payroll_step season ex top_n) [] gs)"
proof (induction gs rule: rev_induct)
  case Nil
  then show ?case by (simp add: table_ok_def)
next
  case (snoc g gs)
  then show ?case using table_ok_step [OF snoc assms] by simp
qed

lemma effective_top_n:
  "0 < sint (kbo_cbt_effective_top_n top_n)
   \<and> nat (sint (kbo_cbt_effective_top_n top_n)) = max 1 (min (unat top_n) 200)"
proof -
  have pos: "0 < unat top_n \<Longrightarrow> 0 < uint top_n" by (simp only: uint_nat of_nat_0_less_iff)
  have "sint t = int (unat t)" if "t \<le> 200" for t :: u32
  proof -
    have "uint t < 2 ^ 31" using that by (simp add: word_le_def)
    then have "signed_take_bit 31 (uint t) = uint t"
      using uint_ge_0 [of t] by (intro signed_take_bit_int_eq_self) linarith+
    then show ?thesis by (simp add: sint_uint)
  qed
  then show ?thesis
    using pos
    by (auto simp: kbo_cbt_effective_top_n_def CBT_SALARY_SCRATCH_MAX_def word_eq_unat word_order_unat
        split: if_splits)
qed

section \<open>Properties\<close>

text \<open>
  C10: the computed payrolls name each team once, at most 32 of them, and none is left out
  while there is room.  A team's payroll is the sum (as a 32-bit integer) of the highest
  adjusted salaries of its domestic players, as many as the rules count (1 to 200) or all
  if there are fewer, and its credit is the sum of its exception credits.
\<close>

theorem payroll_sums_highest_salaries:
  fixes grades :: "salary_grade list" and season :: u32 and ex :: "exception_designation list" and top_n :: u32
  defines "teams \<equiv> kbo_cbt_compute_team_payrolls grades season ex top_n"
    and "n \<equiv> max 1 (min (unat top_n) 200)"
  shows "distinct (map tp_team_id teams) \<and> length teams \<le> 32
     \<and> (\<forall>g \<in> set grades. counts_for (sg_ranking_team_id g) g \<longrightarrow>
          sg_ranking_team_id g \<in> tp_team_id ` set teams \<or> length teams = 32)
     \<and> (\<forall>tp \<in> set teams.
          keeps_top n (mset (map fst (team_adjusted season ex (tp_team_id tp) grades)))
            (mset (tp_domestic_salaries tp))
          \<and> tp_top_n_sum tp = i32 (sum_list (tp_domestic_salaries tp))
          \<and> tp_exception_credit tp = i32 (sum_list (map snd (team_adjusted season ex (tp_team_id tp) grades))))"
proof -
  define raw where "raw = foldl (payroll_step season ex (kbo_cbt_effective_top_n top_n)) [] grades"
  have ok: "table_ok n season ex grades raw"
    unfolding raw_def n_def by (rule table_ok_foldl) (simp_all add: effective_top_n)
  have t: "teams = map (\<lambda>tp. tp\<lparr>tp_top_n_sum := payroll_sum (tp_domestic_salaries tp)\<rparr>) raw"
    by (simp add: teams_def kbo_cbt_compute_team_payrolls_def raw_def)
  have ids: "map tp_team_id teams = map tp_team_id raw" and len: "length teams = length raw"
    by (simp_all add: t o_def)
  then have idset: "tp_team_id ` set teams = tp_team_id ` set raw" by (metis set_map)
  have "\<forall>tp \<in> set teams.
          keeps_top n (mset (map fst (team_adjusted season ex (tp_team_id tp) grades)))
            (mset (tp_domestic_salaries tp))
          \<and> tp_top_n_sum tp = i32 (sum_list (tp_domestic_salaries tp))
          \<and> tp_exception_credit tp = i32 (sum_list (map snd (team_adjusted season ex (tp_team_id tp) grades)))"
    using ok by (auto simp: t table_ok_def team_ok_def payroll_sum_total)
  then show ?thesis
    using ok idset unfolding table_ok_def CBT_TEAM_MAX_def ids len by blast
qed

theorem payroll_sums_highest_salaries_witness:
  "tp_top_n_sum (hd (kbo_cbt_compute_team_payrolls
      [\<lparr>sg_ranking_team_id = 5, sg_foreign_flag = False, sg_salary = 100, sg_player_key = ''a'', sg_player_name = ''''\<rparr>,
       \<lparr>sg_ranking_team_id = 5, sg_foreign_flag = False, sg_salary = 300, sg_player_key = ''b'', sg_player_name = ''''\<rparr>,
       \<lparr>sg_ranking_team_id = 5, sg_foreign_flag = True, sg_salary = 900, sg_player_key = ''c'', sg_player_name = ''''\<rparr>,
       \<lparr>sg_ranking_team_id = 5, sg_foreign_flag = False, sg_salary = 200, sg_player_key = ''d'', sg_player_name = ''''\<rparr>]
      2024 [] 2)) = 500
   \<and> distinct (map tp_team_id (kbo_cbt_compute_team_payrolls [] 2024 [] 2))"
proof (rule conjI)
  show "distinct (map tp_team_id (kbo_cbt_compute_team_payrolls [] 2024 [] 2))"
    using payroll_sums_highest_salaries [of "[]" 2024 "[]" 2] by blast
qed code_simp

end
