(* ===== verification/CbtExceptions.thy ===== *)
theory CbtExceptions
  imports CbtPayroll CbtRules WaiverDate GameMemory
begin

text \<open>
  Exception players of the competitive balance tax:
  \<open>native/src/competitive_balance_tax/exceptions/\<close>.  A team designates one player per season
  whose salary counts half; \<open>cbt_exceptions.c\<close> keeps the designations and the designation
  window, \<open>cbt_exception_auto_designate.c\<close> fills in the teams that made no choice.

  The designations are a table of the save database.  Its rows are a list here; a load
  returns the first 64 in the order of season and team, a write replaces the table and may
  fail (\<open>write\<close>).  The history of the players, the season calendar and the salary snapshot
  are read through parameters.
\<close>

section \<open>The table\<close>

definition designation_key :: "exception_designation \<Rightarrow> nat" where
  "designation_key r = unat (ed_season r) * 4294967296 + unat (ed_team_id r)"

definition kbo_cbt_exception_load_designations :: "exception_designation list \<Rightarrow> exception_designation list" where
  "kbo_cbt_exception_load_designations table =
     take CBT_EXCEPTION_MAX (sort_key designation_key
       (filter (\<lambda>r. ed_season r \<noteq> 0 \<and> ed_team_id r \<noteq> 0 \<and> ed_player_key r \<noteq> []) table))"

text \<open>
  Saving one designation: load, change, write back.  The result is the table and whether
  the call succeeded.
\<close>

definition exception_save ::
    "(exception_designation list \<Rightarrow> bool) \<Rightarrow> (u32 \<Rightarrow> string \<Rightarrow> int option) \<Rightarrow> u32 \<Rightarrow> u32 \<Rightarrow> string
       \<Rightarrow> string \<Rightarrow> exception_designation list \<Rightarrow> exception_designation list \<times> bool" where
  "exception_save write team_seasons season team_id player_key player_name table =
     (case kbo_cbt_exception_save_designation team_seasons season team_id player_key player_name
             (kbo_cbt_exception_load_designations table) of
        None \<Rightarrow> (table, False)
      | Some rows \<Rightarrow> if write rows then (rows, True) else (table, False))"

definition exception_clear ::
    "(exception_designation list \<Rightarrow> bool) \<Rightarrow> u32 \<Rightarrow> u32 \<Rightarrow> exception_designation list
       \<Rightarrow> exception_designation list \<times> bool" where
  "exception_clear write season team_id table =
     (let rows = kbo_cbt_exception_clear_designation season team_id
                   (kbo_cbt_exception_load_designations table)
      in if write rows then (rows, True) else (table, False))"

section \<open>Eligibility and the automatic choice\<close>

text \<open>Whether the player is eligible, and the season count the caller may print.\<close>

definition kbo_cbt_exception_player_eligible ::
    "(u32 \<Rightarrow> string \<Rightarrow> int option) \<Rightarrow> u32 \<Rightarrow> string \<Rightarrow> bool \<times> int" where
  "kbo_cbt_exception_player_eligible team_seasons team_id player_key =
     (case team_seasons team_id player_key of
        None \<Rightarrow> (False, 0) | Some season_count \<Rightarrow> (season_count \<ge> 7, season_count))"

definition AUTO_TEAM_MAX :: nat where "AUTO_TEAM_MAX = 64"

text \<open>One team of the scan, the three parallel arrays of the code at one index.\<close>

record auto_slot =
  as_team_id :: u32
  as_best_grade_index :: "nat option"
  as_best_salary :: int

definition auto_candidate :: "salary_grade \<Rightarrow> bool" where
  "auto_candidate g \<longleftrightarrow> \<not> (sg_ranking_team_id g = 0 \<or> sg_foreign_flag g
     \<or> sg_salary g \<le> 0 \<or> sg_player_key g = [])"

definition auto_step ::
    "(u32 \<Rightarrow> string \<Rightarrow> int option) \<Rightarrow> u32 \<Rightarrow> exception_designation list
       \<Rightarrow> auto_slot list \<Rightarrow> nat \<times> salary_grade \<Rightarrow> auto_slot list" where
  "auto_step team_seasons season existing slots ig =
     (case ig of (i, grade) \<Rightarrow>
        if \<not> auto_candidate grade then slots
        else if kbo_cbt_exception_find_designation existing season (sg_ranking_team_id grade)
                  (sg_player_key grade) \<noteq> None then slots
        else
          let team = sg_ranking_team_id grade;
              found = first_index (\<lambda>s. as_team_id s = team) slots
          in if found = None \<and> (list_ex (\<lambda>e. ed_season e = season \<and> ed_team_id e = team) existing
                                 \<or> length slots \<ge> AUTO_TEAM_MAX) then slots
             else
               let (team_slot, slots1) =
                     (case found of
                        Some t \<Rightarrow> (t, slots)
                      | None \<Rightarrow> (length slots, slots @ [\<lparr>as_team_id = team, as_best_grade_index = None,
                                                        as_best_salary = 0\<rparr>]));
                   s = slots1 ! team_slot
               in if \<not> fst (kbo_cbt_exception_player_eligible team_seasons team (sg_player_key grade)) then slots1
                  else if as_best_grade_index s = None \<or> sg_salary grade > as_best_salary s
                  then slots1[team_slot := s\<lparr>as_best_grade_index := Some i, as_best_salary := sg_salary grade\<rparr>]
                  else slots1)"

definition auto_save ::
    "(exception_designation list \<Rightarrow> bool) \<Rightarrow> (u32 \<Rightarrow> string \<Rightarrow> int option) \<Rightarrow> u32 \<Rightarrow> salary_grade list
       \<Rightarrow> exception_designation list \<times> int \<Rightarrow> auto_slot \<Rightarrow> exception_designation list \<times> int" where
  "auto_save write team_seasons season grades tc slot =
     (case as_best_grade_index slot of
        None \<Rightarrow> tc
      | Some index \<Rightarrow>
          let grade = grades ! index;
              (table, saved) = exception_save write team_seasons season (sg_ranking_team_id grade)
                                 (sg_player_key grade) (sg_player_name grade) (fst tc)
          in (table, if saved then snd tc + 1 else snd tc))"

text \<open>The table afterwards and the number of designations created.\<close>

definition kbo_cbt_exception_auto_designate_missing ::
    "(exception_designation list \<Rightarrow> bool) \<Rightarrow> (u32 \<Rightarrow> string \<Rightarrow> int option) \<Rightarrow> u32 \<Rightarrow> salary_grade list
       \<Rightarrow> exception_designation list \<Rightarrow> exception_designation list \<times> int" where
  "kbo_cbt_exception_auto_designate_missing write team_seasons season grades table =
     (if season < SEASON_YEAR_MIN \<or> season > SIM_YEAR_MAX then (table, 0)
      else if grades = [] then (table, 0)
      else
        let existing = kbo_cbt_exception_load_designations table;
            slots = foldl (auto_step team_seasons season existing) [] (enumerate 0 grades)
        in foldl (auto_save write team_seasons season grades) (table, 0) slots)"

section \<open>The designation window\<close>

definition kbo_cbt_opening_day_valid :: "u32 \<Rightarrow> u32 \<Rightarrow> bool" where
  "kbo_cbt_opening_day_valid season opening_day =
     (let year = opening_day div 10000;
          month = (opening_day div 100) mod 100;
          day = opening_day mod 100
      in season \<ge> SEASON_YEAR_MIN \<and> season \<le> SIM_YEAR_MAX \<and> year = season
         \<and> month \<ge> 1 \<and> month \<le> 12 \<and> day \<ge> 1 \<and> day \<le> 31)"

text \<open>The opening day in the first row of the season's salary snapshot, if there is one.\<close>

definition kbo_cbt_opening_day_snapshot_load :: "(u32 \<Rightarrow> u32 option) \<Rightarrow> u32 \<Rightarrow> u32 option" where
  "kbo_cbt_opening_day_snapshot_load snapshot_opening season =
     (if season < SEASON_YEAR_MIN \<or> season > SIM_YEAR_MAX then None
      else case snapshot_opening season of
          None \<Rightarrow> None
        | Some opening \<Rightarrow> if kbo_cbt_opening_day_valid season opening then Some opening else None)"

text \<open>
  The calendar is asked first; a day found in the snapshot is stored in the calendar.  The
  result is the day and the calendar entry written, if any.
\<close>

definition kbo_cbt_exception_resolve_opening_day ::
    "u32 \<Rightarrow> (u32 \<Rightarrow> u32 \<Rightarrow> u32 option) \<Rightarrow> (u32 \<Rightarrow> u32 option) \<Rightarrow> u32
       \<Rightarrow> u32 option \<times> (u32 \<times> u32 \<times> u32) option" where
  "kbo_cbt_exception_resolve_opening_day league_id calendar snapshot_opening season =
     (if season < SEASON_YEAR_MIN \<or> season > SIM_YEAR_MAX then (None, None)
      else
        case calendar league_id season of
          Some opening \<Rightarrow>
            if opening div 10000 = season then (Some opening, None)
            else (case kbo_cbt_opening_day_snapshot_load snapshot_opening season of
                    None \<Rightarrow> (None, None)
                  | Some day \<Rightarrow> (Some day, if league_id \<noteq> 0 then Some (league_id, season, day) else None))
        | None \<Rightarrow>
            (case kbo_cbt_opening_day_snapshot_load snapshot_opening season of
               None \<Rightarrow> (None, None)
             | Some day \<Rightarrow> (Some day, if league_id \<noteq> 0 then Some (league_id, season, day) else None)))"

definition kbo_cbt_exception_designation_window_open ::
    "cbt_rules \<Rightarrow> u32 \<Rightarrow> (u32 \<Rightarrow> u32 \<Rightarrow> u32 option) \<Rightarrow> (u32 \<Rightarrow> u32 option) \<Rightarrow> u32 \<Rightarrow> u32 \<Rightarrow> bool" where
  "kbo_cbt_exception_designation_window_open rules league_id calendar snapshot_opening season current_date =
     (if current_date = 0 then False
      else case fst (kbo_cbt_exception_resolve_opening_day league_id calendar snapshot_opening season) of
          None \<Rightarrow> False
        | Some opening \<Rightarrow>
            current_date \<ge> opening
            \<and> current_date \<le> kbo_add_days_yyyymmdd opening (cr_exception_deadline_days_after_opening rules))"

end
