(* ===== verification/CbtExceptionsProps.thy ===== *)
theory CbtExceptionsProps
  imports CbtExceptions CbtPayrollProps
begin

text \<open>
  What the exception designations do: the automatic choice names the best paid eligible
  player of every team that has none, a full table refuses every new designation, a save is
  found again, and the designation window is a number of days after the opening day.
\<close>

section \<open>Well-formed tables\<close>

definition designations_ok :: "exception_designation list \<Rightarrow> bool" where
  "designations_ok table \<longleftrightarrow> distinct (map designation_key table)
     \<and> (\<forall>r \<in> set table. ed_season r \<noteq> 0 \<and> ed_team_id r \<noteq> 0 \<and> ed_player_key r \<noteq> [])"

definition has_row :: "u32 \<Rightarrow> u32 \<Rightarrow> exception_designation list \<Rightarrow> bool" where
  "has_row season t rows \<longleftrightarrow> (\<exists>r \<in> set rows. ed_season r = season \<and> ed_team_id r = t)"

definition designation_row :: "u32 \<Rightarrow> salary_grade \<Rightarrow> exception_designation" where
  "designation_row season g = \<lparr>ed_season = season, ed_team_id = sg_ranking_team_id g,
     ed_player_key = strbuf 64 (sg_player_key g), ed_player_name = strbuf 96 (sg_player_name g)\<rparr>"

lemma designation_key_inject:
  "designation_key r = designation_key r' \<longleftrightarrow> ed_season r = ed_season r' \<and> ed_team_id r = ed_team_id r'"
proof -
  have "a * 4294967296 + b = c * 4294967296 + e \<longleftrightarrow> a = c \<and> b = e"
    if "b < 4294967296" "e < 4294967296" for a b c e :: nat
  proof
    assume eq: "a * 4294967296 + b = c * 4294967296 + e"
    have "(a * 4294967296 + b) mod 4294967296 = b" "(c * 4294967296 + e) mod 4294967296 = e"
      using that by simp_all
    with eq have "b = e" by simp
    with eq show "a = c \<and> b = e" by simp
  qed simp
  from this [OF unat_u32_bound unat_u32_bound] show ?thesis
    by (simp only: designation_key_def word_unat_eq_iff)
qed

lemma load_ok:
  assumes "designations_ok table" and "length table \<le> 64"
  shows "kbo_cbt_exception_load_designations table = sort_key designation_key table"
proof -
  have "filter (\<lambda>r. ed_season r \<noteq> 0 \<and> ed_team_id r \<noteq> 0 \<and> ed_player_key r \<noteq> []) table = table"
    using assms(1) by (simp add: designations_ok_def filter_id_conv)
  then show ?thesis
    using assms(2) by (simp add: kbo_cbt_exception_load_designations_def CBT_EXCEPTION_MAX_def)
qed

lemma load_ok_set:
  assumes "designations_ok table" and "length table \<le> 64"
  shows "set (kbo_cbt_exception_load_designations table) = set table"
    and "length (kbo_cbt_exception_load_designations table) = length table"
  using load_ok [OF assms] by simp_all

lemma sorted_ok: "designations_ok table \<Longrightarrow> designations_ok (sort_key designation_key table)"
proof -
  have "mset (map designation_key (sort_key designation_key table)) = mset (map designation_key table)" by simp
  then have "distinct (map designation_key (sort_key designation_key table)) = distinct (map designation_key table)"
    by (metis mset_eq_imp_distinct_iff)
  then show "designations_ok table \<Longrightarrow> designations_ok (sort_key designation_key table)"
    by (simp add: designations_ok_def)
qed

lemma append_ok:
  assumes "designations_ok rows" and "\<not> has_row (ed_season r) (ed_team_id r) rows"
    and "ed_season r \<noteq> 0" and "ed_team_id r \<noteq> 0" and "ed_player_key r \<noteq> []"
  shows "designations_ok (rows @ [r])"
  using assms by (auto simp: designations_ok_def has_row_def designation_key_inject)

lemma map_update_same: "f (xs ! i) = f y \<Longrightarrow> map f (xs[i := y]) = map f xs"
  by (metis list_update_id map_update)

lemma update_ok:
  assumes "designations_ok rows" and "designation_key (rows ! i) = designation_key r"
    and "ed_season r \<noteq> 0" and "ed_team_id r \<noteq> 0" and "ed_player_key r \<noteq> []"
  shows "designations_ok (rows[i := r])"
proof -
  have "set (rows[i := r]) \<subseteq> insert r (set rows)" by (rule set_update_subset_insert)
  then show ?thesis
    using assms map_update_same [OF assms(2)] unfolding designations_ok_def by auto
qed

section \<open>The scan\<close>

definition eligible_for :: "(u32 \<Rightarrow> string \<Rightarrow> int option) \<Rightarrow> u32 \<Rightarrow> salary_grade \<Rightarrow> bool" where
  "eligible_for team_seasons t g \<longleftrightarrow> auto_candidate g \<and> sg_ranking_team_id g = t
     \<and> (\<exists>n. team_seasons t (sg_player_key g) = Some n \<and> 7 \<le> n)"

text \<open>Row \<open>i\<close> is the first of the best paid eligible players of a team.\<close>

definition best_paid :: "(u32 \<Rightarrow> string \<Rightarrow> int option) \<Rightarrow> salary_grade list \<Rightarrow> u32 \<Rightarrow> nat \<Rightarrow> bool" where
  "best_paid team_seasons gs t i \<longleftrightarrow> i < length gs \<and> eligible_for team_seasons t (gs ! i)
     \<and> (\<forall>j < length gs. eligible_for team_seasons t (gs ! j) \<longrightarrow>
          (if j < i then sg_salary (gs ! j) < sg_salary (gs ! i) else sg_salary (gs ! j) \<le> sg_salary (gs ! i)))"

definition slot_ok :: "(u32 \<Rightarrow> string \<Rightarrow> int option) \<Rightarrow> salary_grade list \<Rightarrow> auto_slot \<Rightarrow> bool" where
  "slot_ok team_seasons gs s \<longleftrightarrow>
     (case as_best_grade_index s of
        None \<Rightarrow> \<forall>g \<in> set gs. \<not> eligible_for team_seasons (as_team_id s) g
      | Some i \<Rightarrow> best_paid team_seasons gs (as_team_id s) i \<and> as_best_salary s = sg_salary (gs ! i))"

lemma slot_ok_snoc:
  assumes "slot_ok team_seasons gs s"
  shows "slot_ok team_seasons (gs @ [g])
     (if eligible_for team_seasons (as_team_id s) g
         \<and> (as_best_grade_index s = None \<or> sg_salary g > as_best_salary s)
      then s\<lparr>as_best_grade_index := Some (length gs), as_best_salary := sg_salary g\<rparr> else s)"
proof (cases "as_best_grade_index s")
  case None
  then have "\<forall>j < length gs. \<not> eligible_for team_seasons (as_team_id s) (gs ! j)"
    using assms by (auto simp: slot_ok_def)
  then show ?thesis
    using None assms by (auto simp: slot_ok_def best_paid_def nth_append less_Suc_eq)
next
  case (Some i)
  then have i: "i < length gs" "eligible_for team_seasons (as_team_id s) (gs ! i)"
      "as_best_salary s = sg_salary (gs ! i)"
      "\<forall>j < length gs. eligible_for team_seasons (as_team_id s) (gs ! j) \<longrightarrow>
         (if j < i then sg_salary (gs ! j) < sg_salary (gs ! i) else sg_salary (gs ! j) \<le> sg_salary (gs ! i))"
    using assms by (auto simp: slot_ok_def best_paid_def)
  have le: "sg_salary (gs ! j) \<le> sg_salary (gs ! i)"
    if "j < length gs" "eligible_for team_seasons (as_team_id s) (gs ! j)" for j
    using i(4) that by (cases "j < i") (auto intro: less_imp_le)
  show ?thesis
  proof (cases "eligible_for team_seasons (as_team_id s) g \<and> sg_salary g > as_best_salary s")
    case True
    then show ?thesis
      using le i(3) by (auto simp: slot_ok_def best_paid_def nth_append less_Suc_eq dest: le)
  next
    case False
    then show ?thesis
      using Some i by (auto simp: slot_ok_def best_paid_def nth_append less_Suc_eq)
  qed
qed

text \<open>The slots after scanning \<open>gs\<close>.\<close>

definition slots_ok ::
    "(u32 \<Rightarrow> string \<Rightarrow> int option) \<Rightarrow> u32 \<Rightarrow> exception_designation list \<Rightarrow> salary_grade list
       \<Rightarrow> auto_slot list \<Rightarrow> bool" where
  "slots_ok team_seasons season existing gs slots \<longleftrightarrow>
     distinct (map as_team_id slots)
     \<and> as_team_id ` set slots = {sg_ranking_team_id g | g. g \<in> set gs \<and> auto_candidate g
          \<and> \<not> has_row season (sg_ranking_team_id g) existing}
     \<and> (\<forall>s \<in> set slots. slot_ok team_seasons gs s)"

lemma find_designation_none:
  "\<not> has_row season t existing \<Longrightarrow> kbo_cbt_exception_find_designation existing season t key = None"
  by (auto simp: kbo_cbt_exception_find_designation_def first_index_None has_row_def)

lemma list_ex_has_row:
  "list_ex (\<lambda>e. ed_season e = season \<and> ed_team_id e = t) existing = has_row season t existing"
  by (auto simp: list_ex_iff has_row_def)

lemma eligible_iff:
  "auto_candidate g \<Longrightarrow> fst (kbo_cbt_exception_player_eligible team_seasons (sg_ranking_team_id g) (sg_player_key g))
     \<longleftrightarrow> eligible_for team_seasons (sg_ranking_team_id g) g"
  by (auto simp: kbo_cbt_exception_player_eligible_def eligible_for_def split: option.splits)

lemma not_eligible_other:
  "\<not> auto_candidate g \<or> sg_ranking_team_id g \<noteq> t \<Longrightarrow> \<not> eligible_for team_seasons t g"
  by (auto simp: eligible_for_def)

text \<open>A row the scan passes over leaves the slots as they are.\<close>

lemma slots_ok_skip:
  assumes "slots_ok team_seasons season existing gs slots"
    and "\<not> auto_candidate g \<or> has_row season (sg_ranking_team_id g) existing"
  shows "slots_ok team_seasons season existing (gs @ [g]) slots"
proof -
  have teams: "as_team_id ` set slots = {sg_ranking_team_id g | g. g \<in> set gs \<and> auto_candidate g
      \<and> \<not> has_row season (sg_ranking_team_id g) existing}"
    and ok: "\<forall>s \<in> set slots. slot_ok team_seasons gs s"
    using assms(1) by (auto simp: slots_ok_def)
  have "slot_ok team_seasons (gs @ [g]) s" if "s \<in> set slots" for s
  proof -
    have "as_team_id s \<in> as_team_id ` set slots" using that by simp
    then have "\<not> has_row season (as_team_id s) existing" unfolding teams by auto
    then have "\<not> eligible_for team_seasons (as_team_id s) g"
      using assms(2) by (auto simp: eligible_for_def)
    then show ?thesis using slot_ok_snoc [of team_seasons gs s g] ok that by simp
  qed
  moreover have "{sg_ranking_team_id h | h. h \<in> set (gs @ [g]) \<and> auto_candidate h
      \<and> \<not> has_row season (sg_ranking_team_id h) existing} = as_team_id ` set slots"
    using assms(2) teams by auto
  ultimately show ?thesis using assms(1) by (simp add: slots_ok_def)
qed

text \<open>A row of a team with a slot updates that slot.\<close>

lemma slots_ok_update:
  assumes ok: "slots_ok team_seasons season existing gs slots" and t: "t < length slots"
    and g: "auto_candidate g" "as_team_id (slots ! t) = sg_ranking_team_id g"
  shows "slots_ok team_seasons season existing (gs @ [g])
     (if eligible_for team_seasons (sg_ranking_team_id g) g
         \<and> (as_best_grade_index (slots ! t) = None \<or> sg_salary g > as_best_salary (slots ! t))
      then slots[t := (slots ! t)\<lparr>as_best_grade_index := Some (length gs), as_best_salary := sg_salary g\<rparr>]
      else slots)"
    (is "slots_ok _ _ _ _ ?slots")
proof -
  let ?s = "slots ! t"
  let ?upd = "\<lambda>s. if eligible_for team_seasons (as_team_id s) g
         \<and> (as_best_grade_index s = None \<or> sg_salary g > as_best_salary s)
      then s\<lparr>as_best_grade_index := Some (length gs), as_best_salary := sg_salary g\<rparr> else s"
  have dist: "distinct (map as_team_id slots)" and good: "\<forall>s \<in> set slots. slot_ok team_seasons gs s"
    and teams: "as_team_id ` set slots = {sg_ranking_team_id g | g. g \<in> set gs \<and> auto_candidate g
      \<and> \<not> has_row season (sg_ranking_team_id g) existing}"
    using ok by (auto simp: slots_ok_def)
  have new: "?slots = slots[t := ?upd ?s]" using g(2) t by (auto simp: list_update_id)
  have ids: "map as_team_id (slots[t := ?upd ?s]) = map as_team_id slots"
  proof -
    have "as_team_id (?upd ?s) = map as_team_id slots ! t" using t by simp
    then show ?thesis by (simp only: map_update list_update_id)
  qed
  have ids_set: "as_team_id ` set (slots[t := ?upd ?s]) = as_team_id ` set slots"
    using ids by (metis set_map)
  have at: "\<forall>s \<in> set (slots[t := ?upd ?s]). slot_ok team_seasons (gs @ [g]) s"
  proof
    fix s assume "s \<in> set (slots[t := ?upd ?s])"
    then obtain i where i: "i < length slots" "s = slots[t := ?upd ?s] ! i" by (auto simp: in_set_conv_nth)
    show "slot_ok team_seasons (gs @ [g]) s"
    proof (cases "i = t")
      case True
      then show ?thesis using i t good slot_ok_snoc [of team_seasons gs ?s g] by simp
    next
      case False
      then have "as_team_id (slots ! i) \<noteq> sg_ranking_team_id g"
        using dist i t g(2) by (metis distinct_conv_nth length_map nth_map)
      then show ?thesis
        using False i good slot_ok_snoc [of team_seasons gs "slots ! i" g] by (simp add: not_eligible_other)
    qed
  qed
  have "sg_ranking_team_id g \<in> as_team_id ` set slots" using t g(2) by (metis imageI nth_mem)
  then have "{sg_ranking_team_id h | h. h \<in> set (gs @ [g]) \<and> auto_candidate h
      \<and> \<not> has_row season (sg_ranking_team_id h) existing} = as_team_id ` set slots"
    using teams by auto
  then show ?thesis using new at dist ids ids_set by (simp add: slots_ok_def)
qed

text \<open>The first row of a team adds an empty slot.\<close>

lemma slots_ok_new:
  assumes ok: "slots_ok team_seasons season existing gs slots" and g: "auto_candidate g"
    and "\<not> has_row season (sg_ranking_team_id g) existing"
    and new: "sg_ranking_team_id g \<notin> as_team_id ` set slots"
  shows "slots_ok team_seasons season existing (gs @ [g])
     (if eligible_for team_seasons (sg_ranking_team_id g) g
      then slots @ [\<lparr>as_team_id = sg_ranking_team_id g, as_best_grade_index = Some (length gs),
                     as_best_salary = sg_salary g\<rparr>]
      else slots @ [\<lparr>as_team_id = sg_ranking_team_id g, as_best_grade_index = None, as_best_salary = 0\<rparr>])"
proof -
  let ?t = "sg_ranking_team_id g"
  let ?e = "\<lparr>as_team_id = ?t, as_best_grade_index = None, as_best_salary = 0\<rparr>"
  have dist: "distinct (map as_team_id slots)" and good: "\<forall>s \<in> set slots. slot_ok team_seasons gs s"
    and teams: "as_team_id ` set slots = {sg_ranking_team_id g | g. g \<in> set gs \<and> auto_candidate g
      \<and> \<not> has_row season (sg_ranking_team_id g) existing}"
    using ok by (auto simp: slots_ok_def)
  have "?t \<notin> {sg_ranking_team_id g | g. g \<in> set gs \<and> auto_candidate g
      \<and> \<not> has_row season (sg_ranking_team_id g) existing}"
    using new unfolding teams .
  then have "\<not> eligible_for team_seasons ?t h" if "h \<in> set gs" for h
    using that assms(3) by (force simp: eligible_for_def)
  then have "slot_ok team_seasons gs ?e" by (simp add: slot_ok_def)
  from slot_ok_snoc [OF this, of g]
  have last: "slot_ok team_seasons (gs @ [g])
      (if eligible_for team_seasons ?t g then \<lparr>as_team_id = ?t, as_best_grade_index = Some (length gs),
         as_best_salary = sg_salary g\<rparr> else ?e)"
    by (auto split: if_splits)
  have others: "slot_ok team_seasons (gs @ [g]) s" if "s \<in> set slots" for s
  proof -
    have "as_team_id s \<noteq> ?t" using that new by (metis imageI)
    then show ?thesis
      using that good slot_ok_snoc [of team_seasons gs s g] by (simp add: not_eligible_other)
  qed
  have "{sg_ranking_team_id h | h. h \<in> set (gs @ [g]) \<and> auto_candidate h
      \<and> \<not> has_row season (sg_ranking_team_id h) existing} = insert ?t (as_team_id ` set slots)"
    using g assms(3) teams by auto
  then show ?thesis using last others dist new by (auto simp: slots_ok_def)
qed

lemma auto_step_ok:
  assumes ok: "slots_ok team_seasons season existing gs slots"
    and room: "\<not> has_row season (sg_ranking_team_id g) existing \<longrightarrow> auto_candidate g \<longrightarrow>
      sg_ranking_team_id g \<notin> as_team_id ` set slots \<longrightarrow> length slots < 64"
  shows "slots_ok team_seasons season existing (gs @ [g])
     (auto_step team_seasons season existing slots (length gs, g))"
proof (cases "auto_candidate g \<and> \<not> has_row season (sg_ranking_team_id g) existing")
  case False
  have "auto_step team_seasons season existing slots (length gs, g) = slots"
  proof (cases "auto_candidate g")
    case True
    then have r: "has_row season (sg_ranking_team_id g) existing" using False by blast
    have teams: "as_team_id ` set slots = {sg_ranking_team_id g | g. g \<in> set gs \<and> auto_candidate g
      \<and> \<not> has_row season (sg_ranking_team_id g) existing}" using ok by (simp add: slots_ok_def)
    have "sg_ranking_team_id g \<notin> as_team_id ` set slots" unfolding teams using r by auto
    then have "first_index (\<lambda>s. as_team_id s = sg_ranking_team_id g) slots = None"
      by (force simp: first_index_None)
    then show ?thesis using r by (simp add: auto_step_def Let_def list_ex_has_row)
  qed (simp add: auto_step_def)
  then show ?thesis using slots_ok_skip [OF ok, of g] False by auto
next
  case True
  then have c: "auto_candidate g" "\<not> has_row season (sg_ranking_team_id g) existing" by auto
  have step: "auto_step team_seasons season existing slots (length gs, g) =
      (let found = first_index (\<lambda>s. as_team_id s = sg_ranking_team_id g) slots
       in if found = None \<and> length slots \<ge> 64 then slots
          else let (t, slots1) = (case found of Some t \<Rightarrow> (t, slots)
                 | None \<Rightarrow> (length slots, slots @ [\<lparr>as_team_id = sg_ranking_team_id g,
                      as_best_grade_index = None, as_best_salary = 0\<rparr>]));
                   s = slots1 ! t
               in if \<not> eligible_for team_seasons (sg_ranking_team_id g) g then slots1
                  else if as_best_grade_index s = None \<or> sg_salary g > as_best_salary s
                  then slots1[t := s\<lparr>as_best_grade_index := Some (length gs), as_best_salary := sg_salary g\<rparr>]
                  else slots1)"
    using c by (simp add: auto_step_def Let_def list_ex_has_row find_designation_none eligible_iff AUTO_TEAM_MAX_def)
  show ?thesis
  proof (cases "first_index (\<lambda>s. as_team_id s = sg_ranking_team_id g) slots")
    case None
    then have new: "sg_ranking_team_id g \<notin> as_team_id ` set slots" by (auto simp: first_index_None)
    then have "length slots < 64" using room c by blast
    then show ?thesis
      using slots_ok_new [OF ok c new] None unfolding step
      by (cases "eligible_for team_seasons (sg_ranking_team_id g) g") (simp_all add: Let_def)
  next
    case (Some t)
    then have "t < length slots" "as_team_id (slots ! t) = sg_ranking_team_id g"
      using first_index_Some [OF Some] by auto
    from slots_ok_update [OF ok this(1) c(1) this(2)] Some show ?thesis
      unfolding step by (cases "eligible_for team_seasons (sg_ranking_team_id g) g") (auto simp: Let_def)
  qed
qed

lemma card_slots:
  assumes "slots_ok team_seasons season existing gs slots"
  shows "length slots = card (as_team_id ` set slots)"
  using assms by (metis distinct_card length_map set_map slots_ok_def)

lemma auto_scan_ok:
  assumes "card (sg_ranking_team_id ` set gs) \<le> 64"
  shows "slots_ok team_seasons season existing gs
     (foldl (auto_step team_seasons season existing) [] (enumerate 0 gs))"
  using assms
proof (induction gs rule: rev_induct)
  case Nil
  show ?case by (simp add: slots_ok_def)
next
  case (snoc g gs)
  have fin: "card (sg_ranking_team_id ` set gs) \<le> card (sg_ranking_team_id ` set (gs @ [g]))"
    by (rule card_mono) auto
  then have ih: "slots_ok team_seasons season existing gs
      (foldl (auto_step team_seasons season existing) [] (enumerate 0 gs))" (is "slots_ok _ _ _ _ ?slots")
    using snoc by simp
  have "length ?slots < 64" if n: "sg_ranking_team_id g \<notin> as_team_id ` set ?slots"
  proof -
    have "insert (sg_ranking_team_id g) (as_team_id ` set ?slots) \<subseteq> sg_ranking_team_id ` set (gs @ [g])"
      using ih by (auto simp: slots_ok_def)
    then have "card (insert (sg_ranking_team_id g) (as_team_id ` set ?slots)) \<le> 64"
      using snoc.prems by (meson card_mono finite_imageI finite_set order_trans)
    then show ?thesis using n card_slots [OF ih] by simp
  qed
  then show ?case
    using auto_step_ok [OF ih, of g] by (simp add: enumerate_append_eq)
qed

section \<open>The saves\<close>

lemma save_new:
  assumes "designations_ok table" and "length table < 64" and "\<not> has_row season (sg_ranking_team_id g) table"
    and "eligible_for team_seasons (sg_ranking_team_id g) g" and "1982 \<le> season" and "season \<le> 2200"
    and "\<forall>rows. write rows"
  shows "exception_save write team_seasons season (sg_ranking_team_id g) (sg_player_key g) (sg_player_name g) table
     = (sort_key designation_key table @ [designation_row season g], True)"
proof -
  have l: "kbo_cbt_exception_load_designations table = sort_key designation_key table"
    using load_ok [OF assms(1)] assms(2) by simp
  have "first_index (\<lambda>r. ed_season r = season \<and> ed_team_id r = sg_ranking_team_id g)
      (sort_key designation_key table) = None"
    using assms(3) by (auto simp: first_index_None has_row_def)
  then show ?thesis
    using assms(2,4-7) unfolding exception_save_def l
    by (auto simp: kbo_cbt_exception_save_designation_def Let_def eligible_for_def auto_candidate_def
        CBT_EXCEPTION_MAX_def designation_row_def split: option.splits)
qed

lemma row_ok:
  assumes "eligible_for team_seasons t g" and "season \<noteq> 0"
  shows "ed_season (designation_row season g) = season" "ed_team_id (designation_row season g) = t"
    "t \<noteq> 0" "ed_player_key (designation_row season g) \<noteq> []"
  using assms by (auto simp: designation_row_def eligible_for_def auto_candidate_def strbuf_def)

text \<open>The rows the slots ask for.\<close>

definition chosen_rows :: "u32 \<Rightarrow> salary_grade list \<Rightarrow> auto_slot list \<Rightarrow> exception_designation list" where
  "chosen_rows season grades slots =
     map (\<lambda>s. designation_row season (grades ! the (as_best_grade_index s)))
       (filter (\<lambda>s. as_best_grade_index s \<noteq> None) slots)"

lemma auto_saves:
  assumes "\<forall>rows. write rows" and "1982 \<le> season" and "season \<le> 2200"
    and "distinct (map as_team_id slots)" and "\<forall>s \<in> set slots. slot_ok team_seasons grades s"
    and "\<forall>s \<in> set slots. \<not> has_row season (as_team_id s) table"
    and "designations_ok table" and "length table + length slots \<le> 64"
    and "foldl (auto_save write team_seasons season grades) (table, n) slots = (table', n')"
  shows "designations_ok table' \<and> mset table' = mset table + mset (chosen_rows season grades slots)
     \<and> n' = n + int (length (chosen_rows season grades slots))"
  using assms(4-9)
proof (induction slots arbitrary: table n)
  case Nil
  then show ?case by (simp add: chosen_rows_def)
next
  case (Cons s slots)
  show ?case
  proof (cases "as_best_grade_index s")
    case None
    then have "auto_save write team_seasons season grades (table, n) s = (table, n)"
      by (simp add: auto_save_def)
    then have "foldl (auto_save write team_seasons season grades) (table, n) slots = (table', n')"
      using Cons.prems(6) by simp
    then have "designations_ok table' \<and> mset table' = mset table + mset (chosen_rows season grades slots)
        \<and> n' = n + int (length (chosen_rows season grades slots))"
      using Cons.prems by (intro Cons.IH) auto
    then show ?thesis using None by (simp add: chosen_rows_def)
  next
    case (Some i)
    let ?g = "grades ! i"
    have e: "eligible_for team_seasons (as_team_id s) ?g"
      using Cons.prems(2) Some by (simp add: slot_ok_def best_paid_def)
    then have t: "sg_ranking_team_id ?g = as_team_id s" by (simp add: eligible_for_def)
    have nz: "season \<noteq> 0" using assms(2) by auto
    let ?rows = "sort_key designation_key table @ [designation_row season ?g]"
    have "exception_save write team_seasons season (sg_ranking_team_id ?g) (sg_player_key ?g)
        (sg_player_name ?g) table = (?rows, True)"
      using Cons.prems e t assms(1-3) by (intro save_new) auto
    then have "auto_save write team_seasons season grades (table, n) s = (?rows, n + 1)"
      using Some by (simp add: auto_save_def Let_def)
    then have f: "foldl (auto_save write team_seasons season grades) (?rows, n + 1) slots = (table', n')"
      using Cons.prems(6) by simp
    have ok: "designations_ok ?rows"
      using row_ok [OF e nz] Cons.prems(3,4) e nz by (intro append_ok sorted_ok) (auto simp: has_row_def)
    have free: "\<forall>s' \<in> set slots. \<not> has_row season (as_team_id s') ?rows"
      using Cons.prems(1,3) row_ok(2) [OF e nz] by (auto simp: has_row_def)
    have "designations_ok table' \<and> mset table' = mset ?rows + mset (chosen_rows season grades slots)
        \<and> n' = n + 1 + int (length (chosen_rows season grades slots))"
      using Cons.prems free ok f by (intro Cons.IH) auto
    then show ?thesis using Some by (simp add: chosen_rows_def)
  qed
qed

text \<open>The rows of a finished scan are the best paid players of the teams without one.\<close>

lemma chosen_rows_set:
  assumes ok: "slots_ok team_seasons season existing grades slots"
  shows "set (chosen_rows season grades slots) = {designation_row season (grades ! i) | i.
      best_paid team_seasons grades (sg_ranking_team_id (grades ! i)) i
      \<and> \<not> has_row season (sg_ranking_team_id (grades ! i)) existing}" (is "?L = ?R")
proof
  have good: "\<forall>s \<in> set slots. slot_ok team_seasons grades s"
    and teams: "as_team_id ` set slots = {sg_ranking_team_id g | g. g \<in> set grades \<and> auto_candidate g
      \<and> \<not> has_row season (sg_ranking_team_id g) existing}"
    using ok by (auto simp: slots_ok_def)
  show "?L \<subseteq> ?R"
  proof
    fix r assume "r \<in> ?L"
    then obtain s i where s: "s \<in> set slots" "as_best_grade_index s = Some i" "r = designation_row season (grades ! i)"
      by (auto simp: chosen_rows_def)
    then have b: "best_paid team_seasons grades (as_team_id s) i" using good by (force simp: slot_ok_def)
    then have t: "sg_ranking_team_id (grades ! i) = as_team_id s" by (simp add: best_paid_def eligible_for_def)
    have "as_team_id s \<in> as_team_id ` set slots" using s(1) by simp
    then have "\<not> has_row season (as_team_id s) existing" unfolding teams by auto
    then show "r \<in> ?R" using s b t by auto
  qed
  show "?R \<subseteq> ?L"
  proof
    fix r assume "r \<in> ?R"
    then obtain i where i: "r = designation_row season (grades ! i)"
        "best_paid team_seasons grades (sg_ranking_team_id (grades ! i)) i"
        "\<not> has_row season (sg_ranking_team_id (grades ! i)) existing" by blast
    then have "auto_candidate (grades ! i)" "grades ! i \<in> set grades"
      by (auto simp: best_paid_def eligible_for_def)
    then have "sg_ranking_team_id (grades ! i) \<in> as_team_id ` set slots"
      unfolding teams using i(3) by blast
    then obtain s where s: "s \<in> set slots" "as_team_id s = sg_ranking_team_id (grades ! i)" by auto
    then have so: "slot_ok team_seasons grades s" using good by blast
    show "r \<in> ?L"
    proof (cases "as_best_grade_index s")
      case None
      then show ?thesis using so s(2) i(2) by (auto simp: slot_ok_def best_paid_def)
    next
      case (Some j)
      then have "best_paid team_seasons grades (sg_ranking_team_id (grades ! i)) j"
        using so s(2) by (simp add: slot_ok_def)
      then have "j = i" using i(2) unfolding best_paid_def by (metis less_asym' linorder_neqE_nat not_less)
      then show ?thesis using s Some i(1) by (force simp: chosen_rows_def)
    qed
  qed
qed

lemma slots_are_teams:
  assumes ok: "slots_ok team_seasons season existing grades slots"
  shows "length slots \<le> card (sg_ranking_team_id ` set grades)"
    and "\<forall>s \<in> set slots. \<not> has_row season (as_team_id s) existing"
proof -
  have teams: "as_team_id ` set slots = {sg_ranking_team_id g | g. g \<in> set grades \<and> auto_candidate g
      \<and> \<not> has_row season (sg_ranking_team_id g) existing}"
    using ok by (auto simp: slots_ok_def)
  show "length slots \<le> card (sg_ranking_team_id ` set grades)"
    unfolding card_slots [OF ok] teams by (rule card_mono) auto
  show "\<forall>s \<in> set slots. \<not> has_row season (as_team_id s) existing"
  proof
    fix s assume "s \<in> set slots"
    then have "as_team_id s \<in> as_team_id ` set slots" by simp
    then show "\<not> has_row season (as_team_id s) existing" unfolding teams by auto
  qed
qed

lemma auto_designate_rows:
  assumes "\<forall>rows. write rows" and "1982 \<le> season" and "season \<le> 2200" and "designations_ok table"
    and room: "length table + card (sg_ranking_team_id ` set grades) \<le> 64"
    and res: "kbo_cbt_exception_auto_designate_missing write team_seasons season grades table = (table', n)"
  shows "designations_ok table' \<and> int (length table') = int (length table) + n \<and> length table' \<le> 64
     \<and> set table' = set table \<union> {designation_row season (grades ! i) | i.
          best_paid team_seasons grades (sg_ranking_team_id (grades ! i)) i
          \<and> \<not> has_row season (sg_ranking_team_id (grades ! i)) table}"
proof (cases "grades = []")
  case True
  then have "kbo_cbt_exception_auto_designate_missing write team_seasons season grades table = (table, 0)"
    by (simp add: kbo_cbt_exception_auto_designate_missing_def)
  then show ?thesis using True res assms(4) room by (auto simp: best_paid_def)
next
  case False
  let ?ex = "kbo_cbt_exception_load_designations table"
  let ?slots = "foldl (auto_step team_seasons season ?ex) [] (enumerate 0 grades)"
  have len: "length table \<le> 64" using room by simp
  have hr: "has_row season t ?ex = has_row season t table" for t
    using load_ok_set [OF assms(4) len] by (simp add: has_row_def)
  have c: "card (sg_ranking_team_id ` set grades) \<le> 64" using room by simp
  have ok: "slots_ok team_seasons season ?ex grades ?slots" by (rule auto_scan_ok [OF c])
  have dist: "distinct (map as_team_id ?slots)" and good: "\<forall>s \<in> set ?slots. slot_ok team_seasons grades s"
    using ok by (auto simp: slots_ok_def)
  have f: "foldl (auto_save write team_seasons season grades) (table, 0) ?slots = (table', n)"
  proof -
    have "\<not> season < SEASON_YEAR_MIN" "\<not> season > SIM_YEAR_MAX"
      using assms(2,3) by (simp_all add: SEASON_YEAR_MIN_def SIM_YEAR_MAX_def not_less)
    then show ?thesis using res False by (simp add: kbo_cbt_exception_auto_designate_missing_def Let_def)
  qed
  have room': "length table + length ?slots \<le> 64" using room slots_are_teams(1) [OF ok] by linarith
  from auto_saves [OF assms(1-3) dist good slots_are_teams(2) [OF ok, unfolded hr] assms(4) room' f]
  have saved: "designations_ok table'" "mset table' = mset table + mset (chosen_rows season grades ?slots)"
      "n = int (length (chosen_rows season grades ?slots))"
    by simp_all
  moreover have "set table' = set table \<union> set (chosen_rows season grades ?slots)"
    "length table' = length table + length (chosen_rows season grades ?slots)"
    using saved(2) by (metis set_mset_mset set_mset_union, metis size_mset size_union)
  moreover have "length (chosen_rows season grades ?slots) \<le> length ?slots" by (simp add: chosen_rows_def)
  ultimately show ?thesis using saved room' chosen_rows_set [OF ok] unfolding hr by simp
qed

text \<open>When every team with an eligible player has its row, the automatic choice does nothing.\<close>

lemma auto_designate_settled:
  assumes "designations_ok table" and "length table \<le> 64" and c: "card (sg_ranking_team_id ` set grades) \<le> 64"
    and all: "\<forall>i. best_paid team_seasons grades (sg_ranking_team_id (grades ! i)) i \<longrightarrow>
      has_row season (sg_ranking_team_id (grades ! i)) table"
  shows "kbo_cbt_exception_auto_designate_missing write team_seasons season grades table = (table, 0)"
proof -
  let ?ex = "kbo_cbt_exception_load_designations table"
  let ?slots = "foldl (auto_step team_seasons season ?ex) [] (enumerate 0 grades)"
  have hr: "has_row season t ?ex = has_row season t table" for t
    using load_ok_set [OF assms(1,2)] by (simp add: has_row_def)
  have ok: "slots_ok team_seasons season ?ex grades ?slots" by (rule auto_scan_ok [OF c])
  have "set (chosen_rows season grades ?slots) = {}"
    unfolding chosen_rows_set [OF ok] hr using all by blast
  then have none: "\<forall>s \<in> set ?slots. as_best_grade_index s = None"
    by (auto simp: chosen_rows_def filter_empty_conv)
  have "foldl (auto_save write team_seasons season grades) tc slots = tc"
    if "\<forall>s \<in> set slots. as_best_grade_index s = None" for slots tc
    using that by (induction slots) (simp_all add: auto_save_def)
  then show ?thesis using none by (simp add: kbo_cbt_exception_auto_designate_missing_def Let_def)
qed

lemma auto_designate_twice:
  fixes season :: u32 and team_seasons :: "u32 \<Rightarrow> string \<Rightarrow> int option"
  assumes "\<forall>rows. write rows" and "designations_ok table"
    and room: "length table + card (sg_ranking_team_id ` set grades) \<le> 64"
  defines "table' \<equiv> fst (kbo_cbt_exception_auto_designate_missing write team_seasons season grades table)"
  shows "fst (kbo_cbt_exception_auto_designate_missing write team_seasons season grades table') = table'"
proof (cases "season < 1982 \<or> season > 2200")
  case True
  then show ?thesis
    by (auto simp: kbo_cbt_exception_auto_designate_missing_def SEASON_YEAR_MIN_def SIM_YEAR_MAX_def)
next
  case False
  then have s: "1982 \<le> season" "season \<le> 2200" by (simp_all add: not_less)
  obtain n where r: "kbo_cbt_exception_auto_designate_missing write team_seasons season grades table = (table', n)"
    unfolding table'_def by (cases "kbo_cbt_exception_auto_designate_missing write team_seasons season grades table") simp
  note rows = auto_designate_rows [OF assms(1) s assms(2) room r]
  have "has_row season (sg_ranking_team_id (grades ! i)) table'"
    if "best_paid team_seasons grades (sg_ranking_team_id (grades ! i)) i" for i
  proof (cases "has_row season (sg_ranking_team_id (grades ! i)) table")
    case True
    then show ?thesis using rows by (auto simp: has_row_def)
  next
    case False
    then have "designation_row season (grades ! i) \<in> set table'" using rows that by blast
    then show ?thesis by (force simp: has_row_def designation_row_def)
  qed
  then show ?thesis using auto_designate_settled [of table' grades team_seasons season "write"] rows room by auto
qed

section \<open>Properties\<close>

definition demo_player :: "int \<Rightarrow> string \<Rightarrow> salary_grade" where
  "demo_player salary key = \<lparr>sg_ranking_team_id = 5, sg_foreign_flag = False, sg_salary = salary,
     sg_player_key = key, sg_player_name = key\<rparr>"

definition demo_full_table :: "exception_designation list" where
  "demo_full_table = map (\<lambda>i. \<lparr>ed_season = 2020, ed_team_id = of_nat (Suc i), ed_player_key = ''a'',
     ed_player_name = ''''\<rparr>) [0..<64]"

lemma demo_full_table_ok: "designations_ok demo_full_table" "length demo_full_table = 64"
proof -
  have u: "unat (word_of_nat (Suc i) :: u32) = Suc i" if "i < 64" for i :: nat
    using that by (simp only: unat_of_nat) simp
  have "designation_key \<lparr>ed_season = 2020, ed_team_id = of_nat (Suc i), ed_player_key = ''a'',
     ed_player_name = ''''\<rparr> = 2020 * 4294967296 + Suc i" if "i < 64" for i
    using u [OF that] by (simp only: designation_key_def exception_designation.simps) simp
  then have "map designation_key demo_full_table = map (\<lambda>i. 2020 * 4294967296 + Suc i) [0..<64]"
    by (simp add: demo_full_table_def del: upt_Suc)
  moreover have "distinct (map (\<lambda>i. 2020 * 4294967296 + Suc i) [0..<64])"
    by (simp add: distinct_map inj_on_def del: upt_Suc)
  ultimately have "distinct (map designation_key demo_full_table)" by simp
  moreover have "(word_of_nat (Suc i) :: u32) \<noteq> 0" if "i < 64" for i :: nat
    using u [OF that] by (metis nat.distinct(1) unat_0)
  ultimately show "designations_ok demo_full_table"
    by (auto simp: designations_ok_def demo_full_table_def simp del: upt_Suc)
  show "length demo_full_table = 64" by (simp add: demo_full_table_def)
qed

text \<open>
  The automatic choice.  While the table has room, filling in the missing designations
  keeps every existing one and adds, for each team without one, its best paid eligible
  domestic player (the first of them in the snapshot), and nothing else; the count it
  returns is the number of rows added.
\<close>

theorem auto_designates_best_paid:
  assumes "\<forall>rows. write rows" and "1982 \<le> season" and "season \<le> 2200" and "designations_ok table"
    and "length table + card (sg_ranking_team_id ` set grades) \<le> 64"
  shows "case kbo_cbt_exception_auto_designate_missing write team_seasons season grades table of (table', n) \<Rightarrow>
     designations_ok table' \<and> int (length table') = int (length table) + n
     \<and> set table' = set table \<union> {designation_row season (grades ! i) | i.
          best_paid team_seasons grades (sg_ranking_team_id (grades ! i)) i
          \<and> \<not> has_row season (sg_ranking_team_id (grades ! i)) table}"
  using auto_designate_rows [OF assms] by (auto split: prod.split)

theorem auto_designates_best_paid_witness:
  "\<exists>table' n. kbo_cbt_exception_auto_designate_missing (\<lambda>_. True) (\<lambda>_ _. Some 7) 2027
       [demo_player 100 ''a'', demo_player 300 ''b''] [] = (table', n)
     \<and> designations_ok table' \<and> designation_row 2027 (demo_player 300 ''b'') \<in> set table'"
proof -
  let ?gs = "[demo_player 100 ''a'', demo_player 300 ''b'']"
  obtain table' n where t: "kbo_cbt_exception_auto_designate_missing (\<lambda>_. True) (\<lambda>_ _. Some 7) 2027 ?gs []
      = (table', n)" by fastforce
  have "designations_ok table' \<and> set table' = {designation_row 2027 (?gs ! i) | i.
      best_paid (\<lambda>_ _. Some 7) ?gs (sg_ranking_team_id (?gs ! i)) i}"
    using auto_designates_best_paid [of "\<lambda>_. True" 2027 "[]" ?gs "\<lambda>_ _. Some 7"] t
    by (simp add: designations_ok_def has_row_def demo_player_def)
  moreover have "best_paid (\<lambda>_ _. Some 7) ?gs (sg_ranking_team_id (?gs ! 1)) 1"
    by (simp add: best_paid_def eligible_for_def auto_candidate_def demo_player_def All_less_Suc)
  ultimately have "designations_ok table' \<and> designation_row 2027 (?gs ! 1) \<in> set table'" by blast
  then show ?thesis using t by (intro exI [of _ table'] exI [of _ n]) simp
qed

text \<open>
  A table that is full with designations of other seasons refuses every new one: the
  automatic choice creates nothing and the table stays as it is, whatever the players.  Since
  rows of past seasons are never removed, this is what happens after 64 designations.
\<close>

theorem full_designation_table_blocks:
  assumes "length (kbo_cbt_exception_load_designations table) = 64"
    and "\<forall>r \<in> set (kbo_cbt_exception_load_designations table). ed_season r \<noteq> season"
  shows "kbo_cbt_exception_auto_designate_missing write team_seasons season grades table = (table, 0)
     \<and> exception_save write team_seasons season t key name table = (table, False)"
proof -
  let ?rows = "kbo_cbt_exception_load_designations table"
  have no: "first_index (\<lambda>r. ed_season r = season \<and> ed_team_id r = u) ?rows = None" for u
    using assms(2) by (auto simp: first_index_None)
  have save: "exception_save write team_seasons season u k nm table = (table, False)" for u k nm
    using assms(1) no [of u]
    by (auto simp: exception_save_def kbo_cbt_exception_save_designation_def Let_def CBT_EXCEPTION_MAX_def
        split: option.splits)
  have "foldl (auto_save write team_seasons season grades) (table, 0) slots = (table, 0)" for slots
    by (induction slots) (auto simp: auto_save_def Let_def save split: option.splits)
  then show ?thesis using save by (simp add: kbo_cbt_exception_auto_designate_missing_def Let_def)
qed

theorem full_designation_table_blocks_witness:
  "kbo_cbt_exception_auto_designate_missing (\<lambda>_. True) (\<lambda>_ _. Some 7) 2027
     [demo_player 100 ''a''] demo_full_table = (demo_full_table, 0)"
proof -
  have "length (kbo_cbt_exception_load_designations demo_full_table) = 64"
    "set (kbo_cbt_exception_load_designations demo_full_table) = set demo_full_table"
    using load_ok_set [OF demo_full_table_ok(1)] demo_full_table_ok(2) by simp_all
  moreover have "\<forall>r \<in> set demo_full_table. ed_season r \<noteq> 2027" by (auto simp: demo_full_table_def)
  ultimately show ?thesis
    using full_designation_table_blocks [of demo_full_table 2027 "\<lambda>_. True" "\<lambda>_ _. Some 7" "[demo_player 100 ''a'']"]
    by simp
qed

text \<open>
  The designation window opens on the opening day of the season and closes the
  configured number of days later: on valid dates it is open exactly on the days whose
  number lies in that range.
\<close>

theorem window_is_days_after_opening:
  assumes "fst (kbo_cbt_exception_resolve_opening_day league_id calendar snapshot_opening season) = Some day"
    and "kbo_yyyymmdd_valid day" and "kbo_yyyymmdd_valid today"
    and "kbo_yyyymmdd_add_days day (cr_exception_deadline_days_after_opening rules) \<noteq> 0"
  shows "kbo_cbt_exception_designation_window_open rules league_id calendar snapshot_opening season today
     \<longleftrightarrow> unat (serial_of day) \<le> unat (serial_of today)
       \<and> unat (serial_of today) \<le> unat (serial_of day) + unat (cr_exception_deadline_days_after_opening rules)"
proof -
  let ?n = "cr_exception_deadline_days_after_opening rules"
  let ?last = "kbo_yyyymmdd_add_days day ?n"
  have e: "kbo_yyyymmdd_valid ?last" "unat (serial_of ?last) = unat (serial_of day) + unat ?n"
    using add_days_valid [OF assms(2,4)] add_days_serial_eq [OF assms(2,4)] by simp_all
  have le: "a \<le> b \<longleftrightarrow> unat (serial_of a) \<le> unat (serial_of b)"
    if "kbo_yyyymmdd_valid a" "kbo_yyyymmdd_valid b" for a b
    using serial_less_iff [OF that(2,1)] by (simp only: word_order_unat linorder_not_less [symmetric])
  have "kbo_cbt_exception_designation_window_open rules league_id calendar snapshot_opening season today
      \<longleftrightarrow> day \<le> today \<and> today \<le> ?last"
    using assms(1) valid_nonzero [OF assms(3)] add_days_agree [OF assms(2,4)]
    by (simp add: kbo_cbt_exception_designation_window_open_def)
  then show ?thesis
    by (simp only: le [OF assms(2,3)] le [OF assms(3) e(1)] e(2))
qed

theorem window_is_days_after_opening_witness:
  "kbo_cbt_exception_designation_window_open
     (kbo_cbt_rules_init_defaults\<lparr>cr_exception_deadline_days_after_opening := 10\<rparr>) 200
     (\<lambda>_ _. Some 20240323) (\<lambda>_. None) 2024 20240402"
proof -
  let ?rules = "kbo_cbt_rules_init_defaults\<lparr>cr_exception_deadline_days_after_opening := 10\<rparr>"
  have n: "cr_exception_deadline_days_after_opening ?rules = 10" by simp
  have o: "fst (kbo_cbt_exception_resolve_opening_day 200 (\<lambda>_ _. Some 20240323) (\<lambda>_. None) 2024) = Some 20240323"
    by code_simp
  have v: "kbo_yyyymmdd_valid 20240323" "kbo_yyyymmdd_valid 20240402" by code_simp+
  have "serial_of 20240323 = 738968" "serial_of 20240402 = 738978" by code_simp+
  then have s: "unat (serial_of 20240323) = 738968" "unat (serial_of 20240402) = 738978" by simp_all
  have "kbo_yyyymmdd_add_days 20240323 (cr_exception_deadline_days_after_opening ?rules) \<noteq> 0"
    unfolding n add_days_nonzero [OF v(1)] days_to_year_2201 s by simp
  from window_is_days_after_opening [OF o v this] show ?thesis unfolding n s by simp
qed

text \<open>
  A designation that was saved is the one a lookup finds, no other team or season is
  touched, and clearing it gives the table without it.
\<close>

theorem saved_designation_is_found:
  assumes "designations_ok table" and "length table \<le> 64"
    and "exception_save write team_seasons season t key name table = (table', True)"
  shows "designations_ok table'
     \<and> set table' = {r \<in> set table. \<not> (ed_season r = season \<and> ed_team_id r = t)}
         \<union> {\<lparr>ed_season = season, ed_team_id = t, ed_player_key = strbuf 64 key, ed_player_name = strbuf 96 name\<rparr>}
     \<and> kbo_cbt_exception_find_designation table' season t (strbuf 64 key) \<noteq> None
     \<and> set (kbo_cbt_exception_clear_designation season t table')
         = {r \<in> set table. \<not> (ed_season r = season \<and> ed_team_id r = t)}"
proof -
  let ?rows = "kbo_cbt_exception_load_designations table"
  let ?row = "\<lparr>ed_season = season, ed_team_id = t, ed_player_key = strbuf 64 key, ed_player_name = strbuf 96 name\<rparr>"
  have ok: "designations_ok ?rows" and rows: "set ?rows = set table"
    using sorted_ok [OF assms(1)] load_ok [OF assms(1,2)] by simp_all
  have saved: "kbo_cbt_exception_save_designation team_seasons season t key name ?rows = Some table'"
    using assms(3) by (auto simp: exception_save_def split: option.splits if_splits)
  then have g: "\<not> (season < 1982 \<or> season > 2200 \<or> t = 0 \<or> key = [])"
    unfolding kbo_cbt_exception_save_designation_def by (metis option.distinct(1))
  have nz: "season \<noteq> 0" "t \<noteq> 0" "strbuf 64 key \<noteq> []"
    using g by (auto simp: strbuf_def)
  have set': "designations_ok table' \<and> set table' = {r \<in> set table. \<not> (ed_season r = season \<and> ed_team_id r = t)} \<union> {?row}"
  proof (cases "first_index (\<lambda>r. ed_season r = season \<and> ed_team_id r = t) ?rows")
    case None
    then have fresh: "\<not> has_row season t ?rows" by (auto simp: first_index_None has_row_def)
    have "table' = ?rows @ [?row]"
      using saved None by (auto simp: kbo_cbt_exception_save_designation_def Let_def split: if_splits)
    then show ?thesis
      using append_ok [OF ok, of ?row] fresh nz rows by (auto simp: has_row_def)
  next
    case (Some i)
    note i = first_index_Some [OF Some]
    have t': "table' = ?rows[i := ?row]"
      using saved Some by (auto simp: kbo_cbt_exception_save_designation_def Let_def split: if_splits)
    have key: "designation_key (?rows ! i) = designation_key ?row"
      using i by (simp add: designation_key_inject)
    have i1: "i < length ?rows" using i by blast
    have upd: "set table' = insert ?row (set ?rows - {?rows ! i})"
    proof (unfold t', rule set_update_distinct [OF _ i1])
      show "distinct ?rows" using ok by (simp only: designations_ok_def distinct_map)
    qed
    have "designations_ok table'"
      unfolding t' using nz by (intro update_ok [OF ok key]) simp_all
    moreover have "r = ?rows ! i" if "r \<in> set ?rows" "ed_season r = season" "ed_team_id r = t" for r
    proof -
      have "designation_key r = designation_key (?rows ! i)"
        using that key by (simp add: designation_key_inject)
      then show ?thesis
        using ok that(1) i by (metis designations_ok_def distinct_map inj_onD nth_mem)
    qed
    ultimately show ?thesis unfolding upd rows [symmetric] using i by fastforce
  qed
  moreover have "kbo_cbt_exception_find_designation table' season t (strbuf 64 key) \<noteq> None"
    using set' nz by (auto simp: kbo_cbt_exception_find_designation_def first_index_None stricmp_equal_def)
  moreover have "set (kbo_cbt_exception_clear_designation season t table')
      = {r \<in> set table. \<not> (ed_season r = season \<and> ed_team_id r = t)}"
    using set' by (auto simp: kbo_cbt_exception_clear_designation_def)
  ultimately show ?thesis by blast
qed

theorem saved_designation_is_found_witness:
  "\<exists>table'. exception_save (\<lambda>_. True) (\<lambda>_ _. Some 8) 2027 5 ''kim'' ''Kim'' [] = (table', True)
     \<and> kbo_cbt_exception_find_designation table' 2027 5 ''kim'' \<noteq> None"
proof -
  have s: "exception_save (\<lambda>_. True) (\<lambda>_ _. Some 8) 2027 5 ''kim'' ''Kim'' []
      = ([\<lparr>ed_season = 2027, ed_team_id = 5, ed_player_key = ''kim'', ed_player_name = ''Kim''\<rparr>], True)"
    by code_simp
  have "designations_ok []" by (simp add: designations_ok_def)
  from saved_designation_is_found [OF this _ s] s show ?thesis by simp
qed

end
