(* ===== verification/CbtRecords.thy ===== *)
theory CbtRecords
  imports CbtRules CbtPayroll GameMemory
begin

text \<open>
  The records of the competitive balance tax, one per taxed season and team:
  \<open>native/src/competitive_balance_tax/records/cbt_records.c\<close>, and the draft penalty that is
  read off them, \<open>draft/penalty/cbt_draft_penalty.c\<close>.  The rows live in the save database;
  they are a list here.
\<close>

section \<open>Records\<close>

record cbt_record =
  rc_season :: u32
  rc_team_id :: u32
  rc_payroll :: int
  rc_threshold :: int
  rc_overage :: int
  rc_tax_rate_pct :: u32
  rc_tax_amount :: int
  rc_consecutive_count :: u32
  rc_processed_date :: u32
  rc_team_name :: string

definition CBT_RECORDS_MAX :: nat where "CBT_RECORDS_MAX = 500"

definition kbo_cbt_find_record :: "cbt_record list \<Rightarrow> u32 \<Rightarrow> u32 \<Rightarrow> nat option" where
  "kbo_cbt_find_record records season team_id =
     first_index (\<lambda>r. rc_season r = season \<and> rc_team_id r = team_id) records"

text \<open>
  The streak loop walks back from the season before; \<open>1900\<close> is its lower limit, so the
  season is a natural number here.
\<close>

fun streak_loop :: "cbt_record list \<Rightarrow> u32 \<Rightarrow> nat \<Rightarrow> u32" where
  "streak_loop records team_id s =
     (if s < 1900 then 0
      else case kbo_cbt_find_record records (of_nat s) team_id of
          None \<Rightarrow> 0
        | Some i \<Rightarrow> if rc_overage (records ! i) > 0 then 1 + streak_loop records team_id (s - 1) else 0)"

declare streak_loop.simps [simp del]

definition kbo_cbt_get_consecutive_count :: "cbt_record list \<Rightarrow> u32 \<Rightarrow> u32 \<Rightarrow> u32" where
  "kbo_cbt_get_consecutive_count records team_id before_season =
     (if records = [] \<or> team_id = 0 \<or> before_season = 0 then 0
      else streak_loop records team_id (unat (before_season - 1)))"

section \<open>Draft penalty\<close>

text \<open>
  \<open>draft/penalty/cbt_draft_penalty.c\<close>: the cached rules and records, and the stages a team
  falls back.  The scan keeps the first record of the latest season.
\<close>

record draft_penalty_cache =
  dc_valid :: bool
  dc_records :: "cbt_record list"
  dc_min_consecutive :: u32
  dc_stages :: u32

definition kbo_cbt_draft_penalty_cache_clear :: "draft_penalty_cache \<Rightarrow> draft_penalty_cache" where
  "kbo_cbt_draft_penalty_cache_clear c = c\<lparr>dc_valid := False\<rparr>"

definition kbo_cbt_draft_penalty_load_cache ::
    "cbt_rules \<Rightarrow> cbt_record list \<Rightarrow> draft_penalty_cache \<Rightarrow> draft_penalty_cache" where
  "kbo_cbt_draft_penalty_load_cache rules records c =
     (if dc_valid c then c
      else \<lparr>dc_valid = True, dc_records = records,
            dc_min_consecutive = cr_draft_penalty_min_consecutive rules,
            dc_stages = cr_draft_penalty_stages rules\<rparr>)"

fun latest_record :: "u32 \<Rightarrow> cbt_record list \<Rightarrow> u32 \<Rightarrow> cbt_record option \<Rightarrow> cbt_record option" where
  "latest_record team_id [] best_season best = best"
| "latest_record team_id (r # rs) best_season best =
     (if rc_team_id r = team_id \<and> rc_season r > best_season
      then latest_record team_id rs (rc_season r) (Some r)
      else latest_record team_id rs best_season best)"

definition kbo_cbt_draft_penalty_stages_for_team ::
    "cbt_rules \<Rightarrow> cbt_record list \<Rightarrow> u32 \<Rightarrow> draft_penalty_cache \<Rightarrow> draft_penalty_cache \<times> int" where
  "kbo_cbt_draft_penalty_stages_for_team rules records team_id c =
     (if team_id = 0 then (c, 0)
      else
        let c1 = kbo_cbt_draft_penalty_load_cache rules records c
        in (c1,
            case latest_record team_id (dc_records c1) 0 None of
              None \<Rightarrow> 0
            | Some rec \<Rightarrow>
                if rc_overage rec \<le> 0 then 0
                else if rc_consecutive_count rec < dc_min_consecutive c1 then 0
                else sint (dc_stages c1)))"

end
