(* ===== verification/CbtDraftOrder.thy ===== *)
theory CbtDraftOrder
  imports CbtRecords
begin

text \<open>
  Moving penalised teams back in the draft order:
  \<open>native/src/competitive_balance_tax/draft/order/cbt_draft_order_penalty.c\<close> (with the hook of
  \<open>cbt_draft_order_hook.c\<close>).

  \<open>draft_memory\<close> is what the code reads and writes of the game: for a draft state its
  vector of row pointers, and the rows behind the pointers, \<open>None\<close> where a row cannot be
  read.  \<open>draft_globals\<close> are the module's globals.  The sort by pick is \<open>qsort\<close>; where picks
  are equal its order is unspecified, and the model keeps the order of the vector.
\<close>

unbundle bit_operations_syntax

section \<open>State\<close>

record draft_row =
  dr_original_team :: u32
  dr_owner_team :: u32
  dr_round :: u16
  dr_pick :: u16
  dr_supplemental :: u8

record draft_memory =
  dm_state_readable :: "u64 \<Rightarrow> bool"
  dm_vector :: "u64 \<Rightarrow> u64"
  dm_count :: "u64 \<Rightarrow> int"
  dm_vector_readable :: "u64 \<Rightarrow> int \<Rightarrow> bool"
  dm_entry :: "u64 \<Rightarrow> nat \<Rightarrow> u64"
  dm_row :: "u64 \<Rightarrow> draft_row option"

record draft_slot =
  ds_row :: u64
  ds_pick :: u16
  ds_original_team_id :: u32
  ds_owner_team_id :: u32

record draft_penalty_info =
  dp_season :: u32
  dp_team_id :: u32
  dp_stages :: u32

record draft_move =
  mv_season :: u32
  mv_team_id :: u32
  mv_stages :: u32
  mv_from_pick :: u16
  mv_to_pick :: u16

record draft_globals =
  dg_busy :: bool
  dg_observed_state :: u64
  dg_last_state :: u64
  dg_last_signature :: u64

definition initial_draft_globals :: draft_globals where
  "initial_draft_globals = \<lparr>dg_busy = False, dg_observed_state = 0, dg_last_state = 0, dg_last_signature = 0\<rparr>"

definition DRAFT_ORDER_MAX_ROWS :: int where "DRAFT_ORDER_MAX_ROWS = 4096"
definition DRAFT_ORDER_MAX_ROUND_ROWS :: nat where "DRAFT_ORDER_MAX_ROUND_ROWS = 256"
definition DRAFT_ORDER_MAX_MOVES :: nat where "DRAFT_ORDER_MAX_MOVES = 64"
definition DRAFT_ORDER_TARGET_ROUND :: u16 where "DRAFT_ORDER_TARGET_ROUND = 1"

text \<open>What the module asks of the rest of the program.\<close>

record draft_env =
  de_fix_enabled :: bool
  de_cbt_disabled :: bool
  de_draft_penalty_disabled :: bool
  de_rules :: cbt_rules
  de_records :: "cbt_record list"
  de_team_league :: "u32 \<Rightarrow> u32 option"
  de_main_league :: u32
  de_league_ptr :: "u32 \<Rightarrow> u64"
  de_readable :: "u64 \<Rightarrow> u64 \<Rightarrow> bool"

section \<open>Penalties\<close>

definition kbo_cbt_draft_order_penalty_for_team ::
    "draft_env \<Rightarrow> u32 \<Rightarrow> draft_penalty_info option" where
  "kbo_cbt_draft_order_penalty_for_team env team_id =
     (if team_id = 0 then None
      else case latest_record team_id (de_records env) 0 None of
          None \<Rightarrow> None
        | Some rec \<Rightarrow>
            if rc_overage rec \<le> 0
               \<or> rc_consecutive_count rec < cr_draft_penalty_min_consecutive (de_rules env) then None
            else if cr_draft_penalty_stages (de_rules env) > 0
            then Some \<lparr>dp_season = rc_season rec, dp_team_id = team_id,
                       dp_stages = cr_draft_penalty_stages (de_rules env)\<rparr>
            else None)"

text \<open>The league of the team object found for the id, \<open>None\<close> if there is none to read.\<close>

definition kbo_cbt_draft_order_team_is_main_kbo :: "draft_env \<Rightarrow> u32 \<Rightarrow> bool" where
  "kbo_cbt_draft_order_team_is_main_kbo env team_id =
     (case de_team_league env team_id of None \<Rightarrow> False | Some league \<Rightarrow> league = de_main_league env)"

definition kbo_cbt_draft_order_signature :: "draft_slot list \<Rightarrow> u64" where
  "kbo_cbt_draft_order_signature slots =
     (let h = foldl (\<lambda>h s.
            (h XOR (push_bit 48 (ucast (ds_pick s)) XOR push_bit 16 (ucast (ds_owner_team_id s))
                    XOR ucast (ds_original_team_id s))) * 1099511628211)
          1469598103934665603 slots
      in (h XOR of_nat (length slots)) * 1099511628211)"

section \<open>The slots of the round\<close>

definition slot_of_row :: "draft_memory \<Rightarrow> u64 \<Rightarrow> draft_slot option" where
  "slot_of_row mem row_ptr =
     (if row_ptr = 0 then None
      else case dm_row mem row_ptr of
          None \<Rightarrow> None
        | Some row \<Rightarrow>
            if dr_round row \<noteq> DRAFT_ORDER_TARGET_ROUND \<or> dr_supplemental row \<noteq> 0 then None
            else if dr_pick row = 0 \<or> dr_owner_team row = 0 then None
            else Some \<lparr>ds_row = row_ptr, ds_pick = dr_pick row,
                       ds_original_team_id = dr_original_team row,
                       ds_owner_team_id = dr_owner_team row\<rparr>)"

text \<open>
  The collecting loop; a row too many empties the result.
\<close>

fun collect_loop :: "draft_memory \<Rightarrow> nat \<Rightarrow> u64 list \<Rightarrow> draft_slot list \<Rightarrow> draft_slot list option" where
  "collect_loop mem max_slots [] slots = Some slots"
| "collect_loop mem max_slots (p # ps) slots =
     (case slot_of_row mem p of
        None \<Rightarrow> collect_loop mem max_slots ps slots
      | Some slot \<Rightarrow>
          if length slots \<ge> max_slots then None
          else collect_loop mem max_slots ps (slots @ [slot]))"

definition kbo_cbt_collect_round_slots :: "draft_memory \<Rightarrow> u64 \<Rightarrow> nat \<Rightarrow> draft_slot list" where
  "kbo_cbt_collect_round_slots mem draft_state max_slots =
     (if draft_state = 0 \<or> max_slots = 0 \<or> \<not> dm_state_readable mem draft_state then []
      else
        let vector = dm_vector mem draft_state;
            count = dm_count mem draft_state
        in if vector = 0 \<or> count \<le> 0 \<or> count > DRAFT_ORDER_MAX_ROWS
              \<or> \<not> dm_vector_readable mem vector count then []
           else case collect_loop mem max_slots (map (dm_entry mem vector) [0..<nat count]) [] of
                  None \<Rightarrow> []
                | Some slots \<Rightarrow> sort_key (\<lambda>s. unat (ds_pick s)) slots)"

section \<open>Moving the owners\<close>

definition kbo_cbt_find_owner_index :: "u32 list \<Rightarrow> u32 \<Rightarrow> nat option" where
  "kbo_cbt_find_owner_index owners team_id =
     (if team_id = 0 then None else first_index (\<lambda>t. t = team_id) owners)"

text \<open>The penalties of the owners in the order of the slots, each team once, at most 64.\<close>

fun penalties_loop :: "draft_env \<Rightarrow> draft_slot list \<Rightarrow> draft_penalty_info list \<Rightarrow> draft_penalty_info list" where
  "penalties_loop env [] penalties = penalties"
| "penalties_loop env (s # slots) penalties =
     (if length penalties \<ge> DRAFT_ORDER_MAX_MOVES then penalties
      else if \<not> kbo_cbt_draft_order_team_is_main_kbo env (ds_owner_team_id s)
      then penalties_loop env slots penalties
      else case kbo_cbt_draft_order_penalty_for_team env (ds_owner_team_id s) of
          None \<Rightarrow> penalties_loop env slots penalties
        | Some info \<Rightarrow>
            if dp_stages info = 0 then penalties_loop env slots penalties
            else if list_ex (\<lambda>p. dp_team_id p = ds_owner_team_id s) penalties
            then penalties_loop env slots penalties
            else penalties_loop env slots (penalties @ [info]))"

text \<open>The inner loop: the entries after \<open>from\<close> up to \<open>to\<close> each move one place forward.\<close>

definition shift_forward :: "nat \<Rightarrow> nat \<Rightarrow> u32 list \<Rightarrow> u32 list" where
  "shift_forward from to xs = (foldl (\<lambda>ys i. ys[i := ys ! (i + 1)]) xs [from..<to])[to := xs ! from]"

record draft_work =
  dw_owners :: "u32 list"
  dw_originals :: "u32 list"
  dw_moves :: "draft_move list"

definition apply_penalty :: "draft_slot list \<Rightarrow> bool \<Rightarrow> draft_work \<Rightarrow> draft_penalty_info \<Rightarrow> draft_work" where
  "apply_penalty slots sync_originals w penalty =
     (case kbo_cbt_find_owner_index (dw_owners w) (dp_team_id penalty) of
        None \<Rightarrow> w
      | Some from_index \<Rightarrow>
          let slot_count = int (length slots);
              target = i32 (int from_index + sint (dp_stages penalty));
              to_index = (if target \<ge> slot_count then slot_count - 1 else target)
          in if to_index \<le> int from_index then w
             else
               w\<lparr>dw_owners := shift_forward from_index (nat to_index) (dw_owners w),
                 dw_originals := (if sync_originals
                    then shift_forward from_index (nat to_index) (dw_originals w) else dw_originals w),
                 dw_moves := (if length (dw_moves w) < DRAFT_ORDER_MAX_MOVES
                    then dw_moves w @ [\<lparr>mv_season = dp_season penalty, mv_team_id = dp_team_id penalty,
                           mv_stages = dp_stages penalty,
                           mv_from_pick = ds_pick (slots ! from_index),
                           mv_to_pick = ds_pick (slots ! nat to_index)\<rparr>]
                    else dw_moves w)\<rparr>)"

section \<open>Applying the penalties\<close>

text \<open>One slot written back to its row, and the slots with their new teams.\<close>

definition write_slot :: "bool \<Rightarrow> draft_memory \<Rightarrow> draft_slot \<times> u32 \<times> u32 \<Rightarrow> draft_memory" where
  "write_slot sync_originals mem sot =
     (case sot of (slot, owner, original) \<Rightarrow>
        mem\<lparr>dm_row := (dm_row mem)(ds_row slot :=
          map_option (\<lambda>row. if sync_originals then row\<lparr>dr_owner_team := owner, dr_original_team := original\<rparr>
                            else row\<lparr>dr_owner_team := owner\<rparr>) (dm_row mem (ds_row slot)))\<rparr>)"

definition move_slot :: "bool \<Rightarrow> draft_slot \<times> u32 \<times> u32 \<Rightarrow> draft_slot" where
  "move_slot sync_originals sot =
     (case sot of (slot, owner, original) \<Rightarrow>
        if sync_originals then slot\<lparr>ds_owner_team_id := owner, ds_original_team_id := original\<rparr>
        else slot\<lparr>ds_owner_team_id := owner\<rparr>)"

text \<open>
  The result: the globals, the memory and the moves written to the ledger; their number is
  the return value.  The busy flag is only tested here: every path that sets it clears it.
\<close>

definition kbo_cbt_apply_draft_order_penalties ::
    "draft_env \<Rightarrow> u64 \<Rightarrow> draft_globals \<Rightarrow> draft_memory \<Rightarrow> draft_globals \<times> draft_memory \<times> draft_move list" where
  "kbo_cbt_apply_draft_order_penalties env draft_state g mem =
     (if draft_state = 0 \<or> \<not> de_fix_enabled env then (g, mem, [])
      else if de_cbt_disabled env \<or> de_draft_penalty_disabled env then (g, mem, [])
      else if dg_busy g then (g, mem, [])
      else
        let slots = kbo_cbt_collect_round_slots mem draft_state DRAFT_ORDER_MAX_ROUND_ROWS
        in if length slots \<le> 1 then (g, mem, [])
           else if dg_last_state g = draft_state
                \<and> dg_last_signature g = kbo_cbt_draft_order_signature slots then (g, mem, [])
           else
             let owners = map ds_owner_team_id slots;
                 originals = map ds_original_team_id slots;
                 sync_originals = (owners = originals);
                 penalties = penalties_loop env slots [];
                 w = foldl (apply_penalty slots sync_originals)
                       \<lparr>dw_owners = owners, dw_originals = originals, dw_moves = []\<rparr> penalties
             in if dw_moves w = [] then (g, mem, [])
                else
                  let rows = zip slots (zip (dw_owners w) (dw_originals w));
                      mem' = foldl (write_slot sync_originals) mem rows;
                      slots' = map (move_slot sync_originals) rows
                  in (g\<lparr>dg_last_state := draft_state,
                        dg_last_signature := kbo_cbt_draft_order_signature slots'\<rparr>,
                      mem', dw_moves w))"

definition kbo_cbt_note_draft_order_state :: "u64 \<Rightarrow> draft_globals \<Rightarrow> draft_globals" where
  "kbo_cbt_note_draft_order_state draft_state g =
     (if draft_state = 0 then g else g\<lparr>dg_observed_state := draft_state\<rparr>)"

definition LEAGUE_PRIMARY_DRAFT_STATE_OFFSET :: u64 where "LEAGUE_PRIMARY_DRAFT_STATE_OFFSET = 0x768"
definition DRAFT_STATE_READABLE_BYTES :: u64 where "DRAFT_STATE_READABLE_BYTES = 0x98"

definition kbo_cbt_apply_primary_league_draft_order_penalties ::
    "draft_env \<Rightarrow> u32 \<Rightarrow> draft_globals \<Rightarrow> draft_memory \<Rightarrow> draft_globals \<times> draft_memory \<times> draft_move list" where
  "kbo_cbt_apply_primary_league_draft_order_penalties env league_id g mem =
     (if league_id = 0 then (g, mem, [])
      else
        let league_ptr = de_league_ptr env league_id
        in if league_ptr = 0
              \<or> \<not> de_readable env (league_ptr + LEAGUE_PRIMARY_DRAFT_STATE_OFFSET) DRAFT_STATE_READABLE_BYTES
           then (g, mem, [])
           else
             let draft_state = league_ptr + LEAGUE_PRIMARY_DRAFT_STATE_OFFSET
             in kbo_cbt_apply_draft_order_penalties env draft_state
                  (kbo_cbt_note_draft_order_state draft_state g) mem)"

definition kbo_cbt_apply_pending_draft_order_penalties ::
    "draft_env \<Rightarrow> draft_globals \<Rightarrow> draft_memory \<Rightarrow> draft_globals \<times> draft_memory \<times> draft_move list" where
  "kbo_cbt_apply_pending_draft_order_penalties env g mem =
     (if dg_observed_state g = 0 then (g, mem, [])
      else kbo_cbt_apply_draft_order_penalties env (dg_observed_state g) g mem)"

text \<open>The hook: the game's own function (\<open>create\<close>) runs first, then the penalties.\<close>

definition ootp_kbo_cbt_draft_order_create_wrapper ::
    "draft_env \<Rightarrow> (u64 \<Rightarrow> draft_memory \<Rightarrow> draft_memory) option \<Rightarrow> u64 \<Rightarrow> draft_globals \<Rightarrow> draft_memory
       \<Rightarrow> draft_globals \<times> draft_memory \<times> draft_move list" where
  "ootp_kbo_cbt_draft_order_create_wrapper env create draft_state g mem =
     (let mem1 = (case create of None \<Rightarrow> mem | Some f \<Rightarrow> f draft_state mem)
      in kbo_cbt_apply_draft_order_penalties env draft_state
           (kbo_cbt_note_draft_order_state draft_state g) mem1)"

end
