(* ===== verification/CbtDraftOrderProps.thy ===== *)
theory CbtDraftOrderProps
  imports CbtDraftOrder CbtExceptionsProps
begin

text \<open>
  What the draft order penalties do to the first round: the owners of the picks are
  permuted, a penalised team falls back by its stages and those it passes move up one, and
  the remembered signature keeps a second application in the same process from moving
  anybody again.
\<close>

section \<open>Shifting\<close>

lemma length_shift_loop [simp]: "length (foldl (\<lambda>ys i. ys[i := ys ! Suc i]) xs is) = length xs"
  by (induction "is" arbitrary: xs) simp_all

lemma shift_loop_nth:
  assumes "from + n < length xs" and "j < length xs"
  shows "foldl (\<lambda>ys i. ys[i := ys ! (i + 1)]) xs [from..<from + n] ! j
     = (if from \<le> j \<and> j < from + n then xs ! (j + 1) else xs ! j)"
  using assms
proof (induction n arbitrary: j)
  case 0
  then show ?case by auto
next
  case (Suc n)
  let ?ys = "foldl (\<lambda>ys i. ys[i := ys ! (i + 1)]) xs [from..<from + n]"
  have "?ys ! (from + n + 1) = xs ! (from + n + 1)"
    using Suc.IH [of "from + n + 1"] Suc.prems by simp
  then show ?case
    using Suc.IH [of j] Suc.prems by (auto simp: nth_list_update)
qed

lemma length_shift_forward [simp]: "length (shift_forward from to xs) = length xs"
  by (simp add: shift_forward_def)

lemma shift_forward_nth:
  assumes "from \<le> to" and "to < length xs" and "j < length xs"
  shows "shift_forward from to xs ! j
     = (if j < from \<or> to < j then xs ! j else if j < to then xs ! (j + 1) else xs ! from)"
  using assms shift_loop_nth [of "from" "to - from" xs j]
  by (auto simp: shift_forward_def nth_list_update)

lemma shift_forward_split:
  assumes "from \<le> to" and "to < length xs"
  shows "shift_forward from to xs
     = take from xs @ drop (Suc from) (take (Suc to) xs) @ [xs ! from] @ drop (Suc to) xs"
proof (rule nth_equalityI)
  show "length (shift_forward from to xs)
      = length (take from xs @ drop (Suc from) (take (Suc to) xs) @ [xs ! from] @ drop (Suc to) xs)"
    using assms by simp
  fix j assume "j < length (shift_forward from to xs)"
  then show "shift_forward from to xs ! j
      = (take from xs @ drop (Suc from) (take (Suc to) xs) @ [xs ! from] @ drop (Suc to) xs) ! j"
    using assms by (auto simp: shift_forward_nth nth_append nth_Cons')
qed

lemma mset_shift_forward:
  assumes "from \<le> to" and "to < length xs"
  shows "mset (shift_forward from to xs) = mset xs"
proof -
  have "take (Suc to) xs = take from xs @ xs ! from # drop (Suc from) (take (Suc to) xs)"
    using assms id_take_nth_drop [of "from" "take (Suc to) xs"] by (simp add: min_def)
  then have "mset xs = mset (take from xs @ xs ! from # drop (Suc from) (take (Suc to) xs)) + mset (drop (Suc to) xs)"
    by (metis append_take_drop_id mset_append)
  then show ?thesis using assms by (simp add: shift_forward_split)
qed

section \<open>The work loop\<close>

definition work_ok :: "draft_slot list \<Rightarrow> bool \<Rightarrow> draft_work \<Rightarrow> bool" where
  "work_ok slots sync_originals w \<longleftrightarrow>
     mset (dw_owners w) = mset (map ds_owner_team_id slots)
     \<and> mset (dw_originals w) = mset (map ds_original_team_id slots)
     \<and> (if sync_originals then dw_originals w = dw_owners w
        else dw_originals w = map ds_original_team_id slots)"

lemma work_ok_length:
  "work_ok slots sync_originals w \<Longrightarrow> length (dw_owners w) = length slots \<and> length (dw_originals w) = length slots"
  unfolding work_ok_def by (metis length_map size_mset)

text \<open>Where a penalty takes a team from position \<open>from\<close>.\<close>

definition penalty_target :: "nat \<Rightarrow> nat \<Rightarrow> u32 \<Rightarrow> int" where
  "penalty_target n from stages =
     (let target = i32 (int from + sint stages) in if target \<ge> int n then int n - 1 else target)"

lemma apply_penalty_cases:
  obtains "apply_penalty slots sy w p = w"
  | "from" to mv where "kbo_cbt_find_owner_index (dw_owners w) (dp_team_id p) = Some from"
    and "int to = penalty_target (length slots) from (dp_stages p)" and "from < to"
    and "apply_penalty slots sy w p = w\<lparr>dw_owners := shift_forward from to (dw_owners w),
      dw_originals := (if sy then shift_forward from to (dw_originals w) else dw_originals w),
      dw_moves := mv\<rparr>" and "mv = [] \<longrightarrow> False" and "to < length slots"
proof (cases "kbo_cbt_find_owner_index (dw_owners w) (dp_team_id p)")
  case None
  then show thesis using that(1) by (simp add: apply_penalty_def)
next
  case (Some i)
  let ?t = "penalty_target (length slots) i (dp_stages p)"
  show thesis
  proof (cases "?t \<le> int i")
    case True
    then have "apply_penalty slots sy w p = w"
      using Some by (simp add: apply_penalty_def Let_def penalty_target_def)
    then show thesis by (rule that(1))
  next
    case False
    then have "0 \<le> ?t" "?t < int (length slots)"
      by (auto simp: penalty_target_def Let_def split: if_splits)
    moreover have "apply_penalty slots sy w p = w\<lparr>dw_owners := shift_forward i (nat ?t) (dw_owners w),
      dw_originals := (if sy then shift_forward i (nat ?t) (dw_originals w) else dw_originals w),
      dw_moves := dw_moves (apply_penalty slots sy w p)\<rparr>"
      using Some False by (simp add: apply_penalty_def Let_def penalty_target_def)
    moreover have "dw_moves (apply_penalty slots sy w p) \<noteq> []"
      using Some False by (auto simp: apply_penalty_def Let_def penalty_target_def DRAFT_ORDER_MAX_MOVES_def)
    ultimately show thesis using Some False by (intro that(2) [of i "nat ?t"]) auto
  qed
qed

lemma apply_penalty_ok:
  assumes "work_ok slots sy w"
  shows "work_ok slots sy (apply_penalty slots sy w p)"
proof (cases rule: apply_penalty_cases [of slots sy w p])
  case 1
  then show ?thesis using assms by simp
next
  case (2 "from" to mv)
  then show ?thesis
    using assms work_ok_length [OF assms] by (auto simp: work_ok_def mset_shift_forward)
qed

lemma apply_penalties_ok:
  "work_ok slots sy w \<Longrightarrow> work_ok slots sy (foldl (apply_penalty slots sy) w ps)"
  by (induction ps arbitrary: w) (simp_all add: apply_penalty_ok)

lemma moves_stay: "dw_moves w \<noteq> [] \<Longrightarrow> dw_moves (foldl (apply_penalty slots sy) w ps) \<noteq> []"
proof (induction ps arbitrary: w)
  case (Cons p ps)
  have "dw_moves (apply_penalty slots sy w p) \<noteq> []"
    using Cons.prems by (cases rule: apply_penalty_cases [of slots sy w p]) auto
  then show ?case using Cons.IH by simp
qed simp

section \<open>Collecting after writing back\<close>

lemma sort_key_map_same:
  assumes "\<And>x. k (f x) = k' x"
  shows "sort_key k (map f xs) = map f (sort_key k' xs)"
proof -
  have "insort_key k (f x) (map f ys) = map f (insort_key k' x ys)" for x ys
    by (induction ys) (simp_all add: assms)
  then show ?thesis by (induction xs) (simp_all add: sort_key_def)
qed

text \<open>The teams written to a row, by its address.\<close>

definition assigned :: "(draft_slot \<times> u32 \<times> u32) list \<Rightarrow> u64 \<Rightarrow> (u32 \<times> u32) option" where
  "assigned rows = map_of (map (\<lambda>(s, ot). (ds_row s, ot)) rows)"

definition write_row :: "bool \<Rightarrow> u32 \<times> u32 \<Rightarrow> draft_row \<Rightarrow> draft_row" where
  "write_row sync_originals ot row =
     (if sync_originals then row\<lparr>dr_owner_team := fst ot, dr_original_team := snd ot\<rparr>
      else row\<lparr>dr_owner_team := fst ot\<rparr>)"

lemma write_slot_row:
  "dm_row (write_slot sy mem (s, ot)) q
     = (if q = ds_row s then map_option (write_row sy ot) (dm_row mem q) else dm_row mem q)"
  "(write_slot sy mem (s, ot))\<lparr>dm_row := f\<rparr> = mem\<lparr>dm_row := f\<rparr>"
proof -
  have "(\<lambda>row. if sy then row\<lparr>dr_owner_team := fst ot, dr_original_team := snd ot\<rparr>
      else row\<lparr>dr_owner_team := fst ot\<rparr>) = write_row sy ot"
    by (simp add: fun_eq_iff write_row_def)
  then show "dm_row (write_slot sy mem (s, ot)) q
     = (if q = ds_row s then map_option (write_row sy ot) (dm_row mem q) else dm_row mem q)"
    by (simp add: write_slot_def split_beta)
  show "(write_slot sy mem (s, ot))\<lparr>dm_row := f\<rparr> = mem\<lparr>dm_row := f\<rparr>"
    by (cases ot) (simp add: write_slot_def)
qed

lemma write_slots_memory:
  assumes "distinct (map (\<lambda>(s, ot). ds_row s) rows)"
  shows "dm_row (foldl (write_slot sy) mem rows) p
     = (case assigned rows p of None \<Rightarrow> dm_row mem p | Some ot \<Rightarrow> map_option (write_row sy ot) (dm_row mem p))"
    and "(foldl (write_slot sy) mem rows)\<lparr>dm_row := f\<rparr> = mem\<lparr>dm_row := f\<rparr>"
  using assms
proof (induction rows arbitrary: mem)
  case Nil
  { case 1 then show ?case by (simp add: assigned_def) }
  { case 2 then show ?case by simp }
next
  case (Cons r rows)
  obtain s ot where r: "r = (s, ot)" by (cases r)
  {
    case 1
    then have d: "distinct (map (\<lambda>(s, ot). ds_row s) rows)" "ds_row s \<notin> (\<lambda>(s, ot). ds_row s) ` set rows"
      by (auto simp: r)
    then have "assigned rows (ds_row s) = None"
      by (auto simp: assigned_def map_of_eq_None_iff image_def split_beta)
    then show ?case
      using Cons.IH(1) [OF d(1), of "write_slot sy mem r"]
      by (auto simp: r assigned_def write_slot_row split: option.splits)
  next
    case 2
    then have "distinct (map (\<lambda>(s, ot). ds_row s) rows)" by (auto simp: r)
    from Cons.IH(2) [OF this, of "write_slot sy mem r"] show ?case
      by (simp add: r write_slot_row)
  }
qed

text \<open>The effect on a slot that is collected later.\<close>

definition update_slot :: "bool \<Rightarrow> (draft_slot \<times> u32 \<times> u32) list \<Rightarrow> draft_slot \<Rightarrow> draft_slot" where
  "update_slot sy rows s = (case assigned rows (ds_row s) of None \<Rightarrow> s | Some ot \<Rightarrow> move_slot sy (s, ot))"

lemma update_slot_same [simp]:
  "ds_row (update_slot sy rows s) = ds_row s" "ds_pick (update_slot sy rows s) = ds_pick s"
  by (auto simp: update_slot_def move_slot_def split: option.splits prod.splits)

lemma slot_of_row_row: "slot_of_row mem p = Some s \<Longrightarrow> ds_row s = p"
  by (auto simp: slot_of_row_def split: if_splits option.splits)

lemma slot_of_row_written:
  assumes "distinct (map (\<lambda>(s, ot). ds_row s) rows)" and "\<forall>(s, ot) \<in> set rows. fst ot \<noteq> 0"
  shows "(case slot_of_row mem p of Some s \<Rightarrow> True | None \<Rightarrow> assigned rows p = None) \<Longrightarrow>
     slot_of_row (foldl (write_slot sy) mem rows) p = map_option (update_slot sy rows) (slot_of_row mem p)"
proof (cases "assigned rows p")
  case None
  have m: "dm_row (foldl (write_slot sy) mem rows) p = dm_row mem p"
    using write_slots_memory(1) [OF assms(1), of sy mem p] None by simp
  have same: "slot_of_row (foldl (write_slot sy) mem rows) p = slot_of_row mem p"
    unfolding slot_of_row_def m ..
  have "update_slot sy rows s = s" if "slot_of_row mem p = Some s" for s
    using slot_of_row_row [OF that] None by (simp add: update_slot_def)
  then show ?thesis unfolding same by (cases "slot_of_row mem p") simp_all
next
  case (Some ot)
  assume "case slot_of_row mem p of Some s \<Rightarrow> True | None \<Rightarrow> assigned rows p = None"
  then obtain s where s: "slot_of_row mem p = Some s" using Some by (auto split: option.splits)
  then obtain row where row: "dm_row mem p = Some row" by (auto simp: slot_of_row_def split: if_splits option.splits)
  have nz: "fst ot \<noteq> 0"
    using Some assms(2) by (auto simp: assigned_def dest!: map_of_SomeD)
  have "dm_row (foldl (write_slot sy) mem rows) p = Some (write_row sy ot row)"
    using write_slots_memory(1) [OF assms(1), of sy mem p] Some row by simp
  then show ?thesis
    using s row Some nz by (cases ot) (auto simp: slot_of_row_def update_slot_def move_slot_def write_row_def
        split: if_splits)
qed

lemma collect_loop_map:
  assumes "\<And>p. p \<in> set ps \<Longrightarrow> slot_of_row mem' p = map_option f (slot_of_row mem p)"
  shows "collect_loop mem' n ps (map f acc) = map_option (map f) (collect_loop mem n ps acc)"
  using assms
proof (induction ps arbitrary: acc)
  case (Cons p ps)
  have p: "slot_of_row mem' p = map_option f (slot_of_row mem p)" using Cons.prems by simp
  show ?case
  proof (cases "slot_of_row mem p")
    case None
    then show ?thesis using p Cons.IH [of acc] Cons.prems by simp
  next
    case (Some s)
    then show ?thesis using p Cons.IH [of "acc @ [s]"] Cons.prems by simp
  qed
qed simp

lemma collect_loop_rows:
  "collect_loop mem n ps acc = Some slots \<Longrightarrow>
     slots = acc @ map (\<lambda>p. the (slot_of_row mem p)) (filter (\<lambda>p. slot_of_row mem p \<noteq> None) ps)"
proof (induction ps arbitrary: acc)
  case (Cons p ps)
  show ?case
  proof (cases "slot_of_row mem p")
    case None
    then show ?thesis using Cons.IH [of acc] Cons.prems by simp
  next
    case (Some s)
    then show ?thesis using Cons.IH [of "acc @ [s]"] Cons.prems by (simp split: if_splits)
  qed
qed simp

definition draft_rows :: "draft_memory \<Rightarrow> u64 \<Rightarrow> u64 list" where
  "draft_rows mem st = map (dm_entry mem (dm_vector mem st)) [0..<nat (dm_count mem st)]"

text \<open>The guards before the loop, which do not depend on the rows.\<close>

definition draft_state_ok :: "draft_memory \<Rightarrow> u64 \<Rightarrow> nat \<Rightarrow> bool" where
  "draft_state_ok mem st n \<longleftrightarrow> \<not> (st = 0 \<or> n = 0 \<or> \<not> dm_state_readable mem st)
     \<and> \<not> (dm_vector mem st = 0 \<or> dm_count mem st \<le> 0 \<or> dm_count mem st > DRAFT_ORDER_MAX_ROWS
          \<or> \<not> dm_vector_readable mem (dm_vector mem st) (dm_count mem st))"

lemma collect_eq:
  "kbo_cbt_collect_round_slots mem st n
     = (if draft_state_ok mem st n
        then (case collect_loop mem n (draft_rows mem st) [] of None \<Rightarrow> []
              | Some slots \<Rightarrow> sort_key (\<lambda>s. unat (ds_pick s)) slots)
        else [])"
  unfolding kbo_cbt_collect_round_slots_def draft_state_ok_def draft_rows_def Let_def by simp

lemma collect_cases:
  assumes "kbo_cbt_collect_round_slots mem st n \<noteq> []"
  obtains slots where "draft_state_ok mem st n" and "collect_loop mem n (draft_rows mem st) [] = Some slots"
    and "kbo_cbt_collect_round_slots mem st n = sort_key (\<lambda>s. unat (ds_pick s)) slots"
  using assms unfolding collect_eq by (auto split: if_splits option.splits)

lemma collected_rows:
  assumes "s \<in> set (kbo_cbt_collect_round_slots mem st n)"
  shows "slot_of_row mem (ds_row s) = Some s"
proof -
  have "kbo_cbt_collect_round_slots mem st n \<noteq> []" using assms by auto
  then obtain slots where l: "collect_loop mem n (draft_rows mem st) [] = Some slots"
      and k: "kbo_cbt_collect_round_slots mem st n = sort_key (\<lambda>s. unat (ds_pick s)) slots"
    by (rule collect_cases)
  have "s \<in> set slots" using assms by (simp add: k)
  then obtain p where "slot_of_row mem p = Some s" unfolding collect_loop_rows [OF l] by auto
  then show ?thesis using slot_of_row_row by force
qed

lemma collected_complete:
  assumes "kbo_cbt_collect_round_slots mem st n \<noteq> []" and "p \<in> set (draft_rows mem st)"
    and "slot_of_row mem p = Some s"
  shows "s \<in> set (kbo_cbt_collect_round_slots mem st n)"
proof -
  obtain slots where l: "collect_loop mem n (draft_rows mem st) [] = Some slots"
      and k: "kbo_cbt_collect_round_slots mem st n = sort_key (\<lambda>s. unat (ds_pick s)) slots"
    using assms(1) by (rule collect_cases)
  show ?thesis unfolding k collect_loop_rows [OF l] using assms(2,3) by force
qed

lemma collected_distinct:
  assumes "distinct (draft_rows mem st)"
  shows "distinct (map ds_row (kbo_cbt_collect_round_slots mem st n))"
proof (cases "kbo_cbt_collect_round_slots mem st n = []")
  case False
  then obtain slots where l: "collect_loop mem n (draft_rows mem st) [] = Some slots"
    and k: "kbo_cbt_collect_round_slots mem st n = sort_key (\<lambda>s. unat (ds_pick s)) slots"
    by (rule collect_cases)
  have "map ds_row (map (\<lambda>p. the (slot_of_row mem p)) (filter (\<lambda>p. slot_of_row mem p \<noteq> None) ps))
      = filter (\<lambda>p. slot_of_row mem p \<noteq> None) ps" for ps
    by (induction ps) (auto dest: slot_of_row_row)
  then have "distinct (map ds_row slots)" using assms unfolding collect_loop_rows [OF l] by simp
  moreover have "mset (map ds_row (sort_key (\<lambda>s. unat (ds_pick s)) slots)) = mset (map ds_row slots)"
    by simp
  ultimately show ?thesis unfolding k by (metis mset_eq_imp_distinct_iff)
qed simp

text \<open>What is collected after writing teams to collected slots.\<close>

lemma collect_written:
  defines "slots mem st \<equiv> kbo_cbt_collect_round_slots mem st 256"
  assumes "distinct (draft_rows mem st)" and "map fst rows = slots mem st"
    and "\<forall>(s, ot) \<in> set rows. fst ot \<noteq> 0" and "slots mem st \<noteq> []"
  shows "slots (foldl (write_slot sy) mem rows) st = map (move_slot sy) rows"
proof -
  let ?mem' = "foldl (write_slot sy) mem rows"
  have "map (\<lambda>(s, ot). ds_row s) rows = map ds_row (map fst rows)" by (simp add: split_beta)
  then have d: "distinct (map (\<lambda>(s, ot). ds_row s) rows)"
    using collected_distinct [OF assms(2)] assms(3) by (simp only: slots_def)
  have f: "?mem'\<lparr>dm_row := g\<rparr> = mem\<lparr>dm_row := g\<rparr>" for g by (rule write_slots_memory(2) [OF d])
  have frame: "dm_state_readable ?mem' = dm_state_readable mem" "dm_vector ?mem' = dm_vector mem"
    "dm_count ?mem' = dm_count mem" "dm_vector_readable ?mem' = dm_vector_readable mem"
    "dm_entry ?mem' = dm_entry mem"
    using f [of "dm_row mem"] by (metis draft_memory.select_convs(1-5) draft_memory.surjective
        draft_memory.update_convs(6))+
  have same: "draft_state_ok ?mem' st 256 = draft_state_ok mem st 256" "draft_rows ?mem' st = draft_rows mem st"
    by (simp_all add: draft_state_ok_def draft_rows_def frame)
  obtain ss where l: "draft_state_ok mem st 256" "collect_loop mem 256 (draft_rows mem st) [] = Some ss"
      "slots mem st = sort_key (\<lambda>s. unat (ds_pick s)) ss"
    using assms(5) unfolding slots_def by (rule collect_cases)
  have "slot_of_row ?mem' p = map_option (update_slot sy rows) (slot_of_row mem p)"
    if "p \<in> set (draft_rows mem st)" for p
  proof (rule slot_of_row_written [OF d assms(4)])
    show "case slot_of_row mem p of Some s \<Rightarrow> True | None \<Rightarrow> assigned rows p = None"
    proof (cases "slot_of_row mem p")
      case None
      have "assigned rows p = None"
      proof (rule ccontr)
        assume "assigned rows p \<noteq> None"
        then obtain s where "s \<in> set (map fst rows)" "ds_row s = p"
          by (auto simp: assigned_def map_of_eq_None_iff image_image split_beta)
        then have "slot_of_row mem p = Some s" using collected_rows assms(3) by (simp add: slots_def) blast
        then show False using None by simp
      qed
      then show ?thesis using None by simp
    qed simp
  qed
  from collect_loop_map [OF this, of _ 256 "[]"] l(2)
  have "collect_loop ?mem' 256 (draft_rows mem st) [] = Some (map (update_slot sy rows) ss)" by simp
  then have "slots ?mem' st = sort_key (\<lambda>s. unat (ds_pick s)) (map (update_slot sy rows) ss)"
    using l(1) unfolding slots_def collect_eq same by simp
  also have "\<dots> = map (update_slot sy rows) (slots mem st)"
    unfolding l(3) by (rule sort_key_map_same) simp
  also have "\<dots> = map (update_slot sy rows) (map fst rows)" by (simp only: assms(3))
  also have "\<dots> = map (move_slot sy) rows"
  proof -
    have d': "distinct (map fst (map (\<lambda>(s, ot). (ds_row s, ot)) rows))"
      using d by (simp add: split_beta' comp_def)
    have "assigned rows (ds_row s) = Some ot" if "(s, ot) \<in> set rows" for s ot
      unfolding assigned_def using that by (intro map_of_is_SomeI [OF d']) force
    then show ?thesis by (auto simp: update_slot_def)
  qed
  finally show ?thesis .
qed

section \<open>The whole application\<close>

definition round_slots :: "draft_memory \<Rightarrow> u64 \<Rightarrow> draft_slot list" where
  "round_slots mem st = kbo_cbt_collect_round_slots mem st 256"

definition penalised_owners :: "draft_env \<Rightarrow> draft_slot list \<Rightarrow> draft_work" where
  "penalised_owners env slots =
     foldl (apply_penalty slots (map ds_owner_team_id slots = map ds_original_team_id slots))
       \<lparr>dw_owners = map ds_owner_team_id slots, dw_originals = map ds_original_team_id slots, dw_moves = []\<rparr>
       (penalties_loop env slots [])"

lemma penalised_owners_ok:
  "work_ok slots (map ds_owner_team_id slots = map ds_original_team_id slots) (penalised_owners env slots)"
  unfolding penalised_owners_def by (rule apply_penalties_ok) (simp add: work_ok_def)

definition apply_skips :: "draft_env \<Rightarrow> u64 \<Rightarrow> draft_globals \<Rightarrow> draft_memory \<Rightarrow> bool" where
  "apply_skips env st g mem \<longleftrightarrow> (st = 0 \<or> \<not> de_fix_enabled env) \<or> (de_cbt_disabled env \<or> de_draft_penalty_disabled env)
     \<or> dg_busy g \<or> length (round_slots mem st) \<le> 1
     \<or> (dg_last_state g = st \<and> dg_last_signature g = kbo_cbt_draft_order_signature (round_slots mem st))"

lemma apply_eq:
  "kbo_cbt_apply_draft_order_penalties env st g mem =
     (let slots = round_slots mem st;
          sy = (map ds_owner_team_id slots = map ds_original_team_id slots);
          w = penalised_owners env slots;
          rows = zip slots (zip (dw_owners w) (dw_originals w))
      in if apply_skips env st g mem \<or> dw_moves w = [] then (g, mem, [])
         else (g\<lparr>dg_last_state := st,
                 dg_last_signature := kbo_cbt_draft_order_signature (map (move_slot sy) rows)\<rparr>,
               foldl (write_slot sy) mem rows, dw_moves w))"
proof -
  have flat: "(if a then x else if b then x else y) = (if a \<or> b then x else y)" for a b and x y :: 'a
    by simp
  show ?thesis
    unfolding kbo_cbt_apply_draft_order_penalties_def Let_def round_slots_def penalised_owners_def
      DRAFT_ORDER_MAX_ROUND_ROWS_def apply_skips_def flat
    by (simp only: disj_assoc)
qed

lemma apply_cases:
  assumes "kbo_cbt_apply_draft_order_penalties env st g mem = (g', mem', moves)"
  obtains (nothing) "g' = g" and "mem' = mem" and "moves = []"
  | (moved) rows sy w where "w = penalised_owners env (round_slots mem st)" and "moves = dw_moves w" and "moves \<noteq> []"
      and "rows = zip (round_slots mem st) (zip (dw_owners w) (dw_originals w))"
      and "mem' = foldl (write_slot sy) mem rows"
      and "g' = g\<lparr>dg_last_state := st,
             dg_last_signature := kbo_cbt_draft_order_signature (map (move_slot sy) rows)\<rparr>"
      and "sy = (map ds_owner_team_id (round_slots mem st) = map ds_original_team_id (round_slots mem st))"
      and "round_slots mem st \<noteq> []"
proof (cases "apply_skips env st g mem \<or> dw_moves (penalised_owners env (round_slots mem st)) = []")
  case True
  then have "(g', mem', moves) = (g, mem, [])" using assms unfolding apply_eq Let_def by simp
  then have "g' = g" "mem' = mem" "moves = []" by simp_all
  then show thesis by (rule that(1))
next
  case False
  then have eq: "g' = g\<lparr>dg_last_state := st, dg_last_signature := kbo_cbt_draft_order_signature
        (map (move_slot (map ds_owner_team_id (round_slots mem st) = map ds_original_team_id (round_slots mem st)))
          (zip (round_slots mem st) (zip (dw_owners (penalised_owners env (round_slots mem st)))
             (dw_originals (penalised_owners env (round_slots mem st))))))\<rparr>"
    "mem' = foldl (write_slot (map ds_owner_team_id (round_slots mem st) = map ds_original_team_id (round_slots mem st)))
       mem (zip (round_slots mem st) (zip (dw_owners (penalised_owners env (round_slots mem st)))
             (dw_originals (penalised_owners env (round_slots mem st)))))"
    "moves = dw_moves (penalised_owners env (round_slots mem st))"
    using assms unfolding apply_eq Let_def by simp_all
  have "round_slots mem st \<noteq> []" using False by (auto simp: apply_skips_def)
  then show thesis using False eq by (intro that(2) [OF refl _ _ refl]) simp_all
qed

lemma slot_of_row_owner: "slot_of_row mem p = Some s \<Longrightarrow> ds_owner_team_id s \<noteq> 0"
  by (auto simp: slot_of_row_def split: if_splits option.splits)

lemma slot_owner_nonzero: "s \<in> set (round_slots mem st) \<Longrightarrow> ds_owner_team_id s \<noteq> 0"
  unfolding round_slots_def using collected_rows slot_of_row_owner by blast

lemma moved_slots:
  assumes "distinct (draft_rows mem st)" and "w = penalised_owners env (round_slots mem st)"
    and "rows = zip (round_slots mem st) (zip (dw_owners w) (dw_originals w))"
    and "sy = (map ds_owner_team_id (round_slots mem st) = map ds_original_team_id (round_slots mem st))"
    and "round_slots mem st \<noteq> []"
  shows "round_slots (foldl (write_slot sy) mem rows) st = map (move_slot sy) rows"
    and "map fst rows = round_slots mem st"
    and "map (ds_owner_team_id \<circ> move_slot sy) rows = dw_owners w"
    and "map (ds_original_team_id \<circ> move_slot sy) rows = dw_originals w"
proof -
  have ok: "work_ok (round_slots mem st) sy w"
    unfolding assms(2,4) by (rule penalised_owners_ok)
  have len: "length (dw_owners w) = length (round_slots mem st)" "length (dw_originals w) = length (round_slots mem st)"
    using work_ok_length [OF ok] by simp_all
  show fst: "map fst rows = round_slots mem st" using len by (simp add: assms(3))
  have "set (dw_owners w) = ds_owner_team_id ` set (round_slots mem st)"
    using ok unfolding work_ok_def by (metis mset_map set_image_mset set_mset_mset)
  then have "\<forall>t \<in> set (dw_owners w). t \<noteq> 0" using slot_owner_nonzero by auto
  moreover have "fst ot \<in> set (dw_owners w)" if "(s, ot) \<in> set rows" for s ot
    using that unfolding assms(3) by (cases ot) (auto dest: set_zip_rightD set_zip_leftD)
  ultimately have nz: "\<forall>(s, ot) \<in> set rows. fst ot \<noteq> 0" by auto
  show "round_slots (foldl (write_slot sy) mem rows) st = map (move_slot sy) rows"
    using collect_written [OF assms(1) _ nz] fst assms(5) by (simp add: round_slots_def)
  have nth: "rows ! i = (round_slots mem st ! i, dw_owners w ! i, dw_originals w ! i)" if "i < length (round_slots mem st)" for i
    using that len by (simp add: assms(3))
  have lr: "length rows = length (round_slots mem st)" using len by (simp add: assms(3))
  show "map (ds_owner_team_id \<circ> move_slot sy) rows = dw_owners w"
    by (rule nth_equalityI) (simp_all add: lr len nth move_slot_def)
  show "map (ds_original_team_id \<circ> move_slot sy) rows = dw_originals w"
  proof (rule nth_equalityI)
    fix i assume "i < length (map (ds_original_team_id \<circ> move_slot sy) rows)"
    then show "map (ds_original_team_id \<circ> move_slot sy) rows ! i = dw_originals w ! i"
      using ok by (cases sy) (auto simp: lr nth move_slot_def work_ok_def)
  qed (simp add: lr len)
qed

lemma move_slot_same [simp]: "ds_row (move_slot sy r) = ds_row (fst r)" "ds_pick (move_slot sy r) = ds_pick (fst r)"
  by (cases r; simp add: move_slot_def)+

section \<open>One penalty\<close>

lemma find_owner_index_Some:
  assumes "kbo_cbt_find_owner_index owners t = Some i"
  shows "i < length owners" and "owners ! i = t" and "t \<noteq> 0" and "\<forall>j < i. owners ! j \<noteq> t"
  using assms first_index_Some [of "\<lambda>u. u = t" owners i]
  by (auto simp: kbo_cbt_find_owner_index_def split: if_splits)

lemma small_target:
  assumes "n \<le> 256" and "from < n" and "stages \<le> 100"
  shows "penalty_target n from stages = int (min (from + unat stages) (n - 1))"
proof -
  define k where "k = unat stages"
  have u: "k \<le> 100" using assms(3) by (simp add: word_le_nat_alt k_def)
  have "uint stages < 2147483648" using u by (simp only: uint_nat k_def)
  then have s: "sint stages = int k" by (simp only: sint_eq_uint uint_nat k_def)
  have "i32 (int from + int k) = int from + int k"
    using u assms by (intro i32_id) simp_all
  then show ?thesis
    unfolding penalty_target_def s Let_def k_def [symmetric] using assms u by (auto simp: min_def)
qed

lemma apply_penalty_moves:
  assumes "length (dw_owners w) = length slots" and "length slots \<le> 256" and "dp_stages p \<le> 100"
    and "kbo_cbt_find_owner_index (dw_owners w) (dp_team_id p) = Some from"
    and to: "to = min (from + unat (dp_stages p)) (length slots - 1)"
  shows "dw_owners (apply_penalty slots sy w p) =
       take from (dw_owners w) @ drop (Suc from) (take (Suc to) (dw_owners w))
         @ [dp_team_id p] @ drop (Suc to) (dw_owners w)"
    and "dw_moves (apply_penalty slots sy w p) =
       (if from < to \<and> length (dw_moves w) < 64
        then dw_moves w @ [\<lparr>mv_season = dp_season p, mv_team_id = dp_team_id p, mv_stages = dp_stages p,
               mv_from_pick = ds_pick (slots ! from), mv_to_pick = ds_pick (slots ! to)\<rparr>]
        else dw_moves w)"
proof -
  note f = find_owner_index_Some [OF assms(4)]
  have t: "penalty_target (length slots) from (dp_stages p) = int to"
    unfolding to using f(1) assms(1-3) by (intro small_target) simp_all
  have to_len: "to < length slots" "from \<le> to" using f(1) assms(1) to by auto
  let ?ap = "apply_penalty slots sy w p"
  have eq: "?ap = (if int to \<le> int from then w
      else w\<lparr>dw_owners := shift_forward from to (dw_owners w),
             dw_originals := (if sy then shift_forward from to (dw_originals w) else dw_originals w),
             dw_moves := (if length (dw_moves w) < 64
                    then dw_moves w @ [\<lparr>mv_season = dp_season p, mv_team_id = dp_team_id p,
                           mv_stages = dp_stages p, mv_from_pick = ds_pick (slots ! from),
                           mv_to_pick = ds_pick (slots ! to)\<rparr>]
                    else dw_moves w)\<rparr>)"
    using assms(4) t
    by (simp add: apply_penalty_def penalty_target_def Let_def DRAFT_ORDER_MAX_MOVES_def)
  have split: "dw_owners w = take from (dw_owners w) @ dp_team_id p # drop (Suc from) (dw_owners w)"
    using id_take_nth_drop [OF f(1)] f(2) by simp
  show "dw_owners ?ap = take from (dw_owners w) @ drop (Suc from) (take (Suc to) (dw_owners w))
         @ [dp_team_id p] @ drop (Suc to) (dw_owners w)"
  proof (cases "from < to")
    case True
    then have "dw_owners ?ap = shift_forward from to (dw_owners w)" by (simp add: eq)
    then show ?thesis using to_len assms(1) f(2) by (simp add: shift_forward_split)
  next
    case False
    then have "to = from" using to_len by simp
    then show ?thesis using split by (simp add: eq)
  qed
  show "dw_moves ?ap = (if from < to \<and> length (dw_moves w) < 64
        then dw_moves w @ [\<lparr>mv_season = dp_season p, mv_team_id = dp_team_id p, mv_stages = dp_stages p,
               mv_from_pick = ds_pick (slots ! from), mv_to_pick = ds_pick (slots ! to)\<rparr>]
        else dw_moves w)"
    using to_len by (auto simp: eq)
qed

lemma moves_extend: "\<exists>ms. dw_moves (foldl (apply_penalty slots sy) w ps) = dw_moves w @ ms"
proof (induction ps arbitrary: w)
  case (Cons p ps)
  have "\<exists>ms. dw_moves (apply_penalty slots sy w p) = dw_moves w @ ms"
    by (auto simp: apply_penalty_def Let_def split: option.splits)
  then show ?case using Cons.IH [of "apply_penalty slots sy w p"] by auto
qed simp

section \<open>The penalised teams\<close>

definition penalised :: "draft_env \<Rightarrow> u32 \<Rightarrow> bool" where
  "penalised env t \<longleftrightarrow> kbo_cbt_draft_order_team_is_main_kbo env t
     \<and> kbo_cbt_draft_order_penalty_for_team env t \<noteq> None"

lemma penalty_info:
  assumes "kbo_cbt_draft_order_penalty_for_team env t = Some info"
  shows "dp_team_id info = t" and "dp_stages info = cr_draft_penalty_stages (de_rules env)"
    and "dp_stages info \<noteq> 0" and "t \<noteq> 0"
  using assms by (auto simp: kbo_cbt_draft_order_penalty_for_team_def split: if_splits option.splits)

lemma penalties_extend: "\<exists>rest. penalties_loop env slots ps = ps @ rest"
proof (induction env slots ps rule: penalties_loop.induct)
  case (2 env s slots penalties)
  then show ?case by (auto split: option.splits)
qed simp

lemma penalties_skip:
  "\<forall>s \<in> set pre. \<not> penalised env (ds_owner_team_id s) \<Longrightarrow> length ps < 64 \<Longrightarrow>
     penalties_loop env (pre @ slots) ps = penalties_loop env slots ps"
  by (induction pre) (auto simp: penalised_def DRAFT_ORDER_MAX_MOVES_def split: option.splits)

lemma penalties_first:
  assumes "\<forall>s \<in> set pre. \<not> penalised env (ds_owner_team_id s)"
    and "kbo_cbt_draft_order_team_is_main_kbo env (ds_owner_team_id s)"
    and "kbo_cbt_draft_order_penalty_for_team env (ds_owner_team_id s) = Some info"
  obtains rest where "penalties_loop env (pre @ s # post) [] = info # rest"
proof -
  have "penalties_loop env (pre @ s # post) [] = penalties_loop env post [info]"
    using assms penalties_skip [OF assms(1), of "[]" "s # post"] penalty_info(3) [OF assms(3)]
    by (simp add: DRAFT_ORDER_MAX_MOVES_def)
  then show thesis using penalties_extend [of env post "[info]"] that by auto
qed

lemma first_penalised_moves:
  assumes "st \<noteq> 0" and "de_fix_enabled env" and "\<not> de_cbt_disabled env" and "\<not> de_draft_penalty_disabled env"
    and "\<not> dg_busy g" and "dg_last_state g \<noteq> st"
    and slots: "round_slots mem st = pre @ s # post" and "post \<noteq> []" and "length (round_slots mem st) \<le> 256"
    and "\<forall>s' \<in> set pre. \<not> penalised env (ds_owner_team_id s')" and "penalised env (ds_owner_team_id s)"
    and "cr_draft_penalty_stages (de_rules env) \<le> 100"
  shows "\<exists>g' mem' m ms. kbo_cbt_apply_draft_order_penalties env st g mem = (g', mem', m # ms)
     \<and> mv_team_id m = ds_owner_team_id s \<and> mv_from_pick m = ds_pick s"
proof -
  let ?t = "ds_owner_team_id s"
  let ?slots = "round_slots mem st"
  let ?sy = "map ds_owner_team_id ?slots = map ds_original_team_id ?slots"
  let ?w = "\<lparr>dw_owners = map ds_owner_team_id ?slots, dw_originals = map ds_original_team_id ?slots, dw_moves = []\<rparr>"
  obtain info where info: "kbo_cbt_draft_order_penalty_for_team env ?t = Some info"
    using assms(11) by (auto simp: penalised_def)
  note i = penalty_info [OF info]
  obtain rest where ps: "penalties_loop env ?slots [] = info # rest"
    unfolding slots using penalties_first [OF assms(10) _ info] assms(11) by (auto simp: penalised_def)
  have "first_index (\<lambda>u. u = ?t) (map ds_owner_team_id (pre @ s # post)) = Some (length pre)"
    using assms(10,11) by (induction pre) auto
  then have f: "kbo_cbt_find_owner_index (dw_owners ?w) (dp_team_id info) = Some (length pre)"
    using i(1,4) by (simp add: kbo_cbt_find_owner_index_def slots)
  have pos: "0 < unat (dp_stages info)" using i(3) by (simp add: unat_gt_0)
  have st: "dp_stages info \<le> 100" using i(2) assms(12) by simp
  have "dw_moves (apply_penalty ?slots ?sy ?w info) \<noteq> []
      \<and> mv_team_id (hd (dw_moves (apply_penalty ?slots ?sy ?w info))) = ?t
      \<and> mv_from_pick (hd (dw_moves (apply_penalty ?slots ?sy ?w info))) = ds_pick s"
    using apply_penalty_moves(2) [OF _ assms(9) st f refl, where sy = ?sy] pos assms(8) i(1)
    by (auto simp: slots nth_append neq_Nil_conv)
  moreover obtain ms where "dw_moves (penalised_owners env ?slots)
      = dw_moves (apply_penalty ?slots ?sy ?w info) @ ms"
    using moves_extend [of ?slots ?sy "apply_penalty ?slots ?sy ?w info" rest]
    by (auto simp: penalised_owners_def ps)
  ultimately obtain m ms' where m: "dw_moves (penalised_owners env ?slots) = m # ms'"
      "mv_team_id m = ?t" "mv_from_pick m = ds_pick s"
    by (cases "dw_moves (apply_penalty ?slots ?sy ?w info)") auto
  have "\<not> apply_skips env st g mem"
    using assms(1-6,8) by (auto simp: apply_skips_def slots neq_Nil_conv)
  then show ?thesis using m by (simp add: apply_eq Let_def)
qed

section \<open>A small draft\<close>

definition demo_draft_row :: "u16 \<Rightarrow> u32 \<Rightarrow> draft_row" where
  "demo_draft_row pick team = \<lparr>dr_original_team = team, dr_owner_team = team, dr_round = 1, dr_pick = pick,
     dr_supplemental = 0\<rparr>"

definition demo_draft :: draft_memory where
  "demo_draft = \<lparr>dm_state_readable = (\<lambda>_. True), dm_vector = (\<lambda>_. 500), dm_count = (\<lambda>_. 3),
     dm_vector_readable = (\<lambda>_ _. True), dm_entry = (\<lambda>_ i. of_nat (10 * Suc i)),
     dm_row = (\<lambda>p. if p = 10 then Some (demo_draft_row 1 5) else if p = 20 then Some (demo_draft_row 2 6)
                  else if p = 30 then Some (demo_draft_row 3 7) else None)\<rparr>"

definition demo_draft_env :: draft_env where
  "demo_draft_env = \<lparr>de_fix_enabled = True, de_cbt_disabled = False, de_draft_penalty_disabled = False,
     de_rules = kbo_cbt_rules_init_defaults\<lparr>cr_draft_penalty_min_consecutive := 1, cr_draft_penalty_stages := 9\<rparr>,
     de_records = [\<lparr>rc_season = 2027, rc_team_id = 5, rc_payroll = 9, rc_threshold = 5, rc_overage = 4,
        rc_tax_rate_pct = 50, rc_tax_amount = 2, rc_consecutive_count = 1, rc_processed_date = 20270401,
        rc_team_name = ''''\<rparr>],
     de_team_league = (\<lambda>_. Some 200), de_main_league = 200, de_league_ptr = (\<lambda>_. 0),
     de_readable = (\<lambda>_ _. True)\<rparr>"

lemma demo_draft_rows: "draft_rows demo_draft 1000 = [10, 20, 30]"
  by code_simp

lemma demo_draft_slots: "round_slots demo_draft 1000 =
   [\<lparr>ds_row = 10, ds_pick = 1, ds_original_team_id = 5, ds_owner_team_id = 5\<rparr>,
    \<lparr>ds_row = 20, ds_pick = 2, ds_original_team_id = 6, ds_owner_team_id = 6\<rparr>,
    \<lparr>ds_row = 30, ds_pick = 3, ds_original_team_id = 7, ds_owner_team_id = 7\<rparr>]"
  by code_simp

lemma demo_penalised: "penalised demo_draft_env 5"
  by code_simp

lemma demo_draft_moves:
  "\<exists>g' mem' m ms. kbo_cbt_apply_draft_order_penalties demo_draft_env 1000 initial_draft_globals demo_draft
     = (g', mem', m # ms) \<and> mv_team_id m = 5 \<and> mv_from_pick m = 1"
  using first_penalised_moves [where st = 1000 and env = demo_draft_env and g = initial_draft_globals
      and mem = demo_draft and pre = "[]"] demo_penalised
  by (simp add: demo_draft_env_def initial_draft_globals_def demo_draft_slots kbo_cbt_rules_init_defaults_def)

section \<open>Properties\<close>

text \<open>
  C15: applying the penalties permutes the owners of the round (and, where no pick had been
  traded, the original teams with them) over the same picks; no other row and nothing else
  of the draft changes.
\<close>

theorem draft_order_is_permuted:
  assumes "distinct (draft_rows mem st)"
    and "kbo_cbt_apply_draft_order_penalties env st g mem = (g', mem', moves)"
  shows "map ds_row (round_slots mem' st) = map ds_row (round_slots mem st)
     \<and> map ds_pick (round_slots mem' st) = map ds_pick (round_slots mem st)
     \<and> mset (map ds_owner_team_id (round_slots mem' st)) = mset (map ds_owner_team_id (round_slots mem st))
     \<and> mset (map ds_original_team_id (round_slots mem' st)) = mset (map ds_original_team_id (round_slots mem st))
     \<and> (\<forall>p. p \<notin> ds_row ` set (round_slots mem st) \<longrightarrow> dm_row mem' p = dm_row mem p)
     \<and> mem'\<lparr>dm_row := dm_row mem\<rparr> = mem"
  using assms(2)
proof (cases rule: apply_cases)
  case nothing
  then show ?thesis by simp
next
  case (moved rows sy w)
  note ms = moved_slots [OF assms(1) moved(1,4,7,8)]
  have ok: "work_ok (round_slots mem st) sy w" unfolding moved(1,7) by (rule penalised_owners_ok)
  have "map (\<lambda>(s, ot). ds_row s) rows = map ds_row (map fst rows)" by (simp add: split_beta)
  then have d: "distinct (map (\<lambda>(s, ot). ds_row s) rows)"
    using collected_distinct [OF assms(1)] ms(2) by (simp only: round_slots_def)
  have rest: "dm_row mem' p = dm_row mem p" if "p \<notin> ds_row ` set (round_slots mem st)" for p
  proof -
    have "assigned rows p = None"
      using that unfolding ms(2) [symmetric] by (auto simp: assigned_def map_of_eq_None_iff image_image split_beta)
    then show ?thesis using write_slots_memory(1) [OF d, of sy mem p] moved(5) by simp
  qed
  have r: "round_slots mem' st = map (move_slot sy) rows" using ms(1) moved(5) by simp
  have "map ds_row (round_slots mem' st) = map ds_row (map fst rows)"
    "map ds_pick (round_slots mem' st) = map ds_pick (map fst rows)"
    "map ds_owner_team_id (round_slots mem' st) = dw_owners w"
    "map ds_original_team_id (round_slots mem' st) = dw_originals w"
    using ms(3,4) by (simp_all add: r comp_def)
  then show ?thesis
    using rest ok write_slots_memory(2) [OF d, where sy = sy and mem = mem and f = "dm_row mem"] moved(5) ms(2)
    by (simp add: work_ok_def)
qed

theorem draft_order_is_permuted_witness:
  "\<exists>g' mem' moves. kbo_cbt_apply_draft_order_penalties demo_draft_env 1000 initial_draft_globals demo_draft
       = (g', mem', moves) \<and> moves \<noteq> []
     \<and> map ds_pick (round_slots mem' 1000) = [1, 2, 3]
     \<and> mset (map ds_owner_team_id (round_slots mem' 1000)) = {#5, 6, 7#}"
proof -
  obtain g' mem' m ms where a: "kbo_cbt_apply_draft_order_penalties demo_draft_env 1000 initial_draft_globals demo_draft
      = (g', mem', m # ms)" using demo_draft_moves by blast
  have "distinct (draft_rows demo_draft 1000)" by (simp add: demo_draft_rows)
  from draft_order_is_permuted [OF this a] show ?thesis
    using a by (intro exI [of _ g'] exI [of _ mem'] exI [of _ "m # ms"]) (simp add: demo_draft_slots)
qed

text \<open>
  A second application right after one that moved a team finds its own signature and
  does nothing.
\<close>

theorem second_application_does_nothing:
  assumes "distinct (draft_rows mem st)" and "moves \<noteq> []"
    and "kbo_cbt_apply_draft_order_penalties env st g mem = (g', mem', moves)"
  shows "kbo_cbt_apply_draft_order_penalties env st g' mem' = (g', mem', [])"
  using assms(3)
proof (cases rule: apply_cases)
  case nothing
  then show ?thesis using assms(2) by simp
next
  case (moved rows sy w)
  have "kbo_cbt_collect_round_slots mem' st DRAFT_ORDER_MAX_ROUND_ROWS = map (move_slot sy) rows"
    using moved_slots(1) [OF assms(1) moved(1,4,7,8)] moved(5)
    by (simp add: round_slots_def DRAFT_ORDER_MAX_ROUND_ROWS_def)
  then show ?thesis
    using moved(6) by (simp add: kbo_cbt_apply_draft_order_penalties_def Let_def)
qed

theorem second_application_does_nothing_witness:
  "\<exists>g' mem' moves. kbo_cbt_apply_draft_order_penalties demo_draft_env 1000 initial_draft_globals demo_draft
       = (g', mem', moves) \<and> moves \<noteq> []
     \<and> kbo_cbt_apply_draft_order_penalties demo_draft_env 1000 g' mem' = (g', mem', [])"
proof -
  obtain g' mem' m ms where a: "kbo_cbt_apply_draft_order_penalties demo_draft_env 1000 initial_draft_globals demo_draft
      = (g', mem', m # ms)" using demo_draft_moves by blast
  have "distinct (draft_rows demo_draft 1000)" by (simp add: demo_draft_rows)
  from second_application_does_nothing [OF this _ a] show ?thesis using a by auto
qed

text \<open>
  One penalty.  The team falls back by its stages, or to the last pick of the round;
  the teams it passes move up by one and every other team keeps its place.  A move is noted
  exactly when the team was not last already.
\<close>

theorem penalty_moves_team_back:
  assumes "length (dw_owners w) = length slots" and "length slots \<le> 256" and "dp_stages p \<le> 100"
    and "kbo_cbt_find_owner_index (dw_owners w) (dp_team_id p) = Some from"
  shows "let to = min (from + unat (dp_stages p)) (length slots - 1);
         w' = apply_penalty slots sync_originals w p
     in dw_owners w' = take from (dw_owners w) @ drop (Suc from) (take (Suc to) (dw_owners w))
          @ [dp_team_id p] @ drop (Suc to) (dw_owners w)
        \<and> dw_moves w' = (if from < to \<and> length (dw_moves w) < 64
            then dw_moves w @ [\<lparr>mv_season = dp_season p, mv_team_id = dp_team_id p, mv_stages = dp_stages p,
                   mv_from_pick = ds_pick (slots ! from), mv_to_pick = ds_pick (slots ! to)\<rparr>]
            else dw_moves w)"
  unfolding Let_def using apply_penalty_moves [OF assms refl] by blast

theorem penalty_moves_team_back_witness:
  "dw_owners (apply_penalty (round_slots demo_draft 1000) True
     \<lparr>dw_owners = [5, 6, 7], dw_originals = [5, 6, 7], dw_moves = []\<rparr>
     \<lparr>dp_season = 2027, dp_team_id = 5, dp_stages = 1\<rparr>) = [6, 5, 7]"
proof -
  have "kbo_cbt_find_owner_index [5, 6, 7] 5 = Some 0" by code_simp
  then show ?thesis
    using penalty_moves_team_back [of "\<lparr>dw_owners = [5, 6, 7], dw_originals = [5, 6, 7], dw_moves = []\<rparr>"
      "round_slots demo_draft 1000" "\<lparr>dp_season = 2027, dp_team_id = 5, dp_stages = 1\<rparr>" 0 True]
    by (simp add: demo_draft_slots Let_def)
qed

text \<open>
  The only thing that keeps a penalised team from being moved is the signature in the
  process: without it (after a restart of the game, or when another draft state was handled
  in between) the first penalised owner that is not last is moved back, even if the order
  it stands in is one the module has already adjusted.
\<close>

theorem forgotten_signature_moves_again:
  assumes "st \<noteq> 0" and "de_fix_enabled env" and "\<not> de_cbt_disabled env" and "\<not> de_draft_penalty_disabled env"
    and "\<not> dg_busy g" and "dg_last_state g \<noteq> st"
    and slots: "round_slots mem st = pre @ s # post" and "post \<noteq> []" and "length (round_slots mem st) \<le> 256"
    and "\<forall>s' \<in> set pre. \<not> penalised env (ds_owner_team_id s')" and "penalised env (ds_owner_team_id s)"
    and "cr_draft_penalty_stages (de_rules env) \<le> 100"
  shows "\<exists>g' mem' m ms. kbo_cbt_apply_draft_order_penalties env st g mem = (g', mem', m # ms)
     \<and> mv_team_id m = ds_owner_team_id s \<and> mv_from_pick m = ds_pick s"
  using assms by (rule first_penalised_moves)

theorem forgotten_signature_moves_again_witness:
  "\<exists>g' mem' m ms. kbo_cbt_apply_draft_order_penalties demo_draft_env 1000 initial_draft_globals demo_draft
     = (g', mem', m # ms) \<and> mv_team_id m = 5 \<and> mv_from_pick m = 1"
  using forgotten_signature_moves_again [where st = 1000 and env = demo_draft_env and g = initial_draft_globals
      and mem = demo_draft and pre = "[]"] demo_penalised
  by (simp add: demo_draft_env_def initial_draft_globals_def demo_draft_slots kbo_cbt_rules_init_defaults_def)

end
