(* ===== verification/CbtProcess.thy ===== *)
theory CbtProcess
  imports CbtRecords CbtExceptions CbtDraftOrder
begin

text \<open>
  Taxing the teams of a season: the announcement run in
  \<open>native/src/competitive_balance_tax/process/cbt_process.c\<close> (with \<open>kbo_cbt_news_date\<close> of
  \<open>process/cbt_process_news.c\<close>).  It composes the other parts: the rules, the exception
  designations, the payrolls, the records and the draft order penalties.

  What the run reads and calls outside of the modelled files is in \<open>cbt_env\<close>: the disable
  flag, the loaded rules and salary rows, the stored tables, the league, the names of teams,
  and the answers of the stores and of the news module.  \<open>cbt_result\<close> collects what the run
  does: its result, the reason it audits, the tables and the draft order it leaves, the
  news and the audit lines per team.
\<close>

section \<open>One team\<close>

datatype team_audit = RecordExists bool | Taxed bool | Clean

record cbt_run =
  ru_records :: "cbt_record list"
  ru_new_violations :: int
  ru_violation_news :: "cbt_record list"
  ru_audit :: "(u32 \<times> team_audit) list"

text \<open>The record the run computes for a team.\<close>

definition cbt_team_record ::
    "cbt_rules \<Rightarrow> int \<Rightarrow> u32 \<Rightarrow> (u32 \<Rightarrow> string) \<Rightarrow> u32 \<Rightarrow> cbt_record list \<Rightarrow> team_payroll \<Rightarrow> cbt_record" where
  "cbt_team_record rules threshold season team_name processed_date records team =
     (let team_id = tp_team_id team;
          payroll = tp_top_n_sum team;
          overage = i32 (payroll - threshold);
          prior_consecutive = kbo_cbt_get_consecutive_count records team_id season;
          consecutive_count = (if overage > 0 then prior_consecutive + 1 else 0);
          tax_rate = kbo_cbt_get_tax_rate rules consecutive_count;
          tax_amount = (if overage > 0 then i32 (c_div (overage * sint tax_rate) 100) else 0)
      in \<lparr>rc_season = season, rc_team_id = team_id, rc_payroll = payroll, rc_threshold = threshold,
          rc_overage = (if overage > 0 then overage else 0), rc_tax_rate_pct = tax_rate,
          rc_tax_amount = tax_amount, rc_consecutive_count = consecutive_count,
          rc_processed_date = processed_date, rc_team_name = team_name team_id\<rparr>)"

definition cbt_reconcile :: "cbt_record \<Rightarrow> cbt_record \<Rightarrow> cbt_record" where
  "cbt_reconcile rec existing =
     (if rc_payroll existing \<noteq> rc_payroll rec \<or> rc_threshold existing \<noteq> rc_threshold rec
          \<or> rc_overage existing \<noteq> rc_overage rec \<or> rc_tax_rate_pct existing \<noteq> rc_tax_rate_pct rec
          \<or> rc_tax_amount existing \<noteq> rc_tax_amount rec
          \<or> rc_consecutive_count existing \<noteq> rc_consecutive_count rec
      then existing\<lparr>rc_payroll := rc_payroll rec, rc_threshold := rc_threshold rec,
                    rc_overage := rc_overage rec, rc_tax_rate_pct := rc_tax_rate_pct rec,
                    rc_tax_amount := rc_tax_amount rec,
                    rc_consecutive_count := rc_consecutive_count rec,
                    rc_team_name := rc_team_name rec\<rparr>
      else existing)"

definition cbt_process_team ::
    "cbt_rules \<Rightarrow> int \<Rightarrow> u32 \<Rightarrow> (u32 \<Rightarrow> string) \<Rightarrow> u32 \<Rightarrow> u32 \<Rightarrow> cbt_run \<Rightarrow> team_payroll \<Rightarrow> cbt_run" where
  "cbt_process_team rules threshold season team_name processed_date league_id run team =
     (let rec = cbt_team_record rules threshold season team_name processed_date (ru_records run) team;
          team_id = tp_team_id team
      in case kbo_cbt_find_record (ru_records run) season team_id of
           Some existing_index \<Rightarrow>
             run\<lparr>ru_records := (ru_records run)[existing_index :=
                    cbt_reconcile rec (ru_records run ! existing_index)],
                 ru_audit := ru_audit run @ [(team_id, RecordExists (rc_overage rec > 0
                    \<and> rc_consecutive_count rec \<ge> cr_draft_penalty_min_consecutive rules))]\<rparr>
         | None \<Rightarrow>
             let run1 = (if length (ru_records run) < CBT_RECORDS_MAX
                         then run\<lparr>ru_records := ru_records run @ [rec]\<rparr> else run)
             in if rc_overage rec > 0 then
                  run1\<lparr>ru_new_violations := ru_new_violations run1 + 1,
                       ru_audit := ru_audit run1 @ [(team_id, Taxed
                          (sint (rc_consecutive_count rec) \<ge> sint (cr_draft_penalty_min_consecutive rules)))],
                       ru_violation_news := (if league_id \<noteq> 0 then ru_violation_news run1 @ [rec]
                                             else ru_violation_news run1)\<rparr>
                else run1\<lparr>ru_audit := ru_audit run1 @ [(team_id, Clean)]\<rparr>)"

section \<open>The run\<close>

definition kbo_cbt_news_date :: "u32 \<Rightarrow> u32 \<Rightarrow> u32 \<times> u32 \<times> u32" where
  "kbo_cbt_news_date season news_yyyymmdd =
     (let year = news_yyyymmdd div 10000;
          month = (news_yyyymmdd div 100) mod 100;
          day = news_yyyymmdd mod 100
      in if year < SEASON_YEAR_MIN \<or> year > SIM_YEAR_MAX \<or> month < 1 \<or> month > 12 \<or> day < 1 \<or> day > 31
         then (season, 4, 1) else (year, month, day))"

record cbt_env =
  ce_flag_disabled :: bool
  ce_rules :: cbt_rules
  ce_grades :: "u32 \<Rightarrow> salary_grade list"
  ce_designations :: "exception_designation list"
  ce_team_seasons :: "u32 \<Rightarrow> string \<Rightarrow> int option"
  ce_write_designations :: "exception_designation list \<Rightarrow> bool"
  ce_records :: "cbt_record list"
  ce_league_id :: u32
  ce_team_name :: "u32 \<Rightarrow> string"
  ce_save_records :: "cbt_record list \<Rightarrow> bool"
  ce_draft :: draft_env
  ce_draft_globals :: draft_globals
  ce_draft_memory :: draft_memory
  ce_summary_marker_exists :: bool
  ce_summary_created :: "cbt_record list \<Rightarrow> bool"

record cbt_result =
  cx_result :: bool
  cx_reason :: string
  cx_designations :: "exception_designation list"
  cx_saved_records :: "cbt_record list option"
  cx_draft_cache_cleared :: bool
  cx_draft_globals :: draft_globals
  cx_draft_memory :: draft_memory
  cx_draft_order_moves :: "draft_move list"
  cx_violation_news :: "cbt_record list"
  cx_summary_marker_persisted :: bool
  cx_audit :: "(u32 \<times> team_audit) list"
  cx_new_violations :: int

definition cbt_stop :: "cbt_env \<Rightarrow> exception_designation list \<Rightarrow> bool \<Rightarrow> string \<Rightarrow> cbt_result" where
  "cbt_stop env table result reason = \<lparr>cx_result = result, cx_reason = reason, cx_designations = table,
     cx_saved_records = None, cx_draft_cache_cleared = False,
     cx_draft_globals = ce_draft_globals env, cx_draft_memory = ce_draft_memory env,
     cx_draft_order_moves = [], cx_violation_news = [],
     cx_summary_marker_persisted = False, cx_audit = [], cx_new_violations = 0\<rparr>"

text \<open>The designations of the season are completed before the payrolls are computed.\<close>

definition cbt_designations :: "cbt_env \<Rightarrow> u32 \<Rightarrow> exception_designation list" where
  "cbt_designations env season =
     fst (kbo_cbt_exception_auto_designate_missing (ce_write_designations env) (ce_team_seasons env)
            season (ce_grades env season) (ce_designations env))"

definition cbt_payrolls :: "cbt_env \<Rightarrow> u32 \<Rightarrow> team_payroll list" where
  "cbt_payrolls env season =
     kbo_cbt_compute_team_payrolls (ce_grades env season) season
       (kbo_cbt_exception_load_designations (cbt_designations env season))
       (cr_top_player_count (ce_rules env))"

text \<open>
  The draft order after the records were saved: the primary league first, the last draft
  state seen if nothing was moved there.
\<close>

definition cbt_draft_moves ::
    "cbt_env \<Rightarrow> cbt_record list \<Rightarrow> draft_globals \<times> draft_memory \<times> draft_move list" where
  "cbt_draft_moves env stored =
     (let denv = (ce_draft env)\<lparr>de_records := stored, de_rules := ce_rules env\<rparr>;
          (g, mem, moves) =
            (if ce_league_id env \<noteq> 0
             then kbo_cbt_apply_primary_league_draft_order_penalties denv (ce_league_id env)
                    (ce_draft_globals env) (ce_draft_memory env)
             else (ce_draft_globals env, ce_draft_memory env, []))
      in if moves = [] then kbo_cbt_apply_pending_draft_order_penalties denv g mem else (g, mem, moves))"

text \<open>The teams of the run, one after the other.\<close>

definition cbt_process_teams :: "cbt_env \<Rightarrow> u32 \<Rightarrow> u32 \<Rightarrow> int \<Rightarrow> team_payroll list \<Rightarrow> cbt_run" where
  "cbt_process_teams env season news_yyyymmdd threshold teams =
     (let (year, month, day) = kbo_cbt_news_date season news_yyyymmdd
      in foldl (cbt_process_team (ce_rules env) threshold season (ce_team_name env)
                 (year * 10000 + month * 100 + day) (ce_league_id env))
           \<lparr>ru_records = ce_records env, ru_new_violations = 0, ru_violation_news = [], ru_audit = []\<rparr>
           teams)"

definition kbo_process_competitive_balance_tax_for_date ::
    "cbt_env \<Rightarrow> u32 \<Rightarrow> u32 \<Rightarrow> string option \<Rightarrow> cbt_result" where
  "kbo_process_competitive_balance_tax_for_date env season news_yyyymmdd source =
     (if source \<noteq> Some ''cbt_announcement_event''
      then cbt_stop env (ce_designations env) False ''announcement_event_required''
      else if season < SEASON_YEAR_MIN \<or> season > SIM_YEAR_MAX
      then cbt_stop env (ce_designations env) False ''season_out_of_range''
      else if ce_flag_disabled env then cbt_stop env (ce_designations env) True ''flag_disabled''
      else if \<not> cr_enabled (ce_rules env) then cbt_stop env (ce_designations env) True ''rules_disabled''
      else
        let threshold = kbo_cbt_get_threshold (ce_rules env) season
        in if threshold \<le> 0 then cbt_stop env (ce_designations env) False ''threshold_unavailable''
        else if ce_grades env season = []
        then cbt_stop env (ce_designations env) False ''salary_snapshot_empty''
        else
          let teams = cbt_payrolls env season
          in if teams = [] then cbt_stop env (cbt_designations env season) False ''no_teams''
          else
            let league_id = ce_league_id env;
                run = cbt_process_teams env season news_yyyymmdd threshold teams;
                records = ru_records run;
                records_saved = (records \<noteq> [] \<and> ce_save_records env records);
                draft = cbt_draft_moves env (if records_saved then records else ce_records env);
                summary_created = (league_id \<noteq> 0 \<and> \<not> ce_summary_marker_exists env
                                   \<and> ce_summary_created env records);
                summary_ready = (league_id \<noteq> 0 \<and> (ce_summary_marker_exists env \<or> summary_created));
                success = (records_saved \<and> (league_id = 0 \<or> summary_ready))
            in \<lparr>cx_result = success,
                cx_reason = (if success then ''completed'' else ''outputs_incomplete''),
                cx_designations = cbt_designations env season,
                cx_saved_records = (if records_saved then Some records else None),
                cx_draft_cache_cleared = records_saved,
                cx_draft_globals = fst draft,
                cx_draft_memory = fst (snd draft),
                cx_draft_order_moves = snd (snd draft),
                cx_violation_news = ru_violation_news run,
                cx_summary_marker_persisted = summary_created,
                cx_audit = ru_audit run,
                cx_new_violations = ru_new_violations run\<rparr>)"

definition kbo_process_competitive_balance_tax :: "cbt_env \<Rightarrow> u32 \<Rightarrow> string option \<Rightarrow> cbt_result" where
  "kbo_process_competitive_balance_tax env season source =
     kbo_process_competitive_balance_tax_for_date env season 0 source"

end
