(* ===== verification/CbtProcessProps.thy ===== *)
theory CbtProcessProps
  imports CbtProcess CbtRulesProps CbtPayrollProps CbtExceptionsProps CbtDraftOrderProps
begin

text \<open>
  Correctness of the announcement run: the streak of violations, the record each team gets,
  what the run leaves of the other records, and that running it again changes nothing.
\<close>

section \<open>The record table as a map\<close>

definition lookup_record :: "cbt_record list \<Rightarrow> u32 \<Rightarrow> u32 \<Rightarrow> cbt_record option" where
  "lookup_record records s t = map_option ((!) records) (kbo_cbt_find_record records s t)"

lemma find_record_key:
  "kbo_cbt_find_record records s t = Some i \<Longrightarrow>
     i < length records \<and> rc_season (records ! i) = s \<and> rc_team_id (records ! i) = t"
  unfolding kbo_cbt_find_record_def by (auto dest: first_index_Some)

lemma lookup_append:
  "lookup_record (records @ [r]) s t =
     (case lookup_record records s t of Some x \<Rightarrow> Some x
      | None \<Rightarrow> if rc_season r = s \<and> rc_team_id r = t then Some r else None)"
  by (auto simp: lookup_record_def kbo_cbt_find_record_def first_index_append nth_append
      dest: first_index_Some split: option.splits)

lemma lookup_update:
  assumes "kbo_cbt_find_record records s t = Some i" and "rc_season r = s" and "rc_team_id r = t"
  shows "lookup_record (records[i := r]) s' t' = (if s' = s \<and> t' = t then Some r else lookup_record records s' t')"
proof -
  note k = find_record_key [OF assms(1)]
  have f: "kbo_cbt_find_record (records[i := r]) s' t' = kbo_cbt_find_record records s' t'"
    unfolding kbo_cbt_find_record_def using k assms(2,3) by (intro first_index_update) auto
  show ?thesis
  proof (cases "s' = s \<and> t' = t")
    case True
    then show ?thesis using f k assms(1) by (simp add: lookup_record_def)
  next
    case False
    have "j \<noteq> i" if "kbo_cbt_find_record records s' t' = Some j" for j
      using find_record_key [OF that] k False by auto
    then show ?thesis
      using False f by (cases "kbo_cbt_find_record records s' t'") (auto simp: lookup_record_def)
  qed
qed

section \<open>The streak\<close>

definition violated :: "cbt_record list \<Rightarrow> u32 \<Rightarrow> u32 \<Rightarrow> bool" where
  "violated records t s \<longleftrightarrow> (case lookup_record records s t of None \<Rightarrow> False | Some r \<Rightarrow> 0 < rc_overage r)"

lemma streak_loop_step:
  "streak_loop records t s = (if s < 1900 \<or> \<not> violated records t (of_nat s) then 0
     else 1 + streak_loop records t (s - 1))"
  by (subst streak_loop.simps) (simp add: violated_def lookup_record_def split: option.splits)

lemma streak_loop_cong:
  assumes "\<forall>s' \<le> s. violated records t (of_nat s') = violated records' t (of_nat s')"
  shows "streak_loop records t s = streak_loop records' t s"
  using assms
proof (induction s rule: less_induct)
  case (less s)
  then show ?case
    using less.IH [of "s - 1"] by (subst (1 2) streak_loop_step) (auto simp: less.prems)
qed

lemma streak_loop_spec:
  "s < 2 ^ 32 \<Longrightarrow> \<exists>k. unat (streak_loop records t s) = k \<and> k \<le> s + 1 - 1900
     \<and> (\<forall>j < k. violated records t (of_nat (s - j)))
     \<and> (s - k < 1900 \<or> \<not> violated records t (of_nat (s - k)))"
proof (induction s rule: less_induct)
  case (less s)
  show ?case
  proof (cases "s < 1900 \<or> \<not> violated records t (of_nat s)")
    case True
    then show ?thesis by (subst (1) streak_loop_step) auto
  next
    case False
    obtain k where k: "unat (streak_loop records t (s - 1)) = k" "k \<le> s - 1 + 1 - 1900"
      "\<forall>j < k. violated records t (of_nat (s - 1 - j))"
      "s - 1 - k < 1900 \<or> \<not> violated records t (of_nat (s - 1 - k))"
      using less.IH [of "s - 1"] less.prems False by fastforce
    have "unat (streak_loop records t s) = Suc k"
      using k(1,2) less.prems False by (subst streak_loop_step) (simp add: unat_plus_if')
    moreover have "violated records t (of_nat (s - j))" if "j < Suc k" for j
      using that False k(3) by (cases j) auto
    moreover have "s - Suc k < 1900 \<or> \<not> violated records t (of_nat (s - Suc k))" using k(4) by simp
    ultimately show ?thesis using k(2) False by (intro exI [of _ "Suc k"]) auto
  qed
qed

text \<open>
  C25: the consecutive count of a team before a season is the length of the unbroken run of
  seasons, back from the season before, whose record shows an overage; it stops at the first
  season without one, and at 1900.
\<close>

theorem consecutive_count_is_streak:
  fixes records :: "cbt_record list"
  assumes "t \<noteq> 0" and "season \<noteq> 0"
  defines "k \<equiv> unat (kbo_cbt_get_consecutive_count records t season)"
    and "prior \<equiv> \<lambda>j. unat season - 1 - j"
  shows "(\<forall>j < k. 1900 \<le> prior j \<and> violated records t (of_nat (prior j)))
     \<and> (prior k < 1900 \<or> \<not> violated records t (of_nat (prior k)))"
proof -
  have s: "unat (season - 1) = unat season - 1" "unat season - 1 < 2 ^ 32"
    using assms(2) unat_pred_u32 [of season] unat_u32_bound [of season] by (auto simp: Suc_le_eq unat_gt_0)
  have c: "kbo_cbt_get_consecutive_count records t season = streak_loop records t (unat season - 1)"
  proof (cases "records = []")
    case True
    have "streak_loop [] t n = 0" for n
      by (subst streak_loop.simps) (simp add: kbo_cbt_find_record_def)
    then show ?thesis using True by (simp add: kbo_cbt_get_consecutive_count_def)
  qed (use assms s in \<open>simp add: kbo_cbt_get_consecutive_count_def\<close>)
  show ?thesis
    using streak_loop_spec [OF s(2), of records t] unfolding k_def prior_def c by fastforce
qed

definition demo_record :: "u32 \<Rightarrow> u32 \<Rightarrow> int \<Rightarrow> cbt_record" where
  "demo_record s t overage = \<lparr>rc_season = s, rc_team_id = t, rc_payroll = 1000 + overage, rc_threshold = 1000,
     rc_overage = overage, rc_tax_rate_pct = 50, rc_tax_amount = overage div 2, rc_consecutive_count = 1,
     rc_processed_date = 0, rc_team_name = []\<rparr>"

theorem consecutive_count_is_streak_witness:
  "kbo_cbt_get_consecutive_count [demo_record 2023 5 10, demo_record 2022 5 20, demo_record 2021 5 0] 5 2024 = 2
   \<and> \<not> violated [demo_record 2023 5 10, demo_record 2022 5 20, demo_record 2021 5 0] 5 2021"
proof -
  let ?rs = "[demo_record 2023 5 10, demo_record 2022 5 20, demo_record 2021 5 0]"
  have c: "kbo_cbt_get_consecutive_count ?rs 5 2024 = 2" by code_simp
  then show ?thesis
    using consecutive_count_is_streak [of 5 2024 ?rs] by simp
qed

section \<open>Running again\<close>

text \<open>The fields of a record that the run decides.\<close>

definition tax_fields :: "cbt_record \<Rightarrow> int \<times> int \<times> int \<times> u32 \<times> int \<times> u32" where
  "tax_fields r = (rc_payroll r, rc_threshold r, rc_overage r, rc_tax_rate_pct r, rc_tax_amount r,
     rc_consecutive_count r)"

lemma reconcile_fields: "tax_fields (cbt_reconcile rec existing) = tax_fields rec"
  by (auto simp: cbt_reconcile_def tax_fields_def)

lemma reconcile_keys:
  "rc_season (cbt_reconcile rec existing) = rc_season existing \<and> rc_team_id (cbt_reconcile rec existing) = rc_team_id existing"
  by (simp add: cbt_reconcile_def)

lemma reconcile_same: "tax_fields rec = tax_fields existing \<Longrightarrow> cbt_reconcile rec existing = existing"
  by (simp add: cbt_reconcile_def tax_fields_def)

text \<open>The records of other seasons agree.\<close>

definition same_history :: "u32 \<Rightarrow> cbt_record list \<Rightarrow> cbt_record list \<Rightarrow> bool" where
  "same_history season a b \<longleftrightarrow> (\<forall>s t. s \<noteq> season \<longrightarrow> lookup_record a s t = lookup_record b s t)"

lemma consecutive_cong:
  assumes "same_history season a b"
  shows "kbo_cbt_get_consecutive_count a t season = kbo_cbt_get_consecutive_count b t season"
proof (cases "t = 0 \<or> season = 0")
  case True
  then show ?thesis by (auto simp: kbo_cbt_get_consecutive_count_def)
next
  case False
  have z: "streak_loop [] t n = 0" for n
    by (subst streak_loop.simps) (simp add: kbo_cbt_find_record_def)
  have l: "kbo_cbt_get_consecutive_count r t season = streak_loop r t (unat (season - 1))" for r
    using False z by (cases "r = []") (simp_all add: kbo_cbt_get_consecutive_count_def)
  have lt: "unat (season - 1) < unat season"
    using False unat_pred_u32 [of season] by (simp add: Suc_le_eq unat_gt_0)
  have "violated a t (of_nat s') = violated b t (of_nat s')" if "s' \<le> unat (season - 1)" for s'
  proof -
    have "unat (of_nat s' :: u32) = s'" using that unat_u32_bound [of season] lt by (simp add: unat_of_nat)
    then have "(of_nat s' :: u32) \<noteq> season" using that lt by auto
    then show ?thesis using assms by (simp add: same_history_def violated_def)
  qed
  then show ?thesis unfolding l by (intro streak_loop_cong) simp
qed

lemma team_record_cong:
  "same_history season a b \<Longrightarrow>
     cbt_team_record rules threshold season name date a team = cbt_team_record rules threshold season name date b team"
  by (simp add: cbt_team_record_def consecutive_cong)

lemma team_record_keys [simp]:
  "rc_season (cbt_team_record rules threshold season name date rs team) = season"
  "rc_team_id (cbt_team_record rules threshold season name date rs team) = tp_team_id team"
  by (simp_all add: cbt_team_record_def Let_def)

text \<open>One step: what it leaves in the table.\<close>

lemma process_team_lookup:
  fixes team :: team_payroll and rules :: cbt_rules and threshold :: int and season date lid :: u32
    and name :: "u32 \<Rightarrow> string"
  defines "step \<equiv> \<lambda>run. cbt_process_team rules threshold season name date lid run team"
  assumes room: "length (ru_records run) < CBT_RECORDS_MAX"
  shows "same_history season (ru_records (step run)) (ru_records run)"
    and "\<exists>r. lookup_record (ru_records (step run)) season (tp_team_id team) = Some r
          \<and> tax_fields r = tax_fields (cbt_team_record rules threshold season name date (ru_records run) team)"
    and "t \<noteq> tp_team_id team \<Longrightarrow>
          lookup_record (ru_records (step run)) season t = lookup_record (ru_records run) season t"
    and "length (ru_records (step run)) \<le> Suc (length (ru_records run))"
proof -
  let ?rec = "cbt_team_record rules threshold season name date (ru_records run) team"
  have "same_history season (ru_records (step run)) (ru_records run)
     \<and> (\<exists>r. lookup_record (ru_records (step run)) season (tp_team_id team) = Some r \<and> tax_fields r = tax_fields ?rec)
     \<and> (t \<noteq> tp_team_id team \<longrightarrow>
          lookup_record (ru_records (step run)) season t = lookup_record (ru_records run) season t)
     \<and> length (ru_records (step run)) \<le> Suc (length (ru_records run))"
  proof (cases "kbo_cbt_find_record (ru_records run) season (tp_team_id team)")
    case None
    then have l: "lookup_record (ru_records run) season (tp_team_id team) = None" by (simp add: lookup_record_def)
    have r: "ru_records (step run) = ru_records run @ [?rec]"
      using None room by (simp add: step_def cbt_process_team_def Let_def)
    show ?thesis
      unfolding r by (auto simp: same_history_def lookup_append l split: option.splits)
  next
    case (Some i)
    let ?e = "cbt_reconcile ?rec (ru_records run ! i)"
    note k = find_record_key [OF Some]
    have r: "ru_records (step run) = (ru_records run)[i := ?e]"
      using Some by (simp add: step_def cbt_process_team_def Let_def)
    have e: "rc_season ?e = season" "rc_team_id ?e = tp_team_id team" using k reconcile_keys by auto
    show ?thesis
      unfolding r by (simp add: same_history_def lookup_update [OF Some e] reconcile_fields)
  qed
  then show "same_history season (ru_records (step run)) (ru_records run)"
    and "\<exists>r. lookup_record (ru_records (step run)) season (tp_team_id team) = Some r
          \<and> tax_fields r = tax_fields ?rec"
    and "t \<noteq> tp_team_id team \<Longrightarrow>
          lookup_record (ru_records (step run)) season t = lookup_record (ru_records run) season t"
    and "length (ru_records (step run)) \<le> Suc (length (ru_records run))" by auto
qed

text \<open>The whole run, for teams with distinct ids and room in the table.\<close>

lemma process_teams_lookup:
  fixes teams :: "team_payroll list" and run :: cbt_run and rules :: cbt_rules and threshold :: int
    and season date lid :: u32 and name :: "u32 \<Rightarrow> string"
  defines "out \<equiv> foldl (cbt_process_team rules threshold season name date lid) run teams"
  assumes "length (ru_records run) + length teams \<le> CBT_RECORDS_MAX" and "distinct (map tp_team_id teams)"
  shows "same_history season (ru_records out) (ru_records run)
     \<and> (\<forall>team \<in> set teams. \<exists>r. lookup_record (ru_records out) season (tp_team_id team) = Some r
          \<and> tax_fields r = tax_fields (cbt_team_record rules threshold season name date (ru_records run) team))
     \<and> (\<forall>t. t \<notin> tp_team_id ` set teams \<longrightarrow> lookup_record (ru_records out) season t = lookup_record (ru_records run) season t)
     \<and> length (ru_records out) \<le> length (ru_records run) + length teams"
  using assms(2,3) unfolding out_def
proof (induction teams rule: rev_induct)
  case (snoc team teams)
  define mid where "mid = foldl (cbt_process_team rules threshold season name date lid) run teams"
  have ih: "same_history season (ru_records mid) (ru_records run)"
    "\<forall>team \<in> set teams. \<exists>r. lookup_record (ru_records mid) season (tp_team_id team) = Some r
          \<and> tax_fields r = tax_fields (cbt_team_record rules threshold season name date (ru_records run) team)"
    "\<forall>t. t \<notin> tp_team_id ` set teams \<longrightarrow> lookup_record (ru_records mid) season t = lookup_record (ru_records run) season t"
    "length (ru_records mid) \<le> length (ru_records run) + length teams"
    using snoc by (auto simp: mid_def)
  have room: "length (ru_records mid) < CBT_RECORDS_MAX" using ih(4) snoc.prems(1) by simp
  note st = process_team_lookup [OF room, where rules = rules and threshold = threshold and season = season
      and name = name and date = date and lid = lid and team = team]
  have "tp_team_id team \<notin> tp_team_id ` set teams" using snoc.prems(2) by simp
  then show ?case
    using st(1,2,4) st(3) ih(1-3) ih(4) team_record_cong [OF ih(1), of rules threshold name date team] snoc.prems
    unfolding foldl_append foldl.simps mid_def [symmetric]
    by (auto simp: same_history_def) (metis imageI)+
qed (simp add: same_history_def)

lemma process_team_stable:
  assumes "lookup_record (ru_records run) season (tp_team_id team) = Some r"
    and "tax_fields r = tax_fields (cbt_team_record rules threshold season name date (ru_records run) team)"
  shows "ru_records (cbt_process_team rules threshold season name date lid run team) = ru_records run
     \<and> ru_new_violations (cbt_process_team rules threshold season name date lid run team) = ru_new_violations run
     \<and> ru_violation_news (cbt_process_team rules threshold season name date lid run team) = ru_violation_news run"
proof -
  obtain i where i: "kbo_cbt_find_record (ru_records run) season (tp_team_id team) = Some i"
    "ru_records run ! i = r" using assms(1) by (auto simp: lookup_record_def)
  have "(ru_records run)[i := r] = ru_records run" using i(2) by (metis list_update_id)
  then show ?thesis
    using i reconcile_same [OF assms(2) [symmetric]] by (simp add: cbt_process_team_def Let_def)
qed

lemma process_teams_stable:
  assumes "\<forall>team \<in> set teams. \<exists>r. lookup_record (ru_records run) season (tp_team_id team) = Some r
     \<and> tax_fields r = tax_fields (cbt_team_record rules threshold season name date (ru_records run) team)"
  shows "ru_records (foldl (cbt_process_team rules threshold season name date lid) run teams) = ru_records run
     \<and> ru_new_violations (foldl (cbt_process_team rules threshold season name date lid) run teams) = ru_new_violations run
     \<and> ru_violation_news (foldl (cbt_process_team rules threshold season name date lid) run teams) = ru_violation_news run"
  using assms
proof (induction teams arbitrary: run)
  case (Cons team teams)
  obtain r where "lookup_record (ru_records run) season (tp_team_id team) = Some r"
    "tax_fields r = tax_fields (cbt_team_record rules threshold season name date (ru_records run) team)"
    using Cons.prems by auto
  note st = process_team_stable [OF this, of lid]
  show ?case
    using Cons.IH [of "cbt_process_team rules threshold season name date lid run team"] Cons.prems st by simp
qed simp

text \<open>What a run that saved its records went through.\<close>

lemma process_saved:
  assumes "cx_saved_records (kbo_process_competitive_balance_tax_for_date env season date source) = Some recs"
  defines "teams \<equiv> cbt_payrolls env season"
    and "threshold \<equiv> kbo_cbt_get_threshold (ce_rules env) season"
  defines "run \<equiv> cbt_process_teams env season date threshold teams"
  shows "recs = ru_records run" and "0 < threshold" and "ce_save_records env recs" and "recs \<noteq> []"
    and "cx_violation_news (kbo_process_competitive_balance_tax_for_date env season date source) = ru_violation_news run"
    and "cx_new_violations (kbo_process_competitive_balance_tax_for_date env season date source) = ru_new_violations run"
    and "source = Some ''cbt_announcement_event''" and "SEASON_YEAR_MIN \<le> season" and "season \<le> SIM_YEAR_MAX"
    and "\<not> ce_flag_disabled env" and "cr_enabled (ce_rules env)" and "ce_grades env season \<noteq> []" and "teams \<noteq> []"
  using assms
  by (auto simp: kbo_process_competitive_balance_tax_for_date_def cbt_stop_def Let_def not_less
      split: if_splits)

lemma run_of_teams:
  "\<exists>dt. cbt_process_teams env season date threshold teams =
     foldl (cbt_process_team (ce_rules env) threshold season (ce_team_name env) dt (ce_league_id env))
       \<lparr>ru_records = ce_records env, ru_new_violations = 0, ru_violation_news = [], ru_audit = []\<rparr> teams
   \<and> (\<forall>recs table. cbt_process_teams (env\<lparr>ce_records := recs, ce_designations := table\<rparr>) season date threshold teams =
     foldl (cbt_process_team (ce_rules env) threshold season (ce_team_name env) dt (ce_league_id env))
       \<lparr>ru_records = recs, ru_new_violations = 0, ru_violation_news = [], ru_audit = []\<rparr> teams)"
proof -
  obtain y m d where "kbo_cbt_news_date season date = (y, m, d)" by (cases "kbo_cbt_news_date season date")
  then show ?thesis by (intro exI [of _ "y * 10000 + m * 100 + d"]) (simp add: cbt_process_teams_def)
qed

lemma payroll_table:
  "distinct (map tp_team_id (kbo_cbt_compute_team_payrolls grades season ex top_n))
   \<and> length (kbo_cbt_compute_team_payrolls grades season ex top_n) \<le> 32
   \<and> (\<forall>tp \<in> set (kbo_cbt_compute_team_payrolls grades season ex top_n). tp_team_id tp \<noteq> 0)"
proof -
  have "table_ok (nat (sint (kbo_cbt_effective_top_n top_n))) season ex grades
      (foldl (payroll_step season ex (kbo_cbt_effective_top_n top_n)) [] grades)"
    by (rule table_ok_foldl) (simp_all add: effective_top_n)
  then show ?thesis
    by (auto simp: kbo_cbt_compute_team_payrolls_def table_ok_def team_ok_def CBT_TEAM_MAX_def o_def)
qed

text \<open>The designations and hence the payrolls of a second run are those of the first.\<close>

lemma designations_settle:
  assumes "\<forall>rows. ce_write_designations env rows" and "designations_ok (ce_designations env)"
    and "length (ce_designations env) + card (sg_ranking_team_id ` set (ce_grades env season)) \<le> 64"
  shows "cbt_designations (env\<lparr>ce_records := recs, ce_designations := cbt_designations env season\<rparr>) season
     = cbt_designations env season"
  using auto_designate_twice [OF assms] by (simp add: cbt_designations_def)

lemma payrolls_settle:
  assumes "cbt_designations (env\<lparr>ce_records := recs, ce_designations := table\<rparr>) season = cbt_designations env season"
  shows "cbt_payrolls (env\<lparr>ce_records := recs, ce_designations := table\<rparr>) season = cbt_payrolls env season"
  using assms by (simp add: cbt_payrolls_def)

lemma process_again:
  fixes env :: cbt_env and season date :: u32 and recs :: "cbt_record list" and table :: "exception_designation list"
    and source :: "string option"
  defines "run2 \<equiv> cbt_process_teams (env\<lparr>ce_records := recs, ce_designations := table\<rparr>) season date
      (kbo_cbt_get_threshold (ce_rules env) season) (cbt_payrolls env season)"
    and "again \<equiv> kbo_process_competitive_balance_tax_for_date (env\<lparr>ce_records := recs, ce_designations := table\<rparr>)
      season date source"
  assumes "cx_saved_records (kbo_process_competitive_balance_tax_for_date env season date source) = Some recs"
    and "cbt_payrolls (env\<lparr>ce_records := recs, ce_designations := table\<rparr>) season = cbt_payrolls env season"
    and "ru_records run2 = recs"
  shows "cx_saved_records again = Some recs \<and> cx_new_violations again = ru_new_violations run2
     \<and> cx_violation_news again = ru_violation_news run2"
proof -
  note sv = process_saved [OF assms(3)]
  show ?thesis
    using sv(2-4,7,10-13) leD [OF sv(8)] leD [OF sv(9)] assms(4,5) unfolding again_def run2_def
    by (simp add: kbo_process_competitive_balance_tax_for_date_def Let_def)
qed

text \<open>Whether the marker of the summary is there decides only about the summary.\<close>

lemma process_marker:
  fixes env :: cbt_env and season date :: u32 and source :: "string option" and b :: bool
  defines "r \<equiv> kbo_process_competitive_balance_tax_for_date (env\<lparr>ce_summary_marker_exists := b\<rparr>) season date source"
    and "r0 \<equiv> kbo_process_competitive_balance_tax_for_date env season date source"
  shows "cx_saved_records r = cx_saved_records r0" and "cx_designations r = cx_designations r0"
    and "cx_new_violations r = cx_new_violations r0" and "cx_violation_news r = cx_violation_news r0"
    and "b \<Longrightarrow> \<not> cx_summary_marker_persisted r"
proof -
  have e: "cbt_designations (env\<lparr>ce_summary_marker_exists := b\<rparr>) season = cbt_designations env season"
      "cbt_payrolls (env\<lparr>ce_summary_marker_exists := b\<rparr>) season = cbt_payrolls env season"
      "cbt_process_teams (env\<lparr>ce_summary_marker_exists := b\<rparr>) season date t ts = cbt_process_teams env season date t ts"
      for t ts
    by (simp_all add: cbt_designations_def cbt_payrolls_def cbt_process_teams_def Let_def)
  show "cx_saved_records r = cx_saved_records r0" "cx_designations r = cx_designations r0"
    "cx_new_violations r = cx_new_violations r0" "cx_violation_news r = cx_violation_news r0"
    "b \<Longrightarrow> \<not> cx_summary_marker_persisted r"
    unfolding r_def r0_def kbo_process_competitive_balance_tax_for_date_def Let_def e cbt_stop_def by simp_all
qed

lemma saved_designations:
  assumes "cx_saved_records (kbo_process_competitive_balance_tax_for_date env season date source) = Some recs"
  shows "cx_designations (kbo_process_competitive_balance_tax_for_date env season date source) = cbt_designations env season"
  using assms by (auto simp: kbo_process_competitive_balance_tax_for_date_def Let_def cbt_stop_def split: if_splits)

lemma rerun_keeps:
  assumes "cx_saved_records (kbo_process_competitive_balance_tax_for_date env season date source) = Some recs"
    and "length (ce_records env) \<le> 468"
    and "\<forall>rows. ce_write_designations env rows" and "designations_ok (ce_designations env)"
    and "length (ce_designations env) + card (sg_ranking_team_id ` set (ce_grades env season)) \<le> 64"
  defines "again \<equiv> kbo_process_competitive_balance_tax_for_date
     (env\<lparr>ce_records := recs, ce_designations := cbt_designations env season\<rparr>) season date source"
  shows "cx_saved_records again = Some recs \<and> cx_new_violations again = 0 \<and> cx_violation_news again = []"
proof -
  define teams where "teams = cbt_payrolls env season"
  define threshold where "threshold = kbo_cbt_get_threshold (ce_rules env) season"
  let ?env2 = "env\<lparr>ce_records := recs, ce_designations := cbt_designations env season\<rparr>"
  note sv = process_saved [OF assms(1), folded teams_def threshold_def]
  obtain dt where dt: "cbt_process_teams env season date threshold teams =
     foldl (cbt_process_team (ce_rules env) threshold season (ce_team_name env) dt (ce_league_id env))
       \<lparr>ru_records = ce_records env, ru_new_violations = 0, ru_violation_news = [], ru_audit = []\<rparr> teams"
    "\<And>recs table. cbt_process_teams (env\<lparr>ce_records := recs, ce_designations := table\<rparr>) season date threshold teams =
     foldl (cbt_process_team (ce_rules env) threshold season (ce_team_name env) dt (ce_league_id env))
       \<lparr>ru_records = recs, ru_new_violations = 0, ru_violation_news = [], ru_audit = []\<rparr> teams"
    using run_of_teams [of env season date threshold teams] by blast
  have tb: "distinct (map tp_team_id teams)" "length teams \<le> 32"
    using payroll_table unfolding teams_def cbt_payrolls_def by blast+
  note out = process_teams_lookup [where run = "\<lparr>ru_records = ce_records env, ru_new_violations = 0,
      ru_violation_news = [], ru_audit = []\<rparr>" and teams = teams and rules = "ce_rules env" and threshold = threshold
      and season = season and name = "ce_team_name env" and date = dt and lid = "ce_league_id env"]
  have recs: "same_history season recs (ce_records env)"
    "\<forall>team \<in> set teams. \<exists>r. lookup_record recs season (tp_team_id team) = Some r
          \<and> tax_fields r = tax_fields (cbt_team_record (ce_rules env) threshold season (ce_team_name env) dt (ce_records env) team)"
    using out tb assms(2) unfolding sv(1) dt(1) by (auto simp: CBT_RECORDS_MAX_def)
  have run2: "ru_records run2 = recs \<and> ru_new_violations run2 = 0 \<and> ru_violation_news run2 = []"
    if "run2 = cbt_process_teams ?env2 season date threshold teams" for run2
    unfolding that dt(2)
    using process_teams_stable [of teams "\<lparr>ru_records = recs, ru_new_violations = 0, ru_violation_news = [], ru_audit = []\<rparr>"
        season "ce_rules env" threshold "ce_team_name env" dt "ce_league_id env"]
      recs(2) team_record_cong [OF recs(1)] by simp
  have pay: "cbt_payrolls ?env2 season = cbt_payrolls env season"
    by (rule payrolls_settle [OF designations_settle [OF assms(3-5)]])
  show ?thesis
    using process_again [OF assms(1) pay] run2 unfolding again_def teams_def threshold_def by simp
qed

text \<open>
  C26: running the announcement again over what a run saved, with the same inputs (the
  records, the designations and the marker of the summary), saves the same records, keeps
  the same designations, finds no new violation, publishes no violation news, and writes no
  second summary if the first run wrote one.  The draft order is not part of it: a penalised
  team may be moved once more (\<open>forgotten_signature_moves_again\<close>).  There has to be room for
  the 32 teams in the table of 500 records and for the designations in their table of 64, and
  the designations can be written.
\<close>

theorem rerun_saves_the_same_records:
  fixes env :: cbt_env and season date :: u32 and source :: "string option"
  defines "once \<equiv> kbo_process_competitive_balance_tax_for_date env season date source"
  assumes "cx_saved_records once = Some recs"
    and "length (ce_records env) \<le> 468"
    and "\<forall>rows. ce_write_designations env rows" and "designations_ok (ce_designations env)"
    and "length (ce_designations env) + card (sg_ranking_team_id ` set (ce_grades env season)) \<le> 64"
  defines "again \<equiv> kbo_process_competitive_balance_tax_for_date
     (env\<lparr>ce_records := recs, ce_designations := cx_designations once,
          ce_summary_marker_exists := ce_summary_marker_exists env \<or> cx_summary_marker_persisted once\<rparr>)
     season date source"
  shows "cx_saved_records again = Some recs \<and> cx_designations again = cx_designations once
     \<and> cx_new_violations again = 0 \<and> cx_violation_news again = []
     \<and> (cx_summary_marker_persisted once \<longrightarrow> \<not> cx_summary_marker_persisted again)"
proof -
  have d: "cx_designations once = cbt_designations env season"
    using assms(2) unfolding once_def by (rule saved_designations)
  let ?env = "env\<lparr>ce_records := recs, ce_designations := cbt_designations env season\<rparr>"
  note keeps = rerun_keeps [OF assms(2)[unfolded once_def] assms(3-6)]
  have "cx_designations (kbo_process_competitive_balance_tax_for_date ?env season date source)
      = cbt_designations env season"
    using saved_designations [OF keeps [THEN conjunct1]] designations_settle [OF assms(4-6)] by simp
  then show ?thesis
    using keeps process_marker [where env = ?env and b = "ce_summary_marker_exists env \<or> cx_summary_marker_persisted once"
        and season = season and date = date and source = source]
    unfolding again_def d by simp
qed

text \<open>A season of one team with two players, taxed for the first time.\<close>

definition demo_grade :: "int \<Rightarrow> string \<Rightarrow> salary_grade" where
  "demo_grade salary key = \<lparr>sg_ranking_team_id = 5, sg_foreign_flag = False, sg_salary = salary, sg_player_key = key, sg_player_name = ''''\<rparr>"

definition demo_cbt :: cbt_env where
  "demo_cbt = \<lparr>ce_flag_disabled = False, ce_rules = demo_rules\<lparr>cr_enabled := True\<rparr>,
     ce_grades = (\<lambda>_. [demo_grade 700 ''a'', demo_grade 600 ''b'']), ce_designations = [],
     ce_team_seasons = (\<lambda>_ _. None), ce_write_designations = (\<lambda>_. True),
     ce_records = [], ce_league_id = 0, ce_team_name = (\<lambda>_. ''Team''), ce_save_records = (\<lambda>_. True),
     ce_draft = demo_draft_env, ce_draft_globals = initial_draft_globals, ce_draft_memory = demo_draft,
     ce_summary_marker_exists = False, ce_summary_created = (\<lambda>_. False)\<rparr>"

lemma demo_teams:
  "kbo_cbt_compute_team_payrolls [demo_grade 700 ''a'', demo_grade 600 ''b''] 2024 [] 2
      = [\<lparr>tp_team_id = 5, tp_domestic_salaries = [700, 600], tp_top_n_sum = 1300, tp_exception_credit = 0\<rparr>]"
  by code_simp

lemma demo_designations: "cbt_designations demo_cbt 2024 = []"
proof -
  have "fst (kbo_cbt_exception_auto_designate_missing (\<lambda>_. True) (\<lambda>_ _. None) 2024
      [demo_grade 700 ''a'', demo_grade 600 ''b''] []) = []"
    by code_simp
  then show ?thesis by (simp add: cbt_designations_def demo_cbt_def)
qed

lemma demo_payrolls:
  "cbt_payrolls demo_cbt 2024
      = [\<lparr>tp_team_id = 5, tp_domestic_salaries = [700, 600], tp_top_n_sum = 1300, tp_exception_credit = 0\<rparr>]"
proof -
  have "kbo_cbt_exception_load_designations [] = []" by code_simp
  moreover have "ce_grades demo_cbt 2024 = [demo_grade 700 ''a'', demo_grade 600 ''b'']"
    "cr_top_player_count (ce_rules demo_cbt) = 2"
    by (simp_all add: demo_cbt_def demo_rules_def)
  ultimately show ?thesis by (simp only: cbt_payrolls_def demo_designations demo_teams)
qed

lemma demo_limit: "kbo_cbt_get_threshold (demo_rules\<lparr>cr_enabled := True\<rparr>) 2024 = 1000"
  by code_simp

lemma demo_cbt_saved:
  "map_option (map tax_fields) (cx_saved_records
     (kbo_process_competitive_balance_tax_for_date demo_cbt 2024 0 (Some ''cbt_announcement_event'')))
   = Some [(1300, 1000, 300, 50, 150, 1)]"
proof -
  have rate: "kbo_cbt_get_tax_rate (demo_rules\<lparr>cr_enabled := True\<rparr>) 1 = 50"
    by (simp add: demo_rules_def kbo_cbt_get_tax_rate_def)
  have years: "\<not> 2024 < SEASON_YEAR_MIN" "\<not> SIM_YEAR_MAX < 2024"
    by (simp_all add: SEASON_YEAR_MIN_def SIM_YEAR_MAX_def)
  have date: "kbo_cbt_news_date 2024 0 = (2024, 4, 1)"
    by (simp add: kbo_cbt_news_date_def Let_def SEASON_YEAR_MIN_def)
  let ?rec = "cbt_team_record (demo_rules\<lparr>cr_enabled := True\<rparr>) 1000 2024 (\<lambda>_. ''Team'') 20240401 []
      \<lparr>tp_team_id = 5, tp_domestic_salaries = [700, 600], tp_top_n_sum = 1300, tp_exception_credit = 0\<rparr>"
  have rec: "tax_fields ?rec = (1300, 1000, 300, 50, 150, 1)"
    by (simp add: cbt_team_record_def kbo_cbt_get_consecutive_count_def rate tax_fields_def c_div_nonneg)
  have run: "ru_records (cbt_process_teams demo_cbt 2024 0 1000
      [\<lparr>tp_team_id = 5, tp_domestic_salaries = [700, 600], tp_top_n_sum = 1300, tp_exception_credit = 0\<rparr>]) = [?rec]"
    by (simp add: demo_cbt_def cbt_process_teams_def date cbt_process_team_def Let_def
        kbo_cbt_find_record_def CBT_RECORDS_MAX_def)
  have env: "ce_rules demo_cbt = demo_rules\<lparr>cr_enabled := True\<rparr>" "ce_grades demo_cbt 2024 \<noteq> []"
    "\<not> ce_flag_disabled demo_cbt" "ce_save_records demo_cbt = (\<lambda>_. True)"
    by (simp_all add: demo_cbt_def)
  show ?thesis
    using rec by (simp add: kbo_process_competitive_balance_tax_for_date_def env years demo_limit demo_payrolls run Let_def)
qed

theorem rerun_saves_the_same_records_witness:
  "\<exists>recs. cx_violation_news (kbo_process_competitive_balance_tax_for_date
      (demo_cbt\<lparr>ce_records := recs, ce_designations := [], ce_summary_marker_exists := False\<rparr>)
      2024 0 (Some ''cbt_announcement_event'')) = []
     \<and> map tax_fields recs = [(1300, 1000, 300, 50, 150, 1)]"
proof -
  let ?once = "kbo_process_competitive_balance_tax_for_date demo_cbt 2024 0 (Some ''cbt_announcement_event'')"
  obtain recs where r: "cx_saved_records ?once = Some recs" "map tax_fields recs = [(1300, 1000, 300, 50, 150, 1)]"
    using demo_cbt_saved by auto
  have h: "length (ce_records demo_cbt) \<le> 468" "\<forall>rows. ce_write_designations demo_cbt rows"
    "designations_ok (ce_designations demo_cbt)"
    "length (ce_designations demo_cbt) + card (sg_ranking_team_id ` set (ce_grades demo_cbt 2024)) \<le> 64"
    by (simp_all add: demo_cbt_def designations_ok_def demo_grade_def)
  have d: "cx_designations ?once = []" using saved_designations [OF r(1)] demo_designations by simp
  have m: "(ce_summary_marker_exists demo_cbt \<or> cx_summary_marker_persisted ?once) = False"
    by (simp add: kbo_process_competitive_balance_tax_for_date_def Let_def cbt_stop_def demo_cbt_def)
  note again = rerun_saves_the_same_records [OF r(1) h, unfolded d m]
  show ?thesis
    by (rule exI [of _ recs])
      (rule conjI [OF again [THEN conjunct2, THEN conjunct2, THEN conjunct2, THEN conjunct1] r(2)])
qed

text \<open>
  C12: after a run that saved its records, every team of the payroll table has a record of
  the season with its payroll, the season's threshold, the overage (0 below it), the streak
  continued or broken, the rate of that streak and the tax of that rate on the overage; the
  records of all other seasons are as before.  There are at most 468 stored records, so that the
  32 teams have room, the rules are within their ranges, the threshold is below \<open>2 ^ 31\<close>, and a
  team with a negative payroll is left out.
\<close>

theorem saved_records_tax_every_team:
  fixes env :: cbt_env and season date :: u32
  assumes saved: "cx_saved_records (kbo_process_competitive_balance_tax_for_date env season date source) = Some recs"
    and room: "length (ce_records env) \<le> 468" and rules: "rules_ok (ce_rules env)"
    and limit: "kbo_cbt_get_threshold (ce_rules env) season < 2 ^ 31"
  defines "teams \<equiv> cbt_payrolls env season"
    and "threshold \<equiv> kbo_cbt_get_threshold (ce_rules env) season"
    and "prior \<equiv> \<lambda>t. kbo_cbt_get_consecutive_count (ce_records env) t season"
  shows "same_history season recs (ce_records env)
     \<and> (\<forall>team \<in> set teams. 0 \<le> tp_top_n_sum team \<longrightarrow>
         (\<exists>r. lookup_record recs season (tp_team_id team) = Some r
            \<and> rc_payroll r = tp_top_n_sum team \<and> rc_threshold r = threshold
            \<and> rc_overage r = max 0 (tp_top_n_sum team - threshold)
            \<and> rc_consecutive_count r =
                (if threshold < tp_top_n_sum team then prior (tp_team_id team) + 1 else 0)
            \<and> rc_tax_rate_pct r = kbo_cbt_get_tax_rate (ce_rules env) (rc_consecutive_count r)
            \<and> rc_tax_amount r = i32 (rc_overage r * uint (rc_tax_rate_pct r) div 100)))"
proof -
  note sv = process_saved [OF saved, folded teams_def threshold_def]
  obtain dt where dt: "cbt_process_teams env season date threshold teams =
     foldl (cbt_process_team (ce_rules env) threshold season (ce_team_name env) dt (ce_league_id env))
       \<lparr>ru_records = ce_records env, ru_new_violations = 0, ru_violation_news = [], ru_audit = []\<rparr> teams"
    using run_of_teams [of env season date threshold teams] by blast
  have tb: "distinct (map tp_team_id teams)" "length teams \<le> 32"
    using payroll_table unfolding teams_def cbt_payrolls_def by blast+
  have top: "tp_top_n_sum team < 2 ^ 31" if "team \<in> set teams" for team
    using that i32_upper unfolding teams_def cbt_payrolls_def kbo_cbt_compute_team_payrolls_def
    by (auto simp: payroll_sum_total)
  note out = process_teams_lookup [where run = "\<lparr>ru_records = ce_records env, ru_new_violations = 0,
      ru_violation_news = [], ru_audit = []\<rparr>" and teams = teams and rules = "ce_rules env" and threshold = threshold
      and season = season and name = "ce_team_name env" and date = dt and lid = "ce_league_id env"]
  have recs: "same_history season recs (ce_records env)"
    "\<forall>team \<in> set teams. \<exists>r. lookup_record recs season (tp_team_id team) = Some r
          \<and> tax_fields r = tax_fields (cbt_team_record (ce_rules env) threshold season (ce_team_name env) dt (ce_records env) team)"
    using out tb room unfolding sv(1) dt by (auto simp: CBT_RECORDS_MAX_def)
  have rate: "sint (kbo_cbt_get_tax_rate (ce_rules env) n) = uint (kbo_cbt_get_tax_rate (ce_rules env) n)" for n
  proof -
    have "kbo_cbt_get_tax_rate (ce_rules env) n \<le> 1000"
      using rules by (auto simp: kbo_cbt_get_tax_rate_def rules_ok_def)
    then have "uint (kbo_cbt_get_tax_rate (ce_rules env) n) \<le> 1000" by (simp add: word_le_def)
    then show ?thesis by (intro sint_eq_uint) simp
  qed
  have fields: "tax_fields (cbt_team_record (ce_rules env) threshold season (ce_team_name env) dt (ce_records env) team)
      = (let over = max 0 (tp_top_n_sum team - threshold);
             n = (if threshold < tp_top_n_sum team then prior (tp_team_id team) + 1 else 0);
             rate = kbo_cbt_get_tax_rate (ce_rules env) n
         in (tp_top_n_sum team, threshold, over, rate, i32 (over * uint rate div 100), n))"
    if "team \<in> set teams" "0 \<le> tp_top_n_sum team" for team
  proof -
    have i: "i32 (tp_top_n_sum team - threshold) = tp_top_n_sum team - threshold"
      using that top [OF that(1)] sv(2) limit by (intro i32_id) (auto simp: threshold_def)
    show ?thesis
      by (simp add: tax_fields_def cbt_team_record_def Let_def i rate prior_def c_div_nonneg max_def)
  qed
  show ?thesis
    using recs fields by (fastforce simp: tax_fields_def Let_def)
qed

theorem saved_records_tax_every_team_witness:
  "\<exists>recs r. lookup_record recs 2024 5 = Some r \<and> rc_overage r = 300 \<and> rc_tax_amount r = 150"
proof -
  obtain recs where r: "cx_saved_records (kbo_process_competitive_balance_tax_for_date demo_cbt 2024 0
      (Some ''cbt_announcement_event'')) = Some recs"
    using demo_cbt_saved by auto
  have env: "ce_rules demo_cbt = demo_rules\<lparr>cr_enabled := True\<rparr>"
      "ce_grades demo_cbt 2024 = [demo_grade 700 ''a'', demo_grade 600 ''b'']" "ce_records demo_cbt = []"
    by (simp_all add: demo_cbt_def)
  have ok: "rules_ok (ce_rules demo_cbt)"
    by (simp add: env rules_ok_def thresholds_ok_def demo_rules_def kbo_cbt_rules_init_defaults_def CBT_THRESHOLD_MAX_def)
  have none: "kbo_cbt_get_consecutive_count [] 5 2024 = 0" by (simp add: kbo_cbt_get_consecutive_count_def)
  have rate: "kbo_cbt_get_tax_rate (demo_rules\<lparr>cr_enabled := True\<rparr>) 1 = 50"
    by (simp add: demo_rules_def kbo_cbt_get_tax_rate_def)
  have room: "length (ce_records demo_cbt) \<le> 468" and lim: "kbo_cbt_get_threshold (ce_rules demo_cbt) 2024 < 2 ^ 31"
    by (simp_all add: env demo_limit)
  note t = saved_records_tax_every_team [OF r room ok lim, THEN conjunct2]
  have "\<exists>r. lookup_record recs 2024 5 = Some r \<and> rc_overage r = 300 \<and> rc_tax_amount r = 150"
    using t by (simp add: env demo_payrolls demo_limit none) (auto simp: rate)
  then show ?thesis by blast
qed

text \<open>
  A full table of 500 records drops the record of a new team without a word: the team
  is counted and announced as a violation, but nothing is stored, so the next run announces
  it again.
\<close>

theorem full_table_drops_new_record:
  fixes rules :: cbt_rules and name :: "u32 \<Rightarrow> string" and date :: u32
  assumes "length (ru_records run) = CBT_RECORDS_MAX"
    and "lookup_record (ru_records run) season (tp_team_id team) = None"
    and "threshold < tp_top_n_sum team" and "0 < threshold" and "tp_top_n_sum team < 2 ^ 31" and "lid \<noteq> 0"
  defines "run' \<equiv> cbt_process_team rules threshold season name date lid run team"
  shows "ru_records run' = ru_records run
     \<and> ru_new_violations run' = ru_new_violations run + 1
     \<and> length (ru_violation_news run') = Suc (length (ru_violation_news run))
     \<and> lookup_record (ru_records run') season (tp_team_id team) = None"
proof -
  have f: "kbo_cbt_find_record (ru_records run) season (tp_team_id team) = None"
    using assms(2) by (simp add: lookup_record_def)
  have "i32 (tp_top_n_sum team - threshold) = tp_top_n_sum team - threshold"
    using assms(3-5) by (intro i32_id) auto
  then have over: "0 < rc_overage (cbt_team_record rules threshold season name date (ru_records run) team)"
    using assms(3) by (simp add: cbt_team_record_def Let_def)
  show ?thesis
    using over assms(1,2,6) by (simp add: run'_def cbt_process_team_def f Let_def)
qed

theorem full_table_drops_new_record_witness:
  "ru_new_violations (cbt_process_team demo_rules 1000 2024 (\<lambda>_. []) 0 100
       \<lparr>ru_records = replicate 500 (demo_record 2000 1 0), ru_new_violations = 0, ru_violation_news = [], ru_audit = []\<rparr>
       \<lparr>tp_team_id = 5, tp_domestic_salaries = [1300], tp_top_n_sum = 1300, tp_exception_credit = 0\<rparr>) = 1"
proof -
  let ?run = "\<lparr>ru_records = replicate 500 (demo_record 2000 1 0), ru_new_violations = 0, ru_violation_news = [], ru_audit = []\<rparr>"
  let ?team = "\<lparr>tp_team_id = 5, tp_domestic_salaries = [1300], tp_top_n_sum = 1300, tp_exception_credit = 0\<rparr>"
  have "length (ru_records ?run) = CBT_RECORDS_MAX" by (simp add: CBT_RECORDS_MAX_def)
  moreover have "lookup_record (ru_records ?run) 2024 (tp_team_id ?team) = None"
    by (simp add: lookup_record_def kbo_cbt_find_record_def first_index_None demo_record_def)
  ultimately show ?thesis
    using full_table_drops_new_record [where run = ?run and season = 2024 and team = ?team and threshold = 1000
        and lid = 100 and rules = demo_rules and name = "\<lambda>_. []" and date = 0] by simp
qed

section \<open>The draft penalty\<close>

lemma latest_record_spec:
  assumes "\<forall>b. best = Some b \<longrightarrow> rc_season b = bs"
  shows "case latest_record t rs bs best of
       None \<Rightarrow> best = None \<and> (\<forall>r \<in> set rs. rc_team_id r = t \<longrightarrow> rc_season r \<le> bs)
     | Some x \<Rightarrow> (best = Some x \<or> x \<in> set rs \<and> rc_team_id x = t) \<and> bs \<le> rc_season x
         \<and> (\<forall>r \<in> set rs. rc_team_id r = t \<longrightarrow> rc_season r \<le> rc_season x)"
  using assms
proof (induction rs arbitrary: bs best)
  case Nil
  then show ?case by (cases best) auto
next
  case (Cons r rs)
  show ?case
  proof (cases "rc_team_id r = t \<and> bs < rc_season r")
    case True
    then show ?thesis
      using Cons.IH [where best = "Some r" and bs = "rc_season r"] by (auto split: option.splits intro: less_imp_le order_trans)
  next
    case False
    then have "rc_team_id r = t \<longrightarrow> rc_season r \<le> bs" by auto
    then show ?thesis
      using False Cons.IH [where best = best and bs = bs] Cons.prems by (auto split: option.splits)
  qed
qed

text \<open>
  Right after the cache was cleared, the draft penalty of a team is decided by its
  latest record alone: the stages of the rules if that record has an overage and a long
  enough streak, nothing otherwise, and nothing for a team without records.  A cache that is
  still valid goes on answering from the records it was loaded with.
\<close>

theorem draft_penalty_follows_latest_record:
  fixes rules :: cbt_rules and records :: "cbt_record list" and c :: draft_penalty_cache
  assumes "t \<noteq> 0"
  defines "fresh \<equiv> kbo_cbt_draft_penalty_stages_for_team rules records t (kbo_cbt_draft_penalty_cache_clear c)"
  shows "(\<forall>r \<in> set records. rc_team_id r = t \<and> rc_season r \<noteq> 0
            \<and> (\<forall>r' \<in> set records. rc_team_id r' = t \<longrightarrow> r' = r \<or> rc_season r' < rc_season r) \<longrightarrow>
          snd fresh = (if 0 < rc_overage r \<and> cr_draft_penalty_min_consecutive rules \<le> rc_consecutive_count r
                       then sint (cr_draft_penalty_stages rules) else 0))
     \<and> ((\<forall>r \<in> set records. rc_team_id r \<noteq> t) \<longrightarrow> snd fresh = 0)
     \<and> kbo_cbt_draft_penalty_stages_for_team rules2 records2 t (fst fresh) = fresh"
proof -
  have sp: "case latest_record t records 0 None of
       None \<Rightarrow> (\<forall>r \<in> set records. rc_team_id r = t \<longrightarrow> rc_season r \<le> 0)
     | Some x \<Rightarrow> x \<in> set records \<and> rc_team_id x = t
         \<and> (\<forall>r \<in> set records. rc_team_id r = t \<longrightarrow> rc_season r \<le> rc_season x)"
    using latest_record_spec [where best = None and bs = 0 and t = t and rs = records] by (auto split: option.splits)
  have f: "snd fresh = (case latest_record t records 0 None of None \<Rightarrow> 0
      | Some rec \<Rightarrow> if rc_overage rec \<le> 0 then 0
          else if rc_consecutive_count rec < cr_draft_penalty_min_consecutive rules then 0
          else sint (cr_draft_penalty_stages rules))"
    using assms(1) by (simp add: fresh_def kbo_cbt_draft_penalty_stages_for_team_def Let_def
        kbo_cbt_draft_penalty_load_cache_def kbo_cbt_draft_penalty_cache_clear_def split: option.split)
  have "latest_record t records 0 None = Some r"
    if "r \<in> set records" "rc_team_id r = t" "rc_season r \<noteq> 0"
      "\<forall>r' \<in> set records. rc_team_id r' = t \<longrightarrow> r' = r \<or> rc_season r' < rc_season r" for r
  proof (cases "latest_record t records 0 None")
    case None
    then show ?thesis using sp that(1-3) by auto
  next
    case (Some x)
    then have x: "x \<in> set records" "rc_team_id x = t" "rc_season r \<le> rc_season x" using sp that(1,2) by auto
    have "x = r \<or> rc_season x < rc_season r" using that(4) x(1,2) by blast
    then have "x = r" using x(3) by auto
    then show ?thesis using Some by simp
  qed
  moreover have "latest_record t records 0 None = None" if "\<forall>r \<in> set records. rc_team_id r \<noteq> t"
    using sp that by (auto split: option.splits)
  moreover have "kbo_cbt_draft_penalty_stages_for_team rules2 records2 t (fst fresh) = fresh"
    using assms(1) by (simp add: fresh_def kbo_cbt_draft_penalty_stages_for_team_def Let_def
        kbo_cbt_draft_penalty_load_cache_def kbo_cbt_draft_penalty_cache_clear_def)
  ultimately show ?thesis unfolding f by auto
qed

theorem draft_penalty_follows_latest_record_witness:
  "snd (kbo_cbt_draft_penalty_stages_for_team demo_rules [demo_record 2023 5 10, (demo_record 2024 5 10)\<lparr>rc_consecutive_count := 2\<rparr>] 5
      (kbo_cbt_draft_penalty_cache_clear \<lparr>dc_valid = True, dc_records = [], dc_min_consecutive = 3, dc_stages = 9\<rparr>)) = 9"
proof -
  have s: "sint (cr_draft_penalty_stages demo_rules) = 9" "cr_draft_penalty_min_consecutive demo_rules = 2"
    by (simp_all add: demo_rules_def)
  show ?thesis
    using draft_penalty_follows_latest_record [where t = 5 and rules = demo_rules
        and records = "[demo_record 2023 5 10, (demo_record 2024 5 10)\<lparr>rc_consecutive_count := 2\<rparr>]"
        and c = "\<lparr>dc_valid = True, dc_records = [], dc_min_consecutive = 3, dc_stages = 9\<rparr>"] s
    by (simp add: demo_record_def)
qed

end
