(* ===== verification/RosterArrays.thy ===== *)
theory RosterArrays
  imports KboPrelude
begin

text \<open>
  The id arrays of a team object and the assignment of players to clubs:
  \<open>native/src/team/assignment/roster_arrays/team_roster_arrays.c\<close> and
  \<open>native/src/team/assignment/org_query/team_org_assignment_query.c\<close>.

  A team object of the game holds six arrays of 200 player ids, in which 0 marks a free
  place.  A team that is not found, or whose memory cannot be read, is \<open>None\<close> in the maps of
  the callers, so the operations here work on a team that is there.
\<close>

section \<open>Objects of the game\<close>

datatype roster_array = Ids2760 | Ids2A80 | Ids2DA0 | Restricted | Ids33E0 | Ids3700

record team_row =
  tm_id :: u32
  tm_league_id :: u32
  tm_parent_team_id :: u32
  tm_arrays :: "roster_array \<Rightarrow> u32 list"

record player_row =
  pl_nation :: u32
  pl_current_team :: u32
  pl_active_team :: u32
  pl_loan_team :: u32
  pl_original_team :: u32
  pl_default_team :: u32
  pl_current_league :: u32
  pl_original_league :: u32
  pl_draft_league :: u32
  pl_restricted :: u8
  pl_secondary_restricted :: u8
  pl_dfa :: u8
  pl_contract_level :: u8
  pl_overall_value :: int
  pl_talent_value :: int
  pl_ratings_value :: int
  pl_career_value :: int

definition TEAM_PLAYER_ID_ARRAY_COUNT :: nat where "TEAM_PLAYER_ID_ARRAY_COUNT = 200"

section \<open>The arrays\<close>

definition remove_id :: "u32 \<Rightarrow> u32 list \<Rightarrow> u32 list \<times> nat" where
  "remove_id player_id ids =
     (if player_id = 0 then (ids, 0)
      else (map (\<lambda>i. if i = player_id then 0 else i) ids, length (filter (\<lambda>i. i = player_id) ids)))"

definition contains_id :: "u32 \<Rightarrow> u32 list \<Rightarrow> bool" where
  "contains_id player_id ids \<longleftrightarrow> player_id \<noteq> 0 \<and> list_ex (\<lambda>i. i = player_id) ids"

fun put_free :: "u32 \<Rightarrow> u32 list \<Rightarrow> u32 list option" where
  "put_free player_id [] = None"
| "put_free player_id (i # ids) =
     (if i = 0 then Some (player_id # ids) else map_option ((#) i) (put_free player_id ids))"

definition add_id :: "u32 \<Rightarrow> u32 list \<Rightarrow> u32 list \<times> bool" where
  "add_id player_id ids =
     (if player_id = 0 then (ids, False)
      else if list_ex (\<lambda>i. i = player_id) ids then (ids, True)
      else case put_free player_id ids of None \<Rightarrow> (ids, False) | Some ids' \<Rightarrow> (ids', True))"

section \<open>On a team\<close>

definition with_array :: "roster_array \<Rightarrow> u32 list \<Rightarrow> team_row \<Rightarrow> team_row" where
  "with_array a ids team = team\<lparr>tm_arrays := (tm_arrays team)(a := ids)\<rparr>"

definition kbo_remove_player_id_from_team_fixed_array ::
    "roster_array \<Rightarrow> u32 \<Rightarrow> team_row \<Rightarrow> team_row \<times> nat" where
  "kbo_remove_player_id_from_team_fixed_array a player_id team =
     (let (ids, removed) = remove_id player_id (tm_arrays team a) in (with_array a ids team, removed))"

definition kbo_team_fixed_array_contains_player :: "roster_array \<Rightarrow> u32 \<Rightarrow> team_row \<Rightarrow> bool" where
  "kbo_team_fixed_array_contains_player a player_id team \<longleftrightarrow> contains_id player_id (tm_arrays team a)"

definition kbo_add_player_id_to_team_fixed_array ::
    "roster_array \<Rightarrow> u32 \<Rightarrow> team_row \<Rightarrow> team_row \<times> bool" where
  "kbo_add_player_id_to_team_fixed_array a player_id team =
     (let (ids, added) = add_id player_id (tm_arrays team a) in (with_array a ids team, added))"

definition kbo_team_roster_arrays_contain_player :: "u32 \<Rightarrow> team_row \<Rightarrow> bool" where
  "kbo_team_roster_arrays_contain_player player_id team \<longleftrightarrow>
     player_id \<noteq> 0 \<and> list_ex (\<lambda>a. kbo_team_fixed_array_contains_player a player_id team)
       [Ids2760, Ids2A80, Ids2DA0, Restricted, Ids33E0, Ids3700]"

text \<open>Removing from several arrays one after the other, counting.\<close>

definition remove_from_arrays :: "roster_array list \<Rightarrow> u32 \<Rightarrow> team_row \<Rightarrow> team_row \<times> nat" where
  "remove_from_arrays as player_id team =
     foldl (\<lambda>(team, removed) a.
         let (team', n) = kbo_remove_player_id_from_team_fixed_array a player_id team
         in (team', removed + n)) (team, 0) as"

definition kbo_remove_player_id_from_team_active_roster_arrays :: "u32 \<Rightarrow> team_row \<Rightarrow> team_row \<times> nat" where
  "kbo_remove_player_id_from_team_active_roster_arrays player_id team =
     (if player_id = 0 then (team, 0)
      else remove_from_arrays [Ids2760, Ids2A80, Ids2DA0, Ids33E0, Ids3700] player_id team)"

definition kbo_remove_player_id_from_known_team_roster_arrays :: "u32 \<Rightarrow> team_row \<Rightarrow> team_row \<times> nat" where
  "kbo_remove_player_id_from_known_team_roster_arrays player_id team =
     (let (team1, removed) = kbo_remove_player_id_from_team_active_roster_arrays player_id team;
          (team2, n) = kbo_remove_player_id_from_team_fixed_array Restricted player_id team1
      in (team2, removed + n))"

definition kbo_add_player_id_to_team_assignment_arrays :: "u32 \<Rightarrow> team_row \<Rightarrow> team_row \<times> nat" where
  "kbo_add_player_id_to_team_assignment_arrays player_id team =
     (let (team1, a) = kbo_add_player_id_to_team_fixed_array Ids2760 player_id team;
          (team2, b) = kbo_add_player_id_to_team_fixed_array Ids2A80 player_id team1
      in (team2, of_bool a + of_bool b))"

section \<open>Organisations\<close>

definition kbo_org_team_id_for_team_id :: "(u32 \<Rightarrow> team_row option) \<Rightarrow> u32 \<Rightarrow> u32" where
  "kbo_org_team_id_for_team_id teams team_id =
     (if team_id = 0 then 0
      else case teams team_id of
          None \<Rightarrow> team_id
        | Some team \<Rightarrow> if tm_parent_team_id team \<noteq> 0 then tm_parent_team_id team else team_id)"

definition kbo_team_id_matches_org_or_affiliate :: "(u32 \<Rightarrow> team_row option) \<Rightarrow> u32 \<Rightarrow> u32 \<Rightarrow> bool" where
  "kbo_team_id_matches_org_or_affiliate teams team_id org_team_id =
     (if team_id = 0 \<or> org_team_id = 0 then False
      else team_id = org_team_id \<or> kbo_org_team_id_for_team_id teams team_id = org_team_id)"

definition kbo_team_ids_share_org :: "(u32 \<Rightarrow> team_row option) \<Rightarrow> u32 \<Rightarrow> u32 \<Rightarrow> bool" where
  "kbo_team_ids_share_org teams left_team_id right_team_id =
     (if left_team_id = 0 \<or> right_team_id = 0 then False
      else kbo_org_team_id_for_team_id teams left_team_id = kbo_org_team_id_for_team_id teams right_team_id)"

definition kbo_player_current_assignment_matches_team_or_affiliate ::
    "(u32 \<Rightarrow> team_row option) \<Rightarrow> player_row \<Rightarrow> u32 \<Rightarrow> bool" where
  "kbo_player_current_assignment_matches_team_or_affiliate teams player team_id =
     (if team_id = 0 then False
      else (pl_current_team player \<noteq> 0 \<and> kbo_team_id_matches_org_or_affiliate teams (pl_current_team player) team_id)
         \<or> (pl_active_team player \<noteq> 0 \<and> kbo_team_id_matches_org_or_affiliate teams (pl_active_team player) team_id)
         \<or> (pl_loan_team player \<noteq> 0 \<and> kbo_team_id_matches_org_or_affiliate teams (pl_loan_team player) team_id))"

section \<open>An array as a set of ids\<close>

text \<open>
  What the callers rely on: an array holds a set of ids, adding inserts unless there is no
  place left, removing removes.
\<close>

locale id_set =
  fixes members :: "'a \<Rightarrow> u32 set"
    and add :: "u32 \<Rightarrow> 'a \<Rightarrow> 'a \<times> bool"
    and remove :: "u32 \<Rightarrow> 'a \<Rightarrow> 'a \<times> nat"
  assumes add_members: "p \<noteq> 0 \<Longrightarrow> add p s = (s', True) \<Longrightarrow> members s' = insert p (members s)"
    and add_refused: "add p s = (s', False) \<Longrightarrow> s' = s"
    and add_present: "p \<in> members s \<Longrightarrow> add p s = (s, True)"
    and remove_members: "members (fst (remove p s)) = members s - {p}"
    and remove_absent: "p \<notin> members s \<Longrightarrow> remove p s = (s, 0)"
begin

lemma add_twice:
  assumes "p \<noteq> 0"
  shows "fst (add p (fst (add p s))) = fst (add p s)"
proof (cases "add p s")
  case (Pair s' ok)
  show ?thesis
  proof (cases ok)
    case True
    then have "p \<in> members s'" using add_members [OF assms] Pair by simp
    then show ?thesis using add_present Pair by simp
  next
    case False
    then have "s' = s" using add_refused Pair by simp
    then show ?thesis using Pair by simp
  qed
qed

lemma remove_twice: "fst (remove p (fst (remove p s))) = fst (remove p s)"
  by (simp add: remove_absent remove_members)

lemma add_only_adds:
  assumes "p \<noteq> 0"
  shows "members s \<subseteq> members (fst (add p s))" and "members (fst (add p s)) \<subseteq> insert p (members s)"
proof -
  show "members s \<subseteq> members (fst (add p s))" "members (fst (add p s)) \<subseteq> insert p (members s)"
    using add_members [OF assms, of s] add_refused [of p s] by (cases "add p s"; cases "snd (add p s)"; auto)+
qed

end

definition ids_of :: "u32 list \<Rightarrow> u32 set" where "ids_of ids = set ids - {0}"

lemma put_free_Some:
  "put_free p ids = Some ids' \<Longrightarrow>
     length ids' = length ids \<and> (p \<noteq> 0 \<longrightarrow> ids_of ids' = insert p (ids_of ids))"
proof (induction ids arbitrary: ids')
  case (Cons i ids)
  then show ?case by (fastforce simp: ids_of_def split: if_splits)
qed simp

interpretation ids: id_set ids_of add_id remove_id
proof
  fix p :: u32 and s s' :: "u32 list"
  show "ids_of s' = insert p (ids_of s)" if "p \<noteq> 0" "add_id p s = (s', True)"
    using that by (auto simp: add_id_def ids_of_def list_ex_iff split: if_splits option.splits dest: put_free_Some)
      (auto simp: ids_of_def dest!: put_free_Some)
  show "s' = s" if "add_id p s = (s', False)"
    using that by (auto simp: add_id_def split: if_splits option.splits)
  show "add_id p s = (s, True)" if "p \<in> ids_of s"
    using that by (auto simp: add_id_def ids_of_def list_ex_iff)
  show "ids_of (fst (remove_id p s)) = ids_of s - {p}"
    by (auto simp: remove_id_def ids_of_def)
  show "remove_id p s = (s, 0)" if "p \<notin> ids_of s"
    using that by (auto simp: remove_id_def ids_of_def filter_empty_conv intro: map_idI)
qed

end
