(* ===== verification/WaiverRights.thy ===== *)
theory WaiverRights
  imports RosterArrays KeyedTable WaiverDate
begin

text \<open>
  Reserve rights to foreign players: \<open>native/src/foreign/rights/\<close>.  A club that retains a
  player at the end of the season is the only one that may sign him until the right expires.

  The rights are a table in memory (\<open>g_kbo_foreign_waiver_rights\<close>) with a generation number
  that changes with the table, a cache of the answers to "who holds this player", and a copy
  in the save database.  \<open>rights_state\<close> has the module's globals and the database table of
  the save that is open; the world is what the code changes of players and teams.  Whether a
  statement of the database succeeds is a parameter (\<open>rights_env\<close>).
\<close>

unbundle bit_operations_syntax

section \<open>State\<close>

record retention =
  rt_player_id :: u32
  rt_team_id :: u32
  rt_league_id :: u32
  rt_retained_on :: u32
  rt_expires_on :: u32

definition FOREIGN_WAIVER_RIGHTS_MAX :: nat where "FOREIGN_WAIVER_RIGHTS_MAX = 1024"
definition HOLDER_CACHE_SIZE :: u32 where "HOLDER_CACHE_SIZE = 8192"

record holder_entry =
  he_player_id :: u32
  he_today :: u32
  he_generation :: int
  he_holder_team_id :: u32
  he_found :: bool
  he_valid :: bool

record rights_state =
  rs_rights :: "retention list"
  rs_generation :: int
  rs_holder_cache :: "nat \<Rightarrow> holder_entry"
  rs_last_pruned_today :: u32
  rs_rights_loaded :: bool
  rs_last_attempt_tick :: u32
  rs_table :: "retention list"

definition initial_rights :: "retention list \<Rightarrow> rights_state" where
  "initial_rights table = \<lparr>rs_rights = [], rs_generation = 1,
     rs_holder_cache = (\<lambda>_. \<lparr>he_player_id = 0, he_today = 0, he_generation = 0, he_holder_team_id = 0,
                             he_found = False, he_valid = False\<rparr>),
     rs_last_pruned_today = 0, rs_rights_loaded = False, rs_last_attempt_tick = 0, rs_table = table\<rparr>"

text \<open>Which statements of the database succeed, and the tick count of the moment.\<close>

record rights_env =
  re_read :: bool
  re_write :: "retention list \<Rightarrow> bool"
  re_now :: u32

record waiver_world =
  wd_players :: "u32 \<Rightarrow> player_row option"
  wd_teams :: "u32 \<Rightarrow> team_row option"

section \<open>Active and expired\<close>

definition retention_broken :: "retention \<Rightarrow> u32 \<Rightarrow> bool" where
  "retention_broken rec today \<longleftrightarrow>
     rt_player_id rec = 0 \<or> rt_team_id rec = 0 \<or> rt_retained_on rec = 0 \<or> rt_expires_on rec = 0
     \<or> rt_expires_on rec < rt_retained_on rec \<or> today = 0"

definition kbo_is_foreign_waiver_right_active :: "retention \<Rightarrow> u32 \<Rightarrow> bool" where
  "kbo_is_foreign_waiver_right_active rec today =
     (if retention_broken rec today then False
      else rt_retained_on rec \<le> today \<and> today \<le> rt_expires_on rec)"

definition kbo_is_foreign_waiver_right_expired :: "retention \<Rightarrow> u32 \<Rightarrow> bool" where
  "kbo_is_foreign_waiver_right_expired rec today =
     (if retention_broken rec today then True else today > rt_expires_on rec)"

section \<open>The database\<close>

text \<open>
  The table has the player as its primary key: \<open>INSERT OR REPLACE\<close> removes the row of the
  player first.
\<close>

definition complete_right :: "retention \<Rightarrow> bool" where
  "complete_right rec \<longleftrightarrow> rt_player_id rec \<noteq> 0 \<and> rt_team_id rec \<noteq> 0 \<and> rt_league_id rec \<noteq> 0"

definition insert_or_replace :: "retention list \<Rightarrow> retention \<Rightarrow> retention list" where
  "insert_or_replace table rec = filter (\<lambda>r. rt_player_id r \<noteq> rt_player_id rec) table @ [rec]"

definition kbo_foreign_waiver_rights_sql_replace_all ::
    "rights_env \<Rightarrow> retention list \<Rightarrow> retention list \<Rightarrow> retention list \<times> bool" where
  "kbo_foreign_waiver_rights_sql_replace_all env records table =
     (if re_write env records then (foldl insert_or_replace [] (filter complete_right records), True)
      else (table, False))"

text \<open>One row of the query result: the records so far and the number of duplicates.\<close>

definition kbo_foreign_waiver_rights_sql_load_cb ::
    "nat \<Rightarrow> retention list \<times> nat \<Rightarrow> retention \<Rightarrow> retention list \<times> nat" where
  "kbo_foreign_waiver_rights_sql_load_cb capacity ctx rec =
     (case ctx of (records, deduped) \<Rightarrow>
        if \<not> complete_right rec then ctx
        else case first_index (\<lambda>r. rt_player_id r = rt_player_id rec) records of
            Some existing_index \<Rightarrow>
              (if rt_retained_on rec \<ge> rt_retained_on (records ! existing_index)
               then records[existing_index := rec] else records, deduped + 1)
          | None \<Rightarrow> if length records \<ge> capacity then ctx else (records @ [rec], deduped))"

definition kbo_foreign_waiver_rights_sql_load ::
    "rights_env \<Rightarrow> nat \<Rightarrow> retention list \<Rightarrow> (retention list \<times> nat) option" where
  "kbo_foreign_waiver_rights_sql_load env capacity table =
     (if \<not> re_read env then None
      else Some (foldl (kbo_foreign_waiver_rights_sql_load_cb capacity) ([], 0)
        (sort_key (\<lambda>r. unat (rt_player_id r)) (filter complete_right table))))"

definition kbo_persist_foreign_waiver_rights :: "rights_env \<Rightarrow> rights_state \<Rightarrow> rights_state \<times> bool" where
  "kbo_persist_foreign_waiver_rights env st =
     (let (table, ok) = kbo_foreign_waiver_rights_sql_replace_all env
                          (take FOREIGN_WAIVER_RIGHTS_MAX (rs_rights st)) (rs_table st)
      in (st\<lparr>rs_table := table\<rparr>, ok))"

definition kbo_load_foreign_waiver_rights :: "rights_env \<Rightarrow> rights_state \<Rightarrow> rights_state \<times> bool" where
  "kbo_load_foreign_waiver_rights env st =
     (case kbo_foreign_waiver_rights_sql_load env FOREIGN_WAIVER_RIGHTS_MAX (rs_table st) of
        None \<Rightarrow> (st, False)
      | Some (records, deduped) \<Rightarrow>
          let st1 = st\<lparr>rs_rights := take FOREIGN_WAIVER_RIGHTS_MAX records,
                       rs_generation := interlocked_increment (rs_generation st)\<rparr>
          in (if deduped > 0 then fst (kbo_persist_foreign_waiver_rights env st1) else st1, True))"

text \<open>Loading before the first lookup; a failed attempt is not repeated within a second.\<close>

definition kbo_ensure_foreign_waiver_rights_loaded_for_lookup :: "rights_env \<Rightarrow> rights_state \<Rightarrow> rights_state" where
  "kbo_ensure_foreign_waiver_rights_loaded_for_lookup env st =
     (if rs_rights_loaded st then st
      else if rs_last_attempt_tick st \<noteq> 0 \<and> re_now env - rs_last_attempt_tick st < 1000 then st
      else
        let (st1, ok) = kbo_load_foreign_waiver_rights env (st\<lparr>rs_last_attempt_tick := re_now env\<rparr>)
        in if ok then st1\<lparr>rs_rights_loaded := True\<rparr> else st1)"

section \<open>Changing the table\<close>

definition kbo_prune_expired_foreign_waiver_rights :: "rights_env \<Rightarrow> u32 \<Rightarrow> rights_state \<Rightarrow> rights_state" where
  "kbo_prune_expired_foreign_waiver_rights env today st =
     (if today = 0 then st
      else if rs_last_pruned_today st = today then st
      else
        let kept = filter (\<lambda>r. \<not> kbo_is_foreign_waiver_right_expired r today) (rs_rights st);
            removed = length (rs_rights st) - length kept;
            st1 = st\<lparr>rs_last_pruned_today := today, rs_rights := kept,
                     rs_generation := (if removed > 0 then interlocked_increment (rs_generation st)
                                       else rs_generation st)\<rparr>
        in if removed > 0 then fst (kbo_persist_foreign_waiver_rights env st1) else st1)"

definition kbo_set_foreign_waiver_right ::
    "rights_env \<Rightarrow> u32 \<Rightarrow> u32 \<Rightarrow> u32 \<Rightarrow> u32 \<Rightarrow> u32 \<Rightarrow> rights_state \<Rightarrow> rights_state \<times> bool" where
  "kbo_set_foreign_waiver_right env team_id player_id league_id retained_on expires_on st =
     (if team_id = 0 \<or> player_id = 0 \<or> league_id = 0 \<or> retained_on = 0 \<or> expires_on = 0 then (st, False)
      else case upsert rt_player_id FOREIGN_WAIVER_RIGHTS_MAX
                  \<lparr>rt_player_id = player_id, rt_team_id = team_id, rt_league_id = league_id,
                   rt_retained_on = retained_on, rt_expires_on = expires_on\<rparr> (rs_rights st) of
          None \<Rightarrow> (st, False)
        | Some rights \<Rightarrow>
            (fst (kbo_persist_foreign_waiver_rights env
                (st\<lparr>rs_rights := rights, rs_generation := interlocked_increment (rs_generation st)\<rparr>)), True))"

definition kbo_remove_foreign_waiver_right_record :: "u32 \<Rightarrow> u32 \<Rightarrow> rights_state \<Rightarrow> rights_state \<times> nat" where
  "kbo_remove_foreign_waiver_right_record team_id player_id st =
     (if team_id = 0 \<or> player_id = 0 then (st, 0)
      else
        let kept = filter (\<lambda>r. \<not> (rt_team_id r = team_id \<and> rt_player_id r = player_id)) (rs_rights st);
            removed = length (rs_rights st) - length kept
        in (st\<lparr>rs_rights := kept,
               rs_generation := (if removed > 0 then interlocked_increment (rs_generation st)
                                 else rs_generation st)\<rparr>, removed))"

definition kbo_clear_foreign_waiver_right_memory_marks ::
    "u32 \<Rightarrow> u32 \<Rightarrow> bool \<Rightarrow> bool \<Rightarrow> waiver_world \<Rightarrow> waiver_world" where
  "kbo_clear_foreign_waiver_right_memory_marks team_id player_id clear_active_team clear_dfa w =
     (let w1 = (case wd_teams w team_id of
                  None \<Rightarrow> w
                | Some team \<Rightarrow> w\<lparr>wd_teams := (wd_teams w)(team_id \<mapsto>
                    fst (kbo_remove_player_id_from_team_fixed_array Restricted player_id team))\<rparr>)
      in case wd_players w1 player_id of
          None \<Rightarrow> w1
        | Some player \<Rightarrow>
            w1\<lparr>wd_players := (wd_players w1)(player_id \<mapsto>
              player\<lparr>pl_restricted := 0, pl_secondary_restricted := 0,
                     pl_dfa := (if clear_dfa then 0 else pl_dfa player),
                     pl_active_team := (if clear_active_team \<and> pl_active_team player = team_id
                                        then 0 else pl_active_team player)\<rparr>)\<rparr>)"

definition kbo_clear_foreign_waiver_right ::
    "rights_env \<Rightarrow> u32 \<Rightarrow> u32 \<Rightarrow> rights_state \<Rightarrow> waiver_world \<Rightarrow> rights_state \<times> waiver_world \<times> nat" where
  "kbo_clear_foreign_waiver_right env team_id player_id st w =
     (let (st1, removed) = kbo_remove_foreign_waiver_right_record team_id player_id st
      in if removed > 0
         then (fst (kbo_persist_foreign_waiver_rights env st1),
               kbo_clear_foreign_waiver_right_memory_marks team_id player_id True False w, removed)
         else (st1, w, removed))"

definition kbo_consume_foreign_waiver_right_after_holder_signing ::
    "rights_env \<Rightarrow> u32 \<Rightarrow> u32 \<Rightarrow> rights_state \<Rightarrow> waiver_world \<Rightarrow> rights_state \<times> waiver_world \<times> nat" where
  "kbo_consume_foreign_waiver_right_after_holder_signing env team_id player_id st w =
     (let (st1, removed) = kbo_remove_foreign_waiver_right_record team_id player_id st
      in if removed > 0
         then (fst (kbo_persist_foreign_waiver_rights env st1),
               kbo_clear_foreign_waiver_right_memory_marks team_id player_id False True w, removed)
         else (st1, w, removed))"

section \<open>Lookups\<close>

definition find_active :: "u32 \<Rightarrow> u32 \<Rightarrow> u32 \<Rightarrow> retention list \<Rightarrow> retention option" where
  "find_active team_id player_id today rights =
     map_option ((!) rights) (first_index (\<lambda>r. rt_team_id r = team_id \<and> rt_player_id r = player_id
        \<and> kbo_is_foreign_waiver_right_active r today) rights)"

definition kbo_has_active_foreign_waiver_right ::
    "rights_env \<Rightarrow> u32 \<Rightarrow> u32 \<Rightarrow> u32 \<Rightarrow> rights_state \<Rightarrow> rights_state \<times> bool" where
  "kbo_has_active_foreign_waiver_right env team_id player_id today st =
     (if team_id = 0 \<or> player_id = 0 \<or> today = 0 then (st, False)
      else let st1 = kbo_ensure_foreign_waiver_rights_loaded_for_lookup env st
           in (st1, find_active team_id player_id today (rs_rights st1) \<noteq> None))"

definition kbo_get_active_foreign_waiver_right_dates ::
    "rights_env \<Rightarrow> u32 \<Rightarrow> u32 \<Rightarrow> u32 \<Rightarrow> rights_state \<Rightarrow> rights_state \<times> (u32 \<times> u32) option" where
  "kbo_get_active_foreign_waiver_right_dates env team_id player_id today st =
     (if team_id = 0 \<or> player_id = 0 \<or> today = 0 then (st, None)
      else let st1 = kbo_ensure_foreign_waiver_rights_loaded_for_lookup env st
           in (st1, map_option (\<lambda>r. (rt_retained_on r, rt_expires_on r))
                      (find_active team_id player_id today (rs_rights st1))))"

definition holder_slot :: "u32 \<Rightarrow> u32 \<Rightarrow> nat" where
  "holder_slot player_id today =
     unat (((player_id * 2654435761) XOR (today * 2246822519)) AND (HOLDER_CACHE_SIZE - 1))"

text \<open>The holder of the player, from the cache if it has the answer of this generation.\<close>

definition kbo_find_active_foreign_waiver_holder ::
    "rights_env \<Rightarrow> u32 \<Rightarrow> u32 \<Rightarrow> rights_state \<Rightarrow> rights_state \<times> u32 option" where
  "kbo_find_active_foreign_waiver_holder env player_id today st =
     (if player_id = 0 \<or> today = 0 then (st, None)
      else
        let st1 = kbo_ensure_foreign_waiver_rights_loaded_for_lookup env st;
            slot_index = holder_slot player_id today;
            cached = rs_holder_cache st1 slot_index
        in if he_valid cached \<and> he_player_id cached = player_id \<and> he_today cached = today
              \<and> he_generation cached = rs_generation st1
           then (st1, if he_found cached then Some (he_holder_team_id cached) else None)
           else
             let holder_team_id =
                   (case first_index (\<lambda>r. rt_player_id r = player_id
                            \<and> kbo_is_foreign_waiver_right_active r today) (rs_rights st1) of
                      None \<Rightarrow> 0 | Some i \<Rightarrow> rt_team_id (rs_rights st1 ! i));
                 found = (holder_team_id \<noteq> 0)
             in (st1\<lparr>rs_holder_cache := (rs_holder_cache st1)(slot_index :=
                       \<lparr>he_player_id = player_id, he_today = today, he_generation = rs_generation st1,
                        he_holder_team_id = holder_team_id, he_found = found, he_valid = True\<rparr>)\<rparr>,
                 if found then Some holder_team_id else None))"

end
