(* ===== verification/WaiverRightsProps.thy ===== *)
theory WaiverRightsProps
  imports WaiverRights
begin

text \<open>
  The rights table, its cache and its copy in the database together behave like two maps from
  players to their right, one in memory and one saved.
\<close>

section \<open>The abstract store\<close>

text \<open>The rights by player, and the last day the expired ones were removed.\<close>

record right_store =
  st_rights :: "u32 \<rightharpoonup> retention"
  st_pruned :: u32

definition store_of :: "rights_state \<Rightarrow> right_store" where
  "store_of st = \<lparr>st_rights = row_map rt_player_id (rs_rights st), st_pruned = rs_last_pruned_today st\<rparr>"

definition active_holder :: "(u32 \<rightharpoonup> retention) \<Rightarrow> u32 \<Rightarrow> u32 \<Rightarrow> u32 option" where
  "active_holder m player today = (case m player of None \<Rightarrow> None
     | Some r \<Rightarrow> if kbo_is_foreign_waiver_right_active r today then Some (rt_team_id r) else None)"

text \<open>What a client calls, and what it gets back.\<close>

datatype rights_call =
    Prune u32
  | SetRight u32 u32 u32 u32 u32
  | Clear u32 u32
  | Consume u32 u32
  | Holder u32 u32
  | Has u32 u32 u32
  | Dates u32 u32 u32
  | Load
  | Restart

datatype rights_answer = Done | Stored bool | Removed nat | HolderIs "u32 option" | HasIt bool
  | DatesAre "(u32 \<times> u32) option"

fun perform :: "rights_env \<Rightarrow> rights_call \<Rightarrow> rights_state \<times> waiver_world
    \<Rightarrow> (rights_state \<times> waiver_world) \<times> rights_answer" where
  "perform env (Prune today) (st, w) = ((kbo_prune_expired_foreign_waiver_rights env today st, w), Done)"
| "perform env (SetRight t p l a b) (st, w) =
     (let (st', ok) = kbo_set_foreign_waiver_right env t p l a b st in ((st', w), Stored ok))"
| "perform env (Clear t p) (st, w) =
     (let (st', w', n) = kbo_clear_foreign_waiver_right env t p st w in ((st', w'), Removed n))"
| "perform env (Consume t p) (st, w) =
     (let (st', w', n) = kbo_consume_foreign_waiver_right_after_holder_signing env t p st w in ((st', w'), Removed n))"
| "perform env (Holder p today) (st, w) =
     (let (st', h) = kbo_find_active_foreign_waiver_holder env p today st in ((st', w), HolderIs h))"
| "perform env (Has t p today) (st, w) =
     (let (st', b) = kbo_has_active_foreign_waiver_right env t p today st in ((st', w), HasIt b))"
| "perform env (Dates t p today) (st, w) =
     (let (st', d) = kbo_get_active_foreign_waiver_right_dates env t p today st in ((st', w), DatesAre d))"
| "perform env Load (st, w) = ((kbo_ensure_foreign_waiver_rights_loaded_for_lookup env st, w), Done)"
| "perform env Restart (st, w) = ((initial_rights (rs_table st), w), Done)"

definition active_right :: "(u32 \<rightharpoonup> retention) \<Rightarrow> u32 \<Rightarrow> u32 \<Rightarrow> u32 \<Rightarrow> retention option" where
  "active_right m t p today = (case m p of None \<Rightarrow> None
     | Some r \<Rightarrow> if rt_team_id r = t \<and> kbo_is_foreign_waiver_right_active r today then Some r else None)"

definition store_clear :: "u32 \<Rightarrow> u32 \<Rightarrow> right_store \<Rightarrow> right_store \<times> rights_answer" where
  "store_clear t p s =
     (case st_rights s p of None \<Rightarrow> (s, Removed 0)
      | Some r \<Rightarrow> if rt_team_id r = t then (s\<lparr>st_rights := (st_rights s)(p := None)\<rparr>, Removed 1)
                  else (s, Removed 0))"

fun perform_store :: "rights_call \<Rightarrow> right_store \<Rightarrow> right_store \<times> rights_answer" where
  "perform_store (Prune today) s =
     (if today = 0 \<or> st_pruned s = today then s
      else s\<lparr>st_pruned := today, st_rights := (\<lambda>p. case st_rights s p of None \<Rightarrow> None
         | Some r \<Rightarrow> if kbo_is_foreign_waiver_right_expired r today then None else Some r)\<rparr>, Done)"
| "perform_store (SetRight t p l a b) s =
     (if t = 0 \<or> p = 0 \<or> l = 0 \<or> a = 0 \<or> b = 0
         \<or> (st_rights s p = None \<and> FOREIGN_WAIVER_RIGHTS_MAX \<le> card (dom (st_rights s)))
      then (s, Stored False)
      else (s\<lparr>st_rights := (st_rights s)(p \<mapsto> \<lparr>rt_player_id = p, rt_team_id = t, rt_league_id = l,
                rt_retained_on = a, rt_expires_on = b\<rparr>)\<rparr>, Stored True))"
| "perform_store (Clear t p) s = store_clear t p s"
| "perform_store (Consume t p) s = store_clear t p s"
| "perform_store (Holder p today) s = (s, HolderIs (active_holder (st_rights s) p today))"
| "perform_store (Has t p today) s = (s, HasIt (active_right (st_rights s) t p today \<noteq> None))"
| "perform_store (Dates t p today) s = (s, DatesAre (map_option (\<lambda>r. (rt_retained_on r, rt_expires_on r))
     (active_right (st_rights s) t p today)))"
| "perform_store Load s = (s, Done)"
| "perform_store Restart s = (\<lparr>st_rights = Map.empty, st_pruned = 0\<rparr>, Done)"

text \<open>
  The store with its copy in the database.  Loading takes the copy over, at most one attempt
  a second; a lookup loads first.  A call that changes the rights writes them all back, if
  the database accepts the statements; one that finds nothing to change does not.
\<close>

record right_module =
  rm_memory :: right_store
  rm_saved :: "u32 \<rightharpoonup> retention"
  rm_loaded :: bool
  rm_attempt :: u32

definition module_of :: "rights_state \<Rightarrow> right_module" where
  "module_of st = \<lparr>rm_memory = store_of st, rm_saved = row_map rt_player_id (rs_table st),
     rm_loaded = rs_rights_loaded st, rm_attempt = rs_last_attempt_tick st\<rparr>"

definition module_load :: "rights_env \<Rightarrow> right_module \<Rightarrow> right_module" where
  "module_load env m =
     (if rm_loaded m \<or> rm_attempt m \<noteq> 0 \<and> re_now env - rm_attempt m < 1000 then m
      else if re_read env
      then m\<lparr>rm_memory := (rm_memory m)\<lparr>st_rights := rm_saved m\<rparr>, rm_loaded := True,
             rm_attempt := re_now env\<rparr>
      else m\<lparr>rm_attempt := re_now env\<rparr>)"

fun looks_up :: "rights_call \<Rightarrow> bool" where
  "looks_up (Holder p today) = (p \<noteq> 0 \<and> today \<noteq> 0)"
| "looks_up (Has t p today) = (t \<noteq> 0 \<and> p \<noteq> 0 \<and> today \<noteq> 0)"
| "looks_up (Dates t p today) = (t \<noteq> 0 \<and> p \<noteq> 0 \<and> today \<noteq> 0)"
| "looks_up Load = True"
| "looks_up _ = False"

fun stores_back :: "rights_call \<Rightarrow> right_store \<Rightarrow> right_store \<Rightarrow> rights_answer \<Rightarrow> bool" where
  "stores_back (Prune today) old new answer = (st_rights new \<noteq> st_rights old)"
| "stores_back (SetRight t p l a b) old new answer = (answer = Stored True)"
| "stores_back (Clear t p) old new answer = (answer \<noteq> Removed 0)"
| "stores_back (Consume t p) old new answer = (answer \<noteq> Removed 0)"
| "stores_back _ old new answer = False"

definition perform_module ::
    "bool \<Rightarrow> rights_env \<Rightarrow> rights_call \<Rightarrow> right_module \<Rightarrow> right_module \<times> rights_answer" where
  "perform_module saves env c m =
     (let m1 = (if looks_up c then module_load env m else m);
          (memory, answer) = perform_store c (rm_memory m1);
          m2 = m1\<lparr>rm_memory := memory,
                  rm_saved := (if saves \<and> stores_back c (rm_memory m1) memory answer
                               then st_rights memory else rm_saved m1)\<rparr>
      in (if c = Restart then m2\<lparr>rm_loaded := False, rm_attempt := 0\<rparr> else m2, answer))"

section \<open>The invariant\<close>

definition right_row_ok :: "retention \<Rightarrow> bool" where
  "right_row_ok r \<longleftrightarrow> complete_right r"

definition cache_coherent :: "rights_state \<Rightarrow> bool" where
  "cache_coherent st \<longleftrightarrow> (\<forall>i. let e = rs_holder_cache st i in he_valid e \<longrightarrow>
     he_generation e \<le> rs_generation st
     \<and> (he_generation e = rs_generation st \<longrightarrow>
          (if he_found e then Some (he_holder_team_id e) else None)
            = active_holder (row_map rt_player_id (rs_rights st)) (he_player_id e) (he_today e)))"

definition rights_ok :: "rights_state \<Rightarrow> bool" where
  "rights_ok st \<longleftrightarrow> distinct (map rt_player_id (rs_rights st))
     \<and> length (rs_rights st) \<le> FOREIGN_WAIVER_RIGHTS_MAX
     \<and> (\<forall>r \<in> set (rs_rights st). right_row_ok r)
     \<and> 1 \<le> rs_generation st \<and> rs_generation st < 2 ^ 31
     \<and> cache_coherent st"

definition saved_table_ok :: "retention list \<Rightarrow> bool" where
  "saved_table_ok table \<longleftrightarrow> distinct (map rt_player_id table) \<and> (\<forall>r \<in> set table. complete_right r)
     \<and> length table \<le> FOREIGN_WAIVER_RIGHTS_MAX"

lemma rights_okD:
  assumes "rights_ok st"
  shows "distinct (map rt_player_id (rs_rights st))" and "length (rs_rights st) \<le> FOREIGN_WAIVER_RIGHTS_MAX"
    and "\<forall>r \<in> set (rs_rights st). complete_right r" and "1 \<le> rs_generation st" and "rs_generation st < 2 ^ 31"
    and "cache_coherent st"
  using assms by (simp_all add: rights_ok_def right_row_ok_def)

text \<open>A change of the table with the next generation leaves no cached answer valid.\<close>

lemma rights_ok_change:
  assumes "rights_ok st" and "rs_generation st < 2 ^ 31 - 1"
    and "distinct (map rt_player_id rights)" and "length rights \<le> FOREIGN_WAIVER_RIGHTS_MAX"
    and "\<forall>r \<in> set rights. complete_right r"
    and "rs_rights st' = rights" and "rs_generation st' = interlocked_increment (rs_generation st)"
    and "rs_holder_cache st' = rs_holder_cache st"
  shows "rights_ok st'" and "rs_generation st' = rs_generation st + 1"
proof -
  note ok = rights_okD [OF assms(1)]
  have g: "rs_generation st' = rs_generation st + 1" using assms(2,7) ok(4) by simp
  have "cache_coherent st'"
    using ok(6) unfolding cache_coherent_def assms(8) g Let_def by fastforce
  then show "rights_ok st'" "rs_generation st' = rs_generation st + 1"
    using assms(2-6) ok(4) g by (simp_all add: rights_ok_def right_row_ok_def)
qed

lemma rights_ok_cong:
  assumes "rights_ok st" and "rs_rights st' = rs_rights st" and "rs_generation st' = rs_generation st"
    and "rs_holder_cache st' = rs_holder_cache st"
  shows "rights_ok st'"
  using assms by (simp add: rights_ok_def cache_coherent_def)

lemma persist_fields [simp]:
  "rs_rights (fst (kbo_persist_foreign_waiver_rights env st)) = rs_rights st"
  "rs_generation (fst (kbo_persist_foreign_waiver_rights env st)) = rs_generation st"
  "rs_holder_cache (fst (kbo_persist_foreign_waiver_rights env st)) = rs_holder_cache st"
  "rs_last_pruned_today (fst (kbo_persist_foreign_waiver_rights env st)) = rs_last_pruned_today st"
  "rs_rights_loaded (fst (kbo_persist_foreign_waiver_rights env st)) = rs_rights_loaded st"
  "rs_last_attempt_tick (fst (kbo_persist_foreign_waiver_rights env st)) = rs_last_attempt_tick st"
  by (simp_all add: kbo_persist_foreign_waiver_rights_def split: prod.split)

lemma rows_filter_count:
  assumes "distinct (map rt_player_id rights)"
  shows "length rights - length (filter (\<lambda>r. \<not> (rt_team_id r = t \<and> rt_player_id r = p)) rights)
    = (case row_map rt_player_id rights p of None \<Rightarrow> 0 | Some r \<Rightarrow> if rt_team_id r = t then 1 else 0)"
  using assms
proof (induction rights)
  case (Cons r rights)
  have le: "length (filter (\<lambda>r. \<not> (rt_team_id r = t \<and> rt_player_id r = p)) rights) \<le> length rights" by simp
  show ?case
  proof (cases "rt_player_id r = p")
    case True
    then have "\<forall>x \<in> set rights. rt_player_id x \<noteq> p" using Cons.prems by (auto simp: image_iff)
    then have "filter (\<lambda>r. \<not> (rt_team_id r = t \<and> rt_player_id r = p)) rights = rights"
      by (simp add: filter_id_conv)
    then show ?thesis using True by simp
  next
    case False
    then show ?thesis using Cons le by (simp add: Suc_diff_le)
  qed
qed simp


section \<open>The copy in the database\<close>

lemma insert_all:
  assumes "distinct (map rt_player_id (table @ rows))"
  shows "foldl insert_or_replace table rows = table @ rows"
  using assms
proof (induction rows arbitrary: table)
  case (Cons r rows)
  have "filter (\<lambda>x. rt_player_id x \<noteq> rt_player_id r) table = table"
    using Cons.prems by (auto simp: filter_id_conv image_iff)
  then have "insert_or_replace table r = table @ [r]" by (simp add: insert_or_replace_def)
  then show ?case using Cons.IH [of "table @ [r]"] Cons.prems by simp
qed simp

lemma load_all:
  assumes "distinct (map rt_player_id (records @ rows))" and "\<forall>r \<in> set rows. complete_right r"
    and "length records + length rows \<le> capacity"
  shows "foldl (kbo_foreign_waiver_rights_sql_load_cb capacity) (records, n) rows = (records @ rows, n)"
  using assms
proof (induction rows arbitrary: records)
  case (Cons r rows)
  have "first_index (\<lambda>x. rt_player_id x = rt_player_id r) records = None"
    using Cons.prems(1) by (auto simp: first_index_None image_iff)
  then have "kbo_foreign_waiver_rights_sql_load_cb capacity (records, n) r = (records @ [r], n)"
    using Cons.prems by (simp add: kbo_foreign_waiver_rights_sql_load_cb_def)
  then show ?case using Cons.IH [of "records @ [r]"] Cons.prems by simp
qed simp

lemma persist_table:
  assumes "rights_ok st" and "re_write env (rs_rights st)"
  shows "kbo_persist_foreign_waiver_rights env st = (st\<lparr>rs_table := rs_rights st\<rparr>, True)"
proof -
  note ok = rights_okD [OF assms(1)]
  have "filter complete_right (rs_rights st) = rs_rights st" using ok(3) by (simp add: filter_id_conv)
  moreover have "foldl insert_or_replace [] (rs_rights st) = rs_rights st"
    using insert_all [of "[]" "rs_rights st"] ok(1) by simp
  ultimately show ?thesis
    using assms(2) ok(2)
    by (simp add: kbo_persist_foreign_waiver_rights_def kbo_foreign_waiver_rights_sql_replace_all_def)
qed

lemma load_table:
  assumes "distinct (map rt_player_id table)" and "\<forall>r \<in> set table. complete_right r"
    and "length table \<le> FOREIGN_WAIVER_RIGHTS_MAX" and "re_read env" and "rs_table st = table"
  shows "kbo_load_foreign_waiver_rights env st =
    (st\<lparr>rs_rights := sort_key (\<lambda>r. unat (rt_player_id r)) table,
        rs_generation := interlocked_increment (rs_generation st)\<rparr>, True)"
proof -
  let ?rows = "sort_key (\<lambda>r. unat (rt_player_id r)) table"
  have "mset (map rt_player_id ?rows) = mset (map rt_player_id table)" by simp
  then have d: "distinct (map rt_player_id ?rows)" using assms(1) by (metis mset_eq_imp_distinct_iff)
  have "filter complete_right table = table" using assms(2) by (simp add: filter_id_conv)
  moreover have "foldl (kbo_foreign_waiver_rights_sql_load_cb FOREIGN_WAIVER_RIGHTS_MAX) ([], 0) ?rows = (?rows, 0)"
    using load_all [of "[]" ?rows FOREIGN_WAIVER_RIGHTS_MAX 0] d assms(2,3) by simp
  ultimately show ?thesis
    using assms(3-5) by (simp add: kbo_load_foreign_waiver_rights_def kbo_foreign_waiver_rights_sql_load_def)
qed

section \<open>The lookups\<close>

lemma find_active_map:
  assumes "distinct (map rt_player_id rights)"
  shows "find_active t p today rights = active_right (row_map rt_player_id rights) t p today"
proof (rule option_eqI)
  fix x
  let ?P = "\<lambda>r. rt_team_id r = t \<and> rt_player_id r = p \<and> kbo_is_foreign_waiver_right_active r today"
  have "find_active t p today rights = Some x \<longleftrightarrow> x \<in> set rights \<and> ?P x"
  proof
    assume "find_active t p today rights = Some x"
    then show "x \<in> set rights \<and> ?P x"
      using first_index_Some [of ?P rights] unfolding find_active_def by (auto simp: nth_mem)
  next
    assume x: "x \<in> set rights \<and> ?P x"
    then obtain i where i: "first_index ?P rights = Some i"
      using first_index_None [of ?P rights] by (cases "first_index ?P rights") auto
    note f = first_index_Some [OF i]
    have "rights ! i = x"
      using assms f x by (metis distinct_map inj_onD nth_mem)
    then show "find_active t p today rights = Some x" unfolding find_active_def i by simp
  qed
  moreover have "active_right m t p today = Some x \<longleftrightarrow> m p = Some x \<and> rt_team_id x = t
      \<and> kbo_is_foreign_waiver_right_active x today" for m
    by (auto simp: active_right_def split: option.splits)
  ultimately show "find_active t p today rights = Some x
      \<longleftrightarrow> active_right (row_map rt_player_id rights) t p today = Some x"
    using row_map_iff [OF assms, of p x] by auto
qed

lemma active_team: "kbo_is_foreign_waiver_right_active r today \<Longrightarrow> rt_team_id r \<noteq> 0"
  by (auto simp: kbo_is_foreign_waiver_right_active_def retention_broken_def split: if_splits)

lemma active_today: "kbo_is_foreign_waiver_right_active r today \<Longrightarrow> today \<noteq> 0 \<and> rt_player_id r \<noteq> 0"
  by (auto simp: kbo_is_foreign_waiver_right_active_def retention_broken_def split: if_splits)

lemma active_right_zero:
  assumes "t = 0 \<or> p = 0 \<or> today = 0"
  shows "active_right (row_map rt_player_id rights) t p today = None"
proof (cases "row_map rt_player_id rights p")
  case (Some r)
  then have "rt_player_id r = p" using row_map_SomeD [OF Some] by simp
  then have "\<not> (rt_team_id r = t \<and> kbo_is_foreign_waiver_right_active r today)"
    using assms active_team [of r today] active_today [of r today] by auto
  then show ?thesis using Some by (simp add: active_right_def)
qed (simp add: active_right_def)

lemma holder_scan:
  fixes rights :: "retention list" and p today :: u32
  assumes "distinct (map rt_player_id rights)"
  defines "team \<equiv> case first_index (\<lambda>r. rt_player_id r = p \<and> kbo_is_foreign_waiver_right_active r today) rights of
      None \<Rightarrow> 0 | Some i \<Rightarrow> rt_team_id (rights ! i)"
  shows "(if team \<noteq> 0 then Some team else None) = active_holder (row_map rt_player_id rights) p today"
proof (cases "first_index (\<lambda>r. rt_player_id r = p \<and> kbo_is_foreign_waiver_right_active r today) rights")
  case None
  then have "\<forall>r \<in> set rights. rt_player_id r = p \<longrightarrow> \<not> kbo_is_foreign_waiver_right_active r today"
    by (auto simp: first_index_None)
  then show ?thesis
    using None by (auto simp: team_def active_holder_def dest: row_map_SomeD split: option.splits)
next
  case (Some i)
  note f = first_index_Some [OF Some]
  then have "row_map rt_player_id rights p = Some (rights ! i)" using row_map_iff [OF assms(1)] by simp
  then show ?thesis using Some f active_team by (auto simp: team_def active_holder_def)
qed

lemma holder_refines:
  fixes st :: rights_state and p today :: u32 and env :: rights_env
  assumes "rights_ok st" and "kbo_ensure_foreign_waiver_rights_loaded_for_lookup env st = st"
  defines "res \<equiv> kbo_find_active_foreign_waiver_holder env p today st"
  shows "snd res = active_holder (row_map rt_player_id (rs_rights st)) p today"
    and "rights_ok (fst res)" and "module_of (fst res) = module_of st"
    and "rs_generation (fst res) = rs_generation st" and "rs_table (fst res) = rs_table st"
proof -
  note ok = rights_okD [OF assms(1)]
  let ?m = "row_map rt_player_id (rs_rights st)"
  let ?e = "rs_holder_cache st (holder_slot p today)"
  have "snd res = active_holder ?m p today \<and> rights_ok (fst res) \<and> module_of (fst res) = module_of st
     \<and> rs_generation (fst res) = rs_generation st \<and> rs_table (fst res) = rs_table st"
  proof (cases "p = 0 \<or> today = 0")
    case True
    then have "active_holder ?m p today = None"
      using active_today by (auto simp: active_holder_def dest: row_map_SomeD split: option.splits)
    then show ?thesis using True assms by (auto simp: kbo_find_active_foreign_waiver_holder_def)
  next
    case nz: False
    show ?thesis
    proof (cases "he_valid ?e \<and> he_player_id ?e = p \<and> he_today ?e = today \<and> he_generation ?e = rs_generation st")
      case True
      then have "(if he_found ?e then Some (he_holder_team_id ?e) else None) = active_holder ?m p today"
        using ok(6) unfolding cache_coherent_def Let_def by metis
      then show ?thesis
        using nz True assms by (simp add: kbo_find_active_foreign_waiver_holder_def Let_def)
    next
      case False
      define team where "team = (case first_index (\<lambda>r. rt_player_id r = p
          \<and> kbo_is_foreign_waiver_right_active r today) (rs_rights st) of
        None \<Rightarrow> 0 | Some i \<Rightarrow> rt_team_id (rs_rights st ! i))"
      let ?new = "\<lparr>he_player_id = p, he_today = today, he_generation = rs_generation st,
          he_holder_team_id = team, he_found = (team \<noteq> 0), he_valid = True\<rparr>"
      have r: "res = (st\<lparr>rs_holder_cache := (rs_holder_cache st)(holder_slot p today := ?new)\<rparr>,
          if team \<noteq> 0 then Some team else None)"
        unfolding res_def kbo_find_active_foreign_waiver_holder_def team_def
        by (simp only: Let_def assms(2) nz False if_False)
      have scan: "(if team \<noteq> 0 then Some team else None) = active_holder ?m p today"
        unfolding team_def by (rule holder_scan [OF ok(1)])
      have "cache_coherent (fst res)"
        using ok(6) scan unfolding r cache_coherent_def Let_def by auto
      then show ?thesis using assms(1,2) scan unfolding r by (simp add: rights_ok_def module_of_def store_of_def)
    qed
  qed
  then show "snd res = active_holder ?m p today" "rights_ok (fst res)" "module_of (fst res) = module_of st"
    "rs_generation (fst res) = rs_generation st" "rs_table (fst res) = rs_table st" by simp_all
qed

section \<open>The changes\<close>

lemma filter_same: "length (filter P xs) = length xs \<Longrightarrow> filter P xs = xs"
  by (metis filter_id_conv length_filter_less less_irrefl)

text \<open>Whether two states agree about the loading.\<close>

definition same_load :: "rights_state \<Rightarrow> rights_state \<Rightarrow> bool" where
  "same_load st' st \<longleftrightarrow> rs_rights_loaded st' = rs_rights_loaded st \<and> rs_last_attempt_tick st' = rs_last_attempt_tick st"

lemma same_load_refl [simp]: "same_load st st"
  by (simp add: same_load_def)

lemma prune_refines:
  fixes env :: rights_env and today :: u32 and st :: rights_state
  defines "st' \<equiv> kbo_prune_expired_foreign_waiver_rights env today st"
  assumes "rights_ok st" and "rs_generation st < 2 ^ 31 - 1"
  shows "store_of st' = fst (perform_store (Prune today) (store_of st)) \<and> rights_ok st'
     \<and> rs_generation st' \<le> rs_generation st + 1 \<and> same_load st' st"
proof (cases "today = 0 \<or> rs_last_pruned_today st = today")
  case True
  then have "st' = st" by (auto simp: st'_def kbo_prune_expired_foreign_waiver_rights_def)
  moreover have "fst (perform_store (Prune today) (store_of st)) = store_of st"
    using True by (auto simp: store_of_def)
  ultimately show ?thesis using assms(2) by simp
next
  case False
  note ok = rights_okD [OF assms(2)]
  let ?kept = "filter (\<lambda>r. \<not> kbo_is_foreign_waiver_right_expired r today) (rs_rights st)"
  have f: "rs_rights st' = ?kept \<and> rs_last_pruned_today st' = today \<and> rs_holder_cache st' = rs_holder_cache st
      \<and> same_load st' st
      \<and> rs_generation st' = (if length (rs_rights st) - length ?kept > 0
                             then interlocked_increment (rs_generation st) else rs_generation st)"
    using False by (simp add: st'_def same_load_def kbo_prune_expired_foreign_waiver_rights_def Let_def)
  have kept: "distinct (map rt_player_id ?kept)" "length ?kept \<le> FOREIGN_WAIVER_RIGHTS_MAX"
      "\<forall>r \<in> set ?kept. complete_right r"
    using ok(1,3) distinct_map_filter le_trans [OF length_filter_le ok(2)] by auto
  have "row_map rt_player_id ?kept = (\<lambda>p. case row_map rt_player_id (rs_rights st) p of None \<Rightarrow> None
      | Some r \<Rightarrow> if kbo_is_foreign_waiver_right_expired r today then None else Some r)"
    by (rule ext) (simp add: row_map_filter [OF ok(1)] split: option.split)
  then have s: "store_of st' = fst (perform_store (Prune today) (store_of st))"
    using False f by (simp add: store_of_def)
  show ?thesis
  proof (cases "length (rs_rights st) - length ?kept > 0")
    case True
    then have g: "rs_generation st' = interlocked_increment (rs_generation st)" using f by simp
    from rights_ok_change [OF assms(2,3) kept _ g] f s show ?thesis by simp
  next
    case False
    then have "length ?kept = length (rs_rights st)" by (simp add: le_antisym)
    then have "?kept = rs_rights st" by (rule filter_same)
    then have "rights_ok st'" using f False by (intro rights_ok_cong [OF assms(2)]) simp_all
    then show ?thesis using s f False by simp
  qed
qed

lemma set_refines:
  fixes env :: rights_env and t p l a b :: u32 and st :: rights_state
  defines "res \<equiv> kbo_set_foreign_waiver_right env t p l a b st"
  assumes "rights_ok st" and "rs_generation st < 2 ^ 31 - 1"
  shows "(store_of (fst res), Stored (snd res)) = perform_store (SetRight t p l a b) (store_of st)
     \<and> rights_ok (fst res) \<and> rs_generation (fst res) \<le> rs_generation st + 1 \<and> same_load (fst res) st"
proof -
  note ok = rights_okD [OF assms(2)]
  let ?r = "\<lparr>rt_player_id = p, rt_team_id = t, rt_league_id = l, rt_retained_on = a, rt_expires_on = b\<rparr>"
  let ?m = "row_map rt_player_id (rs_rights st)"
  have dom: "dom ?m = rt_player_id ` set (rs_rights st)" "card (dom ?m) = length (rs_rights st)"
  proof -
    show "dom ?m = rt_player_id ` set (rs_rights st)" by (auto simp: dom_def row_map_None)
    then show "card (dom ?m) = length (rs_rights st)" using distinct_card [OF ok(1)] by simp
  qed
  show ?thesis
  proof (cases "t = 0 \<or> p = 0 \<or> l = 0 \<or> a = 0 \<or> b = 0")
    case True
    then show ?thesis using assms(2) unfolding res_def kbo_set_foreign_waiver_right_def by auto
  next
    case nz: False
    show ?thesis
    proof (cases "upsert rt_player_id FOREIGN_WAIVER_RIGHTS_MAX ?r (rs_rights st)")
      case None
      then have "p \<notin> rt_player_id ` set (rs_rights st)" "FOREIGN_WAIVER_RIGHTS_MAX \<le> length (rs_rights st)"
        using upsert_None [of rt_player_id _ ?r] by auto
      then have "?m p = None \<and> FOREIGN_WAIVER_RIGHTS_MAX \<le> card (dom ?m)" by (simp add: row_map_None dom(2))
      moreover have "res = (st, False)" using nz None by (simp add: res_def kbo_set_foreign_waiver_right_def)
      ultimately show ?thesis using assms(2) by (simp add: store_of_def)
    next
      case (Some rights)
      have res: "snd res" "rs_rights (fst res) = rights" "rs_holder_cache (fst res) = rs_holder_cache st"
          "rs_generation (fst res) = interlocked_increment (rs_generation st)" "same_load (fst res) st"
          "rs_last_pruned_today (fst res) = rs_last_pruned_today st"
        using nz Some by (simp_all add: res_def same_load_def kbo_set_foreign_waiver_right_def)
      note u = upsert_Some [OF Some ok(1,2)]
      have "\<forall>r \<in> set rights. complete_right r"
        using u(4) ok(3) nz by (auto simp: complete_right_def)
      from rights_ok_change [OF assms(2,3) u(2,3) this res(2,4,3)]
      have "rights_ok (fst res)" "rs_generation (fst res) = rs_generation st + 1" by simp_all
      moreover have "\<not> (?m p = None \<and> FOREIGN_WAIVER_RIGHTS_MAX \<le> card (dom ?m))"
        using Some upsert_None [of rt_player_id FOREIGN_WAIVER_RIGHTS_MAX ?r "rs_rights st"]
        by (auto simp: row_map_None dom(2))
      ultimately show ?thesis using nz u(1) res by (auto simp: store_of_def)
    qed
  qed
qed

lemma remove_refines:
  fixes t p :: u32 and st :: rights_state
  defines "res \<equiv> kbo_remove_foreign_waiver_right_record t p st"
  assumes "rights_ok st" and "rs_generation st < 2 ^ 31 - 1"
  shows "(store_of (fst res), Removed (snd res)) = store_clear t p (store_of st)
     \<and> rights_ok (fst res) \<and> rs_generation (fst res) \<le> rs_generation st + 1 \<and> same_load (fst res) st"
proof -
  note ok = rights_okD [OF assms(2)]
  let ?m = "row_map rt_player_id (rs_rights st)"
  let ?kept = "filter (\<lambda>r. \<not> (rt_team_id r = t \<and> rt_player_id r = p)) (rs_rights st)"
  have row: "?m p = Some r \<Longrightarrow> rt_team_id r \<noteq> 0 \<and> p \<noteq> 0" for r
    using row_map_SomeD [of rt_player_id "rs_rights st" p r] ok(3) by (auto simp: complete_right_def)
  note count = rows_filter_count [OF ok(1), of t p]
  show ?thesis
  proof (cases "\<exists>r. ?m p = Some r \<and> rt_team_id r = t")
    case True
    then obtain r where r: "?m p = Some r" "rt_team_id r = t" by blast
    then have nz: "\<not> (t = 0 \<or> p = 0)" using row by auto
    have res: "snd res = 1" "rs_rights (fst res) = ?kept"
        "rs_generation (fst res) = interlocked_increment (rs_generation st)"
        "rs_holder_cache (fst res) = rs_holder_cache st" "same_load (fst res) st"
        "rs_last_pruned_today (fst res) = rs_last_pruned_today st"
      using nz count r by (simp_all add: res_def same_load_def kbo_remove_foreign_waiver_right_record_def Let_def)
    have kept: "distinct (map rt_player_id ?kept)" "length ?kept \<le> FOREIGN_WAIVER_RIGHTS_MAX"
        "\<forall>r \<in> set ?kept. complete_right r"
      using ok(1,3) distinct_map_filter le_trans [OF length_filter_le ok(2)] by auto
    have "row_map rt_player_id ?kept = ?m(p := None)"
    proof (rule ext)
      fix q
      show "row_map rt_player_id ?kept q = (?m(p := None)) q"
        using r row_map_SomeD [of rt_player_id "rs_rights st" q]
        by (auto simp: row_map_filter [OF ok(1)] split: option.split)
    qed
    then have "store_of (fst res) = (store_of st)\<lparr>st_rights := ?m(p := None)\<rparr>"
      using res(2,6) by (simp add: store_of_def)
    moreover have "store_clear t p (store_of st) = ((store_of st)\<lparr>st_rights := ?m(p := None)\<rparr>, Removed 1)"
      using r by (simp add: store_clear_def store_of_def)
    moreover note rights_ok_change [OF assms(2,3) kept res(2-4)]
    ultimately show ?thesis using res(1,5) by (simp only: order_refl simp_thms)
  next
    case False
    have n: "length (rs_rights st) - length ?kept = 0" using False count by (auto split: option.splits)
    then have "length ?kept = length (rs_rights st)" by (simp add: le_antisym)
    then have k: "?kept = rs_rights st" by (rule filter_same)
    have res: "res = (st, 0)"
      using n k by (simp add: res_def kbo_remove_foreign_waiver_right_record_def Let_def)
    moreover have "store_clear t p (store_of st) = (store_of st, Removed 0)"
      using False by (auto simp: store_clear_def store_of_def split: option.split)
    ultimately show ?thesis using assms(2) by simp
  qed
qed

section \<open>What a change writes\<close>

lemma persist_eq:
  assumes "rights_ok st"
  shows "rs_table (fst (kbo_persist_foreign_waiver_rights env st))
     = (if re_write env (rs_rights st) then rs_rights st else rs_table st)"
proof (cases "re_write env (rs_rights st)")
  case False
  then show ?thesis
    using rights_okD(2) [OF assms]
    by (simp add: kbo_persist_foreign_waiver_rights_def kbo_foreign_waiver_rights_sql_replace_all_def)
qed (simp add: persist_table [OF assms])

lemma persisted_table:
  assumes "rights_ok st'" and "st' = fst (kbo_persist_foreign_waiver_rights env st1)"
  shows "rs_table st' = (if re_write env (rs_rights st') then rs_rights st' else rs_table st1)"
proof -
  have "rights_ok st1" by (rule rights_ok_cong [OF assms(1)]) (simp_all add: assms(2))
  then show ?thesis using persist_eq [of st1 env] assms(2) by simp
qed

lemma prune_table:
  fixes env :: rights_env and today :: u32 and st :: rights_state
  defines "st' \<equiv> kbo_prune_expired_foreign_waiver_rights env today st"
  assumes "rights_ok st" and "rights_ok st'"
  shows "rs_table st' = (if re_write env (rs_rights st') \<and> st_rights (store_of st') \<noteq> st_rights (store_of st)
     then rs_rights st' else rs_table st)"
proof (cases "today = 0 \<or> rs_last_pruned_today st = today")
  case True
  then have "st' = st" by (auto simp: st'_def kbo_prune_expired_foreign_waiver_rights_def)
  then show ?thesis by simp
next
  case False
  let ?kept = "filter (\<lambda>r. \<not> kbo_is_foreign_waiver_right_expired r today) (rs_rights st)"
  define st1 where "st1 = st\<lparr>rs_last_pruned_today := today, rs_rights := ?kept,
     rs_generation := (if length (rs_rights st) - length ?kept > 0
                       then interlocked_increment (rs_generation st) else rs_generation st)\<rparr>"
  have st': "st' = (if length (rs_rights st) - length ?kept > 0
      then fst (kbo_persist_foreign_waiver_rights env st1) else st1)"
    using False by (simp add: st'_def st1_def kbo_prune_expired_foreign_waiver_rights_def Let_def)
  have rows: "rs_rights st' = ?kept" unfolding st' by (simp add: st1_def)
  have d: "distinct (map rt_player_id (rs_rights st))" using rights_okD(1) [OF assms(2)] .
  show ?thesis
  proof (cases "length (rs_rights st) - length ?kept > 0")
    case True
    then have "?kept \<noteq> rs_rights st" by (metis diff_self_eq_0 less_irrefl)
    then obtain r where r: "r \<in> set (rs_rights st)" "kbo_is_foreign_waiver_right_expired r today"
      by (auto simp: filter_id_conv)
    have "row_map rt_player_id (rs_rights st) (rt_player_id r) = Some r"
      using row_map_iff [OF d, of "rt_player_id r" r] r(1) by simp
    moreover have "row_map rt_player_id ?kept (rt_player_id r) = None"
      using calculation r(2) by (simp add: row_map_filter [OF d])
    ultimately have "st_rights (store_of st') \<noteq> st_rights (store_of st)"
      unfolding store_of_def rows by (metis option.distinct(1) right_store.select_convs(1))
    moreover have "st' = fst (kbo_persist_foreign_waiver_rights env st1)" using True st' by simp
    from persisted_table [OF assms(3) this]
    have "rs_table st' = (if re_write env (rs_rights st') then rs_rights st' else rs_table st)"
      by (simp add: st1_def)
    ultimately show ?thesis by simp
  next
    case False
    then have "length ?kept = length (rs_rights st)" by (simp add: le_antisym)
    then have "?kept = rs_rights st" by (rule filter_same)
    then show ?thesis using False st' by (simp add: st1_def store_of_def)
  qed
qed

lemma set_table:
  fixes env :: rights_env and t p l a b :: u32 and st :: rights_state
  defines "res \<equiv> kbo_set_foreign_waiver_right env t p l a b st"
  assumes "rights_ok (fst res)"
  shows "rs_table (fst res) = (if re_write env (rs_rights (fst res)) \<and> snd res
     then rs_rights (fst res) else rs_table st)"
proof (cases "snd res")
  case True
  then obtain st1 where "fst res = fst (kbo_persist_foreign_waiver_rights env st1)" "rs_table st1 = rs_table st"
    unfolding res_def by (fastforce simp: kbo_set_foreign_waiver_right_def split: if_splits option.splits)
  then show ?thesis using persisted_table [OF assms(2)] True by simp
next
  case False
  then have "fst res = st"
    unfolding res_def by (auto simp: kbo_set_foreign_waiver_right_def split: if_splits option.splits)
  then show ?thesis using False by simp
qed

lemma remove_keeps_table [simp]:
  "rs_table (fst (kbo_remove_foreign_waiver_right_record t p st)) = rs_table st"
  by (simp add: kbo_remove_foreign_waiver_right_record_def Let_def)

section \<open>One call\<close>

lemma removed_refines:
  assumes "rights_ok st" and "rs_generation st < 2 ^ 31 - 1"
    and "st' = (if snd (kbo_remove_foreign_waiver_right_record t p st) > 0
                then fst (kbo_persist_foreign_waiver_rights env (fst (kbo_remove_foreign_waiver_right_record t p st)))
                else fst (kbo_remove_foreign_waiver_right_record t p st))
       \<and> answer = Removed (snd (kbo_remove_foreign_waiver_right_record t p st))"
  shows "store_clear t p (store_of st) = (store_of st', answer) \<and> rights_ok st'
     \<and> rs_generation st' \<le> rs_generation st + 1 \<and> same_load st' st
     \<and> rs_table st' = (if re_write env (rs_rights st') \<and> answer \<noteq> Removed 0 then rs_rights st' else rs_table st)"
proof -
  obtain st1 n where rec: "kbo_remove_foreign_waiver_right_record t p st = (st1, n)" by fastforce
  have f: "rs_rights st' = rs_rights st1" "rs_generation st' = rs_generation st1"
      "rs_holder_cache st' = rs_holder_cache st1" "rs_last_pruned_today st' = rs_last_pruned_today st1"
      "same_load st' st = same_load st1 st" "answer = Removed n"
    using assms(3) unfolding rec by (auto simp: same_load_def)
  note r = remove_refines [OF assms(1,2), of t p, unfolded rec fst_conv snd_conv]
  have ok: "rights_ok st'" by (rule rights_ok_cong [OF r [THEN conjunct2, THEN conjunct1] f(1-3)])
  have t1: "rs_table st1 = rs_table st" using remove_keeps_table [of t p st] rec by simp
  have "rs_table st' = (if re_write env (rs_rights st') \<and> answer \<noteq> Removed 0 then rs_rights st' else rs_table st)"
  proof (cases "n = 0")
    case True
    then show ?thesis using assms(3) t1 unfolding rec by simp
  next
    case False
    then have "st' = fst (kbo_persist_foreign_waiver_rights env st1)" using assms(3) unfolding rec by simp
    from persisted_table [OF ok this] show ?thesis using False f(6) t1 by simp
  qed
  moreover have "store_of st' = store_of st1" using f(1,4) by (simp add: store_of_def)
  moreover have "store_clear t p (store_of st) = (store_of st1, Removed n)"
    using r [THEN conjunct1, symmetric] .
  moreover note r [THEN conjunct2, THEN conjunct2]
  ultimately show ?thesis using ok by (simp only: f simp_thms)
qed

text \<open>What a call other than loading and the lookups does: the memory, and the copy.\<close>

lemma change_refines:
  assumes "rights_ok st" and "same_load st' st" and "\<not> looks_up c" and "c \<noteq> Restart"
    and "perform_store c (store_of st) = (store_of st', answer)"
    and "rs_table st' = (if saves \<and> stores_back c (store_of st) (store_of st') answer
                         then rs_rights st' else rs_table st)"
  shows "perform_module saves env c (module_of st) = (module_of st', answer)"
  using assms
  by (simp add: perform_module_def module_of_def same_load_def Let_def store_of_def)

text \<open>Loading: the memory becomes the copy.\<close>

lemma ensure_idem:
  "kbo_ensure_foreign_waiver_rights_loaded_for_lookup env (kbo_ensure_foreign_waiver_rights_loaded_for_lookup env st)
     = kbo_ensure_foreign_waiver_rights_loaded_for_lookup env st"
proof (cases "re_read env")
  case False
  then show ?thesis
    by (simp add: kbo_ensure_foreign_waiver_rights_loaded_for_lookup_def kbo_load_foreign_waiver_rights_def
        kbo_foreign_waiver_rights_sql_load_def Let_def)
next
  case True
  define st1 where "st1 = kbo_ensure_foreign_waiver_rights_loaded_for_lookup env st"
  have "snd (kbo_load_foreign_waiver_rights env st0)" for st0
    using True by (simp add: kbo_load_foreign_waiver_rights_def kbo_foreign_waiver_rights_sql_load_def Let_def split: prod.split)
  then have "rs_rights_loaded st1
      \<or> st1 = st \<and> rs_last_attempt_tick st \<noteq> 0 \<and> re_now env - rs_last_attempt_tick st < 1000"
    unfolding st1_def by (auto simp: kbo_ensure_foreign_waiver_rights_loaded_for_lookup_def Let_def split_beta)
  then have "kbo_ensure_foreign_waiver_rights_loaded_for_lookup env st1 = st1"
    by (auto simp: kbo_ensure_foreign_waiver_rights_loaded_for_lookup_def)
  then show ?thesis by (simp add: st1_def)
qed

lemma load_refines:
  fixes env :: rights_env and st :: rights_state
  defines "st' \<equiv> kbo_ensure_foreign_waiver_rights_loaded_for_lookup env st"
  assumes "rights_ok st" and "saved_table_ok (rs_table st)" and "rs_generation st < 2 ^ 31 - 1"
  shows "module_of st' = module_load env (module_of st)" and "rights_ok st'" and "rs_table st' = rs_table st"
    and "rs_generation st' \<le> rs_generation st + 1"
proof -
  let ?t = "rs_table st"
  let ?rows = "sort_key (\<lambda>r. unat (rt_player_id r)) ?t"
  let ?st1 = "st\<lparr>rs_last_attempt_tick := re_now env\<rparr>"
  have t: "distinct (map rt_player_id ?t)" "\<forall>r \<in> set ?t. complete_right r"
      "length ?t \<le> FOREIGN_WAIVER_RIGHTS_MAX"
    using assms(3) by (simp_all add: saved_table_ok_def)
  have "mset (map rt_player_id ?rows) = mset (map rt_player_id ?t)" by simp
  then have d: "distinct (map rt_player_id ?rows)" using t(1) by (metis mset_eq_imp_distinct_iff)
  have rows: "row_map rt_player_id ?rows = row_map rt_player_id ?t"
    using t(1) by (rule row_map_perm) simp
  consider (kept) "rs_rights_loaded st \<or> rs_last_attempt_tick st \<noteq> 0 \<and> re_now env - rs_last_attempt_tick st < 1000"
    | (failed) "\<not> rs_rights_loaded st" "\<not> (rs_last_attempt_tick st \<noteq> 0 \<and> re_now env - rs_last_attempt_tick st < 1000)"
        "\<not> re_read env"
    | (loaded) "\<not> rs_rights_loaded st" "\<not> (rs_last_attempt_tick st \<noteq> 0 \<and> re_now env - rs_last_attempt_tick st < 1000)"
        "re_read env"
    by blast
  then have "module_of st' = module_load env (module_of st) \<and> rights_ok st' \<and> rs_table st' = rs_table st
     \<and> rs_generation st' \<le> rs_generation st + 1"
  proof cases
    case kept
    then have "st' = st" by (auto simp: st'_def kbo_ensure_foreign_waiver_rights_loaded_for_lookup_def)
    then show ?thesis using kept assms(2) by (auto simp: module_load_def module_of_def)
  next
    case failed
    then have st': "st' = ?st1"
      by (auto simp: st'_def kbo_ensure_foreign_waiver_rights_loaded_for_lookup_def kbo_load_foreign_waiver_rights_def
          kbo_foreign_waiver_rights_sql_load_def)
    have "rights_ok st'" by (rule rights_ok_cong [OF assms(2)]) (simp_all add: st')
    then show ?thesis using failed st' by (auto simp: module_load_def module_of_def store_of_def)
  next
    case loaded
    have "kbo_load_foreign_waiver_rights env ?st1
        = (?st1\<lparr>rs_rights := ?rows, rs_generation := interlocked_increment (rs_generation ?st1)\<rparr>, True)"
      by (rule load_table) (use t loaded in simp_all)
    then have st': "st' = ?st1\<lparr>rs_rights := ?rows, rs_generation := interlocked_increment (rs_generation st),
        rs_rights_loaded := True\<rparr>"
      using loaded(1) unfolding st'_def kbo_ensure_foreign_waiver_rights_loaded_for_lookup_def
      by (simp only: loaded(2) if_False Let_def prod.case if_True simp_thms) simp
    have "rights_ok st'" "rs_generation st' = rs_generation st + 1"
      by (rule rights_ok_change [OF assms(2,4) d]; use t st' in simp)+
    then show ?thesis using loaded st' rows by (simp add: module_load_def module_of_def store_of_def)
  qed
  then show "module_of st' = module_load env (module_of st)" "rights_ok st'" "rs_table st' = rs_table st"
    "rs_generation st' \<le> rs_generation st + 1" by simp_all
qed

text \<open>A lookup is the lookup in the loaded table.\<close>

lemma lookup_refines:
  assumes "rights_ok st" and "saved_table_ok (rs_table st)" and "rs_generation st < 2 ^ 31 - 1"
    and "rights_ok st'" and "rs_generation st' = rs_generation st1" and "rs_table st' = rs_table st1"
    and "st1 = (if looks_up c then kbo_ensure_foreign_waiver_rights_loaded_for_lookup env st else st)"
    and "module_of st' = module_of st1" and "perform_store c (store_of st1) = (store_of st1, answer)"
    and "\<And>m new. \<not> stores_back c m new answer" and "c \<noteq> Restart"
  shows "perform_module saves env c (module_of st) = (module_of st', answer)
     \<and> rs_generation st' \<le> rs_generation st + 1 \<and> rs_table st' = rs_table st"
proof -
  note l = load_refines [OF assms(1-3), of env]
  have m: "(if looks_up c then module_load env (module_of st) else module_of st) = module_of st1"
    using l(1) assms(7) by simp
  have "perform_module saves env c (module_of st) = (module_of st1, answer)"
    unfolding perform_module_def m using assms(9-11) by (simp add: module_of_def)
  then show ?thesis using l assms(5-8) by auto
qed

lemma holder_looks_up:
  "kbo_find_active_foreign_waiver_holder env p today
     (if p \<noteq> 0 \<and> today \<noteq> 0 then kbo_ensure_foreign_waiver_rights_loaded_for_lookup env st else st)
   = kbo_find_active_foreign_waiver_holder env p today st"
  by (simp add: kbo_find_active_foreign_waiver_holder_def ensure_idem)

lemma has_looks_up:
  fixes st :: rights_state and t p today :: u32 and env :: rights_env
  defines "st1 \<equiv> (if t \<noteq> 0 \<and> p \<noteq> 0 \<and> today \<noteq> 0
     then kbo_ensure_foreign_waiver_rights_loaded_for_lookup env st else st)"
  assumes "rights_ok st1"
  shows "kbo_has_active_foreign_waiver_right env t p today st
      = (st1, active_right (row_map rt_player_id (rs_rights st1)) t p today \<noteq> None)"
    and "kbo_get_active_foreign_waiver_right_dates env t p today st
      = (st1, map_option (\<lambda>r. (rt_retained_on r, rt_expires_on r))
             (active_right (row_map rt_player_id (rs_rights st1)) t p today))"
  using active_right_zero [of t p today "rs_rights st1"] find_active_map [OF rights_okD(1) [OF assms(2)]]
  by (auto simp: st1_def kbo_has_active_foreign_waiver_right_def kbo_get_active_foreign_waiver_right_dates_def Let_def)

lemma holder_zero:
  assumes "p = 0 \<or> today = 0"
  shows "kbo_find_active_foreign_waiver_holder env p today st = (st, None)"
    and "active_holder (row_map rt_player_id rights) p today = None"
  using assms active_today
  by (auto simp: kbo_find_active_foreign_waiver_holder_def active_holder_def dest: row_map_SomeD split: option.splits)

section \<open>Sequences of calls\<close>

lemma perform_refines:
  assumes "rights_ok st" and "saved_table_ok (rs_table st)" and "rs_generation st < 2 ^ 31 - 1"
    and "perform env c (st, w) = ((st', w'), answer)"
  shows "perform_module (re_write env (rs_rights st')) env c (module_of st) = (module_of st', answer)
     \<and> rights_ok st' \<and> rs_generation st' \<le> rs_generation st + 1
     \<and> (rs_table st' = rs_table st \<or> rs_table st' = rs_rights st' \<or> c = Restart)"
proof -
  note l = load_refines [OF assms(1-3), of env]
  define st1 where "st1 = (if looks_up c then kbo_ensure_foreign_waiver_rights_loaded_for_lookup env st else st)"
  have ok1: "rights_ok st1" using l(2) assms(1) by (simp add: st1_def)
  note changes = change_refines [OF assms(1), where saves = "re_write env (rs_rights st')"]
  show ?thesis
  proof (cases c)
    case (Prune today)
    then have st': "st' = kbo_prune_expired_foreign_waiver_rights env today st" "answer = Done"
      using assms(4) by auto
    note p = prune_refines [OF assms(1,3), of env today, folded st'(1)]
    have t: "rs_table st' = (if re_write env (rs_rights st') \<and> st_rights (store_of st') \<noteq> st_rights (store_of st)
        then rs_rights st' else rs_table st)"
      using prune_table [OF assms(1), of env today] p st'(1) by simp
    have "perform_module (re_write env (rs_rights st')) env c (module_of st) = (module_of st', answer)"
      by (rule changes) (use p t st'(2) Prune in \<open>auto simp: prod_eq_iff\<close>)
    then show ?thesis using p t by auto
  next
    case (SetRight t p l a b)
    obtain ok where st': "kbo_set_foreign_waiver_right env t p l a b st = (st', ok)" "answer = Stored ok"
      using assms(4) SetRight by (auto split: prod.splits)
    note r = set_refines [OF assms(1,3), of env t p l a b, unfolded st'(1) fst_conv snd_conv]
    have tab: "rs_table st' = (if re_write env (rs_rights st') \<and> ok then rs_rights st' else rs_table st)"
      using set_table [of env t p l a b st] r st'(1) by simp
    have "perform_module (re_write env (rs_rights st')) env c (module_of st) = (module_of st', answer)"
      by (rule changes) (use r tab st'(2) SetRight in auto)
    then show ?thesis using r tab by auto
  next
    case (Clear t p)
    have r: "store_clear t p (store_of st) = (store_of st', answer) \<and> rights_ok st'
       \<and> rs_generation st' \<le> rs_generation st + 1 \<and> same_load st' st
       \<and> rs_table st' = (if re_write env (rs_rights st') \<and> answer \<noteq> Removed 0 then rs_rights st' else rs_table st)"
      using assms(4) Clear
      by (intro removed_refines [OF assms(1,3)]) (auto simp: kbo_clear_foreign_waiver_right_def split: prod.splits if_splits)
    have "perform_module (re_write env (rs_rights st')) env c (module_of st) = (module_of st', answer)"
      by (rule changes) (use r Clear in auto)
    then show ?thesis using r by auto
  next
    case (Consume t p)
    have r: "store_clear t p (store_of st) = (store_of st', answer) \<and> rights_ok st'
       \<and> rs_generation st' \<le> rs_generation st + 1 \<and> same_load st' st
       \<and> rs_table st' = (if re_write env (rs_rights st') \<and> answer \<noteq> Removed 0 then rs_rights st' else rs_table st)"
      using assms(4) Consume
      by (intro removed_refines [OF assms(1,3)])
        (auto simp: kbo_consume_foreign_waiver_right_after_holder_signing_def split: prod.splits if_splits)
    have "perform_module (re_write env (rs_rights st')) env c (module_of st) = (module_of st', answer)"
      by (rule changes) (use r Consume in auto)
    then show ?thesis using r by auto
  next
    case (Holder p today)
    have e: "kbo_ensure_foreign_waiver_rights_loaded_for_lookup env st1 = st1 \<or> p = 0 \<or> today = 0"
      using Holder ensure_idem by (auto simp: st1_def)
    have run: "kbo_find_active_foreign_waiver_holder env p today st1 = (st', the_holder) \<longleftrightarrow>
        kbo_find_active_foreign_waiver_holder env p today st = (st', the_holder)" for the_holder
      using holder_looks_up [of env p today st] Holder by (simp add: st1_def)
    obtain h where h: "kbo_find_active_foreign_waiver_holder env p today st1 = (st', h)" "answer = HolderIs h"
      using assms(4) Holder run by (auto split: prod.splits)
    have r: "h = active_holder (row_map rt_player_id (rs_rights st1)) p today" "rights_ok st'"
        "module_of st' = module_of st1" "rs_generation st' = rs_generation st1" "rs_table st' = rs_table st1"
      using holder_refines [OF ok1, where env = env and p = p and today = today]
        holder_zero(1) [of p today env st1] holder_zero(2) [of p today "rs_rights st1"] e h(1) ok1 by auto
    have "perform_module (re_write env (rs_rights st')) env c (module_of st) = (module_of st', answer)
       \<and> rs_generation st' \<le> rs_generation st + 1 \<and> rs_table st' = rs_table st"
      by (rule lookup_refines [OF assms(1-3) r(2,4,5) st1_def r(3)]) (simp_all add: Holder h r(1) store_of_def)
    then show ?thesis using r(2) by simp
  next
    case (Has t p today)
    note r = has_looks_up(1) [of t p today env st]
    have st': "st' = st1" "answer = HasIt (active_right (row_map rt_player_id (rs_rights st1)) t p today \<noteq> None)"
      using assms(4) ok1 r Has by (auto simp: st1_def)
    have "perform_module (re_write env (rs_rights st')) env c (module_of st) = (module_of st', answer)
       \<and> rs_generation st' \<le> rs_generation st + 1 \<and> rs_table st' = rs_table st"
      by (rule lookup_refines [OF assms(1-3) _ _ _ st1_def]) (simp_all add: Has st' ok1 store_of_def)
    then show ?thesis using ok1 st' by simp
  next
    case (Dates t p today)
    note r = has_looks_up(2) [of t p today env st]
    have st': "st' = st1" "answer = DatesAre (map_option (\<lambda>r. (rt_retained_on r, rt_expires_on r))
             (active_right (row_map rt_player_id (rs_rights st1)) t p today))"
      using assms(4) ok1 r Dates by (auto simp: st1_def)
    have "perform_module (re_write env (rs_rights st')) env c (module_of st) = (module_of st', answer)
       \<and> rs_generation st' \<le> rs_generation st + 1 \<and> rs_table st' = rs_table st"
      by (rule lookup_refines [OF assms(1-3) _ _ _ st1_def]) (simp_all add: Dates st' ok1 store_of_def)
    then show ?thesis using ok1 st' by simp
  next
    case Load
    have st': "st' = st1" "answer = Done" using assms(4) Load by (simp_all add: st1_def)
    have "perform_module (re_write env (rs_rights st')) env c (module_of st) = (module_of st', answer)
       \<and> rs_generation st' \<le> rs_generation st + 1 \<and> rs_table st' = rs_table st"
      by (rule lookup_refines [OF assms(1-3) _ _ _ st1_def]) (simp_all add: Load st' ok1)
    then show ?thesis using ok1 st' by simp
  next
    case Restart
    then have st': "st' = initial_rights (rs_table st)" "answer = Done" using assms(4) by auto
    have "1 \<le> rs_generation st" using rights_okD(4) [OF assms(1)] .
    then show ?thesis
      using Restart st'
      by (simp add: perform_module_def module_of_def store_of_def initial_rights_def rights_ok_def cache_coherent_def
          Let_def FOREIGN_WAIVER_RIGHTS_MAX_def)
  qed
qed

lemma restart_table: "perform env Restart (st, w) = ((st', w'), answer) \<Longrightarrow> rs_table st' = rs_table st"
  by (auto simp: initial_rights_def)

lemma rights_table_ok: "rights_ok st \<Longrightarrow> saved_table_ok (rs_rights st)"
  by (simp add: rights_ok_def saved_table_ok_def right_row_ok_def)

fun run_calls :: "(rights_env \<times> rights_call) list \<Rightarrow> rights_state \<times> waiver_world
    \<Rightarrow> (rights_state \<times> waiver_world) \<times> rights_answer list" where
  "run_calls [] s = (s, [])"
| "run_calls ((env, c) # cs) s =
     (let (s1, answer) = perform env c s; (s2, answers) = run_calls cs s1 in (s2, answer # answers))"

fun run_module :: "(bool \<times> rights_env \<times> rights_call) list \<Rightarrow> right_module \<Rightarrow> right_module \<times> rights_answer list" where
  "run_module [] m = (m, [])"
| "run_module ((saves, env, c) # cs) m =
     (let (m1, answer) = perform_module saves env c m; (m2, answers) = run_module cs m1 in (m2, answer # answers))"

lemma run_refines:
  assumes "rights_ok st" and "saved_table_ok (rs_table st)" and "rs_generation st + int (length calls) < 2 ^ 31"
    and "run_calls calls (st, w) = ((st', w'), answers)"
  shows "\<exists>saves. list_all2 (\<lambda>ok (env, c). \<exists>rows. re_write env rows = ok) saves calls
       \<and> run_module (zip saves calls) (module_of st) = (module_of st', answers)
       \<and> rights_ok st' \<and> saved_table_ok (rs_table st')"
  using assms
proof (induction calls arbitrary: st w answers)
  case (Cons ec calls)
  obtain env c where ec: "ec = (env, c)" by fastforce
  obtain st1 w1 a where p: "perform env c (st, w) = ((st1, w1), a)" by (metis surj_pair)
  obtain as where r: "run_calls calls (st1, w1) = ((st', w'), as)" "answers = a # as"
    using Cons.prems(4) by (auto simp: ec p split: prod.splits)
  have step: "perform_module (re_write env (rs_rights st1)) env c (module_of st) = (module_of st1, a)
     \<and> rights_ok st1 \<and> rs_generation st1 \<le> rs_generation st + 1
     \<and> (rs_table st1 = rs_table st \<or> rs_table st1 = rs_rights st1 \<or> c = Restart)"
    using Cons.prems by (intro perform_refines [OF _ _ _ p]) simp_all
  then have "saved_table_ok (rs_table st1)"
    using Cons.prems(2) rights_table_ok [of st1] restart_table p by metis
  then obtain saves where saves: "list_all2 (\<lambda>ok (env, c). \<exists>rows. re_write env rows = ok) saves calls"
      "run_module (zip saves calls) (module_of st1) = (module_of st', as)" "rights_ok st'" "saved_table_ok (rs_table st')"
    using Cons.IH [of st1 w1 as] Cons.prems(3) r(1) step by auto
  then show ?case
    using step r(2) by (intro exI [of _ "re_write env (rs_rights st1) # saves"]) (auto simp: ec)
qed simp

section \<open>Properties\<close>

definition demo_rights_env :: rights_env where
  "demo_rights_env = \<lparr>re_read = True, re_write = (\<lambda>_. True), re_now = 5000\<rparr>"

definition demo_right :: "u32 \<Rightarrow> u32 \<Rightarrow> retention" where
  "demo_right p t = \<lparr>rt_player_id = p, rt_team_id = t, rt_league_id = 200, rt_retained_on = 20251101,
     rt_expires_on = 20301101\<rparr>"

definition demo_rights :: rights_state where
  "demo_rights = (initial_rights [demo_right 7 3])\<lparr>rs_rights := [demo_right 7 3], rs_rights_loaded := True\<rparr>"

lemma demo_rights_ok: "rights_ok demo_rights"
  by (simp add: rights_ok_def demo_rights_def initial_rights_def right_row_ok_def complete_right_def demo_right_def
      FOREIGN_WAIVER_RIGHTS_MAX_def cache_coherent_def Let_def)

lemma demo_saved_table_ok: "saved_table_ok (rs_table demo_rights)"
  by (simp add: saved_table_ok_def demo_rights_def initial_rights_def complete_right_def demo_right_def
      FOREIGN_WAIVER_RIGHTS_MAX_def)

text \<open>
  C3: the module of the rights (the table, its cache of holders, the flags of its loading
  and its copy in the database) refines two maps from players to rights, one in memory and
  one saved.  Whatever sequence of calls is made, lookups, changes, loads and restarts of the
  process among them, and whichever of the statements fail, every answer is the one of the
  maps: a lookup first takes the saved map over if nothing was loaded and the database can be
  read; a change that found something to change saves the whole map in memory if the
  database accepts the statements of that call, and otherwise leaves the saved map as it was.
  The invariants are kept: one right per player, all of them complete, at most 1024, in
  memory and saved, and no stale cached answer.  The bound is that of the generation
  counter, which must not overflow.
\<close>

theorem rights_refine_map:
  assumes "rights_ok st" and "saved_table_ok (rs_table st)"
    and "rs_generation st + int (length calls) < 2 ^ 31"
  shows "case run_calls calls (st, w) of ((st', w'), answers) \<Rightarrow>
     \<exists>saves. list_all2 (\<lambda>ok (env, c). \<exists>rows. re_write env rows = ok) saves calls
       \<and> run_module (zip saves calls) (module_of st) = (module_of st', answers)
       \<and> rights_ok st' \<and> saved_table_ok (rs_table st')"
proof -
  obtain st' w' answers where r: "run_calls calls (st, w) = ((st', w'), answers)" by (metis surj_pair)
  show ?thesis using run_refines [OF assms r] by (simp add: r)
qed

definition failing_rights_env :: rights_env where
  "failing_rights_env = \<lparr>re_read = True, re_write = (\<lambda>_. False), re_now = 5000\<rparr>"

abbreviation demo_rights_calls :: "(rights_env \<times> rights_call) list" where
  "demo_rights_calls \<equiv>
     [(demo_rights_env, Holder 7 20260501), (demo_rights_env, SetRight 4 7 200 20260601 20310601),
      (failing_rights_env, SetRight 5 9 200 20260601 20310601), (demo_rights_env, Holder 9 20260701),
      (demo_rights_env, Restart), (demo_rights_env, Holder 7 20260701), (demo_rights_env, Holder 9 20260701)]"

theorem rights_refine_map_witness:
  "snd (run_calls demo_rights_calls (demo_rights, \<lparr>wd_players = \<lambda>_. None, wd_teams = \<lambda>_. None\<rparr>))
   = [HolderIs (Some 3), Stored True, Stored True, HolderIs (Some 5), Done, HolderIs (Some 4), HolderIs None]"
proof -
  let ?w = "\<lparr>wd_players = \<lambda>_. None, wd_teams = \<lambda>_. None\<rparr>"
  have "rs_generation demo_rights + int (length demo_rights_calls) < 2 ^ 31"
    by (simp add: demo_rights_def initial_rights_def)
  note refines = rights_refine_map [OF demo_rights_ok demo_saved_table_ok this, of ?w]
  obtain st' w' answers where run: "run_calls demo_rights_calls (demo_rights, ?w) = ((st', w'), answers)"
    by (metis surj_pair)
  obtain saves where s: "list_all2 (\<lambda>ok (env, c). \<exists>rows. re_write env rows = ok) saves demo_rights_calls"
      "run_module (zip saves demo_rights_calls) (module_of demo_rights) = (module_of st', answers)"
    using refines unfolding run prod.case by blast
  have "saves = [True, True, False, True, True, True, True]"
    using s(1) by (auto simp: list_all2_Cons2 demo_rights_env_def failing_rights_env_def)
  then have "answers = snd (run_module (zip [True, True, False, True, True, True, True] demo_rights_calls)
      (module_of demo_rights))" using s(2) by simp
  moreover have "module_of demo_rights = \<lparr>rm_memory = \<lparr>st_rights = [7 \<mapsto> demo_right 7 3], st_pruned = 0\<rparr>,
      rm_saved = [7 \<mapsto> demo_right 7 3], rm_loaded = True, rm_attempt = 0\<rparr>"
    by (simp add: module_of_def store_of_def demo_rights_def initial_rights_def demo_right_def)
  ultimately show ?thesis unfolding run
    by (simp add: perform_module_def module_load_def demo_rights_env_def failing_rights_env_def Let_def
        FOREIGN_WAIVER_RIGHTS_MAX_def active_holder_def demo_right_def kbo_is_foreign_waiver_right_active_def
        kbo_is_foreign_waiver_right_expired_def retention_broken_def)
qed

text \<open>
  Rights written to the database survive a restart: a new process that loads the table
  answers from the same map of rights.
\<close>

theorem saved_rights_survive_restart:
  assumes "rights_ok st" and "re_write env (rs_rights st)" and "re_read env'"
  defines "new \<equiv> kbo_ensure_foreign_waiver_rights_loaded_for_lookup env'
     (initial_rights (rs_table (fst (kbo_persist_foreign_waiver_rights env st))))"
  shows "rs_rights_loaded new \<and> rights_ok new \<and> st_rights (store_of new) = st_rights (store_of st)"
proof -
  note ok = rights_okD [OF assms(1)]
  let ?rows = "sort_key (\<lambda>r. unat (rt_player_id r)) (rs_rights st)"
  have t: "rs_table (fst (kbo_persist_foreign_waiver_rights env st)) = rs_rights st"
    by (simp add: persist_table [OF assms(1,2)])
  have new: "new = (initial_rights (rs_rights st))\<lparr>rs_last_attempt_tick := re_now env', rs_rights := ?rows,
      rs_generation := 2, rs_rights_loaded := True\<rparr>"
    using load_table [OF ok(1,3,2) assms(3), of "(initial_rights (rs_rights st))\<lparr>rs_last_attempt_tick := re_now env'\<rparr>"]
    unfolding new_def t by (simp add: kbo_ensure_foreign_waiver_rights_loaded_for_lookup_def initial_rights_def)
  have "mset (map rt_player_id ?rows) = mset (map rt_player_id (rs_rights st))" by simp
  then have d: "distinct (map rt_player_id ?rows)" using ok(1) by (metis mset_eq_imp_distinct_iff)
  have "row_map rt_player_id ?rows = row_map rt_player_id (rs_rights st)"
    using ok(1) by (rule row_map_perm) simp
  then show ?thesis
    using d ok(2,3) unfolding new
    by (simp add: store_of_def rights_ok_def right_row_ok_def cache_coherent_def Let_def initial_rights_def)
qed

theorem saved_rights_survive_restart_witness:
  "st_rights (store_of (kbo_ensure_foreign_waiver_rights_loaded_for_lookup demo_rights_env
     (initial_rights (rs_table (fst (kbo_persist_foreign_waiver_rights demo_rights_env demo_rights)))))) 7
   = Some (demo_right 7 3)"
proof -
  have "re_write demo_rights_env (rs_rights demo_rights)" "re_read demo_rights_env"
    by (simp_all add: demo_rights_env_def)
  from saved_rights_survive_restart [OF demo_rights_ok this] show ?thesis
    by (simp add: store_of_def demo_rights_def demo_right_def)
qed

text \<open>
  C32: storing a right writes the table in memory over the one of the database, whatever is
  there.  Rights of the database that were not loaded are lost: those of the save when a
  right is stored before the first lookup, and those of another save that was opened in the
  same process.
\<close>

theorem set_overwrites_stored_rights:
  assumes "rights_ok st" and "rs_generation st < 2 ^ 31 - 1" and "\<forall>rows. re_write env rows"
    and "kbo_set_foreign_waiver_right env t p l a b st = (st', True)"
  shows "row_map rt_player_id (rs_table st') = (row_map rt_player_id (rs_rights st))(p \<mapsto>
       \<lparr>rt_player_id = p, rt_team_id = t, rt_league_id = l, rt_retained_on = a, rt_expires_on = b\<rparr>)
     \<and> (\<forall>q r. q \<noteq> p \<and> r \<in> set (rs_table st) \<and> rt_player_id r = q \<and> row_map rt_player_id (rs_rights st) q = None \<longrightarrow>
          row_map rt_player_id (rs_table st') q = None)"
proof -
  let ?r = "\<lparr>rt_player_id = p, rt_team_id = t, rt_league_id = l, rt_retained_on = a, rt_expires_on = b\<rparr>"
  note ok = rights_okD [OF assms(1)]
  obtain rights where u: "upsert rt_player_id FOREIGN_WAIVER_RIGHTS_MAX ?r (rs_rights st) = Some rights"
      "complete_right ?r"
      "st' = fst (kbo_persist_foreign_waiver_rights env
         (st\<lparr>rs_rights := rights, rs_generation := interlocked_increment (rs_generation st)\<rparr>))"
    using assms(4) by (auto simp: kbo_set_foreign_waiver_right_def complete_right_def split: if_splits option.splits)
  note up = upsert_Some [OF u(1) ok(1,2)]
  have "\<forall>r \<in> set rights. complete_right r" using up(4) ok(3) u(2) by auto
  from rights_ok_change(1) [OF assms(1,2) up(2,3) this, of
      "st\<lparr>rs_rights := rights, rs_generation := interlocked_increment (rs_generation st)\<rparr>"]
  have "rights_ok (st\<lparr>rs_rights := rights, rs_generation := interlocked_increment (rs_generation st)\<rparr>)" by simp
  from persist_table [OF this, of env] have "rs_table st' = rights" using u(3) assms(3) by simp
  then show ?thesis using up(1) by simp
qed

theorem set_overwrites_stored_rights_witness:
  "row_map rt_player_id (rs_table (fst (kbo_set_foreign_waiver_right demo_rights_env 4 9 200 20251101 20301101
     (initial_rights [demo_right 7 3])))) 7 = None"
proof -
  let ?st = "initial_rights [demo_right 7 3]"
  have ok: "rights_ok ?st"
    by (simp add: rights_ok_def initial_rights_def cache_coherent_def Let_def)
  have w: "\<forall>rows. re_write demo_rights_env rows" by (simp add: demo_rights_env_def)
  have g: "rs_generation ?st < 2 ^ 31 - 1" by (simp add: initial_rights_def)
  obtain st' where s: "kbo_set_foreign_waiver_right demo_rights_env 4 9 200 20251101 20301101 ?st = (st', True)"
    by (simp add: kbo_set_foreign_waiver_right_def upsert_def initial_rights_def FOREIGN_WAIVER_RIGHTS_MAX_def)
  have "row_map rt_player_id (rs_rights ?st) 7 = None" by (simp add: initial_rights_def)
  then show ?thesis
    using set_overwrites_stored_rights [OF ok g w s, THEN conjunct2, rule_format, of 7 "demo_right 7 3"] s
    by (simp add: initial_rights_def demo_right_def)
qed

end
