(* ===== verification/WaiverWindow.thy ===== *)
theory WaiverWindow
  imports WaiverDate
begin

text \<open>
  The negotiation window of the foreign players: \<open>native/src/foreign/waiver_window/\<close>.  When
  the league event "Offseason starts" has passed, the window is open for a configured number
  of days.  \<open>foreign_waiver_window_events.c\<close> looks for the event and opens the window,
  \<open>foreign_waiver_window_status.c\<close> re-evaluates it on every question and answers from the
  window stored in the save database.

  \<open>window_state\<close> has the globals of \<open>foreign_waiver_window_state.c\<close>, the static variables of
  the two functions and the row of the database; \<open>window_env\<close> what a call reads.  An event
  manager or an event vector that cannot be read is an empty list of events, and an event
  that cannot be read is \<open>None\<close>.
\<close>

section \<open>State\<close>

record league_event =
  le_deleted :: bool
  le_league_id :: u32
  le_year :: u16
  le_month :: u8
  le_day :: u8
  le_name :: "string option"

definition MAX_EVENT_VECTOR_COUNT :: nat where "MAX_EVENT_VECTOR_COUNT = 20000"

record window_state =
  ww_start_serial :: u32
  ww_end_serial :: u32
  ww_last_seen :: u32
  ww_last_close_event_end :: u32
  ww_start_event_date :: u32
  ww_close_event_end_date :: u32
  ww_last_checked :: u32
  ww_last_checked_result :: u32
  ww_last_stale_marker :: u32
  ww_cached_today :: u32
  ww_cached_window :: "(u32 \<times> u32) option"
  ww_cached_tick :: u32
  ww_stored :: "(u32 \<times> u32) option"

definition initial_window :: "(u32 \<times> u32) option \<Rightarrow> window_state" where
  "initial_window stored = \<lparr>ww_start_serial = 0, ww_end_serial = 0, ww_last_seen = 0,
     ww_last_close_event_end = 0, ww_start_event_date = 0, ww_close_event_end_date = 0,
     ww_last_checked = 0, ww_last_checked_result = 0, ww_last_stale_marker = 0,
     ww_cached_today = 0, ww_cached_window = None, ww_cached_tick = 0, ww_stored = stored\<rparr>"

record window_env =
  we_enabled :: bool
  we_today :: "u32 option"
  we_league_id :: u32
  we_window_days :: u32
  we_events :: "league_event option list"
  we_read :: bool
  we_write :: bool
  we_now :: u32

section \<open>The event\<close>

definition offseason_key :: "u32 \<Rightarrow> u32 \<Rightarrow> league_event option \<Rightarrow> u32 option" where
  "offseason_key today league_id entry =
     (case entry of
        None \<Rightarrow> None
      | Some ev \<Rightarrow>
          let event_year = ucast (le_year ev);
              event_month = ucast (le_month ev);
              event_day = ucast (le_day ev);
              event_key = event_year * 10000 + event_month * 100 + event_day
          in if le_deleted ev then None
             else if league_id \<noteq> 0 \<and> le_league_id ev \<noteq> league_id then None
             else if event_year < KBO_TEXT_DATE_YEAR_MIN \<or> event_year > KBO_SIM_YEAR_MAX
                  \<or> event_month < 1 \<or> event_month > 12 \<or> event_day < 1 \<or> event_day > 31 then None
             else if event_key > today then None
             else case le_name ev of
                 None \<Rightarrow> None
               | Some name \<Rightarrow> if stricmp_equal name ''Offseason starts'' then Some event_key else None)"

definition kbo_detect_offseason_starts_event ::
    "u32 \<Rightarrow> u32 \<Rightarrow> league_event option list \<Rightarrow> u32" where
  "kbo_detect_offseason_starts_event today league_id events =
     (if events = [] \<or> length events > MAX_EVENT_VECTOR_COUNT then 0
      else foldl (\<lambda>latest entry.
             case offseason_key today league_id entry of
               None \<Rightarrow> latest
             | Some event_key \<Rightarrow> if event_key > latest then event_key else latest) 0 events)"

section \<open>Opening the window\<close>

definition kbo_write_foreign_waiver_window :: "window_env \<Rightarrow> u32 \<Rightarrow> u32 \<Rightarrow> window_state \<Rightarrow> window_state" where
  "kbo_write_foreign_waiver_window env start end_date st =
     (if start = 0 \<or> end_date = 0 \<or> \<not> we_write env then st else st\<lparr>ww_stored := Some (start, end_date)\<rparr>)"

text \<open>The four globals of the window that every path sets together.\<close>

definition set_window :: "u32 \<Rightarrow> u32 \<Rightarrow> u32 \<Rightarrow> u32 \<Rightarrow> window_state \<Rightarrow> window_state" where
  "set_window start_serial days start end_date st =
     st\<lparr>ww_start_serial := start_serial, ww_end_serial := start_serial + days,
        ww_start_event_date := start, ww_close_event_end_date := end_date\<rparr>"

definition kbo_open_foreign_waiver_window ::
    "window_env \<Rightarrow> u32 \<Rightarrow> u32 \<Rightarrow> window_state \<Rightarrow> window_state \<times> bool" where
  "kbo_open_foreign_waiver_window env start start_serial st =
     (let window_days = we_window_days env;
          end_date = kbo_add_days_yyyymmdd start window_days
      in if end_date = 0 then (st, False)
         else (set_window start_serial window_days start end_date
                 (kbo_write_foreign_waiver_window env start end_date st), True))"

text \<open>No event was found: a window opened earlier in this process may still be running.\<close>

definition recover_marker :: "window_env \<Rightarrow> u32 \<Rightarrow> u32 \<Rightarrow> window_state \<Rightarrow> window_state \<times> bool" where
  "recover_marker env today today_serial st =
     (let marker = ww_last_seen st;
          window_days = we_window_days env;
          serial = kbo_date_serial (marker div 10000) ((marker div 100) mod 100) (marker mod 100);
          recovered_end = kbo_add_days_yyyymmdd marker window_days
      in if marker \<noteq> 0 \<and> marker \<le> today \<and> serial \<noteq> 0 \<and> recovered_end \<noteq> 0
            \<and> today_serial \<ge> serial \<and> today_serial < serial + window_days
         then ((kbo_write_foreign_waiver_window env marker recovered_end
                  (set_window serial window_days marker recovered_end st))\<lparr>ww_last_checked_result := 1\<rparr>, True)
         else (st\<lparr>ww_last_checked_result := 2\<rparr>, False))"

definition kbo_advance_foreign_waiver_window ::
    "window_env \<Rightarrow> u32 \<Rightarrow> u32 \<Rightarrow> window_state \<Rightarrow> window_state \<times> bool" where
  "kbo_advance_foreign_waiver_window env today today_serial st0 =
     (if today \<noteq> 0 \<and> today = ww_last_checked st0 \<and> ww_last_checked_result st0 \<noteq> 0 then (st0, False)
      else
        let st = st0\<lparr>ww_last_checked := today, ww_last_checked_result := 0\<rparr>;
            result2 = (\<lambda>s. (s\<lparr>ww_last_checked_result := 2\<rparr>, False));
            window_days = we_window_days env
        in if today = 0 \<or> today_serial = 0 then (st, False)
           else if we_league_id env = 0 then (st, False)
           else
             let season_end = kbo_detect_offseason_starts_event today (we_league_id env) (we_events env);
                 season_end_serial = kbo_date_serial (season_end div 10000)
                                       ((season_end div 100) mod 100) (season_end mod 100);
                 window_end = kbo_add_days_yyyymmdd season_end window_days
             in if season_end = 0 then recover_marker env today today_serial st
                else if today < season_end then result2 st
                else if season_end_serial = 0 then result2 st
                else if window_end = 0 then result2 st
                else if today_serial \<ge> season_end_serial + window_days then
                  (let st1 = st\<lparr>ww_last_seen := season_end\<rparr>
                   in if ww_last_stale_marker st1 \<noteq> season_end
                      then result2 (set_window season_end_serial window_days season_end window_end
                             (kbo_write_foreign_waiver_window env season_end window_end
                               (st1\<lparr>ww_last_stale_marker := season_end\<rparr>)))
                      else result2 st1)
                else if ww_last_seen st = season_end then
                  result2 (set_window season_end_serial window_days season_end window_end
                    (kbo_write_foreign_waiver_window env season_end window_end st))
                else
                  (let (st1, opened) = kbo_open_foreign_waiver_window env season_end season_end_serial
                                         (st\<lparr>ww_last_seen := season_end\<rparr>)
                   in (st1\<lparr>ww_last_checked_result := (if opened then 1 else 2)\<rparr>, opened)))"

section \<open>Asking\<close>

definition kbo_read_foreign_waiver_window :: "window_env \<Rightarrow> window_state \<Rightarrow> (u32 \<times> u32) option" where
  "kbo_read_foreign_waiver_window env st =
     (if \<not> we_read env then None
      else case ww_stored st of
          None \<Rightarrow> None
        | Some (start, end_date) \<Rightarrow> if start = 0 \<or> end_date = 0 then None else Some (start, end_date))"

text \<open>The stored window is read again on a new day, and at most every two seconds.\<close>

definition kbo_read_foreign_waiver_window_cached ::
    "window_env \<Rightarrow> u32 \<Rightarrow> window_state \<Rightarrow> window_state \<times> (u32 \<times> u32) option" where
  "kbo_read_foreign_waiver_window_cached env today st =
     (let st1 = (if ww_cached_today st \<noteq> today \<or> ww_cached_tick st = 0
                     \<or> we_now env - ww_cached_tick st > 2000
                 then st\<lparr>ww_cached_window := kbo_read_foreign_waiver_window env st,
                         ww_cached_today := today, ww_cached_tick := we_now env\<rparr>
                 else st)
      in (st1, ww_cached_window st1))"

definition kbo_is_foreign_waiver_negotiation_window_open ::
    "window_env \<Rightarrow> window_state \<Rightarrow> window_state \<times> bool" where
  "kbo_is_foreign_waiver_negotiation_window_open env st =
     (if \<not> we_enabled env then (st, False)
      else case we_today env of
          None \<Rightarrow> (st, False)
        | Some today \<Rightarrow>
            let today_serial = kbo_date_serial (today div 10000) ((today div 100) mod 100) (today mod 100);
                (st1, _) = kbo_advance_foreign_waiver_window env today today_serial st;
                (st2, window) = kbo_read_foreign_waiver_window_cached env today st1
            in case window of
                 None \<Rightarrow>
                   let open_now = (ww_end_serial st2 \<noteq> 0 \<and> today_serial \<ge> ww_start_serial st2
                                   \<and> today_serial < ww_end_serial st2);
                       closed = (\<not> open_now \<and> ww_end_serial st2 \<noteq> 0 \<and> today_serial > ww_end_serial st2
                                 \<and> ww_last_close_event_end st2 \<noteq> ww_end_serial st2)
                   in (if closed then st2\<lparr>ww_last_close_event_end := ww_end_serial st2\<rparr> else st2, open_now)
               | Some (start, end_date) \<Rightarrow> (st2, today \<ge> start \<and> today < end_date))"

definition kbo_current_foreign_waiver_window_dates :: "window_env \<Rightarrow> window_state \<Rightarrow> (u32 \<times> u32) option" where
  "kbo_current_foreign_waiver_window_dates env st =
     (case kbo_read_foreign_waiver_window env st of
        Some (start, end_date) \<Rightarrow> Some (start, end_date)
      | None \<Rightarrow>
          if ww_start_event_date st \<noteq> 0 \<and> ww_close_event_end_date st \<noteq> 0
          then Some (ww_start_event_date st, ww_close_event_end_date st) else None)"

end
