(* ===== verification/WaiverWindowProps.thy ===== *)
theory WaiverWindowProps
  imports WaiverWindow
begin

text \<open>When the negotiation window is open.\<close>

lemma detect_le: "kbo_detect_offseason_starts_event today league_id events \<le> today"
proof -
  have key: "k \<le> today" if "offseason_key today league_id e = Some k" for e k
    using that by (auto simp: offseason_key_def Let_def not_less split: option.splits if_splits)
  have "foldl (\<lambda>latest entry. case offseason_key today league_id entry of None \<Rightarrow> latest
      | Some k \<Rightarrow> if k > latest then k else latest) acc es \<le> today" if "acc \<le> today" for acc es
    using that key by (induction es arbitrary: acc) (auto split: option.splits)
  then show ?thesis by (simp add: kbo_detect_offseason_starts_event_def)
qed

text \<open>
  The marker is the latest day of a league event with that name that is not later than today.
\<close>

lemma detect_latest:
  assumes "events \<noteq> []" and "length events \<le> MAX_EVENT_VECTOR_COUNT"
  shows "\<forall>e \<in> set events. \<forall>k. offseason_key today league_id e = Some k \<longrightarrow>
      k \<le> kbo_detect_offseason_starts_event today league_id events"
proof -
  define f where "f = (\<lambda>latest entry. case offseason_key today league_id entry of None \<Rightarrow> latest
      | Some k \<Rightarrow> if k > latest then k else latest)"
  have step: "acc \<le> f acc e" "offseason_key today league_id e = Some k \<Longrightarrow> k \<le> f acc e" for acc e k
    by (auto simp: f_def split: option.split)
  have mono: "acc \<le> foldl f acc es" for acc es
    by (induction es arbitrary: acc) (auto intro: order_trans [OF step(1)])
  have "\<forall>e \<in> set es. \<forall>k. offseason_key today league_id e = Some k \<longrightarrow> k \<le> foldl f acc es" for acc es
    by (induction es arbitrary: acc) (auto intro: order_trans [OF step(2) mono])
  then show ?thesis using assms by (simp add: kbo_detect_offseason_starts_event_def f_def)
qed

lemma serial_of_unfold:
  "kbo_date_serial (d div 10000) ((d div 100) mod 100) (d mod 100) = serial_of d"
  by (simp add: serial_of_def)

lemma stored_after_write:
  "we_write env \<Longrightarrow> start \<noteq> 0 \<Longrightarrow> e \<noteq> 0 \<Longrightarrow>
     ww_stored (kbo_write_foreign_waiver_window env start e st) = Some (start, e)"
  by (simp add: kbo_write_foreign_waiver_window_def)

lemma set_window_fields [simp]:
  "ww_stored (set_window a b c d st) = ww_stored st"
  "ww_last_seen (set_window a b c d st) = ww_last_seen st"
  "ww_cached_today (set_window a b c d st) = ww_cached_today st"
  "ww_cached_tick (set_window a b c d st) = ww_cached_tick st"
  "ww_last_stale_marker (set_window a b c d st) = ww_last_stale_marker st"
  by (simp_all add: set_window_def)

lemma write_window_fields [simp]:
  "ww_cached_today (kbo_write_foreign_waiver_window env a b st) = ww_cached_today st"
  "ww_cached_tick (kbo_write_foreign_waiver_window env a b st) = ww_cached_tick st"
  "ww_last_seen (kbo_write_foreign_waiver_window env a b st) = ww_last_seen st"
  "ww_last_stale_marker (kbo_write_foreign_waiver_window env a b st) = ww_last_stale_marker st"
  by (simp_all add: kbo_write_foreign_waiver_window_def)

text \<open>The first evaluation of a day leaves the window of the marker in the database.\<close>

lemma advance_stores:
  assumes "ww_last_checked st \<noteq> today \<or> ww_last_checked_result st = 0"
    and "today \<noteq> 0" and "serial_of today \<noteq> 0" and "we_league_id env \<noteq> 0" and "we_write env"
    and m: "kbo_detect_offseason_starts_event today (we_league_id env) (we_events env) = m" "kbo_yyyymmdd_valid m"
    and e: "kbo_add_days_yyyymmdd m (we_window_days env) = e" "e \<noteq> 0"
    and stale: "ww_last_stale_marker st = m \<longrightarrow> ww_stored st = Some (m, e)"
  defines "st' \<equiv> fst (kbo_advance_foreign_waiver_window env today (serial_of today) st)"
  shows "ww_stored st' = Some (m, e) \<and> ww_cached_today st' = ww_cached_today st
     \<and> ww_cached_tick st' = ww_cached_tick st \<and> (ww_last_stale_marker st' = m \<longrightarrow> ww_stored st' = Some (m, e))"
proof -
  have nz: "m \<noteq> 0" "serial_of m \<noteq> 0" using valid_nonzero [OF m(2)] valid_serial_range [OF m(2)] by auto
  have le: "\<not> today < m" using detect_le [of today "we_league_id env" "we_events env"] unfolding m(1) by simp
  show ?thesis
    using assms(1-5) stale nz le e unfolding st'_def kbo_advance_foreign_waiver_window_def Let_def m(1)
      serial_of_unfold
    by (auto simp: stored_after_write kbo_open_foreign_waiver_window_def Let_def)
qed

text \<open>
  C20: on the first question of a day, with the event of the offseason at day \<open>m\<close>, the
  window is open exactly on the configured number of days from \<open>m\<close> on, whatever was opened,
  stored or missed before, and the window stored in the save database is that of \<open>m\<close>.  If \<open>m\<close>
  is noted as the last event that came too late, the stored window is already that of \<open>m\<close>, as
  the code leaves it when it notes one.
\<close>

theorem window_open_for_configured_days:
  assumes "we_enabled env" and "we_today env = Some today" and "kbo_yyyymmdd_valid today"
    and "we_league_id env \<noteq> 0" and "we_read env" and "we_write env"
    and "kbo_detect_offseason_starts_event today (we_league_id env) (we_events env) = m" and "kbo_yyyymmdd_valid m"
    and "kbo_yyyymmdd_add_days m (we_window_days env) \<noteq> 0"
    and "ww_last_checked st \<noteq> today \<or> ww_last_checked_result st = 0"
    and "ww_cached_today st \<noteq> today \<or> ww_cached_tick st = 0"
    and "ww_last_stale_marker st = m \<longrightarrow> ww_stored st = Some (m, kbo_yyyymmdd_add_days m (we_window_days env))"
  shows "case kbo_is_foreign_waiver_negotiation_window_open env st of (st', is_open) \<Rightarrow>
     (is_open \<longleftrightarrow> unat (serial_of m) \<le> unat (serial_of today)
        \<and> unat (serial_of today) < unat (serial_of m) + unat (we_window_days env))
     \<and> ww_stored st' = Some (m, kbo_yyyymmdd_add_days m (we_window_days env))"
proof -
  let ?e = "kbo_yyyymmdd_add_days m (we_window_days env)"
  have e: "kbo_add_days_yyyymmdd m (we_window_days env) = ?e" by (rule add_days_agree [OF assms(8,9)])
  have ve: "kbo_yyyymmdd_valid ?e" and se: "unat (serial_of ?e) = unat (serial_of m) + unat (we_window_days env)"
    using add_days_valid [OF assms(8,9)] add_days_serial_eq [OF assms(8,9)] by simp_all
  have t: "today \<noteq> 0" "serial_of today \<noteq> 0"
    using valid_nonzero [OF assms(3)] valid_serial_range [OF assms(3)] by auto
  define st1 where "st1 = fst (kbo_advance_foreign_waiver_window env today (serial_of today) st)"
  obtain opened where adv: "kbo_advance_foreign_waiver_window env today (serial_of today) st = (st1, opened)"
    unfolding st1_def by (cases "kbo_advance_foreign_waiver_window env today (serial_of today) st") simp
  note a = advance_stores [OF assms(10) t assms(4,6,7,8) e assms(9,12), folded st1_def]
  have "kbo_read_foreign_waiver_window env st1 = Some (m, ?e)"
    using a assms(5) valid_nonzero [OF assms(8)] assms(9) by (simp add: kbo_read_foreign_waiver_window_def)
  then obtain st2 where rd: "kbo_read_foreign_waiver_window_cached env today st1 = (st2, Some (m, ?e))"
      "ww_stored st2 = Some (m, ?e)"
    using a assms(11) by (simp add: kbo_read_foreign_waiver_window_cached_def Let_def)
  have "kbo_is_foreign_waiver_negotiation_window_open env st = (st2, m \<le> today \<and> today < ?e)"
    using assms(1,2)
    by (simp add: kbo_is_foreign_waiver_negotiation_window_open_def serial_of_unfold Let_def adv rd(1))
  moreover have "m \<le> today \<longleftrightarrow> unat (serial_of m) \<le> unat (serial_of today)"
    using serial_less_iff [OF assms(3,8)] by (simp only: word_order_unat linorder_not_less [symmetric])
  moreover have "today < ?e \<longleftrightarrow> unat (serial_of today) < unat (serial_of m) + unat (we_window_days env)"
    using serial_less_iff [OF assms(3) ve] by (simp only: word_order_unat se)
  ultimately show ?thesis using rd(2) by simp
qed

definition demo_window_env :: "u32 \<Rightarrow> window_env" where
  "demo_window_env today = \<lparr>we_enabled = True, we_today = Some today, we_league_id = 200, we_window_days = 20,
     we_events = [None, Some \<lparr>le_deleted = False, le_league_id = 200, le_year = 2025, le_month = 11, le_day = 5,
       le_name = Some ''Offseason starts''\<rparr>], we_read = True, we_write = True, we_now = 100\<rparr>"

theorem window_open_for_configured_days_witness:
  "snd (kbo_is_foreign_waiver_negotiation_window_open (demo_window_env 20251124) (initial_window None))
   \<and> \<not> snd (kbo_is_foreign_waiver_negotiation_window_open (demo_window_env 20251125) (initial_window None))"
proof -
  have "snd (kbo_is_foreign_waiver_negotiation_window_open (demo_window_env today) (initial_window None))
      \<longleftrightarrow> unat (serial_of 20251105) \<le> unat (serial_of today)
        \<and> unat (serial_of today) < unat (serial_of 20251105) + 20"
    if "kbo_yyyymmdd_valid today" "kbo_detect_offseason_starts_event today 200 (we_events (demo_window_env today)) = 20251105"
    for today
  proof -
    have m: "kbo_yyyymmdd_valid 20251105" by code_simp
    have s: "unat (serial_of 20251105) = 739560"
    proof -
      have "serial_of 20251105 = 739560" by code_simp
      then show ?thesis by simp
    qed
    have "kbo_yyyymmdd_add_days 20251105 (we_window_days (demo_window_env today)) \<noteq> 0"
      unfolding add_days_nonzero [OF m] days_to_year_2201 s by (simp add: demo_window_env_def)
    from window_open_for_configured_days [OF _ _ that(1) _ _ _ _ m this, of "initial_window None"] that
      valid_nonzero [OF that(1)]
    show ?thesis by (simp add: demo_window_env_def initial_window_def split: prod.splits)
  qed
  moreover have "kbo_yyyymmdd_valid 20251124" "kbo_yyyymmdd_valid 20251125"
      "kbo_detect_offseason_starts_event 20251124 200 (we_events (demo_window_env 20251124)) = 20251105"
      "kbo_detect_offseason_starts_event 20251125 200 (we_events (demo_window_env 20251125)) = 20251105"
    by code_simp+
  moreover have "serial_of 20251124 = 739579" "serial_of 20251125 = 739580" "serial_of 20251105 = 739560" by code_simp+
  ultimately show ?thesis by simp
qed

end
