(* ===== verification/CText.thy ===== *)
theory CText
  imports KboPrelude
begin

text \<open>
  Text the program reads and writes: numbers as \<open>strtoul\<close> reads them, the fields of CSV lines
  (\<open>native/src/core/csv/core_csv.c\<close> and the writer \<open>fa_filing_csv_write_helpers.c\<close>) and the
  literals of SQL statements (\<open>native/src/core/sql/escape/core_sql_escape.c\<close>).

  A pointer into a text is the text from there on; a function that moves a pointer returns
  the rest.  A buffer of \<open>n\<close> bytes holds at most \<open>n - 1\<close> characters (\<open>strbuf\<close>).
\<close>

section \<open>Numbers\<close>

text \<open>
  \<open>strtoul (text, &tail, 10)\<close> with \<open>w\<close>-bit results: white space, a sign, digits.  Without a
  digit the value is 0 and the tail is the whole text; a value that does not fit is the
  greatest one; a minus sign negates modulo \<open>2 ^ w\<close>.
\<close>

definition c_space :: "char \<Rightarrow> bool" where
  "c_space c \<longleftrightarrow> c = CHR '' '' \<or> (9 \<le> (of_char c :: nat) \<and> (of_char c :: nat) \<le> 13)"

definition split_sign :: "string \<Rightarrow> bool \<times> string" where
  "split_sign s = (if s \<noteq> [] \<and> hd s = CHR ''-'' then (True, tl s)
     else if s \<noteq> [] \<and> hd s = CHR ''+'' then (False, tl s) else (False, s))"

definition strtoul :: "nat \<Rightarrow> string \<Rightarrow> nat \<times> string" where
  "strtoul w text =
     (let (negative, s) = split_sign (dropWhile c_space text);
          digits = takeWhile is_digit s;
          v = digits_value digits
      in if digits = [] then (0, text)
         else (if v \<ge> 2 ^ w then 2 ^ w - 1 else if negative then (2 ^ w - v) mod 2 ^ w else v,
               dropWhile is_digit s))"

lemma split_sign_length: "length (snd (split_sign s)) \<le> length s"
  by (simp add: split_sign_def)

lemma strtoul_tail:
  "length (snd (strtoul w text)) \<le> length text"
  "snd (strtoul w text) \<noteq> text \<Longrightarrow> length (snd (strtoul w text)) < length text"
proof -
  define s where "s = snd (split_sign (dropWhile c_space text))"
  have s: "length s \<le> length text"
    unfolding s_def by (rule order.trans [OF split_sign_length length_dropWhile_le])
  have d: "length (takeWhile is_digit s) + length (dropWhile is_digit s) = length s"
    by (metis length_append takeWhile_dropWhile_id)
  have t: "snd (strtoul w text) = (if takeWhile is_digit s = [] then text else dropWhile is_digit s)"
    by (simp add: strtoul_def s_def Let_def split: prod.split)
  show "length (snd (strtoul w text)) \<le> length text" using t d s by (simp split: if_splits)
  show "snd (strtoul w text) \<noteq> text \<Longrightarrow> length (snd (strtoul w text)) < length text"
    using t d s by (cases "takeWhile is_digit s") simp_all
qed

lemma strtoul_progress: "strtoul w s = (v, tail) \<Longrightarrow> tail \<noteq> s \<Longrightarrow> length tail < length s"
  using strtoul_tail(2) [of w s] by simp

lemma strtoul_bound: "fst (strtoul w text) < 2 ^ w"
  by (simp add: strtoul_def Let_def split: prod.split)

text \<open>A number the program printed, followed by anything but a digit, is read back.\<close>

lemma takeWhile_digits:
  assumes "\<forall>c \<in> set s. is_digit c" and "rest = [] \<or> \<not> is_digit (hd rest)"
  shows "takeWhile is_digit (s @ rest) = s" and "dropWhile is_digit (s @ rest) = rest"
  using assms by (induction s) (auto simp: takeWhile_eq_Nil_iff dropWhile_eq_self_iff)

lemma digit_not_space: "is_digit c \<Longrightarrow> \<not> c_space c \<and> c \<noteq> CHR ''-'' \<and> c \<noteq> CHR ''+''"
  by (auto simp: is_digit_iff c_space_def)

lemma strtoul_show_nat:
  assumes "n < 2 ^ w" and "rest = [] \<or> \<not> is_digit (hd rest)"
  shows "strtoul w (show_nat n @ rest) = (n, rest)"
proof -
  obtain c s where c: "show_nat n = c # s" using show_nat_nonempty by (cases "show_nat n") blast+
  then have "is_digit c" using show_nat_digits [of n] by simp
  then have "split_sign (dropWhile c_space (show_nat n @ rest)) = (False, show_nat n @ rest)"
    using digit_not_space c by (simp add: split_sign_def)
  then show ?thesis
    using takeWhile_digits [OF show_nat_digits assms(2), of n] assms(1)
    by (simp add: strtoul_def)
qed

section \<open>Quoted text\<close>

text \<open>
  The body of a quoted text in which the quote is written twice: the text up to the closing
  quote and what follows it.
\<close>

function quoted_body :: "char \<Rightarrow> string \<Rightarrow> string \<times> string" where
  "quoted_body q [] = ([], [])"
| "quoted_body q (c # p) =
     (if c \<noteq> q then apfst ((#) c) (quoted_body q p)
      else if p \<noteq> [] \<and> hd p = q then apfst ((#) q) (quoted_body q (tl p))
      else ([], p))"
  by pat_completeness auto
termination by (relation "measure (\<lambda>(q, p). length p)") (auto simp: less_Suc_eq_le)

definition double_quotes :: "char \<Rightarrow> string \<Rightarrow> string" where
  "double_quotes q s = concat (map (\<lambda>c. if c = q then [q, q] else [c]) s)"

lemma quoted_body_doubled:
  "rest = [] \<or> hd rest \<noteq> q \<Longrightarrow> quoted_body q (double_quotes q s @ q # rest) = (s, rest)"
  by (induction s) (auto simp: double_quotes_def)

section \<open>CSV\<close>

definition csv_blank :: "char \<Rightarrow> bool" where
  "csv_blank c \<longleftrightarrow> c = CHR '' '' \<or> c = CHR 0x09 \<or> c = CHR 0x0d"

definition csv_white :: "char \<Rightarrow> bool" where
  "csv_white c \<longleftrightarrow> csv_blank c \<or> c = CHR 0x0a"

definition strip_right :: "(char \<Rightarrow> bool) \<Rightarrow> string \<Rightarrow> string" where
  "strip_right P s = rev (dropWhile P (rev s))"

definition kbo_csv_trim_token_in_place :: "string \<Rightarrow> string" where
  "kbo_csv_trim_token_in_place text = strip_right csv_white (dropWhile csv_white text)"

definition kbo_csv_parse_u32_text :: "string \<Rightarrow> u32" where
  "kbo_csv_parse_u32_text text =
     (let s = dropWhile csv_white text;
          (v, tail) = strtoul 32 s
      in if s = [] then 0 else if tail = s \<or> v > 4294967295 then 0 else of_nat v)"

definition field_stop :: "char \<Rightarrow> bool" where
  "field_stop c \<longleftrightarrow> c = CHR '','' \<or> c = CHR 0x0a"

definition skip_comma :: "string \<Rightarrow> string" where
  "skip_comma p = (if p \<noteq> [] \<and> hd p = CHR '','' then tl p else p)"

definition kbo_csv_parse_field :: "nat \<Rightarrow> string \<Rightarrow> (string \<times> string) option" where
  "kbo_csv_parse_field out_size cursor =
     (if out_size = 0 then None
      else
        let p = dropWhile csv_blank cursor
        in if p \<noteq> [] \<and> hd p = CHR 0x22 then
             (let (body, p1) = quoted_body (CHR 0x22) (tl p)
              in Some (strbuf out_size body, skip_comma (dropWhile (\<lambda>c. \<not> field_stop c) p1)))
           else Some (strip_right csv_blank (strbuf out_size (takeWhile (\<lambda>c. \<not> field_stop c) p)),
                      skip_comma (dropWhile (\<lambda>c. \<not> field_stop c) p)))"

definition kbo_csv_parse_const_field :: "nat \<Rightarrow> string \<Rightarrow> (string \<times> string) option" where
  "kbo_csv_parse_const_field out_size cursor = kbo_csv_parse_field out_size cursor"

definition kbo_csv_parse_u32_field :: "string \<Rightarrow> (u32 \<times> string) option" where
  "kbo_csv_parse_u32_field cursor =
     (let p = dropWhile (\<lambda>c. c = CHR '' '' \<or> c = CHR 0x09 \<or> c = CHR '','') cursor;
          v = digits_value (takeWhile is_digit p)
      in if p = [] \<or> \<not> is_digit (hd p) then None
         else if v > 4294967295 then None
         else Some (of_nat v, dropWhile is_digit p))"

fun kbo_csv_read_line_fields_internal :: "nat \<Rightarrow> nat \<Rightarrow> bool \<Rightarrow> string \<Rightarrow> string list" where
  "kbo_csv_read_line_fields_internal field_size 0 trim cursor = []"
| "kbo_csv_read_line_fields_internal field_size (Suc max_fields) trim cursor =
     (if cursor = [] \<or> hd cursor = CHR 0x0d \<or> hd cursor = CHR 0x0a then []
      else case kbo_csv_parse_const_field field_size cursor of
          None \<Rightarrow> []
        | Some (field, rest) \<Rightarrow>
            (if trim then kbo_csv_trim_token_in_place field else field)
            # kbo_csv_read_line_fields_internal field_size max_fields trim rest)"

definition kbo_csv_read_line_fields :: "nat \<Rightarrow> nat \<Rightarrow> string \<Rightarrow> string list" where
  "kbo_csv_read_line_fields field_size max_fields line =
     kbo_csv_read_line_fields_internal field_size max_fields False line"

definition kbo_csv_read_trimmed_line_fields :: "nat \<Rightarrow> nat \<Rightarrow> string \<Rightarrow> string list" where
  "kbo_csv_read_trimmed_line_fields field_size max_fields line =
     kbo_csv_read_line_fields_internal field_size max_fields True line"

fun line_field :: "nat \<Rightarrow> string \<Rightarrow> string option" where
  "line_field target cursor =
     (if cursor = [] \<or> hd cursor = CHR 0x0d \<or> hd cursor = CHR 0x0a then None
      else case kbo_csv_parse_const_field 512 cursor of
          None \<Rightarrow> None
        | Some (field, rest) \<Rightarrow>
            (case target of 0 \<Rightarrow> Some (kbo_csv_trim_token_in_place field)
             | Suc t \<Rightarrow> line_field t rest))"

declare line_field.simps [simp del]

definition kbo_csv_copy_line_field :: "string \<Rightarrow> int \<Rightarrow> nat \<Rightarrow> string option" where
  "kbo_csv_copy_line_field line target_index out_size =
     (if target_index < 0 \<or> out_size = 0 then None
      else map_option (strbuf out_size) (line_field (nat target_index) line))"

text \<open>The writer of a text column.\<close>

definition kbo_fa_filing_write_csv_text :: "string \<Rightarrow> string" where
  "kbo_fa_filing_write_csv_text text = CHR 0x22 # double_quotes (CHR 0x22) text @ [CHR 0x22]"

section \<open>SQL literals\<close>

definition kbo_sql_should_keep_control :: "char \<Rightarrow> bool \<Rightarrow> bool" where
  "kbo_sql_should_keep_control ch preserve_ootp_controls =
     (if (of_char ch :: nat) \<ge> 32 then True
      else if ch = CHR 0x09 then True
      else preserve_ootp_controls \<and> (ch = CHR 0x0a \<or> ch = CHR 0x0d \<or> ch = CHR 0x01))"

text \<open>The loop: \<open>used\<close> characters are in the buffer.  \<open>None\<close> means that it is full.\<close>

fun escape_loop :: "bool \<Rightarrow> nat \<Rightarrow> nat \<Rightarrow> string \<Rightarrow> string option" where
  "escape_loop preserve out_size used [] = Some []"
| "escape_loop preserve out_size used (p # ps) =
     (if \<not> kbo_sql_should_keep_control p preserve then escape_loop preserve out_size used ps
      else
        let needed = (if p = CHR 0x27 then 2 else 1)
        in if used + needed \<ge> out_size then None
           else map_option ((@) (if p = CHR 0x27 then [CHR 0x27, CHR 0x27] else [p]))
                  (escape_loop preserve out_size (used + needed) ps))"

definition kbo_sql_escape_literal_core :: "nat \<Rightarrow> string option \<Rightarrow> bool \<Rightarrow> string option" where
  "kbo_sql_escape_literal_core out_size text preserve =
     (if out_size = 0 then None
      else case text of None \<Rightarrow> Some [] | Some s \<Rightarrow> escape_loop preserve out_size 0 s)"

definition kbo_sql_escape_literal :: "nat \<Rightarrow> string option \<Rightarrow> string option" where
  "kbo_sql_escape_literal out_size text = kbo_sql_escape_literal_core out_size text False"

definition kbo_sql_escape_literal_preserve_ootp_controls :: "nat \<Rightarrow> string option \<Rightarrow> string option" where
  "kbo_sql_escape_literal_preserve_ootp_controls out_size text = kbo_sql_escape_literal_core out_size text True"

section \<open>Lines of quoted fields\<close>

definition csv_line :: "string list \<Rightarrow> string" where
  "csv_line fields = concat (map (\<lambda>f. kbo_fa_filing_write_csv_text f @ '','') (butlast fields))
     @ kbo_fa_filing_write_csv_text (last fields)"

lemma parse_written_field:
  assumes "length f < out_size" and "rest = [] \<or> field_stop (hd rest)"
  shows "kbo_csv_parse_field out_size (kbo_fa_filing_write_csv_text f @ rest) = Some (f, skip_comma rest)"
proof -
  have "rest = [] \<or> hd rest \<noteq> CHR 0x22" using assms(2) by (auto simp: field_stop_def)
  from quoted_body_doubled [OF this]
  have "quoted_body (CHR 0x22) (double_quotes (CHR 0x22) f @ CHR 0x22 # rest) = (f, rest)" .
  moreover have "dropWhile (\<lambda>c. \<not> field_stop c) rest = rest"
    using assms(2) by (auto simp: dropWhile_eq_self_iff)
  ultimately show ?thesis
    using assms(1) by (auto simp: kbo_csv_parse_field_def kbo_fa_filing_write_csv_text_def csv_blank_def)
qed

lemma escape_loop_Some:
  assumes "escape_loop preserve out_size used s = Some t" and "used < out_size"
  shows "t = double_quotes (CHR 0x27) (filter (\<lambda>c. kbo_sql_should_keep_control c preserve) s)
     \<and> used + length t < out_size"
  using assms
proof (induction s arbitrary: used t)
  case Nil
  then show ?case by (simp add: double_quotes_def)
next
  case (Cons p ps)
  show ?case
  proof (cases "kbo_sql_should_keep_control p preserve")
    case False
    then show ?thesis using Cons by simp
  next
    case True
    let ?n = "if p = CHR 0x27 then 2 else 1 :: nat"
    obtain t' where t: "escape_loop preserve out_size (used + ?n) ps = Some t'" "used + ?n < out_size"
        "t = (if p = CHR 0x27 then [CHR 0x27, CHR 0x27] else [p]) @ t'"
      using Cons.prems(1) True by (auto simp: Let_def not_le split: if_splits)
    show ?thesis using Cons.IH [OF t(1,2)] t(3) True by (auto simp: double_quotes_def)
  qed
qed

lemma escape_loop_None:
  assumes "used < out_size"
  shows "escape_loop preserve out_size used s = None \<longleftrightarrow>
     out_size \<le> used + length (double_quotes (CHR 0x27) (filter (\<lambda>c. kbo_sql_should_keep_control c preserve) s))"
  using assms by (induction s arbitrary: used) (auto simp: double_quotes_def Let_def not_le)

end
