(* ===== verification/CTextProps.thy ===== *)
theory CTextProps
  imports CText
begin

text \<open>What is written as CSV or put into an SQL statement is read back as it was.\<close>

lemma parse_written:
  assumes "length f < out_size" and "rest = [] \<or> hd rest \<noteq> CHR 0x22"
  shows "kbo_csv_parse_field out_size (kbo_fa_filing_write_csv_text f @ rest)
    = Some (f, skip_comma (dropWhile (\<lambda>c. \<not> field_stop c) rest))"
  using assms quoted_body_doubled [OF assms(2), of f]
  by (simp add: kbo_csv_parse_field_def kbo_fa_filing_write_csv_text_def csv_blank_def)

lemma written_starts: "kbo_fa_filing_write_csv_text f @ rest \<noteq> []"
    "hd (kbo_fa_filing_write_csv_text f @ rest) = CHR 0x22"
  by (simp_all add: kbo_fa_filing_write_csv_text_def)

lemma csv_line_Cons:
  "csv_line (f # fields) = kbo_fa_filing_write_csv_text f @ (if fields = [] then [] else '','' @ csv_line fields)"
  by (simp add: csv_line_def)

lemma csv_line_starts: "fields \<noteq> [] \<Longrightarrow> \<exists>s. csv_line fields = CHR 0x22 # s"
  by (cases fields) (simp_all add: csv_line_Cons kbo_fa_filing_write_csv_text_def)

text \<open>
  C29: a line of text columns written by the program, with any of the three line ends, is read back
  as the columns that were written, whatever characters they contain, if each fits its
  buffer and there are enough buffers.  (\<open>csv_line\<close> joins columns of the text writer, which
  no code of the program calls yet; the readers that trim their fields are another function.)
\<close>

theorem csv_line_roundtrip:
  assumes "fields \<noteq> []" and "length fields \<le> max_fields" and "\<forall>f \<in> set fields. length f < field_size"
    and "line_end = [] \<or> line_end = [CHR 0x0a] \<or> line_end = [CHR 0x0d, CHR 0x0a]"
  shows "kbo_csv_read_line_fields field_size max_fields (csv_line fields @ line_end) = fields"
proof -
  have last: "kbo_csv_read_line_fields_internal field_size n False
      (skip_comma (dropWhile (\<lambda>c. \<not> field_stop c) line_end)) = []" for n
    using assms(4) by (cases n) (auto simp: skip_comma_def field_stop_def)
  have lend: "line_end = [] \<or> hd line_end \<noteq> CHR 0x22" using assms(4) by auto
  show ?thesis
    using assms(1-3) unfolding kbo_csv_read_line_fields_def
  proof (induction fields arbitrary: max_fields)
    case (Cons f fields)
    obtain n where n: "max_fields = Suc n" using Cons.prems by (cases max_fields) auto
    show ?case
    proof (cases "fields = []")
      case True
      then show ?thesis
        using Cons.prems n lend last written_starts [of f line_end]
        by (simp add: csv_line_Cons kbo_csv_parse_const_field_def parse_written)
    next
      case False
      let ?rest = "CHR '','' # csv_line fields @ line_end"
      have "skip_comma (dropWhile (\<lambda>c. \<not> field_stop c) ?rest) = csv_line fields @ line_end"
        by (simp add: field_stop_def skip_comma_def)
      then show ?thesis
        using Cons n False written_starts [of f ?rest] parse_written [of f field_size ?rest]
        by (simp add: csv_line_Cons kbo_csv_parse_const_field_def)
    qed
  qed simp
qed

theorem csv_line_roundtrip_witness:
  "kbo_csv_read_line_fields 64 4
     (csv_line [''a,b'', ''c'' @ [CHR 0x22] @ ''d'', []] @ [CHR 0x0d, CHR 0x0a])
   = [''a,b'', ''c'' @ [CHR 0x22] @ ''d'', []]"
  by (rule csv_line_roundtrip) simp_all

text \<open>
  C31: an escaped text ends where the program ends it: behind the opening quote of an SQL
  literal the database reads the text without its dropped control characters, and the
  literal ends at the quote the program writes.  The text is refused exactly when its
  escaped form does not fit the buffer.
\<close>

theorem sql_literal_is_closed:
  fixes out_size :: nat and s rest :: string and preserve :: bool
  assumes "0 < out_size" and "rest = [] \<or> hd rest \<noteq> CHR 0x27"
  defines "kept \<equiv> filter (\<lambda>c. kbo_sql_should_keep_control c preserve) s"
  shows "case kbo_sql_escape_literal_core out_size (Some s) preserve of
      None \<Rightarrow> out_size \<le> length (double_quotes (CHR 0x27) kept)
    | Some t \<Rightarrow> length t < out_size \<and> quoted_body (CHR 0x27) (t @ CHR 0x27 # rest) = (kept, rest)"
proof (cases "escape_loop preserve out_size 0 s")
  case None
  then show ?thesis
    using assms(1) escape_loop_None [OF assms(1), of preserve s]
    by (simp add: kbo_sql_escape_literal_core_def kept_def)
next
  case (Some t)
  note e = escape_loop_Some [OF Some assms(1), unfolded add_0]
  have t: "t = double_quotes (CHR 0x27) kept" unfolding kept_def by (rule conjunct1 [OF e])
  note l = conjunct2 [OF e]
  have "quoted_body (CHR 0x27) (t @ CHR 0x27 # rest) = (kept, rest)"
    unfolding t by (rule quoted_body_doubled [OF assms(2)])
  then show ?thesis using Some l assms(1) by (simp add: kbo_sql_escape_literal_core_def)
qed

theorem sql_literal_is_closed_witness:
  "quoted_body (CHR 0x27) (the (kbo_sql_escape_literal_core 32 (Some (''O'' @ [CHR 0x27] @ ''Neil'')) False) @ [CHR 0x27, CHR '')''])
   = (''O'' @ [CHR 0x27] @ ''Neil'', '')'')"
  using sql_literal_is_closed [of 32 "'')''" False "''O'' @ [CHR 0x27] @ ''Neil''"]
  by (simp add: kbo_sql_escape_literal_core_def kbo_sql_should_keep_control_def)

end
