(* ===== verification/JsonText.thy ===== *)
theory JsonText
  imports CText
begin

text \<open>
  JSON: the values of the configuration files (\<open>native/src/core/core_flags/json/json_bool_parser.c\<close>),
  string literals (\<open>json_string_decode.c\<close>), and the writer of string literals in
  \<open>native/src/team/independent_acquisition/ai/io/independent_acquisition_request_json.c\<close>.

  The tokenizer is the library jsmn, a parameter of the functions that call it: it maps a
  text and a number of tokens to the tokens it fills, or to \<open>None\<close> for an error.  A pair of
  pointers into a text is the text between them.
\<close>

unbundle bit_operations_syntax

section \<open>Tokens\<close>

datatype json_kind = JUndefined | JObject | JArray | JString | JPrimitive

record json_token =
  tk_kind :: json_kind
  tk_start :: int
  tk_stop :: int
  tk_size :: int

type_synonym jsmn = "string \<Rightarrow> nat \<Rightarrow> json_token list option"

definition KBO_JSON_MAX_TOKENS :: nat where "KBO_JSON_MAX_TOKENS = 512"
definition FLAGS_JSON_MAX_BYTES :: nat where "FLAGS_JSON_MAX_BYTES = 64 * 1024"

definition between :: "string \<Rightarrow> int \<Rightarrow> int \<Rightarrow> string" where
  "between json a b = take (nat (b - a)) (drop (nat a) json)"

definition token_ok :: "json_token \<Rightarrow> bool" where
  "token_ok t \<longleftrightarrow> 0 \<le> tk_start t \<and> tk_start t \<le> tk_stop t"

section \<open>Characters\<close>

definition json_ws :: "char \<Rightarrow> bool" where
  "json_ws c \<longleftrightarrow> c = CHR '' '' \<or> c = CHR 0x09 \<or> c = CHR 0x0d \<or> c = CHR 0x0a"

definition kbo_json_skip_ws :: "string \<Rightarrow> string" where
  "kbo_json_skip_ws p = dropWhile json_ws p"

fun kbo_text_equals_ignore_case_n :: "string \<Rightarrow> string \<Rightarrow> bool" where
  "kbo_text_equals_ignore_case_n [] expected = (expected = [])"
| "kbo_text_equals_ignore_case_n (c # text) [] = False"
| "kbo_text_equals_ignore_case_n (c # text) (e # expected) =
     (if ascii_fold c \<noteq> ascii_fold e then False else kbo_text_equals_ignore_case_n text expected)"

lemma text_equals_ignore_case [simp]: "kbo_text_equals_ignore_case_n text expected = stricmp_equal text expected"
  by (induction "text" expected rule: kbo_text_equals_ignore_case_n.induct) (auto simp: stricmp_equal_def)

text \<open>The position of the closing quote, from the first character behind the opening one.\<close>

fun string_end :: "nat \<Rightarrow> string \<Rightarrow> nat option" where
  "string_end i [] = None"
| "string_end i [c] = (if c = CHR 0x5c then None else if c = CHR 0x22 then Some i else None)"
| "string_end i (c # d # p) =
     (if c = CHR 0x5c then string_end (i + 2) p
      else if c = CHR 0x22 then Some i
      else string_end (i + 1) (d # p))"

definition kbo_json_find_string_end :: "string \<Rightarrow> nat option" where
  "kbo_json_find_string_end quote =
     (if quote = [] \<or> hd quote \<noteq> CHR 0x22 then None else string_end 1 (tl quote))"

section \<open>Scalar values\<close>

definition kbo_json_bool_text_value :: "string \<Rightarrow> int option" where
  "kbo_json_bool_text_value text =
     (let t = strip_right json_ws (dropWhile json_ws text)
      in if list_ex (kbo_text_equals_ignore_case_n t) [''1'', ''true'', ''yes'', ''on'', ''enabled''] then Some 1
         else if list_ex (kbo_text_equals_ignore_case_n t) [''0'', ''false'', ''no'', ''off'', ''disabled''] then Some 0
         else None)"

definition kbo_json_int_text_value :: "string \<Rightarrow> int option" where
  "kbo_json_int_text_value text =
     (let s = dropWhile json_ws text;
          (negative, d) = split_sign s;
          v = digits_value (takeWhile is_digit d)
      in if s = [] then None
         else if d = [] \<or> \<not> is_digit (hd d) then None
         else if v > 2147483647 then None
         else if dropWhile json_ws (dropWhile is_digit d) \<noteq> [] then None
         else Some (if negative then - int v else int v))"

definition kbo_json_bool_token_value :: "string \<Rightarrow> json_token \<Rightarrow> int option" where
  "kbo_json_bool_token_value json token =
     (if \<not> token_ok token then None
      else
        let t = between json (tk_start token) (tk_stop token)
        in if tk_kind token = JString then kbo_json_bool_text_value t
           else if tk_kind token = JPrimitive then
             (if kbo_text_equals_ignore_case_n t ''true'' then Some 1
              else if kbo_text_equals_ignore_case_n t ''false'' then Some 0
              else if t \<noteq> [] \<and> (is_digit (hd t) \<or> hd t = CHR ''-'' \<or> hd t = CHR ''+'') then
                (let p = snd (split_sign t)
                 in if p \<noteq> [] \<and> list_all is_digit p
                    then Some (if list_ex (\<lambda>c. c \<noteq> CHR ''0'') p then 1 else 0)
                    else None)
              else None)
           else None)"

definition kbo_json_int_token_value :: "string \<Rightarrow> json_token \<Rightarrow> int option" where
  "kbo_json_int_token_value json token =
     (if \<not> token_ok token then None
      else if tk_kind token \<noteq> JString \<and> tk_kind token \<noteq> JPrimitive then None
      else kbo_json_int_text_value (between json (tk_start token) (tk_stop token)))"

definition value_at :: "jsmn \<Rightarrow> (string \<Rightarrow> json_token \<Rightarrow> int option) \<Rightarrow> string \<Rightarrow> int option" where
  "value_at jsmn decode text =
     (let value = kbo_json_skip_ws text
      in if value = [] then None
         else case jsmn value 1 of
             Some [token] \<Rightarrow> decode value token
           | _ \<Rightarrow> None)"

definition kbo_json_bool_value_at :: "jsmn \<Rightarrow> string \<Rightarrow> int option" where
  "kbo_json_bool_value_at jsmn text = value_at jsmn kbo_json_bool_token_value text"

definition kbo_json_int_value_at :: "jsmn \<Rightarrow> string \<Rightarrow> int option" where
  "kbo_json_int_value_at jsmn text = value_at jsmn kbo_json_int_token_value text"

section \<open>Looking up a key\<close>

definition kbo_token_equals_key :: "string \<Rightarrow> json_token \<Rightarrow> string \<Rightarrow> bool" where
  "kbo_token_equals_key json token key \<longleftrightarrow>
     tk_kind token = JString \<and> token_ok token \<and> between json (tk_start token) (tk_stop token) = key"

text \<open>A byte order mark in front of the text is skipped and the positions are shifted back.\<close>

definition byte_order_mark :: "string \<Rightarrow> bool" where
  "byte_order_mark json \<longleftrightarrow> take 3 json = [CHR 0xEF, CHR 0xBB, CHR 0xBF]"

definition shift_token :: "json_token \<Rightarrow> json_token" where
  "shift_token t = t\<lparr>tk_start := (if tk_start t \<ge> 0 then tk_start t + 3 else tk_start t),
                     tk_stop := (if tk_stop t \<ge> 0 then tk_stop t + 3 else tk_stop t)\<rparr>"

function kbo_parse_json_tokens :: "jsmn \<Rightarrow> nat \<Rightarrow> string \<Rightarrow> json_token list option" where
  "kbo_parse_json_tokens jsmn token_count json =
     (if json = [] \<or> length json > FLAGS_JSON_MAX_BYTES then None
      else if byte_order_mark json then
        map_option (map shift_token) (kbo_parse_json_tokens jsmn token_count (drop 3 json))
      else case jsmn json token_count of
          None \<Rightarrow> None
        | Some tokens \<Rightarrow> if tokens = [] \<or> tk_kind (hd tokens) \<noteq> JObject then None else Some tokens)"
  by pat_completeness auto
termination by (relation "measure (\<lambda>(j, n, json). length json)") auto

declare kbo_parse_json_tokens.simps [simp del]

definition token_inside :: "json_token \<Rightarrow> json_token \<Rightarrow> bool" where
  "token_inside outer t \<longleftrightarrow> tk_start t \<ge> tk_start outer \<and> tk_stop t \<le> tk_stop outer"

definition kbo_json_token_subtree_end :: "json_token list \<Rightarrow> nat \<Rightarrow> nat" where
  "kbo_json_token_subtree_end tokens index =
     (if index \<ge> length tokens then index + 1
      else if \<not> token_ok (tokens ! index) then index + 1
      else index + 1 + length (takeWhile (token_inside (tokens ! index)) (drop (index + 1) tokens)))"

lemma subtree_end_greater: "index < kbo_json_token_subtree_end tokens index"
  by (simp add: kbo_json_token_subtree_end_def)

text \<open>The keys of the outer object, from the token \<open>cursor\<close> on.\<close>

function key_loop :: "string \<Rightarrow> string \<Rightarrow> json_token list \<Rightarrow> nat \<Rightarrow> json_token option" where
  "key_loop json key tokens cursor =
     (if cursor + 1 < length tokens \<and> token_inside (tokens ! 0) (tokens ! cursor) then
        (if tk_kind (tokens ! cursor) = JString \<and> kbo_token_equals_key json (tokens ! cursor) key
         then Some (tokens ! (cursor + 1))
         else key_loop json key tokens (kbo_json_token_subtree_end tokens (cursor + 1)))
      else None)"
  by pat_completeness auto
termination
  by (relation "measure (\<lambda>(json, key, tokens, cursor). length tokens - cursor)")
    (auto intro!: diff_less_mono2 intro: less_trans [OF _ subtree_end_greater])

declare key_loop.simps [simp del]

definition kbo_find_value_token_in_json :: "jsmn \<Rightarrow> string \<Rightarrow> string \<Rightarrow> json_token option" where
  "kbo_find_value_token_in_json jsmn json key =
     (case kbo_parse_json_tokens jsmn KBO_JSON_MAX_TOKENS json of
        None \<Rightarrow> None
      | Some tokens \<Rightarrow>
          if length tokens < 3 then None
          else if tk_kind (tokens ! 0) \<noteq> JObject \<or> tk_size (tokens ! 0) \<le> 0 then None
          else key_loop json key tokens 1)"

definition kbo_find_flag_value_in_json :: "jsmn \<Rightarrow> string \<Rightarrow> string \<Rightarrow> int option" where
  "kbo_find_flag_value_in_json jsmn json key =
     (case kbo_find_value_token_in_json jsmn json key of
        None \<Rightarrow> None | Some token \<Rightarrow> kbo_json_bool_token_value json token)"

definition kbo_find_int_value_in_json :: "jsmn \<Rightarrow> string \<Rightarrow> string \<Rightarrow> int option" where
  "kbo_find_int_value_in_json jsmn json key =
     (case kbo_find_value_token_in_json jsmn json key of
        None \<Rightarrow> None | Some token \<Rightarrow> kbo_json_int_token_value json token)"

definition kbo_json_token_span_value :: "string \<Rightarrow> json_token \<Rightarrow> string option" where
  "kbo_json_token_span_value json token =
     (if \<not> token_ok token then None
      else if tk_kind token = JString then Some (between json (tk_start token - 1) (tk_stop token + 1))
      else Some (between json (tk_start token) (tk_stop token)))"

definition kbo_find_json_value_span :: "jsmn \<Rightarrow> string \<Rightarrow> string \<Rightarrow> string option" where
  "kbo_find_json_value_span jsmn json key =
     (case kbo_find_value_token_in_json jsmn json key of
        None \<Rightarrow> None | Some token \<Rightarrow> kbo_json_token_span_value json token)"

section \<open>String literals\<close>

definition kbo_json_hex_value :: "char \<Rightarrow> nat option" where
  "kbo_json_hex_value ch =
     (if is_digit ch then Some (of_char ch - 48)
      else if CHR ''a'' \<le> ch \<and> ch \<le> CHR ''f'' then Some (of_char ch - 97 + 10)
      else if CHR ''A'' \<le> ch \<and> ch \<le> CHR ''F'' then Some (of_char ch - 65 + 10)
      else None)"

definition hex_text :: "string \<Rightarrow> nat option" where
  "hex_text s = foldl (\<lambda>v c. case (v, kbo_json_hex_value c) of
       (Some v, Some h) \<Rightarrow> Some (v * 16 + h) | _ \<Rightarrow> None) (Some 0) s"

text \<open>The bytes of a code point, which has at most 16 bits here.\<close>

definition kbo_json_put_utf8 :: "nat \<Rightarrow> string" where
  "kbo_json_put_utf8 cp0 =
     (let cp = (if cp0 = 0 then of_char (CHR ''?'') else cp0)
      in if cp \<le> 0x7F then [char_of cp]
         else if cp \<le> 0x7FF then [char_of (0xC0 + cp div 64), char_of (0x80 + cp mod 64)]
         else [char_of (0xE0 + cp div 4096), char_of (0x80 + cp div 64 mod 64), char_of (0x80 + cp mod 64)])"

definition escape_value :: "char \<Rightarrow> char option" where
  "escape_value e =
     (if e = CHR 0x22 \<or> e = CHR 0x5c \<or> e = CHR ''/'' then Some e
      else if e = CHR ''b'' then Some (CHR 0x08)
      else if e = CHR ''f'' then Some (CHR 0x0c)
      else if e = CHR ''n'' then Some (CHR 0x0a)
      else if e = CHR ''r'' then Some (CHR 0x0d)
      else if e = CHR ''t'' then Some (CHR 0x09)
      else None)"

text \<open>The body of a literal, with room for \<open>remaining\<close> bytes.\<close>

definition put :: "nat \<Rightarrow> string \<Rightarrow> string option \<Rightarrow> string option" where
  "put remaining bytes rest = (if length bytes > remaining then None else map_option ((@) bytes) rest)"

function json_body :: "nat \<Rightarrow> string \<Rightarrow> string option" where
  "json_body remaining [] = Some []"
| "json_body remaining (c # p) =
     (if c \<noteq> CHR 0x5c then put remaining [c] (json_body (remaining - 1) p)
      else if p = [] then None
      else case escape_value (hd p) of
          Some ch \<Rightarrow> put remaining [ch] (json_body (remaining - 1) (tl p))
        | None \<Rightarrow>
            if hd p = CHR ''u'' then
              (if length p < 5 then None
               else case hex_text (take 4 (tl p)) of
                   None \<Rightarrow> None
                 | Some cp \<Rightarrow>
                     put remaining (kbo_json_put_utf8 cp)
                       (json_body (remaining - length (kbo_json_put_utf8 cp)) (drop 4 (tl p))))
            else None)"
  by pat_completeness auto
termination by (relation "measure (\<lambda>(n, s). length s)") (auto simp: less_Suc_eq_le)

definition kbo_json_string_value_at :: "string \<Rightarrow> nat \<Rightarrow> string option" where
  "kbo_json_string_value_at text out_size =
     (let value = kbo_json_skip_ws text
      in if out_size = 0 then None
         else if value = [] \<or> hd value \<noteq> CHR 0x22 then None
         else case kbo_json_find_string_end value of
             None \<Rightarrow> None
           | Some stop \<Rightarrow> json_body (out_size - 1) (take (stop - 1) (tl value)))"

definition kbo_find_string_value_in_json :: "jsmn \<Rightarrow> string \<Rightarrow> string \<Rightarrow> nat \<Rightarrow> string option" where
  "kbo_find_string_value_in_json jsmn json key out_size =
     (case kbo_find_json_value_span jsmn json key of
        None \<Rightarrow> None | Some span \<Rightarrow> kbo_json_string_value_at span out_size)"

section \<open>Writing a literal\<close>

definition hex_digit :: "nat \<Rightarrow> char" where
  "hex_digit d = (if d < 10 then char_of (48 + d) else char_of (87 + d))"

text \<open>The \<open>%04x\<close> conversion of a byte.\<close>

definition hex4 :: "nat \<Rightarrow> string" where
  "hex4 n = [CHR ''0'', CHR ''0'', hex_digit (n div 16), hex_digit (n mod 16)]"

text \<open>The loop, with \<open>used\<close> bytes in the buffer already.\<close>

fun append_escaped :: "nat \<Rightarrow> nat \<Rightarrow> string \<Rightarrow> string" where
  "append_escaped out_size used [] = []"
| "append_escaped out_size used (ch # p) =
     (if used + 2 \<ge> out_size then []
      else if ch = CHR 0x22 \<or> ch = CHR 0x5c then
        (if used + 3 \<ge> out_size then [] else CHR 0x5c # ch # append_escaped out_size (used + 2) p)
      else if ch = CHR 0x0d then
        (if used + 3 \<ge> out_size then [] else CHR 0x5c # CHR ''r'' # append_escaped out_size (used + 2) p)
      else if ch = CHR 0x0a then
        (if used + 3 \<ge> out_size then [] else CHR 0x5c # CHR ''n'' # append_escaped out_size (used + 2) p)
      else if (of_char ch :: nat) < 0x20 then
        (if used + 7 \<ge> out_size then []
         else CHR 0x5c # CHR ''u'' # hex4 (of_char ch) @ append_escaped out_size (used + 6) p)
      else ch # append_escaped out_size (used + 1) p)"

definition kbo_independent_acquisition_json_append_escaped :: "string \<Rightarrow> nat \<Rightarrow> string option \<Rightarrow> string" where
  "kbo_independent_acquisition_json_append_escaped out out_size text =
     (if out_size = 0 then out
      else out @ append_escaped out_size (length out) (case text of None \<Rightarrow> [] | Some t \<Rightarrow> t))"

end
