(* ===== verification/JsonTextProps.thy ===== *)
theory JsonTextProps
  imports JsonText
begin

text \<open>JSON numbers and string literals are read back as they were written.\<close>

section \<open>Numbers\<close>

lemma json_ws_not: "is_digit c \<Longrightarrow> \<not> json_ws c" "json_ws c \<Longrightarrow> \<not> is_digit c" "\<not> json_ws (CHR ''-'')"
  by (auto simp: json_ws_def is_digit_iff)

definition int_text :: "int \<Rightarrow> string" where
  "int_text v = (if v < 0 then [CHR ''-''] else []) @ show_nat (nat \<bar>v\<bar>)"

lemma split_sign_int_text:
  "split_sign (int_text v @ rest) = (v < 0, show_nat (nat \<bar>v\<bar>) @ rest)"
proof -
  obtain c s where c: "show_nat (nat \<bar>v\<bar>) = c # s"
    using show_nat_nonempty by (cases "show_nat (nat \<bar>v\<bar>)") blast+
  then have "is_digit c" using show_nat_digits [of "nat \<bar>v\<bar>"] by simp
  then show ?thesis using c digit_not_space [of c] by (simp add: int_text_def split_sign_def)
qed

lemma int_text_starts: "int_text v \<noteq> [] \<and> \<not> json_ws (hd (int_text v))"
proof -
  obtain c s where c: "show_nat (nat \<bar>v\<bar>) = c # s"
    using show_nat_nonempty by (cases "show_nat (nat \<bar>v\<bar>)") blast+
  then have "is_digit c" using show_nat_digits [of "nat \<bar>v\<bar>"] by simp
  then show ?thesis using c json_ws_not by (simp add: int_text_def)
qed

text \<open>
  A number between white space is read as its value, up to 2147483647 in either
  direction; every other number is refused, the least 32-bit integer included.
\<close>

theorem json_integers_read_back:
  assumes "\<forall>c \<in> set before \<union> set after. json_ws c"
  shows "kbo_json_int_text_value (before @ int_text v @ after)
    = (if \<bar>v\<bar> \<le> 2147483647 then Some v else None)"
proof -
  define n where "n = nat \<bar>v\<bar>"
  have text_n: "split_sign (int_text v @ after) = (v < 0, show_nat n @ after)"
    unfolding n_def by (rule split_sign_int_text)
  have skip: "dropWhile json_ws (before @ int_text v @ after) = int_text v @ after"
    using assms int_text_starts [of v] by (cases "int_text v") (simp_all add: dropWhile_append)
  have "after = [] \<or> \<not> is_digit (hd after)" using assms json_ws_not by (cases after) auto
  note d = takeWhile_digits [OF show_nat_digits this, of n]
  have "dropWhile json_ws after = []" using assms by auto
  moreover have "show_nat n @ after \<noteq> []" "is_digit (hd (show_nat n @ after))"
    using show_nat_digits [of n] show_nat_nonempty [of n] by (auto simp: hd_append)
  moreover have "int_text v \<noteq> []" using int_text_starts by simp
  ultimately have "kbo_json_int_text_value (before @ int_text v @ after)
      = (if n > 2147483647 then None else Some (if v < 0 then - int n else int n))"
    unfolding kbo_json_int_text_value_def skip text_n Let_def prod.case d by simp
  then show ?thesis unfolding n_def by auto
qed

theorem json_integers_read_back_witness:
  "kbo_json_int_text_value ([CHR '' ''] @ int_text (-37) @ [CHR 0x0a]) = Some (-37)
   \<and> kbo_json_int_text_value ([] @ int_text (- 2147483648) @ []) = None"
  using json_integers_read_back [of "[CHR '' '']" "[CHR 0x0a]" "-37"] json_integers_read_back [of "[]" "[]" "- 2147483648"]
  by (simp add: json_ws_def)

section \<open>Literals\<close>

definition escaped :: "char \<Rightarrow> string" where
  "escaped ch =
     (if ch = CHR 0x22 \<or> ch = CHR 0x5c then [CHR 0x5c, ch]
      else if ch = CHR 0x0d then [CHR 0x5c, CHR ''r'']
      else if ch = CHR 0x0a then [CHR 0x5c, CHR ''n'']
      else if (of_char ch :: nat) < 0x20 then CHR 0x5c # CHR ''u'' # hex4 (of_char ch)
      else [ch])"

lemma append_escaped_full:
  "used + 6 * length s + 2 \<le> out_size \<Longrightarrow> append_escaped out_size used s = concat (map escaped s)"
  by (induction s arbitrary: used) (auto simp: escaped_def)

lemma hex_digit_value: "d < 16 \<Longrightarrow> kbo_json_hex_value (hex_digit d) = Some d"
proof -
  have "list_all (\<lambda>d. kbo_json_hex_value (hex_digit d) = Some d) [0..<16]" by code_simp
  then show "d < 16 \<Longrightarrow> kbo_json_hex_value (hex_digit d) = Some d" by (simp add: list_all_iff)
qed

lemma hex_digit_plain:
  assumes "d < 16"
  shows "hex_digit d \<noteq> CHR 0x5c" and "hex_digit d \<noteq> CHR 0x22"
proof -
  have "kbo_json_hex_value (CHR 0x5c) = None" "kbo_json_hex_value (CHR 0x22) = None" by code_simp+
  then show "hex_digit d \<noteq> CHR 0x5c" "hex_digit d \<noteq> CHR 0x22"
    using hex_digit_value [OF assms] by (metis option.distinct(1))+
qed

lemma hex_text_hex4: "n < 256 \<Longrightarrow> hex_text (hex4 n) = Some n"
proof -
  assume "n < 256"
  then have "n div 16 < 16" "n mod 16 < 16" by auto
  moreover have "kbo_json_hex_value (CHR ''0'') = Some 0" by code_simp
  ultimately show ?thesis by (simp add: hex_text_def hex4_def hex_digit_value)
qed

lemma put_utf8_ascii: "c \<noteq> CHR 0x00 \<Longrightarrow> (of_char c :: nat) < 0x20 \<Longrightarrow> kbo_json_put_utf8 (of_char c) = [c]"
proof -
  assume "c \<noteq> CHR 0x00" "(of_char c :: nat) < 0x20"
  moreover have "(of_char c :: nat) \<noteq> 0"
  proof
    assume "(of_char c :: nat) = 0"
    then have "char_of (of_char c :: nat) = (char_of (0 :: nat) :: char)" by simp
    then have "c = char_of (0 :: nat)" by simp
    moreover have "char_of (0 :: nat) = CHR 0x00" by code_simp
    ultimately show False using \<open>c \<noteq> CHR 0x00\<close> by simp
  qed
  ultimately show ?thesis by (simp add: kbo_json_put_utf8_def)
qed

lemma append_singleton: "(@) [c] = (#) c"
  by (rule ext) simp

lemma json_body_escaped:
  assumes "c \<noteq> CHR 0x00" and "0 < n"
  shows "json_body n (escaped c @ p) = map_option ((#) c) (json_body (n - 1) p)"
proof -
  have "(CHR ''u'' :: char) \<noteq> CHR 0x5c" by simp
  have u: "escape_value (CHR ''u'') = None" by code_simp
  consider "c = CHR 0x22 \<or> c = CHR 0x5c" | "c = CHR 0x0d" | "c = CHR 0x0a"
    | "c \<noteq> CHR 0x22" "c \<noteq> CHR 0x5c" "c \<noteq> CHR 0x0d" "c \<noteq> CHR 0x0a" "(of_char c :: nat) < 0x20"
    | "c \<noteq> CHR 0x22" "c \<noteq> CHR 0x5c" "c \<noteq> CHR 0x0d" "c \<noteq> CHR 0x0a" "\<not> (of_char c :: nat) < 0x20"
    by blast
  then show ?thesis
  proof cases
    case 4
    have "hex_text (take 4 (hex4 (of_char c) @ p)) = Some (of_char c)"
      using hex_text_hex4 [of "of_char c"] 4(5) by (simp add: hex4_def)
    moreover have "drop 4 (hex4 (of_char c) @ p) = p" "\<not> length (CHR ''u'' # hex4 (of_char c) @ p) < 5"
      by (simp_all add: hex4_def)
    ultimately show ?thesis
      using 4 assms put_utf8_ascii [OF assms(1) 4(5)]
      by (simp add: escaped_def u put_def append_singleton)
  qed (use assms in \<open>auto simp: escaped_def escape_value_def put_def append_singleton\<close>)
qed

lemma json_body_all:
  "CHR 0x00 \<notin> set s \<Longrightarrow> length s \<le> n \<Longrightarrow> json_body n (concat (map escaped s)) = Some s"
proof (induction s arbitrary: n)
  case (Cons c s)
  then have "json_body n (escaped c @ concat (map escaped s))
      = map_option ((#) c) (json_body (n - 1) (concat (map escaped s)))"
    by (intro json_body_escaped) auto
  then show ?case using Cons by simp
qed simp

lemma string_end_step: "c \<noteq> CHR 0x5c \<Longrightarrow> c \<noteq> CHR 0x22 \<Longrightarrow> p \<noteq> [] \<Longrightarrow> string_end i (c # p) = string_end (i + 1) p"
  by (cases p) simp_all

lemma string_end_skip: "string_end i (CHR 0x5c # d # p) = string_end (i + 2) p"
  by simp

lemma string_end_escaped:
  assumes "p \<noteq> []"
  shows "string_end i (escaped c @ p) = string_end (i + length (escaped c)) p"
proof -
  consider "c = CHR 0x22 \<or> c = CHR 0x5c" | "c = CHR 0x0d" | "c = CHR 0x0a"
    | "c \<noteq> CHR 0x22" "c \<noteq> CHR 0x5c" "c \<noteq> CHR 0x0d" "c \<noteq> CHR 0x0a" "(of_char c :: nat) < 0x20"
    | "c \<noteq> CHR 0x22" "c \<noteq> CHR 0x5c" "c \<noteq> CHR 0x0d" "c \<noteq> CHR 0x0a" "\<not> (of_char c :: nat) < 0x20"
    by blast
  then show ?thesis
  proof cases
    case 4
    have "(of_char c :: nat) div 16 < 16" "(of_char c :: nat) mod 16 < 16" using 4(5) by auto
    then show ?thesis
      using 4 assms by (simp add: escaped_def hex4_def string_end_skip string_end_step hex_digit_plain del: string_end.simps)
  qed (use assms in \<open>auto simp: escaped_def string_end_step string_end_skip simp del: string_end.simps\<close>)
qed

lemma string_end_all:
  "string_end i (concat (map escaped s) @ CHR 0x22 # rest) = Some (i + length (concat (map escaped s)))"
proof (induction s arbitrary: i)
  case Nil
  then show ?case by (cases rest) simp_all
next
  case (Cons c s)
  show ?case by (simp add: string_end_escaped Cons.IH)
qed

text \<open>
  C30: a text written into a JSON literal, in a buffer with six bytes for every character, is
  decoded to the same text, whatever follows the closing quote.
\<close>

theorem json_literal_roundtrip:
  assumes "CHR 0x00 \<notin> set s" and "6 * length s + 2 \<le> out_size" and "length s < decoded_size"
  shows "kbo_json_string_value_at
      (CHR 0x22 # kbo_independent_acquisition_json_append_escaped [] out_size (Some s) @ CHR 0x22 # rest)
      decoded_size = Some s"
proof -
  let ?e = "concat (map escaped s)"
  have e: "kbo_independent_acquisition_json_append_escaped [] out_size (Some s) = ?e"
    using assms(2) append_escaped_full [of 0 s out_size]
    by (simp add: kbo_independent_acquisition_json_append_escaped_def)
  have "kbo_json_skip_ws (CHR 0x22 # ?e @ CHR 0x22 # rest) = CHR 0x22 # ?e @ CHR 0x22 # rest"
    by (simp add: kbo_json_skip_ws_def json_ws_def)
  moreover have "kbo_json_find_string_end (CHR 0x22 # ?e @ CHR 0x22 # rest) = Some (1 + length ?e)"
    by (simp add: kbo_json_find_string_end_def string_end_all)
  ultimately show ?thesis
    using assms json_body_all [of s "decoded_size - 1"]
    by (simp add: kbo_json_string_value_at_def e)
qed

theorem json_literal_roundtrip_witness:
  "kbo_json_string_value_at
      (CHR 0x22 # kbo_independent_acquisition_json_append_escaped [] 64 (Some [CHR ''a'', CHR 0x22, CHR 0x0a, CHR 0x01]) @ CHR 0x22 # '','')
      16 = Some [CHR ''a'', CHR 0x22, CHR 0x0a, CHR 0x01]"
  by (rule json_literal_roundtrip) simp_all

end
