(* ===== verification/ForeignPolicy.thy ===== *)
theory ForeignPolicy
  imports JsonText RosterArrays
begin

text \<open>
  The configuration of the rules for foreign players and the evaluation of players by it:
  \<open>native/src/core/policy/core_policy.c\<close>, \<open>native/src/foreign/common/policy/foreign_player_policy.c\<close>,
  \<open>foreign/common/config/foreign_waiver_config.c\<close> and the parts of
  \<open>foreign/common/player_eval/\<close> that compute scores, thresholds and quotas.

  A configuration file is looked for in the folder of the save and then in the program's
  data folder; \<open>policy_files\<close> has the two texts, \<open>None\<close> for a file that cannot be read.
\<close>

section \<open>Reading a policy value\<close>

record policy_files =
  pf_scoped :: "string option"
  pf_global :: "string option"

definition kbo_read_policy_file_value :: "jsmn \<Rightarrow> bool \<Rightarrow> string option \<Rightarrow> string \<Rightarrow> int option" where
  "kbo_read_policy_file_value jsmn flag_value file key =
     (if key = [] then None
      else case file of
          None \<Rightarrow> None
        | Some buffer \<Rightarrow>
            if buffer = [] \<or> length buffer > FLAGS_JSON_MAX_BYTES then None
            else if flag_value then kbo_find_flag_value_in_json jsmn buffer key
            else kbo_find_int_value_in_json jsmn buffer key)"

definition kbo_read_policy_scoped_value :: "jsmn \<Rightarrow> bool \<Rightarrow> policy_files \<Rightarrow> string \<Rightarrow> int option" where
  "kbo_read_policy_scoped_value jsmn flag_value files key =
     (case kbo_read_policy_file_value jsmn flag_value (pf_scoped files) key of
        Some v \<Rightarrow> Some v
      | None \<Rightarrow> kbo_read_policy_file_value jsmn flag_value (pf_global files) key)"

definition kbo_read_policy_int_value :: "jsmn \<Rightarrow> policy_files \<Rightarrow> string \<Rightarrow> int option" where
  "kbo_read_policy_int_value jsmn files key = kbo_read_policy_scoped_value jsmn False files key"

definition kbo_read_policy_flag_value :: "jsmn \<Rightarrow> policy_files \<Rightarrow> string \<Rightarrow> int option" where
  "kbo_read_policy_flag_value jsmn files key = kbo_read_policy_scoped_value jsmn True files key"

definition kbo_read_global_policy_int_value :: "jsmn \<Rightarrow> policy_files \<Rightarrow> string \<Rightarrow> int option" where
  "kbo_read_global_policy_int_value jsmn files key =
     kbo_read_policy_file_value jsmn False (pf_global files) key"

definition kbo_read_clamped_policy_int :: "jsmn \<Rightarrow> policy_files \<Rightarrow> string \<Rightarrow> int \<Rightarrow> int \<Rightarrow> int \<Rightarrow> int" where
  "kbo_read_clamped_policy_int jsmn files key fallback min_value max_value =
     (case kbo_read_policy_int_value jsmn files key of
        Some value \<Rightarrow> if value \<ge> min_value \<and> value \<le> max_value then value else fallback
      | None \<Rightarrow> fallback)"

definition kbo_read_clamped_global_policy_int :: "jsmn \<Rightarrow> policy_files \<Rightarrow> string \<Rightarrow> int \<Rightarrow> int \<Rightarrow> int \<Rightarrow> int" where
  "kbo_read_clamped_global_policy_int jsmn files key fallback min_value max_value =
     (case kbo_read_global_policy_int_value jsmn files key of
        Some value \<Rightarrow> if value \<ge> min_value \<and> value \<le> max_value then value else fallback
      | None \<Rightarrow> fallback)"

lemma clamped_range:
  "lo \<le> fb \<Longrightarrow> fb \<le> hi \<Longrightarrow> lo \<le> kbo_read_clamped_policy_int jsmn files key fb lo hi
     \<and> kbo_read_clamped_policy_int jsmn files key fb lo hi \<le> hi"
  by (simp add: kbo_read_clamped_policy_int_def split: option.splits)

section \<open>The policy of the foreign players\<close>

definition KOREA_NATION_ID :: u32 where "KOREA_NATION_ID = 177"
definition POLICY_NATION_MAX :: nat where "POLICY_NATION_MAX = 16"
definition QUOTA_NATION_MAX :: nat where "QUOTA_NATION_MAX = 64"

record foreign_policy =
  fp_value_score_talent_weight :: int
  fp_value_score_overall_weight :: int
  fp_value_score_ratings_weight :: int
  fp_value_score_career_weight :: int
  fp_regular_value_threshold :: int
  fp_asian_value_threshold :: int
  fp_custom_foreign_base_effective_limit :: int
  fp_waiver_window_days :: int
  fp_foreign_priority_marker_max_age_days :: int
  fp_phase_transition_anchor_max_age_days :: int
  fp_waiver_retention_years :: int
  fp_retention_guard_days :: int
  fp_market_age_min :: int
  fp_market_age_max :: int
  fp_player_id_max :: int
  fp_demand_salary_max :: int
  fp_no_minor_copy_age_max :: int
  fp_injury_replacement_min_days :: int
  fp_injury_replacement_decision_margin_min :: int
  fp_pending_offer_ttl_days :: int
  fp_independent_acquisition_seller_transfer_limit :: int
  fp_ai_roster_daily_callup_max_attempts :: int
  fp_no_minor_scan_initial_delay_ms :: int
  fp_no_minor_scan_warmup_interval_ms :: int
  fp_no_minor_scan_warmup_attempts :: int
  fp_no_minor_scan_interval_ms :: int
  fp_no_minor_scan_max_detail_logs :: int
  fp_no_minor_demand_restore_timer_delay_ms :: int
  fp_injury_replacement_scan_sleep_ms :: int
  fp_retention_margin_divisor :: int
  fp_retention_margin_min :: int
  fp_retention_margin_max :: int
  fp_reserve_demand_discount_percent :: int
  fp_reserve_demand_score_min :: "int list"
  fp_asian_quota_nation_ids :: "u32 list"

definition kbo_foreign_policy_add_asian_quota_nation :: "u32 list \<Rightarrow> u32 \<Rightarrow> u32 list" where
  "kbo_foreign_policy_add_asian_quota_nation ids nation_id =
     (if nation_id = 0 \<or> length ids \<ge> POLICY_NATION_MAX then ids
      else if list_ex (\<lambda>i. i = nation_id) ids then ids
      else ids @ [nation_id])"

text \<open>The loop that raises every score to the one before it.\<close>

fun raise_to_previous :: "int \<Rightarrow> int list \<Rightarrow> int list" where
  "raise_to_previous previous [] = []"
| "raise_to_previous previous (x # xs) =
     (let y = (if x < previous then previous else x) in y # raise_to_previous y xs)"

definition default_thresholds :: "int list" where
  "default_thresholds = [25000, 40000, 55000, 70000, 85000, 100000, 120000, 140000]"

definition demand_scores :: "(string \<Rightarrow> int \<Rightarrow> int \<Rightarrow> int \<Rightarrow> int) \<Rightarrow> int list" where
  "demand_scores policy_int =
     (let xs = map (\<lambda>i. policy_int (''reserve_demand_score_index_'' @ show_nat i) (default_thresholds ! (i - 1)) 0 10000000) [1..<9]
      in 0 # hd xs # raise_to_previous (hd xs) (tl xs))"

definition policy_nations :: "(string \<Rightarrow> int \<Rightarrow> int \<Rightarrow> int \<Rightarrow> int) \<Rightarrow> u32 list" where
  "policy_nations policy_int =
     (let firsts = foldl (\<lambda>ids (i, d). kbo_foreign_policy_add_asian_quota_nation ids
                     (word_of_int (policy_int (''asian_quota_nation_id_'' @ show_nat i) d 1 1000000)))
                   [] [(1, 98), (2, 12), (3, 43)]
      in foldl (\<lambda>ids i.
             let value = policy_int (''asian_quota_nation_id_'' @ show_nat i) 0 1 1000000
             in if value > 0 then kbo_foreign_policy_add_asian_quota_nation ids (word_of_int value) else ids)
           firsts [4..<17])"

definition kbo_foreign_player_policy_init_once :: "(string \<Rightarrow> int \<Rightarrow> int \<Rightarrow> int \<Rightarrow> int) \<Rightarrow> foreign_policy" where
  "kbo_foreign_player_policy_init_once p =
     (let age_min = p ''market_age_min'' 16 0 80;
          age_max = p ''market_age_max'' 60 0 80;
          margin_min = p ''retention_margin_min'' 10000 0 10000000;
          margin_max = p ''retention_margin_max'' 25000 0 10000000
      in \<lparr>fp_value_score_talent_weight = p ''value_score_talent_weight'' 55 0 10000,
          fp_value_score_overall_weight = p ''value_score_overall_weight'' 25 0 10000,
          fp_value_score_ratings_weight = p ''value_score_ratings_weight'' 10 0 10000,
          fp_value_score_career_weight = p ''value_score_career_weight'' 10 0 10000,
          fp_regular_value_threshold = p ''regular_value_threshold'' 85000 0 250000,
          fp_asian_value_threshold = p ''asian_value_threshold'' 60000 0 250000,
          fp_custom_foreign_base_effective_limit = p ''custom_foreign_base_effective_limit'' 3 0 10,
          fp_waiver_window_days = p ''waiver_window_days'' 20 1 3660,
          fp_foreign_priority_marker_max_age_days = p ''foreign_priority_marker_max_age_days'' 45 0 3660,
          fp_phase_transition_anchor_max_age_days = p ''phase_transition_anchor_max_age_days'' 70 0 3660,
          fp_waiver_retention_years = p ''waiver_retention_years'' 5 0 20,
          fp_retention_guard_days = p ''retention_guard_days'' 180 0 3660,
          fp_market_age_min = age_min,
          fp_market_age_max = (if age_max < age_min then age_min else age_max),
          fp_player_id_max = p ''player_id_max'' 200000000 1 2000000000,
          fp_demand_salary_max = p ''demand_salary_max'' 1000000000 1 2000000000,
          fp_no_minor_copy_age_max = p ''no_minor_copy_age_max'' 80 1 120,
          fp_injury_replacement_min_days = p ''injury_replacement_min_days'' 42 0 3660,
          fp_injury_replacement_decision_margin_min = p ''injury_replacement_decision_margin_min'' 12000 0 10000000,
          fp_pending_offer_ttl_days = p ''pending_offer_ttl_days'' 45 0 3660,
          fp_independent_acquisition_seller_transfer_limit = p ''independent_acquisition_seller_transfer_limit'' 5 0 100,
          fp_ai_roster_daily_callup_max_attempts = p ''ai_roster_daily_callup_max_attempts'' 24 0 10000,
          fp_no_minor_scan_initial_delay_ms = p ''no_minor_scan_initial_delay_ms'' 1000 0 600000,
          fp_no_minor_scan_warmup_interval_ms = p ''no_minor_scan_warmup_interval_ms'' 2000 0 600000,
          fp_no_minor_scan_warmup_attempts = p ''no_minor_scan_warmup_attempts'' 5 0 10000,
          fp_no_minor_scan_interval_ms = p ''no_minor_scan_interval_ms'' 60000 100 3600000,
          fp_no_minor_scan_max_detail_logs = p ''no_minor_scan_max_detail_logs'' 80 0 1000000,
          fp_no_minor_demand_restore_timer_delay_ms = p ''no_minor_demand_restore_timer_delay_ms'' 750 0 600000,
          fp_injury_replacement_scan_sleep_ms = p ''injury_replacement_scan_sleep_ms'' 7000 100 600000,
          fp_retention_margin_divisor = p ''retention_margin_divisor'' 10 1 1000,
          fp_retention_margin_min = margin_min,
          fp_retention_margin_max = (if margin_max < margin_min then margin_min else margin_max),
          fp_reserve_demand_discount_percent = p ''reserve_demand_discount_percent'' 85 0 1000,
          fp_reserve_demand_score_min = demand_scores p,
          fp_asian_quota_nation_ids = policy_nations p\<rparr>)"

definition kbo_foreign_player_policy :: "jsmn \<Rightarrow> policy_files \<Rightarrow> foreign_policy" where
  "kbo_foreign_player_policy jsmn files =
     kbo_foreign_player_policy_init_once (kbo_read_clamped_policy_int jsmn files)"

definition kbo_custom_foreign_base_effective_limit :: "foreign_policy \<Rightarrow> u32" where
  "kbo_custom_foreign_base_effective_limit p =
     (if fp_custom_foreign_base_effective_limit p > 0
      then word_of_int (fp_custom_foreign_base_effective_limit p) else 0)"

definition kbo_foreign_policy_player_id_plausible :: "foreign_policy \<Rightarrow> u32 \<Rightarrow> bool" where
  "kbo_foreign_policy_player_id_plausible p player_id \<longleftrightarrow> player_id > 0 \<and> player_id \<le> word_of_int (fp_player_id_max p)"

definition kbo_foreign_policy_market_age_allowed :: "foreign_policy \<Rightarrow> u16 \<Rightarrow> bool" where
  "kbo_foreign_policy_market_age_allowed p age \<longleftrightarrow>
     age \<ge> word_of_int (fp_market_age_min p) \<and> age \<le> word_of_int (fp_market_age_max p)"

definition kbo_foreign_policy_demand_salary_plausible :: "foreign_policy \<Rightarrow> int \<Rightarrow> bool" where
  "kbo_foreign_policy_demand_salary_plausible p demand \<longleftrightarrow> demand > 0 \<and> demand < fp_demand_salary_max p"

definition kbo_foreign_policy_player_copy_age_plausible :: "foreign_policy \<Rightarrow> u16 \<Rightarrow> bool" where
  "kbo_foreign_policy_player_copy_age_plausible p age \<longleftrightarrow> age < word_of_int (fp_no_minor_copy_age_max p)"

section \<open>Numbers in plain files\<close>

text \<open>What a zero-initialised buffer of \<open>n\<close> bytes holds as a text after reading a file.\<close>

definition cstr :: "nat \<Rightarrow> string \<Rightarrow> string" where
  "cstr n content = takeWhile (\<lambda>c. c \<noteq> CHR 0x00) (take (n - 1) content)"

definition config_separator :: "char \<Rightarrow> bool" where
  "config_separator c \<longleftrightarrow> csv_white c \<or> c = CHR '',''"

definition kbo_read_u32_leading_number_from_foreign_policy_file :: "string option \<Rightarrow> u32" where
  "kbo_read_u32_leading_number_from_foreign_policy_file file =
     (case file of
        None \<Rightarrow> 0
      | Some content \<Rightarrow>
          let cursor = dropWhile config_separator (cstr 128 content);
              raw = fst (strtoul 64 cursor)
          in if cursor = [] then 0
             else if raw = 0 \<or> raw > 4294967295 then 0 else of_nat raw)"

definition line_separator :: "char \<Rightarrow> bool" where
  "line_separator c \<longleftrightarrow> c = CHR '','' \<or> c = CHR 0x0a \<or> c = CHR 0x0d"

function forced_loop :: "nat \<Rightarrow> string \<Rightarrow> bool" where
  "forced_loop player_id text =
     (let cursor = dropWhile config_separator text;
          (raw, tail) = strtoul 64 cursor;
          rest = dropWhile (\<lambda>c. \<not> line_separator c) tail
      in if cursor = [] then False
         else if tail = cursor then False
         else if raw = player_id then True
         else if rest = [] then False
         else forced_loop player_id (dropWhile line_separator rest))"
  by pat_completeness auto
termination
proof (relation "measure (\<lambda>(i, s). length s)", goal_cases)
  case (2 player_id s cursor z raw tail rest)
  have "length tail < length cursor" using strtoul_progress [of 64 cursor raw tail] 2 by simp
  moreover have "length cursor \<le> length s" using 2 length_dropWhile_le by metis
  moreover have "length (dropWhile line_separator rest) \<le> length tail"
    using 2 length_dropWhile_le order.trans by metis
  ultimately show ?case by simp
qed simp

declare forced_loop.simps [simp del]

definition kbo_is_forced_foreign_candidate_id :: "string option \<Rightarrow> u32 \<Rightarrow> bool" where
  "kbo_is_forced_foreign_candidate_id file player_id =
     (if player_id = 0 then False
      else case file of None \<Rightarrow> False | Some content \<Rightarrow> forced_loop (unat player_id) (cstr 4096 content))"

section \<open>The nations of the Asian quota\<close>

definition kbo_add_asian_quota_nation_id :: "u32 list \<Rightarrow> u32 \<Rightarrow> u32 list" where
  "kbo_add_asian_quota_nation_id ids nation_id =
     (if length ids \<ge> QUOTA_NATION_MAX \<or> nation_id = 0 \<or> nation_id = KOREA_NATION_ID then ids
      else if list_ex (\<lambda>i. i = nation_id) ids then ids
      else ids @ [nation_id])"

function nation_loop :: "u32 list \<Rightarrow> string \<Rightarrow> u32 list" where
  "nation_loop ids text =
     (let cursor = dropWhile (\<lambda>c. \<not> is_digit c) text;
          (v, tail) = strtoul 32 cursor
      in if text = [] \<or> length ids \<ge> QUOTA_NATION_MAX then ids
         else if cursor = [] then ids
         else if tail = cursor then ids
         else nation_loop (if v > 0 \<and> v \<le> 1000000 then kbo_add_asian_quota_nation_id ids (of_nat v) else ids) tail)"
  by pat_completeness auto
termination
proof (relation "measure (\<lambda>(i, s). length s)", goal_cases)
  case (2 ids s cursor z v tail)
  have "length tail < length cursor" using strtoul_progress [of 32 cursor v tail] 2 by simp
  moreover have "length cursor \<le> length s" using 2 length_dropWhile_le by metis
  ultimately show ?case by simp
qed simp

declare nation_loop.simps [simp del]

definition kbo_load_asian_quota_nation_ids_once :: "foreign_policy \<Rightarrow> string option \<Rightarrow> u32 list" where
  "kbo_load_asian_quota_nation_ids_once p file =
     (let ids = foldl kbo_add_asian_quota_nation_id [] (fp_asian_quota_nation_ids p)
      in case file of None \<Rightarrow> ids | Some content \<Rightarrow> nation_loop ids (cstr 4096 content))"

definition kbo_nation_is_asian_quota_candidate :: "u32 list \<Rightarrow> u32 \<Rightarrow> bool" where
  "kbo_nation_is_asian_quota_candidate ids nation_id =
     (if nation_id = 0 \<or> nation_id = KOREA_NATION_ID then False
      else list_ex (\<lambda>i. i = nation_id) ids)"

section \<open>Players\<close>

definition kbo_player_is_foreign_for_kbo_rights :: "player_row \<Rightarrow> bool" where
  "kbo_player_is_foreign_for_kbo_rights player \<longleftrightarrow> pl_nation player \<noteq> 0 \<and> pl_nation player \<noteq> KOREA_NATION_ID"

definition kbo_player_is_asian_quota_slot_candidate :: "u32 list \<Rightarrow> player_row \<Rightarrow> bool" where
  "kbo_player_is_asian_quota_slot_candidate ids player =
     kbo_nation_is_asian_quota_candidate ids (pl_nation player)"

definition kbo_foreign_waiver_value_score :: "foreign_policy \<Rightarrow> player_row \<Rightarrow> int" where
  "kbo_foreign_waiver_value_score p player =
     i32 (i32 (i32 (i32 (pl_talent_value player * fp_value_score_talent_weight p)
                    + i32 (pl_overall_value player * fp_value_score_overall_weight p))
               + i32 (pl_ratings_value player * fp_value_score_ratings_weight p))
          + i32 (pl_career_value player * fp_value_score_career_weight p))"

text \<open>The thresholds; the arguments are the policy's value and the number in the file.\<close>

definition kbo_get_foreign_waiver_value_threshold :: "foreign_policy \<Rightarrow> u32 \<Rightarrow> int" where
  "kbo_get_foreign_waiver_value_threshold p configured =
     (if configured \<noteq> 0 \<and> configured \<le> 250000 then uint configured else fp_regular_value_threshold p)"

definition kbo_get_foreign_waiver_asian_value_threshold :: "foreign_policy \<Rightarrow> u32 \<Rightarrow> int" where
  "kbo_get_foreign_waiver_asian_value_threshold p configured =
     (if configured \<noteq> 0 \<and> configured \<le> 250000 then uint configured else fp_asian_value_threshold p)"

definition kbo_get_foreign_waiver_value_threshold_for_player ::
    "foreign_policy \<Rightarrow> u32 list \<Rightarrow> u32 \<Rightarrow> u32 \<Rightarrow> player_row \<Rightarrow> int" where
  "kbo_get_foreign_waiver_value_threshold_for_player p ids configured asian_configured player =
     (if kbo_player_is_asian_quota_slot_candidate ids player
      then kbo_get_foreign_waiver_asian_value_threshold p asian_configured
      else kbo_get_foreign_waiver_value_threshold p configured)"

end
