(* ===== verification/ForeignPolicyProps.thy ===== *)
theory ForeignPolicyProps
  imports ForeignPolicy
begin

text \<open>The configuration is in its ranges whatever the files say, and what follows from that.\<close>

section \<open>Well-formed policies\<close>

definition in_range :: "int \<Rightarrow> int \<Rightarrow> int \<Rightarrow> bool" where
  "in_range lo hi x \<longleftrightarrow> lo \<le> x \<and> x \<le> hi"

definition weights_ok :: "foreign_policy \<Rightarrow> bool" where
  "weights_ok p \<longleftrightarrow> in_range 0 10000 (fp_value_score_talent_weight p)
     \<and> in_range 0 10000 (fp_value_score_overall_weight p) \<and> in_range 0 10000 (fp_value_score_ratings_weight p)
     \<and> in_range 0 10000 (fp_value_score_career_weight p)
     \<and> in_range 0 250000 (fp_regular_value_threshold p) \<and> in_range 0 250000 (fp_asian_value_threshold p)"

definition limits_ok :: "foreign_policy \<Rightarrow> bool" where
  "limits_ok p \<longleftrightarrow> in_range 0 10 (fp_custom_foreign_base_effective_limit p)
     \<and> in_range 1 3660 (fp_waiver_window_days p) \<and> in_range 0 3660 (fp_foreign_priority_marker_max_age_days p)
     \<and> in_range 0 3660 (fp_phase_transition_anchor_max_age_days p) \<and> in_range 0 20 (fp_waiver_retention_years p)
     \<and> in_range 0 3660 (fp_retention_guard_days p) \<and> in_range 1 2000000000 (fp_player_id_max p)
     \<and> in_range 1 2000000000 (fp_demand_salary_max p) \<and> in_range 1 120 (fp_no_minor_copy_age_max p)
     \<and> in_range 0 3660 (fp_injury_replacement_min_days p)
     \<and> in_range 0 10000000 (fp_injury_replacement_decision_margin_min p)
     \<and> in_range 0 3660 (fp_pending_offer_ttl_days p)
     \<and> in_range 0 100 (fp_independent_acquisition_seller_transfer_limit p)
     \<and> in_range 0 10000 (fp_ai_roster_daily_callup_max_attempts p)
     \<and> in_range 0 1000 (fp_reserve_demand_discount_percent p)"

definition scans_ok :: "foreign_policy \<Rightarrow> bool" where
  "scans_ok p \<longleftrightarrow> in_range 0 600000 (fp_no_minor_scan_initial_delay_ms p)
     \<and> in_range 0 600000 (fp_no_minor_scan_warmup_interval_ms p) \<and> in_range 0 10000 (fp_no_minor_scan_warmup_attempts p)
     \<and> in_range 100 3600000 (fp_no_minor_scan_interval_ms p) \<and> in_range 0 1000000 (fp_no_minor_scan_max_detail_logs p)
     \<and> in_range 0 600000 (fp_no_minor_demand_restore_timer_delay_ms p)
     \<and> in_range 100 600000 (fp_injury_replacement_scan_sleep_ms p)"

definition ordered_ok :: "foreign_policy \<Rightarrow> bool" where
  "ordered_ok p \<longleftrightarrow> 0 \<le> fp_market_age_min p \<and> fp_market_age_min p \<le> fp_market_age_max p
     \<and> fp_market_age_max p \<le> 80 \<and> in_range 1 1000 (fp_retention_margin_divisor p)
     \<and> 0 \<le> fp_retention_margin_min p \<and> fp_retention_margin_min p \<le> fp_retention_margin_max p
     \<and> fp_retention_margin_max p \<le> 10000000"

definition scores_ok :: "int list \<Rightarrow> bool" where
  "scores_ok xs \<longleftrightarrow> length xs = 9 \<and> hd xs = 0 \<and> sorted xs \<and> (\<forall>x \<in> set xs. in_range 0 10000000 x)"

definition nations_ok :: "nat \<Rightarrow> u32 list \<Rightarrow> bool" where
  "nations_ok n ids \<longleftrightarrow> length ids \<le> n \<and> distinct ids \<and> 0 \<notin> set ids"

section \<open>The loops\<close>

lemma raise_to_previous:
  assumes "in_range 0 hi previous" and "\<forall>x \<in> set xs. in_range 0 hi x"
  shows "length (raise_to_previous previous xs) = length xs \<and> sorted (previous # raise_to_previous previous xs)
     \<and> (\<forall>x \<in> set (raise_to_previous previous xs). in_range 0 hi x)"
  using assms
proof (induction xs arbitrary: previous)
  case (Cons x xs)
  define y where "y = (if x < previous then previous else x)"
  have y: "in_range 0 hi y" "previous \<le> y" using Cons.prems by (auto simp: y_def)
  note ih = Cons.IH [OF y(1)]
  have "raise_to_previous previous (x # xs) = y # raise_to_previous y xs" by (simp add: y_def)
  then show ?case using ih Cons.prems(2) y by auto
qed simp

lemma demand_scores_ok:
  assumes "\<And>key fb lo hi. lo \<le> fb \<Longrightarrow> fb \<le> hi \<Longrightarrow> in_range lo hi (p key fb lo hi)"
  shows "scores_ok (demand_scores p)"
proof -
  define xs where "xs = map (\<lambda>i. p (''reserve_demand_score_index_'' @ show_nat i) (default_thresholds ! (i - 1)) 0 10000000) [1..<9]"
  have "\<forall>i \<in> {1..<9}. 0 \<le> default_thresholds ! (i - 1) \<and> default_thresholds ! (i - 1) \<le> 10000000"
    by code_simp
  then have "\<forall>x \<in> set xs. in_range 0 10000000 x" using assms by (auto simp: xs_def)
  moreover obtain y ys where y: "xs = y # ys" "length ys = 7"
    by (cases xs) (use arg_cong [OF xs_def, of length] in auto)
  ultimately have xs: "in_range 0 10000000 y" "\<forall>x \<in> set ys. in_range 0 10000000 x" by auto
  note r = raise_to_previous [OF this]
  have "demand_scores p = 0 # y # raise_to_previous y ys"
    unfolding demand_scores_def xs_def [symmetric] Let_def y(1) by simp
  then show ?thesis using r y(2) xs(1) by (auto simp: scores_ok_def in_range_def)
qed

lemma add_nation_ok:
  "nations_ok 16 ids \<Longrightarrow> nations_ok 16 (kbo_foreign_policy_add_asian_quota_nation ids n)"
  by (auto simp: nations_ok_def kbo_foreign_policy_add_asian_quota_nation_def POLICY_NATION_MAX_def list_ex_iff)

lemma foldl_inv: "P a \<Longrightarrow> (\<And>a x. P a \<Longrightarrow> P (f a x)) \<Longrightarrow> P (foldl f a xs)"
  by (induction xs arbitrary: a) simp_all

lemma policy_nations_ok: "nations_ok 16 (policy_nations p)"
proof -
  have "nations_ok 16 []" by (simp add: nations_ok_def)
  then show ?thesis
    unfolding policy_nations_def Let_def
    by (intro foldl_inv [of "nations_ok 16"]) (simp_all add: add_nation_ok split: prod.split)
qed

section \<open>The policy\<close>

lemma clamped_in_range:
  "lo \<le> fb \<Longrightarrow> fb \<le> hi \<Longrightarrow> in_range lo hi (kbo_read_clamped_policy_int jsmn files key fb lo hi)"
  using clamped_range [of lo fb hi jsmn files key] by (simp add: in_range_def)

text \<open>
  C27: whatever the configuration files contain, and whatever the tokenizer makes of them,
  the policy of the foreign players is well formed: every number is in its range, the two
  pairs of bounds are ordered, the nine demand scores start at 0 and do not decrease, and
  the nations of the Asian quota are at most 16 different ones.
\<close>

theorem policy_is_well_formed:
  "weights_ok (kbo_foreign_player_policy jsmn files) \<and> limits_ok (kbo_foreign_player_policy jsmn files)
   \<and> scans_ok (kbo_foreign_player_policy jsmn files) \<and> ordered_ok (kbo_foreign_player_policy jsmn files)
   \<and> scores_ok (fp_reserve_demand_score_min (kbo_foreign_player_policy jsmn files))
   \<and> nations_ok 16 (fp_asian_quota_nation_ids (kbo_foreign_player_policy jsmn files))"
proof -
  let ?p = "kbo_read_clamped_policy_int jsmn files"
  note defs = kbo_foreign_player_policy_def kbo_foreign_player_policy_init_once_def Let_def
    foreign_policy.simps
  have age: "in_range 0 80 (?p ''market_age_min'' 16 0 80)" "in_range 0 80 (?p ''market_age_max'' 60 0 80)"
    and margin: "in_range 0 10000000 (?p ''retention_margin_min'' 10000 0 10000000)"
      "in_range 0 10000000 (?p ''retention_margin_max'' 25000 0 10000000)"
      "in_range 1 1000 (?p ''retention_margin_divisor'' 10 1 1000)"
    by (rule clamped_in_range; simp)+
  have "weights_ok (kbo_foreign_player_policy jsmn files)"
    unfolding weights_ok_def defs by (intro conjI; rule clamped_in_range; simp)
  moreover have "limits_ok (kbo_foreign_player_policy jsmn files)"
    unfolding limits_ok_def defs by (intro conjI; rule clamped_in_range; simp)
  moreover have "scans_ok (kbo_foreign_player_policy jsmn files)"
    unfolding scans_ok_def defs by (intro conjI; rule clamped_in_range; simp)
  moreover have "ordered_ok (kbo_foreign_player_policy jsmn files)"
    unfolding ordered_ok_def defs using age margin by (auto simp: in_range_def)
  moreover have "scores_ok (fp_reserve_demand_score_min (kbo_foreign_player_policy jsmn files))"
    unfolding defs by (rule demand_scores_ok) (rule clamped_in_range)
  moreover have "nations_ok 16 (fp_asian_quota_nation_ids (kbo_foreign_player_policy jsmn files))"
    unfolding defs by (rule policy_nations_ok)
  ultimately show ?thesis by blast
qed

text \<open>The list the quota is checked against.\<close>

definition quota_ok :: "u32 list \<Rightarrow> bool" where
  "quota_ok ids \<longleftrightarrow> nations_ok 64 ids \<and> KOREA_NATION_ID \<notin> set ids"

lemma add_quota_ok: "quota_ok ids \<Longrightarrow> quota_ok (kbo_add_asian_quota_nation_id ids n)"
  by (auto simp: quota_ok_def nations_ok_def kbo_add_asian_quota_nation_id_def QUOTA_NATION_MAX_def list_ex_iff)

lemma nation_loop_ok: "quota_ok ids \<Longrightarrow> quota_ok (nation_loop ids s)"
proof (induction ids s rule: nation_loop.induct)
  case (1 ids s)
  obtain v tail where r: "strtoul 32 (dropWhile (\<lambda>c. \<not> is_digit c) s) = (v, tail)" by fastforce
  define ids' where "ids' = (if v > 0 \<and> v \<le> 1000000 then kbo_add_asian_quota_nation_id ids (of_nat v) else ids)"
  have "quota_ok ids'" using 1(2) add_quota_ok by (simp add: ids'_def)
  then have step: "quota_ok (nation_loop ids' tail)"
    if "\<not> (s = [] \<or> QUOTA_NATION_MAX \<le> length ids)" "dropWhile (\<lambda>c. \<not> is_digit c) s \<noteq> []"
      "tail \<noteq> dropWhile (\<lambda>c. \<not> is_digit c) s"
    using 1(1) [OF refl r [symmetric] refl that] unfolding ids'_def by simp
  have e: "nation_loop ids s = (if s = [] \<or> QUOTA_NATION_MAX \<le> length ids then ids
      else if dropWhile (\<lambda>c. \<not> is_digit c) s = [] then ids
      else if tail = dropWhile (\<lambda>c. \<not> is_digit c) s then ids else nation_loop ids' tail)"
    by (subst nation_loop.simps) (simp only: Let_def r prod.case ids'_def)
  show ?case unfolding e using step 1(2) by simp
qed

lemma quota_nations_ok: "quota_ok (kbo_load_asian_quota_nation_ids_once p file)"
proof -
  have "quota_ok (foldl kbo_add_asian_quota_nation_id [] ids)" for ids
    by (rule foldl_inv [of quota_ok]) (simp_all add: add_quota_ok, simp add: quota_ok_def nations_ok_def)
  then show ?thesis
    by (auto simp: kbo_load_asian_quota_nation_ids_once_def Let_def nation_loop_ok split: option.splits)
qed

section \<open>Scores\<close>

lemma product_range:
  assumes "in_range (- 32768) 32767 v" and "in_range 0 10000 w"
  shows "in_range (- 327680000) 327670000 (v * w)"
proof -
  have "v * w \<le> 32767 * w" "- 32768 * w \<le> v * w"
    using assms mult_right_mono [of v 32767 w] mult_right_mono [of "- 32768" v w] by (simp_all add: in_range_def)
  moreover have "32767 * w \<le> 32767 * 10000" "- 32768 * 10000 \<le> - 32768 * w" using assms by (auto simp: in_range_def)
  ultimately show ?thesis by (simp add: in_range_def)
qed

text \<open>
  The value score of a player is computed without overflow under every
  configuration: it is the weighted sum of the player's four 16-bit values.
\<close>

theorem value_score_is_weighted_sum:
  assumes "in_range (- 32768) 32767 (pl_talent_value player)" and "in_range (- 32768) 32767 (pl_overall_value player)"
    and "in_range (- 32768) 32767 (pl_ratings_value player)" and "in_range (- 32768) 32767 (pl_career_value player)"
  shows "kbo_foreign_waiver_value_score (kbo_foreign_player_policy jsmn files) player
    = (let p = kbo_foreign_player_policy jsmn files
       in pl_talent_value player * fp_value_score_talent_weight p
        + pl_overall_value player * fp_value_score_overall_weight p
        + pl_ratings_value player * fp_value_score_ratings_weight p
        + pl_career_value player * fp_value_score_career_weight p)"
proof -
  let ?p = "kbo_foreign_player_policy jsmn files"
  let ?q = "kbo_read_clamped_policy_int jsmn files"
  have w: "in_range 0 10000 (fp_value_score_talent_weight ?p)" "in_range 0 10000 (fp_value_score_overall_weight ?p)"
     "in_range 0 10000 (fp_value_score_ratings_weight ?p)" "in_range 0 10000 (fp_value_score_career_weight ?p)"
    unfolding kbo_foreign_player_policy_def kbo_foreign_player_policy_init_once_def Let_def foreign_policy.simps
    by (rule clamped_in_range; simp)+
  note r = product_range [OF assms(1) w(1)] product_range [OF assms(2) w(2)]
    product_range [OF assms(3) w(3)] product_range [OF assms(4) w(4)]
  show ?thesis
    using r unfolding kbo_foreign_waiver_value_score_def Let_def in_range_def by simp
qed

definition demo_foreigner :: player_row where
  "demo_foreigner = \<lparr>pl_nation = 98, pl_current_team = 5, pl_active_team = 0, pl_loan_team = 0, pl_original_team = 0,
     pl_default_team = 0, pl_current_league = 200, pl_original_league = 200, pl_draft_league = 0, pl_restricted = 0,
     pl_secondary_restricted = 0, pl_dfa = 0, pl_contract_level = 1, pl_overall_value = 900, pl_talent_value = 1200,
     pl_ratings_value = 800, pl_career_value = 500\<rparr>"

theorem value_score_is_weighted_sum_witness:
  "kbo_foreign_waiver_value_score (kbo_foreign_player_policy (\<lambda>_ _. None) \<lparr>pf_scoped = None, pf_global = None\<rparr>) demo_foreigner
   = 1200 * 55 + 900 * 25 + 800 * 10 + 500 * 10"
proof -
  have "kbo_read_clamped_policy_int (\<lambda>_ _. None) \<lparr>pf_scoped = None, pf_global = None\<rparr> key fb lo hi = fb" for key fb lo hi
    by (simp add: kbo_read_clamped_policy_int_def kbo_read_policy_int_value_def kbo_read_policy_scoped_value_def
        kbo_read_policy_file_value_def)
  then show ?thesis
    using value_score_is_weighted_sum [of demo_foreigner "\<lambda>_ _. None" "\<lparr>pf_scoped = None, pf_global = None\<rparr>"]
    by (simp add: demo_foreigner_def in_range_def kbo_foreign_player_policy_def kbo_foreign_player_policy_init_once_def Let_def)
qed

end
