(* ===== verification/WaiverDecisions.thy ===== *)
theory WaiverDecisions
  imports WaiverRights WaiverWindow ForeignPolicy
begin

text \<open>
  Who keeps the right to a foreign player: \<open>native/src/foreign/waiver_decisions/\<close> (the club that
  decides, the record of the decisions, the retention itself) and the automatic decisions of
  \<open>native/src/foreign/waiver_core/ai\<close> and \<open>waiver_core/top_candidate\<close>.

  \<open>waiver_state\<close> puts together the state of the rights, of the negotiation window, the players
  and teams of the game, the table of decisions of the save database (in the order of its
  row ids) and the static flags of the two functions that load the rights.  \<open>waiver_env\<close> has
  what a run reads: the date, the policy and the configuration files, the ids of the player
  vector in its order, and which statements of the database succeed.
\<close>

section \<open>State\<close>

record decision_row =
  dr_decision_date :: u32
  dr_window_start :: u32
  dr_window_end :: u32
  dr_source :: string
  dr_action :: string
  dr_team_id :: u32
  dr_player_id :: u32
  dr_value_score :: int
  dr_forced :: bool
  dr_executed :: bool

record waiver_state =
  ws_rights :: rights_state
  ws_window :: window_state
  ws_world :: waiver_world
  ws_decisions :: "decision_row list"
  ws_ai_rights_loaded :: bool
  ws_top_rights_loaded :: bool

record waiver_env =
  wv_rights :: rights_env
  wv_window :: window_env
  wv_policy :: foreign_policy
  wv_quota_nations :: "u32 list"
  wv_value_threshold_file :: u32
  wv_asian_threshold_file :: u32
  wv_target_team :: u32
  wv_forced_file :: "string option"
  wv_ai_enabled :: bool
  wv_players :: "u32 list option"
  wv_append :: "decision_row \<Rightarrow> bool"
  wv_query :: bool

section \<open>The club that decides\<close>

definition kbo_get_player_original_team_id :: "player_row option \<Rightarrow> u32" where
  "kbo_get_player_original_team_id player = (case player of None \<Rightarrow> 0 | Some p \<Rightarrow> pl_original_team p)"

definition ask_window :: "waiver_env \<Rightarrow> waiver_state \<Rightarrow> waiver_state \<times> bool" where
  "ask_window env ws =
     (let (win, is_open) = kbo_is_foreign_waiver_negotiation_window_open (wv_window env) (ws_window ws)
      in (ws\<lparr>ws_window := win\<rparr>, is_open))"

definition kbo_get_foreign_waiver_decision_team_id ::
    "waiver_env \<Rightarrow> player_row \<Rightarrow> waiver_state \<Rightarrow> waiver_state \<times> u32" where
  "kbo_get_foreign_waiver_decision_team_id env player ws =
     (let (ws1, is_open) = ask_window env ws
      in (ws1, if \<not> is_open then 0
               else if pl_active_team player \<noteq> 0 then pl_active_team player
               else if pl_current_team player \<noteq> 0 then pl_current_team player
               else 0))"

definition kbo_original_club_priority_window_allows ::
    "waiver_env \<Rightarrow> player_row \<Rightarrow> u32 \<Rightarrow> waiver_state \<Rightarrow> waiver_state \<times> bool" where
  "kbo_original_club_priority_window_allows env player team_id ws =
     (let (ws1, is_open) = ask_window env ws
      in if \<not> is_open then (ws1, True)
         else
           let (ws2, priority_team_id) = kbo_get_foreign_waiver_decision_team_id env player ws1
           in (ws2, priority_team_id = 0 \<or> team_id = priority_team_id))"

section \<open>The record of the decisions\<close>

definition kbo_foreign_waiver_decisions_sql_append ::
    "waiver_env \<Rightarrow> decision_row \<Rightarrow> waiver_state \<Rightarrow> waiver_state \<times> bool" where
  "kbo_foreign_waiver_decisions_sql_append env row ws =
     (if dr_source row = [] \<or> dr_action row = [] \<or> dr_team_id row = 0 \<or> dr_player_id row = 0 then (ws, False)
      else if wv_append env row then (ws\<lparr>ws_decisions := ws_decisions ws @ [row]\<rparr>, True)
      else (ws, False))"

definition current_window :: "waiver_env \<Rightarrow> waiver_state \<Rightarrow> u32 \<times> u32" where
  "current_window env ws =
     (case kbo_current_foreign_waiver_window_dates (wv_window env) (ws_window ws) of
        None \<Rightarrow> (0, 0) | Some dates \<Rightarrow> dates)"

definition kbo_append_foreign_waiver_decision_record ::
    "waiver_env \<Rightarrow> string \<Rightarrow> string \<Rightarrow> u32 \<Rightarrow> u32 \<Rightarrow> int \<Rightarrow> bool \<Rightarrow> bool \<Rightarrow> waiver_state \<Rightarrow> waiver_state \<times> bool" where
  "kbo_append_foreign_waiver_decision_record env source action team_id player_id score forced executed ws =
     (if source = [] \<or> action = [] \<or> team_id = 0 \<or> player_id = 0 then (ws, False)
      else
        let today = (case we_today (wv_window env) of None \<Rightarrow> 0 | Some d \<Rightarrow> d);
            (window_start, window_end) = current_window env ws
        in kbo_foreign_waiver_decisions_sql_append env
             \<lparr>dr_decision_date = today, dr_window_start = window_start, dr_window_end = window_end,
              dr_source = source, dr_action = action, dr_team_id = team_id, dr_player_id = player_id,
              dr_value_score = score, dr_forced = forced, dr_executed = executed\<rparr> ws)"

definition decision_for :: "u32 \<Rightarrow> u32 \<Rightarrow> u32 \<Rightarrow> decision_row \<Rightarrow> bool" where
  "decision_for window_end team_id player_id row \<longleftrightarrow>
     dr_window_end row = window_end \<and> dr_team_id row = team_id \<and> dr_player_id row = player_id"

definition kbo_foreign_waiver_decision_exists :: "waiver_env \<Rightarrow> u32 \<Rightarrow> u32 \<Rightarrow> u32 \<Rightarrow> waiver_state \<Rightarrow> bool" where
  "kbo_foreign_waiver_decision_exists env window_end team_id player_id ws =
     (if window_end = 0 \<or> team_id = 0 \<or> player_id = 0 then False
      else wv_query env \<and> list_ex (decision_for window_end team_id player_id) (ws_decisions ws))"

definition kbo_foreign_waiver_latest_decision_action ::
    "waiver_env \<Rightarrow> u32 \<Rightarrow> u32 \<Rightarrow> u32 \<Rightarrow> nat \<Rightarrow> waiver_state \<Rightarrow> string option" where
  "kbo_foreign_waiver_latest_decision_action env window_end team_id player_id out_size ws =
     (if window_end = 0 \<or> team_id = 0 \<or> player_id = 0 \<or> out_size = 0 then None
      else
        let rows = filter (decision_for window_end team_id player_id) (ws_decisions ws)
        in if \<not> wv_query env \<or> rows = [] then None else Some (strbuf out_size (dr_action (last rows))))"

record decision_breakdown =
  bd_retained :: nat
  bd_ai_retained :: nat
  bd_user_retained :: nat
  bd_skipped :: nat
  bd_ai_skipped :: nat
  bd_user_skipped :: nat
  bd_available :: bool

definition kbo_foreign_waiver_decisions_breakdown_cb :: "decision_breakdown \<Rightarrow> decision_row \<Rightarrow> decision_breakdown" where
  "kbo_foreign_waiver_decisions_breakdown_cb b row =
     (let ai = of_bool (stricmp_equal (dr_source row) ''ai'');
          user = of_bool (\<not> stricmp_equal (dr_source row) ''ai'' \<and> stricmp_equal (dr_source row) ''user'')
      in if stricmp_equal (dr_action row) ''RETAIN'' then
           b\<lparr>bd_retained := bd_retained b + 1, bd_available := True,
             bd_ai_retained := bd_ai_retained b + ai, bd_user_retained := bd_user_retained b + user\<rparr>
         else if stricmp_equal (dr_action row) ''SKIP'' then
           b\<lparr>bd_skipped := bd_skipped b + 1, bd_available := True,
             bd_ai_skipped := bd_ai_skipped b + ai, bd_user_skipped := bd_user_skipped b + user\<rparr>
         else b)"

definition kbo_foreign_waiver_decisions_sql_breakdown ::
    "waiver_env \<Rightarrow> u32 \<Rightarrow> waiver_state \<Rightarrow> decision_breakdown \<times> bool" where
  "kbo_foreign_waiver_decisions_sql_breakdown env window_end ws =
     (let zero = \<lparr>bd_retained = 0, bd_ai_retained = 0, bd_user_retained = 0, bd_skipped = 0,
                  bd_ai_skipped = 0, bd_user_skipped = 0, bd_available = False\<rparr>
      in if window_end = 0 \<or> \<not> wv_query env then (zero, False)
         else (foldl kbo_foreign_waiver_decisions_breakdown_cb zero
                 (filter (\<lambda>r. dr_window_end r = window_end) (ws_decisions ws)), True))"

section \<open>Retaining a player\<close>

definition mark_retained :: "u32 \<Rightarrow> u32 \<Rightarrow> player_row \<Rightarrow> player_row" where
  "mark_retained team_id league_id player =
     player\<lparr>pl_restricted := 1, pl_secondary_restricted := 1, pl_active_team := team_id,
            pl_draft_league := league_id\<rparr>"

definition kbo_retain_foreign_player_rights ::
    "waiver_env \<Rightarrow> u32 \<Rightarrow> u32 \<Rightarrow> u32 \<Rightarrow> waiver_state \<Rightarrow> waiver_state \<times> bool" where
  "kbo_retain_foreign_player_rights env fallback_league_id player_id team_id ws =
     (if player_id = 0 \<or> team_id = 0 then (ws, False)
      else case (wd_players (ws_world ws) player_id, wd_teams (ws_world ws) team_id) of
          (Some player, Some team) \<Rightarrow>
            (let league_id = (if tm_league_id team = 0 then fallback_league_id else tm_league_id team)
             in if tm_id team \<noteq> team_id then (ws, False)
                else if league_id = 0 then (ws, False)
                else case we_today (wv_window env) of
                    None \<Rightarrow> (ws, False)
                  | Some today \<Rightarrow>
                      let expires = kbo_add_years_yyyymmdd today
                                      (word_of_int (fp_waiver_retention_years (wv_policy env)))
                      in if expires = 0 then (ws, False)
                         else
                           let (rights, stored) = kbo_set_foreign_waiver_right (wv_rights env)
                                  team_id player_id league_id today expires (ws_rights ws);
                               ws1 = ws\<lparr>ws_rights := rights\<rparr>
                           in if \<not> stored then (ws1, False)
                              else
                                let (team', added) = kbo_add_player_id_to_team_fixed_array Restricted player_id team
                                in if \<not> added then (ws1, False)
                                   else (ws1\<lparr>ws_world :=
                                      \<lparr>wd_players = (wd_players (ws_world ws))(player_id \<mapsto> mark_retained team_id league_id player),
                                       wd_teams = (wd_teams (ws_world ws))(team_id \<mapsto> team')\<rparr>\<rparr>, True))
        | _ \<Rightarrow> (ws, False))"

section \<open>Automatic decisions\<close>

definition kbo_ai_foreign_waiver_should_retain ::
    "waiver_env \<Rightarrow> player_row \<Rightarrow> u32 \<Rightarrow> u32 \<Rightarrow> int \<Rightarrow> bool \<Rightarrow> bool \<times> int \<times> string" where
  "kbo_ai_foreign_waiver_should_retain env player player_id decision_team_id score forced =
     (if player_id = 0 \<or> decision_team_id = 0 then (False, 0, ''invalid_candidate'')
      else if forced then (True, 0, ''forced'')
      else
        let threshold = kbo_get_foreign_waiver_value_threshold_for_player (wv_policy env)
              (wv_quota_nations env) (wv_value_threshold_file env) (wv_asian_threshold_file env) player
        in if score < threshold then (False, threshold, ''below_value_threshold'')
           else (True, threshold, ''value_threshold''))"

definition kbo_apply_ai_foreign_waiver_rules ::
    "waiver_env \<Rightarrow> u32 \<Rightarrow> int \<Rightarrow> bool \<Rightarrow> u32 \<Rightarrow> waiver_state \<Rightarrow> waiver_state \<times> bool" where
  "kbo_apply_ai_foreign_waiver_rules env player_id score forced target_team_id ws =
     (if target_team_id = 0 \<or> player_id = 0 then (ws, False)
      else case (wd_teams (ws_world ws) target_team_id, wd_players (ws_world ws) player_id) of
          (Some team, Some player) \<Rightarrow>
            (let fallback_league = (if pl_current_league player \<noteq> 0 then pl_current_league player else tm_league_id team)
             in if fallback_league = 0 then (ws, False)
                else
                  let (ws1, retained) = kbo_retain_foreign_player_rights env fallback_league player_id target_team_id ws
                  in if \<not> retained then (ws1, False)
                     else (fst (kbo_append_foreign_waiver_decision_record env ''ai'' ''RETAIN''
                              target_team_id player_id score forced True ws1), True))
        | _ \<Rightarrow> (ws, False))"

definition ai_skip :: "waiver_env \<Rightarrow> u32 \<Rightarrow> u32 \<Rightarrow> int \<Rightarrow> bool \<Rightarrow> waiver_state \<Rightarrow> waiver_state" where
  "ai_skip env team_id player_id score forced ws =
     fst (kbo_append_foreign_waiver_decision_record env ''ai'' ''SKIP'' team_id player_id score forced False ws)"

text \<open>The decision about one player, after all the checks.\<close>

definition ai_decide :: "waiver_env \<Rightarrow> u32 \<Rightarrow> player_row \<Rightarrow> u32 \<Rightarrow> waiver_state \<Rightarrow> waiver_state" where
  "ai_decide env player_id player team_id ws =
     (let forced = kbo_is_forced_foreign_candidate_id (wv_forced_file env) player_id;
          score = kbo_foreign_waiver_value_score (wv_policy env) player
      in if \<not> fst (kbo_ai_foreign_waiver_should_retain env player player_id team_id score forced)
         then ai_skip env team_id player_id score forced ws
         else
           let (ws1, retained) = kbo_apply_ai_foreign_waiver_rules env player_id score forced team_id ws
           in if retained then ws1 else ai_skip env team_id player_id score forced ws1)"

text \<open>The body of the loop over the players.\<close>

definition ai_visit :: "waiver_env \<Rightarrow> u32 \<Rightarrow> u32 \<Rightarrow> waiver_state \<Rightarrow> u32 \<Rightarrow> waiver_state" where
  "ai_visit env window_end today ws player_id =
     (case wd_players (ws_world ws) player_id of
        None \<Rightarrow> ws
      | Some player \<Rightarrow>
          if player_id = 0 \<or> \<not> kbo_player_is_foreign_for_kbo_rights player then ws
          else
            let (ws1, team_id) = kbo_get_foreign_waiver_decision_team_id env player ws
            in if wv_target_team env \<noteq> 0 \<and> team_id \<noteq> wv_target_team env then ws1
               else if team_id = 0 then ws1
               else case wd_teams (ws_world ws1) team_id of
                   None \<Rightarrow> ws1
                 | Some team \<Rightarrow>
                     if we_league_id (wv_window env) \<noteq> 0 \<and> tm_league_id team \<noteq> we_league_id (wv_window env) then ws1
                     else
                       let (rights, has) = kbo_has_active_foreign_waiver_right (wv_rights env)
                                             team_id player_id today (ws_rights ws1);
                           ws2 = ws1\<lparr>ws_rights := rights\<rparr>
                       in if has then ws2
                          else if kbo_foreign_waiver_decision_exists env window_end team_id player_id ws2 then ws2
                          else ai_decide env player_id player team_id ws2)"

definition ai_load_rights :: "waiver_env \<Rightarrow> waiver_state \<Rightarrow> waiver_state" where
  "ai_load_rights env ws =
     (if ws_ai_rights_loaded ws then ws
      else ws\<lparr>ws_ai_rights_loaded := True,
              ws_rights := fst (kbo_load_foreign_waiver_rights (wv_rights env) (ws_rights ws))\<rparr>)"

definition run_foreign_waiver_ai_core_once :: "waiver_env \<Rightarrow> waiver_state \<Rightarrow> waiver_state" where
  "run_foreign_waiver_ai_core_once env ws =
     (if \<not> wv_ai_enabled env then ws
      else
        let (ws1, is_open) = ask_window env (ai_load_rights env ws)
        in if \<not> is_open then ws1
           else case we_today (wv_window env) of
               None \<Rightarrow> ws1
             | Some today \<Rightarrow>
                 let window_end = snd (current_window env ws1);
                     ws2 = ws1\<lparr>ws_rights := kbo_prune_expired_foreign_waiver_rights (wv_rights env) today (ws_rights ws1)\<rparr>
                 in case wv_players env of
                      None \<Rightarrow> ws2
                    | Some ids \<Rightarrow> foldl (ai_visit env window_end today) ws2 ids)"

section \<open>The best candidate of a club\<close>

record best_candidate =
  bc_score :: int
  bc_player_id :: u32
  bc_current_team_id :: u32

definition top_visit :: "waiver_env \<Rightarrow> u32 \<Rightarrow> u32 \<Rightarrow> waiver_state \<times> best_candidate \<Rightarrow> u32 \<Rightarrow> waiver_state \<times> best_candidate" where
  "top_visit env team_id today sb player_id =
     (case sb of (ws, best) \<Rightarrow>
        case wd_players (ws_world ws) player_id of
          None \<Rightarrow> (ws, best)
        | Some player \<Rightarrow>
            let (ws1, decision_team_id) = kbo_get_foreign_waiver_decision_team_id env player ws
            in if player_id = 0 \<or> decision_team_id \<noteq> team_id
                  \<or> (pl_current_league player \<noteq> 0 \<and> pl_current_league player \<noteq> we_league_id (wv_window env))
                  \<or> \<not> kbo_player_is_foreign_for_kbo_rights player then (ws1, best)
               else
                 let score = kbo_foreign_waiver_value_score (wv_policy env) player;
                     (rights, has) = kbo_has_active_foreign_waiver_right (wv_rights env)
                                       team_id player_id today (ws_rights ws1);
                     ws2 = ws1\<lparr>ws_rights := rights\<rparr>
                 in if has then (ws2, best)
                    else if score > bc_score best
                    then (ws2, \<lparr>bc_score = score, bc_player_id = player_id, bc_current_team_id = pl_current_team player\<rparr>)
                    else (ws2, best))"

definition kbo_resolve_foreign_waiver_top_candidate_for_team ::
    "waiver_env \<Rightarrow> u32 \<Rightarrow> waiver_state \<Rightarrow> waiver_state \<times> (u32 \<times> u32) option" where
  "kbo_resolve_foreign_waiver_top_candidate_for_team env team_id ws =
     (if team_id = 0 then (ws, None)
      else
        let ws1 = (if ws_top_rights_loaded ws then ws
                   else ws\<lparr>ws_top_rights_loaded := True,
                           ws_rights := fst (kbo_load_foreign_waiver_rights (wv_rights env) (ws_rights ws))\<rparr>)
        in case (we_today (wv_window env), wv_players env) of
             (Some today, Some ids) \<Rightarrow>
               (let (ws2, best) = foldl (top_visit env team_id today)
                                    (ws1, \<lparr>bc_score = -1, bc_player_id = 0, bc_current_team_id = 0\<rparr>) ids
                in (ws2, if bc_player_id best = 0 then None else Some (bc_player_id best, bc_current_team_id best)))
           | _ \<Rightarrow> (ws1, None))"

end
