(* ===== verification/WaiverDecisionsLemmas.thy ===== *)
theory WaiverDecisionsLemmas
  imports WaiverDecisions
begin

text \<open>
  Facts on the waiver components that the properties of the decisions use: asking for the
  window twice, loading the rights twice, and what storing a right leaves as it was.
\<close>

section \<open>Asking for the window twice\<close>

lemma advance_idle:
  assumes "\<not> (today \<noteq> 0 \<and> today = ww_last_checked st \<and> ww_last_checked_result st \<noteq> 0)"
    and "today = 0 \<or> serial = 0 \<or> we_league_id env = 0"
  shows "fst (kbo_advance_foreign_waiver_window env today serial st)
    = st\<lparr>ww_last_checked := today, ww_last_checked_result := 0\<rparr>"
proof (cases "today = 0 \<or> serial = 0")
  case True
  show ?thesis unfolding kbo_advance_foreign_waiver_window_def if_not_P [OF assms(1)] Let_def if_P [OF True] by simp
next
  case False
  then have l: "we_league_id env = 0" using assms(2) by blast
  show ?thesis
    unfolding kbo_advance_foreign_waiver_window_def if_not_P [OF assms(1)] Let_def if_not_P [OF False] if_P [OF l]
    by simp
qed

lemma advance_settled:
  assumes "(today \<noteq> 0 \<and> today = ww_last_checked st \<and> ww_last_checked_result st \<noteq> 0)
    \<or> ((today = 0 \<or> serial = 0 \<or> we_league_id env = 0) \<and> ww_last_checked st = today \<and> ww_last_checked_result st = 0)"
  shows "fst (kbo_advance_foreign_waiver_window env today serial st) = st"
proof (cases "today \<noteq> 0 \<and> today = ww_last_checked st \<and> ww_last_checked_result st \<noteq> 0")
  case True
  show ?thesis unfolding kbo_advance_foreign_waiver_window_def if_P [OF True] by simp
next
  case False
  then have c: "today = 0 \<or> serial = 0 \<or> we_league_id env = 0" "ww_last_checked st = today"
      "ww_last_checked_result st = 0"
    using assms by blast+
  have "st\<lparr>ww_last_checked := today, ww_last_checked_result := 0\<rparr> = st"
    using c(2,3) by (cases st) simp
  then show ?thesis using advance_idle [OF False c(1)] by simp
qed

lemma set_window_checked [simp]:
  "ww_last_checked (set_window a b c d st) = ww_last_checked st"
  "ww_last_checked_result (set_window a b c d st) = ww_last_checked_result st"
  "ww_last_checked (kbo_write_foreign_waiver_window env a b st) = ww_last_checked st"
  by (simp_all add: set_window_def kbo_write_foreign_waiver_window_def)

lemma advance_checked:
  fixes st :: window_state and env :: window_env and today serial :: u32
  defines "st1 \<equiv> fst (kbo_advance_foreign_waiver_window env today serial st)"
  shows "(today \<noteq> 0 \<and> today = ww_last_checked st1 \<and> ww_last_checked_result st1 \<noteq> 0)
    \<or> ((today = 0 \<or> serial = 0 \<or> we_league_id env = 0) \<and> ww_last_checked st1 = today \<and> ww_last_checked_result st1 = 0)"
proof (cases "today \<noteq> 0 \<and> today = ww_last_checked st \<and> ww_last_checked_result st \<noteq> 0")
  case True
  then show ?thesis unfolding st1_def kbo_advance_foreign_waiver_window_def if_P [OF True] by (auto simp only: fst_conv)
next
  case fresh: False
  show ?thesis
  proof (cases "today = 0 \<or> serial = 0 \<or> we_league_id env = 0")
    case True
    then show ?thesis unfolding st1_def advance_idle [OF fresh True] by simp
  next
    case False
    obtain m where m: "kbo_detect_offseason_starts_event today (we_league_id env) (we_events env) = m" by blast
    show ?thesis
      using False fresh
      by (auto simp: st1_def kbo_advance_foreign_waiver_window_def m Let_def recover_marker_def
          kbo_open_foreign_waiver_window_def)
  qed
qed

lemma read_cached_twice:
  assumes "kbo_read_foreign_waiver_window_cached env today st = (st1, w)"
  shows "kbo_read_foreign_waiver_window_cached env today st1 = (st1, w)"
    and "ww_last_checked st1 = ww_last_checked st" and "ww_last_checked_result st1 = ww_last_checked_result st"
    and "ww_last_close_event_end st1 = ww_last_close_event_end st"
  using assms by (auto simp: kbo_read_foreign_waiver_window_cached_def kbo_read_foreign_waiver_window_def Let_def
      split: if_splits)

lemma read_cached_closed:
  "kbo_read_foreign_waiver_window_cached env today (st\<lparr>ww_last_close_event_end := x\<rparr>)
   = apfst (\<lambda>s. s\<lparr>ww_last_close_event_end := x\<rparr>) (kbo_read_foreign_waiver_window_cached env today st)"
  by (simp add: kbo_read_foreign_waiver_window_cached_def kbo_read_foreign_waiver_window_def Let_def)

lemma window_asked_twice:
  assumes "kbo_is_foreign_waiver_negotiation_window_open env st = (st', is_open)"
  shows "kbo_is_foreign_waiver_negotiation_window_open env st' = (st', is_open)"
proof (cases "we_enabled env \<and> we_today env \<noteq> None")
  case False
  then show ?thesis
    using assms by (auto simp: kbo_is_foreign_waiver_negotiation_window_open_def split: option.splits if_splits)
next
  case True
  then obtain today where t: "we_today env = Some today" by blast
  define serial where "serial = kbo_date_serial (today div 10000) ((today div 100) mod 100) (today mod 100)"
  define st1 where "st1 = fst (kbo_advance_foreign_waiver_window env today serial st)"
  obtain b where adv: "kbo_advance_foreign_waiver_window env today serial st = (st1, b)"
    unfolding st1_def by (metis prod.collapse)
  obtain st2 w where rd: "kbo_read_foreign_waiver_window_cached env today st1 = (st2, w)" by fastforce
  note r = read_cached_twice [OF rd]
  note unf = kbo_is_foreign_waiver_negotiation_window_open_def
  have adv2: "fst (kbo_advance_foreign_waiver_window env today serial s) = s"
    if "ww_last_checked s = ww_last_checked st2" "ww_last_checked_result s = ww_last_checked_result st2" for s
    by (rule advance_settled) (use advance_checked [of today env serial st, folded st1_def] that r(2,3) in simp)
  have again: "kbo_is_foreign_waiver_negotiation_window_open env s
      = (case w of None \<Rightarrow>
           let open_now = (ww_end_serial s \<noteq> 0 \<and> serial \<ge> ww_start_serial s \<and> serial < ww_end_serial s)
           in (if \<not> open_now \<and> ww_end_serial s \<noteq> 0 \<and> serial > ww_end_serial s
                 \<and> ww_last_close_event_end s \<noteq> ww_end_serial s
               then s\<lparr>ww_last_close_event_end := ww_end_serial s\<rparr> else s, open_now)
         | Some (a, e) \<Rightarrow> (s, today \<ge> a \<and> today < e))"
    if "s = st2 \<or> s = st2\<lparr>ww_last_close_event_end := ww_end_serial st2\<rparr>" for s
  proof -
    have a: "fst (kbo_advance_foreign_waiver_window env today serial s) = s" by (rule adv2) (use that in auto)
    have "kbo_read_foreign_waiver_window_cached env today s = (s, w)"
      using that r(1) by (auto simp: read_cached_closed)
    moreover obtain b' where "kbo_advance_foreign_waiver_window env today serial s = (s, b')"
      using a by (metis prod.collapse)
    ultimately show ?thesis
      using True t unfolding unf by (cases w) (simp_all add: Let_def serial_def [symmetric])
  qed
  have "kbo_is_foreign_waiver_negotiation_window_open env st
      = (case w of None \<Rightarrow>
           let open_now = (ww_end_serial st2 \<noteq> 0 \<and> serial \<ge> ww_start_serial st2 \<and> serial < ww_end_serial st2)
           in (if \<not> open_now \<and> ww_end_serial st2 \<noteq> 0 \<and> serial > ww_end_serial st2
                 \<and> ww_last_close_event_end st2 \<noteq> ww_end_serial st2
               then st2\<lparr>ww_last_close_event_end := ww_end_serial st2\<rparr> else st2, open_now)
         | Some (a, e) \<Rightarrow> (st2, today \<ge> a \<and> today < e))"
    using True t adv rd unfolding unf by (cases w) (simp_all add: Let_def serial_def [symmetric])
  then show ?thesis
    using assms again [of st2] again [of "st2\<lparr>ww_last_close_event_end := ww_end_serial st2\<rparr>"]
    by (cases w) (auto simp: Let_def split: if_splits prod.splits)
qed

lemma ask_window_twice: "ask_window env ws = (ws', is_open) \<Longrightarrow> ask_window env ws' = (ws', is_open)"
  using window_asked_twice by (fastforce simp: ask_window_def split: prod.splits)

section \<open>Loading the rights twice\<close>

definition lookup_idle :: "rights_env \<Rightarrow> rights_state \<Rightarrow> bool" where
  "lookup_idle env st \<longleftrightarrow> rs_rights_loaded st
     \<or> (rs_last_attempt_tick st \<noteq> 0 \<and> re_now env - rs_last_attempt_tick st < 1000)
     \<or> (\<not> re_read env \<and> rs_last_attempt_tick st = re_now env)"

lemma persist_flags [simp]:
  "rs_rights (fst (kbo_persist_foreign_waiver_rights env st)) = rs_rights st"
  "rs_rights_loaded (fst (kbo_persist_foreign_waiver_rights env st)) = rs_rights_loaded st"
  "rs_last_attempt_tick (fst (kbo_persist_foreign_waiver_rights env st)) = rs_last_attempt_tick st"
  "rs_last_pruned_today (fst (kbo_persist_foreign_waiver_rights env st)) = rs_last_pruned_today st"
  by (simp_all add: kbo_persist_foreign_waiver_rights_def split: prod.split)

lemma lookup_idle_ensure:
  assumes "lookup_idle env st"
  shows "kbo_ensure_foreign_waiver_rights_loaded_for_lookup env st = st"
proof -
  have "st\<lparr>rs_last_attempt_tick := rs_last_attempt_tick st\<rparr> = st" by (cases st) simp
  then show ?thesis
    using assms unfolding lookup_idle_def kbo_ensure_foreign_waiver_rights_loaded_for_lookup_def
    by (auto simp: kbo_load_foreign_waiver_rights_def kbo_foreign_waiver_rights_sql_load_def)
qed

lemma ensure_lookup_idle:
  "lookup_idle env (kbo_ensure_foreign_waiver_rights_loaded_for_lookup env st)"
  by (auto simp: lookup_idle_def kbo_ensure_foreign_waiver_rights_loaded_for_lookup_def
      kbo_load_foreign_waiver_rights_def kbo_foreign_waiver_rights_sql_load_def Let_def
      split: prod.splits option.splits if_splits)

lemma ensure_pruned:
  "rs_last_pruned_today (kbo_ensure_foreign_waiver_rights_loaded_for_lookup env st) = rs_last_pruned_today st"
  by (auto simp: kbo_ensure_foreign_waiver_rights_loaded_for_lookup_def
      kbo_load_foreign_waiver_rights_def Let_def split: prod.splits option.splits if_splits)

lemma set_right_flags [simp]:
  "rs_rights_loaded (fst (kbo_set_foreign_waiver_right env t p l a b st)) = rs_rights_loaded st"
  "rs_last_attempt_tick (fst (kbo_set_foreign_waiver_right env t p l a b st)) = rs_last_attempt_tick st"
  "rs_last_pruned_today (fst (kbo_set_foreign_waiver_right env t p l a b st)) = rs_last_pruned_today st"
  by (simp_all add: kbo_set_foreign_waiver_right_def split: option.split)

lemma set_right_idle [simp]:
  "lookup_idle env (fst (kbo_set_foreign_waiver_right env' t p l a b st)) = lookup_idle env st"
  by (simp add: lookup_idle_def)

section \<open>Rights of other players\<close>

lemma find_active_exists:
  "find_active t p today rights \<noteq> None \<longleftrightarrow>
     (\<exists>r \<in> set rights. rt_team_id r = t \<and> rt_player_id r = p \<and> kbo_is_foreign_waiver_right_active r today)"
  by (auto simp: find_active_def first_index_None)

lemma upsert_other:
  assumes "upsert key n r rows = Some rows'" and "\<And>x. P x \<Longrightarrow> key x \<noteq> key r"
  shows "(\<exists>x \<in> set rows'. P x) \<longleftrightarrow> (\<exists>x \<in> set rows. P x)"
proof (cases "first_index (\<lambda>x. key x = key r) rows")
  case None
  then have "rows' = rows @ [r]" using assms(1) by (simp add: upsert_def split: if_splits)
  then show ?thesis using assms(2) [of r] by auto
next
  case (Some i)
  note f = first_index_Some [OF Some]
  have e: "rows' = take i rows @ r # drop (Suc i) rows" "rows = take i rows @ rows ! i # drop (Suc i) rows"
    using assms(1) Some f by (simp_all add: upsert_def upd_conv_take_nth_drop id_take_nth_drop)
  have sets: "set rows' = insert r (set (take i rows) \<union> set (drop (Suc i) rows))"
      "set rows = insert (rows ! i) (set (take i rows) \<union> set (drop (Suc i) rows))"
    using arg_cong [OF e(1), of set] arg_cong [OF e(2), of set] by simp_all
  have "\<not> P r" "\<not> P (rows ! i)" using assms(2) f by auto
  then show ?thesis unfolding sets by blast
qed

lemma set_right_other:
  assumes "p \<noteq> player_id"
  shows "(find_active t p today (rs_rights (fst (kbo_set_foreign_waiver_right env team player_id l a b st))) \<noteq> None)
    \<longleftrightarrow> find_active t p today (rs_rights st) \<noteq> None"
proof (cases "team = 0 \<or> player_id = 0 \<or> l = 0 \<or> a = 0 \<or> b = 0")
  case True
  then show ?thesis by (auto simp: kbo_set_foreign_waiver_right_def)
next
  case False
  let ?r = "\<lparr>rt_player_id = player_id, rt_team_id = team, rt_league_id = l, rt_retained_on = a, rt_expires_on = b\<rparr>"
  show ?thesis
  proof (cases "upsert rt_player_id FOREIGN_WAIVER_RIGHTS_MAX ?r (rs_rights st)")
    case None
    then show ?thesis using False by (simp add: kbo_set_foreign_waiver_right_def)
  next
    case (Some rights)
    have "rs_rights (fst (kbo_set_foreign_waiver_right env team player_id l a b st)) = rights"
      using False Some by (simp add: kbo_set_foreign_waiver_right_def)
    then show ?thesis
      using upsert_other [OF Some, of "\<lambda>r. rt_team_id r = t \<and> rt_player_id r = p \<and> kbo_is_foreign_waiver_right_active r today"]
        assms by (simp only: find_active_exists) auto
  qed
qed

end
