(* ===== verification/AiRuns.thy ===== *)
theory AiRuns
  imports WaiverDecisionsLemmas
begin

text \<open>
  The loop of the automatic decisions, visit by visit: what one decision changes, when a
  player is settled, and that a run settles every player it visits.
\<close>

section \<open>One visit\<close>

text \<open>The club that decides while the window is open, and the players a run looks at.\<close>

definition deciding_team :: "player_row \<Rightarrow> u32" where
  "deciding_team player = (if pl_active_team player \<noteq> 0 then pl_active_team player else pl_current_team player)"

definition ai_candidate :: "waiver_env \<Rightarrow> waiver_world \<Rightarrow> u32 \<Rightarrow> u32 \<Rightarrow> bool" where
  "ai_candidate env w player_id team_id \<longleftrightarrow>
     (\<exists>player team. wd_players w player_id = Some player \<and> wd_teams w team_id = Some team
        \<and> player_id \<noteq> 0 \<and> kbo_player_is_foreign_for_kbo_rights player
        \<and> team_id = deciding_team player \<and> team_id \<noteq> 0
        \<and> (wv_target_team env = 0 \<or> team_id = wv_target_team env)
        \<and> (we_league_id (wv_window env) = 0 \<or> tm_league_id team = we_league_id (wv_window env)))"

text \<open>The state in which the loop runs: the window was asked for and is open until day \<open>e\<close>.\<close>

definition in_window :: "waiver_env \<Rightarrow> u32 \<Rightarrow> waiver_state \<Rightarrow> bool" where
  "in_window env e ws \<longleftrightarrow> ask_window env ws = (ws, True) \<and> snd (current_window env ws) = e \<and> e \<noteq> 0"

definition has_right :: "u32 \<Rightarrow> waiver_state \<Rightarrow> u32 \<Rightarrow> u32 \<Rightarrow> bool" where
  "has_right today ws team_id player_id \<longleftrightarrow> find_active team_id player_id today (rs_rights (ws_rights ws)) \<noteq> None"

definition has_decision :: "u32 \<Rightarrow> waiver_state \<Rightarrow> u32 \<Rightarrow> u32 \<Rightarrow> bool" where
  "has_decision e ws team_id player_id \<longleftrightarrow> (\<exists>row \<in> set (ws_decisions ws). decision_for e team_id player_id row)"

definition looked_up :: "waiver_env \<Rightarrow> waiver_state \<Rightarrow> waiver_state" where
  "looked_up env ws = ws\<lparr>ws_rights := kbo_ensure_foreign_waiver_rights_loaded_for_lookup (wv_rights env) (ws_rights ws)\<rparr>"

lemma decision_team_in_window:
  "in_window env e ws \<Longrightarrow> kbo_get_foreign_waiver_decision_team_id env player ws = (ws, deciding_team player)"
  by (auto simp: kbo_get_foreign_waiver_decision_team_id_def in_window_def deciding_team_def)

lemma ai_visit_no_candidate:
  assumes "in_window env e ws" and "\<nexists>team_id. ai_candidate env (ws_world ws) player_id team_id"
  shows "ai_visit env e today ws player_id = ws"
proof (cases "wd_players (ws_world ws) player_id")
  case (Some player)
  show ?thesis
    using assms(2) Some
    by (auto simp: ai_visit_def decision_team_in_window [OF assms(1)] ai_candidate_def split: option.splits)
qed (simp add: ai_visit_def)

lemma ai_visit_candidate:
  assumes "in_window env e ws" and "ai_candidate env (ws_world ws) player_id team_id" and "wv_query env" and "today \<noteq> 0"
    and "wd_players (ws_world ws) player_id = Some player"
  shows "ai_visit env e today ws player_id =
     (if has_right today (looked_up env ws) team_id player_id then looked_up env ws
      else if has_decision e (looked_up env ws) team_id player_id then looked_up env ws
      else ai_decide env player_id player team_id (looked_up env ws))"
proof -
  obtain team where c: "wd_teams (ws_world ws) team_id = Some team" "player_id \<noteq> 0"
      "kbo_player_is_foreign_for_kbo_rights player" "team_id = deciding_team player" "team_id \<noteq> 0"
      "\<not> (wv_target_team env \<noteq> 0 \<and> team_id \<noteq> wv_target_team env)"
      "\<not> (we_league_id (wv_window env) \<noteq> 0 \<and> tm_league_id team \<noteq> we_league_id (wv_window env))"
    using assms(2,5) by (auto simp: ai_candidate_def)
  have e: "e \<noteq> 0" using assms(1) by (simp add: in_window_def)
  have "kbo_has_active_foreign_waiver_right (wv_rights env) team_id player_id today (ws_rights ws)
      = (ws_rights (looked_up env ws), has_right today (looked_up env ws) team_id player_id)"
    using c(2,5) assms(4) by (simp add: kbo_has_active_foreign_waiver_right_def looked_up_def has_right_def Let_def)
  note has = this
  have ex: "kbo_foreign_waiver_decision_exists env e team_id player_id (looked_up env ws)
      = has_decision e (looked_up env ws) team_id player_id"
    using c(2,5) e assms(3)
    by (simp add: kbo_foreign_waiver_decision_exists_def has_decision_def list_ex_iff)
  have up: "ws\<lparr>ws_rights := ws_rights (looked_up env ws)\<rparr> = looked_up env ws" by (simp add: looked_up_def)
  have dec: "kbo_get_foreign_waiver_decision_team_id env player ws = (ws, team_id)"
    using decision_team_in_window [OF assms(1)] c(4) by simp
  have n: "\<not> (player_id = 0 \<or> \<not> kbo_player_is_foreign_for_kbo_rights player)" using c(2,3) by blast
  show ?thesis
    unfolding ai_visit_def assms(5) option.case if_not_P [OF n] dec Let_def prod.case if_not_P [OF c(6)]
      if_not_P [OF c(5)] c(1) if_not_P [OF c(7)] has up ex ..
qed

section \<open>One decision\<close>

text \<open>What a decision changes.\<close>

definition decided :: "waiver_env \<Rightarrow> u32 \<Rightarrow> u32 \<Rightarrow> u32 \<Rightarrow> waiver_state \<Rightarrow> waiver_state \<Rightarrow> bool" where
  "decided env e team_id player_id ws ws' \<longleftrightarrow>
     ws_window ws' = ws_window ws \<and> ws_ai_rights_loaded ws' = ws_ai_rights_loaded ws
     \<and> (ws_rights ws' = ws_rights ws
        \<or> (\<exists>l a b. ws_rights ws' = fst (kbo_set_foreign_waiver_right (wv_rights env) team_id player_id l a b (ws_rights ws))))
     \<and> (ws_world ws' = ws_world ws
        \<or> (\<exists>player team league ids. wd_players (ws_world ws) player_id = Some player
             \<and> wd_teams (ws_world ws) team_id = Some team
             \<and> ws_world ws' = \<lparr>wd_players = (wd_players (ws_world ws))(player_id \<mapsto> mark_retained team_id league player),
                              wd_teams = (wd_teams (ws_world ws))(team_id \<mapsto> with_array Restricted ids team)\<rparr>))
     \<and> (ws_decisions ws' = ws_decisions ws
        \<or> (\<exists>row. decision_for e team_id player_id row \<and> ws_decisions ws' = ws_decisions ws @ [row]))"

definition recorded :: "waiver_env \<Rightarrow> u32 \<Rightarrow> u32 \<Rightarrow> u32 \<Rightarrow> waiver_state \<Rightarrow> waiver_state \<Rightarrow> bool" where
  "recorded env e team_id player_id ws ws' \<longleftrightarrow>
     ((\<forall>row. wv_append env row) \<longrightarrow> has_decision e ws' team_id player_id)
     \<and> (\<exists>rows. ws' = ws\<lparr>ws_decisions := ws_decisions ws @ rows\<rparr>
          \<and> (rows = [] \<or> (\<exists>row. rows = [row] \<and> decision_for e team_id player_id row)))"

lemma append_recorded:
  assumes "snd (current_window env ws) = e" and "team_id \<noteq> 0" and "player_id \<noteq> 0" and "source \<noteq> []" and "action \<noteq> []"
  shows "recorded env e team_id player_id ws
    (fst (kbo_append_foreign_waiver_decision_record env source action team_id player_id score forced executed ws))"
proof -
  let ?ws' = "fst (kbo_append_foreign_waiver_decision_record env source action team_id player_id score forced executed ws)"
  let ?row = "\<lparr>dr_decision_date = (case we_today (wv_window env) of None \<Rightarrow> 0 | Some d \<Rightarrow> d),
      dr_window_start = fst (current_window env ws), dr_window_end = e, dr_source = source, dr_action = action,
      dr_team_id = team_id, dr_player_id = player_id, dr_value_score = score, dr_forced = forced,
      dr_executed = executed\<rparr>"
  obtain s where w: "current_window env ws = (s, e)" using assms(1) by (metis prod.collapse)
  have "?ws' = ws\<lparr>ws_decisions := ws_decisions ws @ (if wv_append env ?row then [?row] else [])\<rparr>"
    using assms(2-5) w
    by (simp add: kbo_append_foreign_waiver_decision_record_def kbo_foreign_waiver_decisions_sql_append_def Let_def)
  moreover have "decision_for e team_id player_id ?row" by (simp add: decision_for_def)
  ultimately show ?thesis
    unfolding recorded_def has_decision_def
    by (auto intro: exI [of _ "if wv_append env ?row then [?row] else []"])
qed

lemma current_window_cong: "ws_window ws' = ws_window ws \<Longrightarrow> current_window env ws' = current_window env ws"
  by (simp add: current_window_def)

lemma add_restricted:
  "\<exists>ids. fst (kbo_add_player_id_to_team_fixed_array Restricted p team) = with_array Restricted ids team"
  by (auto simp: kbo_add_player_id_to_team_fixed_array_def split: prod.splits)

text \<open>The three ways a retention can go.\<close>

lemma retain_cases:
  obtains "kbo_retain_foreign_player_rights env fallback player_id team_id ws = (ws, False)"
  | league today expires where
      "kbo_retain_foreign_player_rights env fallback player_id team_id ws
       = (ws\<lparr>ws_rights := fst (kbo_set_foreign_waiver_right (wv_rights env) team_id player_id league today expires (ws_rights ws))\<rparr>, False)"
  | league today expires player team ids where
      "wd_players (ws_world ws) player_id = Some player" "wd_teams (ws_world ws) team_id = Some team" "team_id \<noteq> 0"
      "kbo_retain_foreign_player_rights env fallback player_id team_id ws
       = (ws\<lparr>ws_rights := fst (kbo_set_foreign_waiver_right (wv_rights env) team_id player_id league today expires (ws_rights ws)),
             ws_world := \<lparr>wd_players = (wd_players (ws_world ws))(player_id \<mapsto> mark_retained team_id league player),
                          wd_teams = (wd_teams (ws_world ws))(team_id \<mapsto> with_array Restricted ids team)\<rparr>\<rparr>, True)"
proof -
  note unf = kbo_retain_foreign_player_rights_def Let_def
  consider "player_id = 0 \<or> team_id = 0 \<or> wd_players (ws_world ws) player_id = None
        \<or> wd_teams (ws_world ws) team_id = None \<or> we_today (wv_window env) = None"
    | player team today where "\<not> (player_id = 0 \<or> team_id = 0)" "wd_players (ws_world ws) player_id = Some player"
        "wd_teams (ws_world ws) team_id = Some team" "we_today (wv_window env) = Some today"
    by (metis not_None_eq)
  then show ?thesis
  proof cases
    case 1
    then show ?thesis by (intro that(1)) (auto simp: unf split: option.splits)
  next
    case 2
    define league where "league = (if tm_league_id team = 0 then fallback else tm_league_id team)"
    define expires where "expires = kbo_add_years_yyyymmdd today (word_of_int (fp_waiver_retention_years (wv_policy env)))"
    obtain rights stored where st: "kbo_set_foreign_waiver_right (wv_rights env) team_id player_id league today expires
        (ws_rights ws) = (rights, stored)" by fastforce
    obtain team' added where add: "kbo_add_player_id_to_team_fixed_array Restricted player_id team = (team', added)" by fastforce
    then obtain ids where ids: "team' = with_array Restricted ids team" using add_restricted [of player_id team] by auto
    have "kbo_retain_foreign_player_rights env fallback player_id team_id ws
        = (if tm_id team \<noteq> team_id then (ws, False) else if league = 0 then (ws, False)
           else if expires = 0 then (ws, False)
           else if \<not> stored then (ws\<lparr>ws_rights := rights\<rparr>, False)
           else if \<not> added then (ws\<lparr>ws_rights := rights\<rparr>, False)
           else (ws\<lparr>ws_rights := rights, ws_world :=
             \<lparr>wd_players = (wd_players (ws_world ws))(player_id \<mapsto> mark_retained team_id league player),
              wd_teams = (wd_teams (ws_world ws))(team_id \<mapsto> team')\<rparr>\<rparr>, True))"
      unfolding unf if_not_P [OF 2(1)] 2 option.case prod.case
      by (simp only: league_def [symmetric] expires_def [symmetric] st add prod.case)
    then show ?thesis
      using that(1) that(2) [of league today expires] that(3) [OF 2(2,3), where league = league and today = today and expires = expires and ids = ids] 2(1) st ids
      by (cases "tm_id team \<noteq> team_id \<or> league = 0 \<or> expires = 0"; cases "stored \<and> added") auto
  qed
qed

lemma retain_decided:
  "decided env e team_id player_id ws (fst (kbo_retain_foreign_player_rights env fallback player_id team_id ws))
   \<and> ws_decisions (fst (kbo_retain_foreign_player_rights env fallback player_id team_id ws)) = ws_decisions ws"
  by (rule retain_cases [of env fallback player_id team_id ws]) (auto simp: decided_def)

lemma decided_recorded:
  assumes "decided env e team_id player_id ws ws1 \<and> ws_decisions ws1 = ws_decisions ws"
    and "recorded env e team_id player_id ws1 ws2"
  shows "decided env e team_id player_id ws ws2"
proof -
  obtain rows where r: "ws2 = ws1\<lparr>ws_decisions := ws_decisions ws1 @ rows\<rparr>"
      and rows: "rows = [] \<or> (\<exists>row. rows = [row] \<and> decision_for e team_id player_id row)"
    using assms(2) unfolding recorded_def by blast
  have same: "ws_window ws2 = ws_window ws1" "ws_ai_rights_loaded ws2 = ws_ai_rights_loaded ws1"
      "ws_rights ws2 = ws_rights ws1" "ws_world ws2 = ws_world ws1"
      "ws_decisions ws2 = ws_decisions ws @ rows"
    using assms(1) by (simp_all add: r)
  show ?thesis
    using assms(1) rows unfolding decided_def same by blast
qed

lemma ai_skip_recorded:
  "snd (current_window env ws) = e \<Longrightarrow> team_id \<noteq> 0 \<Longrightarrow> player_id \<noteq> 0 \<Longrightarrow>
   recorded env e team_id player_id ws (ai_skip env team_id player_id score forced ws)"
  unfolding ai_skip_def by (rule append_recorded) simp_all

lemma decided_window: "decided env e team_id player_id ws ws1 \<Longrightarrow> current_window env ws1 = current_window env ws"
  by (rule current_window_cong) (simp add: decided_def)

lemma apply_rules_cases:
  obtains ws1 where "decided env e team_id player_id ws ws1 \<and> ws_decisions ws1 = ws_decisions ws"
      "kbo_apply_ai_foreign_waiver_rules env player_id score forced team_id ws = (ws1, False)"
  | ws1 where "decided env e team_id player_id ws ws1 \<and> ws_decisions ws1 = ws_decisions ws"
      "player_id \<noteq> 0" "team_id \<noteq> 0"
      "kbo_apply_ai_foreign_waiver_rules env player_id score forced team_id ws
       = (fst (kbo_append_foreign_waiver_decision_record env ''ai'' ''RETAIN'' team_id player_id score forced True ws1), True)"
proof -
  have refl: "decided env e team_id player_id ws ws \<and> ws_decisions ws = ws_decisions ws" by (simp add: decided_def)
  note unf = kbo_apply_ai_foreign_waiver_rules_def Let_def
  consider "team_id = 0 \<or> player_id = 0 \<or> wd_teams (ws_world ws) team_id = None \<or> wd_players (ws_world ws) player_id = None"
    | team player where "\<not> (team_id = 0 \<or> player_id = 0)" "wd_teams (ws_world ws) team_id = Some team"
        "wd_players (ws_world ws) player_id = Some player"
    by (metis not_None_eq)
  then show ?thesis
  proof cases
    case 1
    then show ?thesis by (intro that(1) [OF refl]) (auto simp: unf split: option.splits)
  next
    case 2
    define fallback where "fallback = (if pl_current_league player \<noteq> 0 then pl_current_league player else tm_league_id team)"
    obtain ws1 ok where r: "kbo_retain_foreign_player_rights env fallback player_id team_id ws = (ws1, ok)" by fastforce
    have d: "decided env e team_id player_id ws ws1 \<and> ws_decisions ws1 = ws_decisions ws"
      using retain_decided [of env e team_id player_id ws fallback] r by simp
    have "kbo_apply_ai_foreign_waiver_rules env player_id score forced team_id ws
       = (if fallback = 0 then (ws, False) else if \<not> ok then (ws1, False)
          else (fst (kbo_append_foreign_waiver_decision_record env ''ai'' ''RETAIN'' team_id player_id score forced True ws1), True))"
      unfolding unf if_not_P [OF 2(1)] 2 option.case prod.case
      by (simp only: fallback_def [symmetric] r prod.case)
    then show ?thesis using that(1) [OF refl] that(1) [OF d] that(2) [OF d] 2(1) by (cases "fallback = 0"; cases ok) auto
  qed
qed

lemma ai_decide_decided:
  assumes "snd (current_window env ws) = e" and "team_id \<noteq> 0" and "player_id \<noteq> 0"
  shows "decided env e team_id player_id ws (ai_decide env player_id player team_id ws)
    \<and> ((\<forall>row. wv_append env row) \<longrightarrow> has_decision e (ai_decide env player_id player team_id ws) team_id player_id)"
proof -
  have fin: "decided env e team_id player_id ws ws2 \<and> ((\<forall>row. wv_append env row) \<longrightarrow> has_decision e ws2 team_id player_id)"
    if "decided env e team_id player_id ws ws1 \<and> ws_decisions ws1 = ws_decisions ws"
      "recorded env e team_id player_id ws1 ws2" for ws1 ws2
    using decided_recorded [OF that] that(2) by (simp add: recorded_def)
  have refl: "decided env e team_id player_id ws ws \<and> ws_decisions ws = ws_decisions ws" by (simp add: decided_def)
  let ?forced = "kbo_is_forced_foreign_candidate_id (wv_forced_file env) player_id"
  let ?score = "kbo_foreign_waiver_value_score (wv_policy env) player"
  show ?thesis
  proof (cases "fst (kbo_ai_foreign_waiver_should_retain env player player_id team_id ?score ?forced)")
    case False
    then show ?thesis
      using fin [OF refl ai_skip_recorded [OF assms]] by (simp add: ai_decide_def Let_def)
  next
    case True
    show ?thesis
    proof (rule apply_rules_cases [of env e team_id player_id ws ?score ?forced])
      fix ws1
      assume d: "decided env e team_id player_id ws ws1 \<and> ws_decisions ws1 = ws_decisions ws"
        and a: "kbo_apply_ai_foreign_waiver_rules env player_id ?score ?forced team_id ws = (ws1, False)"
      have "snd (current_window env ws1) = e" using decided_window d assms(1) by metis
      note s = ai_skip_recorded [OF this assms(2,3)]
      show ?thesis using fin [OF d s] True a by (simp add: ai_decide_def Let_def)
    next
      fix ws1
      assume d: "decided env e team_id player_id ws ws1 \<and> ws_decisions ws1 = ws_decisions ws"
        and a: "kbo_apply_ai_foreign_waiver_rules env player_id ?score ?forced team_id ws
          = (fst (kbo_append_foreign_waiver_decision_record env ''ai'' ''RETAIN'' team_id player_id ?score ?forced True ws1), True)"
      have "snd (current_window env ws1) = e" using decided_window d assms(1) by metis
      note s = append_recorded [OF this assms(2,3), of "''ai''" "''RETAIN''" ?score ?forced True]
      show ?thesis using fin [OF d s] True a by (simp add: ai_decide_def Let_def)
    qed
  qed
qed

section \<open>A player is decided\<close>

definition settled :: "waiver_env \<Rightarrow> u32 \<Rightarrow> u32 \<Rightarrow> waiver_state \<Rightarrow> u32 \<Rightarrow> bool" where
  "settled env e today ws player_id \<longleftrightarrow>
     (\<forall>team_id. ai_candidate env (ws_world ws) player_id team_id \<longrightarrow>
        lookup_idle (wv_rights env) (ws_rights ws)
        \<and> (has_right today ws team_id player_id \<or> has_decision e ws team_id player_id))"

lemma candidate_unique: "ai_candidate env w p t \<Longrightarrow> ai_candidate env w p t' \<Longrightarrow> t = t'"
  by (auto simp: ai_candidate_def)

lemma looked_up_simps [simp]:
  "ws_window (looked_up env ws) = ws_window ws" "ws_world (looked_up env ws) = ws_world ws"
  "ws_decisions (looked_up env ws) = ws_decisions ws" "ws_ai_rights_loaded (looked_up env ws) = ws_ai_rights_loaded ws"
  "lookup_idle (wv_rights env) (ws_rights (looked_up env ws))"
  by (simp_all add: looked_up_def ensure_lookup_idle)

lemma looked_up_idle: "lookup_idle (wv_rights env) (ws_rights ws) \<Longrightarrow> looked_up env ws = ws"
  by (simp add: looked_up_def lookup_idle_ensure)

lemma settled_visit:
  assumes "in_window env e ws" and "settled env e today ws player_id" and "wv_query env" and "today \<noteq> 0"
  shows "ai_visit env e today ws player_id = ws"
proof (cases "\<exists>team_id. ai_candidate env (ws_world ws) player_id team_id")
  case False
  then show ?thesis by (rule ai_visit_no_candidate [OF assms(1)])
next
  case True
  then obtain team_id where c: "ai_candidate env (ws_world ws) player_id team_id" by blast
  then obtain player where p: "wd_players (ws_world ws) player_id = Some player" by (auto simp: ai_candidate_def)
  have s: "looked_up env ws = ws" "has_right today ws team_id player_id \<or> has_decision e ws team_id player_id"
    using assms(2) c looked_up_idle by (simp_all add: settled_def)
  show ?thesis unfolding ai_visit_candidate [OF assms(1) c assms(3,4) p] s(1) using s(2) by argo
qed

text \<open>A visit leaves the state as it was up to a lookup, or decides a candidate.\<close>

lemma ai_visit_cases:
  assumes "in_window env e ws" and "wv_query env" and "today \<noteq> 0"
  obtains "ai_visit env e today ws player_id = ws" "\<nexists>team_id. ai_candidate env (ws_world ws) player_id team_id"
  | team_id where "ai_candidate env (ws_world ws) player_id team_id" "ai_visit env e today ws player_id = looked_up env ws"
      "has_right today (looked_up env ws) team_id player_id \<or> has_decision e (looked_up env ws) team_id player_id"
  | team_id player where "ai_candidate env (ws_world ws) player_id team_id" "team_id \<noteq> 0" "player_id \<noteq> 0"
      "\<not> has_decision e (looked_up env ws) team_id player_id"
      "ai_visit env e today ws player_id = ai_decide env player_id player team_id (looked_up env ws)"
      "decided env e team_id player_id (looked_up env ws) (ai_visit env e today ws player_id)"
      "(\<forall>row. wv_append env row) \<longrightarrow> has_decision e (ai_visit env e today ws player_id) team_id player_id"
proof (cases "\<exists>team_id. ai_candidate env (ws_world ws) player_id team_id")
  case False
  then show ?thesis using that(1) ai_visit_no_candidate [OF assms(1) False] by blast
next
  case True
  then obtain team_id where c: "ai_candidate env (ws_world ws) player_id team_id" by blast
  then obtain player where p: "wd_players (ws_world ws) player_id = Some player" "player_id \<noteq> 0" "team_id \<noteq> 0"
    by (auto simp: ai_candidate_def)
  note v = ai_visit_candidate [OF assms(1) c assms(2,3) p(1)]
  show ?thesis
  proof (cases "has_right today (looked_up env ws) team_id player_id \<or> has_decision e (looked_up env ws) team_id player_id")
    case True
    then have "ai_visit env e today ws player_id = looked_up env ws" unfolding v by argo
    then show ?thesis using that(2) [OF c _ True] by blast
  next
    case False
    then have d: "ai_visit env e today ws player_id = ai_decide env player_id player team_id (looked_up env ws)"
      unfolding v by argo
    have "snd (current_window env (looked_up env ws)) = e"
      using assms(1) current_window_cong [of "looked_up env ws" ws env] by (simp add: in_window_def)
    note dd = ai_decide_decided [OF this p(3,2), of player]
    show ?thesis using that(3) [OF c p(3,2) _ d] False dd unfolding d by blast
  qed
qed

section \<open>What a decision leaves as it was\<close>

lemma in_window_cong:
  assumes "ws_window ws' = ws_window ws" and "in_window env e ws"
  shows "in_window env e ws'"
proof -
  obtain win b where w: "kbo_is_foreign_waiver_negotiation_window_open (wv_window env) (ws_window ws) = (win, b)" by fastforce
  then have "ws\<lparr>ws_window := win\<rparr> = ws" "b" using assms(2) by (simp_all add: in_window_def ask_window_def)
  then have "ws_window (ws\<lparr>ws_window := win\<rparr>) = ws_window ws" by simp
  then have "win = ws_window ws'" using assms(1) by simp
  moreover have "ws'\<lparr>ws_window := ws_window ws'\<rparr> = ws'" by (cases ws') simp
  ultimately show ?thesis
    using w \<open>b\<close> assms current_window_cong [OF assms(1), of env] by (simp add: in_window_def ask_window_def)
qed

lemma decided_in_window: "decided env e t p ws ws' \<Longrightarrow> in_window env e ws \<Longrightarrow> in_window env e ws'"
  by (rule in_window_cong [of ws' ws]) (simp_all add: decided_def)

lemma decided_idle:
  "decided env e t p ws ws' \<Longrightarrow> lookup_idle (wv_rights env) (ws_rights ws') = lookup_idle (wv_rights env) (ws_rights ws)"
  by (auto simp: decided_def)

lemma decided_has_decision: "decided env e t p ws ws' \<Longrightarrow> has_decision e' ws t' p' \<Longrightarrow> has_decision e' ws' t' p'"
  by (auto simp: decided_def has_decision_def)

lemma decided_has_right:
  assumes "decided env e t p ws ws'" and "p' \<noteq> p"
  shows "has_right today ws' t' p' = has_right today ws t' p'"
proof -
  from assms(1) consider "ws_rights ws' = ws_rights ws"
    | l a b where "ws_rights ws' = fst (kbo_set_foreign_waiver_right (wv_rights env) t p l a b (ws_rights ws))"
    unfolding decided_def by blast
  then show ?thesis
    unfolding has_right_def by cases (simp_all only: set_right_other [OF assms(2)])
qed

lemma with_array_ids [simp]: "tm_id (with_array a ids t) = tm_id t" "tm_league_id (with_array a ids t) = tm_league_id t"
  by (simp_all add: with_array_def)

lemma decided_candidate_other:
  assumes "decided env e t p ws ws'" and "p' \<noteq> p"
  shows "ai_candidate env (ws_world ws') p' t' = ai_candidate env (ws_world ws) p' t'"
proof -
  from assms(1) consider "ws_world ws' = ws_world ws"
    | player team league ids where "wd_teams (ws_world ws) t = Some team"
        "ws_world ws' = \<lparr>wd_players = (wd_players (ws_world ws))(p \<mapsto> mark_retained t league player),
                         wd_teams = (wd_teams (ws_world ws))(t \<mapsto> with_array Restricted ids team)\<rparr>"
    unfolding decided_def by blast
  then show ?thesis
  proof cases
    case 2
    show ?thesis
    proof (cases "t' = t")
      case True
      then show ?thesis unfolding ai_candidate_def 2(2) using assms(2) 2(1) by auto
    next
      case False
      then show ?thesis unfolding ai_candidate_def 2(2) using assms(2) by auto
    qed
  qed simp
qed

lemma decided_candidate:
  assumes "decided env e t p ws ws'" and "ai_candidate env (ws_world ws) p t" and "ai_candidate env (ws_world ws') p t'"
  shows "t' = t"
proof -
  from assms(1) consider "ws_world ws' = ws_world ws"
    | player team league ids where
        "ws_world ws' = \<lparr>wd_players = (wd_players (ws_world ws))(p \<mapsto> mark_retained t league player),
                         wd_teams = (wd_teams (ws_world ws))(t \<mapsto> with_array Restricted ids team)\<rparr>"
    unfolding decided_def by blast
  then show ?thesis
  proof cases
    case 1
    then show ?thesis using assms(2,3) candidate_unique by metis
  next
    case 2
    have "t \<noteq> 0" using assms(2) by (auto simp: ai_candidate_def)
    then have "deciding_team (mark_retained t league player) = t" by (simp add: deciding_team_def mark_retained_def)
    then show ?thesis using assms(3) unfolding ai_candidate_def 2 by auto
  qed
qed

lemma looked_up_in_window: "in_window env e ws \<Longrightarrow> in_window env e (looked_up env ws)"
  by (rule in_window_cong [of _ ws]) simp_all

lemma visit_in_window:
  assumes "in_window env e ws" and "wv_query env" and "today \<noteq> 0"
  shows "in_window env e (ai_visit env e today ws player_id)"
proof (rule ai_visit_cases [OF assms, of player_id])
  fix team_id player
  assume "decided env e team_id player_id (looked_up env ws) (ai_visit env e today ws player_id)"
  then show ?thesis by (rule decided_in_window) (rule looked_up_in_window [OF assms(1)])
qed (simp_all add: assms(1) looked_up_in_window)

lemma visit_settles:
  assumes "in_window env e ws" and "wv_query env" and "today \<noteq> 0" and "\<forall>row. wv_append env row"
  shows "settled env e today (ai_visit env e today ws player_id) player_id"
proof (rule ai_visit_cases [OF assms(1-3), of player_id])
  assume "ai_visit env e today ws player_id = ws" "\<nexists>team_id. ai_candidate env (ws_world ws) player_id team_id"
  then show ?thesis by (simp add: settled_def)
next
  fix team_id
  assume c: "ai_candidate env (ws_world ws) player_id team_id" "ai_visit env e today ws player_id = looked_up env ws"
    "has_right today (looked_up env ws) team_id player_id \<or> has_decision e (looked_up env ws) team_id player_id"
  show ?thesis
    unfolding settled_def c(2)
  proof (intro allI impI)
    fix t
    assume "ai_candidate env (ws_world (looked_up env ws)) player_id t"
    then have t: "team_id = t" by (intro candidate_unique [OF c(1)]) simp
    show "lookup_idle (wv_rights env) (ws_rights (looked_up env ws))
        \<and> (has_right today (looked_up env ws) t player_id \<or> has_decision e (looked_up env ws) t player_id)"
      using c(3) unfolding t by simp
  qed
next
  fix team_id player
  assume c: "ai_candidate env (ws_world ws) player_id team_id"
    "decided env e team_id player_id (looked_up env ws) (ai_visit env e today ws player_id)"
    "(\<forall>row. wv_append env row) \<longrightarrow> has_decision e (ai_visit env e today ws player_id) team_id player_id"
  have c1: "ai_candidate env (ws_world (looked_up env ws)) player_id team_id" using c(1) by simp
  show ?thesis
    unfolding settled_def
  proof (intro allI impI)
    fix t
    assume "ai_candidate env (ws_world (ai_visit env e today ws player_id)) player_id t"
    then have t: "t = team_id" by (rule decided_candidate [OF c(2) c1])
    show "lookup_idle (wv_rights env) (ws_rights (ai_visit env e today ws player_id))
        \<and> (has_right today (ai_visit env e today ws player_id) t player_id
           \<or> has_decision e (ai_visit env e today ws player_id) t player_id)"
      using c(3) assms(4) unfolding t decided_idle [OF c(2)] by simp
  qed
qed

lemma visit_keeps_settled:
  assumes "in_window env e ws" and "wv_query env" and "today \<noteq> 0" and "\<forall>row. wv_append env row"
    and "settled env e today ws p"
  shows "settled env e today (ai_visit env e today ws player_id) p"
proof (cases "p = player_id")
  case True
  then show ?thesis using visit_settles [OF assms(1-4)] by simp
next
  case False
  have up: "settled env e today (looked_up env ws) p"
    unfolding settled_def looked_up_simps
    using assms(5) looked_up_idle [of env ws] by (auto simp: settled_def)
  show ?thesis
  proof (rule ai_visit_cases [OF assms(1-3), of player_id])
    fix team_id player
    assume c: "decided env e team_id player_id (looked_up env ws) (ai_visit env e today ws player_id)"
    show ?thesis
      unfolding settled_def decided_candidate_other [OF c False] decided_idle [OF c] decided_has_right [OF c False]
      using up decided_has_decision [OF c] by (auto simp: settled_def)
  qed (use up assms(5) in simp_all)
qed

section \<open>The whole run\<close>

lemma visits_settle:
  assumes "in_window env e ws" and "wv_query env" and "today \<noteq> 0" and "\<forall>row. wv_append env row"
    and "\<forall>p \<in> done_ids. settled env e today ws p"
  shows "in_window env e (foldl (ai_visit env e today) ws ids)
    \<and> (\<forall>p \<in> done_ids \<union> set ids. settled env e today (foldl (ai_visit env e today) ws ids) p)"
  using assms(1,5)
proof (induction ids arbitrary: ws done_ids)
  case (Cons p ids)
  let ?ws1 = "ai_visit env e today ws p"
  have "in_window env e ?ws1" by (rule visit_in_window [OF Cons.prems(1) assms(2,3)])
  moreover have "\<forall>q \<in> insert p done_ids. settled env e today ?ws1 q"
    using visit_settles [OF Cons.prems(1) assms(2-4)] visit_keeps_settled [OF Cons.prems(1) assms(2-4)] Cons.prems(2) by blast
  ultimately show ?case using Cons.IH [of ?ws1 "insert p done_ids"] by auto
qed simp

lemma settled_visits:
  assumes "in_window env e ws" and "wv_query env" and "today \<noteq> 0" and "\<forall>p \<in> set ids. settled env e today ws p"
  shows "foldl (ai_visit env e today) ws ids = ws"
  using assms(4) by (induction ids) (simp_all add: settled_visit [OF assms(1) _ assms(2,3)])

end
