(* ===== verification/WaiverDecisionsProps.thy ===== *)
theory WaiverDecisionsProps
  imports AiRuns WaiverWindowProps ForeignPolicyProps
begin

text \<open>
  What the automatic decisions do: every eligible player is decided once in a window, by the
  threshold, and running again changes nothing.
\<close>

section \<open>Before and after the loop\<close>

lemma visit_keeps:
  assumes "in_window env e ws" and "wv_query env" and "today \<noteq> 0"
  shows "ws_ai_rights_loaded (ai_visit env e today ws p) = ws_ai_rights_loaded ws
    \<and> rs_last_pruned_today (ws_rights (ai_visit env e today ws p)) = rs_last_pruned_today (ws_rights ws)"
proof (rule ai_visit_cases [OF assms, of p])
  fix team_id player
  assume d: "decided env e team_id p (looked_up env ws) (ai_visit env e today ws p)"
  have "rs_last_pruned_today (ws_rights (looked_up env ws)) = rs_last_pruned_today (ws_rights ws)"
    by (simp add: looked_up_def ensure_pruned)
  then show ?thesis using d unfolding decided_def looked_up_simps by auto
qed (simp_all add: looked_up_def ensure_pruned)

lemma visits_keep:
  assumes "in_window env e ws" and "wv_query env" and "today \<noteq> 0"
  shows "ws_ai_rights_loaded (foldl (ai_visit env e today) ws ids) = ws_ai_rights_loaded ws
    \<and> rs_last_pruned_today (ws_rights (foldl (ai_visit env e today) ws ids)) = rs_last_pruned_today (ws_rights ws)"
  using assms(1)
proof (induction ids arbitrary: ws)
  case (Cons p ids)
  then show ?case
    using visit_keeps [OF Cons.prems assms(2,3), of p] visit_in_window [OF Cons.prems assms(2,3), of p] by simp
qed simp

definition pruned :: "waiver_env \<Rightarrow> u32 \<Rightarrow> waiver_state \<Rightarrow> waiver_state" where
  "pruned env today ws = ws\<lparr>ws_rights := kbo_prune_expired_foreign_waiver_rights (wv_rights env) today (ws_rights ws)\<rparr>"

lemma prune_last [simp]:
  "today \<noteq> 0 \<Longrightarrow> rs_last_pruned_today (kbo_prune_expired_foreign_waiver_rights env today st) = today"
  by (simp add: kbo_prune_expired_foreign_waiver_rights_def Let_def)

lemma pruned_twice: "rs_last_pruned_today (ws_rights ws) = today \<Longrightarrow> pruned env today ws = ws"
  by (simp add: pruned_def kbo_prune_expired_foreign_waiver_rights_def)

lemma pruned_simps [simp]:
  "ws_window (pruned env today ws) = ws_window ws" "ws_world (pruned env today ws) = ws_world ws"
  "ws_decisions (pruned env today ws) = ws_decisions ws" "ws_ai_rights_loaded (pruned env today ws) = ws_ai_rights_loaded ws"
  by (simp_all add: pruned_def)

lemma ai_load_simps [simp]:
  "ws_window (ai_load_rights env ws) = ws_window ws" "ws_world (ai_load_rights env ws) = ws_world ws"
  "ws_decisions (ai_load_rights env ws) = ws_decisions ws" "ws_ai_rights_loaded (ai_load_rights env ws)"
  by (simp_all add: ai_load_rights_def)

lemma ai_load_twice: "ws_ai_rights_loaded ws \<Longrightarrow> ai_load_rights env ws = ws"
  by (simp add: ai_load_rights_def)

lemma ask_window_simps:
  "ws_world (fst (ask_window env ws)) = ws_world ws" "ws_decisions (fst (ask_window env ws)) = ws_decisions ws"
  "ws_ai_rights_loaded (fst (ask_window env ws)) = ws_ai_rights_loaded ws"
  by (simp_all add: ask_window_def split: prod.split)

lemma ask_window_cong:
  assumes "ws_window ws' = ws_window ws"
  shows "snd (ask_window env ws') = snd (ask_window env ws)"
    and "current_window env (fst (ask_window env ws')) = current_window env (fst (ask_window env ws))"
  using assms by (simp_all add: ask_window_def current_window_def split: prod.split)

text \<open>A run as its parts: the state the loop starts from.\<close>

definition loop_start :: "waiver_env \<Rightarrow> u32 \<Rightarrow> waiver_state \<Rightarrow> waiver_state" where
  "loop_start env today ws = pruned env today (fst (ask_window env (ai_load_rights env ws)))"

lemma run_open:
  assumes "wv_ai_enabled env" and "snd (ask_window env ws)" and "we_today (wv_window env) = Some today"
  shows "run_foreign_waiver_ai_core_once env ws = (case wv_players env of None \<Rightarrow> loop_start env today ws
    | Some ids \<Rightarrow> foldl (ai_visit env (snd (current_window env (fst (ask_window env ws)))) today) (loop_start env today ws) ids)"
proof -
  note c = ask_window_cong [of "ai_load_rights env ws" ws env, OF ai_load_simps(1)]
  obtain ws1 where a: "ask_window env (ai_load_rights env ws) = (ws1, True)" using assms(2) c(1) by (metis prod.collapse)
  then have w: "current_window env (fst (ask_window env ws)) = current_window env ws1" using c(2) by simp
  show ?thesis
    unfolding run_foreign_waiver_ai_core_once_def w loop_start_def a pruned_def
    using assms(1,3) by (simp add: Let_def split: option.split)
qed

lemma run_closed:
  assumes "wv_ai_enabled env" and "\<not> snd (ask_window env ws)"
  shows "run_foreign_waiver_ai_core_once env ws = fst (ask_window env (ai_load_rights env ws))"
proof -
  obtain ws1 where a: "ask_window env (ai_load_rights env ws) = (ws1, False)"
    using assms(2) ask_window_cong(1) [of "ai_load_rights env ws" ws env, OF ai_load_simps(1)] by (metis prod.collapse)
  show ?thesis using assms(1) unfolding run_foreign_waiver_ai_core_once_def a by simp
qed

lemma loop_start_in_window:
  assumes "snd (ask_window env ws)" and "snd (current_window env (fst (ask_window env ws))) \<noteq> 0"
  shows "in_window env (snd (current_window env (fst (ask_window env ws)))) (loop_start env today ws)"
proof -
  note c = ask_window_cong [of "ai_load_rights env ws" ws env, OF ai_load_simps(1)]
  obtain ws1 where a: "ask_window env (ai_load_rights env ws) = (ws1, True)" using assms(1) c(1) by (metis prod.collapse)
  note a2 = ask_window_twice [OF a]
  have w: "current_window env (fst (ask_window env ws)) = current_window env ws1"
    unfolding c(2) [symmetric] a by simp
  have "in_window env (snd (current_window env (fst (ask_window env ws)))) ws1"
    unfolding in_window_def w by (intro conjI refl a2 assms(2) [unfolded w])
  then show ?thesis
    unfolding loop_start_def a fst_conv by (rule in_window_cong [OF pruned_simps(1)])
qed

section \<open>Running again\<close>

text \<open>
  C9: running the automatic decisions a second time on the same day, with the decisions of
  the first run recorded, changes nothing: neither the rights, the players and teams, nor the
  record of the decisions.
\<close>

theorem second_ai_run_changes_nothing:
  assumes "wv_query env" and "\<forall>row. wv_append env row" and "we_today (wv_window env) \<noteq> Some 0"
    and "snd (current_window env (fst (ask_window env ws))) \<noteq> 0"
  shows "run_foreign_waiver_ai_core_once env (run_foreign_waiver_ai_core_once env ws)
    = run_foreign_waiver_ai_core_once env ws"
proof (cases "wv_ai_enabled env \<and> we_today (wv_window env) \<noteq> None \<and> snd (ask_window env ws)")
  case True
  then obtain today where t: "we_today (wv_window env) = Some today" "today \<noteq> 0" using assms(3) by auto
  define e where "e = snd (current_window env (fst (ask_window env ws)))"
  note w = loop_start_in_window [OF True [THEN conjunct2, THEN conjunct2] assms(4), of today, folded e_def]
  have run: "run_foreign_waiver_ai_core_once env ws' = (case wv_players env of None \<Rightarrow> ws'
      | Some ids \<Rightarrow> foldl (ai_visit env e today) ws' ids)"
    if i: "in_window env e ws'" and "ws_ai_rights_loaded ws'" "rs_last_pruned_today (ws_rights ws') = today" for ws'
  proof -
    have a: "ask_window env ws' = (ws', True)" "snd (current_window env ws') = e" using i by (simp_all add: in_window_def)
    have l: "loop_start env today ws' = ws'"
      using that a by (simp add: loop_start_def ai_load_twice pruned_twice)
    have f: "snd (current_window env (fst (ask_window env ws'))) = e" using a by simp
    have "run_foreign_waiver_ai_core_once env ws' = (case wv_players env of None \<Rightarrow> loop_start env today ws'
        | Some ids \<Rightarrow> foldl (ai_visit env (snd (current_window env (fst (ask_window env ws')))) today) (loop_start env today ws') ids)"
      by (rule run_open) (use True t a in simp_all)
    then show ?thesis unfolding l f .
  qed
  have first: "run_foreign_waiver_ai_core_once env ws = (case wv_players env of None \<Rightarrow> loop_start env today ws
      | Some ids \<Rightarrow> foldl (ai_visit env e today) (loop_start env today ws) ids)"
    using run_open [of env ws today] True t(1) unfolding e_def by simp
  have start: "ws_ai_rights_loaded (loop_start env today ws)" "rs_last_pruned_today (ws_rights (loop_start env today ws)) = today"
    using t(2) by (simp_all add: loop_start_def ask_window_simps) (simp add: pruned_def)
  show ?thesis
  proof (cases "wv_players env")
    case None
    then show ?thesis using first run [OF w start] by simp
  next
    case (Some ids)
    let ?ws' = "foldl (ai_visit env e today) (loop_start env today ws) ids"
    have s: "in_window env e ?ws' \<and> (\<forall>p \<in> {} \<union> set ids. settled env e today ?ws' p)"
      by (rule visits_settle [OF w assms(1) t(2) assms(2)]) simp
    have "run_foreign_waiver_ai_core_once env ?ws' = foldl (ai_visit env e today) ?ws' ids"
      using run [of ?ws'] s visits_keep [OF w assms(1) t(2), of ids] start Some by simp
    also have "\<dots> = ?ws'" by (rule settled_visits [OF _ assms(1) t(2)]) (use s in auto)
    finally show ?thesis using first Some by simp
  qed
next
  case False
  show ?thesis
  proof (cases "wv_ai_enabled env")
    case en: True
    have closed: "\<not> snd (ask_window env ws)" 
    proof (cases "we_today (wv_window env)")
      case None
      then show ?thesis by (simp add: ask_window_def kbo_is_foreign_waiver_negotiation_window_open_def split: prod.split)
    next
      case Some
      then show ?thesis using False en by simp
    qed
    obtain ws1 where a: "ask_window env (ai_load_rights env ws) = (ws1, False)"
      using closed ask_window_cong(1) [of "ai_load_rights env ws" ws env] by (metis ai_load_simps(1) prod.collapse)
    note a2 = ask_window_twice [OF a]
    have "ws_ai_rights_loaded ws1" using a ask_window_simps(3) [of env "ai_load_rights env ws"] by simp
    then show ?thesis
      using run_closed [OF en closed] run_closed [OF en, of ws1] a a2 by (simp add: ai_load_twice)
  qed (simp add: run_foreign_waiver_ai_core_once_def)
qed

text \<open>A club with one foreign player, five days into a window, and nothing decided yet.\<close>

definition demo_club :: team_row where
  "demo_club = \<lparr>tm_id = 5, tm_league_id = 200, tm_parent_team_id = 0, tm_arrays = (\<lambda>_. replicate 200 0)\<rparr>"

definition demo_waiver_env :: waiver_env where
  "demo_waiver_env = \<lparr>wv_rights = \<lparr>re_read = True, re_write = (\<lambda>_. True), re_now = 100\<rparr>,
     wv_window = demo_window_env 20251110,
     wv_policy = kbo_foreign_player_policy (\<lambda>_ _. None) \<lparr>pf_scoped = None, pf_global = None\<rparr>,
     wv_quota_nations = [98], wv_value_threshold_file = 0, wv_asian_threshold_file = 0, wv_target_team = 0,
     wv_forced_file = None, wv_ai_enabled = True, wv_players = Some [11], wv_append = (\<lambda>_. True), wv_query = True\<rparr>"

definition demo_waiver_state :: waiver_state where
  "demo_waiver_state = \<lparr>ws_rights = initial_rights [], ws_window = initial_window None,
     ws_world = \<lparr>wd_players = [11 \<mapsto> demo_foreigner], wd_teams = [5 \<mapsto> demo_club]\<rparr>,
     ws_decisions = [], ws_ai_rights_loaded = False, ws_top_rights_loaded = False\<rparr>"

lemma demo_window:
  "snd (ask_window demo_waiver_env demo_waiver_state)"
  "snd (current_window demo_waiver_env (fst (ask_window demo_waiver_env demo_waiver_state))) = 20251125"
proof -
  obtain st open_now where r: "kbo_is_foreign_waiver_negotiation_window_open (demo_window_env 20251110) (initial_window None) = (st, open_now)"
    by (rule prod.exhaust)
  have "snd (kbo_is_foreign_waiver_negotiation_window_open (demo_window_env 20251110) (initial_window None))
      \<and> kbo_current_foreign_waiver_window_dates (demo_window_env 20251110)
          (fst (kbo_is_foreign_waiver_negotiation_window_open (demo_window_env 20251110) (initial_window None)))
        = Some (20251105, 20251125)"
    by code_simp
  then have d: "open_now" "kbo_current_foreign_waiver_window_dates (demo_window_env 20251110) st = Some (20251105, 20251125)"
    unfolding r by simp_all
  have asked: "ask_window demo_waiver_env demo_waiver_state = (demo_waiver_state\<lparr>ws_window := st\<rparr>, open_now)"
    using r by (simp add: ask_window_def demo_waiver_env_def demo_waiver_state_def)
  show "snd (ask_window demo_waiver_env demo_waiver_state)"
    and "snd (current_window demo_waiver_env (fst (ask_window demo_waiver_env demo_waiver_state))) = 20251125"
    unfolding asked current_window_def fst_conv snd_conv using d by (simp_all add: demo_waiver_env_def)
qed

lemma demo_waiver_simps:
  "wv_query demo_waiver_env" "\<forall>row. wv_append demo_waiver_env row" "wv_ai_enabled demo_waiver_env"
  "we_today (wv_window demo_waiver_env) = Some 20251110" "wv_players demo_waiver_env = Some [11]"
  by (simp_all add: demo_waiver_env_def demo_window_env_def)

theorem second_ai_run_changes_nothing_witness:
  "run_foreign_waiver_ai_core_once demo_waiver_env (run_foreign_waiver_ai_core_once demo_waiver_env demo_waiver_state)
    = run_foreign_waiver_ai_core_once demo_waiver_env demo_waiver_state"
  by (rule second_ai_run_changes_nothing) (simp_all add: demo_waiver_simps demo_window)

section \<open>Every candidate is decided once\<close>

definition decision_keys :: "waiver_state \<Rightarrow> (u32 \<times> u32 \<times> u32) list" where
  "decision_keys ws = map (\<lambda>r. (dr_window_end r, dr_team_id r, dr_player_id r)) (ws_decisions ws)"

lemma visit_distinct:
  assumes "in_window env e ws" and "wv_query env" and "today \<noteq> 0" and "distinct (decision_keys ws)"
  shows "distinct (decision_keys (ai_visit env e today ws p))"
proof (rule ai_visit_cases [OF assms(1-3), of p])
  fix team_id player
  assume n: "\<not> has_decision e (looked_up env ws) team_id p"
    and d: "decided env e team_id p (looked_up env ws) (ai_visit env e today ws p)"
  from d consider "ws_decisions (ai_visit env e today ws p) = ws_decisions ws"
    | row where "decision_for e team_id p row" "ws_decisions (ai_visit env e today ws p) = ws_decisions ws @ [row]"
    unfolding decided_def looked_up_simps by blast
  then show ?thesis
  proof cases
    case 1
    then show ?thesis using assms(4) by (simp add: decision_keys_def)
  next
    case 2
    have "(e, team_id, p) \<notin> set (decision_keys ws)"
      using n by (auto simp: has_decision_def decision_for_def decision_keys_def)
    then show ?thesis using assms(4) 2 by (simp add: decision_keys_def decision_for_def)
  qed
qed (use assms(4) in \<open>simp_all add: decision_keys_def\<close>)

lemma decided_keeps_candidate:
  assumes "decided env e t p ws ws'" and "ai_candidate env (ws_world ws) p t"
  shows "ai_candidate env (ws_world ws') p t"
proof -
  from assms(1) consider "ws_world ws' = ws_world ws"
    | player team league ids where "wd_players (ws_world ws) p = Some player" "wd_teams (ws_world ws) t = Some team"
        "ws_world ws' = \<lparr>wd_players = (wd_players (ws_world ws))(p \<mapsto> mark_retained t league player),
                         wd_teams = (wd_teams (ws_world ws))(t \<mapsto> with_array Restricted ids team)\<rparr>"
    unfolding decided_def by blast
  then show ?thesis
  proof cases
    case 2
    have "t \<noteq> 0" using assms(2) by (auto simp: ai_candidate_def)
    then have "deciding_team (mark_retained t league player) = t"
      "kbo_player_is_foreign_for_kbo_rights (mark_retained t league player) = kbo_player_is_foreign_for_kbo_rights player"
      by (simp_all add: deciding_team_def mark_retained_def kbo_player_is_foreign_for_kbo_rights_def)
    then show ?thesis using assms(2) 2(1,2) unfolding ai_candidate_def 2(3) by auto
  qed (use assms(2) in simp)
qed

lemma visit_keeps_candidate:
  assumes "in_window env e ws" and "wv_query env" and "today \<noteq> 0" and "ai_candidate env (ws_world ws) p t"
  shows "ai_candidate env (ws_world (ai_visit env e today ws q)) p t"
proof (rule ai_visit_cases [OF assms(1-3), of q])
  fix team_id player
  assume c: "ai_candidate env (ws_world ws) q team_id"
    and d: "decided env e team_id q (looked_up env ws) (ai_visit env e today ws q)"
  show ?thesis
  proof (cases "p = q")
    case True
    then have "t = team_id" using candidate_unique [OF c] assms(4) by simp
    then show ?thesis using decided_keeps_candidate [OF d] c True by simp
  next
    case False
    then show ?thesis using decided_candidate_other [OF d False] assms(4) by simp
  qed
qed (use assms(4) in simp_all)

lemma visits_keep_candidates:
  assumes "in_window env e ws" and "wv_query env" and "today \<noteq> 0"
  shows "(\<forall>p t. ai_candidate env (ws_world ws) p t \<longrightarrow> ai_candidate env (ws_world (foldl (ai_visit env e today) ws ids)) p t)
    \<and> (distinct (decision_keys ws) \<longrightarrow> distinct (decision_keys (foldl (ai_visit env e today) ws ids)))"
  using assms(1)
proof (induction ids arbitrary: ws)
  case (Cons q ids)
  note v = visit_in_window [OF Cons.prems assms(2,3), of q]
  show ?case
    using Cons.IH [OF v] visit_keeps_candidate [OF Cons.prems assms(2,3)] visit_distinct [OF Cons.prems assms(2,3)]
    by simp
qed simp

text \<open>
  C8: after a run in an open window every foreign player of the player vector whose club is
  in the league is decided: the club has an active right to him, or its decision for this
  window is on record.  The record never has two decisions of a club on a player in a window.
\<close>

theorem every_candidate_is_decided_once:
  assumes "wv_ai_enabled env" and "snd (ask_window env ws)" and "we_today (wv_window env) = Some today" and "today \<noteq> 0"
    and "wv_players env = Some ids" and "wv_query env" and "\<forall>row. wv_append env row"
    and "snd (current_window env (fst (ask_window env ws))) = e" and "e \<noteq> 0"
  shows "(\<forall>p \<in> set ids. \<forall>team_id. ai_candidate env (ws_world ws) p team_id \<longrightarrow>
        has_right today (run_foreign_waiver_ai_core_once env ws) team_id p
        \<or> has_decision e (run_foreign_waiver_ai_core_once env ws) team_id p)
     \<and> (distinct (decision_keys ws) \<longrightarrow> distinct (decision_keys (run_foreign_waiver_ai_core_once env ws)))"
proof -
  let ?ws' = "foldl (ai_visit env e today) (loop_start env today ws) ids"
  have r: "run_foreign_waiver_ai_core_once env ws = ?ws'"
    using run_open [OF assms(1-3)] assms(5,8) by simp
  have i: "in_window env e (loop_start env today ws)" using loop_start_in_window [OF assms(2)] assms(8,9) by simp
  have s: "\<forall>p \<in> set ids. settled env e today ?ws' p"
    using visits_settle [OF i assms(6,4,7), of "{}" ids] by simp
  have same: "ws_world (loop_start env today ws) = ws_world ws" "decision_keys (loop_start env today ws) = decision_keys ws"
    by (simp_all add: loop_start_def ask_window_simps decision_keys_def)
  note k = visits_keep_candidates [OF i assms(6,4), of ids, unfolded same]
  show ?thesis
    unfolding r
  proof (intro conjI ballI allI impI)
    fix p team_id
    assume "p \<in> set ids" "ai_candidate env (ws_world ws) p team_id"
    then show "has_right today ?ws' team_id p \<or> has_decision e ?ws' team_id p"
      using k s unfolding settled_def by blast
  qed (use k in blast)
qed

theorem every_candidate_is_decided_once_witness:
  "has_right 20251110 (run_foreign_waiver_ai_core_once demo_waiver_env demo_waiver_state) 5 11
   \<or> has_decision 20251125 (run_foreign_waiver_ai_core_once demo_waiver_env demo_waiver_state) 5 11"
proof -
  have "ai_candidate demo_waiver_env (ws_world demo_waiver_state) 11 5"
    by (simp add: ai_candidate_def demo_waiver_env_def demo_waiver_state_def demo_foreigner_def demo_club_def
        deciding_team_def kbo_player_is_foreign_for_kbo_rights_def KOREA_NATION_ID_def demo_window_env_def)
  then show ?thesis
    using every_candidate_is_decided_once [OF demo_waiver_simps(3) demo_window(1) demo_waiver_simps(4) _ demo_waiver_simps(5)
        demo_waiver_simps(1,2) demo_window(2)] by simp
qed

end
