(* ===== verification/RetentionProps.thy ===== *)
theory RetentionProps
  imports WaiverDecisionsProps
begin

text \<open>
  What one decision about a player does: the right, the marks on the player and the club and
  the row of the record, when the list of the club has room and when it is full.
\<close>

section \<open>When a right can be stored\<close>

definition retention_expiry :: "waiver_env \<Rightarrow> u32 \<Rightarrow> u32" where
  "retention_expiry env today = kbo_add_years_yyyymmdd today (word_of_int (fp_waiver_retention_years (wv_policy env)))"

text \<open>The club and the player are there, the date is one, and the table of the rights has room.\<close>

definition retention_ready :: "waiver_env \<Rightarrow> waiver_state \<Rightarrow> u32 \<Rightarrow> player_row \<Rightarrow> u32 \<Rightarrow> team_row \<Rightarrow> u32 \<Rightarrow> bool" where
  "retention_ready env ws player_id player team_id team today \<longleftrightarrow>
     player_id \<noteq> 0 \<and> team_id \<noteq> 0 \<and> wd_players (ws_world ws) player_id = Some player
     \<and> wd_teams (ws_world ws) team_id = Some team \<and> tm_id team = team_id \<and> tm_league_id team \<noteq> 0
     \<and> we_today (wv_window env) = Some today \<and> kbo_yyyymmdd_valid today
     \<and> in_range 0 20 (fp_waiver_retention_years (wv_policy env))
     \<and> (player_id \<in> rt_player_id ` set (rs_rights (ws_rights ws))
        \<or> length (rs_rights (ws_rights ws)) < FOREIGN_WAIVER_RIGHTS_MAX)"

lemma expiry_not_past:
  assumes "kbo_yyyymmdd_valid today" and "in_range 0 20 (fp_waiver_retention_years (wv_policy env))"
  shows "today \<noteq> 0 \<and> retention_expiry env today \<noteq> 0 \<and> today \<le> retention_expiry env today"
proof -
  have r: "1980 \<le> year_of today" "year_of today \<le> 2200" "1 \<le> month_of today" "month_of today \<le> 12"
      "1 \<le> day_of today" "day_of today \<le> month_len (year_of today) (month_of today)" 
    using assms(1) by (auto simp: valid_iff real_date_def)
  define years :: u32 where "years = word_of_int (fp_waiver_retention_years (wv_policy env))"
  have "years = of_nat (nat (fp_waiver_retention_years (wv_policy env)))"
    using assms(2) by (simp add: years_def in_range_def)
  then have "unat years \<le> nat (fp_waiver_retention_years (wv_policy env))" by (simp add: unat_of_nat)
  moreover have "nat (fp_waiver_retention_years (wv_policy env)) \<le> 20" using assms(2) unfolding in_range_def by linarith
  ultimately have years: "unat years < 4294960000" by linarith
  define y where "y = min 2200 (year_of today + unat years)"
  define d where "d = min (day_of today) (month_len y (month_of today))"
  have y: "year_of today \<le> y" "y \<le> 2200" using r by (simp_all add: y_def)
  have d: "1 \<le> d" "d \<le> 31" using r month_len_pos [of y "month_of today"] month_len_le [of y "month_of today"] by (auto simp: d_def)
  have e: "retention_expiry env today = pack y (month_of today) d"
    using add_years_clamps [OF assms(1) years] by (simp add: retention_expiry_def years_def [symmetric] y_def d_def Let_def)
  have u: "unat (pack y (month_of today) d) = y * 10000 + month_of today * 100 + d"
    by (rule unat_pack) (use y d r in auto)
  have same: "y = year_of today \<Longrightarrow> d = day_of today" using r(6) by (simp add: d_def)
  have "unat today \<le> unat (pack y (month_of today) d)"
  proof (cases "y = year_of today")
    case True
    then show ?thesis using same unfolding u unat_split [of today] by simp
  next
    case False
    then have "year_of today + 1 \<le> y" using y by simp
    moreover have "day_of today \<le> 31" using r(6) month_len_le [of "year_of today" "month_of today"] by simp
    ultimately show ?thesis using r(4) by (simp add: u unat_split [of today])
  qed
  then have le: "today \<le> pack y (month_of today) d" by (simp add: word_le_nat_alt)
  have "pack y (month_of today) d \<noteq> 0"
  proof
    assume "pack y (month_of today) d = 0"
    then have "unat (pack y (month_of today) d) = 0" by simp
    then show False using u d(1) by linarith
  qed
  then have "today \<noteq> 0 \<and> pack y (month_of today) d \<noteq> 0 \<and> today \<le> pack y (month_of today) d"
    using le valid_nonzero [OF assms(1)] by blast
  then show ?thesis unfolding e by blast
qed

section \<open>The outcome of a retention\<close>

definition stored_rights :: "waiver_env \<Rightarrow> waiver_state \<Rightarrow> u32 \<Rightarrow> u32 \<Rightarrow> team_row \<Rightarrow> u32 \<Rightarrow> rights_state" where
  "stored_rights env ws team_id player_id team today =
     fst (kbo_set_foreign_waiver_right (wv_rights env) team_id player_id (tm_league_id team) today
            (retention_expiry env today) (ws_rights ws))"

lemma upsert_member: "upsert key n r rows = Some rows' \<Longrightarrow> r \<in> set rows'"
  by (auto simp: upsert_def set_update_memI dest!: first_index_Some split: option.splits if_splits)

lemma stored_right_active:
  assumes "retention_ready env ws player_id player team_id team today"
  shows "snd (kbo_set_foreign_waiver_right (wv_rights env) team_id player_id (tm_league_id team) today
            (retention_expiry env today) (ws_rights ws))"
    and "find_active team_id player_id today (rs_rights (stored_rights env ws team_id player_id team today)) \<noteq> None"
proof -
  let ?r = "\<lparr>rt_player_id = player_id, rt_team_id = team_id, rt_league_id = tm_league_id team,
     rt_retained_on = today, rt_expires_on = retention_expiry env today\<rparr>"
  note d = assms [unfolded retention_ready_def]
  have e: "today \<noteq> 0" "retention_expiry env today \<noteq> 0" "today \<le> retention_expiry env today"
    using expiry_not_past [of today env] d by blast+
  have n: "\<not> (team_id = 0 \<or> player_id = 0 \<or> tm_league_id team = 0 \<or> today = 0 \<or> retention_expiry env today = 0)"
    using d e by blast
  have "\<not> (rt_player_id ?r \<notin> rt_player_id ` set (rs_rights (ws_rights ws))
      \<and> FOREIGN_WAIVER_RIGHTS_MAX \<le> length (rs_rights (ws_rights ws)))"
    using d by (simp add: not_le)
  then obtain rights where u: "upsert rt_player_id FOREIGN_WAIVER_RIGHTS_MAX ?r (rs_rights (ws_rights ws)) = Some rights"
    by (simp only: upsert_None [symmetric] not_None_eq) blast
  have s: "kbo_set_foreign_waiver_right (wv_rights env) team_id player_id (tm_league_id team) today
            (retention_expiry env today) (ws_rights ws)
      = (fst (kbo_persist_foreign_waiver_rights (wv_rights env) ((ws_rights ws)\<lparr>rs_rights := rights,
           rs_generation := interlocked_increment (rs_generation (ws_rights ws))\<rparr>)), True)"
    unfolding kbo_set_foreign_waiver_right_def if_not_P [OF n] u by simp
  show "snd (kbo_set_foreign_waiver_right (wv_rights env) team_id player_id (tm_league_id team) today
            (retention_expiry env today) (ws_rights ws))"
    by (simp add: s)
  have "kbo_is_foreign_waiver_right_active ?r today"
    using n e(3) by (auto simp: kbo_is_foreign_waiver_right_active_def retention_broken_def)
  then show "find_active team_id player_id today (rs_rights (stored_rights env ws team_id player_id team today)) \<noteq> None"
    using upsert_member [OF u] unfolding find_active_exists stored_rights_def s fst_conv persist_flags by force
qed

lemma retain_outcome:
  assumes "retention_ready env ws player_id player team_id team today"
    and "kbo_add_player_id_to_team_fixed_array Restricted player_id team = (team', added)"
  shows "kbo_retain_foreign_player_rights env fallback player_id team_id ws
    = (if added
       then (ws\<lparr>ws_rights := stored_rights env ws team_id player_id team today,
                ws_world := \<lparr>wd_players = (wd_players (ws_world ws))(player_id \<mapsto> mark_retained team_id (tm_league_id team) player),
                             wd_teams = (wd_teams (ws_world ws))(team_id \<mapsto> team')\<rparr>\<rparr>, True)
       else (ws\<lparr>ws_rights := stored_rights env ws team_id player_id team today\<rparr>, False))"
proof -
  note d = assms(1) [unfolded retention_ready_def]
  have g: "\<not> (player_id = 0 \<or> team_id = 0)" "\<not> tm_id team \<noteq> team_id" "\<not> tm_league_id team = 0"
      "\<not> retention_expiry env today = 0"
    and l: "wd_players (ws_world ws) player_id = Some player" "wd_teams (ws_world ws) team_id = Some team"
      "we_today (wv_window env) = Some today"
    using d expiry_not_past [of today env] by blast+
  obtain rights where s: "kbo_set_foreign_waiver_right (wv_rights env) team_id player_id (tm_league_id team) today
            (retention_expiry env today) (ws_rights ws) = (rights, True)"
      "stored_rights env ws team_id player_id team today = rights"
    using stored_right_active(1) [OF assms(1)] unfolding stored_rights_def by (metis prod.collapse)
  show ?thesis
    unfolding kbo_retain_foreign_player_rights_def if_not_P [OF g(1)] l option.case prod.case Let_def
      if_not_P [OF g(3)] if_not_P [OF g(2)] retention_expiry_def [symmetric] if_not_P [OF g(4)] s assms(2)
    by simp
qed

text \<open>The row a decision appends.\<close>

definition decision_of :: "waiver_env \<Rightarrow> waiver_state \<Rightarrow> string \<Rightarrow> u32 \<Rightarrow> u32 \<Rightarrow> int \<Rightarrow> bool \<Rightarrow> bool \<Rightarrow> u32 \<Rightarrow> decision_row" where
  "decision_of env ws action team_id player_id score forced executed today =
     \<lparr>dr_decision_date = today, dr_window_start = fst (current_window env ws), dr_window_end = snd (current_window env ws),
      dr_source = ''ai'', dr_action = action, dr_team_id = team_id, dr_player_id = player_id,
      dr_value_score = score, dr_forced = forced, dr_executed = executed\<rparr>"

lemma append_decision:
  assumes "team_id \<noteq> 0" and "player_id \<noteq> 0" and "we_today (wv_window env) = Some today" and "\<forall>row. wv_append env row"
    and "action \<noteq> []" and "ws_window ws' = ws_window ws"
  shows "fst (kbo_append_foreign_waiver_decision_record env ''ai'' action team_id player_id score forced executed ws')
    = ws'\<lparr>ws_decisions := ws_decisions ws' @ [decision_of env ws action team_id player_id score forced executed today]\<rparr>"
  using assms current_window_cong [OF assms(6)]
  by (simp add: kbo_append_foreign_waiver_decision_record_def kbo_foreign_waiver_decisions_sql_append_def
      decision_of_def split: prod.split)

lemma apply_outcome:
  assumes "retention_ready env ws player_id player team_id team today"
    and "kbo_add_player_id_to_team_fixed_array Restricted player_id team = (team', added)"
    and "\<forall>row. wv_append env row"
  shows "kbo_apply_ai_foreign_waiver_rules env player_id score forced team_id ws
    = (if added
       then (ws\<lparr>ws_rights := stored_rights env ws team_id player_id team today,
                ws_world := \<lparr>wd_players = (wd_players (ws_world ws))(player_id \<mapsto> mark_retained team_id (tm_league_id team) player),
                             wd_teams = (wd_teams (ws_world ws))(team_id \<mapsto> team')\<rparr>,
                ws_decisions := ws_decisions ws @ [decision_of env ws ''RETAIN'' team_id player_id score forced True today]\<rparr>, True)
       else (ws\<lparr>ws_rights := stored_rights env ws team_id player_id team today\<rparr>, False))"
proof -
  note d = assms(1) [unfolded retention_ready_def]
  have g: "\<not> (team_id = 0 \<or> player_id = 0)" "player_id \<noteq> 0" "team_id \<noteq> 0"
    and l: "wd_players (ws_world ws) player_id = Some player" "wd_teams (ws_world ws) team_id = Some team"
      "we_today (wv_window env) = Some today"
    using d by blast+
  have f: "\<not> (if pl_current_league player \<noteq> 0 then pl_current_league player else tm_league_id team) = 0"
    using d by simp
  note a = append_decision [OF g(3,2) l(3) assms(3), of "''RETAIN''" _ ws]
  show ?thesis
    unfolding kbo_apply_ai_foreign_waiver_rules_def if_not_P [OF g(1)] l option.case prod.case Let_def
      if_not_P [OF f] retain_outcome [OF assms(1,2)]
    by (simp add: a)
qed

text \<open>The rule of the automatic decisions.\<close>

definition ai_retains :: "waiver_env \<Rightarrow> u32 \<Rightarrow> player_row \<Rightarrow> bool" where
  "ai_retains env player_id player \<longleftrightarrow> kbo_is_forced_foreign_candidate_id (wv_forced_file env) player_id
     \<or> kbo_get_foreign_waiver_value_threshold_for_player (wv_policy env) (wv_quota_nations env)
         (wv_value_threshold_file env) (wv_asian_threshold_file env) player
       \<le> kbo_foreign_waiver_value_score (wv_policy env) player"

lemma should_retain_iff:
  assumes "player_id \<noteq> 0" and "team_id \<noteq> 0"
  shows "fst (kbo_ai_foreign_waiver_should_retain env player player_id team_id
      (kbo_foreign_waiver_value_score (wv_policy env) player)
      (kbo_is_forced_foreign_candidate_id (wv_forced_file env) player_id)) \<longleftrightarrow> ai_retains env player_id player"
  using assms by (auto simp: kbo_ai_foreign_waiver_should_retain_def ai_retains_def Let_def)

lemma decide_outcome:
  fixes env :: waiver_env and ws :: waiver_state and player_id team_id today :: u32
    and player :: player_row and team team' :: team_row and added :: bool
  defines "score \<equiv> kbo_foreign_waiver_value_score (wv_policy env) player"
    and "forced \<equiv> kbo_is_forced_foreign_candidate_id (wv_forced_file env) player_id"
  assumes "retention_ready env ws player_id player team_id team today"
    and "kbo_add_player_id_to_team_fixed_array Restricted player_id team = (team', added)"
    and "\<forall>row. wv_append env row"
  shows "ai_decide env player_id player team_id ws =
    (if \<not> ai_retains env player_id player
     then ws\<lparr>ws_decisions := ws_decisions ws @ [decision_of env ws ''SKIP'' team_id player_id score forced False today]\<rparr>
     else if added
     then ws\<lparr>ws_rights := stored_rights env ws team_id player_id team today,
             ws_world := \<lparr>wd_players = (wd_players (ws_world ws))(player_id \<mapsto> mark_retained team_id (tm_league_id team) player),
                          wd_teams = (wd_teams (ws_world ws))(team_id \<mapsto> team')\<rparr>,
             ws_decisions := ws_decisions ws @ [decision_of env ws ''RETAIN'' team_id player_id score forced True today]\<rparr>
     else ws\<lparr>ws_rights := stored_rights env ws team_id player_id team today,
             ws_decisions := ws_decisions ws @ [decision_of env ws ''SKIP'' team_id player_id score forced False today]\<rparr>)"
proof -
  have g: "player_id \<noteq> 0" "team_id \<noteq> 0" "we_today (wv_window env) = Some today"
    using assms(3) unfolding retention_ready_def by blast+
  note skip = append_decision [OF g(2,1,3) assms(5), of "''SKIP''" _ ws]
  note should = should_retain_iff [OF g(1,2), of env player, folded score_def forced_def]
  show ?thesis
    unfolding ai_decide_def Let_def score_def [symmetric] forced_def [symmetric] should
      apply_outcome [OF assms(3-5)] ai_skip_def
    by (simp add: skip)
qed

text \<open>Room in the list of the club.\<close>

lemma put_free_None: "put_free p ids = None \<longleftrightarrow> 0 \<notin> set ids"
  by (induction ids) auto

lemma add_restricted_room:
  assumes "player_id \<noteq> 0"
  shows "snd (kbo_add_player_id_to_team_fixed_array Restricted player_id team)
      \<longleftrightarrow> player_id \<in> set (tm_arrays team Restricted) \<or> 0 \<in> set (tm_arrays team Restricted)"
    and "snd (kbo_add_player_id_to_team_fixed_array Restricted player_id team) \<Longrightarrow>
      kbo_team_fixed_array_contains_player Restricted player_id
        (fst (kbo_add_player_id_to_team_fixed_array Restricted player_id team))"
proof -
  obtain ids added where a: "add_id player_id (tm_arrays team Restricted) = (ids, added)" by fastforce
  have added: "added \<longleftrightarrow> player_id \<in> set (tm_arrays team Restricted) \<or> 0 \<in> set (tm_arrays team Restricted)"
    using a assms put_free_None [of player_id "tm_arrays team Restricted"]
    by (auto simp: add_id_def list_ex_iff split: if_splits option.splits)
  then show "snd (kbo_add_player_id_to_team_fixed_array Restricted player_id team)
      \<longleftrightarrow> player_id \<in> set (tm_arrays team Restricted) \<or> 0 \<in> set (tm_arrays team Restricted)"
    by (simp add: kbo_add_player_id_to_team_fixed_array_def a)
  have "player_id \<in> ids_of ids" if added using ids.add_members [OF assms] a that by simp
  then show "snd (kbo_add_player_id_to_team_fixed_array Restricted player_id team) \<Longrightarrow>
      kbo_team_fixed_array_contains_player Restricted player_id
        (fst (kbo_add_player_id_to_team_fixed_array Restricted player_id team))"
    using assms by (auto simp: kbo_add_player_id_to_team_fixed_array_def kbo_team_fixed_array_contains_player_def
        contains_id_def with_array_def ids_of_def list_ex_iff a)
qed

section \<open>Properties\<close>

lemma demo_policy:
  "wv_policy demo_waiver_env = kbo_foreign_player_policy (\<lambda>_ _. None) \<lparr>pf_scoped = None, pf_global = None\<rparr>"
  by (simp add: demo_waiver_env_def)

lemma demo_clamped: "kbo_read_clamped_policy_int (\<lambda>_ _. None) \<lparr>pf_scoped = None, pf_global = None\<rparr> key fb lo hi = fb"
  by (simp add: kbo_read_clamped_policy_int_def kbo_read_policy_int_value_def kbo_read_policy_scoped_value_def
      kbo_read_policy_file_value_def)

lemma demo_policy_values:
  "fp_waiver_retention_years (wv_policy demo_waiver_env) = 5"
  "fp_regular_value_threshold (wv_policy demo_waiver_env) = 85000"
  "fp_asian_value_threshold (wv_policy demo_waiver_env) = 60000"
  "kbo_foreign_waiver_value_score (wv_policy demo_waiver_env) demo_foreigner = 101500"
  by (simp_all add: demo_policy demo_clamped kbo_foreign_player_policy_def kbo_foreign_player_policy_init_once_def
      Let_def kbo_foreign_waiver_value_score_def demo_foreigner_def c_div_def)

lemma demo_retains: "ai_retains demo_waiver_env 11 demo_foreigner"
  unfolding ai_retains_def demo_policy_values kbo_get_foreign_waiver_value_threshold_for_player_def
    kbo_get_foreign_waiver_value_threshold_def kbo_get_foreign_waiver_asian_value_threshold_def
  by (simp add: demo_policy_values demo_waiver_env_def)

definition with_club :: "team_row \<Rightarrow> waiver_state" where
  "with_club club = demo_waiver_state\<lparr>ws_world := \<lparr>wd_players = [11 \<mapsto> demo_foreigner], wd_teams = [5 \<mapsto> club]\<rparr>\<rparr>"

lemma demo_ready:
  assumes "tm_id club = 5" and "tm_league_id club = 200"
  shows "retention_ready demo_waiver_env (with_club club) 11 demo_foreigner 5 club 20251110"
proof -
  have "kbo_yyyymmdd_valid 20251110" by code_simp
  then show ?thesis
    using assms
    by (simp add: retention_ready_def with_club_def demo_waiver_state_def demo_waiver_simps demo_policy_values
        in_range_def initial_rights_def FOREIGN_WAIVER_RIGHTS_MAX_def)
qed


text \<open>
  C19: an automatic decision follows the rule.  A forced player, or one whose score reaches the
  threshold, is retained: the club has an active right, he is on its restricted list and
  marked, and one row says RETAIN; for any other player only a SKIP row is added.  The score and
  the forced flag that a row records are not stated.
\<close>

theorem decision_follows_the_rule:
  assumes "retention_ready env ws player_id player team_id team today" and "\<forall>row. wv_append env row"
    and "player_id \<in> set (tm_arrays team Restricted) \<or> 0 \<in> set (tm_arrays team Restricted)"
    and "ws' = ai_decide env player_id player team_id ws"
  shows "(ai_retains env player_id player \<longrightarrow>
        has_right today ws' team_id player_id
        \<and> wd_players (ws_world ws') player_id = Some (mark_retained team_id (tm_league_id team) player)
        \<and> (\<exists>team'. wd_teams (ws_world ws') team_id = Some team' \<and> kbo_team_fixed_array_contains_player Restricted player_id team')
        \<and> (\<exists>score forced. ws_decisions ws' = ws_decisions ws @ [decision_of env ws ''RETAIN'' team_id player_id score forced True today]))
     \<and> (\<not> ai_retains env player_id player \<longrightarrow>
        ws_rights ws' = ws_rights ws \<and> ws_world ws' = ws_world ws
        \<and> (\<exists>score forced. ws_decisions ws' = ws_decisions ws @ [decision_of env ws ''SKIP'' team_id player_id score forced False today]))"
proof -
  have p: "player_id \<noteq> 0" using assms(1) by (simp add: retention_ready_def)
  obtain team' where a: "kbo_add_player_id_to_team_fixed_array Restricted player_id team = (team', True)"
      "kbo_team_fixed_array_contains_player Restricted player_id team'"
    using add_restricted_room [OF p, of team] assms(3) by (cases "kbo_add_player_id_to_team_fixed_array Restricted player_id team") simp
  note out = decide_outcome [OF assms(1) a(1) assms(2), folded assms(4)]
  show ?thesis
    using stored_right_active(2) [OF assms(1)] a(2) by (auto simp: out has_right_def)
qed

theorem decision_follows_the_rule_witness:
  "has_right 20251110 (ai_decide demo_waiver_env 11 demo_foreigner 5 (with_club demo_club)) 5 11"
  using decision_follows_the_rule [OF demo_ready [of demo_club] _ _ refl] demo_retains demo_waiver_simps(2)
  by (simp add: demo_club_def)

text \<open>
  C33: when the restricted list of the club is full the player's right is stored before the list
  is tried, so the club holds an active right although the record says SKIP and neither the
  player nor the club is marked.
\<close>

theorem full_list_keeps_the_right:
  assumes "retention_ready env ws player_id player team_id team today" and "\<forall>row. wv_append env row"
    and "player_id \<notin> set (tm_arrays team Restricted)" and "0 \<notin> set (tm_arrays team Restricted)"
    and "ai_retains env player_id player" and "ws' = ai_decide env player_id player team_id ws"
  shows "has_right today ws' team_id player_id \<and> ws_world ws' = ws_world ws
     \<and> (\<exists>score forced. ws_decisions ws' = ws_decisions ws @ [decision_of env ws ''SKIP'' team_id player_id score forced False today])"
proof -
  have p: "player_id \<noteq> 0" using assms(1) by (simp add: retention_ready_def)
  obtain team' where a: "kbo_add_player_id_to_team_fixed_array Restricted player_id team = (team', False)"
    using add_restricted_room(1) [OF p, of team] assms(3,4) by (cases "kbo_add_player_id_to_team_fixed_array Restricted player_id team") simp
  note out = decide_outcome [OF assms(1) a assms(2), folded assms(6)]
  show ?thesis using stored_right_active(2) [OF assms(1)] assms(5) by (auto simp: out has_right_def)
qed

definition full_club :: team_row where
  "full_club = \<lparr>tm_id = 5, tm_league_id = 200, tm_parent_team_id = 0, tm_arrays = (\<lambda>_. replicate 200 7)\<rparr>"

theorem full_list_keeps_the_right_witness:
  "has_right 20251110 (ai_decide demo_waiver_env 11 demo_foreigner 5 (with_club full_club)) 5 11
   \<and> ws_world (ai_decide demo_waiver_env 11 demo_foreigner 5 (with_club full_club)) = ws_world (with_club full_club)"
  using full_list_keeps_the_right [OF demo_ready [of full_club] demo_waiver_simps(2) _ _ demo_retains refl]
  by (simp add: full_club_def)

end
