(* ===== verification/FaRules.thy ===== *)
theory FaRules
  imports JsonText KeyedTable
begin

text \<open>
  The rules of the free agency: \<open>native/src/fa_rules/\<close> (\<open>state/fa_rules_state.c\<close>,
  \<open>json/fa_rules_json_parse.c\<close>, \<open>queries/fa_rules_queries.c\<close>).  The rules file is read with a
  scanner of its own, which finds a key at any depth of a text, and with the value decoders of
  \<open>JsonText\<close>.  A pair of pointers is the text between them; a pointer that the code moves
  through a text is what is left of it.

  One loop of the reader, over the list of compensable cases, does not end on every text; it
  has a number of turns as an argument and the value \<open>None\<close> when they do not suffice.
\<close>

section \<open>State\<close>

record grade_config =
  gc_grade :: string
  gc_protect_count :: u32
  gc_cash_with_player_percent :: u32
  gc_cash_only_percent :: u32
  gc_requires_player :: bool
  gc_enabled :: bool

record fa_rules =
  fr_version :: u32
  fr_exclude_foreign :: bool
  fr_due_days :: u32
  fr_age_override :: bool
  fr_age_min :: u32
  fr_age_grade :: string
  fr_grades :: "grade_config list"
  fr_cases :: "string list"
  fr_source_path :: string
  fr_loaded :: bool

definition FA_RULES_MAX_GRADES :: nat where "FA_RULES_MAX_GRADES = 8"
definition FA_RULES_MAX_CASES :: nat where "FA_RULES_MAX_CASES = 16"

section \<open>Changing the rules\<close>

definition kbo_fa_rules_copy_text :: "string \<Rightarrow> nat \<Rightarrow> string" where
  "kbo_fa_rules_copy_text value out_size = strbuf out_size value"

text \<open>The place of the grade's configuration, which is added when there is room.\<close>

definition kbo_fa_rules_ensure_grade :: "string \<Rightarrow> fa_rules \<Rightarrow> fa_rules \<times> nat option" where
  "kbo_fa_rules_ensure_grade grade rules =
     (if grade = [] then (rules, None)
      else case first_index (\<lambda>g. stricmp_equal (gc_grade g) grade) (fr_grades rules) of
          Some i \<Rightarrow> (rules, Some i)
        | None \<Rightarrow>
            if length (fr_grades rules) \<ge> FA_RULES_MAX_GRADES then (rules, None)
            else (rules\<lparr>fr_grades := fr_grades rules @
                    [\<lparr>gc_grade = kbo_fa_rules_copy_text grade 12, gc_protect_count = 0,
                      gc_cash_with_player_percent = 0, gc_cash_only_percent = 0,
                      gc_requires_player = False, gc_enabled = True\<rparr>]\<rparr>,
                  Some (length (fr_grades rules))))"

definition update_grade :: "nat \<Rightarrow> (grade_config \<Rightarrow> grade_config) \<Rightarrow> fa_rules \<Rightarrow> fa_rules" where
  "update_grade i f rules = rules\<lparr>fr_grades := (fr_grades rules)[i := f (fr_grades rules ! i)]\<rparr>"

definition configure_grade :: "string \<Rightarrow> (grade_config \<Rightarrow> grade_config) \<Rightarrow> fa_rules \<Rightarrow> fa_rules" where
  "configure_grade grade f rules =
     (case kbo_fa_rules_ensure_grade grade rules of
        (rules1, None) \<Rightarrow> rules1
      | (rules1, Some i) \<Rightarrow> update_grade i f rules1)"

definition kbo_fa_rules_add_case :: "string \<Rightarrow> fa_rules \<Rightarrow> fa_rules" where
  "kbo_fa_rules_add_case case_label rules =
     (if case_label = [] \<or> length (fr_cases rules) \<ge> FA_RULES_MAX_CASES then rules
      else if list_ex (\<lambda>c. c = case_label) (fr_cases rules) then rules
      else rules\<lparr>fr_cases := fr_cases rules @ [kbo_fa_rules_copy_text case_label 48]\<rparr>)"

definition default_cases :: "string list" where
  "default_cases = [''KBO_FA_APPROVED'', ''KBO_FA_ELIGIBLE_NOT_APPROVED'', ''KBO_FA_DEFERRED'',
     ''KBO_FA_BY_HISTORY_UNGRADED'', ''KBO_FA_CARRYOVER_UNSIGNED'']"

definition kbo_fa_rules_init_defaults :: fa_rules where
  "kbo_fa_rules_init_defaults =
     (let zero = \<lparr>fr_version = 1, fr_exclude_foreign = True, fr_due_days = 3, fr_age_override = True,
                  fr_age_min = 35, fr_age_grade = ''C'', fr_grades = [], fr_cases = [],
                  fr_source_path = ''built-in KBO defaults'', fr_loaded = False\<rparr>;
          a = configure_grade ''A'' (\<lambda>g. g\<lparr>gc_protect_count := 20, gc_cash_with_player_percent := 200,
                gc_cash_only_percent := 300, gc_requires_player := True\<rparr>) zero;
          b = configure_grade ''B'' (\<lambda>g. g\<lparr>gc_protect_count := 25, gc_cash_with_player_percent := 100,
                gc_cash_only_percent := 200, gc_requires_player := True\<rparr>) a;
          c = configure_grade ''C'' (\<lambda>g. g\<lparr>gc_cash_only_percent := 150\<rparr>) b
      in foldl (\<lambda>r label. kbo_fa_rules_add_case label r) c default_cases)"

section \<open>The scanner\<close>

text \<open>
  From an opening bracket on, the text behind the closing one.  Brackets in strings do not
  count, and neither do brackets of the other kind.
\<close>

fun bracket_end :: "char \<Rightarrow> char \<Rightarrow> int \<Rightarrow> bool \<Rightarrow> bool \<Rightarrow> string \<Rightarrow> string option" where
  "bracket_end opening closing depth in_string escaped [] = None"
| "bracket_end opening closing depth in_string escaped (ch # p) =
     (if in_string then
        (if escaped then bracket_end opening closing depth True False p
         else if ch = CHR 0x5c then bracket_end opening closing depth True True p
         else if ch = CHR 0x22 then bracket_end opening closing depth False False p
         else bracket_end opening closing depth True False p)
      else if ch = CHR 0x22 then bracket_end opening closing depth True False p
      else if ch = opening then bracket_end opening closing (depth + 1) False False p
      else if ch = closing then
        (if depth - 1 = 0 then Some p else bracket_end opening closing (depth - 1) False False p)
      else bracket_end opening closing depth False False p)"

definition value_stop :: "char \<Rightarrow> bool" where
  "value_stop c \<longleftrightarrow> c = CHR '','' \<or> c = CHR 0x7d \<or> c = CHR 0x5d"

text \<open>What follows the value at the beginning of a text.\<close>

definition kbo_fa_rules_json_value_end :: "string \<Rightarrow> string" where
  "kbo_fa_rules_json_value_end text =
     (let v = kbo_json_skip_ws text
      in if v = [] then v
         else if hd v = CHR 0x22 then
           (case kbo_json_find_string_end v of None \<Rightarrow> v | Some stop \<Rightarrow> drop (stop + 1) v)
         else if hd v = CHR 0x7b \<or> hd v = CHR 0x5b then
           (case bracket_end (hd v) (if hd v = CHR 0x7b then CHR 0x7d else CHR 0x5d) 0 False False v of
              None \<Rightarrow> v | Some rest \<Rightarrow> rest)
         else drop (length (strip_right json_ws (takeWhile (\<lambda>c. \<not> value_stop c) v))) v)"

text \<open>The text of the value of a key.\<close>

definition value_span :: "string \<Rightarrow> string" where
  "value_span v = take (length v - length (kbo_fa_rules_json_value_end v)) v"

function kbo_fa_rules_find_json_value_span :: "string \<Rightarrow> string \<Rightarrow> string option" where
  "kbo_fa_rules_find_json_value_span key [] = None"
| "kbo_fa_rules_find_json_value_span key (c # q) =
     (if c \<noteq> CHR 0x22 then kbo_fa_rules_find_json_value_span key q
      else case kbo_json_find_string_end (c # q) of
          None \<Rightarrow> None
        | Some stop \<Rightarrow>
            let p = drop stop q;
                colon = kbo_json_skip_ws p
            in if take (stop - 1) q \<noteq> key then kbo_fa_rules_find_json_value_span key p
               else if colon = [] \<or> hd colon \<noteq> CHR '':'' then kbo_fa_rules_find_json_value_span key p
               else
                 let v = kbo_json_skip_ws (tl colon)
                 in if v = [] \<or> length (kbo_fa_rules_json_value_end v) > length v then None
                    else Some (value_span v))"
  by pat_completeness auto
termination by (relation "measure (\<lambda>(key, p). length p)") auto

section \<open>Reading values\<close>

definition kbo_fa_rules_read_bool :: "jsmn \<Rightarrow> string \<Rightarrow> string \<Rightarrow> bool option" where
  "kbo_fa_rules_read_bool jsmn text key =
     (case kbo_fa_rules_find_json_value_span key text of
        None \<Rightarrow> None
      | Some span \<Rightarrow> map_option (\<lambda>v. v \<noteq> 0) (kbo_json_bool_value_at jsmn span))"

definition kbo_fa_rules_read_u32 :: "jsmn \<Rightarrow> string \<Rightarrow> string \<Rightarrow> u32 option" where
  "kbo_fa_rules_read_u32 jsmn text key =
     (case kbo_fa_rules_find_json_value_span key text of
        None \<Rightarrow> None
      | Some span \<Rightarrow>
          case kbo_json_int_value_at jsmn span of
            None \<Rightarrow> None
          | Some v \<Rightarrow> if v < 0 then None else Some (word_of_int v))"

text \<open>A string without its backslashes, as far as it fits; the empty text means failure.\<close>

fun unescape :: "nat \<Rightarrow> string \<Rightarrow> string" where
  "unescape 0 s = []"
| "unescape (Suc room) [] = []"
| "unescape (Suc room) [c] = [c]"
| "unescape (Suc room) (c # d # p) =
     (if c = CHR 0x5c then d # unescape room p else c # unescape room (d # p))"

definition kbo_fa_rules_copy_json_string_value :: "nat \<Rightarrow> string \<Rightarrow> string" where
  "kbo_fa_rules_copy_json_string_value out_size text =
     (let v = kbo_json_skip_ws text
      in if v = [] \<or> hd v \<noteq> CHR 0x22 then []
         else case kbo_json_find_string_end v of
             None \<Rightarrow> []
           | Some stop \<Rightarrow> unescape (out_size - 1) (take (stop - 1) (tl v)))"

text \<open>\<open>None\<close>: the key is not there and the buffer is left alone.\<close>

definition kbo_fa_rules_read_string :: "string \<Rightarrow> string \<Rightarrow> nat \<Rightarrow> string option" where
  "kbo_fa_rules_read_string text key out_size =
     map_option (kbo_fa_rules_copy_json_string_value out_size) (kbo_fa_rules_find_json_value_span key text)"

section \<open>Reading the file\<close>

text \<open>The loop over the list of cases, behind its opening bracket.\<close>

fun case_loop :: "nat \<Rightarrow> string list \<Rightarrow> string \<Rightarrow> string list option" where
  "case_loop 0 parsed text = None"
| "case_loop (Suc turns) parsed text =
     (let p = kbo_json_skip_ws text
      in if text = [] \<or> length parsed \<ge> FA_RULES_MAX_CASES then Some parsed
         else if p = [] \<or> hd p = CHR 0x5d then Some parsed
         else if hd p = CHR 0x22 then
           (case kbo_json_find_string_end p of
              None \<Rightarrow> Some parsed
            | Some stop \<Rightarrow>
                let label = kbo_fa_rules_copy_json_string_value 48 (take (stop + 1) p)
                in case_loop turns (if label \<noteq> [] then parsed @ [label] else parsed)
                     (skip_comma (kbo_json_skip_ws (drop (stop + 1) p))))
         else case_loop turns parsed (skip_comma (kbo_json_skip_ws (kbo_fa_rules_json_value_end p))))"

definition kbo_fa_rules_parse_cases :: "nat \<Rightarrow> string \<Rightarrow> fa_rules \<Rightarrow> fa_rules option" where
  "kbo_fa_rules_parse_cases turns text rules =
     (let s = kbo_json_skip_ws text
      in if s = [] \<or> hd s \<noteq> CHR 0x5b then Some rules
         else case case_loop turns [] (tl s) of
             None \<Rightarrow> None
           | Some parsed \<Rightarrow>
               Some (if parsed \<noteq> []
                     then foldl (\<lambda>r label. kbo_fa_rules_add_case label r) (rules\<lparr>fr_cases := []\<rparr>) parsed
                     else rules))"

definition first_value :: "'a option \<Rightarrow> 'a option \<Rightarrow> 'a option" where
  "first_value a b = (case a of Some x \<Rightarrow> Some x | None \<Rightarrow> b)"

definition parse_grade :: "jsmn \<Rightarrow> string \<Rightarrow> grade_config \<Rightarrow> grade_config" where
  "parse_grade jsmn text g =
     (let set = (\<lambda>v update g. case v of None \<Rightarrow> g | Some x \<Rightarrow> update x g);
          g1 = set (first_value (kbo_fa_rules_read_u32 jsmn text ''protectedCount'')
                                (kbo_fa_rules_read_u32 jsmn text ''protectCount''))
                   (\<lambda>x g. g\<lparr>gc_protect_count := x\<rparr>) g;
          g2 = set (first_value (kbo_fa_rules_read_u32 jsmn text ''cashWithPlayerPercent'')
                                (kbo_fa_rules_read_u32 jsmn text ''cashPlusPlayerPercent''))
                   (\<lambda>x g. g\<lparr>gc_cash_with_player_percent := x\<rparr>) g1;
          g3 = set (kbo_fa_rules_read_u32 jsmn text ''cashOnlyPercent'') (\<lambda>x g. g\<lparr>gc_cash_only_percent := x\<rparr>) g2;
          g4 = g3\<lparr>gc_requires_player :=
                 (case kbo_fa_rules_read_bool jsmn text ''requiresPlayerCompensation'' of
                    Some b \<Rightarrow> b
                  | None \<Rightarrow> gc_protect_count g3 > 0 \<and> gc_cash_with_player_percent g3 > 0)\<rparr>
      in case kbo_fa_rules_read_bool jsmn text ''enabled'' of
           None \<Rightarrow> g4 | Some b \<Rightarrow> g4\<lparr>gc_enabled := b\<rparr>)"

definition kbo_fa_rules_parse_grade_object :: "jsmn \<Rightarrow> string \<Rightarrow> string \<Rightarrow> fa_rules \<Rightarrow> fa_rules" where
  "kbo_fa_rules_parse_grade_object jsmn grade text rules = configure_grade grade (parse_grade jsmn text) rules"

definition parse_scalars :: "jsmn \<Rightarrow> string \<Rightarrow> string \<Rightarrow> fa_rules \<Rightarrow> fa_rules" where
  "parse_scalars jsmn root fa rules =
     (let r1 = (case kbo_fa_rules_read_u32 jsmn root ''version'' of None \<Rightarrow> rules | Some v \<Rightarrow> rules\<lparr>fr_version := v\<rparr>);
          r2 = (case kbo_fa_rules_read_bool jsmn fa ''excludeForeignPlayers'' of
                  None \<Rightarrow> r1 | Some b \<Rightarrow> r1\<lparr>fr_exclude_foreign := b\<rparr>);
          r3 = (case kbo_fa_rules_read_u32 jsmn fa ''protectedListDueDays'' of
                  None \<Rightarrow> r2 | Some v \<Rightarrow> if v \<le> 30 then r2\<lparr>fr_due_days := v\<rparr> else r2)
      in case kbo_fa_rules_find_json_value_span ''ageGradeOverride'' fa of
           None \<Rightarrow> r3
         | Some span \<Rightarrow>
             let r4 = (case kbo_fa_rules_read_bool jsmn span ''enabled'' of
                         None \<Rightarrow> r3 | Some b \<Rightarrow> r3\<lparr>fr_age_override := b\<rparr>);
                 r5 = (case kbo_fa_rules_read_u32 jsmn span ''minAge'' of
                         None \<Rightarrow> r4 | Some v \<Rightarrow> r4\<lparr>fr_age_min := v\<rparr>)
             in case kbo_fa_rules_read_string span ''grade'' 12 of
                  None \<Rightarrow> r5 | Some s \<Rightarrow> r5\<lparr>fr_age_grade := s\<rparr>)"

definition parse_grades :: "jsmn \<Rightarrow> string \<Rightarrow> fa_rules \<Rightarrow> fa_rules" where
  "parse_grades jsmn fa rules =
     (case kbo_fa_rules_find_json_value_span ''grades'' fa of
        None \<Rightarrow> rules
      | Some span \<Rightarrow>
          foldl (\<lambda>r grade. case kbo_fa_rules_find_json_value_span grade span of
                    None \<Rightarrow> r | Some text \<Rightarrow> kbo_fa_rules_parse_grade_object jsmn grade text r)
            rules [''A'', ''B'', ''C''])"

definition kbo_fa_rules_parse_json :: "jsmn \<Rightarrow> nat \<Rightarrow> string \<Rightarrow> fa_rules \<Rightarrow> fa_rules option" where
  "kbo_fa_rules_parse_json jsmn turns json rules =
     (if json = [] then Some rules
      else
        let fa = (case kbo_fa_rules_find_json_value_span ''faCompensation'' json of None \<Rightarrow> json | Some span \<Rightarrow> span);
            r1 = parse_scalars jsmn json fa rules
        in case (case kbo_fa_rules_find_json_value_span ''compensableCases'' fa of
                   None \<Rightarrow> Some r1 | Some span \<Rightarrow> kbo_fa_rules_parse_cases turns span r1) of
             None \<Rightarrow> None
           | Some r2 \<Rightarrow> Some (parse_grades jsmn fa r2))"

text \<open>\<open>file\<close> is the path and the text of the rules file; the second value says whether it was read.\<close>

definition kbo_fa_rules_load :: "jsmn \<Rightarrow> nat \<Rightarrow> (string \<times> string) option \<Rightarrow> (fa_rules \<times> bool) option" where
  "kbo_fa_rules_load jsmn turns file =
     (case file of
        None \<Rightarrow> Some (kbo_fa_rules_init_defaults, False)
      | Some (path, buffer) \<Rightarrow>
          if buffer = [] \<or> length buffer > FLAGS_JSON_MAX_BYTES then Some (kbo_fa_rules_init_defaults, False)
          else map_option (\<lambda>r. (r\<lparr>fr_source_path := kbo_fa_rules_copy_text path MAX_PATH, fr_loaded := True\<rparr>, True))
                 (kbo_fa_rules_parse_json jsmn turns buffer kbo_fa_rules_init_defaults))"

section \<open>Queries\<close>

definition kbo_fa_rules_find_grade :: "fa_rules \<Rightarrow> string \<Rightarrow> grade_config option" where
  "kbo_fa_rules_find_grade rules grade =
     (if grade = [] then None
      else find (\<lambda>g. gc_enabled g \<and> stricmp_equal (gc_grade g) grade) (fr_grades rules))"

definition kbo_fa_rules_case_is_compensable :: "fa_rules \<Rightarrow> string \<Rightarrow> bool" where
  "kbo_fa_rules_case_is_compensable rules case_label \<longleftrightarrow>
     case_label \<noteq> [] \<and> list_ex (\<lambda>c. c = case_label
       \<or> (case_label = ''KBO_FA_CARRYOVER_UNSIGNED'' \<and> c = ''KBO_FA_BY_HISTORY_UNGRADED'')) (fr_cases rules)"

definition kbo_fa_rules_grade_is_compensable :: "fa_rules \<Rightarrow> string \<Rightarrow> bool" where
  "kbo_fa_rules_grade_is_compensable rules grade =
     (case kbo_fa_rules_find_grade rules grade of None \<Rightarrow> False | Some g \<Rightarrow> gc_cash_only_percent g > 0)"

text \<open>A percentage of the salary, computed with 64 bits and cut off at the greatest 32-bit value.\<close>

definition percent_of :: "u32 \<Rightarrow> int \<Rightarrow> u32" where
  "percent_of percent salary =
     (let amount = ((word_of_int salary :: u64) * ucast percent) div 100
      in if amount > 4294967295 then 4294967295 else ucast amount)"

record compensation =
  cp_cash_with_player :: u32
  cp_cash_only :: u32
  cp_protect_count :: u32
  cp_requires_player :: bool

definition kbo_fa_rules_calculate_compensation :: "fa_rules \<Rightarrow> string \<Rightarrow> int \<Rightarrow> compensation" where
  "kbo_fa_rules_calculate_compensation rules grade previous_salary =
     (let zero = \<lparr>cp_cash_with_player = 0, cp_cash_only = 0, cp_protect_count = 0, cp_requires_player = False\<rparr>
      in if previous_salary \<le> 0 then zero
         else case kbo_fa_rules_find_grade rules grade of
             None \<Rightarrow> zero
           | Some g \<Rightarrow>
               \<lparr>cp_cash_with_player = (if gc_cash_with_player_percent g > 0
                  then percent_of (gc_cash_with_player_percent g) previous_salary else 0),
                cp_cash_only = (if gc_cash_only_percent g > 0
                  then percent_of (gc_cash_only_percent g) previous_salary else 0),
                cp_protect_count = gc_protect_count g,
                cp_requires_player = gc_requires_player g\<rparr>)"

end
