(* ===== verification/FaRulesProps.thy ===== *)
theory FaRulesProps
  imports FaRules
begin

text \<open>
  The rules of the free agency are well formed whatever the file holds; when loading them
  returns and when it does not; the amounts of a compensation.
\<close>

section \<open>Amounts\<close>

lemma percent_of_exact:
  assumes "0 \<le> salary" and "salary < 2 ^ 31"
  shows "unat (percent_of percent salary) = min 4294967295 (nat salary * unat percent div 100)"
proof -
  have s: "unat (word_of_int salary :: u64) = nat salary"
  proof -
    have "(word_of_int salary :: u64) = of_nat (nat salary)" using assms(1) by simp
    moreover have "nat salary < 2 ^ 64" using assms by simp
    ultimately show ?thesis by (simp add: unat_of_nat)
  qed
  have p: "unat (ucast percent :: u64) = unat percent" using unat_u32_bound [of percent] by (simp add: unsigned_ucast_eq take_bit_nat_def)
  have b: "nat salary * unat percent < 2 ^ 31 * 2 ^ 32"
    using assms unat_u32_bound [of percent] by (intro mult_strict_mono) auto
  have m: "unat ((word_of_int salary :: u64) * ucast percent) = nat salary * unat percent"
    using b by (simp add: unat_word_ariths s p)
  define amount where "amount = ((word_of_int salary :: u64) * ucast percent) div 100"
  have a: "unat amount = nat salary * unat percent div 100"
    by (simp add: amount_def unat_div_distrib m)
  show ?thesis
  proof (cases "amount > 4294967295")
    case True
    then have "4294967295 < unat amount" by (simp add: word_less_nat_alt)
    then show ?thesis using True a by (simp add: percent_of_def amount_def [symmetric] Let_def)
  next
    case False
    then have "unat amount \<le> 4294967295" by (simp add: word_less_nat_alt not_less)
    moreover from this have "unat (ucast amount :: u32) = unat amount"
      by (simp add: unsigned_ucast_eq take_bit_nat_def)
    ultimately show ?thesis using False a by (simp add: percent_of_def amount_def [symmetric] Let_def)
  qed
qed

section \<open>Well-formed rules\<close>

definition grades_ok :: "grade_config list \<Rightarrow> bool" where
  "grades_ok gs \<longleftrightarrow> length gs \<le> 8 \<and> distinct (map (\<lambda>g. map ascii_fold (gc_grade g)) gs)
     \<and> (\<forall>g \<in> set gs. gc_grade g \<noteq> [] \<and> length (gc_grade g) < 12)"

definition cases_ok :: "string list \<Rightarrow> bool" where
  "cases_ok cs \<longleftrightarrow> length cs \<le> 16 \<and> distinct cs \<and> (\<forall>c \<in> set cs. c \<noteq> [] \<and> length c < 48)"

definition fa_rules_ok :: "fa_rules \<Rightarrow> bool" where
  "fa_rules_ok r \<longleftrightarrow> grades_ok (fr_grades r) \<and> cases_ok (fr_cases r) \<and> fr_due_days r \<le> 30
     \<and> length (fr_age_grade r) < 12"

lemma ensure_grade_ok:
  assumes "grades_ok (fr_grades r)" and "grade \<noteq> []" and "length grade < 12"
    and "kbo_fa_rules_ensure_grade grade r = (r', i)"
  shows "grades_ok (fr_grades r') \<and> r' = r\<lparr>fr_grades := fr_grades r'\<rparr> \<and> (\<forall>k. i = Some k \<longrightarrow> k < length (fr_grades r'))"
proof (cases "first_index (\<lambda>g. stricmp_equal (gc_grade g) grade) (fr_grades r)")
  case None
  then have "map ascii_fold grade \<notin> (\<lambda>g. map ascii_fold (gc_grade g)) ` set (fr_grades r)"
    by (auto simp: first_index_None stricmp_equal_def)
  then show ?thesis
    using None assms
    by (auto simp: kbo_fa_rules_ensure_grade_def FA_RULES_MAX_GRADES_def grades_ok_def kbo_fa_rules_copy_text_def
        split: if_splits)
next
  case (Some k)
  then show ?thesis
    using assms first_index_Some [OF Some] by (auto simp: kbo_fa_rules_ensure_grade_def)
qed

lemma configure_grade_ok:
  assumes "fa_rules_ok r" and "grade \<noteq> []" and "length grade < 12" and "\<And>g. gc_grade (f g) = gc_grade g"
  shows "fa_rules_ok (configure_grade grade f r)"
proof -
  obtain r' i where e: "kbo_fa_rules_ensure_grade grade r = (r', i)" by fastforce
  have g: "grades_ok (fr_grades r)" using assms(1) by (simp add: fa_rules_ok_def)
  note ok = ensure_grade_ok [OF g assms(2,3) e]
  have r': "fa_rules_ok r'"
    using assms(1) ok by (metis (no_types, lifting) fa_rules.select_convs fa_rules.surjective fa_rules.update_convs(7) fa_rules_ok_def)
  show ?thesis
  proof (cases i)
    case (Some k)
    have k: "k < length (fr_grades r')" using ok Some by simp
    have "map (\<lambda>g. map ascii_fold (gc_grade g)) ((fr_grades r')[k := f (fr_grades r' ! k)])
        = map (\<lambda>g. map ascii_fold (gc_grade g)) (fr_grades r')"
      using k by (simp add: map_update assms(4) list_update_same_conv)
    moreover have "\<forall>g \<in> set ((fr_grades r')[k := f (fr_grades r' ! k)]). gc_grade g \<noteq> [] \<and> length (gc_grade g) < 12"
      using r' k by (auto simp: fa_rules_ok_def grades_ok_def assms(4) dest!: set_update_subset_insert [THEN subsetD])
    ultimately show ?thesis
      using r' Some by (simp add: configure_grade_def e update_grade_def fa_rules_ok_def grades_ok_def)
  qed (simp add: configure_grade_def e r')
qed

lemma add_case_ok: "fa_rules_ok r \<Longrightarrow> length label < 48 \<Longrightarrow> fa_rules_ok (kbo_fa_rules_add_case label r)"
  by (auto simp: fa_rules_ok_def cases_ok_def kbo_fa_rules_add_case_def FA_RULES_MAX_CASES_def list_ex_iff
      kbo_fa_rules_copy_text_def)

lemma add_cases_ok:
  "fa_rules_ok r \<Longrightarrow> \<forall>c \<in> set cs. length c < 48 \<Longrightarrow> fa_rules_ok (foldl (\<lambda>r label. kbo_fa_rules_add_case label r) r cs)"
  by (induction cs arbitrary: r) (simp_all add: add_case_ok)

lemma defaults_ok: "fa_rules_ok kbo_fa_rules_init_defaults"
proof -
  let ?zero = "\<lparr>fr_version = 1, fr_exclude_foreign = True, fr_due_days = 3, fr_age_override = True,
      fr_age_min = 35, fr_age_grade = ''C'', fr_grades = [], fr_cases = [],
      fr_source_path = ''built-in KBO defaults'', fr_loaded = False\<rparr>"
  have "fa_rules_ok ?zero" by (simp add: fa_rules_ok_def grades_ok_def cases_ok_def)
  then show ?thesis
    unfolding kbo_fa_rules_init_defaults_def Let_def
    by (intro add_cases_ok configure_grade_ok) (simp_all add: default_cases_def)
qed

section \<open>The loop over the cases\<close>

lemma unescape_length: "length (unescape room s) \<le> room"
  by (induction room s rule: unescape.induct) auto

lemma copy_value_length: "0 < n \<Longrightarrow> length (kbo_fa_rules_copy_json_string_value n s) < n"
  by (auto simp: kbo_fa_rules_copy_json_string_value_def Let_def split: option.splits
      intro: le_less_trans [OF unescape_length])

lemma case_loop_short:
  "case_loop turns parsed s = Some cs \<Longrightarrow> \<forall>c \<in> set parsed. length c < 48 \<Longrightarrow> \<forall>c \<in> set cs. length c < 48"
  by (induction turns parsed s arbitrary: cs rule: case_loop.induct)
    (auto simp: Let_def copy_value_length split: if_splits option.splits)

text \<open>What the scanner never skips without a bracket.\<close>

definition plain_text :: "string \<Rightarrow> bool" where
  "plain_text s \<longleftrightarrow> CHR 0x7b \<notin> set s \<and> CHR 0x7d \<notin> set s \<and> CHR 0x5b \<notin> set s"

lemma plain_text_iff: "plain_text s \<longleftrightarrow> \<not> list_ex (\<lambda>c. c = CHR 0x7b \<or> c = CHR 0x7d \<or> c = CHR 0x5b) s"
  by (induction s) (auto simp: plain_text_def)

lemma drop_plain: "plain_text s \<Longrightarrow> plain_text (drop n s)"
  by (auto simp: plain_text_def dest: in_set_dropD)

lemma skip_ws_drop: "\<exists>n. kbo_json_skip_ws s = drop n s \<and> n \<le> length s"
  unfolding kbo_json_skip_ws_def
  by (metis dropWhile_eq_drop length_takeWhile_le)

lemma skip_comma_drop: "\<exists>n. skip_comma s = drop n s \<and> n \<le> length s"
proof (cases "s \<noteq> [] \<and> hd s = CHR '','' ")
  case True
  then show ?thesis by (intro exI [of _ 1]) (cases s; simp add: skip_comma_def)
qed (auto simp: skip_comma_def intro: exI [of _ 0])

lemma rest_shorter: "length (skip_comma (kbo_json_skip_ws s)) \<le> length s" "plain_text s \<Longrightarrow> plain_text (skip_comma (kbo_json_skip_ws s))"
proof -
  obtain m n where "skip_comma (kbo_json_skip_ws s) = drop m (drop n s)"
    using skip_comma_drop [of "kbo_json_skip_ws s"] skip_ws_drop [of s] by metis
  then show "length (skip_comma (kbo_json_skip_ws s)) \<le> length s"
    "plain_text s \<Longrightarrow> plain_text (skip_comma (kbo_json_skip_ws s))"
    by (simp_all add: drop_plain)
qed

lemma strip_right_last: "s \<noteq> [] \<Longrightarrow> \<not> P (hd s) \<Longrightarrow> strip_right P s \<noteq> []"
  by (auto simp: strip_right_def dropWhile_eq_Nil_conv)

lemma plain_value_moves:
  assumes "plain_text p" and "p \<noteq> []" and "\<not> json_ws (hd p)" and "hd p \<noteq> CHR 0x22" and "hd p \<noteq> CHR 0x5d"
  shows "length (skip_comma (kbo_json_skip_ws (kbo_fa_rules_json_value_end p))) < length p
    \<and> plain_text (skip_comma (kbo_json_skip_ws (kbo_fa_rules_json_value_end p)))"
proof -
  obtain c q where p: "p = c # q" using assms(2) by (cases p) auto
  have ws: "kbo_json_skip_ws p = p" using assms(3) by (simp add: p kbo_json_skip_ws_def)
  have nb: "hd p \<noteq> CHR 0x7b" "hd p \<noteq> CHR 0x5b" "hd p \<noteq> CHR 0x7d" using assms(1) by (auto simp: p plain_text_def)
  define k where "k = length (strip_right json_ws (takeWhile (\<lambda>c. \<not> value_stop c) p))"
  have e: "kbo_fa_rules_json_value_end p = drop k p"
    using assms(2,4) nb by (simp add: kbo_fa_rules_json_value_end_def ws k_def)
  show ?thesis
  proof (cases "hd p = CHR '','' ")
    case True
    then have "takeWhile (\<lambda>c. \<not> value_stop c) p = []" by (simp add: p value_stop_def)
    then have "kbo_fa_rules_json_value_end p = p" using e by (simp add: k_def strip_right_def)
    then have "skip_comma (kbo_json_skip_ws (kbo_fa_rules_json_value_end p)) = q" using True p ws by (simp add: skip_comma_def)
    then show ?thesis using assms(1) drop_plain [OF assms(1), of 1] by (simp add: p)
  next
    case False
    then have "\<not> value_stop (hd p)" using nb(3) assms(5) by (simp add: value_stop_def)
    then have "takeWhile (\<lambda>c. \<not> value_stop c) p \<noteq> []" "hd (takeWhile (\<lambda>c. \<not> value_stop c) p) = hd p" by (simp_all add: p)
    then have "0 < k" using strip_right_last assms(3) unfolding k_def by (metis length_greater_0_conv)
    then have "length (drop k p) < length p" using assms(2) by simp
    then show ?thesis unfolding e using rest_shorter(1) [of "drop k p"] rest_shorter(2) [OF drop_plain [OF assms(1), of k]] by linarith
  qed
qed

lemma case_loop_returns:
  assumes "plain_text s" and "length s < turns"
  shows "case_loop turns parsed s \<noteq> None"
  using assms
proof (induction turns parsed s rule: case_loop.induct)
  case (2 turns parsed s)
  let ?p = "kbo_json_skip_ws s"
  obtain n where n: "?p = drop n s" "n \<le> length s" using skip_ws_drop by blast
  have p: "plain_text ?p" "length ?p \<le> length s" using 2(3) n drop_plain by auto
  have ws: "?p \<noteq> [] \<Longrightarrow> \<not> json_ws (hd ?p)"
    unfolding kbo_json_skip_ws_def by (rule hd_dropWhile)
  show ?case
  proof (cases "s = [] \<or> length parsed \<ge> FA_RULES_MAX_CASES \<or> ?p = [] \<or> hd ?p = CHR 0x5d")
    case True
    then show ?thesis by (auto simp: Let_def)
  next
    case False
    show ?thesis
    proof (cases "hd ?p = CHR 0x22")
      case q: True
      show ?thesis
      proof (cases "kbo_json_find_string_end ?p")
        case None
        then show ?thesis using False q by (simp add: Let_def)
      next
        case (Some stop)
        let ?rest = "skip_comma (kbo_json_skip_ws (drop (stop + 1) ?p))"
        have r: "plain_text ?rest" using rest_shorter(2) [OF drop_plain [OF p(1)]] .
        have "length ?rest \<le> length (drop (stop + 1) ?p)" by (rule rest_shorter(1))
        moreover have "length (drop (stop + 1) ?p) < length ?p" using False by simp
        ultimately have l: "length ?rest < turns" using p(2) 2(4) by linarith
        note ih = 2(1) [OF refl _ _ q Some refl r l]
        show ?thesis using False q Some ih by (simp add: Let_def split: if_splits)
      qed
    next
      case nq: False
      note v = plain_value_moves [OF p(1) _ ws nq]
      have r: "plain_text (skip_comma (kbo_json_skip_ws (kbo_fa_rules_json_value_end ?p)))"
        and l: "length (skip_comma (kbo_json_skip_ws (kbo_fa_rules_json_value_end ?p))) < turns"
        using v False p(2) 2(4) by auto
      show ?thesis using False nq 2(2) [OF refl _ _ nq r l] by (simp add: Let_def)
    qed
  qed
qed simp


section \<open>Loading\<close>

lemma fa_rules_ok_cong:
  "fr_grades r' = fr_grades r \<Longrightarrow> fr_cases r' = fr_cases r \<Longrightarrow> fr_due_days r' \<le> 30 \<Longrightarrow> length (fr_age_grade r') < 12
   \<Longrightarrow> fa_rules_ok r \<Longrightarrow> fa_rules_ok r'"
  by (simp add: fa_rules_ok_def)

lemma parse_scalars_ok:
  assumes "fa_rules_ok r"
  shows "fa_rules_ok (parse_scalars jsmn root fa r)"
proof -
  have "fr_due_days r \<le> 30" "length (fr_age_grade r) < 12" using assms by (simp_all add: fa_rules_ok_def)
  then show ?thesis
    by (intro fa_rules_ok_cong [OF _ _ _ _ assms])
      (simp_all add: parse_scalars_def Let_def kbo_fa_rules_read_string_def copy_value_length split: option.split)
qed

lemma parse_cases_ok:
  assumes "fa_rules_ok r" and "kbo_fa_rules_parse_cases turns s r = Some r'"
  shows "fa_rules_ok r'"
proof -
  have "fa_rules_ok (r\<lparr>fr_cases := []\<rparr>)" using assms(1) by (simp add: fa_rules_ok_def cases_ok_def)
  then show ?thesis
    using assms case_loop_short [of turns "[]"]
    by (auto simp: kbo_fa_rules_parse_cases_def Let_def intro!: add_cases_ok split: if_splits option.splits)
qed

lemma parse_grade_name [simp]: "gc_grade (parse_grade jsmn s g) = gc_grade g"
  by (simp add: parse_grade_def Let_def split: option.split)

lemma parse_grades_ok: "fa_rules_ok r \<Longrightarrow> fa_rules_ok (parse_grades jsmn fa r)"
  by (auto simp: parse_grades_def kbo_fa_rules_parse_grade_object_def intro!: configure_grade_ok split: option.split)

text \<open>The list of cases in a file.\<close>

definition fa_section :: "string \<Rightarrow> string" where
  "fa_section json = (case kbo_fa_rules_find_json_value_span ''faCompensation'' json of None \<Rightarrow> json | Some span \<Rightarrow> span)"

definition cases_part :: "string \<Rightarrow> string" where
  "cases_part json = (case kbo_fa_rules_find_json_value_span ''compensableCases'' (fa_section json) of
     None \<Rightarrow> [] | Some span \<Rightarrow> tl (kbo_json_skip_ws span))"

lemma parse_json_cases:
  "json \<noteq> [] \<Longrightarrow> kbo_fa_rules_parse_json jsmn turns json r =
     map_option (parse_grades jsmn (fa_section json))
       (case kbo_fa_rules_find_json_value_span ''compensableCases'' (fa_section json) of
          None \<Rightarrow> Some (parse_scalars jsmn json (fa_section json) r)
        | Some span \<Rightarrow> kbo_fa_rules_parse_cases turns span (parse_scalars jsmn json (fa_section json) r))"
  by (simp add: kbo_fa_rules_parse_json_def Let_def fa_section_def split: option.split)

lemma fa_parse_json_ok:
  assumes "fa_rules_ok r" and "kbo_fa_rules_parse_json jsmn turns json r = Some r'"
  shows "fa_rules_ok r'"
proof (cases "json = []")
  case True
  then show ?thesis using assms by (simp add: kbo_fa_rules_parse_json_def)
next
  case False
  note s = parse_scalars_ok [OF assms(1), of jsmn json "fa_section json"]
  show ?thesis
    using assms(2) s parse_cases_ok [OF s]
    by (auto simp: parse_json_cases [OF False] intro!: parse_grades_ok split: option.splits)
qed

lemma parse_json_returns:
  assumes "plain_text (cases_part json)" and "length (cases_part json) < turns"
  shows "kbo_fa_rules_parse_json jsmn turns json r \<noteq> None"
proof (cases "json = []")
  case False
  show ?thesis
    using assms case_loop_returns [of "cases_part json" turns "[]"]
    by (auto simp: parse_json_cases [OF False] cases_part_def kbo_fa_rules_parse_cases_def Let_def split: option.split)
qed (simp add: kbo_fa_rules_parse_json_def)

section \<open>Properties\<close>

text \<open>
  Whatever the rules file holds, the rules it gives are well formed: at most eight grades of
  different names, at most 16 different cases, and at most 30 days for the protected list.
  Loading returns after fewer turns than the list of cases has characters, unless that
  list has a brace or an opening bracket in it.
\<close>

theorem loaded_fa_rules_are_well_formed:
  "case kbo_fa_rules_load jsmn turns rules_file of
     Some (rules, loaded) \<Rightarrow> fa_rules_ok rules \<and> loaded = fr_loaded rules
   | None \<Rightarrow> \<exists>path json. rules_file = Some (path, json)
       \<and> (turns \<le> length (cases_part json) \<or> list_ex (\<lambda>c. c = CHR 0x7b \<or> c = CHR 0x7d \<or> c = CHR 0x5b) (cases_part json))"
proof -
  have ok: "fa_rules_ok (r\<lparr>fr_source_path := p, fr_loaded := b\<rparr>) = fa_rules_ok r" for r p b by (simp add: fa_rules_ok_def)
  have b: "fr_loaded kbo_fa_rules_init_defaults = False"
    by code_simp
  show ?thesis
  proof (cases rules_file)
    case None
    then show ?thesis by (simp add: kbo_fa_rules_load_def defaults_ok b)
  next
    case (Some f)
    obtain path json where f: "rules_file = Some (path, json)" using Some by (cases f) simp
    show ?thesis
    proof (cases "kbo_fa_rules_parse_json jsmn turns json kbo_fa_rules_init_defaults")
      case None
      then have "\<not> (plain_text (cases_part json) \<and> length (cases_part json) < turns)" using parse_json_returns by blast
      then have stuck: "turns \<le> length (cases_part json)
          \<or> list_ex (\<lambda>c. c = CHR 0x7b \<or> c = CHR 0x7d \<or> c = CHR 0x5b) (cases_part json)"
        unfolding plain_text_iff by (meson not_le)
      have "kbo_fa_rules_load jsmn turns rules_file = None
          \<or> kbo_fa_rules_load jsmn turns rules_file = Some (kbo_fa_rules_init_defaults, False)"
        unfolding f kbo_fa_rules_load_def option.case prod.case None by simp
      then show ?thesis using stuck f defaults_ok b by (elim disjE) simp_all
    next
      case (Some r)
      then show ?thesis using fa_parse_json_ok [OF defaults_ok Some] by (simp add: f kbo_fa_rules_load_def defaults_ok b ok)
    qed
  qed
qed

lemma case_loop_stuck: "length parsed < 16 \<Longrightarrow> case_loop turns parsed (CHR 0x7d # s) = None"
proof (induction turns)
  case (Suc turns)
  have ws: "kbo_json_skip_ws (CHR 0x7d # s) = CHR 0x7d # s" by (simp add: kbo_json_skip_ws_def json_ws_def)
  have v: "kbo_fa_rules_json_value_end (CHR 0x7d # s) = CHR 0x7d # s"
    by (simp add: kbo_fa_rules_json_value_end_def ws value_stop_def strip_right_def)
  have c: "skip_comma (CHR 0x7d # s) = CHR 0x7d # s" by (simp add: skip_comma_def)
  have n: "\<not> (CHR 0x7d # s = [] \<or> length parsed \<ge> FA_RULES_MAX_CASES)"
      "\<not> (CHR 0x7d # s = [] \<or> hd (CHR 0x7d # s) = CHR 0x5d)" "\<not> hd (CHR 0x7d # s) = CHR 0x22"
    using Suc.prems by (simp_all add: FA_RULES_MAX_CASES_def)
  show ?case
    unfolding case_loop.simps(2) Let_def ws if_not_P [OF n(1)] if_not_P [OF n(2)] if_not_P [OF n(3)] v c
    by (rule Suc.IH [OF Suc.prems])
qed simp

definition stray_brace :: string where
  "stray_brace = CHR 0x7b # CHR 0x22 # ''compensableCases'' @ [CHR 0x22, CHR '':'', CHR 0x5b, CHR 0x7d, CHR 0x5d, CHR 0x7d]"

text \<open>
  A brace in the list of cases, as in \<open>[}]\<close>, stops the reader for good: loading such a
  file returns after no number of turns, and with it the caller hangs.
\<close>

theorem stray_brace_hangs_the_reader:
  "kbo_fa_rules_load jsmn turns (Some (path, stray_brace)) = None"
proof -
  have l: "stray_brace \<noteq> []" "length stray_brace \<le> FLAGS_JSON_MAX_BYTES" "fa_section stray_brace = stray_brace"
    "kbo_fa_rules_find_json_value_span ''compensableCases'' stray_brace = Some [CHR 0x5b, CHR 0x7d, CHR 0x5d]"
    by code_simp+
  have "kbo_fa_rules_parse_cases turns [CHR 0x5b, CHR 0x7d, CHR 0x5d] r = None" for r
    using case_loop_stuck [of "[]" turns "[CHR 0x5d]"] by (simp add: kbo_fa_rules_parse_cases_def kbo_json_skip_ws_def json_ws_def)
  then have "kbo_fa_rules_parse_json jsmn turns stray_brace kbo_fa_rules_init_defaults = None"
    by (simp add: parse_json_cases [OF l(1)] l(3,4))
  then show ?thesis using l(1,2) by (simp add: kbo_fa_rules_load_def)
qed

text \<open>
  C28: the amounts of a compensation are the percentages of the grade, rounded down and cut off
  at the greatest 32-bit number: no product overflows.  A salary that is not positive, or a
  grade without an enabled configuration, gives no compensation.
\<close>

theorem compensation_is_percentage_of_salary:
  assumes "0 < salary" and "salary < 2 ^ 31" and "kbo_fa_rules_find_grade rules grade = Some g"
  shows "unat (cp_cash_with_player (kbo_fa_rules_calculate_compensation rules grade salary))
       = min 4294967295 (nat salary * unat (gc_cash_with_player_percent g) div 100)
     \<and> unat (cp_cash_only (kbo_fa_rules_calculate_compensation rules grade salary))
       = min 4294967295 (nat salary * unat (gc_cash_only_percent g) div 100)
     \<and> cp_protect_count (kbo_fa_rules_calculate_compensation rules grade salary) = gc_protect_count g
     \<and> cp_requires_player (kbo_fa_rules_calculate_compensation rules grade salary) = gc_requires_player g
     \<and> gc_enabled g \<and> stricmp_equal (gc_grade g) grade"
proof -
  have g: "gc_enabled g \<and> stricmp_equal (gc_grade g) grade"
    using assms(3) by (auto simp: kbo_fa_rules_find_grade_def find_Some_iff split: if_splits)
  have p: "unat (if 0 < percent then percent_of percent salary else 0) = min 4294967295 (nat salary * unat percent div 100)"
    for percent
  proof (cases "0 < percent")
    case False
    then have "percent = 0" by (simp add: word_neq_0_conv [symmetric])
    then show ?thesis by simp
  qed (use percent_of_exact [of salary percent] assms(1,2) in simp)
  show ?thesis
    using assms(1,3) g by (simp add: kbo_fa_rules_calculate_compensation_def p)
qed

theorem compensation_is_percentage_of_salary_witness:
  "unat (cp_cash_only (kbo_fa_rules_calculate_compensation kbo_fa_rules_init_defaults ''a'' 250000001)) = 750000003
   \<and> unat (cp_cash_with_player (kbo_fa_rules_calculate_compensation kbo_fa_rules_init_defaults ''a'' 2147483647)) = 4294967294"
proof -
  obtain g where g: "kbo_fa_rules_find_grade kbo_fa_rules_init_defaults ''a'' = Some g"
      "gc_cash_only_percent g = 300" "gc_cash_with_player_percent g = 200"
  proof -
    have "map_option (\<lambda>g. (gc_cash_only_percent g, gc_cash_with_player_percent g))
        (kbo_fa_rules_find_grade kbo_fa_rules_init_defaults ''a'') = Some (300, 200)"
      by code_simp
    then show ?thesis using that by auto
  qed
  show ?thesis
    using compensation_is_percentage_of_salary [OF _ _ g(1), of 250000001]
      compensation_is_percentage_of_salary [OF _ _ g(1), of 2147483647]
    by (simp add: g(2,3))
qed

end
