(* ===== verification/FaState.thy ===== *)
theory FaState
  imports ForeignPolicy KeyedTable
begin

text \<open>
  The data of the free agent compensation: \<open>native/src/fa_compensation/state/fa_compensation_state.h\<close>
  and what the code reads and writes of the game.  A player object is the \<open>player_row\<close> of the
  roster arrays with the fields only this part uses.  \<open>fa_world\<close> has the address and the ids of
  the player vector, the objects by their ids, and the finances of the teams.
\<close>

section \<open>The ledger\<close>

record fa_record =
  fc_player_id :: u32
  fc_signed_on :: u32
  fc_season :: u32
  fc_league_id :: u32
  fc_original_team :: u32
  fc_signing_team :: u32
  fc_grade :: string
  fc_previous_salary :: int
  fc_cash_with_player :: u32
  fc_cash_only :: u32
  fc_protect_count :: u32
  fc_requires_player :: bool
  fc_status :: u8
  fc_case_label :: string
  fc_player_name :: string
  fc_source :: string

definition FA_COMPENSATION_MAX :: nat where "FA_COMPENSATION_MAX = 1024"
definition PROTECTED_LIST_MAX :: nat where "PROTECTED_LIST_MAX = 128"

definition PENDING :: u8 where "PENDING = 0"
definition RECORDED :: u8 where "RECORDED = 1"
definition PLAYER_SELECTED :: u8 where "PLAYER_SELECTED = 2"
definition PLAYER_TRANSFERRED :: u8 where "PLAYER_TRANSFERRED = 3"
definition CASH_ONLY_SELECTED :: u8 where "CASH_ONLY_SELECTED = 4"
definition CASH_ONLY_RECORDED :: u8 where "CASH_ONLY_RECORDED = 5"

lemmas fa_status_defs = PENDING_def RECORDED_def PLAYER_SELECTED_def PLAYER_TRANSFERRED_def
  CASH_ONLY_SELECTED_def CASH_ONLY_RECORDED_def

record fa_candidate =
  pc_player_id :: u32
  pc_team_id :: u32
  pc_age :: u16
  pc_role :: u8
  pc_score :: int
  pc_reason :: string
  pc_name :: string

record fa_decision =
  fd_fa_player :: u32
  fd_season :: u32
  fd_grade :: string
  fd_original_team :: u32
  fd_signing_team :: u32
  fd_signed_on :: u32
  fd_due_on :: u32
  fd_decided_on :: u32
  fd_action :: string
  fd_selected :: u32
  fd_selected_name :: string
  fd_selected_score :: int
  fd_unprotected :: int
  fd_cash_with_player :: u32
  fd_cash_only :: u32
  fd_source :: string

section \<open>The game\<close>

record fa_player =
  fq_base :: player_row
  fq_age :: u16
  fq_role :: u8
  fq_retired :: u8
  fq_military :: u8
  fq_salary :: int
  fq_draft_class :: u8
  fq_draft_subtype :: u8
  fq_draft_extra :: u8
  fq_generation_context :: u8
  fq_status :: u16
  fq_name :: string

record financials =
  fi_budget :: int
  fi_scouting_budget :: int
  fi_development_budget :: int
  fi_draft_budget :: int
  fi_draft_expenses :: int
  fi_cash :: int

record fa_world =
  fw_vector :: "(u64 \<times> u32 list) option"
  fw_players :: "u32 \<Rightarrow> fa_player option"
  fw_teams :: "u32 \<Rightarrow> team_row option"
  fw_finances :: "u32 \<Rightarrow> financials option"

definition MAX_PLAYER_VECTOR_COUNT :: nat where "MAX_PLAYER_VECTOR_COUNT = 200000"

text \<open>The vector, if it can be read: its address and the ids of its players.\<close>

definition readable_vector :: "fa_world \<Rightarrow> (u64 \<times> u32 list) option" where
  "readable_vector w =
     (case fw_vector w of
        None \<Rightarrow> None
      | Some (base, ids) \<Rightarrow>
          if base \<noteq> 0 \<and> ids \<noteq> [] \<and> length ids \<le> MAX_PLAYER_VECTOR_COUNT then Some (base, ids) else None)"

text \<open>The current or the organisation's club of a player is the given one.\<close>

definition on_team :: "u32 \<Rightarrow> fa_player \<Rightarrow> bool" where
  "on_team team_id p \<longleftrightarrow> pl_current_team (fq_base p) = team_id \<or> pl_active_team (fq_base p) = team_id"

text \<open>The \<open>%d\<close> conversion.\<close>

definition show_int :: "int \<Rightarrow> string" where
  "show_int n = (if n < 0 then CHR ''-'' # show_nat (nat (- n)) else show_nat (nat n))"

end
