(* ===== verification/FaProtection.thy ===== *)
theory FaProtection
  imports FaState "HOL-Library.Product_Lexorder"
begin

text \<open>
  The protected list of a free agent compensation: \<open>native/src/fa_compensation/protection/\<close>
  (\<open>policy/fa_compensation_protection_policy.c\<close>, \<open>candidate_score/fa_compensation_candidate_score.c\<close>,
  \<open>fa_compensation_protection_score.c\<close>, \<open>cache/fa_compensation_protection_cache.c\<close>).

  A club that signs a free agent may protect some of its players; the candidates are its
  players ranked by a score, without those that are protected anyway (foreign players,
  players in the military, rookies, the free agent himself).  \<open>protection_state\<close> has the two
  caches of the module.  A text that would be \<open>NULL\<close> is never passed by the callers; a buffer
  for the automatically protected players of size 0 stands for \<open>NULL\<close>.
\<close>

unbundle bit_operations_syntax

section \<open>The policy\<close>

record protection_policy =
  pp_candidate_prospect_age_max :: int
  pp_candidate_prospect_bonus :: int
  pp_candidate_young_age_max :: int
  pp_candidate_young_bonus :: int
  pp_candidate_prime_age_max :: int
  pp_candidate_prime_bonus :: int
  pp_candidate_old_low_overall_age_min :: int
  pp_candidate_old_low_overall_max :: int
  pp_candidate_old_low_overall_penalty :: int
  pp_candidate_aging_age_min :: int
  pp_candidate_aging_penalty :: int
  pp_candidate_core_value_min :: int
  pp_candidate_core_bonus :: int
  pp_candidate_regular_value_min :: int
  pp_candidate_regular_bonus :: int
  pp_candidate_upside_margin :: int
  pp_candidate_upside_bonus :: int
  pp_candidate_cheap_salary_max :: int
  pp_candidate_cheap_age_max :: int
  pp_candidate_cheap_talent_margin :: int
  pp_candidate_cheap_bonus :: int
  pp_candidate_bad_contract_salary_min :: int
  pp_candidate_bad_contract_age_min :: int
  pp_candidate_bad_contract_overall_max :: int
  pp_candidate_bad_contract_penalty :: int
  pp_candidate_costly_vet_salary_min :: int
  pp_candidate_costly_vet_age_min :: int
  pp_candidate_costly_vet_penalty :: int
  pp_candidate_paid_core_salary_min :: int
  pp_candidate_paid_core_overall_min :: int
  pp_candidate_paid_core_bonus :: int
  pp_candidate_scarce_bonus :: int
  pp_candidate_deep_penalty :: int
  pp_candidate_scarce_catcher_max :: int
  pp_candidate_scarce_infielder_max :: int
  pp_candidate_scarce_outfielder_max :: int
  pp_candidate_scarce_pitcher_max :: int
  pp_candidate_deep_catcher_min :: int
  pp_candidate_deep_infielder_min :: int
  pp_candidate_deep_outfielder_min :: int
  pp_candidate_deep_pitcher_min :: int
  pp_decision_missing_player_penalty :: int
  pp_decision_prospect_age_max :: int
  pp_decision_prospect_bonus :: int
  pp_decision_young_age_max :: int
  pp_decision_young_bonus :: int
  pp_decision_prime_age_max :: int
  pp_decision_prime_bonus :: int
  pp_decision_old_age_min :: int
  pp_decision_old_penalty :: int
  pp_decision_aging_age_min :: int
  pp_decision_aging_penalty :: int
  pp_decision_unknown_salary_bonus :: int
  pp_decision_cheap_salary_max :: int
  pp_decision_cheap_bonus :: int
  pp_decision_expensive_salary_min :: int
  pp_decision_expensive_penalty :: int
  pp_decision_costly_salary_min :: int
  pp_decision_costly_penalty :: int
  pp_decision_team_need_bonus :: int
  pp_decision_surplus_penalty :: int
  pp_decision_need_catcher_below :: int
  pp_decision_need_infielder_below :: int
  pp_decision_need_outfielder_below :: int
  pp_decision_need_pitcher_below :: int
  pp_decision_surplus_catcher_above :: int
  pp_decision_surplus_infielder_above :: int
  pp_decision_surplus_outfielder_above :: int
  pp_decision_surplus_pitcher_above :: int
  pp_decision_upside_margin :: int
  pp_decision_upside_bonus :: int
  pp_cash_only_score_threshold :: int
  pp_cash_only_extra_cash_score_threshold :: int
  pp_cash_only_ab_grade_requires_no_player :: int
  pp_rookie_auto_protected_age_max :: int

definition kbo_fa_compensation_policy_init_once :: "(string \<Rightarrow> int \<Rightarrow> int \<Rightarrow> int \<Rightarrow> int) \<Rightarrow> protection_policy" where
  "kbo_fa_compensation_policy_init_once p =
     (let threshold = p ''cash_only_score_threshold'' 65000 0 10000000;
          extra = p ''cash_only_extra_cash_score_threshold'' 80000 0 10000000
      in \<lparr>pp_candidate_prospect_age_max = p ''candidate_prospect_age_max'' 22 16 50,
        pp_candidate_prospect_bonus = p ''candidate_prospect_bonus'' 1200 0 1000000,
        pp_candidate_young_age_max = p ''candidate_young_age_max'' 25 16 50,
        pp_candidate_young_bonus = p ''candidate_young_bonus'' 850 0 1000000,
        pp_candidate_prime_age_max = p ''candidate_prime_age_max'' 29 16 60,
        pp_candidate_prime_bonus = p ''candidate_prime_bonus'' 350 0 1000000,
        pp_candidate_old_low_overall_age_min = p ''candidate_old_low_overall_age_min'' 36 16 80,
        pp_candidate_old_low_overall_max = p ''candidate_old_low_overall_max'' 44 0 100,
        pp_candidate_old_low_overall_penalty = p ''candidate_old_low_overall_penalty'' 900 0 1000000,
        pp_candidate_aging_age_min = p ''candidate_aging_age_min'' 34 16 80,
        pp_candidate_aging_penalty = p ''candidate_aging_penalty'' 350 0 1000000,
        pp_candidate_core_value_min = p ''candidate_core_value_min'' 60 0 100,
        pp_candidate_core_bonus = p ''candidate_core_bonus'' 1000 0 1000000,
        pp_candidate_regular_value_min = p ''candidate_regular_value_min'' 50 0 100,
        pp_candidate_regular_bonus = p ''candidate_regular_bonus'' 450 0 1000000,
        pp_candidate_upside_margin = p ''candidate_upside_margin'' 15 0 100,
        pp_candidate_upside_bonus = p ''candidate_upside_bonus'' 650 0 1000000,
        pp_candidate_cheap_salary_max = p ''candidate_cheap_salary_max'' 70000000 0 2147483647,
        pp_candidate_cheap_age_max = p ''candidate_cheap_age_max'' 27 16 80,
        pp_candidate_cheap_talent_margin = p ''candidate_cheap_talent_margin'' 10 0 100,
        pp_candidate_cheap_bonus = p ''candidate_cheap_bonus'' 450 0 1000000,
        pp_candidate_bad_contract_salary_min = p ''candidate_bad_contract_salary_min'' 800000000 0 2147483647,
        pp_candidate_bad_contract_age_min = p ''candidate_bad_contract_age_min'' 33 16 80,
        pp_candidate_bad_contract_overall_max = p ''candidate_bad_contract_overall_max'' 54 0 100,
        pp_candidate_bad_contract_penalty = p ''candidate_bad_contract_penalty'' 1000 0 1000000,
        pp_candidate_costly_vet_salary_min = p ''candidate_costly_vet_salary_min'' 500000000 0 2147483647,
        pp_candidate_costly_vet_age_min = p ''candidate_costly_vet_age_min'' 32 16 80,
        pp_candidate_costly_vet_penalty = p ''candidate_costly_vet_penalty'' 450 0 1000000,
        pp_candidate_paid_core_salary_min = p ''candidate_paid_core_salary_min'' 300000000 0 2147483647,
        pp_candidate_paid_core_overall_min = p ''candidate_paid_core_overall_min'' 60 0 100,
        pp_candidate_paid_core_bonus = p ''candidate_paid_core_bonus'' 200 0 1000000,
        pp_candidate_scarce_bonus = p ''candidate_scarce_bonus'' 650 0 1000000,
        pp_candidate_deep_penalty = p ''candidate_deep_penalty'' 200 0 1000000,
        pp_candidate_scarce_catcher_max = p ''candidate_scarce_catcher_max'' 2 0 200,
        pp_candidate_scarce_infielder_max = p ''candidate_scarce_infielder_max'' 5 0 200,
        pp_candidate_scarce_outfielder_max = p ''candidate_scarce_outfielder_max'' 6 0 200,
        pp_candidate_scarce_pitcher_max = p ''candidate_scarce_pitcher_max'' 12 0 400,
        pp_candidate_deep_catcher_min = p ''candidate_deep_catcher_min'' 5 0 200,
        pp_candidate_deep_infielder_min = p ''candidate_deep_infielder_min'' 11 0 200,
        pp_candidate_deep_outfielder_min = p ''candidate_deep_outfielder_min'' 11 0 200,
        pp_candidate_deep_pitcher_min = p ''candidate_deep_pitcher_min'' 24 0 400,
        pp_decision_missing_player_penalty = p ''decision_missing_player_penalty'' 100000 0 10000000,
        pp_decision_prospect_age_max = p ''decision_prospect_age_max'' 22 16 50,
        pp_decision_prospect_bonus = p ''decision_prospect_bonus'' 1000 0 1000000,
        pp_decision_young_age_max = p ''decision_young_age_max'' 25 16 50,
        pp_decision_young_bonus = p ''decision_young_bonus'' 700 0 1000000,
        pp_decision_prime_age_max = p ''decision_prime_age_max'' 29 16 60,
        pp_decision_prime_bonus = p ''decision_prime_bonus'' 250 0 1000000,
        pp_decision_old_age_min = p ''decision_old_age_min'' 35 16 80,
        pp_decision_old_penalty = p ''decision_old_penalty'' 900 0 1000000,
        pp_decision_aging_age_min = p ''decision_aging_age_min'' 32 16 80,
        pp_decision_aging_penalty = p ''decision_aging_penalty'' 350 0 1000000,
        pp_decision_unknown_salary_bonus = p ''decision_unknown_salary_bonus'' 150 0 1000000,
        pp_decision_cheap_salary_max = p ''decision_cheap_salary_max'' 70000000 0 2147483647,
        pp_decision_cheap_bonus = p ''decision_cheap_bonus'' 500 0 1000000,
        pp_decision_expensive_salary_min = p ''decision_expensive_salary_min'' 600000000 0 2147483647,
        pp_decision_expensive_penalty = p ''decision_expensive_penalty'' 900 0 1000000,
        pp_decision_costly_salary_min = p ''decision_costly_salary_min'' 300000000 0 2147483647,
        pp_decision_costly_penalty = p ''decision_costly_penalty'' 350 0 1000000,
        pp_decision_team_need_bonus = p ''decision_team_need_bonus'' 700 0 1000000,
        pp_decision_surplus_penalty = p ''decision_surplus_penalty'' 250 0 1000000,
        pp_decision_need_catcher_below = p ''decision_need_catcher_below'' 2 0 200,
        pp_decision_need_infielder_below = p ''decision_need_infielder_below'' 5 0 200,
        pp_decision_need_outfielder_below = p ''decision_need_outfielder_below'' 7 0 200,
        pp_decision_need_pitcher_below = p ''decision_need_pitcher_below'' 13 0 400,
        pp_decision_surplus_catcher_above = p ''decision_surplus_catcher_above'' 4 0 200,
        pp_decision_surplus_infielder_above = p ''decision_surplus_infielder_above'' 10 0 200,
        pp_decision_surplus_outfielder_above = p ''decision_surplus_outfielder_above'' 10 0 200,
        pp_decision_surplus_pitcher_above = p ''decision_surplus_pitcher_above'' 22 0 400,
        pp_decision_upside_margin = p ''decision_upside_margin'' 15 0 100,
        pp_decision_upside_bonus = p ''decision_upside_bonus'' 450 0 1000000,
        pp_cash_only_score_threshold = threshold,
        pp_cash_only_extra_cash_score_threshold = (if extra < threshold then threshold else extra),
        pp_cash_only_ab_grade_requires_no_player = p ''cash_only_ab_grade_requires_no_player'' 1 0 1,
        pp_rookie_auto_protected_age_max = p ''rookie_auto_protected_age_max'' 23 16 50\<rparr>)"

definition kbo_fa_compensation_protection_policy :: "jsmn \<Rightarrow> policy_files \<Rightarrow> protection_policy" where
  "kbo_fa_compensation_protection_policy jsmn files =
     kbo_fa_compensation_policy_init_once (kbo_read_clamped_policy_int jsmn files)"

section \<open>Roles\<close>

definition kbo_fa_role_bucket :: "u8 \<Rightarrow> int" where
  "kbo_fa_role_bucket role =
     (if role = 1 then 0
      else if role = 2 then 1
      else if role \<ge> 3 \<and> role \<le> 6 then 2
      else if role \<ge> 7 \<and> role \<le> 9 then 3
      else 4)"

definition TEAM_ROLE_COUNT_CACHE_SIZE :: u32 where "TEAM_ROLE_COUNT_CACHE_SIZE = 64"
definition ROLE_BUCKET_COUNT :: int where "ROLE_BUCKET_COUNT = 5"

record role_entry =
  ro_team_id :: u32
  ro_vector :: u64
  ro_player_count :: nat
  ro_counts :: "int list"
  ro_valid :: bool

definition role_slot :: "u32 \<Rightarrow> nat \<Rightarrow> nat" where
  "role_slot team_id player_count =
     unat (((team_id * 2654435761) XOR push_bit 3 (of_nat player_count)) AND (TEAM_ROLE_COUNT_CACHE_SIZE - 1))"

definition count_role :: "fa_world \<Rightarrow> u32 \<Rightarrow> int list \<Rightarrow> u32 \<Rightarrow> int list" where
  "count_role w team_id counts player_id =
     (case fw_players w player_id of
        None \<Rightarrow> counts
      | Some p \<Rightarrow>
          if fq_retired p \<noteq> 0 \<or> fq_military p \<noteq> 0 then counts
          else if \<not> on_team team_id p then counts
          else
            let bucket = nat (kbo_fa_role_bucket (fq_role p))
            in counts[bucket := counts ! bucket + 1])"

definition kbo_fa_team_role_count ::
    "fa_world \<Rightarrow> u32 \<Rightarrow> int \<Rightarrow> (nat \<Rightarrow> role_entry) \<Rightarrow> (nat \<Rightarrow> role_entry) \<times> int" where
  "kbo_fa_team_role_count w team_id role_bucket0 cache =
     (if team_id = 0 \<or> role_bucket0 < 0 then (cache, 0)
      else
        let role_bucket = nat (if role_bucket0 \<ge> ROLE_BUCKET_COUNT then ROLE_BUCKET_COUNT - 1 else role_bucket0)
        in case readable_vector w of
             None \<Rightarrow> (cache, 0)
           | Some (base, ids) \<Rightarrow>
               let slot = role_slot team_id (length ids);
                   cached = cache slot
               in if ro_valid cached \<and> ro_team_id cached = team_id \<and> ro_vector cached = base
                     \<and> ro_player_count cached = length ids
                  then (cache, ro_counts cached ! role_bucket)
                  else
                    let counts = foldl (count_role w team_id) [0, 0, 0, 0, 0] ids
                    in (cache(slot := \<lparr>ro_team_id = team_id, ro_vector = base, ro_player_count = length ids,
                                       ro_counts = counts, ro_valid = True\<rparr>),
                        counts ! role_bucket))"

section \<open>The score of a candidate\<close>

text \<open>The parts of the score, each with the word that names it in the reason.\<close>

definition candidate_age_part :: "protection_policy \<Rightarrow> int \<Rightarrow> int \<Rightarrow> int \<times> string" where
  "candidate_age_part pol age overall =
     (if age \<le> pp_candidate_prospect_age_max pol then (pp_candidate_prospect_bonus pol, ''prospect'')
      else if age \<le> pp_candidate_young_age_max pol then (pp_candidate_young_bonus pol, ''young'')
      else if age \<le> pp_candidate_prime_age_max pol then (pp_candidate_prime_bonus pol, ''prime'')
      else if age \<ge> pp_candidate_old_low_overall_age_min pol \<and> overall \<le> pp_candidate_old_low_overall_max pol
      then (- pp_candidate_old_low_overall_penalty pol, ''old_low_ovr'')
      else if age \<ge> pp_candidate_aging_age_min pol then (- pp_candidate_aging_penalty pol, ''aging'')
      else (0, ''prime''))"

definition candidate_core_part :: "protection_policy \<Rightarrow> int \<Rightarrow> int \<Rightarrow> int \<Rightarrow> int \<times> string" where
  "candidate_core_part pol overall talent career =
     (let core = (if overall \<ge> pp_candidate_core_value_min pol \<or> career \<ge> pp_candidate_core_value_min pol
                  then (pp_candidate_core_bonus pol, ''core'')
                  else if overall \<ge> pp_candidate_regular_value_min pol \<or> career \<ge> pp_candidate_regular_value_min pol
                  then (pp_candidate_regular_bonus pol, ''regular'')
                  else (0, ''depth''))
      in if talent > overall + pp_candidate_upside_margin pol
         then (fst core + pp_candidate_upside_bonus pol, ''upside'') else core)"

definition candidate_salary_part :: "protection_policy \<Rightarrow> int \<Rightarrow> int \<Rightarrow> int \<Rightarrow> int \<Rightarrow> int \<times> string" where
  "candidate_salary_part pol salary age overall talent =
     (if salary \<le> 0 then (0, ''unknown_salary'')
      else if salary \<le> pp_candidate_cheap_salary_max pol
         \<and> (age \<le> pp_candidate_cheap_age_max pol \<or> talent \<ge> overall + pp_candidate_cheap_talent_margin pol)
      then (pp_candidate_cheap_bonus pol, ''cheap_control'')
      else if salary \<ge> pp_candidate_bad_contract_salary_min pol \<and> age \<ge> pp_candidate_bad_contract_age_min pol
         \<and> overall \<le> pp_candidate_bad_contract_overall_max pol
      then (- pp_candidate_bad_contract_penalty pol, ''bad_contract'')
      else if salary \<ge> pp_candidate_costly_vet_salary_min pol \<and> age \<ge> pp_candidate_costly_vet_age_min pol
      then (- pp_candidate_costly_vet_penalty pol, ''costly_vet'')
      else if salary \<ge> pp_candidate_paid_core_salary_min pol \<and> overall \<ge> pp_candidate_paid_core_overall_min pol
      then (pp_candidate_paid_core_bonus pol, ''paid_core'')
      else (0, ''salary_ok''))"

definition candidate_scarcity_part :: "protection_policy \<Rightarrow> int \<Rightarrow> int \<Rightarrow> int \<times> string" where
  "candidate_scarcity_part pol role_bucket n =
     (if (role_bucket = 1 \<and> n \<le> pp_candidate_scarce_catcher_max pol)
         \<or> (role_bucket = 2 \<and> n \<le> pp_candidate_scarce_infielder_max pol)
         \<or> (role_bucket = 3 \<and> n \<le> pp_candidate_scarce_outfielder_max pol)
         \<or> (role_bucket = 0 \<and> n \<le> pp_candidate_scarce_pitcher_max pol)
      then (pp_candidate_scarce_bonus pol, ''scarce_role'')
      else if (role_bucket = 1 \<and> n \<ge> pp_candidate_deep_catcher_min pol)
         \<or> (role_bucket = 2 \<and> n \<ge> pp_candidate_deep_infielder_min pol)
         \<or> (role_bucket = 3 \<and> n \<ge> pp_candidate_deep_outfielder_min pol)
         \<or> (role_bucket = 0 \<and> n \<ge> pp_candidate_deep_pitcher_min pol)
      then (- pp_candidate_deep_penalty pol, ''deep_role'')
      else (0, ''normal_role''))"

definition kbo_fa_protection_candidate_score ::
    "protection_policy \<Rightarrow> foreign_policy \<Rightarrow> fa_world \<Rightarrow> fa_player \<Rightarrow> u32 \<Rightarrow> (nat \<Rightarrow> role_entry)
     \<Rightarrow> (nat \<Rightarrow> role_entry) \<times> int \<times> string" where
  "kbo_fa_protection_candidate_score pol fpol w p signing_team_id cache =
     (let base = kbo_foreign_waiver_value_score fpol (fq_base p);
          overall = pl_overall_value (fq_base p);
          talent = pl_talent_value (fq_base p);
          career = pl_career_value (fq_base p);
          age = uint (fq_age p);
          role_bucket = kbo_fa_role_bucket (fq_role p);
          (cache1, n) = kbo_fa_team_role_count w signing_team_id role_bucket cache;
          (age_score, age_tag) = candidate_age_part pol age overall;
          (core_score, core_tag) = candidate_core_part pol overall talent career;
          (salary_score, salary_tag) = candidate_salary_part pol (fq_salary p) age overall talent;
          (scarcity_score, scarcity_tag) = candidate_scarcity_part pol role_bucket n
      in (cache1, base + age_score + core_score + salary_score + scarcity_score,
          strbuf 96 (age_tag @ ''/'' @ core_tag @ ''/'' @ salary_tag @ ''/'' @ scarcity_tag @ ''/base'' @ show_int base)))"

section \<open>The score of a decision\<close>

definition decision_age_part :: "protection_policy \<Rightarrow> int \<Rightarrow> int \<times> string" where
  "decision_age_part pol age =
     (if age \<le> pp_decision_prospect_age_max pol then (pp_decision_prospect_bonus pol, ''prospect'')
      else if age \<le> pp_decision_young_age_max pol then (pp_decision_young_bonus pol, ''young'')
      else if age \<le> pp_decision_prime_age_max pol then (pp_decision_prime_bonus pol, ''prime'')
      else if age \<ge> pp_decision_old_age_min pol then (- pp_decision_old_penalty pol, ''old'')
      else if age \<ge> pp_decision_aging_age_min pol then (- pp_decision_aging_penalty pol, ''aging'')
      else (0, ''prime''))"

definition decision_salary_part :: "protection_policy \<Rightarrow> int \<Rightarrow> int \<times> string" where
  "decision_salary_part pol salary =
     (if salary \<le> 0 then (pp_decision_unknown_salary_bonus pol, ''unknown_salary'')
      else if salary \<le> pp_decision_cheap_salary_max pol then (pp_decision_cheap_bonus pol, ''cheap'')
      else if salary \<ge> pp_decision_expensive_salary_min pol then (- pp_decision_expensive_penalty pol, ''expensive'')
      else if salary \<ge> pp_decision_costly_salary_min pol then (- pp_decision_costly_penalty pol, ''costly'')
      else (0, ''salary_ok''))"

definition decision_need_part :: "protection_policy \<Rightarrow> int \<Rightarrow> int \<Rightarrow> int \<times> string" where
  "decision_need_part pol role_bucket n =
     (if (role_bucket = 1 \<and> n < pp_decision_need_catcher_below pol)
         \<or> (role_bucket = 2 \<and> n < pp_decision_need_infielder_below pol)
         \<or> (role_bucket = 3 \<and> n < pp_decision_need_outfielder_below pol)
         \<or> (role_bucket = 0 \<and> n < pp_decision_need_pitcher_below pol)
      then (pp_decision_team_need_bonus pol, ''team_need'')
      else if (role_bucket = 1 \<and> n > pp_decision_surplus_catcher_above pol)
         \<or> (role_bucket = 2 \<and> n > pp_decision_surplus_infielder_above pol)
         \<or> (role_bucket = 3 \<and> n > pp_decision_surplus_outfielder_above pol)
         \<or> (role_bucket = 0 \<and> n > pp_decision_surplus_pitcher_above pol)
      then (- pp_decision_surplus_penalty pol, ''surplus_role'')
      else (0, ''neutral_need''))"

definition kbo_fa_compensation_player_decision_score ::
    "protection_policy \<Rightarrow> foreign_policy \<Rightarrow> fa_world \<Rightarrow> fa_record \<Rightarrow> fa_candidate \<Rightarrow> (nat \<Rightarrow> role_entry)
     \<Rightarrow> (nat \<Rightarrow> role_entry) \<times> int \<times> string" where
  "kbo_fa_compensation_player_decision_score pol fpol w rec cand cache =
     (if pc_player_id cand = 0 then (cache, -2147483647, [])
      else case fw_players w (pc_player_id cand) of
          None \<Rightarrow> (cache, pc_score cand - pp_decision_missing_player_penalty pol, [])
        | Some p \<Rightarrow>
            (let base = kbo_foreign_waiver_value_score fpol (fq_base p);
                 role_bucket = kbo_fa_role_bucket (pc_role cand);
                 (cache1, n) = kbo_fa_team_role_count w (fc_original_team rec) role_bucket cache;
                 (age_score, age_tag) = decision_age_part pol (uint (pc_age cand));
                 (salary_score, salary_tag) = decision_salary_part pol (fq_salary p);
                 (need_score, need_tag) = decision_need_part pol role_bucket n;
                 upside = (if pl_talent_value (fq_base p) > pl_overall_value (fq_base p) + pp_decision_upside_margin pol
                           then pp_decision_upside_bonus pol else 0)
             in (cache1, base + age_score + salary_score + need_score + upside,
                 strbuf 96 (age_tag @ ''/'' @ salary_tag @ ''/'' @ need_tag @ ''/base'' @ show_int base))))"

section \<open>The candidates\<close>

definition kbo_fa_compensation_player_is_rookie_auto_protected ::
    "protection_policy \<Rightarrow> fa_player \<Rightarrow> fa_record \<Rightarrow> bool" where
  "kbo_fa_compensation_player_is_rookie_auto_protected pol p rec =
     (if pl_nation (fq_base p) \<noteq> KOREA_NATION_ID then False
      else if uint (fq_age p) > pp_rookie_auto_protected_age_max pol then False
      else if pl_draft_league (fq_base p) \<noteq> fc_league_id rec then False
      else fq_draft_class p \<noteq> 0 \<or> fq_draft_subtype p \<noteq> 0 \<or> fq_draft_extra p \<noteq> 0 \<or> fq_generation_context p \<noteq> 0)"

definition kbo_fa_base_auto_protected_reason :: "protection_policy \<Rightarrow> fa_player \<Rightarrow> fa_record \<Rightarrow> string option" where
  "kbo_fa_base_auto_protected_reason pol p rec =
     (if kbo_player_is_foreign_for_kbo_rights (fq_base p) then Some ''foreign''
      else if fq_military p \<noteq> 0 then Some ''military''
      else if kbo_fa_compensation_player_is_rookie_auto_protected pol p rec then Some ''rookie_draftee''
      else None)"

definition kbo_fa_copy_candidate_player_name :: "u32 \<Rightarrow> fa_player \<Rightarrow> string" where
  "kbo_fa_copy_candidate_player_name player_id p =
     (let name = strbuf 96 (fq_name p)
      in if name = [] \<or> name = ''Unknown player'' then strbuf 96 (''Player #'' @ show_nat (unat player_id)) else name)"

definition kbo_fa_fill_protection_candidate ::
    "protection_policy \<Rightarrow> foreign_policy \<Rightarrow> fa_world \<Rightarrow> u32 \<Rightarrow> fa_player \<Rightarrow> u32 \<Rightarrow> u32 \<Rightarrow> (nat \<Rightarrow> role_entry)
     \<Rightarrow> (nat \<Rightarrow> role_entry) \<times> fa_candidate" where
  "kbo_fa_fill_protection_candidate pol fpol w player_id p assignment_team_id scoring_team_id cache =
     (let (cache1, score, reason) = kbo_fa_protection_candidate_score pol fpol w p scoring_team_id cache
      in (cache1, \<lparr>pc_player_id = player_id, pc_team_id = assignment_team_id, pc_age = fq_age p, pc_role = fq_role p,
                   pc_score = score, pc_reason = reason, pc_name = kbo_fa_copy_candidate_player_name player_id p\<rparr>))"

definition kbo_fa_protected_candidate_compare_desc :: "fa_candidate \<Rightarrow> fa_candidate \<Rightarrow> int" where
  "kbo_fa_protected_candidate_compare_desc a b =
     (if pc_score a \<noteq> pc_score b then (if pc_score a > pc_score b then -1 else 1)
      else if pc_age a \<noteq> pc_age b then (if pc_age a < pc_age b then -1 else 1)
      else if pc_player_id a = pc_player_id b then 0
      else if pc_player_id a < pc_player_id b then -1 else 1)"

text \<open>The order the comparison gives, and the list \<open>qsort\<close> makes of it.\<close>

definition candidate_key :: "fa_candidate \<Rightarrow> int \<times> nat \<times> nat" where
  "candidate_key c = (- pc_score c, unat (pc_age c), unat (pc_player_id c))"

definition sort_candidates :: "fa_candidate list \<Rightarrow> fa_candidate list" where
  "sort_candidates cs = sort_key candidate_key cs"

definition TEAM_CACHE_CANDIDATE_MAX :: nat where "TEAM_CACHE_CANDIDATE_MAX = PROTECTED_LIST_MAX + 1"

text \<open>The scan of the player vector: the candidates and the automatically protected players.\<close>

fun scan_candidates ::
    "protection_policy \<Rightarrow> foreign_policy \<Rightarrow> fa_world \<Rightarrow> fa_record \<Rightarrow> u32 list
     \<Rightarrow> (nat \<Rightarrow> role_entry) \<times> fa_candidate list \<times> fa_candidate list
     \<Rightarrow> (nat \<Rightarrow> role_entry) \<times> fa_candidate list \<times> fa_candidate list" where
  "scan_candidates pol fpol w rec [] acc = acc"
| "scan_candidates pol fpol w rec (player_id # ids) (cache, cands, autos) =
     (if length cands \<ge> TEAM_CACHE_CANDIDATE_MAX then (cache, cands, autos)
      else case fw_players w player_id of
          None \<Rightarrow> scan_candidates pol fpol w rec ids (cache, cands, autos)
        | Some p \<Rightarrow>
            if player_id = 0 \<or> \<not> on_team (fc_signing_team rec) p then scan_candidates pol fpol w rec ids (cache, cands, autos)
            else if fq_retired p \<noteq> 0 then scan_candidates pol fpol w rec ids (cache, cands, autos)
            else
              let team_id = (if pl_current_team (fq_base p) \<noteq> 0 then pl_current_team (fq_base p)
                             else pl_active_team (fq_base p));
                  (cache1, cand) = kbo_fa_fill_protection_candidate pol fpol w player_id p team_id (fc_signing_team rec) cache
              in case kbo_fa_base_auto_protected_reason pol p rec of
                   Some reason \<Rightarrow>
                     (if length autos < PROTECTED_LIST_MAX
                      then scan_candidates pol fpol w rec ids (cache1, cands, autos @ [cand\<lparr>pc_reason := reason\<rparr>])
                      else scan_candidates pol fpol w rec ids (cache, cands, autos))
                 | None \<Rightarrow> scan_candidates pol fpol w rec ids (cache1, cands @ [cand], autos))"

section \<open>The list for one free agent\<close>

definition signed_fa :: "fa_record \<Rightarrow> fa_candidate \<Rightarrow> fa_candidate" where
  "signed_fa rec c = (if pc_player_id c = fc_player_id rec then c\<lparr>pc_reason := ''signed_fa''\<rparr> else c)"

text \<open>The loop over the candidates: the list, the automatic ones, and whether the free agent is among these.\<close>

fun split_signed ::
    "fa_record \<Rightarrow> nat \<Rightarrow> nat \<Rightarrow> fa_candidate list \<Rightarrow> fa_candidate list \<times> fa_candidate list \<times> bool
     \<Rightarrow> fa_candidate list \<times> fa_candidate list \<times> bool" where
  "split_signed rec max_candidates max_auto [] acc = acc"
| "split_signed rec max_candidates max_auto (c # cs) (cands, autos, signed_added) =
     (if length cands \<ge> max_candidates then (cands, autos, signed_added)
      else if pc_player_id c = fc_player_id rec then
        (if \<not> signed_added \<and> length autos < max_auto
         then split_signed rec max_candidates max_auto cs (cands, autos @ [c\<lparr>pc_reason := ''signed_fa''\<rparr>], True)
         else split_signed rec max_candidates max_auto cs (cands, autos, signed_added))
      else split_signed rec max_candidates max_auto cs (cands @ [c], autos, signed_added))"

definition kbo_fa_materialize_protection_candidates ::
    "fa_record \<Rightarrow> fa_candidate list \<Rightarrow> fa_candidate list \<Rightarrow> nat \<Rightarrow> nat \<Rightarrow> fa_candidate list \<times> fa_candidate list" where
  "kbo_fa_materialize_protection_candidates rec base base_auto max_candidates max_auto =
     (if max_candidates = 0 then ([], [])
      else
        let autos = map (signed_fa rec) (take max_auto base_auto);
            signed_added = list_ex (\<lambda>c. pc_player_id c = fc_player_id rec)
                             (if max_auto > 0 then take max_auto base_auto else base_auto);
            (cands, autos', _) = split_signed rec max_candidates max_auto base ([], autos, signed_added)
        in (cands, autos'))"

section \<open>The cache of the lists\<close>

definition TEAM_CACHE_SIZE :: nat where "TEAM_CACHE_SIZE = 8"

record team_entry =
  te_valid :: bool
  te_signing_team_id :: u32
  te_league_id :: u32
  te_vector :: u64
  te_player_count :: nat
  te_candidates :: "fa_candidate list"
  te_auto :: "fa_candidate list"

record protection_state =
  ps_roles :: "nat \<Rightarrow> role_entry"
  ps_teams :: "team_entry list"
  ps_cursor :: int

definition initial_protection :: protection_state where
  "initial_protection =
     \<lparr>ps_roles = (\<lambda>_. \<lparr>ro_team_id = 0, ro_vector = 0, ro_player_count = 0, ro_counts = [0, 0, 0, 0, 0], ro_valid = False\<rparr>),
      ps_teams = replicate TEAM_CACHE_SIZE \<lparr>te_valid = False, te_signing_team_id = 0, te_league_id = 0, te_vector = 0,
         te_player_count = 0, te_candidates = [], te_auto = []\<rparr>,
      ps_cursor = 0\<rparr>"

definition entry_for :: "fa_record \<Rightarrow> u64 \<Rightarrow> nat \<Rightarrow> team_entry \<Rightarrow> bool" where
  "entry_for rec base n e \<longleftrightarrow> te_valid e \<and> te_signing_team_id e = fc_signing_team rec \<and> te_league_id e = fc_league_id rec
     \<and> te_vector e = base \<and> te_player_count e = n"

definition kbo_fa_try_materialize_cached_protection_candidates ::
    "fa_record \<Rightarrow> u64 \<Rightarrow> nat \<Rightarrow> nat \<Rightarrow> nat \<Rightarrow> protection_state \<Rightarrow> (fa_candidate list \<times> fa_candidate list) option" where
  "kbo_fa_try_materialize_cached_protection_candidates rec base n max_candidates max_auto st =
     (if max_candidates = 0 \<or> base = 0 \<or> n = 0 then None
      else case find (entry_for rec base n) (ps_teams st) of
          None \<Rightarrow> None
        | Some e \<Rightarrow> Some (kbo_fa_materialize_protection_candidates rec (te_candidates e) (te_auto e) max_candidates max_auto))"

definition kbo_fa_store_protection_candidate_cache ::
    "fa_record \<Rightarrow> u64 \<Rightarrow> nat \<Rightarrow> fa_candidate list \<Rightarrow> fa_candidate list \<Rightarrow> protection_state \<Rightarrow> protection_state" where
  "kbo_fa_store_protection_candidate_cache rec base n cands autos st =
     (if base = 0 \<or> n = 0 then st
      else
        let cursor = interlocked_increment (ps_cursor st);
            slot = unat ((word_of_int cursor :: u32) mod of_nat TEAM_CACHE_SIZE)
        in st\<lparr>ps_cursor := cursor,
              ps_teams := (ps_teams st)[slot :=
                \<lparr>te_valid = True, te_signing_team_id = fc_signing_team rec, te_league_id = fc_league_id rec,
                 te_vector = base, te_player_count = n,
                 te_candidates = take TEAM_CACHE_CANDIDATE_MAX cands, te_auto = take PROTECTED_LIST_MAX autos\<rparr>]\<rparr>)"

definition kbo_build_fa_compensation_protected_candidates ::
    "protection_policy \<Rightarrow> foreign_policy \<Rightarrow> fa_world \<Rightarrow> fa_record \<Rightarrow> nat \<Rightarrow> nat \<Rightarrow> protection_state
     \<Rightarrow> protection_state \<times> fa_candidate list \<times> fa_candidate list" where
  "kbo_build_fa_compensation_protected_candidates pol fpol w rec max_candidates max_auto st =
     (if max_candidates = 0 \<or> fc_signing_team rec = 0 \<or> fc_protect_count rec = 0 then (st, [], [])
      else case readable_vector w of
          None \<Rightarrow> (st, [], [])
        | Some (base, ids) \<Rightarrow>
            case kbo_fa_try_materialize_cached_protection_candidates rec base (length ids) max_candidates max_auto st of
              Some found \<Rightarrow> (st, found)
            | None \<Rightarrow>
                let (cache1, cands0, autos) = scan_candidates pol fpol w rec ids (ps_roles st, [], []);
                    cands = sort_candidates cands0
                in (kbo_fa_store_protection_candidate_cache rec base (length ids) cands autos (st\<lparr>ps_roles := cache1\<rparr>),
                    kbo_fa_materialize_protection_candidates rec cands autos max_candidates max_auto))"

section \<open>The choice\<close>

definition kbo_select_fa_compensation_player_from_candidates ::
    "protection_policy \<Rightarrow> foreign_policy \<Rightarrow> fa_world \<Rightarrow> fa_record \<Rightarrow> fa_candidate list \<Rightarrow> (nat \<Rightarrow> role_entry)
     \<Rightarrow> (nat \<Rightarrow> role_entry) \<times> fa_candidate option \<times> int" where
  "kbo_select_fa_compensation_player_from_candidates pol fpol w rec cands cache =
     (if cands = [] then (cache, None, 0)
      else
        let wanted = sint (fc_protect_count rec);
            candidate_count = int (length cands);
            protected_count = (if (if wanted < 0 then 0 else wanted) > candidate_count then candidate_count
                               else if wanted < 0 then 0 else wanted);
            unprotected_count = candidate_count - protected_count
        in if unprotected_count \<le> 0 then (cache, None, unprotected_count)
           else
             let c = cands ! nat protected_count
             in if pc_player_id c = 0 then (cache, None, unprotected_count)
                else
                  let (cache1, score, reason) = kbo_fa_compensation_player_decision_score pol fpol w rec c cache
                  in (cache1, Some (c\<lparr>pc_score := score,
                        pc_reason := strbuf 96 (if reason \<noteq> [] then reason else ''optimizer_order'')\<rparr>), unprotected_count))"

definition kbo_fa_compensation_grade_is_ab :: "string \<Rightarrow> bool" where
  "kbo_fa_compensation_grade_is_ab grade \<longleftrightarrow> stricmp_equal grade ''A'' \<or> stricmp_equal grade ''B''"

definition kbo_fa_compensation_ai_prefers_cash_only ::
    "protection_policy \<Rightarrow> fa_record \<Rightarrow> fa_candidate \<Rightarrow> int \<Rightarrow> bool" where
  "kbo_fa_compensation_ai_prefers_cash_only pol rec selected unprotected_count =
     (if fc_cash_only rec = 0 then False
      else if pc_player_id selected = 0 \<or> unprotected_count \<le> 0 then True
      else
        let extra_cash = (if fc_cash_only rec > fc_cash_with_player rec
                          then fc_cash_only rec - fc_cash_with_player rec else 0)
        in if pp_cash_only_ab_grade_requires_no_player pol \<noteq> 0 \<and> kbo_fa_compensation_grade_is_ab (fc_grade rec) then False
           else if pc_score selected < pp_cash_only_score_threshold pol then True
           else if pc_score selected < pp_cash_only_extra_cash_score_threshold pol
              \<and> fc_previous_salary rec > 0 \<and> extra_cash \<ge> word_of_int (fc_previous_salary rec) then True
           else False)"

end
