(* ===== verification/FaCompensation.thy ===== *)
theory FaCompensation
  imports FaProtection FaRules WaiverDate CText
begin

text \<open>
  The compensation for a signed free agent: \<open>native/src/fa_compensation/\<close> (\<open>records/\<close>,
  \<open>decisions/\<close>, \<open>finance/\<close>, \<open>protection/fa_compensation_protected_lists.c\<close>, \<open>due/\<close>, \<open>selection/\<close>,
  \<open>news/transfer/\<close>, \<open>history/\<close>, \<open>market/\<close>) and the assignment of a player to a club
  (\<open>native/src/team/assignment/assignment/team_assignment.c\<close>).

  \<open>fa_state\<close> has the four tables of the save's database, the rows of the debug file as they
  are read back, the game, the caches of the protected lists, and the list of the news and
  history entries asked for.  Whether a statement or a file operation succeeds is decided by
  \<open>fe_ok\<close>, asked with the number of the statement: preparing the schema and running the
  statement are one step.  A memory allocation succeeds.
\<close>

section \<open>The tables\<close>

record fa_transfer =
  ft_season :: u32
  ft_player :: u32
  ft_signing_team :: u32
  ft_original_team :: u32
  ft_amount :: u32
  ft_action :: string
  ft_applied_on :: u32
  ft_signing_old :: int
  ft_signing_new :: int
  ft_original_old :: int
  ft_original_new :: int
  ft_source :: string
  ft_player_name :: string

record fa_list_row =
  fl_fa_player :: u32
  fl_season :: u32
  fl_grade :: string
  fl_original_team :: u32
  fl_signing_team :: u32
  fl_signed_on :: u32
  fl_due_on :: u32
  fl_generated_on :: u32
  fl_protect_count :: u32
  fl_protected_count :: int
  fl_ids :: string
  fl_names :: string
  fl_source :: string

record debug_row =
  dr_fa_player :: u32
  dr_season :: u32
  dr_grade :: string
  dr_original_team :: u32
  dr_signing_team :: u32
  dr_due_on :: u32
  dr_generated_on :: u32
  dr_list_type :: string
  dr_rank :: u32
  dr_player :: u32
  dr_name :: string
  dr_score :: int
  dr_age :: u16
  dr_role :: u8
  dr_reason :: string
  dr_source :: string

text \<open>The news and the entries of the players' histories, without their texts.\<close>

datatype fa_event =
    Recorded_History fa_record
  | Joined_History u32 u32 fa_record
  | Selected_History u32 u32 fa_record
  | Obligation_News fa_record u32 u32
  | List_News fa_record u32 u32 int int
  | Selected_News fa_record fa_candidate u32
  | Cash_Only_News fa_record u32

record market_row =
  mk_player_id :: u32
  mk_original_team :: u32
  mk_case_label :: string
  mk_grade :: string
  mk_salary :: int
  mk_foreign :: bool
  mk_name :: string

record fa_env =
  fe_enabled :: bool
  fe_rules :: fa_rules
  fe_policy :: protection_policy
  fe_foreign :: foreign_policy
  fe_latest :: "u32 option"
  fe_ok :: "nat \<Rightarrow> bool"
  fe_optimizer_enabled :: bool
  fe_optimizer :: "fa_record \<Rightarrow> (fa_candidate \<times> int) list \<Rightarrow> u32 list option"
  fe_filing :: "u32 \<Rightarrow> (u32 \<times> u32 \<times> u32) option"
  fe_league_year :: "u32 \<Rightarrow> u32"
  fe_market :: "u32 \<Rightarrow> u32 \<Rightarrow> u32 \<Rightarrow> u32 \<Rightarrow> market_row option"
  fe_live_team :: "u32 \<Rightarrow> bool"

record fa_state =
  fs_records :: "fa_record list"
  fs_decisions :: "fa_decision list"
  fs_lists :: "fa_list_row list"
  fs_transfers :: "fa_transfer list"
  fs_debug :: "debug_row list"
  fs_world :: fa_world
  fs_protection :: protection_state
  fs_processing :: bool
  fs_clock :: nat
  fs_events :: "fa_event list"

definition run_statement :: "fa_env \<Rightarrow> fa_state \<Rightarrow> bool \<times> fa_state" where
  "run_statement env st = (fe_ok env (fs_clock st), st\<lparr>fs_clock := fs_clock st + 1\<rparr>)"

text \<open>
  A text in a statement: \<open>None\<close> if its escaped form does not fit the buffer, else the text the
  database reads.
\<close>

definition sql_text :: "nat \<Rightarrow> string \<Rightarrow> string option" where
  "sql_text n s =
     (if kbo_sql_escape_literal n (Some s) = None then None
      else Some (filter (\<lambda>c. kbo_sql_should_keep_control c False) s))"

definition emit :: "fa_event \<Rightarrow> fa_state \<Rightarrow> fa_state" where
  "emit e st = st\<lparr>fs_events := fs_events st @ [e]\<rparr>"

definition news_date :: "u32 \<Rightarrow> bool" where
  "news_date d \<longleftrightarrow> d div 10000 \<ge> KBO_SEASON_YEAR_MIN \<and> (d div 100) mod 100 \<noteq> 0 \<and> d mod 100 \<noteq> 0"

section \<open>The ledger of the obligations\<close>

definition record_key :: "fa_record \<Rightarrow> u32 \<times> u32 \<times> u32 \<times> u32" where
  "record_key r = (fc_player_id r, fc_season r, fc_original_team r, fc_signing_team r)"

definition record_order :: "fa_record \<Rightarrow> nat \<times> nat \<times> nat \<times> nat" where
  "record_order r = (unat (fc_season r), unat (fc_player_id r), unat (fc_original_team r), unat (fc_signing_team r))"

definition loadable :: "fa_record \<Rightarrow> bool" where
  "loadable r \<longleftrightarrow> fc_player_id r \<noteq> 0 \<and> \<not> (fc_season r < KBO_SEASON_YEAR_MIN \<or> fc_season r > KBO_RECORD_YEAR_MAX)"

definition read_record :: "fa_record \<Rightarrow> fa_record" where
  "read_record r = r\<lparr>fc_grade := strbuf 12 (fc_grade r), fc_case_label := strbuf 48 (fc_case_label r),
     fc_player_name := strbuf 96 (fc_player_name r), fc_source := strbuf 48 (fc_source r)\<rparr>"

definition kbo_fa_compensation_records_sql_load :: "nat \<Rightarrow> fa_record list \<Rightarrow> fa_record list" where
  "kbo_fa_compensation_records_sql_load max_records table =
     take max_records (filter loadable (map read_record (sort_key record_order
       (filter (\<lambda>r. fc_player_id r \<noteq> 0 \<and> fc_season r \<noteq> 0) table))))"

definition kbo_load_fa_compensation_records :: "fa_env \<Rightarrow> fa_state \<Rightarrow> fa_record list \<times> fa_state" where
  "kbo_load_fa_compensation_records env st =
     (let (ok, st1) = run_statement env st
      in (if ok then kbo_fa_compensation_records_sql_load FA_COMPENSATION_MAX (fs_records st1) else [], st1))"

text \<open>One row of a statement; a record without player or season is skipped.\<close>

definition replace_record :: "fa_record \<Rightarrow> fa_record list \<Rightarrow> fa_record list" where
  "replace_record r table = filter (\<lambda>x. record_key x \<noteq> record_key r) table @ [r]"

definition kbo_fa_compensation_records_sql_append_row :: "fa_record list \<Rightarrow> fa_record \<Rightarrow> fa_record list option" where
  "kbo_fa_compensation_records_sql_append_row table r =
     (if fc_player_id r = 0 \<or> fc_season r = 0 then Some table
      else case (sql_text 48 (fc_grade r), sql_text 128 (fc_case_label r), sql_text 224 (fc_player_name r),
                 sql_text 128 (fc_source r)) of
          (Some grade, Some label, Some name, Some source) \<Rightarrow>
            Some (replace_record (r\<lparr>fc_grade := grade, fc_case_label := label, fc_player_name := name,
              fc_source := source\<rparr>) table)
        | _ \<Rightarrow> None)"

fun append_rows :: "fa_record list \<Rightarrow> fa_record list \<Rightarrow> fa_record list option" where
  "append_rows table [] = Some table"
| "append_rows table (r # rs) =
     (case kbo_fa_compensation_records_sql_append_row table r of None \<Rightarrow> None | Some table' \<Rightarrow> append_rows table' rs)"

definition kbo_persist_fa_compensation_records :: "fa_env \<Rightarrow> fa_record list \<Rightarrow> fa_state \<Rightarrow> bool \<times> fa_state" where
  "kbo_persist_fa_compensation_records env records st =
     (let (ok, st1) = run_statement env st
      in case append_rows [] records of
           None \<Rightarrow> (False, st1)
         | Some table \<Rightarrow> if ok then (True, st1\<lparr>fs_records := table\<rparr>) else (False, st1))"

definition kbo_append_fa_compensation_record :: "fa_env \<Rightarrow> fa_record \<Rightarrow> fa_state \<Rightarrow> bool \<times> fa_state" where
  "kbo_append_fa_compensation_record env r st =
     (if fc_player_id r = 0 \<or> fc_season r = 0 then (False, st)
      else
        let (ok, st1) = run_statement env st
        in case kbo_fa_compensation_records_sql_append_row (fs_records st1) r of
             None \<Rightarrow> (False, st1)
           | Some table \<Rightarrow> if ok then (True, st1\<lparr>fs_records := table\<rparr>) else (False, st1))"

definition kbo_fa_compensation_find_existing :: "fa_record list \<Rightarrow> u32 \<Rightarrow> u32 \<Rightarrow> u32 \<Rightarrow> u32 \<Rightarrow> nat option" where
  "kbo_fa_compensation_find_existing records player_id season original_team signing_team =
     (if player_id = 0 \<or> season = 0 then None
      else first_index (\<lambda>r. record_key r = (player_id, season, original_team, signing_team)) records)"

record due_summary =
  ds_candidate_rows :: nat
  ds_actionable_rows :: nat
  ds_future_rows :: nat
  ds_next_due :: u32

definition due_summary_row :: "u32 \<Rightarrow> u32 \<Rightarrow> due_summary \<Rightarrow> fa_record \<Rightarrow> due_summary" where
  "due_summary_row today due_days out0 r =
     (let out = out0\<lparr>ds_candidate_rows := ds_candidate_rows out0 + 1\<rparr>
      in if fc_status r = CASH_ONLY_SELECTED \<or> fc_status r = PLAYER_SELECTED
            \<or> (fc_status r = PENDING \<and> \<not> fc_requires_player r \<and> fc_cash_only r > 0)
         then out\<lparr>ds_actionable_rows := ds_actionable_rows out + 1\<rparr>
         else if fc_status r \<noteq> PENDING \<or> \<not> fc_requires_player r \<or> fc_protect_count r = 0 \<or> fc_signed_on r = 0 then out
         else
           let due = kbo_add_days_yyyymmdd (fc_signed_on r) due_days
           in if due = 0 then out
              else if today \<ge> due then out\<lparr>ds_actionable_rows := ds_actionable_rows out + 1\<rparr>
              else out\<lparr>ds_future_rows := ds_future_rows out + 1,
                       ds_next_due := (if ds_next_due out = 0 \<or> due < ds_next_due out then due else ds_next_due out)\<rparr>)"

definition kbo_fa_compensation_records_sql_due_summary :: "fa_env \<Rightarrow> u32 \<Rightarrow> u32 \<Rightarrow> fa_state \<Rightarrow> due_summary option \<times> fa_state" where
  "kbo_fa_compensation_records_sql_due_summary env today due_days st =
     (if today = 0 then (None, st)
      else
        let (ok, st1) = run_statement env st
        in (if ok then Some (foldl (due_summary_row today due_days)
                   \<lparr>ds_candidate_rows = 0, ds_actionable_rows = 0, ds_future_rows = 0, ds_next_due = 0\<rparr>
                   (filter (\<lambda>r. fc_player_id r \<noteq> 0 \<and> fc_season r \<noteq> 0
                      \<and> fc_status r \<in> {PENDING, PLAYER_SELECTED, CASH_ONLY_SELECTED}) (fs_records st1)))
            else None, st1))"

section \<open>The decisions\<close>

definition kbo_fa_compensation_decisions_sql_append_row ::
    "fa_env \<Rightarrow> fa_record \<Rightarrow> u32 \<Rightarrow> u32 \<Rightarrow> string \<Rightarrow> fa_candidate option \<Rightarrow> int \<Rightarrow> string \<Rightarrow> fa_state \<Rightarrow> bool \<times> fa_state" where
  "kbo_fa_compensation_decisions_sql_append_row env rec due decided action selected unprotected source st =
     (if fc_player_id rec = 0 \<or> fc_season rec = 0 then (False, st)
      else
        let (ok, st1) = run_statement env st;
            sel_name = (case selected of None \<Rightarrow> [] | Some c \<Rightarrow> pc_name c)
        in case (sql_text 48 (fc_grade rec), sql_text 64 action, sql_text 224 sel_name, sql_text 128 source) of
             (Some grade, Some action', Some name, Some source') \<Rightarrow>
               if ok then
                 (True, st1\<lparr>fs_decisions := fs_decisions st1 @ [
                    \<lparr>fd_fa_player = fc_player_id rec, fd_season = fc_season rec, fd_grade = grade,
                     fd_original_team = fc_original_team rec, fd_signing_team = fc_signing_team rec,
                     fd_signed_on = fc_signed_on rec, fd_due_on = due, fd_decided_on = decided, fd_action = action',
                     fd_selected = (case selected of None \<Rightarrow> 0 | Some c \<Rightarrow> pc_player_id c), fd_selected_name = name,
                     fd_selected_score = (case selected of None \<Rightarrow> 0 | Some c \<Rightarrow> pc_score c),
                     fd_unprotected = unprotected, fd_cash_with_player = fc_cash_with_player rec,
                     fd_cash_only = fc_cash_only rec, fd_source = source'\<rparr>]\<rparr>)
               else (False, st1)
           | _ \<Rightarrow> (False, st1))"

definition kbo_persist_fa_compensation_player_decision ::
    "fa_env \<Rightarrow> fa_record \<Rightarrow> u32 \<Rightarrow> u32 \<Rightarrow> fa_candidate \<Rightarrow> int \<Rightarrow> string \<Rightarrow> fa_state \<Rightarrow> bool \<times> fa_state" where
  "kbo_persist_fa_compensation_player_decision env rec due decided selected unprotected source st =
     (if pc_player_id selected = 0 then (False, st)
      else kbo_fa_compensation_decisions_sql_append_row env rec due decided ''PLAYER'' (Some selected) unprotected source st)"

definition kbo_persist_fa_compensation_cash_only_decision ::
    "fa_env \<Rightarrow> fa_record \<Rightarrow> u32 \<Rightarrow> u32 \<Rightarrow> string \<Rightarrow> fa_state \<Rightarrow> bool \<times> fa_state" where
  "kbo_persist_fa_compensation_cash_only_decision env rec due decided source st =
     (if fc_player_id rec = 0 \<or> fc_cash_only rec = 0 then (False, st)
      else kbo_fa_compensation_decisions_sql_append_row env rec due decided ''CASH_ONLY'' None 0 source st)"

text \<open>The latest decision: the greatest date, and of these the last row.\<close>

definition later_decision :: "fa_decision option \<Rightarrow> fa_decision \<Rightarrow> fa_decision option" where
  "later_decision best d =
     (case best of None \<Rightarrow> Some d | Some b \<Rightarrow> if fd_decided_on d \<ge> fd_decided_on b then Some d else best)"

definition kbo_load_latest_fa_compensation_decision :: "fa_env \<Rightarrow> u32 \<Rightarrow> fa_state \<Rightarrow> fa_decision option \<times> fa_state" where
  "kbo_load_latest_fa_compensation_decision env fa_player_id st =
     (if fa_player_id = 0 then (None, st)
      else
        let (ok, st1) = run_statement env st
        in (if \<not> ok then None
            else case foldl later_decision None (filter (\<lambda>d. fd_fa_player d = fa_player_id) (fs_decisions st1)) of
                None \<Rightarrow> None
              | Some d \<Rightarrow>
                  let row = d\<lparr>fd_grade := strbuf 12 (fd_grade d), fd_action := strbuf 24 (fd_action d),
                              fd_selected_name := strbuf 96 (fd_selected_name d), fd_source := strbuf 48 (fd_source d)\<rparr>
                  in if fd_fa_player row \<noteq> 0 \<and> (fd_selected row \<noteq> 0 \<or> fd_action row = ''CASH_ONLY'')
                     then Some row else None, st1))"

section \<open>The money\<close>

definition FINANCIAL_FIELD_ABS_LIMIT :: int where "FINANCIAL_FIELD_ABS_LIMIT = 2000000000"

definition kbo_fa_comp_abs_i32_plausible :: "int \<Rightarrow> bool" where
  "kbo_fa_comp_abs_i32_plausible v \<longleftrightarrow> v > - FINANCIAL_FIELD_ABS_LIMIT \<and> v < FINANCIAL_FIELD_ABS_LIMIT"

definition kbo_fa_comp_financial_block_plausible :: "financials \<Rightarrow> bool" where
  "kbo_fa_comp_financial_block_plausible f \<longleftrightarrow>
     kbo_fa_comp_abs_i32_plausible (fi_budget f) \<and> kbo_fa_comp_abs_i32_plausible (fi_scouting_budget f)
     \<and> kbo_fa_comp_abs_i32_plausible (fi_development_budget f) \<and> kbo_fa_comp_abs_i32_plausible (fi_draft_budget f)
     \<and> kbo_fa_comp_abs_i32_plausible (fi_draft_expenses f) \<and> kbo_fa_comp_abs_i32_plausible (fi_cash f)"

definition kbo_fa_comp_team_cash_ptr :: "fa_world \<Rightarrow> u32 \<Rightarrow> financials option" where
  "kbo_fa_comp_team_cash_ptr w team_id =
     (if team_id = 0 then None
      else case fw_finances w team_id of
          None \<Rightarrow> None
        | Some f \<Rightarrow> if kbo_fa_comp_financial_block_plausible f then Some f else None)"

definition transfer_key :: "fa_transfer \<Rightarrow> u32 \<times> u32 \<times> u32 \<times> u32 \<times> string" where
  "transfer_key t = (ft_season t, ft_player t, ft_signing_team t, ft_original_team t, ft_action t)"

definition kbo_fa_compensation_cash_transfer_sql_already_applied ::
    "fa_env \<Rightarrow> fa_record \<Rightarrow> string \<Rightarrow> fa_state \<Rightarrow> bool \<times> fa_state" where
  "kbo_fa_compensation_cash_transfer_sql_already_applied env rec action st =
     (if fc_season rec = 0 \<or> fc_player_id rec = 0 \<or> fc_signing_team rec = 0 \<or> fc_original_team rec = 0 then (False, st)
      else
        let (ok, st1) = run_statement env st
        in case sql_text 96 action of
             None \<Rightarrow> (False, st1)
           | Some action' \<Rightarrow>
               (ok \<and> list_ex (\<lambda>t. ft_season t = fc_season rec \<and> ft_player t = fc_player_id rec
                  \<and> ft_signing_team t = fc_signing_team rec \<and> ft_original_team t = fc_original_team rec
                  \<and> (action = [] \<or> ft_action t = action')) (fs_transfers st1), st1))"

definition kbo_fa_compensation_cash_transfer_sql_append ::
    "fa_env \<Rightarrow> fa_record \<Rightarrow> u32 \<Rightarrow> u32 \<Rightarrow> string \<Rightarrow> string \<Rightarrow> int \<Rightarrow> int \<Rightarrow> int \<Rightarrow> int \<Rightarrow> fa_state \<Rightarrow> bool \<times> fa_state" where
  "kbo_fa_compensation_cash_transfer_sql_append env rec amount applied action source s_old s_new o_old o_new st =
     (if fc_player_id rec = 0 \<or> fc_season rec = 0 then (False, st)
      else
        let (ok, st1) = run_statement env st
        in case (sql_text 96 action, sql_text 160 source, sql_text 224 (fc_player_name rec)) of
             (Some action', Some source', Some name) \<Rightarrow>
               if \<not> ok then (False, st1)
               else
                 let row = \<lparr>ft_season = fc_season rec, ft_player = fc_player_id rec, ft_signing_team = fc_signing_team rec,
                            ft_original_team = fc_original_team rec, ft_amount = amount, ft_action = action',
                            ft_applied_on = applied, ft_signing_old = s_old, ft_signing_new = s_new,
                            ft_original_old = o_old, ft_original_new = o_new, ft_source = source', ft_player_name = name\<rparr>
                 in if list_ex (\<lambda>t. transfer_key t = transfer_key row) (fs_transfers st1) then (True, st1)
                    else (True, st1\<lparr>fs_transfers := fs_transfers st1 @ [row]\<rparr>)
           | _ \<Rightarrow> (False, st1))"

definition kbo_fa_comp_add_cash_clamped :: "int \<Rightarrow> int \<Rightarrow> int" where
  "kbo_fa_comp_add_cash_clamped old_cash delta =
     (let sum = old_cash + delta
      in if sum < -2147483648 then -2147483648 else if sum > 2147483647 then 2147483647 else sum)"

definition set_cash :: "u32 \<Rightarrow> int \<Rightarrow> fa_world \<Rightarrow> fa_world" where
  "set_cash team_id cash w =
     w\<lparr>fw_finances := (fw_finances w)(team_id := map_option (\<lambda>f. f\<lparr>fi_cash := cash\<rparr>) (fw_finances w team_id))\<rparr>"

definition kbo_apply_fa_compensation_cash_transfer ::
    "fa_env \<Rightarrow> fa_record \<Rightarrow> u32 \<Rightarrow> u32 \<Rightarrow> string \<Rightarrow> string \<Rightarrow> fa_state \<Rightarrow> bool \<times> fa_state" where
  "kbo_apply_fa_compensation_cash_transfer env rec amount applied action source st =
     (if fc_player_id rec = 0 \<or> fc_season rec = 0 \<or> fc_signing_team rec = 0 \<or> fc_original_team rec = 0
         \<or> fc_signing_team rec = fc_original_team rec \<or> amount = 0 \<or> applied = 0 then (False, st)
      else
        let (done_before, st1) = kbo_fa_compensation_cash_transfer_sql_already_applied env rec action st
        in if done_before then (False, st1)
           else case (kbo_fa_comp_team_cash_ptr (fs_world st1) (fc_signing_team rec),
                      kbo_fa_comp_team_cash_ptr (fs_world st1) (fc_original_team rec)) of
               (Some s, Some o') \<Rightarrow>
                 let s_new = kbo_fa_comp_add_cash_clamped (fi_cash s) (- uint amount);
                     o_new = kbo_fa_comp_add_cash_clamped (fi_cash o') (uint amount);
                     st2 = st1\<lparr>fs_world := set_cash (fc_original_team rec) o_new
                                            (set_cash (fc_signing_team rec) s_new (fs_world st1))\<rparr>
                 in (True, snd (kbo_fa_compensation_cash_transfer_sql_append env rec amount applied action source
                             (fi_cash s) s_new (fi_cash o') o_new st2))
             | _ \<Rightarrow> (False, st1))"

section \<open>Moving a player\<close>

text \<open>
  The result is the game after the call, and whether the player was on an array of his old
  club.  Nothing sets the other two flags of the source.
\<close>

definition kbo_assign_player_to_team_internal ::
    "u32 \<Rightarrow> u32 \<Rightarrow> u32 \<Rightarrow> bool \<Rightarrow> fa_world \<Rightarrow> fa_world \<times> bool" where
  "kbo_assign_player_to_team_internal player_id team_id fallback_league_id update_organization w =
     (case (fw_players w player_id, fw_teams w team_id) of
        (Some p, Some team) \<Rightarrow>
          if tm_id team = 0 then (w, False)
          else
            let base = fq_base p;
                current_team = pl_current_team base;
                current_league = pl_current_league base;
                team_league = (if tm_league_id team = 0 then fallback_league_id else tm_league_id team);
                old_team = (if current_team \<noteq> 0 \<and> current_team \<noteq> tm_id team then fw_teams w current_team else None);
                (teams1, removed) =
                  (case old_team of
                     Some old \<Rightarrow>
                       if player_id \<noteq> 0
                       then (let (old', n) = kbo_remove_player_id_from_known_team_roster_arrays player_id old
                             in ((fw_teams w)(current_team := Some old'), n > 0))
                       else (fw_teams w, False)
                   | None \<Rightarrow> (fw_teams w, False));
                teams2 = (if player_id \<noteq> 0
                          then teams1(team_id := map_option (fst \<circ> kbo_add_player_id_to_team_assignment_arrays player_id)
                                 (teams1 team_id))
                          else teams1);
                base' = base\<lparr>pl_original_team := (if current_team \<noteq> 0 then current_team else pl_original_team base),
                             pl_original_league := (if current_league \<noteq> 0 then current_league else pl_original_league base),
                             pl_current_team := tm_id team,
                             pl_current_league := team_league,
                             pl_active_team := (if update_organization
                                then (if tm_parent_team_id team \<noteq> 0 then tm_parent_team_id team else tm_id team)
                                else pl_active_team base),
                             pl_draft_league := fallback_league_id\<rparr>
            in (w\<lparr>fw_teams := teams2,
                  fw_players := (fw_players w)(player_id := Some (p\<lparr>fq_base := base', fq_status := 0x0100\<rparr>))\<rparr>, removed)
      | _ \<Rightarrow> (w, False))"

definition kbo_assign_player_to_team_like_ootp :: "u32 \<Rightarrow> u32 \<Rightarrow> u32 \<Rightarrow> fa_world \<Rightarrow> fa_world \<times> bool" where
  "kbo_assign_player_to_team_like_ootp player_id team_id fallback_league_id w =
     kbo_assign_player_to_team_internal player_id team_id fallback_league_id True w"

definition kbo_record_fa_compensation_transfer_player_history ::
    "fa_record \<Rightarrow> u32 \<Rightarrow> u32 \<Rightarrow> fa_state \<Rightarrow> fa_state" where
  "kbo_record_fa_compensation_transfer_player_history rec player_id date st =
     (if player_id = 0 \<or> date = 0 then st
      else
        let month = (date div 100) mod 100; day = date mod 100
        in if date div 10000 < KBO_SEASON_YEAR_MIN \<or> month = 0 \<or> month > 12 \<or> day = 0 \<or> day > 31 then st
           else emit (Joined_History player_id date rec) st)"

definition kbo_transfer_fa_compensation_player_to_original_team ::
    "fa_record \<Rightarrow> u32 \<Rightarrow> u32 \<Rightarrow> fa_state \<Rightarrow> bool \<times> fa_state" where
  "kbo_transfer_fa_compensation_player_to_original_team rec player_id date st =
     (if player_id = 0 \<or> fc_original_team rec = 0 then (False, st)
      else case (fw_players (fs_world st) player_id, fw_teams (fs_world st) (fc_original_team rec)) of
          (Some p, Some _) \<Rightarrow>
            if \<not> on_team (fc_signing_team rec) p then (False, st)
            else
              let w = fst (kbo_assign_player_to_team_like_ootp player_id (fc_original_team rec) (fc_league_id rec) (fs_world st));
                  st1 = st\<lparr>fs_world := w\<rparr>
              in (case fw_players w player_id of
                    None \<Rightarrow> (False, st1)
                  | Some p' \<Rightarrow>
                      if \<not> on_team (fc_original_team rec) p' then (False, st1)
                      else (True, kbo_record_fa_compensation_transfer_player_history rec player_id date st1))
        | _ \<Rightarrow> (False, st))"

section \<open>News\<close>

definition kbo_emit_fa_compensation_obligation_news :: "fa_record \<Rightarrow> u32 \<Rightarrow> u32 \<Rightarrow> fa_state \<Rightarrow> fa_state" where
  "kbo_emit_fa_compensation_obligation_news rec date due_days st =
     (if fc_player_id rec = 0 \<or> date = 0 \<or> \<not> fc_requires_player rec then st
      else if \<not> news_date date then st else emit (Obligation_News rec date due_days) st)"

definition kbo_emit_fa_compensation_protected_list_submitted_news ::
    "fa_record \<Rightarrow> u32 \<Rightarrow> u32 \<Rightarrow> int \<Rightarrow> int \<Rightarrow> fa_state \<Rightarrow> fa_state" where
  "kbo_emit_fa_compensation_protected_list_submitted_news rec date due_days protected_count unprotected_count st =
     (if fc_player_id rec = 0 \<or> date = 0 \<or> \<not> fc_requires_player rec then st
      else if \<not> news_date date then st
      else emit (List_News rec date due_days (max 0 protected_count) (max 0 unprotected_count)) st)"

definition kbo_emit_fa_compensation_player_selected_news :: "fa_record \<Rightarrow> fa_candidate \<Rightarrow> u32 \<Rightarrow> fa_state \<Rightarrow> fa_state" where
  "kbo_emit_fa_compensation_player_selected_news rec selected date st =
     (if pc_player_id selected = 0 \<or> date = 0 then st
      else if \<not> news_date date then st
      else emit (Selected_News rec selected date) (emit (Selected_History (pc_player_id selected) date rec) st))"

definition kbo_emit_fa_compensation_cash_only_news :: "fa_record \<Rightarrow> u32 \<Rightarrow> fa_state \<Rightarrow> fa_state" where
  "kbo_emit_fa_compensation_cash_only_news rec date st =
     (if fc_player_id rec = 0 \<or> date = 0 then st
      else if \<not> news_date date then st else emit (Cash_Only_News rec date) st)"

section \<open>The protected lists\<close>

definition listed_count :: "fa_record \<Rightarrow> nat \<Rightarrow> int" where
  "listed_count rec n = (if int n > sint (fc_protect_count rec) then sint (fc_protect_count rec) else int n)"

definition joined :: "string list \<Rightarrow> string" where
  "joined parts = (case parts of [] \<Rightarrow> [] | p # ps \<Rightarrow> p @ concat (map (\<lambda>q. CHR '';'' # q) ps))"

definition kbo_fa_compensation_protected_lists_sql_append ::
    "fa_env \<Rightarrow> fa_record \<Rightarrow> u32 \<Rightarrow> u32 \<Rightarrow> fa_candidate list \<Rightarrow> string \<Rightarrow> fa_state \<Rightarrow> bool \<times> fa_state" where
  "kbo_fa_compensation_protected_lists_sql_append env rec due generated cands source st =
     (if cands = [] then (False, st)
      else
        let (ok, st1) = run_statement env st;
            n = listed_count rec (length cands);
            listed = take (nat n) cands;
            ids = strbuf 1024 (joined (map (\<lambda>c. show_nat (unat (pc_player_id c))) listed));
            names = strbuf 4096 (joined (map pc_name listed))
        in case (sql_text 48 (fc_grade rec), sql_text 2200 ids, sql_text 8300 names, sql_text 128 source) of
             (Some grade, Some ids', Some names', Some source') \<Rightarrow>
               if ok then
                 (True, st1\<lparr>fs_lists := fs_lists st1 @ [
                    \<lparr>fl_fa_player = fc_player_id rec, fl_season = fc_season rec, fl_grade = grade,
                     fl_original_team = fc_original_team rec, fl_signing_team = fc_signing_team rec,
                     fl_signed_on = fc_signed_on rec, fl_due_on = due, fl_generated_on = generated,
                     fl_protect_count = fc_protect_count rec, fl_protected_count = n,
                     fl_ids = ids', fl_names = names', fl_source = source'\<rparr>]\<rparr>)
               else (False, st1)
           | _ \<Rightarrow> (False, st1))"

text \<open>The rows one list adds to the debug file, as the reader gives them back.\<close>

definition read_field :: "nat \<Rightarrow> string \<Rightarrow> string" where
  "read_field n s = strbuf n (kbo_csv_trim_token_in_place (strbuf 128 s))"

definition debug_row_of :: "fa_record \<Rightarrow> u32 \<Rightarrow> u32 \<Rightarrow> string \<Rightarrow> string \<Rightarrow> nat \<Rightarrow> fa_candidate \<Rightarrow> debug_row" where
  "debug_row_of rec due generated source list_type i c =
     \<lparr>dr_fa_player = fc_player_id rec, dr_season = fc_season rec, dr_grade = read_field 12 (fc_grade rec),
      dr_original_team = fc_original_team rec, dr_signing_team = fc_signing_team rec, dr_due_on = due,
      dr_generated_on = generated, dr_list_type = list_type, dr_rank = of_nat (i + 1),
      dr_player = pc_player_id c, dr_name = read_field 96 (pc_name c), dr_score = pc_score c,
      dr_age = pc_age c, dr_role = pc_role c, dr_reason = read_field 96 (pc_reason c), dr_source = read_field 48 source\<rparr>"

definition list_type :: "fa_record \<Rightarrow> nat \<Rightarrow> nat \<Rightarrow> string" where
  "list_type rec n i = (if int i < listed_count rec n then ''protected'' else ''unprotected'')"

definition kbo_persist_fa_compensation_protection_debug ::
    "fa_env \<Rightarrow> fa_record \<Rightarrow> u32 \<Rightarrow> u32 \<Rightarrow> fa_candidate list \<Rightarrow> fa_candidate list \<Rightarrow> string \<Rightarrow> fa_state \<Rightarrow> fa_state" where
  "kbo_persist_fa_compensation_protection_debug env rec due generated cands autos source st =
     (let (ok, st1) = run_statement env st
      in if \<not> ok then st1
         else st1\<lparr>fs_debug := fs_debug st1
           @ map (\<lambda>(i, c). debug_row_of rec due generated source (list_type rec (length cands) i) i c)
               (zip [0..<length cands] cands)
           @ map (\<lambda>(i, c). debug_row_of rec due generated source ''auto_protected'' i c)
               (zip [0..<length autos] autos)\<rparr>)"

text \<open>The first \<open>max_rows\<close> usable rows of the file.\<close>

definition kbo_load_fa_compensation_protection_debug_rows :: "fa_env \<Rightarrow> nat \<Rightarrow> fa_state \<Rightarrow> debug_row list \<times> fa_state" where
  "kbo_load_fa_compensation_protection_debug_rows env max_rows st =
     (let (ok, st1) = run_statement env st
      in (if ok then take max_rows (filter (\<lambda>d. dr_fa_player d \<noteq> 0 \<and> dr_player d \<noteq> 0) (fs_debug st1)) else [], st1))"

section \<open>The order of the optimizer\<close>

text \<open>The lines of the request: each candidate with its score for the decision.\<close>

fun request_rows ::
    "protection_policy \<Rightarrow> foreign_policy \<Rightarrow> fa_world \<Rightarrow> fa_record \<Rightarrow> fa_candidate list \<Rightarrow> (nat \<Rightarrow> role_entry)
     \<Rightarrow> (nat \<Rightarrow> role_entry) \<times> (fa_candidate \<times> int) list" where
  "request_rows pol fpol w rec [] cache = (cache, [])"
| "request_rows pol fpol w rec (c # cs) cache =
     (let (cache1, score, _) = kbo_fa_compensation_player_decision_score pol fpol w rec c cache;
          (cache2, rows) = request_rows pol fpol w rec cs cache1
      in (cache2, (c, score) # rows))"

text \<open>
  The candidates the ids of the result name, in that order; \<open>rest\<close> are those not yet used, in the
  order of the list.
\<close>

fun place_ids :: "u32 list \<Rightarrow> fa_candidate list \<Rightarrow> fa_candidate list \<Rightarrow> fa_candidate list \<times> fa_candidate list" where
  "place_ids [] rest placed = (rest, placed)"
| "place_ids (i # is) rest placed =
     (if rest = [] then (rest, placed)
      else if i = 0 then place_ids is rest placed
      else case first_index (\<lambda>c. pc_player_id c = i) rest of
          None \<Rightarrow> place_ids is rest placed
        | Some k \<Rightarrow> place_ids is (take k rest @ drop (Suc k) rest) (placed @ [rest ! k]))"

definition kbo_fa_compensation_apply_ortools_order ::
    "fa_env \<Rightarrow> fa_record \<Rightarrow> fa_candidate list \<Rightarrow> fa_state \<Rightarrow> fa_candidate list option \<times> fa_state" where
  "kbo_fa_compensation_apply_ortools_order env rec cands st =
     (if \<not> fe_optimizer_enabled env \<or> cands = [] \<or> fc_protect_count rec = 0 then (None, st)
      else
        let (cache, rows) = request_rows (fe_policy env) (fe_foreign env) (fs_world st) rec cands (ps_roles (fs_protection st));
            st1 = st\<lparr>fs_protection := (fs_protection st)\<lparr>ps_roles := cache\<rparr>\<rparr>
        in case fe_optimizer env rec rows of
             None \<Rightarrow> (None, st1)
           | Some is \<Rightarrow>
               let (rest, placed) = place_ids is cands []
               in if placed = [] then (None, st1) else (Some (placed @ rest), st1))"

section \<open>Submitting a list\<close>

text \<open>The decision of the list: the new status of the record.\<close>

definition decide_compensation ::
    "fa_env \<Rightarrow> fa_record \<Rightarrow> u32 \<Rightarrow> u32 \<Rightarrow> fa_candidate list \<Rightarrow> string \<Rightarrow> fa_state \<Rightarrow> u8 \<times> fa_state" where
  "decide_compensation env rec due today cands source st =
     (let (cache, selected, unprotected) =
            kbo_select_fa_compensation_player_from_candidates (fe_policy env) (fe_foreign env) (fs_world st) rec cands
              (ps_roles (fs_protection st));
          st1 = st\<lparr>fs_protection := (fs_protection st)\<lparr>ps_roles := cache\<rparr>\<rparr>
      in case selected of
           Some c \<Rightarrow>
             let (cash, st2) = (if kbo_fa_compensation_ai_prefers_cash_only (fe_policy env) rec c unprotected
                                then kbo_persist_fa_compensation_cash_only_decision env rec due today source st1
                                else (False, st1))
             in if cash then (CASH_ONLY_SELECTED, st2)
                else let (ok, st3) = kbo_persist_fa_compensation_player_decision env rec due today c unprotected source st2
                     in (if ok then PLAYER_SELECTED else RECORDED, st3)
         | None \<Rightarrow>
             let (ok, st2) = kbo_persist_fa_compensation_cash_only_decision env rec due today source st1
             in (if ok then CASH_ONLY_SELECTED else RECORDED, st2))"

definition kbo_submit_fa_compensation_protected_list_record ::
    "fa_env \<Rightarrow> fa_record \<Rightarrow> u32 \<Rightarrow> string \<Rightarrow> fa_state \<Rightarrow> u8 option \<times> fa_state" where
  "kbo_submit_fa_compensation_protected_list_record env rec today source st =
     (if \<not> fc_requires_player rec \<or> fc_protect_count rec = 0 \<or> fc_signed_on rec = 0 then (None, st)
      else if fc_status rec \<noteq> PENDING \<and> fc_status rec \<noteq> RECORDED then (None, st)
      else
        let due = kbo_add_days_yyyymmdd (fc_signed_on rec) (fr_due_days (fe_rules env))
        in if due = 0 then (None, st)
           else
             let (prot, cands, autos) = kbo_build_fa_compensation_protected_candidates (fe_policy env) (fe_foreign env)
                    (fs_world st) rec PROTECTED_LIST_MAX PROTECTED_LIST_MAX (fs_protection st);
                 st1 = st\<lparr>fs_protection := prot\<rparr>
             in if cands = [] then (None, st1)
                else
                  let (order, st2) = kbo_fa_compensation_apply_ortools_order env rec cands st1
                  in case order of
                       None \<Rightarrow> (None, st2)
                     | Some ordered \<Rightarrow>
                         let st3 = kbo_persist_fa_compensation_protection_debug env rec due today ordered autos source st2;
                             (ok, st4) = kbo_fa_compensation_protected_lists_sql_append env rec due today ordered source st3
                         in if \<not> ok then (None, st4)
                            else
                              let n = listed_count rec (length ordered);
                                  st5 = (if fc_status rec = PENDING
                                         then kbo_emit_fa_compensation_protected_list_submitted_news rec today
                                                (fr_due_days (fe_rules env)) n (int (length ordered) - n) st4
                                         else st4);
                                  (status, st6) = decide_compensation env rec due today ordered source st5
                              in (Some status, st6))"

section \<open>The obligations that are due\<close>

datatype due_task_kind = SUBMIT_LIST | RECORD_CASH | TRANSFER_PLAYER

definition due_action :: "u32 \<Rightarrow> u32 \<Rightarrow> fa_record \<Rightarrow> due_task_kind option" where
  "due_action today due_days rec =
     (if fc_status rec = CASH_ONLY_SELECTED then Some RECORD_CASH
      else if fc_status rec = PLAYER_SELECTED then Some TRANSFER_PLAYER
      else if fc_status rec = PENDING \<and> \<not> fc_requires_player rec \<and> fc_cash_only rec > 0 then Some RECORD_CASH
      else if fc_status rec \<noteq> PENDING \<or> \<not> fc_requires_player rec \<or> fc_protect_count rec = 0 \<or> fc_signed_on rec = 0
      then None
      else
        let due = kbo_add_days_yyyymmdd (fc_signed_on rec) due_days
        in if due = 0 \<or> today < due then None else Some SUBMIT_LIST)"

definition due_tasks :: "u32 \<Rightarrow> u32 \<Rightarrow> fa_record list \<Rightarrow> (fa_record \<times> due_task_kind) list" where
  "due_tasks today due_days records =
     List.map_filter (\<lambda>r. map_option (Pair r) (due_action today due_days r)) records"

text \<open>A task: the new status of the record, if it changed.\<close>

definition run_cash_task :: "fa_env \<Rightarrow> u32 \<Rightarrow> string \<Rightarrow> fa_record \<Rightarrow> fa_state \<Rightarrow> u8 option \<times> fa_state" where
  "run_cash_task env today source rec st =
     (let (recorded, st1) =
            (if \<not> fc_requires_player rec then (fc_cash_only rec > 0, st)
             else let (d, st') = kbo_load_latest_fa_compensation_decision env (fc_player_id rec) st
                  in (case d of None \<Rightarrow> False | Some row \<Rightarrow> fd_action row = ''CASH_ONLY'', st'))
      in if recorded
         then (Some CASH_ONLY_RECORDED,
               snd (kbo_apply_fa_compensation_cash_transfer env rec (fc_cash_only rec) today
                 (if fc_requires_player rec then ''CASH_ONLY_DECISION'' else ''CASH_ONLY_SIGNING'') source st1))
         else (None, st1))"

definition run_transfer_task :: "fa_env \<Rightarrow> u32 \<Rightarrow> string \<Rightarrow> fa_record \<Rightarrow> fa_state \<Rightarrow> u8 option \<times> fa_state" where
  "run_transfer_task env today source rec st =
     (let (d, st1) = kbo_load_latest_fa_compensation_decision env (fc_player_id rec) st
      in case d of
           None \<Rightarrow> (None, st1)
         | Some row \<Rightarrow>
             if fd_action row \<noteq> ''PLAYER'' then (None, st1)
             else
               let selected = \<lparr>pc_player_id = fd_selected row, pc_team_id = fc_signing_team rec, pc_age = 0, pc_role = 0,
                               pc_score = fd_selected_score row, pc_reason = [], pc_name = fd_selected_name row\<rparr>;
                   (moved, st2) = kbo_transfer_fa_compensation_player_to_original_team rec (fd_selected row) today st1
               in if \<not> moved then (None, st2)
                  else
                    let st3 = snd (kbo_apply_fa_compensation_cash_transfer env rec (fc_cash_with_player rec) today
                                     ''PLAYER_PLUS_CASH'' source st2)
                    in (Some PLAYER_TRANSFERRED, kbo_emit_fa_compensation_player_selected_news rec selected today st3))"

definition run_due_task :: "fa_env \<Rightarrow> u32 \<Rightarrow> string \<Rightarrow> fa_record \<times> due_task_kind \<Rightarrow> fa_state \<Rightarrow> u8 option \<times> fa_state" where
  "run_due_task env today source task st =
     (case snd task of
        RECORD_CASH \<Rightarrow> run_cash_task env today source (fst task) st
      | TRANSFER_PLAYER \<Rightarrow> run_transfer_task env today source (fst task) st
      | SUBMIT_LIST \<Rightarrow> kbo_submit_fa_compensation_protected_list_record env (fst task) today source st)"

text \<open>The ledger is read again, and the record of the task gets its status.\<close>

definition store_status :: "fa_env \<Rightarrow> fa_record \<Rightarrow> u8 \<Rightarrow> fa_state \<Rightarrow> nat \<times> fa_state" where
  "store_status env rec status st =
     (let (records, st1) = kbo_load_fa_compensation_records env st
      in case first_index (\<lambda>r. record_key r = record_key rec) records of
           None \<Rightarrow> (0, st1)
         | Some i \<Rightarrow>
             (1, snd (kbo_persist_fa_compensation_records env
                   (records[i := (records ! i)\<lparr>fc_status := status\<rparr>]) st1)))"

definition process_task :: "fa_env \<Rightarrow> u32 \<Rightarrow> string \<Rightarrow> nat \<times> fa_state \<Rightarrow> fa_record \<times> due_task_kind \<Rightarrow> nat \<times> fa_state" where
  "process_task env today source acc task =
     (let (changed, st1) = run_due_task env today source task (snd acc)
      in case changed of
           None \<Rightarrow> (fst acc, st1)
         | Some status \<Rightarrow> (let (n, st2) = store_status env (fst task) status st1 in (fst acc + n, st2)))"

definition kbo_process_due_fa_compensation_protected_lists_for_date ::
    "fa_env \<Rightarrow> u32 \<Rightarrow> string \<Rightarrow> fa_state \<Rightarrow> nat \<times> fa_state" where
  "kbo_process_due_fa_compensation_protected_lists_for_date env today source st =
     (if \<not> fe_enabled env \<or> today = 0 then (0, st)
      else if fs_processing st then (0, st)
      else
        let days = fr_due_days (fe_rules env);
            (summary, st1) = kbo_fa_compensation_records_sql_due_summary env today days (st\<lparr>fs_processing := True\<rparr>)
        in if (case summary of None \<Rightarrow> False | Some s \<Rightarrow> ds_actionable_rows s = 0) then (0, st1\<lparr>fs_processing := False\<rparr>)
           else
             let (records, st2) = kbo_load_fa_compensation_records env st1;
                 (n, st3) = foldl (process_task env today source) (0, st2) (due_tasks today days records)
             in (n, st3\<lparr>fs_processing := False\<rparr>))"

definition kbo_process_due_fa_compensation_protected_lists :: "fa_env \<Rightarrow> string \<Rightarrow> fa_state \<Rightarrow> nat \<times> fa_state" where
  "kbo_process_due_fa_compensation_protected_lists env source st =
     (case fe_latest env of
        None \<Rightarrow> (0, st)
      | Some today \<Rightarrow> if today = 0 then (0, st)
          else kbo_process_due_fa_compensation_protected_lists_for_date env today source st)"

section \<open>The decisions of the user\<close>

definition record_of_player :: "u32 \<Rightarrow> fa_record list \<Rightarrow> nat option" where
  "record_of_player fa_player_id records = first_index (\<lambda>r. fc_player_id r = fa_player_id) records"

definition kbo_manual_submit_fa_compensation_protected_list :: "fa_env \<Rightarrow> u32 \<Rightarrow> string \<Rightarrow> fa_state \<Rightarrow> bool \<times> fa_state" where
  "kbo_manual_submit_fa_compensation_protected_list env fa_player_id source st =
     (if fa_player_id = 0 then (False, st)
      else case fe_latest env of
          None \<Rightarrow> (False, st)
        | Some today \<Rightarrow>
            if today = 0 then (False, st)
            else
              let (records, st1) = kbo_load_fa_compensation_records env st
              in case record_of_player fa_player_id records of
                   None \<Rightarrow> (False, st1)
                 | Some i \<Rightarrow>
                     let (changed, st2) = kbo_submit_fa_compensation_protected_list_record env (records ! i) today source st1
                     in case changed of
                          None \<Rightarrow> (False, st2)
                        | Some status \<Rightarrow>
                            (True, snd (kbo_persist_fa_compensation_records env
                               (records[i := (records ! i)\<lparr>fc_status := status\<rparr>]) st2)))"

text \<open>The rows of the player's unprotected list: the selected one (the last) and their number.\<close>

definition unprotected_rows :: "u32 \<Rightarrow> debug_row list \<Rightarrow> debug_row list" where
  "unprotected_rows fa_player_id rows =
     filter (\<lambda>d. dr_fa_player d = fa_player_id \<and> dr_list_type d = ''unprotected'') rows"

definition selected_row :: "u32 \<Rightarrow> debug_row list \<Rightarrow> fa_candidate option" where
  "selected_row selected_player_id rows =
     (case rev (filter (\<lambda>d. dr_player d = selected_player_id) rows) of
        [] \<Rightarrow> None
      | d # _ \<Rightarrow> Some \<lparr>pc_player_id = dr_player d, pc_team_id = dr_signing_team d, pc_age = dr_age d, pc_role = dr_role d,
                      pc_score = dr_score d, pc_reason = dr_reason d, pc_name = dr_name d\<rparr>)"

definition kbo_manual_select_fa_compensation_player ::
    "fa_env \<Rightarrow> u32 \<Rightarrow> u32 \<Rightarrow> string \<Rightarrow> fa_state \<Rightarrow> bool \<times> fa_state" where
  "kbo_manual_select_fa_compensation_player env fa_player_id selected_player_id source st =
     (if fa_player_id = 0 \<or> selected_player_id = 0 then (False, st)
      else
        let (records, st1) = kbo_load_fa_compensation_records env st
        in case record_of_player fa_player_id records of
             None \<Rightarrow> (False, st1)
           | Some i \<Rightarrow>
               let rec = records ! i
               in if \<not> fc_requires_player rec \<or> fc_protect_count rec = 0 \<or> fc_status rec = PLAYER_TRANSFERRED
                  then (False, st1)
                  else
                    let (rows, st2) = kbo_load_fa_compensation_protection_debug_rows env PROTECTED_LIST_MAX st1;
                        open_rows = unprotected_rows fa_player_id rows
                    in case selected_row selected_player_id open_rows of
                         None \<Rightarrow> (False, st2)
                       | Some selected \<Rightarrow>
                           let today = (case fe_latest env of None \<Rightarrow> fc_signed_on rec | Some d \<Rightarrow> d);
                               due = kbo_add_days_yyyymmdd (fc_signed_on rec) (fr_due_days (fe_rules env));
                               (ok, st3) = kbo_persist_fa_compensation_player_decision env rec due today selected
                                             (int (length open_rows)) source st2
                           in if \<not> ok then (False, st3)
                              else (True, snd (kbo_persist_fa_compensation_records env
                                     (records[i := rec\<lparr>fc_status := PLAYER_SELECTED\<rparr>]) st3)))"

definition kbo_manual_select_fa_compensation_cash_only :: "fa_env \<Rightarrow> u32 \<Rightarrow> string \<Rightarrow> fa_state \<Rightarrow> bool \<times> fa_state" where
  "kbo_manual_select_fa_compensation_cash_only env fa_player_id source st =
     (if fa_player_id = 0 then (False, st)
      else case fe_latest env of
          None \<Rightarrow> (False, st)
        | Some today \<Rightarrow>
            let (records, st1) = kbo_load_fa_compensation_records env st
            in case record_of_player fa_player_id records of
                 None \<Rightarrow> (False, st1)
               | Some i \<Rightarrow>
                   let rec = records ! i
                   in if \<not> fc_requires_player rec \<or> fc_status rec = PLAYER_TRANSFERRED
                         \<or> fc_status rec = CASH_ONLY_RECORDED
                      then (False, st1)
                      else
                        let due = kbo_add_days_yyyymmdd (fc_signed_on rec) (fr_due_days (fe_rules env));
                            (ok, st2) = kbo_persist_fa_compensation_cash_only_decision env rec due today source st1
                        in if \<not> ok then (False, st2)
                           else (True, snd (kbo_persist_fa_compensation_records env
                                  (records[i := rec\<lparr>fc_status := CASH_ONLY_SELECTED\<rparr>]) st2)))"

section \<open>A signing\<close>

definition kbo_fa_compensation_record_history :: "fa_record \<Rightarrow> fa_state \<Rightarrow> fa_state" where
  "kbo_fa_compensation_record_history rec st =
     (if fc_player_id rec = 0 \<or> fc_signed_on rec = 0 then st
      else if \<not> news_date (fc_signed_on rec) then st else emit (Recorded_History rec) st)"

definition plausible_season :: "u32 \<Rightarrow> bool" where
  "plausible_season y \<longleftrightarrow> KBO_SEASON_YEAR_MIN \<le> y \<and> y \<le> KBO_RECORD_YEAR_MAX"

definition KBO_SEASON_DATE_KEY_MIN :: u32 where "KBO_SEASON_DATE_KEY_MIN = 19820000"

text \<open>The league, the season and the date of a signing, with the club of the filing.\<close>

definition signing_context :: "fa_env \<Rightarrow> u32 \<Rightarrow> u32 \<Rightarrow> (u32 \<times> u32 \<times> u32 \<times> u32) option" where
  "signing_context env player_id league_id =
     (let today0 = (case fe_latest env of None \<Rightarrow> 0 | Some d \<Rightarrow> d);
          (filing_team, league1, year0) =
            (case fe_filing env player_id of
               None \<Rightarrow> (0, league_id, 0)
             | Some (team, league, season) \<Rightarrow>
                 if plausible_season season then (team, if league \<noteq> 0 then league else league_id, season)
                 else (team, league_id, 0));
          year1 = (if year0 = 0 then fe_league_year env league1 else year0);
          year2 = (if \<not> plausible_season year1
                   then (if today0 \<ge> KBO_SEASON_DATE_KEY_MIN then today0 div 10000 else 0) else year1)
      in if \<not> plausible_season year2 then None
         else Some (filing_team, league1, year2, if today0 = 0 then year2 * 10000 + 101 else today0))"

definition kbo_record_fa_compensation_signing ::
    "fa_env \<Rightarrow> u32 \<Rightarrow> u32 \<Rightarrow> u32 \<Rightarrow> string \<Rightarrow> fa_state \<Rightarrow> bool \<times> fa_state" where
  "kbo_record_fa_compensation_signing env player_id signing_team_id league_id source st =
     (case fw_players (fs_world st) player_id of
        None \<Rightarrow> (False, st)
      | Some p \<Rightarrow>
          if \<not> fe_enabled env \<or> signing_team_id = 0 \<or> league_id = 0 then (False, st)
          else if fr_exclude_foreign (fe_rules env) \<and> kbo_player_is_foreign_for_kbo_rights (fq_base p) then (False, st)
          else case signing_context env player_id league_id of
              None \<Rightarrow> (False, st)
            | Some (filing_team, league, year, today) \<Rightarrow>
                (case fe_market env player_id league year today of
                   None \<Rightarrow> (False, st)
                 | Some row \<Rightarrow>
                     let original_team = (if filing_team \<noteq> 0 \<and> filing_team \<noteq> mk_original_team row
                                             \<and> fe_live_team env filing_team
                                          then filing_team else mk_original_team row)
                     in if \<not> kbo_fa_rules_case_is_compensable (fe_rules env) (mk_case_label row)
                           \<or> (fr_exclude_foreign (fe_rules env) \<and> mk_foreign row)
                           \<or> original_team = 0 \<or> original_team = signing_team_id
                           \<or> \<not> kbo_fa_rules_grade_is_compensable (fe_rules env) (mk_grade row)
                           \<or> mk_salary row \<le> 0 then (False, st)
                        else
                          let comp = kbo_fa_rules_calculate_compensation (fe_rules env) (mk_grade row) (mk_salary row)
                          in if cp_cash_only comp = 0 then (False, st)
                             else
                               let (records, st1) = kbo_load_fa_compensation_records env st
                               in if kbo_fa_compensation_find_existing records (mk_player_id row) year original_team
                                       signing_team_id \<noteq> None then (False, st1)
                                  else if length records \<ge> FA_COMPENSATION_MAX then (False, st1)
                                  else
                                    let rec = \<lparr>fc_player_id = mk_player_id row, fc_signed_on = today, fc_season = year,
                                          fc_league_id = league, fc_original_team = original_team,
                                          fc_signing_team = signing_team_id, fc_grade = strbuf 12 (mk_grade row),
                                          fc_previous_salary = mk_salary row,
                                          fc_cash_with_player = cp_cash_with_player comp, fc_cash_only = cp_cash_only comp,
                                          fc_protect_count = cp_protect_count comp,
                                          fc_requires_player = cp_requires_player comp, fc_status = PENDING,
                                          fc_case_label = strbuf 48 (mk_case_label row),
                                          fc_player_name = strbuf 96 (mk_name row), fc_source = strbuf 48 source\<rparr>;
                                        (ok, st2) = kbo_append_fa_compensation_record env rec st1
                                    in if \<not> ok then (False, st2)
                                       else
                                         let st3 = kbo_fa_compensation_record_history rec st2
                                         in if fc_requires_player rec
                                            then (True, kbo_emit_fa_compensation_obligation_news rec today
                                                          (fr_due_days (fe_rules env)) st3)
                                            else
                                              let st4 = snd (kbo_apply_fa_compensation_cash_transfer env rec
                                                    (fc_cash_only rec) today ''CASH_ONLY_SIGNING'' source st3)
                                              in (True, kbo_emit_fa_compensation_cash_only_news rec today st4)))"

definition kbo_fa_compensation_status_label :: "u8 \<Rightarrow> string" where
  "kbo_fa_compensation_status_label status =
     (if status = CASH_ONLY_RECORDED then ''Cash only recorded''
      else if status = CASH_ONLY_SELECTED then ''Cash only selected''
      else if status = PLAYER_TRANSFERRED then ''Player transferred''
      else if status = PLAYER_SELECTED then ''Player selected''
      else if status = RECORDED then ''List submitted''
      else ''Pending'')"

definition kbo_fa_compensation_team_for_player :: "fa_env \<Rightarrow> u32 \<Rightarrow> bool \<Rightarrow> fa_state \<Rightarrow> u32 \<times> fa_state" where
  "kbo_fa_compensation_team_for_player env fa_player_id signing_team st =
     (if fa_player_id = 0 then (0, st)
      else
        let (records, st1) = kbo_load_fa_compensation_records env st
        in case record_of_player fa_player_id records of
             None \<Rightarrow> (0, st1)
           | Some i \<Rightarrow> (if signing_team then fc_signing_team (records ! i) else fc_original_team (records ! i), st1))"

end
