(* ===== verification/FaCompLemmas.thy ===== *)
theory FaCompLemmas
  imports FaCompensation
begin

text \<open>
  Lemmas on the compensation for free agents: what each operation leaves unchanged, what a
  stored text is, and what the ledger is after a rewrite.
\<close>

section \<open>What the operations leave unchanged\<close>

text \<open>The parts of the state the proofs follow: the ledger, the payments, the money.\<close>

definition books :: "fa_state \<Rightarrow> fa_transfer list \<times> (u32 \<Rightarrow> financials option)" where
  "books st = (fs_transfers st, fw_finances (fs_world st))"

named_theorems fa_frame

lemma run_statement_frame [fa_frame]:
  "fs_records (snd (run_statement env st)) = fs_records st" "books (snd (run_statement env st)) = books st"
  by (simp_all add: run_statement_def books_def)

lemma emit_frame [fa_frame]:
  "fs_records (emit e st) = fs_records st" "books (emit e st) = books st"
  by (simp_all add: emit_def books_def)

lemma load_records_frame [fa_frame]:
  "fs_records (snd (kbo_load_fa_compensation_records env st)) = fs_records st"
  "books (snd (kbo_load_fa_compensation_records env st)) = books st"
  by (simp_all add: kbo_load_fa_compensation_records_def run_statement_def books_def)

lemma decision_append_frame [fa_frame]:
  "fs_records (snd (kbo_fa_compensation_decisions_sql_append_row env r due decided action sel n source st)) = fs_records st"
  "books (snd (kbo_fa_compensation_decisions_sql_append_row env r due decided action sel n source st)) = books st"
  by (auto simp: kbo_fa_compensation_decisions_sql_append_row_def run_statement_def books_def Let_def
      split: option.splits)

lemma player_decision_frame [fa_frame]:
  "fs_records (snd (kbo_persist_fa_compensation_player_decision env r due decided sel n source st)) = fs_records st"
  "books (snd (kbo_persist_fa_compensation_player_decision env r due decided sel n source st)) = books st"
  by (simp_all add: kbo_persist_fa_compensation_player_decision_def fa_frame)

lemma cash_decision_frame [fa_frame]:
  "fs_records (snd (kbo_persist_fa_compensation_cash_only_decision env r due decided source st)) = fs_records st"
  "books (snd (kbo_persist_fa_compensation_cash_only_decision env r due decided source st)) = books st"
  by (simp_all add: kbo_persist_fa_compensation_cash_only_decision_def fa_frame)

lemma latest_decision_frame [fa_frame]:
  "fs_records (snd (kbo_load_latest_fa_compensation_decision env p st)) = fs_records st"
  "books (snd (kbo_load_latest_fa_compensation_decision env p st)) = books st"
  by (simp_all add: kbo_load_latest_fa_compensation_decision_def run_statement_def books_def)

lemma lists_append_frame [fa_frame]:
  "fs_records (snd (kbo_fa_compensation_protected_lists_sql_append env r due d cands source st)) = fs_records st"
  "books (snd (kbo_fa_compensation_protected_lists_sql_append env r due d cands source st)) = books st"
  by (auto simp: kbo_fa_compensation_protected_lists_sql_append_def run_statement_def books_def Let_def
      split: option.splits)

lemma debug_frame [fa_frame]:
  "fs_records (kbo_persist_fa_compensation_protection_debug env r due d cands autos source st) = fs_records st"
  "books (kbo_persist_fa_compensation_protection_debug env r due d cands autos source st) = books st"
  by (simp_all add: kbo_persist_fa_compensation_protection_debug_def run_statement_def books_def)

lemma order_frame [fa_frame]:
  "fs_records (snd (kbo_fa_compensation_apply_ortools_order env r cands st)) = fs_records st"
  "books (snd (kbo_fa_compensation_apply_ortools_order env r cands st)) = books st"
  by (auto simp: kbo_fa_compensation_apply_ortools_order_def books_def Let_def split: option.splits prod.splits)

lemma list_news_frame [fa_frame]:
  "fs_records (kbo_emit_fa_compensation_protected_list_submitted_news r d days n m st) = fs_records st"
  "books (kbo_emit_fa_compensation_protected_list_submitted_news r d days n m st) = books st"
  by (simp_all add: kbo_emit_fa_compensation_protected_list_submitted_news_def fa_frame)

lemma selected_news_frame [fa_frame]:
  "fs_records (kbo_emit_fa_compensation_player_selected_news r c d st) = fs_records st"
  "books (kbo_emit_fa_compensation_player_selected_news r c d st) = books st"
  by (simp_all add: kbo_emit_fa_compensation_player_selected_news_def fa_frame)

lemma decide_frame [fa_frame]:
  "fs_records (snd (decide_compensation env r due d cands source st)) = fs_records st \<and>
   books (snd (decide_compensation env r due d cands source st)) = books st"
proof -
  obtain cache sel n where s: "kbo_select_fa_compensation_player_from_candidates (fe_policy env) (fe_foreign env)
      (fs_world st) r cands (ps_roles (fs_protection st)) = (cache, sel, n)" by (metis prod_cases3)
  let ?st1 = "st\<lparr>fs_protection := (fs_protection st)\<lparr>ps_roles := cache\<rparr>\<rparr>"
  have f: "fs_records ?st1 = fs_records st" "books ?st1 = books st" by (simp_all add: books_def)
  show ?thesis
  proof (cases sel)
    case None
    then show ?thesis by (simp add: decide_compensation_def s split_beta Let_def fa_frame f)
  next
    case (Some c)
    then show ?thesis
      by (simp add: decide_compensation_def s split_beta Let_def fa_frame f)
  qed
qed

lemma submit_frame [fa_frame]:
  "fs_records (snd (kbo_submit_fa_compensation_protected_list_record env r d source st)) = fs_records st \<and>
   books (snd (kbo_submit_fa_compensation_protected_list_record env r d source st)) = books st"
proof -
  have p: "fs_records (st\<lparr>fs_protection := x\<rparr>) = fs_records st" "books (st\<lparr>fs_protection := x\<rparr>) = books st" for x
    by (simp_all add: books_def)
  show ?thesis
    by (simp add: kbo_submit_fa_compensation_protected_list_record_def Let_def split_beta fa_frame p split: option.split)
qed

lemma persist_records_books [fa_frame]:
  "books (snd (kbo_persist_fa_compensation_records env records st)) = books st"
  by (auto simp: kbo_persist_fa_compensation_records_def run_statement_def books_def split: option.splits)

lemma store_status_books [fa_frame]: "books (snd (store_status env r status st)) = books st"
  by (simp add: store_status_def split_beta fa_frame split: option.split)

text \<open>A payment changes the books only, a transfer of a player neither the ledger nor the books.\<close>

lemma set_cash_simps [simp]:
  "fw_players (set_cash t c w) = fw_players w" "fw_teams (set_cash t c w) = fw_teams w"
  by (simp_all add: set_cash_def)

lemma already_applied_frame [fa_frame]:
  "fs_records (snd (kbo_fa_compensation_cash_transfer_sql_already_applied env r action st)) = fs_records st"
  "books (snd (kbo_fa_compensation_cash_transfer_sql_already_applied env r action st)) = books st"
  by (auto simp: kbo_fa_compensation_cash_transfer_sql_already_applied_def run_statement_def books_def split: option.splits)

lemma ledger_append_frame [fa_frame]:
  "fs_records (snd (kbo_fa_compensation_cash_transfer_sql_append env r a d action source s s' o1 o' st)) = fs_records st"
  by (auto simp: kbo_fa_compensation_cash_transfer_sql_append_def run_statement_def Let_def split: option.splits)

lemma cash_transfer_frame [fa_frame]:
  "fs_records (snd (kbo_apply_fa_compensation_cash_transfer env r a d action source st)) = fs_records st"
  by (simp add: kbo_apply_fa_compensation_cash_transfer_def split_beta Let_def fa_frame split: option.split)

lemma assign_finances [fa_frame]: "fw_finances (fst (kbo_assign_player_to_team_internal p t l u w)) = fw_finances w"
  by (auto simp: kbo_assign_player_to_team_internal_def Let_def split: option.splits prod.splits)

lemma transfer_history_frame [fa_frame]:
  "fs_records (kbo_record_fa_compensation_transfer_player_history r p d st) = fs_records st"
  "books (kbo_record_fa_compensation_transfer_player_history r p d st) = books st"
  by (simp_all add: kbo_record_fa_compensation_transfer_player_history_def Let_def fa_frame)

lemma transfer_player_frame [fa_frame]:
  "fs_records (snd (kbo_transfer_fa_compensation_player_to_original_team r p d st)) = fs_records st"
  "books (snd (kbo_transfer_fa_compensation_player_to_original_team r p d st)) = books st"
proof -
  have w: "fs_records (st\<lparr>fs_world := x\<rparr>) = fs_records st" for x by simp
  have b: "books (st\<lparr>fs_world := fst (kbo_assign_player_to_team_internal p t l u (fs_world st))\<rparr>) = books st" for t l u
    by (simp add: books_def fa_frame)
  show "fs_records (snd (kbo_transfer_fa_compensation_player_to_original_team r p d st)) = fs_records st"
    by (simp add: kbo_transfer_fa_compensation_player_to_original_team_def Let_def fa_frame w split: option.split)
  show "books (snd (kbo_transfer_fa_compensation_player_to_original_team r p d st)) = books st"
    by (simp add: kbo_transfer_fa_compensation_player_to_original_team_def kbo_assign_player_to_team_like_ootp_def
        Let_def fa_frame b split: option.split)
qed

lemma due_task_records [fa_frame]: "fs_records (snd (run_due_task env d source task st)) = fs_records st"
  by (simp add: run_due_task_def run_cash_task_def run_transfer_task_def split_beta Let_def fa_frame
      split: due_task_kind.split option.split)

section \<open>The ledger as a table\<close>

text \<open>
  A record the ledger stores and gives back unchanged, and a ledger that is rewritten without
  loss: its keys are distinct, and it is not longer than what the program loads.
\<close>

definition storable :: "fa_record \<Rightarrow> bool" where
  "storable r \<longleftrightarrow> loadable r
     \<and> strbuf 12 (fc_grade r) = fc_grade r \<and> strbuf 48 (fc_case_label r) = fc_case_label r
     \<and> strbuf 96 (fc_player_name r) = fc_player_name r \<and> strbuf 48 (fc_source r) = fc_source r
     \<and> sql_text 48 (fc_grade r) = Some (fc_grade r) \<and> sql_text 128 (fc_case_label r) = Some (fc_case_label r)
     \<and> sql_text 224 (fc_player_name r) = Some (fc_player_name r) \<and> sql_text 128 (fc_source r) = Some (fc_source r)"

definition ledger_ok :: "fa_record list \<Rightarrow> bool" where
  "ledger_ok table \<longleftrightarrow> distinct (map record_key table) \<and> length table \<le> FA_COMPENSATION_MAX \<and> (\<forall>r \<in> set table. storable r)"

lemma status_keeps_key [simp]: "record_key (r\<lparr>fc_status := s\<rparr>) = record_key r"
  by (simp add: record_key_def)

lemma storable_status [simp]: "storable (r\<lparr>fc_status := s\<rparr>) \<longleftrightarrow> storable r"
  by (simp add: storable_def loadable_def)

lemma read_storable: "storable r \<Longrightarrow> read_record r = r"
  by (cases r) (simp add: storable_def read_record_def)

lemma loadable_nonzero: "loadable r \<Longrightarrow> fc_player_id r \<noteq> 0 \<and> fc_season r \<noteq> 0"
  by (auto simp: loadable_def KBO_SEASON_YEAR_MIN_def)

lemma load_ledger:
  assumes "ledger_ok table"
  shows "kbo_fa_compensation_records_sql_load FA_COMPENSATION_MAX table = sort_key record_order table"
proof -
  have all: "storable r" if "r \<in> set table" for r using assms that by (simp add: ledger_ok_def)
  have f: "filter (\<lambda>r. fc_player_id r \<noteq> 0 \<and> fc_season r \<noteq> 0) table = table"
    using all loadable_nonzero by (auto simp: filter_id_conv storable_def)
  have m: "map read_record (sort_key record_order table) = sort_key record_order table"
    using all by (intro map_idI) (simp add: read_storable)
  have l: "filter loadable (sort_key record_order table) = sort_key record_order table"
    using all by (simp add: filter_id_conv storable_def)
  show ?thesis using assms by (simp add: kbo_fa_compensation_records_sql_load_def f m l ledger_ok_def)
qed

lemma insert_new: "record_key r \<notin> record_key ` set table \<Longrightarrow> replace_record r table = table @ [r]"
  unfolding replace_record_def by (subst filter_True) (auto simp: image_iff)

lemma append_rows_storable:
  assumes "\<forall>r \<in> set rows. storable r" and "distinct (map record_key rows)"
    and "record_key ` set table \<inter> record_key ` set rows = {}"
  shows "append_rows table rows = Some (table @ rows)"
  using assms
proof (induction rows arbitrary: table)
  case (Cons r rows)
  have r: "storable r" using Cons.prems(1) by simp
  have "kbo_fa_compensation_records_sql_append_row table r = Some (replace_record r table)"
    using r loadable_nonzero [of r] by (simp add: kbo_fa_compensation_records_sql_append_row_def storable_def)
  also have "replace_record r table = table @ [r]" using Cons.prems(3) by (intro insert_new) auto
  finally have "append_rows table (r # rows) = append_rows (table @ [r]) rows" by simp
  also have "\<dots> = Some ((table @ [r]) @ rows)"
    using Cons.prems by (intro Cons.IH) (auto simp: image_iff)
  finally show ?case by simp
qed simp

lemma persist_ledger:
  assumes "ledger_ok rows"
  shows "fs_records (snd (kbo_persist_fa_compensation_records env rows st))
    = (if fe_ok env (fs_clock st) then rows else fs_records st)"
  using assms by (simp add: kbo_persist_fa_compensation_records_def run_statement_def append_rows_storable ledger_ok_def)

lemma sort_ledger:
  assumes "ledger_ok table"
  shows "ledger_ok (sort_key record_order table)"
    and "row_map record_key (sort_key record_order table) = row_map record_key table"
proof -
  have "mset (map record_key (sort_key record_order table)) = mset (map record_key table)" by simp
  then have "distinct (map record_key (sort_key record_order table))"
    using assms mset_eq_imp_distinct_iff unfolding ledger_ok_def by blast
  then show "ledger_ok (sort_key record_order table)" using assms by (simp add: ledger_ok_def)
  show "row_map record_key (sort_key record_order table) = row_map record_key table"
    using assms by (intro row_map_perm) (simp_all add: ledger_ok_def)
qed

lemma update_ledger:
  assumes "ledger_ok rows" and "i < length rows" and "record_key r = record_key (rows ! i)" and "storable r"
  shows "ledger_ok (rows[i := r])"
  using assms keys_update [of record_key r rows i] set_update_subset_insert [of rows i r]
  by (auto simp: ledger_ok_def)

text \<open>The effect of writing back a status.\<close>

lemma store_status_cases:
  assumes "ledger_ok (fs_records st)"
  obtains (unchanged) "fs_records (snd (store_status env r status st)) = fs_records st"
  | (stored) x where "row_map record_key (fs_records st) (record_key r) = Some x"
      and "ledger_ok (fs_records (snd (store_status env r status st)))"
      and "row_map record_key (fs_records (snd (store_status env r status st)))
        = (row_map record_key (fs_records st))(record_key r \<mapsto> x\<lparr>fc_status := status\<rparr>)"
proof -
  define st1 where "st1 = snd (kbo_load_fa_compensation_records env st)"
  define rows where "rows = fst (kbo_load_fa_compensation_records env st)"
  have r1: "fs_records st1 = fs_records st" by (simp add: st1_def fa_frame)
  have st: "snd (store_status env r status st) = (case first_index (\<lambda>x. record_key x = record_key r) rows of
      None \<Rightarrow> st1
    | Some i \<Rightarrow> snd (kbo_persist_fa_compensation_records env (rows[i := (rows ! i)\<lparr>fc_status := status\<rparr>]) st1))"
    by (simp add: store_status_def st1_def rows_def split_beta split: option.split)
  show thesis
  proof (cases "first_index (\<lambda>x. record_key x = record_key r) rows")
    case None
    show thesis by (rule unchanged) (simp add: st None r1)
  next
    case (Some i)
    note i = first_index_Some [OF Some]
    have "rows = (if fe_ok env (fs_clock st) then sort_key record_order (fs_records st) else [])"
      by (simp add: rows_def kbo_load_fa_compensation_records_def run_statement_def load_ledger [OF assms])
    then have rows: "rows = sort_key record_order (fs_records st)" using i by (auto split: if_splits)
    note srt = sort_ledger [OF assms]
    let ?x = "rows ! i"
    let ?rows = "rows[i := ?x\<lparr>fc_status := status\<rparr>]"
    have ok: "ledger_ok ?rows"
      using srt(1) i nth_mem [of i rows] by (intro update_ledger) (auto simp: rows ledger_ok_def)
    have fs: "fs_records (snd (store_status env r status st)) = (if fe_ok env (fs_clock st1) then ?rows else fs_records st)"
      by (simp add: st Some persist_ledger [OF ok] r1)
    have m: "row_map record_key ?rows = (row_map record_key (fs_records st))(record_key r \<mapsto> ?x\<lparr>fc_status := status\<rparr>)"
      using srt i row_map_update [of record_key rows i "?x\<lparr>fc_status := status\<rparr>"] by (simp add: rows ledger_ok_def)
    have x: "row_map record_key (fs_records st) (record_key r) = Some ?x"
      using row_map_iff [of record_key rows "record_key r" ?x] srt i nth_mem [of i rows] by (simp add: rows ledger_ok_def)
    show thesis
    proof (cases "fe_ok env (fs_clock st1)")
      case True
      then show thesis using stored [OF x] ok m fs by simp
    next
      case False
      then show thesis using unchanged fs by simp
    qed
  qed
qed

end
