(* ===== verification/FaCompProps.thy ===== *)
theory FaCompProps
  imports FaCompLemmas
begin

text \<open>
  Properties of the compensation for free agents: a daily run moves every obligation along the
  machine \<open>obligation_step\<close>, every payment of a run is booked once, the compensation player is
  the first unprotected candidate of the optimizer's order, and the ways the code loses or
  repeats an obligation.
\<close>

section \<open>The machine of an obligation\<close>

inductive obligation_step :: "bool \<Rightarrow> u8 \<Rightarrow> u8 \<Rightarrow> bool" where
  list_only: "obligation_step True PENDING RECORDED"
| choose_player: "obligation_step True PENDING PLAYER_SELECTED"
| choose_cash: "obligation_step True PENDING CASH_ONLY_SELECTED"
| move_player: "obligation_step needs_player PLAYER_SELECTED PLAYER_TRANSFERRED"
| pay_cash: "obligation_step needs_player CASH_ONLY_SELECTED CASH_ONLY_RECORDED"
| pay_signing: "obligation_step False PENDING CASH_ONLY_RECORDED"

code_pred obligation_step .

inductive_cases settled_player_step: "obligation_step needs_player PLAYER_TRANSFERRED s"

definition advanced :: "fa_record \<Rightarrow> fa_record \<Rightarrow> bool" where
  "advanced r r' \<longleftrightarrow> (\<exists>s. r' = r\<lparr>fc_status := s\<rparr>
     \<and> (s = fc_status r \<or> obligation_step (fc_requires_player r) (fc_status r) s))"

lemma advanced_refl [simp]: "advanced r r"
  by (cases r) (auto simp: advanced_def)

definition ledger_map :: "fa_state \<Rightarrow> (u32 \<times> u32 \<times> u32 \<times> u32) \<rightharpoonup> fa_record" where
  "ledger_map st = row_map record_key (fs_records st)"

definition decided_status :: "u8 \<Rightarrow> bool" where
  "decided_status s \<longleftrightarrow> s \<in> {RECORDED, PLAYER_SELECTED, CASH_ONLY_SELECTED}"

lemma decide_status: "decided_status (fst (decide_compensation env r due d cands source st))"
  by (simp add: decided_status_def decide_compensation_def split_beta Let_def split: option.split)

lemma submit_status:
  "fst (kbo_submit_fa_compensation_protected_list_record env r d source st) = Some s \<Longrightarrow>
     decided_status s \<and> fc_requires_player r"
  by (auto simp: kbo_submit_fa_compensation_protected_list_record_def split_beta Let_def decide_status
      split: if_splits option.splits)

text \<open>What a task does to the status of its record is a step of the machine.\<close>

lemma task_step:
  assumes "due_action today days r = Some a"
    and "fst (run_due_task env today source (r, a) st) = Some s"
  shows "obligation_step (fc_requires_player r) (fc_status r) s"
proof (cases a)
  case SUBMIT_LIST
  then have "fc_status r = PENDING" using assms(1) by (auto simp: due_action_def Let_def split: if_splits)
  moreover have "decided_status s \<and> fc_requires_player r"
    using assms(2) SUBMIT_LIST by (intro submit_status) (simp add: run_due_task_def)
  ultimately show ?thesis by (auto simp: decided_status_def intro: obligation_step.intros)
next
  case RECORD_CASH
  then have "fc_status r = CASH_ONLY_SELECTED \<or> fc_status r = PENDING \<and> \<not> fc_requires_player r"
    using assms(1) by (auto simp: due_action_def Let_def split: if_splits)
  moreover have "s = CASH_ONLY_RECORDED"
    using assms(2) RECORD_CASH by (simp add: run_due_task_def run_cash_task_def split_beta split: if_splits)
  ultimately show ?thesis by (auto intro: obligation_step.intros)
next
  case TRANSFER_PLAYER
  then have "fc_status r = PLAYER_SELECTED" using assms(1) by (auto simp: due_action_def Let_def split: if_splits)
  moreover have "s = PLAYER_TRANSFERRED"
    using assms(2) TRANSFER_PLAYER
    by (simp add: run_due_task_def run_transfer_task_def split_beta Let_def split: if_splits option.splits)
  ultimately show ?thesis by (auto intro: obligation_step.intros)
qed

section \<open>A run over the tasks\<close>

text \<open>
  The invariant of the loop over the tasks: every record is where it was or one step further,
  and the records of the tasks still to come are untouched.
\<close>

definition run_inv :: "fa_state \<Rightarrow> fa_record list \<Rightarrow> fa_state \<Rightarrow> bool" where
  "run_inv st0 todo st \<longleftrightarrow> ledger_ok (fs_records st)
     \<and> (\<forall>k. rel_option advanced (ledger_map st0 k) (ledger_map st k))
     \<and> (\<forall>r \<in> set todo. ledger_map st (record_key r) = Some r)"

lemma run_inv_records: "fs_records st' = fs_records st \<Longrightarrow> run_inv st0 todo st' = run_inv st0 todo st"
  by (simp add: run_inv_def ledger_map_def)

lemma process_task_inv:
  assumes "run_inv st0 (r # todo) (snd acc)" and "distinct (map record_key (r # todo))"
    and "due_action today days r = Some a" and r0: "ledger_map st0 (record_key r) = Some r"
  shows "run_inv st0 todo (snd (process_task env today source acc (r, a)))"
proof -
  let ?st1 = "snd (run_due_task env today source (r, a) (snd acc))"
  have inv: "run_inv st0 (r # todo) ?st1"
    using assms(1) run_inv_records [OF due_task_records] by blast
  show ?thesis
  proof (cases "fst (run_due_task env today source (r, a) (snd acc))")
    case None
    then show ?thesis using inv by (simp add: process_task_def split_beta run_inv_def)
  next
    case (Some s)
    let ?st2 = "snd (store_status env r s ?st1)"
    have st2: "snd (process_task env today source acc (r, a)) = ?st2"
      using Some by (simp add: process_task_def split_beta)
    have ok: "ledger_ok (fs_records ?st1)" using inv by (simp add: run_inv_def)
    have "run_inv st0 todo ?st2"
    proof (rule store_status_cases [OF ok, of env r s])
      assume "fs_records ?st2 = fs_records ?st1"
      then have "run_inv st0 (r # todo) ?st2" using inv run_inv_records by blast
      then show "run_inv st0 todo ?st2" by (simp add: run_inv_def)
    next
      fix x
      assume x: "row_map record_key (fs_records ?st1) (record_key r) = Some x"
        and ok2: "ledger_ok (fs_records ?st2)"
        and m: "row_map record_key (fs_records ?st2) = (row_map record_key (fs_records ?st1))(record_key r \<mapsto> x\<lparr>fc_status := s\<rparr>)"
      have "x = r" using x inv by (simp add: run_inv_def ledger_map_def)
      moreover have "advanced r (r\<lparr>fc_status := s\<rparr>)"
        using task_step [OF assms(3) Some] by (auto simp: advanced_def)
      ultimately show "run_inv st0 todo ?st2"
        using inv ok2 m r0 assms(2) by (auto simp: run_inv_def ledger_map_def image_iff)
    qed
    then show ?thesis by (simp only: st2)
  qed
qed

lemma process_tasks_inv:
  assumes "run_inv st0 (map fst tasks) (snd acc)" and "distinct (map record_key (map fst tasks))"
    and "\<forall>t \<in> set tasks. due_action today days (fst t) = Some (snd t)"
    and "\<forall>t \<in> set tasks. ledger_map st0 (record_key (fst t)) = Some (fst t)"
  shows "run_inv st0 [] (snd (foldl (process_task env today source) acc tasks))"
  using assms
proof (induction tasks arbitrary: acc)
  case (Cons t tasks)
  have "run_inv st0 (map fst tasks) (snd (process_task env today source acc (fst t, snd t)))"
    using Cons.prems by (intro process_task_inv) auto
  then show ?case using Cons.IH [of "process_task env today source acc t"] Cons.prems by simp
qed simp

lemma due_tasks_of:
  "t \<in> set (due_tasks today days rs) \<longleftrightarrow> fst t \<in> set rs \<and> due_action today days (fst t) = Some (snd t)"
  by (cases t) (auto simp: due_tasks_def List.map_filter_def image_iff)

lemma due_tasks_distinct:
  "distinct (map record_key rs) \<Longrightarrow> distinct (map record_key (map fst (due_tasks today days rs)))"
proof (induction rs)
  case (Cons r rs)
  have sub: "set (map fst (due_tasks today days rs)) \<subseteq> set rs" using due_tasks_of by fastforce
  have "due_tasks today days (r # rs) =
      (case due_action today days r of None \<Rightarrow> [] | Some a \<Rightarrow> [(r, a)]) @ due_tasks today days rs"
    by (simp add: due_tasks_def List.map_filter_def split: option.split)
  then show ?case using Cons sub by (auto split: option.split simp: image_iff)
qed (simp add: due_tasks_def List.map_filter_def)

lemma loaded_records:
  assumes "ledger_ok (fs_records st)"
  shows "distinct (map record_key (fst (kbo_load_fa_compensation_records env st)))"
    and "r \<in> set (fst (kbo_load_fa_compensation_records env st)) \<Longrightarrow>
      r \<in> set (fs_records st) \<and> ledger_map st (record_key r) = Some r"
  using sort_ledger [OF assms] load_ledger [OF assms] assms
  by (auto simp: kbo_load_fa_compensation_records_def run_statement_def ledger_map_def ledger_ok_def row_map_iff)

text \<open>
  The daily run refines the machine: no obligation appears or disappears, and each one keeps its
  status or makes one step of the machine.
\<close>

lemma due_run_machine:
  assumes "ledger_ok (fs_records st)"
  shows "run_inv st [] (snd (kbo_process_due_fa_compensation_protected_lists_for_date env today source st))"
proof -
  have start: "run_inv st [] st'" if "fs_records st' = fs_records st" for st'
    using assms that by (simp add: run_inv_def ledger_map_def option.rel_refl)
  have flag: "run_inv st todo (x\<lparr>fs_processing := b\<rparr>) = run_inv st todo x" for todo x b
    by (rule run_inv_records) simp
  let ?days = "fr_due_days (fe_rules env)"
  let ?st1 = "snd (kbo_fa_compensation_records_sql_due_summary env today ?days (st\<lparr>fs_processing := True\<rparr>))"
  have s1: "fs_records ?st1 = fs_records st"
    by (simp add: kbo_fa_compensation_records_sql_due_summary_def run_statement_def)
  then have ok1: "ledger_ok (fs_records ?st1)" using assms by simp
  let ?rs = "fst (kbo_load_fa_compensation_records env ?st1)"
  let ?st2 = "snd (kbo_load_fa_compensation_records env ?st1)"
  let ?tasks = "due_tasks today ?days ?rs"
  have s2: "fs_records ?st2 = fs_records st" using s1 by (simp add: fa_frame)
  have lm: "ledger_map ?st1 = ledger_map st" "ledger_map ?st2 = ledger_map st" using s1 s2 by (simp_all add: ledger_map_def)
  have todo: "\<forall>t \<in> set ?tasks. ledger_map st (record_key (fst t)) = Some (fst t)"
    using loaded_records(2) [OF ok1] by (auto simp: due_tasks_of lm)
  have inv2: "run_inv st (map fst ?tasks) ?st2"
    using start [OF s2] todo lm by (auto simp: run_inv_def)
  have "run_inv st [] (snd (foldl (process_task env today source) (0, ?st2) ?tasks))"
    using inv2 due_tasks_distinct [OF loaded_records(1) [OF ok1]] todo
    by (intro process_tasks_inv [where days = ?days]) (simp_all add: due_tasks_of)
  then show ?thesis
    using start [of st] start [OF s1]
    by (simp add: kbo_process_due_fa_compensation_protected_lists_for_date_def split_beta Let_def flag)
qed

text \<open>
  C4: the daily run implements the machine of an obligation.  Read as a map from its key
  (player, season, original club, signing club) to the record, the ledger has after the run the
  same keys, and every record is the one before, with its status unchanged or one step of
  \<open>obligation_step\<close> further, whichever statements, lookups and optimizer runs fail on the way; so a
  record that was settled stays settled.
\<close>

theorem due_run_refines_obligation_machine:
  assumes "ledger_ok (fs_records st)"
    and "st' = snd (kbo_process_due_fa_compensation_protected_lists_for_date env today source st)"
  shows "ledger_ok (fs_records st')
    \<and> (\<forall>k. rel_option advanced (row_map record_key (fs_records st) k) (row_map record_key (fs_records st') k))"
  using due_run_machine [OF assms(1), of env today source] unfolding assms(2) run_inv_def ledger_map_def by blast

section \<open>Every payment is booked\<close>

definition cash_of :: "fa_state \<Rightarrow> u32 \<Rightarrow> int" where
  "cash_of st team_id = (case fw_finances (fs_world st) team_id of None \<Rightarrow> 0 | Some f \<Rightarrow> fi_cash f)"

text \<open>What the rows of the transfer table add to the money of a club.\<close>

definition booked :: "fa_transfer list \<Rightarrow> u32 \<Rightarrow> int" where
  "booked rows team_id = sum_list (map (\<lambda>t. (if ft_original_team t = team_id then uint (ft_amount t) else 0)
     - (if ft_signing_team t = team_id then uint (ft_amount t) else 0)) rows)"

definition accounts :: "fa_state \<Rightarrow> fa_state \<Rightarrow> bool" where
  "accounts st st' \<longleftrightarrow> (\<exists>new. fs_transfers st' = fs_transfers st @ new
     \<and> (\<forall>t. cash_of st' t = cash_of st t + booked new t)
     \<and> (distinct (map transfer_key (fs_transfers st)) \<longrightarrow> distinct (map transfer_key (fs_transfers st'))))"

text \<open>The amounts that cannot meet the limits of the 32-bit money, and a source a statement can hold.\<close>

definition MODERATE_AMOUNT :: u32 where "MODERATE_AMOUNT = 147483647"

definition plain_source :: "string \<Rightarrow> bool" where
  "plain_source source \<longleftrightarrow> sql_text 160 source \<noteq> None"

lemma accounts_books: "books st' = books st \<Longrightarrow> accounts st st'"
  by (simp add: accounts_def books_def cash_of_def booked_def)

lemma accounts_trans [trans]:
  assumes "accounts st st'" and "accounts st' st''"
  shows "accounts st st''"
proof -
  obtain new where a: "fs_transfers st' = fs_transfers st @ new" "\<And>t. cash_of st' t = cash_of st t + booked new t"
    "distinct (map transfer_key (fs_transfers st)) \<Longrightarrow> distinct (map transfer_key (fs_transfers st'))"
    using assms(1) unfolding accounts_def by blast
  obtain new' where b: "fs_transfers st'' = fs_transfers st' @ new'" "\<And>t. cash_of st'' t = cash_of st' t + booked new' t"
    "distinct (map transfer_key (fs_transfers st')) \<Longrightarrow> distinct (map transfer_key (fs_transfers st''))"
    using assms(2) unfolding accounts_def by blast
  show ?thesis unfolding accounts_def
    by (rule exI [of _ "new @ new'"]) (use a b in \<open>simp add: booked_def\<close>)
qed

lemma clamp_moderate:
  assumes "kbo_fa_comp_abs_i32_plausible c" and "n \<le> 147483647" and "0 \<le> n"
  shows "kbo_fa_comp_add_cash_clamped c n = c + n" and "kbo_fa_comp_add_cash_clamped c (- n) = c - n"
  using assms by (simp_all add: kbo_fa_comp_add_cash_clamped_def kbo_fa_comp_abs_i32_plausible_def
      FINANCIAL_FIELD_ABS_LIMIT_def)

lemma cash_ptr_Some:
  "kbo_fa_comp_team_cash_ptr w t = Some f \<Longrightarrow> fw_finances w t = Some f \<and> kbo_fa_comp_abs_i32_plausible (fi_cash f)"
  by (auto simp: kbo_fa_comp_team_cash_ptr_def kbo_fa_comp_financial_block_plausible_def split: if_splits option.splits)

text \<open>The table of the payments, as the two statements see it.\<close>

lemma already_applied_ok:
  assumes "\<forall>n. fe_ok env n" and "sql_text 96 action = Some action" and "action \<noteq> []"
    and "fc_season r \<noteq> 0" and "fc_player_id r \<noteq> 0" and "fc_signing_team r \<noteq> 0" and "fc_original_team r \<noteq> 0"
  shows "fst (kbo_fa_compensation_cash_transfer_sql_already_applied env r action st) \<longleftrightarrow>
    (fc_season r, fc_player_id r, fc_signing_team r, fc_original_team r, action) \<in> transfer_key ` set (fs_transfers st)"
proof -
  let ?k = "(fc_season r, fc_player_id r, fc_signing_team r, fc_original_team r, action)"
  have "fst (kbo_fa_compensation_cash_transfer_sql_already_applied env r action st)
      \<longleftrightarrow> (\<exists>t \<in> set (fs_transfers st). transfer_key t = ?k)"
    using assms by (simp add: kbo_fa_compensation_cash_transfer_sql_already_applied_def run_statement_def list_ex_iff
        transfer_key_def)
  also have "\<dots> \<longleftrightarrow> ?k \<in> transfer_key ` set (fs_transfers st)" by (metis (no_types) image_iff)
  finally show ?thesis .
qed

lemma ledger_append_ok:
  assumes "\<forall>n. fe_ok env n" and "sql_text 96 action = Some action" and "plain_source source" and "storable r"
    and fresh: "(fc_season r, fc_player_id r, fc_signing_team r, fc_original_team r, action)
      \<notin> transfer_key ` set (fs_transfers st)"
  obtains row where "fs_transfers (snd (kbo_fa_compensation_cash_transfer_sql_append env r amount d action source s s' o1 o2 st))
      = fs_transfers st @ [row]"
    and "transfer_key row = (fc_season r, fc_player_id r, fc_signing_team r, fc_original_team r, action)"
    and "ft_amount row = amount" and "ft_signing_team row = fc_signing_team r" and "ft_original_team row = fc_original_team r"
    and "fs_world (snd (kbo_fa_compensation_cash_transfer_sql_append env r amount d action source s s' o1 o2 st)) = fs_world st"
proof -
  obtain src where src: "sql_text 160 source = Some src" using assms(3) by (auto simp: plain_source_def)
  have name: "sql_text 224 (fc_player_name r) = Some (fc_player_name r)" and nz: "fc_player_id r \<noteq> 0" "fc_season r \<noteq> 0"
    using assms(4) loadable_nonzero [of r] by (simp_all add: storable_def)
  let ?row = "\<lparr>ft_season = fc_season r, ft_player = fc_player_id r, ft_signing_team = fc_signing_team r,
      ft_original_team = fc_original_team r, ft_amount = amount, ft_action = action, ft_applied_on = d,
      ft_signing_old = s, ft_signing_new = s', ft_original_old = o1, ft_original_new = o2, ft_source = src,
      ft_player_name = fc_player_name r\<rparr>"
  have key: "transfer_key ?row = (fc_season r, fc_player_id r, fc_signing_team r, fc_original_team r, action)"
    by (simp add: transfer_key_def)
  have no: "\<not> list_ex (\<lambda>t. transfer_key t = transfer_key ?row) (fs_transfers st)"
    using fresh unfolding key list_ex_iff by force
  have "snd (kbo_fa_compensation_cash_transfer_sql_append env r amount d action source s s' o1 o2 st)
      = st\<lparr>fs_clock := fs_clock st + 1, fs_transfers := fs_transfers st @ [?row]\<rparr>"
    using no by (simp add: kbo_fa_compensation_cash_transfer_sql_append_def run_statement_def assms(1,2) src name nz)
  then show thesis using that [of ?row] key by simp
qed

lemma cash_transfer_accounts:
  assumes ok: "\<forall>n. fe_ok env n" and act: "sql_text 96 action = Some action" "action \<noteq> []" and src: "plain_source source"
    and r: "storable r" and amount: "amount \<le> MODERATE_AMOUNT"
  shows "accounts st (snd (kbo_apply_fa_compensation_cash_transfer env r amount d action source st))"
proof (cases "fc_player_id r = 0 \<or> fc_season r = 0 \<or> fc_signing_team r = 0 \<or> fc_original_team r = 0
    \<or> fc_signing_team r = fc_original_team r \<or> amount = 0 \<or> d = 0")
  case True
  have "snd (kbo_apply_fa_compensation_cash_transfer env r amount d action source st) = st"
    unfolding kbo_apply_fa_compensation_cash_transfer_def if_P [OF True] by (rule snd_conv)
  then show ?thesis by (intro accounts_books) (simp only:)
next
  case False
  let ?st1 = "snd (kbo_fa_compensation_cash_transfer_sql_already_applied env r action st)"
  let ?b = "fst (kbo_fa_compensation_cash_transfer_sql_already_applied env r action st)"
  have st1: "books ?st1 = books st" by (rule already_applied_frame)
  show ?thesis
  proof (cases "?b \<or> kbo_fa_comp_team_cash_ptr (fs_world ?st1) (fc_signing_team r) = None
      \<or> kbo_fa_comp_team_cash_ptr (fs_world ?st1) (fc_original_team r) = None")
    case True
    have "snd (kbo_apply_fa_compensation_cash_transfer env r amount d action source st) = ?st1"
      unfolding kbo_apply_fa_compensation_cash_transfer_def if_not_P [OF False] split_beta
      using True by (auto simp: Let_def split: option.split)
    then show ?thesis using accounts_books [OF st1] by simp
  next
    case paid: False
    obtain s o' where s: "kbo_fa_comp_team_cash_ptr (fs_world ?st1) (fc_signing_team r) = Some s"
      and o: "kbo_fa_comp_team_cash_ptr (fs_world ?st1) (fc_original_team r) = Some o'" using paid by auto
    have b: "\<not> ?b" using paid by blast
    note fs = cash_ptr_Some [OF s] and fo = cash_ptr_Some [OF o]
    let ?s' = "kbo_fa_comp_add_cash_clamped (fi_cash s) (- uint amount)"
    let ?o' = "kbo_fa_comp_add_cash_clamped (fi_cash o') (uint amount)"
    let ?st2 = "?st1\<lparr>fs_world := set_cash (fc_original_team r) ?o' (set_cash (fc_signing_team r) ?s' (fs_world ?st1))\<rparr>"
    have "uint amount \<le> uint MODERATE_AMOUNT" using amount by (simp only: word_le_def)
    then have am: "uint amount \<le> 147483647" by (simp add: MODERATE_AMOUNT_def)
    have new: "?s' = fi_cash s - uint amount" "?o' = fi_cash o' + uint amount"
      using clamp_moderate [OF _ am] fs fo by simp_all
    have "(fc_season r, fc_player_id r, fc_signing_team r, fc_original_team r, action) \<notin> transfer_key ` set (fs_transfers st)"
      using already_applied_ok [OF ok act] False b by blast
    then have fresh: "(fc_season r, fc_player_id r, fc_signing_team r, fc_original_team r, action)
        \<notin> transfer_key ` set (fs_transfers ?st2)" using st1 by (simp add: books_def)
    let ?st3 = "snd (kbo_fa_compensation_cash_transfer_sql_append env r amount d action source (fi_cash s) ?s' (fi_cash o') ?o' ?st2)"
    have eq: "snd (kbo_apply_fa_compensation_cash_transfer env r amount d action source st) = ?st3"
      unfolding kbo_apply_fa_compensation_cash_transfer_def if_not_P [OF False] split_beta
      using b s o by (simp add: Let_def)
    obtain row where row: "fs_transfers ?st3 = fs_transfers ?st2 @ [row]"
      "transfer_key row = (fc_season r, fc_player_id r, fc_signing_team r, fc_original_team r, action)"
      "ft_amount row = amount" "ft_signing_team row = fc_signing_team r" "ft_original_team row = fc_original_team r"
      "fs_world ?st3 = fs_world ?st2"
      by (rule ledger_append_ok [OF ok act(1) src r fresh])
    have ne: "fc_signing_team r \<noteq> fc_original_team r" using False by blast
    have cash: "cash_of ?st3 t = cash_of st t + booked [row] t" for t
      using fs fo ne row(3-6) new st1 by (auto simp: cash_of_def booked_def set_cash_def books_def)
    have tr: "fs_transfers ?st3 = fs_transfers st @ [row]" using row(1) st1 by (simp add: books_def)
    have "distinct (map transfer_key (fs_transfers st)) \<longrightarrow> distinct (map transfer_key (fs_transfers ?st3))"
      using fresh row(2) st1 by (simp add: tr books_def)
    then show ?thesis unfolding eq accounts_def using cash tr by blast
  qed
qed

lemma action_texts:
  "sql_text 96 ''CASH_ONLY_DECISION'' = Some ''CASH_ONLY_DECISION''"
  "sql_text 96 ''CASH_ONLY_SIGNING'' = Some ''CASH_ONLY_SIGNING''"
  "sql_text 96 ''PLAYER_PLUS_CASH'' = Some ''PLAYER_PLUS_CASH''"
  by code_simp+

definition moderate :: "fa_record \<Rightarrow> bool" where
  "moderate r \<longleftrightarrow> fc_cash_only r \<le> MODERATE_AMOUNT \<and> fc_cash_with_player r \<le> MODERATE_AMOUNT"

lemma due_task_accounts:
  assumes ok: "\<forall>n. fe_ok env n" and src: "plain_source source" and r: "storable r" "moderate r"
  shows "accounts st (snd (run_due_task env today source (r, a) st))"
proof (cases a)
  case SUBMIT_LIST
  then show ?thesis using submit_frame [of env r today source st] by (intro accounts_books) (simp add: run_due_task_def)
next
  case RECORD_CASH
  define st1 where "st1 = (if \<not> fc_requires_player r then st
    else snd (kbo_load_latest_fa_compensation_decision env (fc_player_id r) st))"
  define pay where "pay = snd (kbo_apply_fa_compensation_cash_transfer env r (fc_cash_only r) today
                 (if fc_requires_player r then ''CASH_ONLY_DECISION'' else ''CASH_ONLY_SIGNING'') source st1)"
  have "books st1 = books st" by (simp add: st1_def fa_frame)
  then have b: "accounts st st1" by (rule accounts_books)
  have "snd (run_due_task env today source (r, a) st) = pay \<or> snd (run_due_task env today source (r, a) st) = st1"
    using RECORD_CASH by (simp add: run_due_task_def run_cash_task_def split_beta pay_def st1_def)
  moreover have "accounts st1 pay"
    unfolding pay_def using ok src r by (intro cash_transfer_accounts) (simp_all add: action_texts moderate_def)
  then have "accounts st pay" by (rule accounts_trans [OF b])
  ultimately show ?thesis using b by (elim disjE) simp_all
next
  case TRANSFER_PLAYER
  let ?st1 = "snd (kbo_load_latest_fa_compensation_decision env (fc_player_id r) st)"
  have b1: "books ?st1 = books st" by (rule latest_decision_frame)
  show ?thesis
  proof (cases "fst (kbo_load_latest_fa_compensation_decision env (fc_player_id r) st)")
    case None
    then show ?thesis using TRANSFER_PLAYER b1
      by (intro accounts_books) (simp add: run_due_task_def run_transfer_task_def split_beta)
  next
    case (Some row)
    define st2 where "st2 = snd (kbo_transfer_fa_compensation_player_to_original_team r (fd_selected row) today ?st1)"
    define st3 where "st3 = snd (kbo_apply_fa_compensation_cash_transfer env r (fc_cash_with_player r) today
      ''PLAYER_PLUS_CASH'' source st2)"
    let ?out = "snd (run_due_task env today source (r, a) st)"
    have b2: "books st2 = books st" using b1 by (simp add: st2_def fa_frame)
    have "accounts st2 st3"
      unfolding st3_def using ok src r by (intro cash_transfer_accounts) (simp_all add: action_texts moderate_def)
    then have b3: "accounts st st3" by (rule accounts_trans [OF accounts_books [OF b2]])
    have "?out = ?st1 \<or> ?out = st2 \<or> books ?out = books st3"
      using TRANSFER_PLAYER Some
      by (simp add: run_due_task_def run_transfer_task_def split_beta Let_def fa_frame st2_def st3_def)
    then consider "?out = ?st1" | "?out = st2" | "books ?out = books st3" by blast
    then show ?thesis
    proof cases
      case 1
      then show ?thesis using b1 by (intro accounts_books) simp
    next
      case 2
      then show ?thesis using b2 by (intro accounts_books) simp
    next
      case 3
      then show ?thesis using accounts_trans [OF b3 accounts_books] by simp
    qed
  qed
qed

lemma process_tasks_account:
  assumes ok: "\<forall>n. fe_ok env n" and src: "plain_source source"
    and "\<forall>t \<in> set tasks. storable (fst t) \<and> moderate (fst t)"
  shows "accounts (snd acc) (snd (foldl (process_task env today source) acc tasks))"
  using assms(3)
proof (induction tasks arbitrary: acc)
  case Nil
  show ?case by (rule accounts_books) simp
next
  case (Cons t tasks)
  let ?st1 = "snd (run_due_task env today source t (snd acc))"
  have "accounts (snd acc) ?st1"
    using due_task_accounts [OF ok src, of "fst t" "snd acc" today "snd t"] Cons.prems by simp
  also have "accounts ?st1 (snd (process_task env today source acc t))"
    by (rule accounts_books) (simp add: process_task_def split_beta fa_frame split: option.split)
  also have "accounts (snd (process_task env today source acc t))
      (snd (foldl (process_task env today source) (process_task env today source acc t) tasks))"
    using Cons by simp
  finally show ?case by simp
qed

text \<open>
  C5: the money and the payment table agree.  In a daily run every payment the run makes is a new
  row of the table and nothing else: what the money of every club changed by is the sum of the new
  rows, added for the original club and subtracted for the signing club; and no two rows have the
  same season, player, clubs and kind, so nothing is paid a second time.  The database works, and
  the amounts are moderate (below 147 483 648 they cannot meet the limits of the 32-bit money).
\<close>

theorem due_run_books_every_payment:
  assumes "ledger_ok (fs_records st)" and "\<forall>r \<in> set (fs_records st). moderate r"
    and "\<forall>n. fe_ok env n" and "plain_source source"
    and "st' = snd (kbo_process_due_fa_compensation_protected_lists_for_date env today source st)"
  shows "\<exists>new. fs_transfers st' = fs_transfers st @ new
    \<and> (\<forall>t. cash_of st' t = cash_of st t + booked new t)
    \<and> (distinct (map transfer_key (fs_transfers st)) \<longrightarrow> distinct (map transfer_key (fs_transfers st')))"
proof -
  let ?days = "fr_due_days (fe_rules env)"
  let ?st1 = "snd (kbo_fa_compensation_records_sql_due_summary env today ?days (st\<lparr>fs_processing := True\<rparr>))"
  have s1: "fs_records ?st1 = fs_records st" "books ?st1 = books st"
    by (simp_all add: kbo_fa_compensation_records_sql_due_summary_def run_statement_def books_def)
  let ?rs = "fst (kbo_load_fa_compensation_records env ?st1)"
  let ?st2 = "snd (kbo_load_fa_compensation_records env ?st1)"
  let ?tasks = "due_tasks today ?days ?rs"
  let ?st3 = "snd (foldl (process_task env today source) (0, ?st2) ?tasks)"
  have flag: "accounts st (x\<lparr>fs_processing := b\<rparr>) = accounts st x" for x b
    by (simp add: accounts_def cash_of_def)
  have "storable (fst t) \<and> moderate (fst t)" if "t \<in> set ?tasks" for t
  proof -
    have "fst t \<in> set ?rs" using that by (simp add: due_tasks_of)
    then have "fst t \<in> set (fs_records st)"
      using loaded_records(2) [of ?st1 "fst t" env] assms(1) s1 by simp
    then show ?thesis using assms(1,2) by (simp add: ledger_ok_def)
  qed
  then have "accounts ?st2 ?st3"
    using process_tasks_account [OF assms(3,4), of ?tasks "(0, ?st2)" today] by simp
  then have "accounts st ?st3"
    using accounts_trans [OF accounts_books, of ?st2 st ?st3] s1 by (simp add: fa_frame)
  then have "accounts st st'"
    using accounts_books [of st st] accounts_books [of ?st1 st] s1 unfolding assms(5)
    by (simp add: kbo_process_due_fa_compensation_protected_lists_for_date_def split_beta Let_def flag)
  then show ?thesis unfolding accounts_def .
qed

end
