(* ===== verification/FaProtProps.thy ===== *)
theory FaProtProps
  imports FaCompProps
begin

text \<open>
  Properties of the protected lists: who can be lost by the signing club, and what two lists of
  the same club do to each other.
\<close>

section \<open>The candidates\<close>

text \<open>A player the signing club can lose: he is on the club, active, and not protected anyway.\<close>

definition can_be_taken :: "protection_policy \<Rightarrow> fa_world \<Rightarrow> fa_record \<Rightarrow> u32 \<Rightarrow> bool" where
  "can_be_taken pol w rec player_id =
     (case fw_players w player_id of
        None \<Rightarrow> False
      | Some p \<Rightarrow> player_id \<noteq> 0 \<and> on_team (fc_signing_team rec) p \<and> fq_retired p = 0
          \<and> \<not> kbo_player_is_foreign_for_kbo_rights (fq_base p) \<and> fq_military p = 0
          \<and> \<not> kbo_fa_compensation_player_is_rookie_auto_protected pol p rec)"

lemma fill_id: "pc_player_id (snd (kbo_fa_fill_protection_candidate pol fpol w i p t s cache)) = i"
  by (simp add: kbo_fa_fill_protection_candidate_def split_beta)

lemma scan_candidates_eligible:
  assumes "\<forall>c \<in> set (fst (snd acc)). can_be_taken pol w rec (pc_player_id c)"
  shows "\<forall>c \<in> set (fst (snd (scan_candidates pol fpol w rec ids acc))). can_be_taken pol w rec (pc_player_id c)"
  using assms
proof (induction ids arbitrary: acc)
  case (Cons i ids)
  obtain cache cands autos where acc: "acc = (cache, cands, autos)" by (metis prod_cases3)
  show ?case
  proof (cases "length cands \<ge> TEAM_CACHE_CANDIDATE_MAX \<or> fw_players w i = None")
    case True
    then show ?thesis using Cons by (auto simp: acc)
  next
    case False
    then obtain p where p: "fw_players w i = Some p" and room: "\<not> length cands \<ge> TEAM_CACHE_CANDIDATE_MAX" by auto
    define f where "f = kbo_fa_fill_protection_candidate pol fpol w i p
      (if pl_current_team (fq_base p) \<noteq> 0 then pl_current_team (fq_base p) else pl_active_team (fq_base p))
      (fc_signing_team rec) cache"
    have fi: "pc_player_id (snd f) = i" by (simp only: f_def fill_id)
    have out: "scan_candidates pol fpol w rec (i # ids) acc =
        (if i = 0 \<or> \<not> on_team (fc_signing_team rec) p \<or> fq_retired p \<noteq> 0 then scan_candidates pol fpol w rec ids acc
         else case kbo_fa_base_auto_protected_reason pol p rec of
             Some reason \<Rightarrow> if length autos < PROTECTED_LIST_MAX
               then scan_candidates pol fpol w rec ids (fst f, cands, autos @ [(snd f)\<lparr>pc_reason := reason\<rparr>])
               else scan_candidates pol fpol w rec ids acc
           | None \<Rightarrow> scan_candidates pol fpol w rec ids (fst f, cands @ [snd f], autos))"
      using p room by (simp add: acc split_beta Let_def f_def split: option.split)
    show ?thesis
    proof (cases "i = 0 \<or> \<not> on_team (fc_signing_team rec) p \<or> fq_retired p \<noteq> 0
        \<or> kbo_fa_base_auto_protected_reason pol p rec \<noteq> None")
      case True
      then show ?thesis unfolding out using Cons by (auto simp: acc split: option.split)
    next
      case False
      then have "can_be_taken pol w rec i"
        using p by (auto simp: can_be_taken_def kbo_fa_base_auto_protected_reason_def split: if_splits)
      then have "\<forall>c \<in> set (fst (snd (fst f, cands @ [snd f], autos))). can_be_taken pol w rec (pc_player_id c)"
        using Cons.prems fi by (simp add: acc)
      from Cons.IH [OF this] show ?thesis unfolding out using False by simp
    qed
  qed
qed simp

lemma split_signed_members:
  "c \<in> set (fst (split_signed rec n m cs acc)) \<Longrightarrow>
     c \<in> set (fst acc) \<or> c \<in> set cs \<and> pc_player_id c \<noteq> fc_player_id rec"
proof (induction cs arbitrary: acc)
  case (Cons x cs)
  obtain cands autos b where acc: "acc = (cands, autos, b)" by (metis prod_cases3)
  show ?case using Cons.prems
    by (auto simp: acc split: if_splits dest!: Cons.IH)
qed simp

lemma materialized_members:
  "c \<in> set (fst (kbo_fa_materialize_protection_candidates rec base autos n m)) \<Longrightarrow>
     c \<in> set base \<and> pc_player_id c \<noteq> fc_player_id rec"
  by (auto simp: kbo_fa_materialize_protection_candidates_def Let_def split_beta split: if_splits
      dest!: split_signed_members)

lemma fresh_candidates_eligible:
  assumes "readable_vector w = Some (base, ids)" and "find (entry_for rec base (length ids)) (ps_teams st) = None"
    and "c \<in> set (fst (snd (kbo_build_fa_compensation_protected_candidates pol fpol w rec n m st)))"
  shows "can_be_taken pol w rec (pc_player_id c) \<and> pc_player_id c \<noteq> fc_player_id rec"
proof -
  have "c \<in> set (sort_candidates (fst (snd (scan_candidates pol fpol w rec ids (ps_roles st, [], [])))))
      \<and> pc_player_id c \<noteq> fc_player_id rec"
    using assms
    by (auto simp: kbo_build_fa_compensation_protected_candidates_def split_beta Let_def
        kbo_fa_try_materialize_cached_protection_candidates_def split: if_splits dest: materialized_members)
  then show ?thesis
    using scan_candidates_eligible [of "(ps_roles st, [], [])" pol w rec fpol ids] by (simp add: sort_candidates_def)
qed

section \<open>The order and the choice\<close>

lemma place_ids_mset: "place_ids is rest placed = (rest', placed') \<Longrightarrow> mset placed' + mset rest' = mset placed + mset rest"
proof (induction "is" rest placed rule: place_ids.induct)
  case (2 i "is" rest placed)
  show ?case
  proof (cases "rest = [] \<or> i = 0 \<or> first_index (\<lambda>c. pc_player_id c = i) rest = None")
    case True
    then show ?thesis using 2 by (auto split: if_splits)
  next
    case False
    then obtain k where k: "first_index (\<lambda>c. pc_player_id c = i) rest = Some k" by auto
    have "k < length rest" using first_index_Some [OF k] by simp
    then have "rest = take k rest @ rest ! k # drop (Suc k) rest" by (rule id_take_nth_drop)
    then have "mset rest = mset (take k rest @ rest ! k # drop (Suc k) rest)" by simp
    then show ?thesis using 2 False k by simp
  qed
qed simp

lemma order_mset:
  assumes "fst (kbo_fa_compensation_apply_ortools_order env rec cands st) = Some ordered"
  shows "mset ordered = mset cands"
proof -
  obtain "is" where o: "ordered = snd (place_ids is cands []) @ fst (place_ids is cands [])"
    using assms by (auto simp: kbo_fa_compensation_apply_ortools_order_def Let_def split_beta split: if_splits option.splits)
  show ?thesis unfolding o using place_ids_mset [of "is" cands "[]"] by (metis mset_append mset.simps(1) add_0 prod.collapse)
qed

lemma select_Some:
  assumes "kbo_select_fa_compensation_player_from_candidates pol fpol w rec cands cache = (cache', Some c, n)"
  shows "nat (sint (fc_protect_count rec)) < length cands"
    and "pc_player_id c = pc_player_id (cands ! nat (sint (fc_protect_count rec)))"
    and "n = int (length cands) - max 0 (sint (fc_protect_count rec))"
  using assms
  by (auto simp: kbo_select_fa_compensation_player_from_candidates_def Let_def split_beta max_def split: if_splits)

text \<open>
  C11: the compensation player is lawful.  The list of the optimizer is a permutation of the
  candidates, the chosen player is the first one behind the protected places, so he is not on the
  protected part; and unless an older list of the club is still cached, he is an active domestic
  player of the signing club who is not in the military, not protected as a rookie and not the
  free agent himself.
\<close>

theorem compensation_player_is_first_unprotected:
  assumes "readable_vector (fs_world st) = Some (base, ids)"
    and "find (entry_for rec base (length ids)) (ps_teams (fs_protection st)) = None"
    and "cands = fst (snd (kbo_build_fa_compensation_protected_candidates (fe_policy env) (fe_foreign env) (fs_world st)
           rec PROTECTED_LIST_MAX PROTECTED_LIST_MAX (fs_protection st)))"
    and "fst (kbo_fa_compensation_apply_ortools_order env rec cands st1) = Some ordered"
    and "kbo_select_fa_compensation_player_from_candidates pol fpol w rec ordered cache = (cache', Some c, n)"
  shows "mset ordered = mset cands
    \<and> pc_player_id c = pc_player_id (ordered ! nat (sint (fc_protect_count rec)))
    \<and> (distinct (map pc_player_id cands) \<longrightarrow>
        pc_player_id c \<notin> pc_player_id ` set (take (nat (sint (fc_protect_count rec))) ordered))
    \<and> can_be_taken (fe_policy env) (fs_world st) rec (pc_player_id c) \<and> pc_player_id c \<noteq> fc_player_id rec"
proof -
  let ?k = "nat (sint (fc_protect_count rec))"
  have m: "mset ordered = mset cands" by (rule order_mset [OF assms(4)])
  note s = select_Some [OF assms(5)]
  have "ordered ! ?k \<in> set cands" using s(1) m by (metis nth_mem set_mset_mset)
  then have "can_be_taken (fe_policy env) (fs_world st) rec (pc_player_id (ordered ! ?k))
      \<and> pc_player_id (ordered ! ?k) \<noteq> fc_player_id rec"
    unfolding assms(3) by (rule fresh_candidates_eligible [OF assms(1,2)])
  moreover have "pc_player_id c \<notin> pc_player_id ` set (take ?k ordered)" if "distinct (map pc_player_id cands)"
  proof -
    have "mset (map pc_player_id ordered) = mset (map pc_player_id cands)" using m by simp
    then have d: "distinct (map pc_player_id ordered)" using that mset_eq_imp_distinct_iff by blast
    have "ordered = take ?k ordered @ ordered ! ?k # drop (Suc ?k) ordered" by (rule id_take_nth_drop [OF s(1)])
    then have "distinct (map pc_player_id (take ?k ordered @ ordered ! ?k # drop (Suc ?k) ordered))" using d by simp
    then show ?thesis unfolding s(2) by simp
  qed
  ultimately show ?thesis using m s(2) by simp
qed

section \<open>Two claims on one player\<close>

lemma cash_transfer_players:
  "fw_players (fs_world (snd (kbo_apply_fa_compensation_cash_transfer env r a d action source st))) = fw_players (fs_world st)"
proof -
  have w: "fs_world (snd (kbo_fa_compensation_cash_transfer_sql_append env r a d action source s s' o1 o2 x)) = fs_world x"
    for s s' o1 o2 x
    by (auto simp: kbo_fa_compensation_cash_transfer_sql_append_def run_statement_def Let_def split: option.splits)
  have v: "fs_world (snd (kbo_fa_compensation_cash_transfer_sql_already_applied env r action x)) = fs_world x" for x
    by (auto simp: kbo_fa_compensation_cash_transfer_sql_already_applied_def run_statement_def split: option.splits)
  show ?thesis by (simp add: kbo_apply_fa_compensation_cash_transfer_def split_beta Let_def w v split: option.split)
qed

lemma selected_news_world: "fs_world (kbo_emit_fa_compensation_player_selected_news r c d st) = fs_world st"
  by (simp add: kbo_emit_fa_compensation_player_selected_news_def emit_def)

lemma latest_decision_world: "fs_world (snd (kbo_load_latest_fa_compensation_decision env p st)) = fs_world st"
  by (simp add: kbo_load_latest_fa_compensation_decision_def run_statement_def)

lemma transfer_history_world: "fs_world (kbo_record_fa_compensation_transfer_player_history r p d st) = fs_world st"
  by (simp add: kbo_record_fa_compensation_transfer_player_history_def emit_def Let_def)

text \<open>A player who was moved to a club without a parent is on that club alone.\<close>

lemma assigned_player:
  assumes "fw_players w p = Some x" and "fw_teams w t = Some team" and "tm_id team = t" and "t \<noteq> 0" and "tm_parent_team_id team = 0"
  shows "\<exists>x'. fw_players (fst (kbo_assign_player_to_team_like_ootp p t l w)) p = Some x'
    \<and> pl_current_team (fq_base x') = t \<and> pl_active_team (fq_base x') = t"
  using assms by (simp add: kbo_assign_player_to_team_like_ootp_def kbo_assign_player_to_team_internal_def Let_def split_beta)

lemma transfer_task_moved:
  assumes "fst (run_transfer_task env today source rec st) = Some s"
    and "fw_teams (fs_world st) (fc_original_team rec) = Some team" and "tm_id team = fc_original_team rec"
    and "tm_parent_team_id team = 0"
  obtains row x' where "fst (kbo_load_latest_fa_compensation_decision env (fc_player_id rec) st) = Some row"
    and "fw_players (fs_world (snd (run_transfer_task env today source rec st))) (fd_selected row) = Some x'"
    and "pl_current_team (fq_base x') = fc_original_team rec" and "pl_active_team (fq_base x') = fc_original_team rec"
proof -
  obtain row where row: "fst (kbo_load_latest_fa_compensation_decision env (fc_player_id rec) st) = Some row"
    using assms(1) by (auto simp: run_transfer_task_def split_beta split: option.splits)
  let ?st1 = "snd (kbo_load_latest_fa_compensation_decision env (fc_player_id rec) st)"
  let ?moved = "kbo_transfer_fa_compensation_player_to_original_team rec (fd_selected row) today ?st1"
  let ?w = "fst (kbo_assign_player_to_team_like_ootp (fd_selected row) (fc_original_team rec) (fc_league_id rec) (fs_world ?st1))"
  have m: "fst ?moved" and p: "fd_action row = ''PLAYER''"
    using assms(1) row by (auto simp: run_transfer_task_def split_beta Let_def split: if_splits)
  have w: "fs_world (snd (run_transfer_task env today source rec st)) = fs_world (snd ?moved)
      \<or> fw_players (fs_world (snd (run_transfer_task env today source rec st))) = fw_players (fs_world (snd ?moved))"
    using m p row by (simp add: run_transfer_task_def split_beta Let_def selected_news_world cash_transfer_players)
  obtain x where x: "fw_players (fs_world ?st1) (fd_selected row) = Some x" and o: "fc_original_team rec \<noteq> 0"
    using m by (auto simp: kbo_transfer_fa_compensation_player_to_original_team_def split: if_splits option.splits)
  have "fs_world (snd ?moved) = ?w"
    using m unfolding kbo_transfer_fa_compensation_player_to_original_team_def
    by (auto simp: Let_def transfer_history_world split: if_splits option.splits)
  moreover obtain x' where "fw_players ?w (fd_selected row) = Some x'"
    "pl_current_team (fq_base x') = fc_original_team rec" "pl_active_team (fq_base x') = fc_original_team rec"
    using assigned_player [OF x _ assms(3) o assms(4), of "fc_league_id rec"] assms(2) by (auto simp: latest_decision_world)
  ultimately show thesis using that [OF row] w by auto
qed

text \<open>
  Two free agents of one signing club: once the first claim took the chosen player away, the
  second claim on the same player never moves him, pays nothing and stays where it is.
\<close>

lemma second_claim_is_stuck:
  assumes "fst (run_transfer_task env today source r1 st) = Some s"
    and "fw_teams (fs_world st) (fc_original_team r1) = Some team" and "tm_id team = fc_original_team r1"
    and "tm_parent_team_id team = 0"
    and "fc_signing_team r2 = fc_signing_team r1" and "fc_original_team r1 \<noteq> fc_signing_team r1"
    and "fst (kbo_load_latest_fa_compensation_decision env (fc_player_id r1) st) = Some d1"
    and "fs_world st' = fs_world (snd (run_transfer_task env today source r1 st))"
    and "fst (kbo_load_latest_fa_compensation_decision env (fc_player_id r2) st') = Some d2"
    and "fd_selected d2 = fd_selected d1"
  shows "fst (run_transfer_task env today' source' r2 st') = None
    \<and> fs_world (snd (run_transfer_task env today' source' r2 st')) = fs_world st'
    \<and> books (snd (run_transfer_task env today' source' r2 st')) = books st'"
proof -
  obtain row x' where t: "fst (kbo_load_latest_fa_compensation_decision env (fc_player_id r1) st) = Some row"
    "fw_players (fs_world (snd (run_transfer_task env today source r1 st))) (fd_selected row) = Some x'"
    "pl_current_team (fq_base x') = fc_original_team r1" "pl_active_team (fq_base x') = fc_original_team r1"
    by (rule transfer_task_moved [OF assms(1-4)])
  let ?st1 = "snd (kbo_load_latest_fa_compensation_decision env (fc_player_id r2) st')"
  have "fw_players (fs_world ?st1) (fd_selected d2) = Some x'"
    using t assms(7,8,10) by (simp add: latest_decision_world)
  then have "kbo_transfer_fa_compensation_player_to_original_team r2 (fd_selected d2) today' ?st1 = (False, ?st1)"
    using t(3,4) assms(5,6)
    by (simp add: kbo_transfer_fa_compensation_player_to_original_team_def on_team_def split: option.split)
  then show ?thesis
    using assms(9) by (simp add: run_transfer_task_def split_beta Let_def latest_decision_world fa_frame)
qed

section \<open>The decisions of the user\<close>

text \<open>The reader gives the first 128 rows of a file that only grows: a later list is out of reach.\<close>

lemma manual_choice_sees_128_rows:
  assumes "\<forall>d \<in> set (take PROTECTED_LIST_MAX (filter (\<lambda>d. dr_fa_player d \<noteq> 0 \<and> dr_player d \<noteq> 0) (fs_debug st))).
      dr_fa_player d \<noteq> fa_player"
  shows "\<not> fst (kbo_manual_select_fa_compensation_player env fa_player selected source st)"
proof -
  have d: "fs_debug (snd (kbo_load_fa_compensation_records env st)) = fs_debug st"
    by (simp add: kbo_load_fa_compensation_records_def run_statement_def)
  have n: "unprotected_rows fa_player (fst (kbo_load_fa_compensation_protection_debug_rows env PROTECTED_LIST_MAX
      (snd (kbo_load_fa_compensation_records env st)))) = []"
    using assms by (auto simp: unprotected_rows_def kbo_load_fa_compensation_protection_debug_rows_def run_statement_def d
        filter_empty_conv)
  show ?thesis
    by (simp add: kbo_manual_select_fa_compensation_player_def split_beta Let_def n selected_row_def split: option.split)
qed

text \<open>An obligation that was settled with money can be opened again and is then settled with a player too.\<close>

lemma settled_cash_is_reopened:
  assumes ok: "\<forall>n. fe_ok env n" and l: "ledger_ok (fs_records st)"
    and i: "record_of_player (fc_player_id r) (sort_key record_order (fs_records st)) = Some i"
    and r: "sort_key record_order (fs_records st) ! i = r" "fc_requires_player r" "fc_protect_count r \<noteq> 0"
      "fc_status r = CASH_ONLY_RECORDED"
    and sel: "selected_row p (unprotected_rows (fc_player_id r) (take PROTECTED_LIST_MAX
        (filter (\<lambda>d. dr_fa_player d \<noteq> 0 \<and> dr_player d \<noteq> 0) (fs_debug st)))) = Some c"
      "pc_player_id c \<noteq> 0" "p \<noteq> 0" "sql_text 224 (pc_name c) = Some name" "sql_text 128 source = Some src"
  shows "fst (kbo_manual_select_fa_compensation_player env (fc_player_id r) p source st)
    \<and> row_map record_key (fs_records (snd (kbo_manual_select_fa_compensation_player env (fc_player_id r) p source st)))
        (record_key r) = Some (r\<lparr>fc_status := PLAYER_SELECTED\<rparr>)"
proof -
  let ?rows = "sort_key record_order (fs_records st)"
  note srt = sort_ledger [OF l]
  have i': "i < length ?rows" using first_index_Some [OF i [unfolded record_of_player_def]] by simp
  then have stor: "storable r" using srt(1) r(1) nth_mem [OF i'] by (auto simp: ledger_ok_def)
  have nz: "fc_player_id r \<noteq> 0" "fc_season r \<noteq> 0" using stor loadable_nonzero by (auto simp: storable_def)
  let ?new = "?rows[i := r\<lparr>fc_status := PLAYER_SELECTED\<rparr>]"
  have okn: "ledger_ok ?new" using srt(1) i' r(1) stor by (intro update_ledger) simp_all
  have load: "kbo_load_fa_compensation_records env st = (?rows, st\<lparr>fs_clock := fs_clock st + 1\<rparr>)"
    using ok by (simp add: kbo_load_fa_compensation_records_def run_statement_def load_ledger [OF l])
  have act: "sql_text 64 ''PLAYER'' = Some ''PLAYER''" by code_simp
  have neq: "CASH_ONLY_RECORDED \<noteq> PLAYER_TRANSFERRED" by (simp add: fa_status_defs)
  obtain st3 where out: "kbo_manual_select_fa_compensation_player env (fc_player_id r) p source st
      = (True, snd (kbo_persist_fa_compensation_records env ?new st3))"
    using ok i r sel stor nz act neq
    by (simp add: kbo_manual_select_fa_compensation_player_def load split_beta Let_def
        kbo_load_fa_compensation_protection_debug_rows_def run_statement_def
        kbo_persist_fa_compensation_player_decision_def kbo_fa_compensation_decisions_sql_append_row_def storable_def)
  have "distinct (map record_key ?new)" "r\<lparr>fc_status := PLAYER_SELECTED\<rparr> \<in> set ?new"
    using okn i' by (simp_all add: ledger_ok_def set_update_memI)
  then have "row_map record_key ?new (record_key r) = Some (r\<lparr>fc_status := PLAYER_SELECTED\<rparr>)"
    by (simp add: row_map_iff)
  then show ?thesis unfolding out using ok persist_ledger [OF okn, of env st3] by simp
qed

end
