(* ===== verification/FaDemo.thy ===== *)
theory FaDemo
  imports FaProtProps
begin

text \<open>
  A club (2) that signed the free agents of two other clubs (1 and 3), and the properties of the
  compensation at this example.
\<close>

definition demo_pitcher :: "int \<Rightarrow> fa_player" where
  "demo_pitcher v = \<lparr>fq_base = \<lparr>pl_nation = 177, pl_current_team = 2, pl_active_team = 2, pl_loan_team = 0, pl_original_team = 2,
      pl_default_team = 2, pl_current_league = 200, pl_original_league = 200, pl_draft_league = 200, pl_restricted = 0,
      pl_secondary_restricted = 0, pl_dfa = 0, pl_contract_level = 1, pl_overall_value = v, pl_talent_value = v,
      pl_ratings_value = v, pl_career_value = v\<rparr>,
     fq_age = 27, fq_role = 1, fq_retired = 0, fq_military = 0, fq_salary = 50000000, fq_draft_class = 0,
     fq_draft_subtype = 0, fq_draft_extra = 0, fq_generation_context = 0, fq_status = 0, fq_name = ''Kim''\<rparr>"

definition demo_fa_team :: "u32 \<Rightarrow> team_row" where
  "demo_fa_team i = \<lparr>tm_id = i, tm_league_id = 200, tm_parent_team_id = 0, tm_arrays = (\<lambda>_. [0, 0])\<rparr>"

definition demo_finances :: financials where
  "demo_finances = \<lparr>fi_budget = 0, fi_scouting_budget = 0, fi_development_budget = 0, fi_draft_budget = 0,
     fi_draft_expenses = 0, fi_cash = 1000000\<rparr>"

definition demo_fa_world :: fa_world where
  "demo_fa_world = \<lparr>fw_vector = Some (4096, [11, 12]), fw_players = [11 \<mapsto> demo_pitcher 900, 12 \<mapsto> demo_pitcher 700],
     fw_teams = [1 \<mapsto> demo_fa_team 1, 2 \<mapsto> demo_fa_team 2, 3 \<mapsto> demo_fa_team 3],
     fw_finances = [1 \<mapsto> demo_finances, 2 \<mapsto> demo_finances, 3 \<mapsto> demo_finances]\<rparr>"

definition demo_fa_env :: fa_env where
  "demo_fa_env = \<lparr>fe_enabled = True, fe_rules = kbo_fa_rules_init_defaults,
     fe_policy = kbo_fa_compensation_policy_init_once (\<lambda>_ fallback _ _. fallback),
     fe_foreign = kbo_foreign_player_policy (\<lambda>_ _. None) \<lparr>pf_scoped = None, pf_global = None\<rparr>,
     fe_latest = Some 20251120, fe_ok = (\<lambda>_. True), fe_optimizer_enabled = True,
     fe_optimizer = (\<lambda>_ _. Some [11, 12]),
     fe_filing = (\<lambda>_. None), fe_league_year = (\<lambda>_. 2025),
     fe_market = (\<lambda>player _ _ _. Some \<lparr>mk_player_id = player, mk_original_team = 1, mk_case_label = ''KBO_FA_APPROVED'',
       mk_grade = ''A'', mk_salary = 100000, mk_foreign = False, mk_name = ''Lee''\<rparr>),
     fe_live_team = (\<lambda>_. True)\<rparr>"

definition demo_obligation :: "u32 \<Rightarrow> u32 \<Rightarrow> u8 \<Rightarrow> fa_record" where
  "demo_obligation player original status = \<lparr>fc_player_id = player, fc_signed_on = 20251110, fc_season = 2025,
     fc_league_id = 200, fc_original_team = original, fc_signing_team = 2, fc_grade = ''A'', fc_previous_salary = 100000,
     fc_cash_with_player = 200000, fc_cash_only = 300000, fc_protect_count = 1, fc_requires_player = True,
     fc_status = status, fc_case_label = ''KBO_FA_APPROVED'', fc_player_name = ''Lee'', fc_source = ''demo''\<rparr>"

definition demo_fa_state :: "fa_record list \<Rightarrow> fa_state" where
  "demo_fa_state records = \<lparr>fs_records = records, fs_decisions = [], fs_lists = [], fs_transfers = [], fs_debug = [],
     fs_world = demo_fa_world, fs_protection = initial_protection, fs_processing = False, fs_clock = 0, fs_events = []\<rparr>"

lemma demo_vector: "readable_vector demo_fa_world = Some (4096, [11, 12])"
  by (simp add: readable_vector_def demo_fa_world_def MAX_PLAYER_VECTOR_COUNT_def)

lemma no_team_cached: "find (entry_for rec base n) (ps_teams initial_protection) = None"
  by (simp add: find_None_iff initial_protection_def entry_for_def)

text \<open>The scan of the two players of the club, whatever the policies say about their scores.\<close>

lemma demo_scan:
  obtains x y where "fst (snd (scan_candidates pol fpol demo_fa_world (demo_obligation f o' s) [11, 12] (cache, [], []))) = [x, y]"
    and "pc_player_id x = 11" and "pc_player_id y = 12"
proof -
  have reason: "kbo_fa_base_auto_protected_reason pol (demo_pitcher v) (demo_obligation f o' s) = None" for v
    by (simp add: kbo_fa_base_auto_protected_reason_def kbo_player_is_foreign_for_kbo_rights_def
        kbo_fa_compensation_player_is_rookie_auto_protected_def demo_pitcher_def KOREA_NATION_ID_def)
  have on: "on_team (fc_signing_team (demo_obligation f o' s)) (demo_pitcher v)" "fq_retired (demo_pitcher v) = 0" for v
    by (simp_all add: on_team_def demo_obligation_def demo_pitcher_def)
  have w: "fw_players demo_fa_world 11 = Some (demo_pitcher 900)" "fw_players demo_fa_world 12 = Some (demo_pitcher 700)"
    by (simp_all add: demo_fa_world_def)
  have max: "0 < TEAM_CACHE_CANDIDATE_MAX" "\<not> TEAM_CACHE_CANDIDATE_MAX \<le> Suc 0"
    by (simp_all add: TEAM_CACHE_CANDIDATE_MAX_def PROTECTED_LIST_MAX_def)
  have t: "pl_current_team (fq_base (demo_pitcher v)) = 2" for v by (simp add: demo_pitcher_def)
  have "map pc_player_id (fst (snd (scan_candidates pol fpol demo_fa_world (demo_obligation f o' s) [11, 12] (cache, [], []))))
      = [11, 12]"
    by (simp add: w on reason max t split_beta Let_def fill_id)
  then show thesis using that by (auto simp: map_eq_Cons_conv)
qed

lemma sort_two: "sort_candidates [x, y] \<in> {[x, y], [y, x]}"
  by (simp add: sort_candidates_def)

lemma demo_candidates:
  assumes "f \<noteq> 11" and "f \<noteq> 12"
  obtains x y where "fst (snd (kbo_build_fa_compensation_protected_candidates pol fpol demo_fa_world (demo_obligation f o' s)
      PROTECTED_LIST_MAX PROTECTED_LIST_MAX initial_protection)) \<in> {[x, y], [y, x]}"
    and "pc_player_id x = 11" and "pc_player_id y = 12"
proof -
  let ?rec = "demo_obligation f o' s"
  let ?scan = "scan_candidates pol fpol demo_fa_world ?rec [11, 12] (ps_roles initial_protection, [], [])"
  obtain x y where s: "fst (snd ?scan) = [x, y]" and xy: "pc_player_id x = 11" "pc_player_id y = 12" by (rule demo_scan)
  have m: "fst (kbo_fa_materialize_protection_candidates ?rec cs autos PROTECTED_LIST_MAX PROTECTED_LIST_MAX) = cs"
    if "cs \<in> {[x, y], [y, x]}" for cs autos
    using that xy assms by (auto simp: kbo_fa_materialize_protection_candidates_def Let_def split_beta
        PROTECTED_LIST_MAX_def demo_obligation_def)
  have "fst (snd (kbo_build_fa_compensation_protected_candidates pol fpol demo_fa_world ?rec
      PROTECTED_LIST_MAX PROTECTED_LIST_MAX initial_protection))
    = fst (kbo_fa_materialize_protection_candidates ?rec (sort_candidates [x, y]) (snd (snd ?scan)) PROTECTED_LIST_MAX PROTECTED_LIST_MAX)"
    using s by (simp add: kbo_build_fa_compensation_protected_candidates_def demo_vector split_beta Let_def
        kbo_fa_try_materialize_cached_protection_candidates_def no_team_cached PROTECTED_LIST_MAX_def demo_obligation_def)
  then show thesis using that [of x y] m [OF sort_two] sort_two [of x y] xy by simp
qed

theorem compensation_player_is_first_unprotected_witness:
  "\<exists>cands ordered cache' c n.
     mset ordered = mset cands \<and> map pc_player_id ordered = [11, 12] \<and> pc_player_id c = 12
     \<and> kbo_select_fa_compensation_player_from_candidates (fe_policy demo_fa_env) (fe_foreign demo_fa_env) demo_fa_world
         (demo_obligation 101 1 PENDING) ordered (ps_roles initial_protection) = (cache', Some c, n)
     \<and> can_be_taken (fe_policy demo_fa_env) demo_fa_world (demo_obligation 101 1 PENDING) 12"
proof -
  let ?rec = "demo_obligation 101 1 PENDING"
  let ?st = "demo_fa_state []"
  define cands where "cands = fst (snd (kbo_build_fa_compensation_protected_candidates (fe_policy demo_fa_env)
    (fe_foreign demo_fa_env) (fs_world ?st) ?rec PROTECTED_LIST_MAX PROTECTED_LIST_MAX (fs_protection ?st)))"
  have st: "fs_world ?st = demo_fa_world" "fs_protection ?st = initial_protection" by (simp_all add: demo_fa_state_def)
  obtain x y where xy: "pc_player_id x = 11" "pc_player_id y = 12" and c: "cands \<in> {[x, y], [y, x]}"
  proof (rule demo_candidates [of 101 "fe_policy demo_fa_env" "fe_foreign demo_fa_env" 1 PENDING])
    fix x y
    assume "fst (snd (kbo_build_fa_compensation_protected_candidates (fe_policy demo_fa_env) (fe_foreign demo_fa_env)
        demo_fa_world ?rec PROTECTED_LIST_MAX PROTECTED_LIST_MAX initial_protection)) \<in> {[x, y], [y, x]}"
      and "pc_player_id x = 11" and "pc_player_id y = 12"
    then show thesis by (intro that [of x y]) (simp_all only: cands_def st)
  qed simp_all
  have o: "fst (kbo_fa_compensation_apply_ortools_order demo_fa_env ?rec cands ?st) = Some [x, y]"
    using c xy by (auto simp: kbo_fa_compensation_apply_ortools_order_def demo_fa_env_def demo_obligation_def
        Let_def split_beta)
  obtain cache' c n where s: "kbo_select_fa_compensation_player_from_candidates (fe_policy demo_fa_env)
      (fe_foreign demo_fa_env) demo_fa_world ?rec [x, y] (ps_roles initial_protection) = (cache', Some c, n)"
    "pc_player_id c = 12"
    using xy by (simp add: kbo_select_fa_compensation_player_from_candidates_def demo_obligation_def Let_def split_beta)
  have "mset [x, y] = mset cands
    \<and> pc_player_id c = pc_player_id ([x, y] ! nat (sint (fc_protect_count ?rec)))
    \<and> (distinct (map pc_player_id cands) \<longrightarrow>
        pc_player_id c \<notin> pc_player_id ` set (take (nat (sint (fc_protect_count ?rec))) [x, y]))
    \<and> can_be_taken (fe_policy demo_fa_env) (fs_world ?st) ?rec (pc_player_id c) \<and> pc_player_id c \<noteq> fc_player_id ?rec"
    by (rule compensation_player_is_first_unprotected [OF _ _ cands_def o s(1)])
      (simp_all add: st demo_vector no_team_cached)
  then show ?thesis using s xy st by (intro exI [of _ cands] exI [of _ "[x, y]"] exI [of _ cache'] exI [of _ c] exI [of _ n]) simp
qed

lemma demo_ledger:
  "ledger_ok [demo_obligation 101 1 PLAYER_SELECTED, demo_obligation 102 3 CASH_ONLY_SELECTED]"
  "\<forall>r \<in> set [demo_obligation 101 1 PLAYER_SELECTED, demo_obligation 102 3 CASH_ONLY_SELECTED]. moderate r"
  "plain_source ''demo''"
  by code_simp+

theorem due_run_refines_obligation_machine_witness:
  "ledger_ok (fs_records (snd (kbo_process_due_fa_compensation_protected_lists_for_date demo_fa_env 20251120 ''demo''
       (demo_fa_state [demo_obligation 101 1 PLAYER_SELECTED, demo_obligation 102 3 CASH_ONLY_SELECTED]))))"
  using due_run_refines_obligation_machine [OF _ refl] demo_ledger(1) by (simp add: demo_fa_state_def)

theorem due_run_books_every_payment_witness:
  "\<exists>new. fs_transfers (snd (kbo_process_due_fa_compensation_protected_lists_for_date demo_fa_env 20251120 ''demo''
       (demo_fa_state [demo_obligation 101 1 PLAYER_SELECTED, demo_obligation 102 3 CASH_ONLY_SELECTED]))) = new
     \<and> distinct (map transfer_key new)"
  using due_run_books_every_payment [OF _ _ _ _ refl, of "demo_fa_state [demo_obligation 101 1 PLAYER_SELECTED,
      demo_obligation 102 3 CASH_ONLY_SELECTED]" demo_fa_env "''demo''" 20251120] demo_ledger
  by (auto simp: demo_fa_state_def demo_fa_env_def)

end
