(* ===== verification/FaSigning.thy ===== *)
theory FaSigning
  imports FaDemo
begin

text \<open>
  What a signing does to the ledger of the obligations: \<open>keyed_store\<close> states what the program
  relies on of \<open>INSERT OR REPLACE\<close>, and the table of the model provides it.
\<close>

locale keyed_store =
  fixes ins :: "'r \<Rightarrow> 't \<Rightarrow> 't" and look :: "'t \<Rightarrow> 'k \<Rightarrow> 'r option" and key :: "'r \<Rightarrow> 'k"
  assumes look_ins: "look (ins r t) = (look t)(key r \<mapsto> r)"
begin

lemma look_other: "k \<noteq> key r \<Longrightarrow> look (ins r t) k = look t k"
  by (simp add: look_ins)

lemma ins_again: "look (ins r (ins r t)) = look (ins r t)"
  by (simp add: look_ins)

lemma ins_commute: "key r \<noteq> key s \<Longrightarrow> look (ins r (ins s t)) = look (ins s (ins r t))"
  by (simp add: look_ins fun_upd_twist)

lemma ins_all: "look (foldl (\<lambda>t r. ins r t) t rs) k = (case find (\<lambda>r. key r = k) (rev rs) of Some r \<Rightarrow> Some r | None \<Rightarrow> look t k)"
  by (induction rs arbitrary: t rule: rev_induct) (auto simp: look_ins)

end

lemma row_map_insert: "row_map record_key (replace_record r t) = (row_map record_key t)(record_key r \<mapsto> r)"
proof (rule ext)
  fix k
  have "row_map record_key (filter (\<lambda>x. record_key x \<noteq> record_key r) t) k
      = (if k = record_key r then None else row_map record_key t k)"
    by (induction t) auto
  then show "row_map record_key (replace_record r t) k = ((row_map record_key t)(record_key r \<mapsto> r)) k"
    by (simp add: replace_record_def row_map_append map_add_def split: option.split)
qed

interpretation ledger: keyed_store replace_record "row_map record_key" record_key
  by unfold_locales (rule row_map_insert)

lemma existing_None:
  "kbo_fa_compensation_find_existing rows p s o' t = None \<Longrightarrow> p \<noteq> 0 \<Longrightarrow> s \<noteq> 0 \<Longrightarrow> row_map record_key rows (p, s, o', t) = None"
  by (auto simp: kbo_fa_compensation_find_existing_def first_index_None row_map_None)

lemma append_record_True:
  assumes "fst (kbo_append_fa_compensation_record env r st)"
  obtains r' where "fs_records (snd (kbo_append_fa_compensation_record env r st)) = replace_record r' (fs_records st)"
    and "fc_player_id r \<noteq> 0" and "fc_season r \<noteq> 0" and "record_key r' = record_key r"
    and "fc_status r' = fc_status r" and "fc_cash_only r' = fc_cash_only r"
    and "fc_requires_player r' = fc_requires_player r" and "fc_signed_on r' = fc_signed_on r"
  using assms
  by (auto simp: kbo_append_fa_compensation_record_def kbo_fa_compensation_records_sql_append_row_def run_statement_def
      record_key_def Let_def split: if_splits option.splits)

lemma history_frame [fa_frame]: "fs_records (kbo_fa_compensation_record_history r st) = fs_records st"
  by (simp add: kbo_fa_compensation_record_history_def fa_frame)

lemma obligation_news_frame [fa_frame]: "fs_records (kbo_emit_fa_compensation_obligation_news r d n st) = fs_records st"
  by (simp add: kbo_emit_fa_compensation_obligation_news_def fa_frame)

lemma cash_only_news_frame [fa_frame]: "fs_records (kbo_emit_fa_compensation_cash_only_news r d st) = fs_records st"
  by (simp add: kbo_emit_fa_compensation_cash_only_news_def fa_frame)

text \<open>The record a successful signing appends, and that it was appended.\<close>

lemma signing_record:
  assumes "fst (kbo_record_fa_compensation_signing env player team league source st)"
  obtains r where "fst (kbo_append_fa_compensation_record env r (snd (kbo_load_fa_compensation_records env st)))"
    and "kbo_fa_compensation_find_existing (fst (kbo_load_fa_compensation_records env st)) (fc_player_id r) (fc_season r)
      (fc_original_team r) (fc_signing_team r) = None"
    and "fs_records (snd (kbo_record_fa_compensation_signing env player team league source st))
      = fs_records (snd (kbo_append_fa_compensation_record env r (snd (kbo_load_fa_compensation_records env st))))"
    and "fc_status r = PENDING" and "fc_signing_team r = team" and "fc_original_team r \<noteq> 0" and "fc_original_team r \<noteq> team"
    and "fc_cash_only r \<noteq> 0" and "fe_enabled env"
proof -
  show thesis
    using assms that unfolding kbo_record_fa_compensation_signing_def split_beta Let_def
    by (auto simp: fa_frame split: if_splits option.splits prod.splits)
qed

text \<open>
  C18: a signing opens exactly one obligation.  When the ledger could be read and the signing is
  recorded, the ledger gains one pending record under a key it did not have, between two different
  clubs and with an amount to pay, and every other record is as before.
\<close>

theorem signing_opens_one_obligation:
  assumes "ledger_ok (fs_records st)" and "fe_ok env (fs_clock st)"
    and "fst (kbo_record_fa_compensation_signing env player team league source st)"
  shows "\<exists>r. fc_status r = PENDING \<and> fc_signing_team r = team \<and> fc_original_team r \<notin> {0, team} \<and> fc_cash_only r \<noteq> 0
    \<and> row_map record_key (fs_records st) (record_key r) = None
    \<and> row_map record_key (fs_records (snd (kbo_record_fa_compensation_signing env player team league source st)))
      = (row_map record_key (fs_records st))(record_key r \<mapsto> r)"
proof -
  let ?load = "kbo_load_fa_compensation_records env st"
  obtain r where a: "fst (kbo_append_fa_compensation_record env r (snd ?load))"
    and n: "kbo_fa_compensation_find_existing (fst ?load) (fc_player_id r) (fc_season r) (fc_original_team r)
      (fc_signing_team r) = None"
    and s: "fs_records (snd (kbo_record_fa_compensation_signing env player team league source st))
      = fs_records (snd (kbo_append_fa_compensation_record env r (snd ?load)))"
    and r: "fc_status r = PENDING" "fc_signing_team r = team" "fc_original_team r \<noteq> 0" "fc_original_team r \<noteq> team" "fc_cash_only r \<noteq> 0"
    by (rule signing_record [OF assms(3)])
  obtain r' where t: "fs_records (snd (kbo_append_fa_compensation_record env r (snd ?load)))
      = replace_record r' (fs_records (snd ?load))" "fc_player_id r \<noteq> 0" "fc_season r \<noteq> 0"
    "record_key r' = record_key r" "fc_status r' = fc_status r" "fc_cash_only r' = fc_cash_only r"
    by (rule append_record_True [OF a])
  have rows: "fst ?load = sort_key record_order (fs_records st)"
    using assms(2) by (simp add: kbo_load_fa_compensation_records_def run_statement_def load_ledger [OF assms(1)])
  have "row_map record_key (fst ?load) (record_key r) = None"
    using existing_None [OF n t(2,3)] by (simp add: record_key_def)
  then have new: "row_map record_key (fs_records st) (record_key r') = None"
    using sort_ledger(2) [OF assms(1)] by (simp only: rows t(4))
  have "row_map record_key (fs_records (snd (kbo_record_fa_compensation_signing env player team league source st)))
      = (row_map record_key (fs_records st))(record_key r' \<mapsto> r')"
    by (simp only: s t(1) ledger.look_ins fa_frame)
  moreover have "fc_signing_team r' = team" "fc_original_team r' \<notin> {0, team}"
    using t(4) r by (simp_all add: record_key_def)
  ultimately show ?thesis using new t(5,6) r by (intro exI [of _ r']) simp
qed

theorem signing_opens_one_obligation_witness:
  "\<exists>r. fc_status r = PENDING \<and> row_map record_key (fs_records (snd (kbo_record_fa_compensation_signing demo_fa_env 11 2 200
     ''demo'' (demo_fa_state [])))) = [record_key r \<mapsto> r]"
proof -
  have s: "signing_context demo_fa_env 11 200 = Some (0, 200, 2025, 20251120)"
    by (simp add: signing_context_def demo_fa_env_def plausible_season_def KBO_SEASON_YEAR_MIN_def KBO_RECORD_YEAR_MAX_def)
  have g: "kbo_fa_rules_case_is_compensable kbo_fa_rules_init_defaults ''KBO_FA_APPROVED''"
    "kbo_fa_rules_grade_is_compensable kbo_fa_rules_init_defaults ''A''"
    "cp_cash_only (kbo_fa_rules_calculate_compensation kbo_fa_rules_init_defaults ''A'' 100000) \<noteq> 0"
    by code_simp+
  have t: "sql_text 48 ''A'' = Some ''A''" "sql_text 128 ''KBO_FA_APPROVED'' = Some ''KBO_FA_APPROVED''"
    "sql_text 224 ''Lee'' = Some ''Lee''" "sql_text 128 ''demo'' = Some ''demo''" "strbuf 12 ''A'' = ''A''" "strbuf 48 ''KBO_FA_APPROVED'' = ''KBO_FA_APPROVED''"
    "strbuf 96 ''Lee'' = ''Lee''" "strbuf 48 ''demo'' = ''demo''"
    by code_simp+
  have l: "kbo_load_fa_compensation_records demo_fa_env (demo_fa_state []) = ([], (demo_fa_state [])\<lparr>fs_clock := 1\<rparr>)"
    by (simp add: kbo_load_fa_compensation_records_def run_statement_def demo_fa_state_def demo_fa_env_def
        kbo_fa_compensation_records_sql_load_def)
  have d: "fe_enabled demo_fa_env" "fe_rules demo_fa_env = kbo_fa_rules_init_defaults" "fe_ok demo_fa_env n"
    "fe_market demo_fa_env 11 200 2025 20251120 = Some \<lparr>mk_player_id = 11, mk_original_team = 1,
       mk_case_label = ''KBO_FA_APPROVED'', mk_grade = ''A'', mk_salary = 100000, mk_foreign = False, mk_name = ''Lee''\<rparr>"
    "fw_players (fs_world (demo_fa_state [])) 11 = Some (demo_pitcher 900)"
    "\<not> kbo_player_is_foreign_for_kbo_rights (fq_base (demo_pitcher 900))" for n
    by (simp_all add: demo_fa_env_def demo_fa_state_def demo_fa_world_def demo_pitcher_def
        kbo_player_is_foreign_for_kbo_rights_def KOREA_NATION_ID_def)
  have "fst (kbo_record_fa_compensation_signing demo_fa_env 11 2 200 ''demo'' (demo_fa_state []))"
    using g t d
    by (simp add: kbo_record_fa_compensation_signing_def s l kbo_fa_compensation_find_existing_def FA_COMPENSATION_MAX_def
        kbo_append_fa_compensation_record_def kbo_fa_compensation_records_sql_append_row_def run_statement_def Let_def
        split_beta split: option.split)
  then show ?thesis
    using signing_opens_one_obligation [of "demo_fa_state []" demo_fa_env 11 2 200 "''demo''"] d(3)
    by (auto simp: demo_fa_state_def ledger_ok_def)
qed

end
