(* ===== verification/MilitaryDate.thy ===== *)
theory MilitaryDate
  imports WaiverDate
begin

text \<open>
  The dates of the military service: the calendar helpers of
  \<open>native/src/military_service/seed/parse/military_service_seed_parse.c\<close>, a third implementation
  of date arithmetic, which walks from an estimate of the year.  Its first loop has no bound of
  its own, so \<open>year_up\<close> is a partial function: \<open>None\<close> is the walk that does not end.  The lemmas
  show that it ends for every serial of a date whose packed form fits 32 bits, and that the
  serials are read back.
\<close>

section \<open>Operations\<close>

definition kbo_military_yyyymmdd_to_serial :: "u32 \<Rightarrow> u32" where
  "kbo_military_yyyymmdd_to_serial yyyymmdd =
     (if yyyymmdd = 0 then 0
      else kbo_date_serial (yyyymmdd div 10000) ((yyyymmdd div 100) mod 100) (yyyymmdd mod 100))"

definition kbo_military_days_in_month :: "u32 \<Rightarrow> u32 \<Rightarrow> u32" where
  "kbo_military_days_in_month year month =
     (if month < 1 \<or> month > 12 then 0
      else if month = 2 \<and> kbo_is_leap_year year then 29
      else days_by_month ! unat (month - 1))"

partial_function (option) year_up :: "u32 \<Rightarrow> u32 \<Rightarrow> u32 option" where
  "year_up serial year =
     (if kbo_date_serial (year + 1) 1 1 \<le> serial then year_up serial (year + 1) else Some year)"

function year_down :: "u32 \<Rightarrow> u32 \<Rightarrow> u32" where
  "year_down serial year =
     (if year > 1 \<and> kbo_date_serial year 1 1 > serial then year_down serial (year - 1) else year)"
  by pat_completeness auto
termination
  by (relation "measure (\<lambda>(serial, year). unat year)") (auto simp: unat_pred_u32 word_order_unat)

declare year_down.simps [simp del]

text \<open>
  The loop over the months; the case of month 12 in its body is not reached, since it stops there.
\<close>

function month_up :: "u32 \<Rightarrow> u32 \<Rightarrow> nat \<Rightarrow> nat" where
  "month_up serial year month =
     (if month < 12
      then if kbo_date_serial year (of_nat (month + 1)) 1 > serial then month
           else month_up serial year (month + 1)
      else month)"
  by pat_completeness auto
termination
  by (relation "measure (\<lambda>(serial, year, month). 12 - month)") auto

declare month_up.simps [simp del]

definition day_in_month :: "u32 \<Rightarrow> u32 \<Rightarrow> u32 \<Rightarrow> u32" where
  "day_in_month serial year month =
     (let month_start = kbo_date_serial year month 1;
          day = (if serial \<ge> month_start then serial - month_start + 1 else 1);
          month_days = kbo_military_days_in_month year month
      in if month_days \<noteq> 0 \<and> day > month_days then month_days else day)"

definition kbo_military_serial_to_yyyymmdd :: "u32 \<Rightarrow> u32 option" where
  "kbo_military_serial_to_yyyymmdd serial =
     (if serial = 0 then Some 0
      else case year_up serial (serial div 366 + 1) of
          None \<Rightarrow> None
        | Some up \<Rightarrow>
            let year = year_down serial up;
                month = of_nat (month_up serial year 1)
            in Some (year * 10000 + month * 100 + day_in_month serial year month))"

definition kbo_military_yyyymmdd_add_days :: "u32 \<Rightarrow> int \<Rightarrow> u32 option" where
  "kbo_military_yyyymmdd_add_days yyyymmdd days =
     (let serial = kbo_military_yyyymmdd_to_serial yyyymmdd
      in if serial = 0 \<or> days < 0 then Some 0
         else kbo_military_serial_to_yyyymmdd (serial + word_of_int days))"

definition kbo_military_days_left_from_return_serial :: "u32 \<Rightarrow> u32 \<Rightarrow> int" where
  "kbo_military_days_left_from_return_serial return_serial today_serial =
     (if return_serial = 0 \<or> today_serial = 0 \<or> return_serial \<le> today_serial then 0
      else let diff = return_serial - today_serial
           in if diff > 32767 then 32767 else uint diff)"

section \<open>The loops\<close>

lemma first_day:
  assumes "1 \<le> y" and "y \<le> 429496"
  shows "unat (kbo_date_serial (of_nat y) 1 1) = days_to_year y + 1"
  using assms
  by (subst kbo_date_serial_refines)
    (simp_all add: unat_of_nat real_date_def month_len_def day_number_def
      days_to_month_table [unfolded One_nat_def])

lemma year_up_spec:
  assumes "days_to_year y < unat s" and "unat s \<le> days_to_year (Suc y)"
    and "1 \<le> k" and "k \<le> y" and "y < 429496"
  shows "year_up s (of_nat k) = Some (of_nat y)"
  using assms(3,4)
proof (induction "y - k" arbitrary: k)
  case 0
  then have "k = y" by simp
  moreover have "\<not> kbo_date_serial (of_nat (Suc y)) 1 1 \<le> s"
    using first_day [of "Suc y"] assms by (simp add: word_order_unat)
  ultimately show ?case by (subst year_up.simps) (simp add: add.commute)
next
  case (Suc n)
  have "days_to_year (Suc k) \<le> days_to_year y" using Suc by (intro days_to_year_mono) simp
  then have "kbo_date_serial (of_nat (Suc k)) 1 1 \<le> s"
    using first_day [of "Suc k"] Suc assms by (simp add: word_order_unat)
  moreover have "year_up s (of_nat (Suc k)) = Some (of_nat y)" using Suc by (intro Suc.hyps(1)) auto
  ultimately show ?case by (subst year_up.simps) (simp add: add.commute)
qed

lemma year_down_stays:
  assumes "days_to_year y < unat s" and "1 \<le> y" and "y \<le> 429496"
  shows "year_down s (of_nat y) = of_nat y"
proof -
  have "\<not> kbo_date_serial (of_nat y) 1 1 > s"
    using first_day [of y] assms by (simp add: word_order_unat)
  then show ?thesis by (subst year_down.simps) simp
qed

lemma month_first_day:
  assumes "1 \<le> y" and "y \<le> 429496" and "1 \<le> m" and "m \<le> 12"
  shows "unat (kbo_date_serial (of_nat y) (of_nat m) 1) = days_to_year y + days_to_month y m + 1"
proof -
  have "1 \<le> month_len y m" using month_len_pos [of y m] by simp
  then show ?thesis
    using assms by (subst kbo_date_serial_refines) (simp_all add: unat_of_nat real_date_def day_number_def)
qed

lemma month_up_spec:
  assumes "real_date y m d" and "y \<le> 429496" and "unat s = day_number y m d"
    and "1 \<le> k" and "k \<le> m"
  shows "month_up s (of_nat y) k = m"
  using assms(4,5)
proof (induction "m - k" arbitrary: k)
  case 0
  have y: "1 \<le> y" "1 \<le> m" "m \<le> 12" using assms(1) by (auto simp: real_date_def)
  have "k = m" using 0 by simp
  moreover have "kbo_date_serial (of_nat y) (of_nat (m + 1)) 1 > s" if "m < 12"
    using month_first_day [of y "m + 1"] that y assms real_date_month_end [OF assms(1), of "m + 1"]
    by (simp add: word_order_unat day_number_def)
  ultimately show ?case using y by (subst month_up.simps) auto
next
  case (Suc n)
  have y: "1 \<le> y" "1 \<le> m" "m \<le> 12" "1 \<le> d" using assms(1) by (auto simp: real_date_def)
  have "days_to_month y (k + 1) \<le> days_to_month y m" using Suc by (intro days_to_month_mono) simp
  then have "\<not> kbo_date_serial (of_nat y) (of_nat (k + 1)) 1 > s"
    using month_first_day [of y "k + 1"] Suc y assms by (simp add: word_order_unat day_number_def)
  moreover have "month_up s (of_nat y) (k + 1) = m" using Suc by (intro Suc.hyps(1)) auto
  ultimately show ?case using Suc y by (subst month_up.simps) simp
qed

lemma military_days_in_month_refines:
  assumes "1 \<le> m" and "m \<le> 12" and "y \<le> 429496"
  shows "unat (kbo_military_days_in_month (of_nat y) (of_nat m)) = month_len y m"
proof -
  have u: "unat (of_nat m :: u32) = m" "unat (of_nat y :: u32) = y" using assms by (simp_all add: unat_of_nat)
  have m2: "(of_nat m :: u32) = 2 \<longleftrightarrow> m = 2" using u by (simp add: word_eq_unat)
  have p: "unat ((of_nat m :: u32) - 1) = m - 1" using assms u by (subst unat_pred_u32) simp_all
  have "unat (kbo_military_days_in_month (of_nat y) (of_nat m))
      = (if m = 2 \<and> leap y then 29 else unat (days_by_month ! (m - 1)))"
    using assms u by (simp add: kbo_military_days_in_month_def m2 p leap_refines word_order_unat)
  then show ?thesis by (simp only: table_month_len [OF assms(1,2)])
qed

lemma day_in_month_spec:
  assumes r: "real_date y m d" and y: "y \<le> 429496" and s: "unat s = day_number y m d"
  shows "day_in_month s (of_nat y) (of_nat m) = of_nat d"
proof -
  have b: "1 \<le> y" "1 \<le> m" "m \<le> 12" "1 \<le> d" "d \<le> month_len y m" using r by (auto simp: real_date_def)
  let ?first = "kbo_date_serial (of_nat y) (of_nat m) 1"
  let ?len = "kbo_military_days_in_month (of_nat y) (of_nat m)"
  have first: "unat ?first = days_to_year y + days_to_month y m + 1" by (rule month_first_day) (use b y in auto)
  have len: "unat ?len = month_len y m" by (rule military_days_in_month_refines) (use b y in auto)
  have le: "?first \<le> s" using first s b by (simp add: word_order_unat day_number_def)
  have u: "unat (s - ?first) = d - 1" using first s b le by (simp add: unat_sub day_number_def)
  have "d < 4294967296" using b month_len_le [of y m] by simp
  then have "unat (s - ?first + 1) = d" using u b by (subst unat_plus_u32) simp_all
  then have day: "s - ?first + 1 = of_nat d" using \<open>d < 4294967296\<close> by (simp only: word_eq_unat unat_of_nat) simp
  have "\<not> (of_nat d :: u32) > ?len" using len b \<open>d < 4294967296\<close> by (simp add: word_order_unat unat_of_nat)
  then show ?thesis using le day by (simp add: day_in_month_def Let_def)
qed

lemma year_estimate:
  fixes s :: u32
  assumes "days_to_year y < unat s" and "unat s \<le> days_to_year (Suc y)" and "1 \<le> y" and "y < 429496"
  obtains k where "s div 366 + 1 = of_nat k" and "1 \<le> k" and "k \<le> y"
proof
  have lt: "unat s < 366 * y"
    using assms days_to_year_closed [of y] by simp
  moreover have "unat s div 366 < 4294967295" using unat_u32_bound [of s] by simp
  ultimately show "s div 366 + 1 = of_nat (unat s div 366 + 1)"
    by (simp add: word_eq_unat unat_plus_u32 unat_div unat_of_nat)
  show "1 \<le> unat s div 366 + 1" by simp
  show "unat s div 366 + 1 \<le> y" using lt by (simp add: Suc_le_eq div_less_iff_less_mult mult.commute)
qed

section \<open>Reading serials back\<close>

lemma serial_read_back:
  assumes r: "real_date (unat y) (unat m) (unat d)" and y: "unat y < 429496"
  shows "kbo_military_serial_to_yyyymmdd (kbo_date_serial y m d) = Some (y * 10000 + m * 100 + d)"
proof -
  let ?s = "kbo_date_serial y m d"
  let ?y = "unat y" and ?m = "unat m" and ?d = "unat d"
  have b: "1 \<le> ?y" "1 \<le> ?m" "?m \<le> 12" "1 \<le> ?d" using r by (auto simp: real_date_def)
  have s: "unat ?s = day_number ?y ?m ?d" using r y by (simp add: kbo_date_serial_refines)
  have lo: "days_to_year ?y < unat ?s" using s b by (simp add: day_number_def)
  have hi: "unat ?s \<le> days_to_year (Suc ?y)" using real_date_year_end [OF r, of "Suc ?y"] s by simp
  obtain k where k: "?s div 366 + 1 = of_nat k" "1 \<le> k" "k \<le> ?y"
    using year_estimate [OF lo hi b(1) y] .
  have "year_up ?s (?s div 366 + 1) = Some (of_nat ?y)"
    unfolding k by (rule year_up_spec) (use lo hi k y in auto)
  moreover have "year_down ?s (of_nat ?y) = of_nat ?y" by (rule year_down_stays) (use lo b y in auto)
  moreover have "month_up ?s (of_nat ?y) 1 = ?m" by (rule month_up_spec [OF r]) (use s b y in auto)
  moreover have "day_in_month ?s (of_nat ?y) (of_nat ?m) = of_nat ?d"
    by (rule day_in_month_spec [OF r]) (use s y in auto)
  moreover have "?s \<noteq> 0" using lo by auto
  ultimately show ?thesis by (simp add: kbo_military_serial_to_yyyymmdd_def Let_def)
qed

lemma packed_read_back:
  assumes "real_date (year_of p) (month_of p) (day_of p)" and "year_of p < 429496"
  shows "kbo_military_serial_to_yyyymmdd (kbo_military_yyyymmdd_to_serial p) = Some p"
proof -
  have "p \<noteq> 0" using assms(1) by (auto simp: real_date_def year_of_def)
  moreover have "p div 10000 * 10000 + p div 100 mod 100 * 100 + p mod 100 = p"
  proof -
    have "p div 10000 = of_nat (year_of p)" "p div 100 mod 100 = of_nat (month_of p)" "p mod 100 = of_nat (day_of p)"
      by (simp_all only: unat_parts [symmetric] of_nat_unat ucast_id)
    moreover have "of_nat (unat p) = p" by simp
    ultimately show ?thesis unfolding unat_split [of p] by simp
  qed
  ultimately show ?thesis
    using assms serial_read_back [of "p div 10000" "p div 100 mod 100" "p mod 100"]
    by (simp add: kbo_military_yyyymmdd_to_serial_def unat_parts)
qed

text \<open>
  C39: On the dates the tick accepts the military service counts as the core does: its walk over
  the years ends, a serial is read back to its date, and adding days gives the date of the core
  arithmetic whenever that date is not after 2200-12-31.
\<close>

theorem military_dates_agree:
  assumes "kbo_yyyymmdd_valid p" and "kbo_yyyymmdd_add_days p n \<noteq> 0"
  shows "kbo_military_serial_to_yyyymmdd (kbo_military_yyyymmdd_to_serial p) = Some p
    \<and> kbo_military_yyyymmdd_add_days p (uint n) = Some (kbo_yyyymmdd_add_days p n)"
proof
  have read: "kbo_military_serial_to_yyyymmdd (serial_of q) = Some q" if "kbo_yyyymmdd_valid q" for q
    using packed_read_back [of q] that valid_nonzero [OF that]
    by (simp add: valid_iff kbo_military_yyyymmdd_to_serial_def serial_of_def)
  have ser: "kbo_military_yyyymmdd_to_serial p = serial_of p"
    using valid_nonzero [OF assms(1)] by (simp add: kbo_military_yyyymmdd_to_serial_def serial_of_def)
  show "kbo_military_serial_to_yyyymmdd (kbo_military_yyyymmdd_to_serial p) = Some p"
    using read [OF assms(1)] ser by simp
  let ?q = "kbo_yyyymmdd_add_days p n"
  have q: "kbo_yyyymmdd_valid ?q" by (rule add_days_valid [OF assms])
  have "unat (serial_of ?q) = unat (serial_of p) + unat n" by (rule add_days_serial_eq [OF assms])
  then have "serial_of p + n = serial_of ?q"
    using unat_u32_bound [of "serial_of ?q"] by (simp add: word_eq_unat unat_plus_u32)
  moreover have "serial_of p \<noteq> 0" using valid_serial_range [OF assms(1)] by auto
  ultimately show "kbo_military_yyyymmdd_add_days p (uint n) = Some ?q"
    using read [OF q] by (simp add: kbo_military_yyyymmdd_add_days_def ser Let_def)
qed

theorem military_dates_agree_witness:
  "kbo_military_serial_to_yyyymmdd (kbo_military_yyyymmdd_to_serial 20260331) = Some 20260331
    \<and> kbo_military_yyyymmdd_add_days 20260331 (uint (545 :: u32)) = Some 20270927"
proof -
  have a: "kbo_yyyymmdd_add_days 20260331 545 = 20270927" by code_simp
  have v: "kbo_yyyymmdd_valid 20260331" by code_simp
  show ?thesis using military_dates_agree [OF v, of 545] a by simp
qed

end
