(* ===== verification/MilitaryService.thy ===== *)
theory MilitaryService
  imports MilitaryDate FaCompensation
begin

text \<open>
  Players in the military service: \<open>native/src/military_service/players/\<close> (\<open>loans/\<close>, \<open>state/\<close>),
  \<open>seed/registry/lookup/\<close>, \<open>returns/history/\<close> and \<open>calendar/\<close>.

  A serving player is lent to one of the service clubs.  The table \<open>ms_loans\<close> remembers his club
  and the day he returns; its rows are never given back, a finished loan is a row with player 0.
  \<open>ms_world\<close> has the objects of the game, \<open>ms_duties\<close> the fields of a player object that only
  this component uses.  The pointer to a player that the code keeps beside his id is not
  represented: a player is his id.
\<close>

section \<open>The data\<close>

record ms_loan =
  ml_player :: u32
  ml_original_team :: u32
  ml_original_league :: u32
  ml_service_team :: u32
  ml_service_league :: u32
  ml_start :: u32
  ml_return :: u32
  ml_total :: int

record ms_seed =
  se_player :: u32
  se_service_code :: string
  se_original_code :: string
  se_start_on :: u32
  se_return_on :: u32
  se_total :: int

record ms_duty =
  md_loan_league :: u32
  md_loan_active :: u8
  md_loan_cleared :: u8
  md_loan_dirty :: u8
  md_injury_active :: u8
  md_exempt :: u8
  md_days_left :: int
  md_contract_status :: int
  md_contract_start :: u32
  md_later_salaries :: "int list"

datatype ms_event =
    Return_History u32 u32 u32 u32
  | Seed_History u32 u32 u32 u32

record ms_env =
  me_latest :: "u32 option"
  me_service_days :: int
  me_seeds :: "ms_seed list"
  me_team_by_csv :: "string \<Rightarrow> u32 option"
  me_live_team :: "u32 \<Rightarrow> bool"
  me_ok :: "nat \<Rightarrow> bool"
  me_saving :: "nat \<Rightarrow> bool"
  me_league :: u32
  me_enabled :: bool
  me_save_ready :: bool
  me_guard :: bool
  me_save_started :: bool

record ms_state =
  ms_world :: fa_world
  ms_duties :: "u32 \<Rightarrow> ms_duty"
  ms_loans :: "ms_loan list"
  ms_history_keys :: "(u32 \<times> u32) list"
  ms_events :: "ms_event list"
  ms_clock :: nat

definition MAX_SPECIAL_HISTORY_KEYS :: nat where "MAX_SPECIAL_HISTORY_KEYS = 8192"

section \<open>Objects\<close>

definition live_player :: "fa_world \<Rightarrow> u32 \<Rightarrow> fa_player option" where
  "live_player w player_id =
     (case fw_players w player_id of
        None \<Rightarrow> None
      | Some p \<Rightarrow> if player_id > 0 \<and> player_id < 200000000 \<and> fq_age p < 80 then Some p else None)"

definition update_player :: "u32 \<Rightarrow> (fa_player \<Rightarrow> fa_player) \<Rightarrow> ms_state \<Rightarrow> ms_state" where
  "update_player player_id f st =
     st\<lparr>ms_world := (ms_world st)\<lparr>fw_players := (fw_players (ms_world st))(player_id :=
          map_option f (fw_players (ms_world st) player_id))\<rparr>\<rparr>"

definition update_base :: "u32 \<Rightarrow> (player_row \<Rightarrow> player_row) \<Rightarrow> ms_state \<Rightarrow> ms_state" where
  "update_base player_id f st = update_player player_id (\<lambda>p. p\<lparr>fq_base := f (fq_base p)\<rparr>) st"

definition update_duty :: "u32 \<Rightarrow> (ms_duty \<Rightarrow> ms_duty) \<Rightarrow> ms_state \<Rightarrow> ms_state" where
  "update_duty player_id f st = st\<lparr>ms_duties := (ms_duties st)(player_id := f (ms_duties st player_id))\<rparr>"

text \<open>The lookup of a team that is not deleted.\<close>

definition live_team :: "ms_env \<Rightarrow> ms_state \<Rightarrow> u32 \<Rightarrow> team_row option" where
  "live_team env st team_id =
     (if team_id \<noteq> 0 \<and> me_live_team env team_id then fw_teams (ms_world st) team_id else None)"

definition kbo_military_find_team_from_seed_code :: "ms_env \<Rightarrow> ms_state \<Rightarrow> string \<Rightarrow> team_row option" where
  "kbo_military_find_team_from_seed_code env st code =
     (if code = [] then None
      else if is_digit (hd code) then live_team env st (of_nat (fst (strtoul 10 code)))
      else case me_team_by_csv env code of
          None \<Rightarrow> None
        | Some team_id \<Rightarrow> fw_teams (ms_world st) team_id)"

section \<open>Dates and days\<close>

definition kbo_current_date_serial :: "ms_env \<Rightarrow> u32" where
  "kbo_current_date_serial env =
     (case me_latest env of
        None \<Rightarrow> 0
      | Some d \<Rightarrow> kbo_date_serial (d div 10000) ((d div 100) mod 100) (d mod 100))"

definition kbo_military_days_left :: "ms_state \<Rightarrow> u32 \<Rightarrow> int" where
  "kbo_military_days_left st player_id = md_days_left (ms_duties st player_id)"

definition i16 :: "int \<Rightarrow> int" where "i16 n = sint (word_of_int n :: u16)"

definition kbo_set_military_days_left :: "u32 \<Rightarrow> int \<Rightarrow> ms_state \<Rightarrow> ms_state" where
  "kbo_set_military_days_left player_id days_left st =
     update_duty player_id (\<lambda>d. d\<lparr>md_days_left := (if days_left > 0 then i16 days_left else 0)\<rparr>) st"

section \<open>The table of the loans\<close>

definition find_active_kbo_military_loan_index :: "u32 \<Rightarrow> ms_state \<Rightarrow> nat option" where
  "find_active_kbo_military_loan_index player_id st =
     (if player_id = 0 then None
      else first_index (\<lambda>l. ml_player l = player_id) (take MAX_SPECIAL_HISTORY_KEYS (ms_loans st)))"

definition kbo_active_military_loan_at :: "nat \<Rightarrow> ms_state \<Rightarrow> ms_loan option" where
  "kbo_active_military_loan_at index st =
     (if index \<ge> min (length (ms_loans st)) MAX_SPECIAL_HISTORY_KEYS then None
      else if ml_player (ms_loans st ! index) = 0 then None
      else Some (ms_loans st ! index))"

text \<open>The loan of a player, as the callers look it up.\<close>

definition active_loan :: "u32 \<Rightarrow> ms_state \<Rightarrow> (nat \<times> ms_loan) option" where
  "active_loan player_id st =
     (case find_active_kbo_military_loan_index player_id st of
        None \<Rightarrow> None
      | Some i \<Rightarrow> map_option (Pair i) (kbo_active_military_loan_at i st))"

definition put_loan :: "nat \<Rightarrow> ms_loan \<Rightarrow> ms_state \<Rightarrow> ms_state" where
  "put_loan i l st = st\<lparr>ms_loans := (ms_loans st)[i := l]\<rparr>"

definition days_at_registration :: "ms_env \<Rightarrow> u32 \<Rightarrow> ms_state \<Rightarrow> int" where
  "days_at_registration env player_id st =
     (if live_player (ms_world st) player_id \<noteq> None then kbo_military_days_left st player_id
      else me_service_days env)"

definition loan_again ::
    "ms_env \<Rightarrow> u32 \<Rightarrow> u32 \<Rightarrow> u32 \<Rightarrow> u32 \<Rightarrow> int \<Rightarrow> ms_loan \<Rightarrow> ms_loan" where
  "loan_again env original_team original_league service_team service_league days_left l =
     (let today = kbo_current_date_serial env;
          served = word_of_int (me_service_days env - days_left) :: u32;
          l1 = l\<lparr>ml_original_team := (if original_team \<noteq> 0 \<and> original_team \<noteq> service_team then original_team
                                       else if ml_original_team l = service_team then 0 else ml_original_team l),
                 ml_original_league := (if original_league \<noteq> 0 then original_league else ml_original_league l),
                 ml_service_team := service_team, ml_service_league := service_league\<rparr>;
          l2 = (if ml_start l1 = 0
                then l1\<lparr>ml_start := (if days_left > 0 \<and> days_left < me_service_days env \<and> today > served
                                     then today - served else today)\<rparr>
                else l1);
          l3 = (if ml_total l2 \<le> 0 then l2\<lparr>ml_total := me_service_days env\<rparr> else l2)
      in if ml_return l3 = 0 \<and> today \<noteq> 0
         then (if days_left > 0 then l3\<lparr>ml_return := today + word_of_int days_left\<rparr>
               else if ml_start l3 \<noteq> 0 then l3\<lparr>ml_return := ml_start l3 + word_of_int (ml_total l3)\<rparr>
               else l3)
         else l3)"

definition new_loan :: "ms_env \<Rightarrow> u32 \<Rightarrow> u32 \<Rightarrow> u32 \<Rightarrow> u32 \<Rightarrow> u32 \<Rightarrow> int \<Rightarrow> ms_loan" where
  "new_loan env player_id original_team original_league service_team service_league days_left =
     (let today = kbo_current_date_serial env
      in \<lparr>ml_player = player_id,
          ml_original_team = (if original_team \<noteq> service_team then original_team else 0),
          ml_original_league = original_league, ml_service_team = service_team, ml_service_league = service_league,
          ml_start = today,
          ml_return = (if today \<noteq> 0
                       then today + word_of_int (if days_left > 0 then days_left else me_service_days env)
                       else 0),
          ml_total = me_service_days env\<rparr>)"

definition register_active_kbo_military_loan ::
    "ms_env \<Rightarrow> u32 \<Rightarrow> u32 \<Rightarrow> u32 \<Rightarrow> u32 \<Rightarrow> u32 \<Rightarrow> ms_state \<Rightarrow> ms_state" where
  "register_active_kbo_military_loan env player_id original_team original_league service_team service_league st =
     (if player_id = 0 \<or> service_team = 0 then st
      else
        let days_left = days_at_registration env player_id st;
            present = live_player (ms_world st) player_id \<noteq> None
        in case find_active_kbo_military_loan_index player_id st of
             Some i \<Rightarrow>
               (case kbo_active_military_loan_at i st of
                  None \<Rightarrow> st
                | Some l \<Rightarrow>
                    let st1 = put_loan i (loan_again env original_team original_league service_team service_league days_left l) st
                    in if present \<and> days_left > me_service_days env
                       then kbo_set_military_days_left player_id (me_service_days env) st1 else st1)
           | None \<Rightarrow>
               if length (ms_loans st) \<ge> MAX_SPECIAL_HISTORY_KEYS then st
               else
                 let st1 = st\<lparr>ms_loans := ms_loans st @
                       [new_loan env player_id original_team original_league service_team service_league days_left]\<rparr>
                 in if present
                    then kbo_set_military_days_left player_id
                           (if days_left > 0 then days_left else me_service_days env) st1
                    else st1)"

definition unregister_active_kbo_military_loan :: "u32 \<Rightarrow> ms_state \<Rightarrow> ms_state" where
  "unregister_active_kbo_military_loan player_id st =
     (case active_loan player_id st of
        None \<Rightarrow> st
      | Some (i, l) \<Rightarrow> put_loan i (l\<lparr>ml_player := 0\<rparr>) st)"

section \<open>The state of a player\<close>

definition kbo_military_effective_days_left :: "ms_env \<Rightarrow> u32 \<Rightarrow> ms_state \<Rightarrow> int" where
  "kbo_military_effective_days_left env player_id st =
     (if live_player (ms_world st) player_id = None then 0
      else case active_loan player_id st of
          None \<Rightarrow> kbo_military_days_left st player_id
        | Some (i, l) \<Rightarrow>
            if ml_return l \<noteq> 0 \<and> kbo_current_date_serial env \<noteq> 0
            then kbo_military_days_left_from_return_serial (ml_return l) (kbo_current_date_serial env)
            else kbo_military_days_left st player_id)"

text \<open>The day of the return; \<open>None\<close> is the calendar walk that does not end.\<close>

definition kbo_military_effective_return_yyyymmdd :: "ms_env \<Rightarrow> u32 \<Rightarrow> ms_state \<Rightarrow> u32 option" where
  "kbo_military_effective_return_yyyymmdd env player_id st =
     (let today = kbo_current_date_serial env;
          days_left = kbo_military_days_left st player_id;
          by_days = (if today = 0 \<or> days_left \<le> 0 then Some 0
                     else kbo_military_serial_to_yyyymmdd (today + word_of_int days_left))
      in if live_player (ms_world st) player_id = None then Some 0
         else case active_loan player_id st of
             None \<Rightarrow> by_days
           | Some (i, l) \<Rightarrow> if ml_return l \<noteq> 0 then kbo_military_serial_to_yyyymmdd (ml_return l) else by_days)"

definition kbo_clear_military_unavailable_flags :: "u32 \<Rightarrow> ms_state \<Rightarrow> ms_state" where
  "kbo_clear_military_unavailable_flags player_id st =
     update_duty player_id (\<lambda>d. d\<lparr>md_injury_active := 0\<rparr>)
       (update_base player_id (\<lambda>b. b\<lparr>pl_restricted := 0, pl_secondary_restricted := 0\<rparr>) st)"

definition kbo_clear_military_status_flags :: "u32 \<Rightarrow> ms_state \<Rightarrow> ms_state" where
  "kbo_clear_military_status_flags player_id st =
     update_player player_id (\<lambda>p. p\<lparr>fq_military := 0\<rparr>) (kbo_clear_military_unavailable_flags player_id st)"

definition complete_kbo_military_service_status :: "u32 \<Rightarrow> ms_state \<Rightarrow> ms_state" where
  "complete_kbo_military_service_status player_id st =
     kbo_set_military_days_left player_id 0
       (update_duty player_id (\<lambda>d. d\<lparr>md_exempt := 1\<rparr>) (kbo_clear_military_status_flags player_id st))"

definition kbo_military_service_team_id_matches :: "u32 \<Rightarrow> u32 \<Rightarrow> u32 \<Rightarrow> u32 \<Rightarrow> bool" where
  "kbo_military_service_team_id_matches team_id service_team sang kpb \<longleftrightarrow>
     team_id \<noteq> 0 \<and> (team_id = service_team \<or> (sang \<noteq> 0 \<and> team_id = sang) \<or> (kpb \<noteq> 0 \<and> team_id = kpb))"

definition kbo_military_original_team_from_id ::
    "ms_env \<Rightarrow> ms_state \<Rightarrow> u32 \<Rightarrow> u32 \<Rightarrow> u32 \<Rightarrow> u32 \<Rightarrow> (u32 \<times> u32) option" where
  "kbo_military_original_team_from_id env st team_id service_team sang kpb =
     (if team_id = 0 \<or> kbo_military_service_team_id_matches team_id service_team sang kpb then None
      else map_option (\<lambda>t. (team_id, tm_league_id t)) (live_team env st team_id))"

fun seed_original_code :: "u32 \<Rightarrow> ms_seed list \<Rightarrow> string" where
  "seed_original_code player_id [] = []"
| "seed_original_code player_id (s # ss) =
     (if se_player s \<noteq> player_id \<or> se_original_code s = [] then seed_original_code player_id ss
      else strbuf 12 (se_original_code s))"

definition kbo_military_original_team_from_seed ::
    "ms_env \<Rightarrow> ms_state \<Rightarrow> u32 \<Rightarrow> u32 \<Rightarrow> u32 \<Rightarrow> u32 \<Rightarrow> (u32 \<times> u32) option" where
  "kbo_military_original_team_from_seed env st player_id service_team sang kpb =
     (if player_id = 0 then None
      else case kbo_military_find_team_from_seed_code env st (seed_original_code player_id (me_seeds env)) of
          None \<Rightarrow> None
        | Some t \<Rightarrow>
            if kbo_military_service_team_id_matches (tm_id t) service_team sang kpb then None
            else Some (tm_id t, tm_league_id t))"

definition kbo_military_resolve_original_team ::
    "ms_env \<Rightarrow> ms_state \<Rightarrow> u32 \<Rightarrow> u32 \<Rightarrow> u32 \<Rightarrow> u32 \<Rightarrow> (u32 \<times> u32) option" where
  "kbo_military_resolve_original_team env st player_id service_team sang kpb =
     (case live_player (ms_world st) player_id of
        None \<Rightarrow> None
      | Some p \<Rightarrow>
          let from_id = (\<lambda>team_id. kbo_military_original_team_from_id env st team_id service_team sang kpb);
              by_loan = (case active_loan player_id st of
                           None \<Rightarrow> None
                         | Some (i, l) \<Rightarrow>
                             map_option (\<lambda>(t, lg). (t, if ml_original_league l \<noteq> 0 then ml_original_league l else lg))
                               (from_id (ml_original_team l)));
              by_slots = (case from_id (pl_active_team (fq_base p)) of
                            Some r \<Rightarrow> Some r
                          | None \<Rightarrow>
                              (case from_id (pl_original_team (fq_base p)) of
                                 Some r \<Rightarrow> Some r
                               | None \<Rightarrow> from_id (pl_current_team (fq_base p))))
          in case kbo_military_original_team_from_seed env st player_id service_team sang kpb of
               Some r \<Rightarrow> Some r
             | None \<Rightarrow> (case by_loan of Some r \<Rightarrow> Some r | None \<Rightarrow> by_slots))"

definition repaired_loan :: "u32 \<Rightarrow> u32 \<Rightarrow> u32 \<Rightarrow> u32 \<Rightarrow> u32 \<Rightarrow> ms_loan \<Rightarrow> ms_loan" where
  "repaired_loan original_team original_league service_team sang kpb l =
     (let l1 = (if ml_original_team l = 0
                   \<or> kbo_military_service_team_id_matches (ml_original_team l) service_team sang kpb
                then l\<lparr>ml_original_team := original_team\<rparr> else l)
      in if original_league \<noteq> 0 \<and> ml_original_league l1 = 0
         then l1\<lparr>ml_original_league := original_league\<rparr> else l1)"

definition repaired_base :: "u32 \<Rightarrow> u32 \<Rightarrow> u32 \<Rightarrow> u32 \<Rightarrow> u32 \<Rightarrow> player_row \<Rightarrow> player_row" where
  "repaired_base original_team original_league service_team sang kpb b =
     (let stale = (\<lambda>t. t = 0 \<or> kbo_military_service_team_id_matches t service_team sang kpb)
      in b\<lparr>pl_active_team := (if stale (pl_active_team b) then original_team else pl_active_team b),
           pl_original_team := (if stale (pl_original_team b) then original_team else pl_original_team b),
           pl_original_league := (if original_league \<noteq> 0 \<and> pl_original_league b = 0 then original_league
                                  else pl_original_league b)\<rparr>)"

definition kbo_military_repair_original_team_memory ::
    "u32 \<Rightarrow> u32 \<Rightarrow> u32 \<Rightarrow> u32 \<Rightarrow> u32 \<Rightarrow> u32 \<Rightarrow> ms_state \<Rightarrow> ms_state" where
  "kbo_military_repair_original_team_memory player_id original_team original_league service_team sang kpb st =
     (if original_team = 0 \<or> live_player (ms_world st) player_id = None
         \<or> kbo_military_service_team_id_matches original_team service_team sang kpb then st
      else
        let st1 = (case active_loan player_id st of
                     None \<Rightarrow> st
                   | Some (i, l) \<Rightarrow> put_loan i (repaired_loan original_team original_league service_team sang kpb l) st)
        in update_base player_id (repaired_base original_team original_league service_team sang kpb) st1)"

section \<open>Loans of the game\<close>

text \<open>The last test of the source reads one byte of the loan team's id.\<close>

definition kbo_player_native_on_loan :: "ms_state \<Rightarrow> u32 \<Rightarrow> bool" where
  "kbo_player_native_on_loan st player_id =
     (case fw_players (ms_world st) player_id of
        None \<Rightarrow> False
      | Some p \<Rightarrow> md_loan_league (ms_duties st player_id) > 0 \<and> md_loan_active (ms_duties st player_id) \<noteq> 0
          \<and> pl_dfa (fq_base p) = 0 \<and> (ucast (pl_loan_team (fq_base p)) :: u8) \<noteq> 0)"

definition kbo_clear_native_player_loan :: "u32 \<Rightarrow> ms_state \<Rightarrow> ms_state" where
  "kbo_clear_native_player_loan player_id st =
     update_duty player_id (\<lambda>d. d\<lparr>md_loan_active := 0, md_loan_league := 0, md_loan_dirty := 1\<rparr>)
       (update_base player_id (\<lambda>b. b\<lparr>pl_loan_team := 0\<rparr>) st)"

section \<open>The keys of the recorded returns\<close>

definition kbo_military_return_history_was_recorded :: "u32 \<Rightarrow> u32 \<Rightarrow> ms_state \<Rightarrow> bool" where
  "kbo_military_return_history_was_recorded player_id date st \<longleftrightarrow>
     player_id \<noteq> 0 \<and> date \<noteq> 0
     \<and> list_ex (\<lambda>k. k = (player_id, date)) (take MAX_SPECIAL_HISTORY_KEYS (ms_history_keys st))"

definition kbo_mark_military_return_history_once :: "u32 \<Rightarrow> u32 \<Rightarrow> ms_state \<Rightarrow> ms_state" where
  "kbo_mark_military_return_history_once player_id date st =
     (if player_id = 0 \<or> date = 0 \<or> kbo_military_return_history_was_recorded player_id date st
         \<or> length (ms_history_keys st) \<ge> MAX_SPECIAL_HISTORY_KEYS then st
      else st\<lparr>ms_history_keys := ms_history_keys st @ [(player_id, date)]\<rparr>)"

end
