(* ===== verification/MilitaryTick.thy ===== *)
theory MilitaryTick
  imports MilitaryService
begin

text \<open>
  The days of the military service: \<open>native/src/military_service/returns/military_return.c\<close>
  (the return of a player), \<open>runtime/assignment/military_service_assignment.c\<close> (players the seed
  files send to a service club, and the release of players who do not serve) and
  \<open>runtime/days_tick/\<close> (the pass over all players, run for every date of the tick).

  The pass works on a copy of the player vector, a list of ids here.  \<open>me_saving\<close> says at which
  places of the vector a save of the game is found to be running.
\<close>

section \<open>The return of a player\<close>

definition KBO_MILITARY_HISTORY_FALLBACK_YEAR :: u32 where "KBO_MILITARY_HISTORY_FALLBACK_YEAR = 2001"

definition run_insert :: "ms_env \<Rightarrow> ms_state \<Rightarrow> bool \<times> ms_state" where
  "run_insert env st = (me_ok env (ms_clock st), st\<lparr>ms_clock := ms_clock st + 1\<rparr>)"

definition record_return_history :: "ms_env \<Rightarrow> u32 \<Rightarrow> u32 \<Rightarrow> u32 \<Rightarrow> ms_state \<Rightarrow> ms_state" where
  "record_return_history env player_id service_team original_team st =
     (let date = (case me_latest env of
                    Some d \<Rightarrow> d div 10000 * 10000 + (d div 100) mod 100 * 100 + d mod 100
                  | None \<Rightarrow> KBO_MILITARY_HISTORY_FALLBACK_YEAR * 10000 + 101)
      in if kbo_military_return_history_was_recorded player_id date st then st
         else let (inserted, st1) = run_insert env st
              in if inserted
                 then kbo_mark_military_return_history_once player_id date
                        (st1\<lparr>ms_events := ms_events st1 @ [Return_History player_id date service_team original_team]\<rparr>)
                 else st1)"

text \<open>The club the player serves at, for a registered player the one of his loan.\<close>

definition service_team_of :: "u32 \<Rightarrow> u32 \<Rightarrow> u32 \<Rightarrow> player_row \<Rightarrow> u32" where
  "service_team_of registered sang kpb b =
     (if registered \<noteq> 0 then registered
      else if pl_current_team b \<noteq> 0 \<and> (pl_current_team b = sang \<or> pl_current_team b = kpb) then pl_current_team b
      else if pl_loan_team b \<noteq> 0 \<and> (pl_loan_team b = sang \<or> pl_loan_team b = kpb) then pl_loan_team b
      else 0)"

definition csv_team_id :: "ms_env \<Rightarrow> ms_state \<Rightarrow> string \<Rightarrow> u32" where
  "csv_team_id env st code =
     (case me_team_by_csv env code of
        None \<Rightarrow> 0
      | Some team_id \<Rightarrow> (case fw_teams (ms_world st) team_id of None \<Rightarrow> 0 | Some t \<Rightarrow> tm_id t))"

text \<open>The writes of a completed return, after the club has been found.\<close>

definition send_home :: "ms_env \<Rightarrow> u32 \<Rightarrow> u32 \<Rightarrow> u32 \<Rightarrow> u32 \<Rightarrow> ms_state \<Rightarrow> ms_state" where
  "send_home env player_id service_team original_team fallback_league st =
     (let st1 = (if kbo_player_native_on_loan st player_id then kbo_clear_native_player_loan player_id st else st);
          st2 = (case fw_players (ms_world st1) player_id of
                   None \<Rightarrow> st1
                 | Some p \<Rightarrow>
                     if pl_current_team (fq_base p) \<noteq> original_team
                     then st1\<lparr>ms_world := fst (kbo_assign_player_to_team_like_ootp player_id original_team fallback_league
                                                (ms_world st1))\<rparr>
                     else st1);
          st3 = update_duty player_id
                  (\<lambda>d. d\<lparr>md_loan_league := 0, md_loan_active := 0, md_loan_cleared := 1, md_loan_dirty := 0\<rparr>)
                  (update_base player_id (\<lambda>b. b\<lparr>pl_loan_team := 0\<rparr>) st2);
          st4 = unregister_active_kbo_military_loan player_id (complete_kbo_military_service_status player_id st3)
      in record_return_history env player_id service_team original_team st4)"

text \<open>The second half of the function: the club is known, the days are checked.\<close>

definition return_to ::
    "ms_env \<Rightarrow> u32 \<Rightarrow> u32 \<Rightarrow> u32 \<Rightarrow> u32 \<Rightarrow> u32 \<Rightarrow> u32 \<Rightarrow> ms_state \<Rightarrow> bool \<times> ms_state" where
  "return_to env player_id service sang kpb original league st =
     (let st1 = kbo_military_repair_original_team_memory player_id original league service sang kpb st
      in if kbo_military_effective_days_left env player_id st1 > 0
         then (False, kbo_clear_military_unavailable_flags player_id st1)
         else case live_team env st1 original of
             None \<Rightarrow> (False, st1)
           | Some t \<Rightarrow>
               (True, send_home env player_id service original (if league \<noteq> 0 then league else tm_league_id t) st1))"

definition kbo_return_completed_military_loan_player ::
    "ms_env \<Rightarrow> u32 \<Rightarrow> bool \<Rightarrow> ms_state \<Rightarrow> bool \<times> ms_state" where
  "kbo_return_completed_military_loan_player env player_id require_registered st =
     (case live_player (ms_world st) player_id of
        None \<Rightarrow> (False, st)
      | Some p \<Rightarrow>
          let loan = map_option snd (active_loan player_id st);
              registered = (case loan of None \<Rightarrow> 0 | Some l \<Rightarrow> ml_service_team l);
              registered_original = (case loan of None \<Rightarrow> 0 | Some l \<Rightarrow> ml_original_team l);
              registered_league = (case loan of None \<Rightarrow> 0 | Some l \<Rightarrow> ml_original_league l);
              sang = (if registered = 0 then csv_team_id env st ''SANG'' else 0);
              kpb = (if registered = 0 then csv_team_id env st ''KPB'' else 0);
              service = service_team_of registered sang kpb (fq_base p);
              home = (case kbo_military_resolve_original_team env st player_id service sang kpb of
                        Some r \<Rightarrow> r
                      | None \<Rightarrow> (registered_original, registered_league));
              original = fst home;
              league = (if snd home \<noteq> 0 then snd home
                        else if registered_league \<noteq> 0 then registered_league
                        else pl_original_league (fq_base p))
          in if (require_registered \<and> loan = None) \<or> service = 0 then (False, st)
             else if original = 0 \<or> original = service \<or> original = sang \<or> original = kpb then (False, st)
             else return_to env player_id service sang kpb original league st)"

section \<open>The release of a player who does not serve\<close>

definition kbo_release_invalid_military_service_team_assignment ::
    "ms_env \<Rightarrow> u32 \<Rightarrow> u32 \<Rightarrow> ms_state \<Rightarrow> bool \<times> ms_state" where
  "kbo_release_invalid_military_service_team_assignment env player_id service_team st =
     (case (live_player (ms_world st) player_id, fw_teams (ms_world st) service_team) of
        (Some p, Some team) \<Rightarrow>
          if service_team = 0 then (False, st)
          else
            let w = ms_world st;
                team' = fst (kbo_remove_player_id_from_known_team_roster_arrays player_id team);
                st1 = st\<lparr>ms_world := w\<lparr>fw_teams := (fw_teams w)(service_team := Some team')\<rparr>\<rparr>;
                b = fq_base p;
                lent = pl_loan_team b = service_team;
                b' = b\<lparr>pl_current_team := 0,
                       pl_current_league := (if me_league env \<noteq> 0 then me_league env else pl_current_league b),
                       pl_active_team := (if pl_active_team b = service_team then 0 else pl_active_team b),
                       pl_original_team := (if pl_original_team b = service_team then 0 else pl_original_team b),
                       pl_loan_team := (if lent then 0 else pl_loan_team b),
                       pl_contract_level := 0\<rparr>;
                st2 = update_player player_id (\<lambda>p. p\<lparr>fq_base := b', fq_salary := 0\<rparr>) st1;
                st3 = update_duty player_id
                        (\<lambda>d. d\<lparr>md_loan_league := (if lent then 0 else md_loan_league d),
                               md_loan_active := (if lent then 0 else md_loan_active d),
                               md_loan_dirty := (if lent then 1 else md_loan_dirty d),
                               md_contract_status := 0, md_contract_start := 0,
                               md_later_salaries := map (\<lambda>_. 0) (md_later_salaries d)\<rparr>) st2
            in (True, kbo_set_military_days_left player_id 0 (kbo_clear_military_status_flags player_id st3))
      | _ \<Rightarrow> (False, st))"

section \<open>The pass over the players\<close>

record pass_result =
  pr_tracked :: nat
  pr_monitored :: nat
  pr_resynced :: nat
  pr_returned :: nat
  pr_registered :: nat
  pr_released :: nat
  pr_deferred_returns :: nat
  pr_deferred_releases :: nat
  pr_aborted :: bool

definition no_result :: pass_result where
  "no_result = \<lparr>pr_tracked = 0, pr_monitored = 0, pr_resynced = 0, pr_returned = 0, pr_registered = 0,
     pr_released = 0, pr_deferred_returns = 0, pr_deferred_releases = 0, pr_aborted = False\<rparr>"

text \<open>The day of the pass, the service clubs, and whether rosters may be changed.\<close>

record pass_input =
  pi_today :: u32
  pi_sang :: u32
  pi_kpb :: u32
  pi_mutation :: bool

definition kbo_military_tick_release_invalid_or_defer ::
    "ms_env \<Rightarrow> pass_input \<Rightarrow> u32 \<Rightarrow> u32 \<Rightarrow> ms_state \<times> pass_result \<Rightarrow> ms_state \<times> pass_result" where
  "kbo_military_tick_release_invalid_or_defer env inp player_id service = (\<lambda>(st, res).
     if \<not> pi_mutation inp then (st, res\<lparr>pr_deferred_releases := pr_deferred_releases res + 1\<rparr>)
     else let (released, st1) = kbo_release_invalid_military_service_team_assignment env player_id service st
          in (st1, res\<lparr>pr_released := pr_released res + of_bool released\<rparr>))"

definition kbo_military_tick_return_or_defer ::
    "ms_env \<Rightarrow> pass_input \<Rightarrow> u32 \<Rightarrow> ms_state \<times> pass_result \<Rightarrow> ms_state \<times> pass_result" where
  "kbo_military_tick_return_or_defer env inp player_id = (\<lambda>(st, res).
     if \<not> pi_mutation inp then (st, res\<lparr>pr_deferred_returns := pr_deferred_returns res + 1\<rparr>)
     else let (returned, st1) = kbo_return_completed_military_loan_player env player_id False st
          in (st1, res\<lparr>pr_returned := pr_returned res + of_bool returned\<rparr>))"

definition kbo_military_tick_repair_loan_fields :: "ms_env \<Rightarrow> int \<Rightarrow> u32 \<Rightarrow> ms_loan \<Rightarrow> ms_loan" where
  "kbo_military_tick_repair_loan_fields env stored_days_left today l =
     (let l1 = (if ml_total l \<le> 0 then l\<lparr>ml_total := me_service_days env\<rparr> else l);
          l2 = (if ml_start l1 = 0 \<or> ml_start l1 > today then l1\<lparr>ml_start := today\<rparr> else l1)
      in if ml_return l2 = 0
         then l2\<lparr>ml_return := today + word_of_int (if stored_days_left > 0 then stored_days_left else ml_total l2)\<rparr>
         else l2)"

text \<open>The rest of the loop body for a player with a loan, and for one without.\<close>

definition tick_loan ::
    "ms_env \<Rightarrow> pass_input \<Rightarrow> u32 \<Rightarrow> nat \<Rightarrow> ms_loan \<Rightarrow> ms_state \<times> pass_result \<Rightarrow> ms_state \<times> pass_result" where
  "tick_loan env inp player_id i loan = (\<lambda>(st, res).
     let stored = kbo_military_days_left st player_id;
         l = kbo_military_tick_repair_loan_fields env stored (pi_today inp) loan;
         st1 = put_loan i l st;
         managed = kbo_military_days_left_from_return_serial (ml_return l) (pi_today inp);
         (st2, res1) = (if stored \<noteq> managed
                        then (kbo_set_military_days_left player_id managed st1, res\<lparr>pr_resynced := pr_resynced res + 1\<rparr>)
                        else (st1, res))
     in if managed \<le> 0 then kbo_military_tick_return_or_defer env inp player_id (st2, res1)
        else (kbo_clear_military_unavailable_flags player_id st2, res1\<lparr>pr_monitored := pr_monitored res1 + 1\<rparr>))"

definition tick_unregistered ::
    "ms_env \<Rightarrow> pass_input \<Rightarrow> u32 \<Rightarrow> u32 \<Rightarrow> u32 \<Rightarrow> ms_state \<times> pass_result \<Rightarrow> ms_state \<times> pass_result" where
  "tick_unregistered env inp player_id service original = (\<lambda>(st, res).
     let days_left = kbo_military_days_left st player_id;
         serving = (case fw_players (ms_world st) player_id of None \<Rightarrow> False | Some p \<Rightarrow> fq_military p \<noteq> 0)
     in if original = 0 \<and> days_left \<le> 0 \<and> \<not> serving
        then kbo_military_tick_release_invalid_or_defer env inp player_id service (st, res)
        else if days_left \<le> 0 then kbo_military_tick_return_or_defer env inp player_id (st, res)
        else (kbo_clear_military_unavailable_flags player_id st, res))"

definition pass_service_team :: "pass_input \<Rightarrow> player_row \<Rightarrow> u32" where
  "pass_service_team inp b =
     (if pl_current_team b = pi_sang inp \<or> pl_current_team b = pi_kpb inp then pl_current_team b
      else if pl_loan_team b = pi_sang inp \<or> pl_loan_team b = pi_kpb inp then pl_loan_team b
      else 0)"

definition known_home :: "pass_input \<Rightarrow> u32 \<Rightarrow> u32 \<Rightarrow> bool" where
  "known_home inp service original \<longleftrightarrow>
     original \<noteq> 0 \<and> original \<noteq> service \<and> original \<noteq> pi_sang inp \<and> original \<noteq> pi_kpb inp"

text \<open>A player found serving without a loan is registered.\<close>

definition discover_loan ::
    "ms_env \<Rightarrow> u32 \<Rightarrow> u32 \<Rightarrow> u32 \<Rightarrow> u32 \<Rightarrow> ms_state \<Rightarrow> ms_state" where
  "discover_loan env player_id original league service st =
     (let service_league = (case fw_teams (ms_world st) service of None \<Rightarrow> 0 | Some t \<Rightarrow> tm_league_id t);
          own_league = (case fw_players (ms_world st) player_id of None \<Rightarrow> 0 | Some p \<Rightarrow> pl_current_league (fq_base p))
      in update_player player_id (\<lambda>p. p\<lparr>fq_military := 1\<rparr>)
           (register_active_kbo_military_loan env player_id original league service
              (if service_league \<noteq> 0 then service_league else own_league) st))"

text \<open>The club of the player is repaired and a loan that is not known is registered.\<close>

definition prepare_loan ::
    "ms_env \<Rightarrow> pass_input \<Rightarrow> u32 \<Rightarrow> u32 \<Rightarrow> u32 \<times> u32 \<Rightarrow> ms_state \<times> pass_result \<Rightarrow> ms_state \<times> pass_result" where
  "prepare_loan env inp player_id service home = (\<lambda>(st, res).
     let unknown = find_active_kbo_military_loan_index player_id st = None;
         direct = kbo_military_days_left st player_id;
         known = known_home inp service (fst home);
         st1 = (if known
                then kbo_military_repair_original_team_memory player_id (fst home) (snd home) service
                       (pi_sang inp) (pi_kpb inp) st
                else st)
     in if unknown \<and> direct > 0 \<and> known
        then (discover_loan env player_id (fst home) (snd home) service st1,
              res\<lparr>pr_registered := pr_registered res + 1\<rparr>)
        else (st1, res))"

definition tick_rest ::
    "ms_env \<Rightarrow> pass_input \<Rightarrow> u32 \<Rightarrow> u32 \<Rightarrow> u32 \<Rightarrow> ms_state \<times> pass_result \<Rightarrow> ms_state \<times> pass_result" where
  "tick_rest env inp player_id service original = (\<lambda>(st, res).
     case find_active_kbo_military_loan_index player_id st of
       None \<Rightarrow> tick_unregistered env inp player_id service original (st, res)
     | Some i \<Rightarrow>
         (case kbo_active_military_loan_at i st of
            None \<Rightarrow> (st, res)
          | Some l \<Rightarrow> tick_loan env inp player_id i l (st, res)))"

definition tick_player ::
    "ms_env \<Rightarrow> pass_input \<Rightarrow> u32 \<Rightarrow> ms_state \<times> pass_result \<Rightarrow> ms_state \<times> pass_result" where
  "tick_player env inp player_id = (\<lambda>(st, res).
     case live_player (ms_world st) player_id of
       None \<Rightarrow> (st, res)
     | Some p \<Rightarrow>
         let service = pass_service_team inp (fq_base p);
             res1 = res\<lparr>pr_tracked := pr_tracked res + 1\<rparr>
         in if service = 0 then (st, res)
            else if find_active_kbo_military_loan_index player_id st = None \<and> fq_military p = 0
                    \<and> kbo_military_days_left st player_id \<le> 0
            then kbo_military_tick_release_invalid_or_defer env inp player_id service (st, res1)
            else
              let home = (case kbo_military_resolve_original_team env st player_id service (pi_sang inp) (pi_kpb inp) of
                            None \<Rightarrow> (0, 0) | Some r \<Rightarrow> r)
              in tick_rest env inp player_id service (fst home) (prepare_loan env inp player_id service home (st, res1)))"

definition SAVE_CHECK_INTERVAL :: nat where "SAVE_CHECK_INTERVAL = 128"

fun pass_loop ::
    "ms_env \<Rightarrow> pass_input \<Rightarrow> nat \<Rightarrow> u32 list \<Rightarrow> ms_state \<times> pass_result \<Rightarrow> ms_state \<times> pass_result" where
  "pass_loop env inp i [] acc = acc"
| "pass_loop env inp i (player_id # ids) acc =
     (if i mod SAVE_CHECK_INTERVAL = 0 \<and> me_saving env i then (fst acc, (snd acc)\<lparr>pr_aborted := True\<rparr>)
      else pass_loop env inp (i + 1) ids (tick_player env inp player_id acc))"

definition kbo_military_days_tick_player_pass ::
    "ms_env \<Rightarrow> pass_input \<Rightarrow> u32 list \<Rightarrow> ms_state \<Rightarrow> ms_state \<times> pass_result" where
  "kbo_military_days_tick_player_pass env inp ids st = pass_loop env inp 0 ids (st, no_result)"

section \<open>The players of the seed files\<close>

definition seed_service_team :: "ms_env \<Rightarrow> ms_state \<Rightarrow> ms_seed \<Rightarrow> team_row option" where
  "seed_service_team env st seed =
     (let code = (if se_service_code seed \<noteq> [] \<and> stricmp_equal (se_service_code seed) ''KPB'' then ''KPB'' else ''SANG'')
      in case me_team_by_csv env code of None \<Rightarrow> None | Some team_id \<Rightarrow> fw_teams (ms_world st) team_id)"

text \<open>The club the player comes from: the one of the seed, else one of his own fields.\<close>

definition seed_original_team :: "ms_env \<Rightarrow> ms_state \<Rightarrow> ms_seed \<Rightarrow> player_row \<Rightarrow> u32 \<Rightarrow> u32 \<Rightarrow> u32 \<Rightarrow> u32 \<times> u32" where
  "seed_original_team env st seed b service sang kpb =
     (let (team0, league0) =
            (if se_original_code seed = [] then (0, 0)
             else case kbo_military_find_team_from_seed_code env st (se_original_code seed) of
                None \<Rightarrow> (0, 0) | Some t \<Rightarrow> (tm_id t, tm_league_id t));
          (team1, league1) = (if team0 = 0 then (pl_active_team b, pl_original_league b) else (team0, league0));
          team2 = (if team1 = 0 \<or> team1 = service \<or> team1 = sang \<or> team1 = kpb then pl_original_team b else team1);
          league2 = (if league1 = 0
                     then (case live_team env st team2 of None \<Rightarrow> 0 | Some t \<Rightarrow> tm_league_id t)
                     else league1)
      in (team2, league2))"

definition send_to_service :: "u32 \<Rightarrow> team_row \<Rightarrow> u32 \<Rightarrow> u32 \<Rightarrow> ms_state \<Rightarrow> ms_state" where
  "send_to_service player_id service_team original league st =
     update_base player_id
       (\<lambda>b. b\<lparr>pl_active_team := original, pl_original_team := original,
              pl_original_league := (if league \<noteq> 0 then league else pl_original_league b)\<rparr>)
       (st\<lparr>ms_world := fst (kbo_assign_player_to_team_internal player_id (tm_id service_team)
                            (tm_league_id service_team) False (ms_world st))\<rparr>)"

definition seeded_loan :: "ms_env \<Rightarrow> ms_seed \<Rightarrow> ms_loan \<Rightarrow> ms_loan" where
  "seeded_loan env seed l =
     (let start = kbo_military_yyyymmdd_to_serial (se_start_on seed);
          l1 = (if start \<noteq> 0 then l\<lparr>ml_start := start\<rparr> else l);
          l2 = l1\<lparr>ml_total := (if se_total seed > 0 then se_total seed else me_service_days env)\<rparr>;
          seed_return = kbo_military_yyyymmdd_to_serial (se_return_on seed);
          back = (if seed_return = 0 \<and> ml_start l2 \<noteq> 0 then ml_start l2 + word_of_int (ml_total l2) else seed_return)
      in if back \<noteq> 0 then l2\<lparr>ml_return := back\<rparr> else l2)"

text \<open>The day of the entry in the player's history; \<open>None\<close> is the calendar walk that does not end.\<close>

definition seed_history_date :: "ms_env \<Rightarrow> ms_seed \<Rightarrow> ms_loan \<Rightarrow> u32 option" where
  "seed_history_date env seed l =
     (if se_start_on seed \<noteq> 0 then Some (se_start_on seed)
      else case (if ml_start l \<noteq> 0 then kbo_military_serial_to_yyyymmdd (ml_start l) else Some 0) of
          None \<Rightarrow> None
        | Some d \<Rightarrow>
            if d = 0 \<and> kbo_current_date_serial env \<noteq> 0
            then kbo_military_serial_to_yyyymmdd (kbo_current_date_serial env) else Some d)"

definition record_seed_history :: "ms_env \<Rightarrow> u32 \<Rightarrow> u32 \<Rightarrow> u32 \<Rightarrow> u32 \<Rightarrow> ms_state \<Rightarrow> ms_state" where
  "record_seed_history env player_id date service original st =
     (if player_id = 0 \<or> service = 0 \<or> date = 0 then st
      else let (inserted, st1) = run_insert env st
           in if inserted then st1\<lparr>ms_events := ms_events st1 @ [Seed_History player_id date service original]\<rparr> else st1)"

text \<open>One seed: the state after it and whether it was applied.\<close>

definition apply_seed :: "ms_env \<Rightarrow> u32 \<Rightarrow> u32 \<Rightarrow> ms_seed \<Rightarrow> ms_state \<Rightarrow> (ms_state \<times> bool) option" where
  "apply_seed env sang kpb seed st =
     (case (live_player (ms_world st) (se_player seed), seed_service_team env st seed) of
        (Some p, Some service_team) \<Rightarrow>
          let player_id = se_player seed;
              service = tm_id service_team;
              b = fq_base p;
              away = pl_current_team b \<noteq> service \<and> pl_loan_team b \<noteq> service;
              was_registered = find_active_kbo_military_loan_index player_id st \<noteq> None;
              today = kbo_current_date_serial env;
              seed_return = kbo_military_yyyymmdd_to_serial (se_return_on seed);
              (original, league) = seed_original_team env st seed b service sang kpb
          in if service = 0 \<or> (today \<noteq> 0 \<and> seed_return \<noteq> 0 \<and> seed_return \<le> today \<and> away) then Some (st, False)
             else if original = 0 \<or> original = service \<or> original = sang \<or> original = kpb then Some (st, False)
             else
               let st1 = (if away then send_to_service player_id service_team original league st else st);
                   st2 = register_active_kbo_military_loan env player_id original league service
                           (tm_league_id service_team) st1
               in case active_loan player_id st2 of
                    None \<Rightarrow> Some (st2, False)
                  | Some (i, l) \<Rightarrow>
                      let l' = seeded_loan env seed l;
                          st3 = put_loan i l' st2;
                          st4 = (if today \<noteq> 0 \<and> ml_return l' \<noteq> 0
                                 then kbo_set_military_days_left player_id
                                        (kbo_military_days_left_from_return_serial (ml_return l') today) st3
                                 else st3);
                          st5 = kbo_clear_military_unavailable_flags player_id
                                  (update_player player_id (\<lambda>p. p\<lparr>fq_military := 1\<rparr>) st4)
                      in if \<not> was_registered \<and> away
                         then map_option (\<lambda>d. (record_seed_history env player_id d service original st5, True))
                                (seed_history_date env seed l')
                         else Some (st5, True)
      | _ \<Rightarrow> Some (st, False))"

fun kbo_apply_military_service_seed_assignments ::
    "ms_env \<Rightarrow> u32 \<Rightarrow> u32 \<Rightarrow> ms_seed list \<Rightarrow> ms_state \<times> nat \<Rightarrow> (ms_state \<times> nat) option" where
  "kbo_apply_military_service_seed_assignments env sang kpb [] acc = Some acc"
| "kbo_apply_military_service_seed_assignments env sang kpb (seed # seeds) (st, applied) =
     (case (if se_player seed = 0 then Some (st, False) else apply_seed env sang kpb seed st) of
        None \<Rightarrow> None
      | Some (st', ok) \<Rightarrow>
          kbo_apply_military_service_seed_assignments env sang kpb seeds (st', applied + of_bool ok))"

section \<open>The day\<close>

definition PLAYER_COUNT_MAX_PLAUSIBLE :: nat where "PLAYER_COUNT_MAX_PLAUSIBLE = 200000"

definition mutation_window :: "ms_env \<Rightarrow> u32 \<Rightarrow> nat \<Rightarrow> bool" where
  "mutation_window env today n \<longleftrightarrow> today \<noteq> 0 \<and> n \<noteq> 0 \<and> me_save_ready env \<and> \<not> me_guard env"

text \<open>
  \<open>daily\<close> tells the daily source from the others, which also apply the seeds.  Each of the three
  checks for a save before the seeds ends the day with nothing done; \<open>me_save_started\<close> is that one
  of them finds it.
\<close>

definition kbo_tick_military_service_days_for_serial ::
    "ms_env \<Rightarrow> bool \<Rightarrow> u32 \<Rightarrow> ms_state \<Rightarrow> (ms_state \<times> pass_result) option" where
  "kbo_tick_military_service_days_for_serial env daily today st =
     (let sang = csv_team_id env st ''SANG''; kpb = csv_team_id env st ''KPB''
      in case readable_vector (ms_world st) of
           None \<Rightarrow> Some (st, no_result)
         | Some (base, ids) \<Rightarrow>
             if \<not> me_enabled env \<or> me_save_started env \<or> today = 0 \<or> me_guard env \<or> length ids > PLAYER_COUNT_MAX_PLAUSIBLE
                \<or> (sang = 0 \<and> kpb = 0) then Some (st, no_result)
             else
               let inp = \<lparr>pi_today = today, pi_sang = sang, pi_kpb = kpb,
                          pi_mutation = (\<not> daily \<or> mutation_window env today (length ids))\<rparr>
               in map_option (\<lambda>(st1, applied). kbo_military_days_tick_player_pass env inp ids st1)
                    (if daily then Some (st, 0)
                     else kbo_apply_military_service_seed_assignments env sang kpb (me_seeds env) (st, 0)))"

definition kbo_tick_military_service_days_for_date ::
    "ms_env \<Rightarrow> bool \<Rightarrow> u32 \<Rightarrow> ms_state \<Rightarrow> (ms_state \<times> pass_result) option" where
  "kbo_tick_military_service_days_for_date env daily date st =
     kbo_tick_military_service_days_for_serial env daily
       (kbo_date_serial (date div 10000) ((date div 100) mod 100) (date mod 100)) st"

end
