(* ===== verification/MilitaryLemmas.thy ===== *)
theory MilitaryLemmas
  imports MilitaryTick
begin

text \<open>
  Lemmas on the military service.  \<open>loan_of\<close> reads the table of the loans as a map from players;
  \<open>touches q st st'\<close> says that a step changed nothing but what belongs to player \<open>q\<close> and the
  roster arrays of the clubs, and every operation on a player is such a step.
\<close>

section \<open>The table of the loans as a map\<close>

definition loan_of :: "ms_state \<Rightarrow> u32 \<Rightarrow> ms_loan option" where
  "loan_of st player_id = (if player_id = 0 then None else row_map ml_player (ms_loans st) player_id)"

definition loans_ok :: "ms_state \<Rightarrow> bool" where
  "loans_ok st \<longleftrightarrow> length (ms_loans st) \<le> MAX_SPECIAL_HISTORY_KEYS
     \<and> distinct (filter (\<lambda>q. q \<noteq> 0) (map ml_player (ms_loans st)))"

lemma row_map_first:
  "row_map key rows k = map_option ((!) rows) (first_index (\<lambda>r. key r = k) rows)"
  by (induction rows) (auto simp: option.map_comp comp_def)

lemma find_index_simp:
  "length (ms_loans st) \<le> MAX_SPECIAL_HISTORY_KEYS \<Longrightarrow>
     find_active_kbo_military_loan_index q st =
       (if q = 0 then None else first_index (\<lambda>l. ml_player l = q) (ms_loans st))"
  by (simp add: find_active_kbo_military_loan_index_def)

lemma active_loan_iff:
  assumes "length (ms_loans st) \<le> MAX_SPECIAL_HISTORY_KEYS"
  shows "active_loan q st = Some (i, l) \<longleftrightarrow>
     q \<noteq> 0 \<and> first_index (\<lambda>l. ml_player l = q) (ms_loans st) = Some i \<and> l = ms_loans st ! i"
proof (cases "q = 0")
  case False
  show ?thesis
  proof (cases "first_index (\<lambda>l. ml_player l = q) (ms_loans st)")
    case None
    then show ?thesis using False assms by (simp add: active_loan_def find_index_simp)
  next
    case (Some j)
    note f = first_index_Some [OF Some]
    then have "kbo_active_military_loan_at j st = Some (ms_loans st ! j)"
      using False assms by (auto simp: kbo_active_military_loan_at_def)
    then show ?thesis using Some False assms by (auto simp: active_loan_def find_index_simp)
  qed
qed (simp add: active_loan_def find_active_kbo_military_loan_index_def)

lemma loan_of_active:
  assumes "loans_ok st"
  shows "map_option snd (active_loan q st) = loan_of st q"
proof -
  have len: "length (ms_loans st) \<le> MAX_SPECIAL_HISTORY_KEYS" using assms by (simp add: loans_ok_def)
  show ?thesis
  proof (cases "active_loan q st")
    case None
    then have "q = 0 \<or> first_index (\<lambda>l. ml_player l = q) (ms_loans st) = None"
      using active_loan_iff [OF len, of q] by (metis not_None_eq)
    then show ?thesis using None by (auto simp: loan_of_def row_map_first)
  next
    case (Some il)
    obtain i l where il: "il = (i, l)" by (cases il)
    show ?thesis using Some active_loan_iff [OF len, of q i l] by (simp add: il loan_of_def row_map_first)
  qed
qed

lemma active_loan_None: "loans_ok st \<Longrightarrow> active_loan q st = None \<longleftrightarrow> loan_of st q = None"
  using loan_of_active [of st q] by (metis option.map_disc_iff)

lemma active_loan_Some: "loans_ok st \<Longrightarrow> active_loan q st = Some (i, l) \<Longrightarrow> loan_of st q = Some l"
  using loan_of_active [of st q] by simp

lemma loan_player: "loan_of st q = Some l \<Longrightarrow> ml_player l = q \<and> q \<noteq> 0"
  by (auto simp: loan_of_def dest: row_map_SomeD split: if_splits)

text \<open>Writing a row: of the same player, or giving it up.\<close>

lemma distinct_filter_update:
  assumes "distinct (filter P xs)" and "i < length xs" and "P v \<longrightarrow> v = xs ! i"
  shows "distinct (filter P (xs[i := v]))"
proof (cases "P v")
  case True
  then show ?thesis using assms by simp
next
  case False
  have "filter P (xs[i := v]) = filter P (take i xs) @ filter P (drop (Suc i) xs)"
    using False assms(2) by (simp add: upd_conv_take_nth_drop)
  moreover have "filter P xs = filter P (take i xs) @ filter P [xs ! i] @ filter P (drop (Suc i) xs)"
    using assms(2) by (metis append_Cons append_Nil filter_append id_take_nth_drop)
  ultimately show ?thesis using assms(1) by auto
qed

lemma update_first:
  assumes "first_index (\<lambda>r. key r = k) rows = Some i" and "key r = k"
  shows "row_map key (rows[i := r]) = (row_map key rows)(k \<mapsto> r)"
  using assms
proof (induction rows arbitrary: i)
  case (Cons x rows)
  then show ?case by (cases i) (auto simp: fun_upd_twist split: if_splits)
qed simp

lemma give_up_first:
  assumes "first_index (\<lambda>r. key r = k) rows = Some i" and "key r \<noteq> k"
    and "distinct (filter P (map key rows))" and "P k" and "\<not> P (key r)" and "q \<noteq> key r"
  shows "row_map key (rows[i := r]) q = ((row_map key rows)(k := None)) q"
  using assms
proof (induction rows arbitrary: i)
  case (Cons x rows)
  show ?case
  proof (cases "key x = k")
    case True
    then have "k \<notin> set (map key rows)" using Cons.prems by auto
    then have "row_map key rows k = None" by (simp add: row_map_None)
    moreover have "i = 0" using True Cons.prems by simp
    ultimately show ?thesis using True Cons.prems by auto
  next
    case False
    obtain j where j: "first_index (\<lambda>r. key r = k) rows = Some j" "i = Suc j" using False Cons.prems by auto
    have "distinct (filter P (map key rows))" using Cons.prems by (simp split: if_splits)
    then have "row_map key (rows[j := r]) q = ((row_map key rows)(k := None)) q"
      using Cons.IH [OF j(1)] Cons.prems by blast
    then show ?thesis using False j by auto
  qed
qed simp

lemma put_loan_ok:
  assumes ok: "loans_ok st" and a: "active_loan q st = Some (i, l)" and p: "ml_player l' = q"
  shows "loans_ok (put_loan i l' st)" and "loan_of (put_loan i l' st) = (loan_of st)(q \<mapsto> l')"
proof -
  have len: "length (ms_loans st) \<le> MAX_SPECIAL_HISTORY_KEYS" using ok by (simp add: loans_ok_def)
  have f: "q \<noteq> 0" "first_index (\<lambda>l. ml_player l = q) (ms_loans st) = Some i"
    using a by (simp_all add: active_loan_iff [OF len])
  note fi = first_index_Some [OF f(2)]
  have "map ml_player ((ms_loans st)[i := l']) = map ml_player (ms_loans st)"
    using fi p by (simp add: map_update list_update_same_conv)
  then show "loans_ok (put_loan i l' st)" using ok by (simp add: loans_ok_def put_loan_def)
  show "loan_of (put_loan i l' st) = (loan_of st)(q \<mapsto> l')"
    using update_first [OF f(2) p] f(1) by (auto simp: loan_of_def put_loan_def)
qed

lemma unregister_ok:
  assumes ok: "loans_ok st"
  shows "loans_ok (unregister_active_kbo_military_loan q st)"
    and "loan_of (unregister_active_kbo_military_loan q st) = (loan_of st)(q := None)"
proof -
  have len: "length (ms_loans st) \<le> MAX_SPECIAL_HISTORY_KEYS" using ok by (simp add: loans_ok_def)
  have "loans_ok (unregister_active_kbo_military_loan q st)
      \<and> loan_of (unregister_active_kbo_military_loan q st) = (loan_of st)(q := None)"
  proof (cases "active_loan q st")
    case None
    then have "loan_of st q = None" using active_loan_None [OF ok] by simp
    then show ?thesis using ok None by (auto simp: unregister_active_kbo_military_loan_def)
  next
    case (Some il)
    obtain i l where il: "il = (i, l)" by (cases il)
    have f: "q \<noteq> 0" "first_index (\<lambda>l. ml_player l = q) (ms_loans st) = Some i"
      using Some by (simp_all add: il active_loan_iff [OF len])
    note fi = first_index_Some [OF f(2)]
    let ?r = "l\<lparr>ml_player := 0\<rparr>"
    have d: "distinct (filter (\<lambda>q. q \<noteq> 0) (map ml_player (ms_loans st)))" using ok by (simp add: loans_ok_def)
    have "distinct (filter (\<lambda>q. q \<noteq> 0) (map ml_player ((ms_loans st)[i := ?r])))"
      unfolding map_update by (rule distinct_filter_update [OF d]) (use fi in simp_all)
    moreover have "row_map ml_player ((ms_loans st)[i := ?r]) p = ((row_map ml_player (ms_loans st))(q := None)) p"
      if "p \<noteq> 0" for p
      by (rule give_up_first [OF f(2) _ d]) (use f that in simp_all)
    ultimately show ?thesis
      using Some il len by (auto simp: unregister_active_kbo_military_loan_def loans_ok_def loan_of_def put_loan_def fun_eq_iff)
  qed
  then show "loans_ok (unregister_active_kbo_military_loan q st)"
    and "loan_of (unregister_active_kbo_military_loan q st) = (loan_of st)(q := None)" by simp_all
qed

lemma append_loan_ok:
  assumes ok: "loans_ok st" and room: "length (ms_loans st) < MAX_SPECIAL_HISTORY_KEYS"
    and new: "loan_of st q = None" and p: "ml_player l = q" "q \<noteq> 0"
  shows "loans_ok (st\<lparr>ms_loans := ms_loans st @ [l]\<rparr>)"
    and "loan_of (st\<lparr>ms_loans := ms_loans st @ [l]\<rparr>) = (loan_of st)(q \<mapsto> l)"
proof -
  have n: "q \<notin> ml_player ` set (ms_loans st)" using new p by (simp add: loan_of_def row_map_None)
  then show "loans_ok (st\<lparr>ms_loans := ms_loans st @ [l]\<rparr>)" using ok room p by (auto simp: loans_ok_def)
  have "row_map ml_player (ms_loans st) q = None" using n by (simp add: row_map_None)
  then show "loan_of (st\<lparr>ms_loans := ms_loans st @ [l]\<rparr>) = (loan_of st)(q \<mapsto> l)"
    using p by (auto simp: loan_of_def row_map_append map_add_def split: option.split)
qed

lemma loan_again_player: "ml_player (loan_again env a b c d n l) = ml_player l"
  by (simp add: loan_again_def Let_def)

lemma loans_of_duty [simp]: "ms_loans (kbo_set_military_days_left q n st) = ms_loans st"
  by (simp add: kbo_set_military_days_left_def update_duty_def)

lemma loan_of_cong: "ms_loans st' = ms_loans st \<Longrightarrow> loan_of st' = loan_of st \<and> loans_ok st' = loans_ok st"
  by (auto simp: loan_of_def loans_ok_def)

lemma register_ok:
  assumes ok: "loans_ok st"
  shows "loans_ok (register_active_kbo_military_loan env q a b c d st)"
    and "r \<noteq> q \<Longrightarrow> loan_of (register_active_kbo_military_loan env q a b c d st) r = loan_of st r"
    and "q \<noteq> 0 \<Longrightarrow> c \<noteq> 0 \<Longrightarrow> length (ms_loans st) < MAX_SPECIAL_HISTORY_KEYS \<Longrightarrow>
           \<exists>l. loan_of (register_active_kbo_military_loan env q a b c d st) q = Some l \<and> ml_service_team l = c"
proof -
  let ?st' = "register_active_kbo_military_loan env q a b c d st"
  have len: "length (ms_loans st) \<le> MAX_SPECIAL_HISTORY_KEYS" using ok by (simp add: loans_ok_def)
  let ?n = "days_at_registration env q st"
  have "loans_ok ?st' \<and> (r \<noteq> q \<longrightarrow> loan_of ?st' r = loan_of st r)
     \<and> (q \<noteq> 0 \<and> c \<noteq> 0 \<and> length (ms_loans st) < MAX_SPECIAL_HISTORY_KEYS
          \<longrightarrow> (\<exists>l. loan_of ?st' q = Some l \<and> ml_service_team l = c))"
  proof (cases "q = 0 \<or> c = 0")
    case True
    then show ?thesis using ok by (auto simp: register_active_kbo_military_loan_def)
  next
    case False
    show ?thesis
    proof (cases "active_loan q st")
      case None
      then have n: "loan_of st q = None" using active_loan_None [OF ok] by simp
      have f: "find_active_kbo_military_loan_index q st = None"
        using n False len by (simp add: loan_of_def row_map_first find_index_simp)
      let ?l = "new_loan env q a b c d ?n"
      have p: "ml_player ?l = q" "ml_service_team ?l = c" by (simp_all add: new_loan_def Let_def)
      show ?thesis
      proof (cases "length (ms_loans st) < MAX_SPECIAL_HISTORY_KEYS")
        case True
        have "ms_loans ?st' = ms_loans st @ [?l]"
          using False f True by (simp add: register_active_kbo_military_loan_def Let_def)
        then have "loan_of ?st' = loan_of (st\<lparr>ms_loans := ms_loans st @ [?l]\<rparr>)"
            "loans_ok ?st' = loans_ok (st\<lparr>ms_loans := ms_loans st @ [?l]\<rparr>)"
          using loan_of_cong [of ?st' "st\<lparr>ms_loans := ms_loans st @ [?l]\<rparr>"] by simp_all
        then show ?thesis using append_loan_ok [OF ok True n p(1)] p False by simp
      next
        case full: False
        then have "?st' = st" using False f by (simp add: register_active_kbo_military_loan_def Let_def)
        then show ?thesis using ok full by simp
      qed
    next
      case (Some il)
      obtain i l where il: "il = (i, l)" by (cases il)
      have f: "find_active_kbo_military_loan_index q st = Some i" and at: "kbo_active_military_loan_at i st = Some l"
        using Some by (auto simp: il active_loan_def split: option.splits)
      have lp: "ml_player l = q" using active_loan_Some [OF ok] Some loan_player il by blast
      let ?l = "loan_again env a b c d ?n l"
      have p: "ml_player ?l = q" "ml_service_team ?l = c"
        using lp by (simp_all add: loan_again_def Let_def)
      have "ms_loans ?st' = ms_loans (put_loan i ?l st)"
        using False f at by (simp add: register_active_kbo_military_loan_def Let_def)
      then have "loan_of ?st' = loan_of (put_loan i ?l st)" "loans_ok ?st' = loans_ok (put_loan i ?l st)"
        using loan_of_cong [of ?st' "put_loan i ?l st"] by simp_all
      then show ?thesis using put_loan_ok [OF ok Some [unfolded il] p(1)] p by simp
    qed
  qed
  then show "loans_ok ?st'" and "r \<noteq> q \<Longrightarrow> loan_of ?st' r = loan_of st r"
    and "q \<noteq> 0 \<Longrightarrow> c \<noteq> 0 \<Longrightarrow> length (ms_loans st) < MAX_SPECIAL_HISTORY_KEYS \<Longrightarrow>
           \<exists>l. loan_of ?st' q = Some l \<and> ml_service_team l = c" by simp_all
qed

section \<open>What a step on one player leaves alone\<close>

definition club_id :: "team_row \<Rightarrow> u32 \<times> u32 \<times> u32" where
  "club_id t = (tm_id t, tm_league_id t, tm_parent_team_id t)"

definition same_clubs :: "ms_state \<Rightarrow> ms_state \<Rightarrow> bool" where
  "same_clubs st st' \<longleftrightarrow>
     (\<forall>t. map_option club_id (fw_teams (ms_world st') t) = map_option club_id (fw_teams (ms_world st) t))"

definition same_player :: "u32 \<Rightarrow> ms_state \<Rightarrow> ms_state \<Rightarrow> bool" where
  "same_player r st st' \<longleftrightarrow> fw_players (ms_world st') r = fw_players (ms_world st) r
     \<and> ms_duties st' r = ms_duties st r \<and> loan_of st' r = loan_of st r"

definition touches :: "u32 \<Rightarrow> ms_state \<Rightarrow> ms_state \<Rightarrow> bool" where
  "touches q st st' \<longleftrightarrow> (loans_ok st \<longrightarrow>
     loans_ok st' \<and> same_clubs st st' \<and> fw_vector (ms_world st') = fw_vector (ms_world st)
     \<and> (\<forall>r. r \<noteq> q \<longrightarrow> same_player r st st'))"

named_theorems touch

lemma touches_refl [touch]: "touches q st st"
  by (simp add: touches_def same_clubs_def same_player_def)

lemma touches_trans: "touches q st st1 \<Longrightarrow> touches q st1 st2 \<Longrightarrow> touches q st st2"
  by (auto simp: touches_def same_clubs_def same_player_def)

lemma update_player_touches [touch]: "touches q st (update_player q f st)"
  using loan_of_cong [of "update_player q f st" st]
  by (simp add: touches_def same_clubs_def same_player_def update_player_def)

lemma update_base_touches [touch]: "touches q st (update_base q f st)"
  unfolding update_base_def by (rule update_player_touches)

lemma update_duty_touches [touch]: "touches q st (update_duty q f st)"
  using loan_of_cong [of "update_duty q f st" st]
  by (simp add: touches_def same_clubs_def same_player_def update_duty_def)

lemma put_loan_touches:
  assumes "active_loan q st = Some (i, l)" and "ml_player l' = q"
  shows "touches q st (put_loan i l' st)"
  using put_loan_ok [OF _ assms]
  by (simp add: touches_def same_clubs_def same_player_def put_loan_def)

lemma unregister_touches [touch]: "touches q st (unregister_active_kbo_military_loan q st)"
proof -
  have "ms_world (unregister_active_kbo_military_loan q st) = ms_world st"
    "ms_duties (unregister_active_kbo_military_loan q st) = ms_duties st"
    by (simp_all add: unregister_active_kbo_military_loan_def put_loan_def split: option.split)
  then show ?thesis using unregister_ok [of st q] by (simp add: touches_def same_clubs_def same_player_def)
qed

lemma days_left_touches [touch]: "touches q st (kbo_set_military_days_left q n st)"
  unfolding kbo_set_military_days_left_def by (rule update_duty_touches)

lemma set_days_simps:
  "ms_world (kbo_set_military_days_left q n st) = ms_world st"
  "r \<noteq> q \<Longrightarrow> ms_duties (kbo_set_military_days_left q n st) r = ms_duties st r"
  by (simp_all add: kbo_set_military_days_left_def update_duty_def)

lemma register_touches [touch]: "touches q st (register_active_kbo_military_loan env q a b c d st)"
proof -
  have "ms_world (register_active_kbo_military_loan env q a b c d st) = ms_world st"
    by (simp add: register_active_kbo_military_loan_def put_loan_def Let_def set_days_simps split: option.split)
  moreover have "r \<noteq> q \<Longrightarrow> ms_duties (register_active_kbo_military_loan env q a b c d st) r = ms_duties st r" for r
    by (simp add: register_active_kbo_military_loan_def put_loan_def Let_def set_days_simps split: option.split)
  ultimately show ?thesis
    by (simp add: touches_def same_clubs_def same_player_def register_ok(1,2))
qed

lemma clear_unavailable_touches [touch]: "touches q st (kbo_clear_military_unavailable_flags q st)"
  unfolding kbo_clear_military_unavailable_flags_def by (rule touches_trans [OF update_base_touches update_duty_touches])

lemma clear_status_touches [touch]: "touches q st (kbo_clear_military_status_flags q st)"
  unfolding kbo_clear_military_status_flags_def
  by (rule touches_trans [OF clear_unavailable_touches update_player_touches])

lemma complete_touches [touch]: "touches q st (complete_kbo_military_service_status q st)"
  unfolding complete_kbo_military_service_status_def
  by (rule touches_trans [OF touches_trans [OF clear_status_touches update_duty_touches] days_left_touches])

lemma clear_native_touches [touch]: "touches q st (kbo_clear_native_player_loan q st)"
  unfolding kbo_clear_native_player_loan_def by (rule touches_trans [OF update_base_touches update_duty_touches])

lemma repair_touches [touch]: "touches q st (kbo_military_repair_original_team_memory q a b c d e st)"
proof (cases "loans_ok st")
  case ok: True
  have "touches q st (case active_loan q st of None \<Rightarrow> st | Some (i, l) \<Rightarrow> put_loan i (repaired_loan a b c d e l) st)"
  proof (cases "active_loan q st")
    case (Some il)
    obtain i l where il: "il = (i, l)" by (cases il)
    have "ml_player l = q" using active_loan_Some [OF ok] Some loan_player il by blast
    then have "ml_player (repaired_loan a b c d e l) = q" by (simp add: repaired_loan_def Let_def)
    then show ?thesis using put_loan_touches Some il by simp
  qed (simp add: touches_refl)
  then show ?thesis
    by (auto simp: kbo_military_repair_original_team_memory_def Let_def touches_refl intro: touches_trans [OF _ update_base_touches])
qed (simp add: touches_def)

lemma with_array_club [simp]: "club_id (with_array a ids t) = club_id t"
  by (simp add: club_id_def with_array_def)

lemma remove_arrays_club [simp]: "club_id (fst (kbo_remove_player_id_from_known_team_roster_arrays q t)) = club_id t"
proof -
  have one: "club_id (fst (kbo_remove_player_id_from_team_fixed_array a q t)) = club_id t" for a t
    by (simp add: kbo_remove_player_id_from_team_fixed_array_def split_beta)
  have many: "club_id (fst (foldl (\<lambda>(team, removed) a.
         let (team', n) = kbo_remove_player_id_from_team_fixed_array a q team
         in (team', removed + n)) (t, n) as)) = club_id t" for as t n
  proof (induction as arbitrary: t n)
    case (Cons a as)
    show ?case by (simp add: split_beta Let_def Cons.IH [unfolded split_beta Let_def] one)
  qed simp
  show ?thesis
    by (simp add: kbo_remove_player_id_from_known_team_roster_arrays_def split_beta one
        kbo_remove_player_id_from_team_active_roster_arrays_def remove_from_arrays_def many [unfolded split_beta Let_def] Let_def)
qed

lemma add_arrays_club [simp]: "club_id (fst (kbo_add_player_id_to_team_assignment_arrays q t)) = club_id t"
  by (simp add: kbo_add_player_id_to_team_assignment_arrays_def kbo_add_player_id_to_team_fixed_array_def split_beta)

lemma assign_clubs:
  "map_option club_id (fw_teams (fst (kbo_assign_player_to_team_internal q t l u w)) x) = map_option club_id (fw_teams w x)"
  by (auto simp: kbo_assign_player_to_team_internal_def Let_def split_beta option.map_comp comp_def split: option.split)

lemma assign_players:
  "r \<noteq> q \<Longrightarrow> fw_players (fst (kbo_assign_player_to_team_internal q t l u w)) r = fw_players w r"
  by (auto simp: kbo_assign_player_to_team_internal_def Let_def split_beta split: option.split)

lemma assign_vector: "fw_vector (fst (kbo_assign_player_to_team_internal q t l u w)) = fw_vector w"
  by (auto simp: kbo_assign_player_to_team_internal_def Let_def split_beta split: option.split)

lemma assign_touches [touch]:
  "touches q st (st\<lparr>ms_world := fst (kbo_assign_player_to_team_internal q t l u (ms_world st))\<rparr>)"
  using loan_of_cong [of "st\<lparr>ms_world := fst (kbo_assign_player_to_team_internal q t l u (ms_world st))\<rparr>" st]
  by (simp add: touches_def same_clubs_def same_player_def assign_clubs assign_players assign_vector)

lemma assign_like_touches [touch]:
  "touches q st (st\<lparr>ms_world := fst (kbo_assign_player_to_team_like_ootp q t l (ms_world st))\<rparr>)"
  unfolding kbo_assign_player_to_team_like_ootp_def by (rule assign_touches)

text \<open>The steps that write neither a player nor a loan.\<close>

lemma books_touch:
  assumes "ms_world st' = ms_world st" and "ms_duties st' = ms_duties st" and "ms_loans st' = ms_loans st"
  shows "touches q st st'"
  using assms loan_of_cong [of st' st] by (simp add: touches_def same_clubs_def same_player_def)

lemma return_history_fields [simp]:
  "ms_world (record_return_history env q s o' st) = ms_world st"
  "ms_duties (record_return_history env q s o' st) = ms_duties st"
  "ms_loans (record_return_history env q s o' st) = ms_loans st"
  by (simp_all add: record_return_history_def run_insert_def kbo_mark_military_return_history_once_def Let_def)

lemma return_history_touches [touch]: "touches q st (record_return_history env p s o' st)"
  by (rule books_touch) simp_all

lemmas touch_steps = touches_refl
  touches_trans [OF _ update_player_touches] touches_trans [OF _ update_base_touches]
  touches_trans [OF _ update_duty_touches] touches_trans [OF _ unregister_touches]
  touches_trans [OF _ days_left_touches] touches_trans [OF _ register_touches]
  touches_trans [OF _ clear_unavailable_touches] touches_trans [OF _ clear_status_touches]
  touches_trans [OF _ complete_touches] touches_trans [OF _ clear_native_touches]
  touches_trans [OF _ repair_touches] touches_trans [OF _ assign_touches]
  touches_trans [OF _ assign_like_touches] touches_trans [OF _ return_history_touches]

lemma send_home_touches: "touches q st (send_home env q s t l st)"
proof -
  define st1 where "st1 = (if kbo_player_native_on_loan st q then kbo_clear_native_player_loan q st else st)"
  define st2 where "st2 = (case fw_players (ms_world st1) q of
                   None \<Rightarrow> st1
                 | Some p \<Rightarrow>
                     if pl_current_team (fq_base p) \<noteq> t
                     then st1\<lparr>ms_world := fst (kbo_assign_player_to_team_like_ootp q t l (ms_world st1))\<rparr>
                     else st1)"
  have "touches q st st1" by (simp add: st1_def touch)
  moreover have "touches q st1 st2" by (simp add: st2_def touch split: option.split)
  ultimately have "touches q st st2" by (rule touches_trans)
  then show ?thesis
    unfolding send_home_def Let_def st1_def [symmetric] st2_def [symmetric] by (intro touch_steps)
qed

lemma return_to_touches: "touches q st (snd (return_to env q s a b t l st))"
  by (auto simp: return_to_def Let_def split: option.split
      intro: touch_steps touches_trans [OF repair_touches send_home_touches])

lemma return_touches: "touches q st (snd (kbo_return_completed_military_loan_player env q b st))"
  by (simp add: kbo_return_completed_military_loan_player_def Let_def return_to_touches touches_refl split: option.split)

lemma release_touches: "touches q st (snd (kbo_release_invalid_military_service_team_assignment env q s st))"
proof (cases "live_player (ms_world st) q = None \<or> fw_teams (ms_world st) s = None \<or> s = 0")
  case True
  then show ?thesis
    by (auto simp: kbo_release_invalid_military_service_team_assignment_def touches_refl split: option.split)
next
  case False
  then obtain p team where pt: "live_player (ms_world st) q = Some p" "fw_teams (ms_world st) s = Some team" "s \<noteq> 0" by auto
  let ?w = "ms_world st"
  let ?st1 = "st\<lparr>ms_world := ?w\<lparr>fw_teams := (fw_teams ?w)(s := Some (fst (kbo_remove_player_id_from_known_team_roster_arrays q team)))\<rparr>\<rparr>"
  have "touches q st ?st1"
    using pt loan_of_cong [of ?st1 st] by (simp add: touches_def same_clubs_def same_player_def)
  then show ?thesis
    using pt by (simp add: kbo_release_invalid_military_service_team_assignment_def Let_def touch_steps)
qed

lemma discover_touches: "touches q st (discover_loan env q a b c st)"
  unfolding discover_loan_def Let_def by (intro touch_steps)

section \<open>The pass\<close>

lemma release_or_defer_touches:
  "touches q st (fst (kbo_military_tick_release_invalid_or_defer env inp q s (st, res)))"
  using release_touches [of q st env s]
  by (simp add: kbo_military_tick_release_invalid_or_defer_def split_beta touches_refl)

lemma return_or_defer_touches: "touches q st (fst (kbo_military_tick_return_or_defer env inp q (st, res)))"
  using return_touches [of q st env False]
  by (simp add: kbo_military_tick_return_or_defer_def split_beta touches_refl)

lemma repair_fields_player [simp]: "ml_player (kbo_military_tick_repair_loan_fields env n t l) = ml_player l"
  by (simp add: kbo_military_tick_repair_loan_fields_def Let_def)

lemma tick_loan_touches:
  assumes "active_loan q st = Some (i, l)" and "ml_player l = q"
  shows "touches q st (fst (tick_loan env inp q i l (st, res)))"
proof -
  have 1: "touches q st (put_loan i (kbo_military_tick_repair_loan_fields env n t l) st)" for n t
    by (rule put_loan_touches [OF assms(1)]) (simp add: assms(2))
  show ?thesis
    by (auto simp: tick_loan_def Let_def split_beta
        intro: touch_steps 1 touches_trans [OF _ return_or_defer_touches])
qed

lemma tick_unregistered_touches: "touches q st (fst (tick_unregistered env inp q s t (st, res)))"
  by (simp add: tick_unregistered_def Let_def touch release_or_defer_touches return_or_defer_touches)

lemma tick_rest_touches: "touches q st (fst (tick_rest env inp q s t (st, res)))"
proof (cases "loans_ok st")
  case ok: True
  show ?thesis
  proof (cases "active_loan q st")
    case None
    then show ?thesis
      by (auto simp: tick_rest_def active_loan_def tick_unregistered_touches touches_refl split: option.splits)
  next
    case (Some il)
    obtain i l where il: "il = (i, l)" by (cases il)
    have "ml_player l = q" using active_loan_Some [OF ok] Some loan_player il by blast
    then have "touches q st (fst (tick_loan env inp q i l (st, res)))"
      using tick_loan_touches Some il by blast
    then show ?thesis
      using Some il by (auto simp: tick_rest_def active_loan_def split: option.splits)
  qed
qed (simp add: touches_def)

lemma prepare_touches: "touches q st (fst (prepare_loan env inp q s h (st, res)))"
  by (simp add: prepare_loan_def Let_def touch touches_trans [OF repair_touches discover_touches] discover_touches)

lemma tick_player_touches: "touches q (fst acc) (fst (tick_player env inp q acc))"
proof -
  obtain st res where acc: "acc = (st, res)" by (cases acc)
  have "touches q st (fst (tick_rest env inp q s t (prepare_loan env inp q s h (st, r))))" for s t h r
    using touches_trans [OF prepare_touches tick_rest_touches]
    by (cases "prepare_loan env inp q s h (st, r)") (metis fst_conv)
  then show ?thesis
    by (auto simp: acc tick_player_def Let_def touches_refl release_or_defer_touches split: option.split)
qed

lemma pass_loop_keeps:
  assumes "loans_ok (fst acc)"
  shows "loans_ok (fst (pass_loop env inp n ids acc))
    \<and> same_clubs (fst acc) (fst (pass_loop env inp n ids acc))
    \<and> (\<forall>r. r \<notin> set ids \<longrightarrow> same_player r (fst acc) (fst (pass_loop env inp n ids acc)))"
  using assms
proof (induction ids arbitrary: n acc)
  case (Cons q ids)
  let ?acc = "tick_player env inp q acc"
  have t: "loans_ok (fst ?acc)" "same_clubs (fst acc) (fst ?acc)" "\<forall>r. r \<noteq> q \<longrightarrow> same_player r (fst acc) (fst ?acc)"
    using tick_player_touches [of q acc env inp] Cons.prems by (auto simp: touches_def)
  note ih = Cons.IH [OF t(1)]
  show ?case
    using ih t Cons.prems by (fastforce simp: same_clubs_def same_player_def)
qed (simp add: same_clubs_def same_player_def)

end
