(* ===== verification/MilitaryProps.thy ===== *)
theory MilitaryProps
  imports MilitaryLemmas
begin

text \<open>
  Properties of the military service: the table of the loans has at most one loan of a player, a
  return restores the player, on the day of the return every player whose club is known goes
  home, and until then the days of his object are counted down.
\<close>

section \<open>The return of a player\<close>

definition clubs_keyed :: "ms_state \<Rightarrow> bool" where
  "clubs_keyed st \<longleftrightarrow> (\<forall>t team. fw_teams (ms_world st) t = Some team \<longrightarrow> tm_id team = t)"

lemma same_clubs_team:
  assumes "same_clubs st st'" and "fw_teams (ms_world st) t = Some team"
  obtains team' where "fw_teams (ms_world st') t = Some team'" and "club_id team' = club_id team"
  using assms by (metis (no_types, lifting) map_option_eq_Some same_clubs_def)

lemma clubs_keyed_same: "same_clubs st st' \<Longrightarrow> clubs_keyed st \<Longrightarrow> clubs_keyed st'"
proof -
  assume s: "same_clubs st st'" and k: "clubs_keyed st"
  have "tm_id team = t" if f: "fw_teams (ms_world st') t = Some team" for t team
  proof -
    have s': "same_clubs st' st" using s by (simp add: same_clubs_def)
    obtain team' where "fw_teams (ms_world st) t = Some team'" "club_id team' = club_id team"
      by (rule same_clubs_team [OF s' f])
    then show ?thesis using k by (auto simp: clubs_keyed_def club_id_def)
  qed
  then show ?thesis by (simp add: clubs_keyed_def)
qed

text \<open>At home: the player is on his club, nothing of the service is left on his object.\<close>

definition at_home :: "ms_state \<Rightarrow> u32 \<Rightarrow> u32 \<Rightarrow> bool" where
  "at_home st q home \<longleftrightarrow>
     (\<exists>p. fw_players (ms_world st) q = Some p \<and> pl_current_team (fq_base p) = home \<and> pl_loan_team (fq_base p) = 0
        \<and> pl_restricted (fq_base p) = 0 \<and> pl_secondary_restricted (fq_base p) = 0 \<and> fq_military p = 0)
     \<and> md_exempt (ms_duties st q) = 1 \<and> md_days_left (ms_duties st q) = 0 \<and> md_injury_active (ms_duties st q) = 0
     \<and> md_loan_active (ms_duties st q) = 0 \<and> md_loan_league (ms_duties st q) = 0 \<and> loan_of st q = None"

lemma unregister_world [simp]:
  "ms_world (unregister_active_kbo_military_loan q st) = ms_world st"
  "ms_duties (unregister_active_kbo_military_loan q st) = ms_duties st"
  by (simp_all add: unregister_active_kbo_military_loan_def put_loan_def split: option.split)

lemma update_fields [simp]:
  "ms_duties (update_player q f st) = ms_duties st"
  "ms_duties (update_base q g st) = ms_duties st"
  "ms_world (update_duty q h st) = ms_world st"
  "ms_duties (update_duty q h st) q = h (ms_duties st q)"
  "ms_world (kbo_set_military_days_left q n st) = ms_world st"
  "fw_players (ms_world (update_player q f st)) q = map_option f (fw_players (ms_world st) q)"
  "fw_players (ms_world (update_base q g st)) q
     = map_option (\<lambda>p. p\<lparr>fq_base := g (fq_base p)\<rparr>) (fw_players (ms_world st) q)"
  by (simp_all add: update_player_def update_base_def update_duty_def kbo_set_military_days_left_def)

lemma complete_fields:
  "fw_players (ms_world (complete_kbo_military_service_status q st)) q =
     map_option (\<lambda>p. p\<lparr>fq_base := (fq_base p)\<lparr>pl_restricted := 0, pl_secondary_restricted := 0\<rparr>, fq_military := 0\<rparr>)
       (fw_players (ms_world st) q)"
  "ms_duties (complete_kbo_military_service_status q st) q =
     (ms_duties st q)\<lparr>md_injury_active := 0, md_exempt := 1, md_days_left := 0\<rparr>"
  by (simp_all add: complete_kbo_military_service_status_def kbo_clear_military_status_flags_def
      kbo_clear_military_unavailable_flags_def kbo_set_military_days_left_def option.map_comp comp_def)

lemma send_home_at_home:
  assumes p: "fw_players (ms_world st) q = Some p" and t: "fw_teams (ms_world st) home = Some t"
    and k: "tm_id t = home" "home \<noteq> 0" and ok: "loans_ok st"
  shows "at_home (send_home env q service home league st) q home"
proof -
  define st1 where "st1 = (if kbo_player_native_on_loan st q then kbo_clear_native_player_loan q st else st)"
  define st2 where "st2 = (case fw_players (ms_world st1) q of
                   None \<Rightarrow> st1
                 | Some p \<Rightarrow>
                     if pl_current_team (fq_base p) \<noteq> home
                     then st1\<lparr>ms_world := fst (kbo_assign_player_to_team_like_ootp q home league (ms_world st1))\<rparr>
                     else st1)"
  define st3 where "st3 = update_duty q
                  (\<lambda>d. d\<lparr>md_loan_league := 0, md_loan_active := 0, md_loan_cleared := 1, md_loan_dirty := 0\<rparr>)
                  (update_base q (\<lambda>b. b\<lparr>pl_loan_team := 0\<rparr>) st2)"
  have t1: "touches q st st1" by (simp add: st1_def touch)
  have 1: "\<exists>p1. fw_players (ms_world st1) q = Some p1" "fw_teams (ms_world st1) home = Some t"
    using p t by (simp_all add: st1_def kbo_clear_native_player_loan_def update_duty_def update_base_def update_player_def)
  then obtain p1 where p1: "fw_players (ms_world st1) q = Some p1" by blast
  have t2: "touches q st1 st2" by (simp add: st2_def touch split: option.split)
  have "\<exists>p2. fw_players (ms_world st2) q = Some p2 \<and> pl_current_team (fq_base p2) = home"
    using p1 1(2) k by (simp add: st2_def kbo_assign_player_to_team_like_ootp_def kbo_assign_player_to_team_internal_def
        Let_def split_beta)
  then obtain p2 where p2: "fw_players (ms_world st2) q = Some p2" "pl_current_team (fq_base p2) = home" by blast
  have "touches q st2 st3" unfolding st3_def by (intro touch_steps)
  then have ok3: "touches q st (complete_kbo_military_service_status q st3)"
    using t1 t2 by (intro touches_trans [OF _ complete_touches]) (blast intro: touches_trans)
  let ?st4 = "unregister_active_kbo_military_loan q (complete_kbo_military_service_status q st3)"
  have loans: "loan_of ?st4 q = None" using unregister_ok ok3 ok by (simp add: touches_def)
  have "at_home ?st4 q home"
    using p2 loans
    by (simp add: at_home_def st3_def complete_fields)
  moreover have "send_home env q service home league st = record_return_history env q service home ?st4"
    unfolding send_home_def Let_def st1_def [symmetric] st2_def [symmetric] st3_def [symmetric] ..
  moreover have "loan_of (record_return_history env q service home ?st4) = loan_of ?st4"
    by (simp add: loan_of_def fun_eq_iff)
  ultimately show ?thesis by (simp add: at_home_def)
qed

text \<open>
  A completed return of a player restores him whatever it found: he plays for a club that is
  not the one of his service, no field of his object speaks of the service any more, he is exempt
  from now on and has no loan.  No other player and no other loan is touched.
\<close>

lemma completed_return_restores_player:
  assumes ret: "kbo_return_completed_military_loan_player env q req st = (True, st')"
    and ok: "loans_ok st" and keyed: "clubs_keyed st"
  shows "\<exists>home. home \<noteq> 0 \<and> at_home st' q home
      \<and> (case loan_of st q of None \<Rightarrow> True | Some l \<Rightarrow> ml_service_team l \<noteq> 0 \<longrightarrow> home \<noteq> ml_service_team l)"
    and "r \<noteq> q \<Longrightarrow> same_player r st st'" and "loans_ok st'"
proof -
  have "touches q st st'" using return_touches [of q st env req] ret by simp
  then show "r \<noteq> q \<Longrightarrow> same_player r st st'" and "loans_ok st'" using ok by (simp_all add: touches_def)
  let ?loan = "map_option snd (active_loan q st)"
  obtain p where p: "live_player (ms_world st) q = Some p"
    using ret by (auto simp: kbo_return_completed_military_loan_player_def split: option.splits)
  then obtain service sang kpb home league where r: "return_to env q service sang kpb home league st = (True, st')"
      and h: "home \<noteq> 0" "home \<noteq> service"
      and s: "service = service_team_of (case ?loan of None \<Rightarrow> 0 | Some l \<Rightarrow> ml_service_team l) sang kpb (fq_base p)"
    using ret by (simp add: kbo_return_completed_military_loan_player_def Let_def split: if_splits)
  define st1 where "st1 = kbo_military_repair_original_team_memory q home league service sang kpb st"
  obtain t where t: "live_team env st1 home = Some t"
      and st': "st' = send_home env q service home (if league \<noteq> 0 then league else tm_league_id t) st1"
    using r by (auto simp: return_to_def Let_def st1_def [symmetric] split: if_splits option.splits)
  have touch1: "touches q st st1" unfolding st1_def by (rule repair_touches)
  have ok1: "loans_ok st1" "clubs_keyed st1"
    using touch1 ok clubs_keyed_same [OF _ keyed] by (auto simp: touches_def)
  have p1: "\<exists>p1. fw_players (ms_world st1) q = Some p1"
    using p by (auto simp: st1_def kbo_military_repair_original_team_memory_def live_player_def update_base_def
        update_player_def put_loan_def Let_def split: option.splits if_splits)
  have t1: "fw_teams (ms_world st1) home = Some t" using t by (simp add: live_team_def split: if_splits)
  then have "tm_id t = home" using ok1 by (simp add: clubs_keyed_def)
  then have "at_home st' q home" using send_home_at_home [OF _ t1 _ h(1) ok1(1)] p1 st' by auto
  moreover have "case loan_of st q of None \<Rightarrow> True | Some l \<Rightarrow> ml_service_team l \<noteq> 0 \<longrightarrow> home \<noteq> ml_service_team l"
    using s h loan_of_active [OF ok, of q] by (auto simp: service_team_of_def split: option.splits)
  ultimately show "\<exists>home. home \<noteq> 0 \<and> at_home st' q home
      \<and> (case loan_of st q of None \<Rightarrow> True | Some l \<Rightarrow> ml_service_team l \<noteq> 0 \<longrightarrow> home \<noteq> ml_service_team l)"
    using h by blast
qed

section \<open>The day of the return\<close>

lemma live_player_same: "same_player q st st' \<Longrightarrow> live_player (ms_world st') q = live_player (ms_world st) q"
  by (simp add: same_player_def live_player_def)

lemma live_team_same:
  assumes "same_clubs st st'" and "live_team env st t = Some team"
  obtains team' where "live_team env st' t = Some team'" and "club_id team' = club_id team"
  using assms(2) same_clubs_team [OF assms(1), of t team] by (auto simp: live_team_def split: if_splits)

text \<open>
  The club a player goes back to: the one the seed files name, else the one of his loan.
\<close>

definition home_known :: "ms_env \<Rightarrow> pass_input \<Rightarrow> ms_state \<Rightarrow> ms_loan \<Rightarrow> u32 \<Rightarrow> bool" where
  "home_known env inp st l home \<longleftrightarrow>
     home \<noteq> 0 \<and> home \<noteq> ml_service_team l \<and> home \<noteq> pi_sang inp \<and> home \<noteq> pi_kpb inp
     \<and> live_team env st home \<noteq> None
     \<and> (case kbo_military_find_team_from_seed_code env st (seed_original_code (ml_player l) (me_seeds env)) of
          None \<Rightarrow> ml_original_team l = home
        | Some t \<Rightarrow> tm_id t = home)"

lemma find_team_same:
  assumes "same_clubs st st'"
  shows "map_option club_id (kbo_military_find_team_from_seed_code env st' code)
       = map_option club_id (kbo_military_find_team_from_seed_code env st code)"
  using assms
  by (auto simp: kbo_military_find_team_from_seed_code_def live_team_def same_clubs_def split: option.split)

lemma home_known_same:
  assumes s: "same_clubs st st'" and h: "home_known env inp st l home"
    and l: "ml_player l' = ml_player l" "ml_service_team l' = ml_service_team l" "ml_original_team l' = ml_original_team l"
  shows "home_known env inp st' l' home"
proof -
  let ?c = "seed_original_code (ml_player l) (me_seeds env)"
  have "live_team env st' home \<noteq> None" using h live_team_same [OF s, of env home] by (auto simp: home_known_def)
  moreover have "case kbo_military_find_team_from_seed_code env st' ?c of
          None \<Rightarrow> ml_original_team l = home | Some t \<Rightarrow> tm_id t = home"
    using find_team_same [OF s, of env ?c] h by (auto simp: home_known_def club_id_def split: option.splits)
  ultimately show ?thesis using h l by (simp add: home_known_def cong: option.case_cong)
qed

lemma resolves_home:
  assumes ok: "loans_ok st" and p: "live_player (ms_world st) q = Some p" and l: "loan_of st q = Some l"
    and h: "home_known env inp st l home" and n: "\<not> kbo_military_service_team_id_matches home s a b"
  shows "\<exists>lg. kbo_military_resolve_original_team env st q s a b = Some (home, lg)"
proof -
  obtain i where a: "active_loan q st = Some (i, l)" using loan_of_active [OF ok, of q] l by auto
  have q: "ml_player l = q" "q \<noteq> 0" using loan_player [OF l] by auto
  obtain t where t: "live_team env st home = Some t" using h by (auto simp: home_known_def)
  show ?thesis
  proof (cases "kbo_military_find_team_from_seed_code env st (seed_original_code q (me_seeds env))")
    case None
    then have o': "ml_original_team l = home" "home \<noteq> 0" using h q by (auto simp: home_known_def)
    have "kbo_military_original_team_from_seed env st q s a b = None"
      using None by (simp add: kbo_military_original_team_from_seed_def)
    then show ?thesis
      using p a o' n t by (simp add: kbo_military_resolve_original_team_def Let_def kbo_military_original_team_from_id_def)
  next
    case (Some t')
    then have "tm_id t' = home" using h q by (simp add: home_known_def)
    then have "kbo_military_original_team_from_seed env st q s a b = Some (home, tm_league_id t')"
      using Some q n by (simp add: kbo_military_original_team_from_seed_def)
    then show ?thesis using p by (simp add: kbo_military_resolve_original_team_def)
  qed
qed

lemma repaired_loan_fields [simp]:
  "ml_player (repaired_loan h lg s a b l) = ml_player l"
  "ml_service_team (repaired_loan h lg s a b l) = ml_service_team l"
  "ml_return (repaired_loan h lg s a b l) = ml_return l"
  by (simp_all add: repaired_loan_def Let_def)

lemma repaired_loan_home:
  "ml_original_team l = h \<Longrightarrow> ml_original_team (repaired_loan h lg s a b l) = h"
  by (simp add: repaired_loan_def Let_def)

lemma repair_facts:
  fixes lg :: u32
  assumes ok: "loans_ok st" and p: "live_player (ms_world st) q = Some p" and l: "loan_of st q = Some l"
    and h: "h \<noteq> 0" "\<not> kbo_military_service_team_id_matches h s a b"
  defines "st' \<equiv> kbo_military_repair_original_team_memory q h lg s a b st"
  shows "loan_of st' q = Some (repaired_loan h lg s a b l)"
    and "live_player (ms_world st') q = Some (p\<lparr>fq_base := repaired_base h lg s a b (fq_base p)\<rparr>)"
    and "ms_duties st' = ms_duties st"
proof -
  obtain i where a: "active_loan q st = Some (i, l)" using loan_of_active [OF ok, of q] l by auto
  have q: "ml_player l = q" using loan_player [OF l] by simp
  have f: "fw_players (ms_world st) q = Some p" using p by (auto simp: live_player_def split: option.splits if_splits)
  let ?st1 = "put_loan i (repaired_loan h lg s a b l) st"
  have st': "st' = update_base q (repaired_base h lg s a b) ?st1"
    using h p a by (simp add: st'_def kbo_military_repair_original_team_memory_def)
  have "loan_of st' = loan_of ?st1" unfolding st' by (simp add: update_base_def update_player_def loan_of_def fun_eq_iff)
  then show "loan_of st' q = Some (repaired_loan h lg s a b l)"
    using put_loan_ok(2) [OF ok a, of "repaired_loan h lg s a b l"] q by simp
  have w: "ms_world ?st1 = ms_world st" "ms_duties ?st1 = ms_duties st" by (simp_all add: put_loan_def)
  show "ms_duties st' = ms_duties st" unfolding st' using w by simp
  have "fw_players (ms_world st') q = Some (p\<lparr>fq_base := repaired_base h lg s a b (fq_base p)\<rparr>)"
    unfolding st' using w f by simp
  then show "live_player (ms_world st') q = Some (p\<lparr>fq_base := repaired_base h lg s a b (fq_base p)\<rparr>)"
    using p f by (simp add: live_player_def split: if_splits)
qed

lemma effective_days:
  assumes ok: "loans_ok st" and p: "live_player (ms_world st) q = Some p" and l: "loan_of st q = Some l"
    and "ml_return l \<noteq> 0" and "kbo_current_date_serial env \<noteq> 0"
  shows "kbo_military_effective_days_left env q st =
     kbo_military_days_left_from_return_serial (ml_return l) (kbo_current_date_serial env)"
proof -
  obtain i where "active_loan q st = Some (i, l)" using loan_of_active [OF ok, of q] l by auto
  then show ?thesis using assms by (simp add: kbo_military_effective_days_left_def)
qed

lemma return_serving:
  assumes ok: "loans_ok st" "clubs_keyed st"
    and p: "live_player (ms_world st) q = Some p" and l: "loan_of st q = Some l"
    and h: "home_known env inp st l home" and s: "ml_service_team l \<noteq> 0"
    and d: "ml_return l \<noteq> 0" "kbo_current_date_serial env \<noteq> 0" "ml_return l \<le> kbo_current_date_serial env"
  shows "at_home (snd (kbo_return_completed_military_loan_player env q False st)) q home"
proof -
  let ?s = "ml_service_team l"
  have hs: "home \<noteq> 0" "home \<noteq> ?s" using h by (auto simp: home_known_def)
  have n: "\<not> kbo_military_service_team_id_matches home ?s 0 0"
    using hs by (simp add: kbo_military_service_team_id_matches_def)
  obtain lg where r: "kbo_military_resolve_original_team env st q ?s 0 0 = Some (home, lg)"
    using resolves_home [OF ok(1) p l h n] by blast
  obtain i where a: "active_loan q st = Some (i, l)" using loan_of_active [OF ok(1), of q] l by auto
  define league where "league = (if lg \<noteq> 0 then lg else if ml_original_league l \<noteq> 0 then ml_original_league l
                        else pl_original_league (fq_base p))"
  have ret: "kbo_return_completed_military_loan_player env q False st = return_to env q ?s 0 0 home league st"
    using p a s r hs by (simp add: kbo_return_completed_military_loan_player_def Let_def service_team_of_def league_def)
  define st1 where "st1 = kbo_military_repair_original_team_memory q home league ?s 0 0 st"
  note f = repair_facts [OF ok(1) p l hs(1) n, of league, folded st1_def]
  have t1: "touches q st st1" unfolding st1_def by (rule repair_touches)
  have ok1: "loans_ok st1" "same_clubs st st1" using t1 ok by (auto simp: touches_def)
  have k1: "clubs_keyed st1" by (rule clubs_keyed_same [OF ok1(2) ok(2)])
  have days: "kbo_military_effective_days_left env q st1 = 0"
    using effective_days [OF ok1(1) f(2,1)] d by (simp add: kbo_military_days_left_from_return_serial_def)
  obtain t where t0: "live_team env st home = Some t" using h by (auto simp: home_known_def)
  obtain t' where t': "live_team env st1 home = Some t'" by (rule live_team_same [OF ok1(2) t0])
  then have f1: "fw_teams (ms_world st1) home = Some t'" by (simp add: live_team_def split: if_splits)
  then have k: "tm_id t' = home" using k1 by (simp add: clubs_keyed_def)
  have p1: "fw_players (ms_world st1) q = Some (p\<lparr>fq_base := repaired_base home league ?s 0 0 (fq_base p)\<rparr>)"
    using f(2) by (auto simp: live_player_def split: option.splits if_splits)
  have "snd (return_to env q ?s 0 0 home league st)
      = send_home env q ?s home (if league \<noteq> 0 then league else tm_league_id t') st1"
    using days t' by (simp add: return_to_def st1_def [symmetric])
  then show ?thesis using send_home_at_home [OF p1 f1 k hs(1) ok1(1)] ret by simp
qed

lemma i16_small: "0 \<le> n \<Longrightarrow> n \<le> 32767 \<Longrightarrow> i16 n = n"
  unfolding i16_def by (subst signed_of_int) (simp add: signed_take_bit_int_eq_self)

lemma days_left_range: "0 \<le> kbo_military_days_left_from_return_serial r t \<and> kbo_military_days_left_from_return_serial r t \<le> 32767"
  by (auto simp: kbo_military_days_left_from_return_serial_def Let_def word_le_def not_less)

lemma put_loan_fields [simp]:
  "ms_world (put_loan i l st) = ms_world st" "ms_duties (put_loan i l st) = ms_duties st"
  by (simp_all add: put_loan_def)

lemma repair_fields_keep:
  "ml_return l \<noteq> 0 \<Longrightarrow> ml_return (kbo_military_tick_repair_loan_fields env n t l) = ml_return l"
  "ml_service_team (kbo_military_tick_repair_loan_fields env n t l) = ml_service_team l"
  "ml_original_team (kbo_military_tick_repair_loan_fields env n t l) = ml_original_team l"
  by (simp_all add: kbo_military_tick_repair_loan_fields_def Let_def)

lemma days_left_positive:
  assumes "t < r" and "t \<noteq> 0"
  shows "0 < kbo_military_days_left_from_return_serial r t"
proof -
  have "r \<noteq> 0" "r - t \<noteq> 0" using assms by auto
  then have "uint (r - t) \<noteq> 0" by (metis uint_0_iff)
  then have "0 < uint (r - t)" by (simp add: order_less_le)
  then show ?thesis using assms \<open>r \<noteq> 0\<close> by (simp add: kbo_military_days_left_from_return_serial_def Let_def)
qed

text \<open>Counting: the loan is kept, the object shows the days to the return.\<close>

definition serving_until :: "ms_state \<Rightarrow> u32 \<Rightarrow> u32 \<Rightarrow> int \<Rightarrow> bool" where
  "serving_until st q back days \<longleftrightarrow>
     (\<exists>l. loan_of st q = Some l \<and> ml_return l = back) \<and> md_days_left (ms_duties st q) = days"

lemma tick_loan_serving:
  assumes ok: "loans_ok st" "clubs_keyed st"
    and p: "live_player (ms_world st) q = Some p" and a: "active_loan q st = Some (i, l)"
    and h: "home_known env inp st l home" and s: "ml_service_team l \<noteq> 0"
    and r: "ml_return l \<noteq> 0" and today: "pi_today inp = kbo_current_date_serial env" "pi_today inp \<noteq> 0"
    and m: "pi_mutation inp"
  shows "if ml_return l \<le> pi_today inp then at_home (fst (tick_loan env inp q i l (st, res))) q home
     else serving_until (fst (tick_loan env inp q i l (st, res))) q (ml_return l)
            (kbo_military_days_left_from_return_serial (ml_return l) (pi_today inp))"
proof -
  define stored where "stored = kbo_military_days_left st q"
  define l2 where "l2 = kbo_military_tick_repair_loan_fields env stored (pi_today inp) l"
  define managed where "managed = kbo_military_days_left_from_return_serial (ml_return l) (pi_today inp)"
  define st3 where "st3 = (if stored \<noteq> managed then kbo_set_military_days_left q managed (put_loan i l2 st)
                           else put_loan i l2 st)"
  have l: "loan_of st q = Some l" by (rule active_loan_Some [OF ok(1) a])
  have l2: "ml_player l2 = q" "ml_return l2 = ml_return l" "ml_service_team l2 = ml_service_team l"
      "ml_original_team l2 = ml_original_team l" "ml_player l2 = ml_player l"
    using loan_player [OF l] r by (simp_all add: l2_def repair_fields_keep)
  have w: "ms_world st3 = ms_world st" by (simp add: st3_def)
  have "ms_loans st3 = ms_loans (put_loan i l2 st)" by (simp add: st3_def)
  then have loans: "loan_of st3 q = Some l2" "loans_ok st3"
    using put_loan_ok [OF ok(1) a l2(1)] loan_of_cong [of st3 "put_loan i l2 st"] by auto
  have clubs: "same_clubs st st3" using w by (simp add: same_clubs_def)
  have eff: "(if stored \<noteq> managed then (kbo_set_military_days_left q managed (put_loan i l2 st), r1) else (put_loan i l2 st, r2))
      = (st3, if stored \<noteq> managed then r1 else r2)" for r1 r2 :: pass_result by (simp add: st3_def)
  show ?thesis
  proof (cases "ml_return l \<le> pi_today inp")
    case True
    then have m0: "managed = 0" by (simp add: managed_def kbo_military_days_left_from_return_serial_def)
    have "fst (tick_loan env inp q i l (st, res)) = snd (kbo_return_completed_military_loan_player env q False st3)"
      unfolding tick_loan_def Let_def prod.case stored_def [symmetric] l2_def [symmetric] l2(2) managed_def [symmetric]
      using m m0 by (simp add: kbo_military_tick_return_or_defer_def split_beta st3_def)
    moreover have "at_home (snd (kbo_return_completed_military_loan_player env q False st3)) q home"
    proof (rule return_serving [OF loans(2) clubs_keyed_same [OF clubs ok(2)] _ loans(1)])
      show "live_player (ms_world st3) q = Some p" using p w by simp
      show "home_known env inp st3 l2 home" by (rule home_known_same [OF clubs h l2(5,3,4)])
    qed (use s r today True l2 in auto)
    ultimately show ?thesis using True by simp
  next
    case False
    then have pos: "\<not> managed \<le> 0"
      using r today days_left_positive [of "pi_today inp" "ml_return l"] by (simp add: managed_def not_le)
    have res: "fst (tick_loan env inp q i l (st, res)) = kbo_clear_military_unavailable_flags q st3"
      unfolding tick_loan_def Let_def prod.case stored_def [symmetric] l2_def [symmetric] l2(2) managed_def [symmetric]
      using pos by (simp add: split_beta st3_def)
    have "md_days_left (ms_duties st3 q) = managed"
      using days_left_range [of "ml_return l" "pi_today inp", folded managed_def] pos
      by (auto simp: st3_def kbo_set_military_days_left_def i16_small stored_def kbo_military_days_left_def)
    moreover have "loan_of (kbo_clear_military_unavailable_flags q st3) = loan_of st3"
      by (simp add: kbo_clear_military_unavailable_flags_def update_duty_def update_base_def update_player_def loan_of_def fun_eq_iff)
    ultimately show ?thesis
      using False loans l2(2) by (simp add: res serving_until_def managed_def kbo_clear_military_unavailable_flags_def)
  qed
qed

lemma tick_player_serving:
  assumes ok: "loans_ok st" "clubs_keyed st"
    and p: "live_player (ms_world st) q = Some p" and l: "loan_of st q = Some l"
    and h: "home_known env inp st l home"
    and s: "ml_service_team l = pass_service_team inp (fq_base p)" "ml_service_team l \<noteq> 0"
    and r: "ml_return l \<noteq> 0" and today: "pi_today inp = kbo_current_date_serial env" "pi_today inp \<noteq> 0"
    and m: "pi_mutation inp"
  shows "if ml_return l \<le> pi_today inp then at_home (fst (tick_player env inp q (st, res))) q home
     else serving_until (fst (tick_player env inp q (st, res))) q (ml_return l)
            (kbo_military_days_left_from_return_serial (ml_return l) (pi_today inp))"
proof -
  let ?s = "ml_service_team l" and ?a = "pi_sang inp" and ?b = "pi_kpb inp"
  have hs: "home \<noteq> 0" "home \<noteq> ?s" "home \<noteq> ?a" "home \<noteq> ?b" using h by (auto simp: home_known_def)
  have n: "\<not> kbo_military_service_team_id_matches home ?s ?a ?b"
    using hs by (simp add: kbo_military_service_team_id_matches_def)
  obtain lg where res: "kbo_military_resolve_original_team env st q ?s ?a ?b = Some (home, lg)"
    using resolves_home [OF ok(1) p l h n] by blast
  have f0: "find_active_kbo_military_loan_index q st \<noteq> None"
    using loan_of_active [OF ok(1), of q] l by (auto simp: active_loan_def split: option.splits)
  define st1 where "st1 = kbo_military_repair_original_team_memory q home lg ?s ?a ?b st"
  note f = repair_facts [OF ok(1) p l hs(1) n, of lg, folded st1_def]
  have t1: "touches q st st1" unfolding st1_def by (rule repair_touches)
  have ok1: "loans_ok st1" "same_clubs st st1" using t1 ok by (auto simp: touches_def)
  have k1: "clubs_keyed st1" by (rule clubs_keyed_same [OF ok1(2) ok(2)])
  let ?l1 = "repaired_loan home lg ?s ?a ?b l"
  obtain i where a1: "active_loan q st1 = Some (i, ?l1)" using loan_of_active [OF ok1(1), of q] f(1) by auto
  have prep: "prepare_loan env inp q ?s (home, lg) (st, r0) = (st1, r0)" for r0
    using f0 hs by (auto simp: prepare_loan_def known_home_def st1_def Let_def)
  have tick: "tick_player env inp q (st, res0) = tick_loan env inp q i ?l1 (st1, res0\<lparr>pr_tracked := pr_tracked res0 + 1\<rparr>)" for res0
    using p f0 s res a1
    by (auto simp: tick_player_def s(1) [symmetric] prep tick_rest_def active_loan_def split: option.splits)
  have h1: "home_known env inp st1 ?l1 home"
  proof -
    have "home_known env inp st1 l home" by (rule home_known_same [OF ok1(2) h]) simp_all
    then show ?thesis by (auto simp: home_known_def repaired_loan_home split: option.splits)
  qed
  show ?thesis
    unfolding tick
    by (rule tick_loan_serving [OF ok1(1) k1 f(2) a1 h1, unfolded repaired_loan_fields, OF s(2) r today m])
qed

section \<open>The day as a whole\<close>

lemma pass_loop_append:
  assumes "\<forall>i. \<not> me_saving env i"
  shows "pass_loop env inp n (as @ bs) acc = pass_loop env inp (n + length as) bs (pass_loop env inp n as acc)"
  using assms by (induction as arbitrary: n acc) auto

definition day_input :: "ms_env \<Rightarrow> ms_state \<Rightarrow> u32 \<Rightarrow> pass_input" where
  "day_input env st date =
     \<lparr>pi_today = serial_of date, pi_sang = csv_team_id env st ''SANG'', pi_kpb = csv_team_id env st ''KPB'',
      pi_mutation = True\<rparr>"

lemma day_input_today [simp]: "pi_today (day_input env st date) = serial_of date" "pi_mutation (day_input env st date)"
  by (simp_all add: day_input_def)

definition day_ready :: "ms_env \<Rightarrow> ms_state \<Rightarrow> u32 \<Rightarrow> u32 list \<Rightarrow> bool" where
  "day_ready env st date ids \<longleftrightarrow>
     me_enabled env \<and> \<not> me_save_started env \<and> me_save_ready env \<and> \<not> me_guard env \<and> (\<forall>i. \<not> me_saving env i)
     \<and> me_latest env = Some date \<and> kbo_yyyymmdd_valid date
     \<and> (\<exists>base. readable_vector (ms_world st) = Some (base, ids)) \<and> distinct ids
     \<and> loans_ok st \<and> clubs_keyed st"

definition serves :: "ms_env \<Rightarrow> ms_state \<Rightarrow> u32 \<Rightarrow> u32 \<Rightarrow> ms_loan \<Rightarrow> u32 \<Rightarrow> bool" where
  "serves env st date q l home \<longleftrightarrow>
     loan_of st q = Some l \<and> home_known env (day_input env st date) st l home \<and> ml_return l \<noteq> 0
     \<and> ml_service_team l \<noteq> 0
     \<and> (case live_player (ms_world st) q of None \<Rightarrow> False
        | Some p \<Rightarrow> ml_service_team l = pass_service_team (day_input env st date) (fq_base p))"

lemma pass_serving:
  assumes ok: "loans_ok st" "clubs_keyed st" and ids: "distinct ids" "q \<in> set ids"
    and quiet: "\<forall>i. \<not> me_saving env i"
    and p: "live_player (ms_world st) q = Some p" and l: "loan_of st q = Some l"
    and h: "home_known env inp st l home"
    and s: "ml_service_team l = pass_service_team inp (fq_base p)" "ml_service_team l \<noteq> 0"
    and r: "ml_return l \<noteq> 0" and today: "pi_today inp = kbo_current_date_serial env" "pi_today inp \<noteq> 0"
    and m: "pi_mutation inp"
  shows "if ml_return l \<le> pi_today inp then at_home (fst (pass_loop env inp n ids (st, res))) q home
     else serving_until (fst (pass_loop env inp n ids (st, res))) q (ml_return l)
            (kbo_military_days_left_from_return_serial (ml_return l) (pi_today inp))"
proof -
  obtain as bs where split: "ids = as @ q # bs" "q \<notin> set as" "q \<notin> set bs"
    using ids by (metis distinct.simps(2) distinct_append not_distinct_conv_prefix split_list_first)
  obtain st1 res1 where a1: "pass_loop env inp n as (st, res) = (st1, res1)" by fastforce
  have k1: "loans_ok st1" "same_clubs st st1" "same_player q st st1"
    using pass_loop_keeps [of "(st, res)" env inp n as] ok split a1 by auto
  have p1: "live_player (ms_world st1) q = Some p" using p live_player_same [OF k1(3)] by simp
  have l1: "loan_of st1 q = Some l" using l k1(3) by (simp add: same_player_def)
  have h1: "home_known env inp st1 l home" by (rule home_known_same [OF k1(2) h]) simp_all
  obtain st2 res2 where a2: "tick_player env inp q (st1, res1) = (st2, res2)" by fastforce
  note t = tick_player_serving [OF k1(1) clubs_keyed_same [OF k1(2) ok(2)] p1 l1 h1 s r today m, of res1,
      unfolded a2 fst_conv]
  have k2: "loans_ok st2" using tick_player_touches [of q "(st1, res1)" env inp] k1(1) a2 by (simp add: touches_def)
  obtain st3 res3 where a3: "pass_loop env inp (Suc (n + length as)) bs (st2, res2) = (st3, res3)" by fastforce
  have k3: "same_player q st2 st3"
    using pass_loop_keeps [of "(st2, res2)" env inp "Suc (n + length as)" bs] k2 split a3 by auto
  have "fst (pass_loop env inp n ids (st, res)) = st3"
    using quiet by (simp add: split(1) pass_loop_append [OF quiet] a1 a2 a3)
  moreover have "at_home st3 q home = at_home st2 q home"
    using k3 by (simp add: at_home_def same_player_def)
  moreover have "serving_until st3 q b d = serving_until st2 q b d" for b d
    using k3 by (simp add: serving_until_def same_player_def)
  ultimately show ?thesis using t by simp
qed

text \<open>Before the pass the seeds are applied, each of which touches one player only.\<close>

lemma record_seed_history_touches [touch]: "touches q st (record_seed_history env r date service original st)"
  by (auto simp: record_seed_history_def run_insert_def Let_def touches_def same_clubs_def same_player_def loan_of_def loans_ok_def)

lemma seeded_loan_player: "ml_player (seeded_loan env seed l) = ml_player l"
  by (simp add: seeded_loan_def Let_def)

lemma send_to_service_touches [touch]: "touches q st (send_to_service q team original league st)"
  unfolding send_to_service_def
  by (rule touches_trans [OF assign_touches update_base_touches])

lemma apply_seed_touches:
  assumes "apply_seed env sang kpb seed st = Some (st', ok)"
  shows "touches (se_player seed) st st'"
proof (cases "st' = st")
  case False
  let ?q = "se_player seed"
  obtain p team where p: "live_player (ms_world st) ?q = Some p" and team: "seed_service_team env st seed = Some team"
    using assms False by (auto simp: apply_seed_def split: option.splits)
  define away where "away = (pl_current_team (fq_base p) \<noteq> tm_id team \<and> pl_loan_team (fq_base p) \<noteq> tm_id team)"
  obtain original league where o: "seed_original_team env st seed (fq_base p) (tm_id team) sang kpb = (original, league)"
    by (metis surj_pair)
  define st1 where "st1 = (if away then send_to_service ?q team original league st else st)"
  define st2 where "st2 = register_active_kbo_military_loan env ?q original league (tm_id team) (tm_league_id team) st1"
  have t2: "touches ?q st st2" unfolding st2_def st1_def by (rule touches_trans [OF _ register_touches]) (simp add: touch)
  note unfolded = assms [unfolded apply_seed_def p team option.case prod.case Let_def o, folded away_def, folded st1_def, folded st2_def]
  show ?thesis
  proof (cases "active_loan ?q st2")
    case None
    then show ?thesis using unfolded False t2 by (auto split: if_splits)
  next
    case (Some il)
    obtain i l where il: "il = (i, l)" by (cases il)
    define st3 where "st3 = put_loan i (seeded_loan env seed l) st2"
    have t3: "touches ?q st2 st3"
    proof (cases "loans_ok st2")
      case True
      then have "ml_player l = ?q" using active_loan_Some Some il loan_player by blast
      then show ?thesis unfolding st3_def by (intro put_loan_touches [OF Some [unfolded il]]) (simp add: seeded_loan_player)
    qed (simp add: touches_def)
    define st4 where "st4 = (if kbo_current_date_serial env \<noteq> 0 \<and> ml_return (seeded_loan env seed l) \<noteq> 0
       then kbo_set_military_days_left ?q
              (kbo_military_days_left_from_return_serial (ml_return (seeded_loan env seed l)) (kbo_current_date_serial env)) st3
       else st3)"
    have t4: "touches ?q st3 st4" by (simp add: st4_def touch)
    define st5 where "st5 = kbo_clear_military_unavailable_flags ?q (update_player ?q (\<lambda>p. p\<lparr>fq_military := 1\<rparr>) st4)"
    have t5: "touches ?q st4 st5" unfolding st5_def by (rule touches_trans [OF update_player_touches clear_unavailable_touches])
    have "st' = st5 \<or> (\<exists>d. st' = record_seed_history env ?q d (tm_id team) original st5)"
      using unfolded False Some il
      by (auto simp: st3_def [symmetric] st4_def st5_def split: if_splits)
    then have "touches ?q st5 st'" using touches_refl record_seed_history_touches by blast
    then show ?thesis using touches_trans t2 t3 t4 t5 by blast
  qed
qed (simp add: touches_refl)

lemma seeds_keep:
  assumes "kbo_apply_military_service_seed_assignments env sang kpb seeds (st, n) = Some (st', m)" "loans_ok st"
  shows "loans_ok st' \<and> same_clubs st st' \<and> fw_vector (ms_world st') = fw_vector (ms_world st)"
  using assms
proof (induction seeds arbitrary: st n)
  case Nil
  then show ?case by (simp add: same_clubs_def)
next
  case (Cons seed seeds)
  obtain st1 ok where one: "(if se_player seed = 0 then Some (st, False) else apply_seed env sang kpb seed st) = Some (st1, ok)"
      and rest: "kbo_apply_military_service_seed_assignments env sang kpb seeds (st1, n + of_bool ok) = Some (st', m)"
    using Cons.prems(1) by (auto split: option.splits)
  have "touches (se_player seed) st st1" using one apply_seed_touches touches_refl by (auto split: if_splits)
  then have "loans_ok st1" "same_clubs st st1" "fw_vector (ms_world st1) = fw_vector (ms_world st)"
    using Cons.prems(2) by (simp_all add: touches_def)
  then show ?case using Cons.IH [OF rest] by (auto simp: same_clubs_def)
qed

lemma csv_team_same:
  assumes "same_clubs st st'"
  shows "csv_team_id env st' code = csv_team_id env st code"
proof -
  have csv: "csv_team_id env s code = (case me_team_by_csv env code of None \<Rightarrow> 0
      | Some t \<Rightarrow> (case map_option fst (map_option club_id (fw_teams (ms_world s) t)) of None \<Rightarrow> 0 | Some i \<Rightarrow> i))" for s
    by (simp add: csv_team_id_def club_id_def split: option.split)
  show ?thesis using assms unfolding csv same_clubs_def by (simp only:)
qed

text \<open>
  C38: Liveness of the service.  On the latest published day, if its pass runs to its end, every player who serves after
  the seeds were applied and whose club is known is treated by his return date: when it is reached he is
  back on his club, out of the service and without a loan after the pass; before it he keeps his
  loan and his object shows the days that are left.
\<close>

theorem service_ends_on_return_date:
  assumes ready: "day_ready env st0 date ids"
    and seeds: "kbo_apply_military_service_seed_assignments env (csv_team_id env st0 ''SANG'') (csv_team_id env st0 ''KPB'')
                  (if daily then [] else me_seeds env) (st0, 0) = Some (st, n)"
    and q: "q \<in> set ids" and serves: "serves env st date q l home"
  shows "\<exists>st' res. kbo_tick_military_service_days_for_date env daily date st0 = Some (st', res) \<and> loans_ok st'
    \<and> (if ml_return l \<le> serial_of date then at_home st' q home
       else serving_until st' q (ml_return l) (kbo_military_days_left_from_return_serial (ml_return l) (serial_of date)))"
proof -
  let ?inp = "day_input env st date"
  have r: "me_enabled env" "\<not> me_save_started env" "me_save_ready env" "\<not> me_guard env" "me_latest env = Some date"
      "kbo_yyyymmdd_valid date" "distinct ids" and quiet: "\<forall>i. \<not> me_saving env i" and ok0: "loans_ok st0" "clubs_keyed st0"
    using ready by (simp_all add: day_ready_def)
  have kept: "loans_ok st" "same_clubs st0 st" using seeds_keep [OF seeds ok0(1)] by simp_all
  have ok: "loans_ok st" "clubs_keyed st" using kept clubs_keyed_same [OF kept(2) ok0(2)] by simp_all
  have inp: "day_input env st date = day_input env st0 date" by (simp add: day_input_def csv_team_same [OF kept(2)])
  obtain base where v: "readable_vector (ms_world st0) = Some (base, ids)" using ready by (auto simp: day_ready_def)
  then have len: "ids \<noteq> []" "length ids \<le> PLAYER_COUNT_MAX_PLAUSIBLE"
    by (auto simp: readable_vector_def PLAYER_COUNT_MAX_PLAUSIBLE_def MAX_PLAYER_VECTOR_COUNT_def split: option.splits if_splits)
  obtain p where p: "live_player (ms_world st) q = Some p" "ml_service_team l = pass_service_team ?inp (fq_base p)"
      and l: "loan_of st q = Some l" "home_known env ?inp st l home" "ml_return l \<noteq> 0" "ml_service_team l \<noteq> 0"
    using serves by (auto simp: serves_def split: option.splits)
  have today: "serial_of date = kbo_current_date_serial env" "serial_of date \<noteq> 0"
    using r valid_serial_range [of date] by (auto simp: kbo_current_date_serial_def serial_of_def)
  have clubs: "\<not> (csv_team_id env st0 ''SANG'' = 0 \<and> csv_team_id env st0 ''KPB'' = 0)"
    using p(2) l(4) by (auto simp: csv_team_same [OF kept(2)] pass_service_team_def day_input_def split: if_splits)
  have "kbo_tick_military_service_days_for_date env daily date st0
      = Some (kbo_military_days_tick_player_pass env ?inp ids st)"
    using r v len today clubs seeds unfolding inp
    by (cases daily) (auto simp: kbo_tick_military_service_days_for_date_def kbo_tick_military_service_days_for_serial_def Let_def
        mutation_window_def day_input_def serial_of_def [symmetric])
  moreover have "loans_ok (fst (kbo_military_days_tick_player_pass env ?inp ids st))"
    using pass_loop_keeps [of "(st, no_result)"] ok by (simp add: kbo_military_days_tick_player_pass_def)
  moreover note pass_serving [OF ok r(7) q quiet p(1) l(1,2) p(2) l(4,3), of 0 no_result]
  ultimately show ?thesis
    using today by (cases "kbo_military_days_tick_player_pass env ?inp ids st")
      (auto simp: kbo_military_days_tick_player_pass_def)
qed

text \<open>
  An example: player 7 of club 1 serves at the club SANG, number 90, until 2026-03-31.
\<close>

definition demo_ms_club :: "u32 \<Rightarrow> team_row" where
  "demo_ms_club t = \<lparr>tm_id = t, tm_league_id = 5, tm_parent_team_id = 0, tm_arrays = (\<lambda>_. [0, 0])\<rparr>"

definition demo_soldier :: fa_player where
  "demo_soldier =
     \<lparr>fq_base = \<lparr>pl_nation = 177, pl_current_team = 90, pl_active_team = 1, pl_loan_team = 0, pl_original_team = 1,
        pl_default_team = 1, pl_current_league = 5, pl_original_league = 5, pl_draft_league = 5, pl_restricted = 0,
        pl_secondary_restricted = 0, pl_dfa = 0, pl_contract_level = 0, pl_overall_value = 100, pl_talent_value = 100,
        pl_ratings_value = 100, pl_career_value = 100\<rparr>,
      fq_age = 23, fq_role = 1, fq_retired = 0, fq_military = 1, fq_salary = 0, fq_draft_class = 0,
      fq_draft_subtype = 0, fq_draft_extra = 0, fq_generation_context = 0, fq_status = 0, fq_name = ''Soldier''\<rparr>"

definition demo_service_env :: ms_env where
  "demo_service_env =
     \<lparr>me_latest = Some 20260331, me_service_days = 545, me_seeds = [],
      me_team_by_csv = (\<lambda>code. if code = ''SANG'' then Some 90 else None), me_live_team = (\<lambda>_. True),
      me_ok = (\<lambda>_. True), me_saving = (\<lambda>_. False), me_league = 5, me_enabled = True, me_save_ready = True,
      me_guard = False, me_save_started = False\<rparr>"

definition demo_service :: ms_state where
  "demo_service =
     \<lparr>ms_world = \<lparr>fw_vector = Some (4096, [7]), fw_players = [7 \<mapsto> demo_soldier],
        fw_teams = [1 \<mapsto> demo_ms_club 1, 90 \<mapsto> demo_ms_club 90], fw_finances = Map.empty\<rparr>,
      ms_duties = (\<lambda>_. \<lparr>md_loan_league = 0, md_loan_active = 0, md_loan_cleared = 0, md_loan_dirty = 0,
        md_injury_active = 1, md_exempt = 0, md_days_left = 1, md_contract_status = 0, md_contract_start = 0,
        md_later_salaries = []\<rparr>),
      ms_loans = [\<lparr>ml_player = 7, ml_original_team = 1, ml_original_league = 5, ml_service_team = 90,
        ml_service_league = 5, ml_start = serial_of 20241002, ml_return = serial_of 20260331, ml_total = 545\<rparr>],
      ms_history_keys = [], ms_events = [], ms_clock = 0\<rparr>"

theorem service_ends_on_return_date_witness:
  "\<exists>st' res. kbo_tick_military_service_days_for_date demo_service_env False 20260331 demo_service = Some (st', res)
     \<and> at_home st' 7 1"
proof -
  let ?l = "hd (ms_loans demo_service)"
  have due: "ml_return ?l = serial_of 20260331" by (simp add: demo_service_def)
  have day: "serial_of 20260331 \<noteq> 0" "kbo_yyyymmdd_valid 20260331" by code_simp+
  have teams: "csv_team_id demo_service_env demo_service ''SANG'' = 90" "csv_team_id demo_service_env demo_service ''KPB'' = 0"
    by (simp_all add: csv_team_id_def demo_service_env_def demo_service_def demo_ms_club_def)
  have inp: "day_input demo_service_env demo_service 20260331
      = \<lparr>pi_today = serial_of 20260331, pi_sang = 90, pi_kpb = 0, pi_mutation = True\<rparr>"
    by (simp add: day_input_def teams)
  have seeds: "me_seeds demo_service_env = []" by (simp add: demo_service_env_def)
  have "day_ready demo_service_env demo_service 20260331 [7]"
    using day by (simp add: day_ready_def demo_service_env_def demo_service_def readable_vector_def
        MAX_PLAYER_VECTOR_COUNT_def loans_ok_def MAX_SPECIAL_HISTORY_KEYS_def clubs_keyed_def demo_ms_club_def)
  moreover have "serves demo_service_env demo_service 20260331 7 ?l 1"
    unfolding serves_def home_known_def inp using day(1)
    by (simp add: loan_of_def live_team_def kbo_military_find_team_from_seed_code_def live_player_def pass_service_team_def
        demo_service_def demo_service_env_def demo_soldier_def demo_ms_club_def)
  ultimately show ?thesis
    using service_ends_on_return_date [of demo_service_env demo_service 20260331 "[7]" False demo_service 0 7 ?l 1] due seeds by auto
qed

section \<open>A full table\<close>

text \<open>
  The rows of finished loans are not used again: once 8192 loans were registered, a new one is
  not, although no player may be serving any more.
\<close>

lemma finished_loans_fill_the_table:
  assumes "length (ms_loans st) = MAX_SPECIAL_HISTORY_KEYS" and "\<forall>l \<in> set (ms_loans st). ml_player l = 0"
  shows "register_active_kbo_military_loan env q a b c d st = st"
proof -
  have "find_active_kbo_military_loan_index q st = None"
    using assms by (auto simp: find_active_kbo_military_loan_index_def first_index_None)
  then show ?thesis using assms by (simp add: register_active_kbo_military_loan_def Let_def)
qed

end
