(* ===== verification/DraftRules.thy ===== *)
theory DraftRules
  imports MilitaryTick
begin

text \<open>
  The secondary draft, first half: \<open>native/src/custom_events/secondary_draft/\<close> with its rules
  (\<open>rules/\<close>), the clubs and the players that can be drafted (\<open>eligibility/\<close>) and its tables in
  the database of the save (\<open>persistence/\<close>, \<open>secondary_draft_window.c\<close>).

  In every odd year each club protects 35 players, then the clubs choose in turn among the
  others.  \<open>sd_state\<close> has the tables and, in \<open>sd_service\<close>, the game with the military service.
  The addresses of the objects are not represented: a club and a player are their ids.
\<close>

section \<open>The data\<close>

definition TEAM_MAX :: nat where "TEAM_MAX = 16"
definition PROTECTED_LIST_LIMIT :: nat where "PROTECTED_LIST_LIMIT = 35"
definition DRAFT_ROUNDS :: nat where "DRAFT_ROUNDS = 5"
definition BASE_ROUNDS :: nat where "BASE_ROUNDS = 3"
definition EXTRA_TEAMS :: nat where "EXTRA_TEAMS = 3"
definition SOURCE_LOSS_LIMIT :: int where "SOURCE_LOSS_LIMIT = 4"
definition CANDIDATE_MAX :: nat where "CANDIDATE_MAX = 8192"
definition RESULT_MAX :: nat where "RESULT_MAX = TEAM_MAX * DRAFT_ROUNDS"
definition OWNER_MAP_MAX :: nat where "OWNER_MAP_MAX = 512"
definition SERVICE_DAYS_PER_SEASON :: nat where "SERVICE_DAYS_PER_SEASON = 145"

lemmas draft_constants = TEAM_MAX_def PROTECTED_LIST_LIMIT_def DRAFT_ROUNDS_def BASE_ROUNDS_def EXTRA_TEAMS_def
  SOURCE_LOSS_LIMIT_def CANDIDATE_MAX_def RESULT_MAX_def OWNER_MAP_MAX_def SERVICE_DAYS_PER_SEASON_def

record draft_window =
  dw_season :: u32
  dw_league :: u32
  dw_open :: u32
  dw_deadline :: u32
  dw_draft :: u32

record draft_team =
  dt_id :: u32
  dt_org :: u32
  dt_league :: u32
  dt_wins :: u32
  dt_losses :: u32
  dt_ties :: u32
  dt_games :: u32
  dt_loss_count :: int
  dt_name :: string

record draft_candidate =
  dc_player :: u32
  dc_owner_team :: u32
  dc_current_team :: u32
  dc_service_team :: u32
  dc_owner :: nat
  dc_value :: int
  dc_age :: u16
  dc_service_days :: u16
  dc_seasons :: int
  dc_seasons_known :: bool
  dc_role :: u8
  dc_military :: bool
  dc_protected :: bool
  dc_selected :: bool
  dc_name :: string
  dc_reason :: string

record draft_pick =
  dp_round :: u32
  dp_no :: u32
  dp_player :: u32
  dp_from :: u32
  dp_to :: u32
  dp_cash :: u32
  dp_moved :: bool
  dp_cash_applied :: bool
  dp_rights :: bool
  dp_player_name :: string
  dp_from_name :: string
  dp_to_name :: string

record draft_run =
  dr_run_season :: u32
  dr_event :: u32
  dr_league :: u32
  dr_picks :: int
  dr_candidates :: int
  dr_protected :: int
  dr_cash_total :: int
  dr_run_source :: string

record protected_row =
  sp_season :: u32
  sp_team :: u32
  sp_player :: u32
  sp_at :: nat

record submission_row =
  ss_season :: u32
  ss_team :: u32
  ss_count :: int

datatype draft_event =
    Drafted_History u32 draft_pick
  | Results_News u32 u32 "draft_pick list" int int int

text \<open>What the code reads of a player and a club beside the fields of the objects.\<close>

record draft_facts =
  df_service_days :: u16
  df_draft_eligible :: u8

record team_facts =
  tf_deleted :: bool
  tf_wins :: u32
  tf_losses :: u32
  tf_ties :: u32
  tf_city :: string
  tf_nickname :: string
  tf_full_name :: string

record fa_declaration =
  fz_player :: u32
  fz_season :: u32
  fz_declared :: bool

record sd_env =
  de_service :: ms_env
  de_facts :: "u32 \<Rightarrow> draft_facts"
  de_team_facts :: "u32 \<Rightarrow> team_facts"
  de_team_vector :: "u32 list option"
  de_service_team :: "u32 \<Rightarrow> bool"
  de_declarations :: "u32 \<Rightarrow> fa_declaration list"
  de_main_league :: u32
  de_ok :: "nat \<Rightarrow> bool"
  de_time :: "nat \<Rightarrow> nat"

record sd_state =
  sd_service :: ms_state
  sd_runs :: "draft_run list"
  sd_results :: "(u32 \<times> draft_pick) list"
  sd_protected :: "protected_row list"
  sd_submissions :: "submission_row list"
  sd_windows :: "draft_window list"
  sd_events :: "draft_event list"
  sd_clock :: nat

section \<open>The rules\<close>

definition kbo_secondary_draft_is_odd_season :: "u32 \<Rightarrow> bool" where
  "kbo_secondary_draft_is_odd_season n =
     (let season = (if n \<ge> 10000 then n div 10000 else n) in season \<noteq> 0 \<and> season mod 2 = 1)"

definition kbo_secondary_draft_round_team_limit :: "nat \<Rightarrow> nat \<Rightarrow> nat" where
  "kbo_secondary_draft_round_team_limit team_count round =
     (if team_count = 0 \<or> round = 0 \<or> round > DRAFT_ROUNDS then 0
      else if round \<le> BASE_ROUNDS then team_count
      else if team_count < EXTRA_TEAMS then team_count else EXTRA_TEAMS)"

definition kbo_secondary_draft_expected_pick_count :: "nat \<Rightarrow> nat" where
  "kbo_secondary_draft_expected_pick_count team_count =
     (if team_count = 0 then 0
      else sum_list (map (kbo_secondary_draft_round_team_limit team_count) [1..<Suc DRAFT_ROUNDS]))"

definition kbo_secondary_draft_cash_for_round :: "nat \<Rightarrow> u32" where
  "kbo_secondary_draft_cash_for_round round =
     (if round = 1 then 400000000 else if round = 2 then 300000000 else if round = 3 then 200000000
      else if round \<noteq> 0 then 100000000 else 0)"

definition kbo_secondary_draft_source_loss_allows :: "int \<Rightarrow> bool" where
  "kbo_secondary_draft_source_loss_allows loss_count \<longleftrightarrow> loss_count \<ge> 0 \<and> loss_count < SOURCE_LOSS_LIMIT"

record eligibility_input =
  ei_player :: u32
  ei_owner_team :: u32
  ei_age :: u16
  ei_service_days :: u16
  ei_seasons :: int
  ei_seasons_known :: bool
  ei_foreign :: bool
  ei_retired :: bool
  ei_dfa :: bool
  ei_draft_pool :: bool
  ei_evaluated :: bool
  ei_current_fa :: bool
  ei_military_history :: bool
  ei_loan :: bool

record eligibility =
  el_eligible :: bool
  el_excluded :: bool
  el_seasons :: int
  el_reason :: string

definition kbo_secondary_draft_evaluate_eligibility :: "eligibility_input \<Rightarrow> eligibility" where
  "kbo_secondary_draft_evaluate_eligibility input =
     (if ei_player input = 0 \<or> ei_owner_team input = 0
      then \<lparr>el_eligible = False, el_excluded = False, el_seasons = 0, el_reason = ''missing_identity''\<rparr>
      else
        let by_days = (if ei_seasons_known input then ei_seasons input
                       else int (unat (ei_service_days input) div SERVICE_DAYS_PER_SEASON));
            seasons = (if \<not> ei_seasons_known input \<and> ei_service_days input = 0
                          \<and> ei_age input \<ge> 18 \<and> ei_age input \<le> 23 then 1 else by_days);
            excluded = (\<lambda>reason. \<lparr>el_eligible = False, el_excluded = True, el_seasons = seasons, el_reason = reason\<rparr>);
            refused = (\<lambda>reason. \<lparr>el_eligible = False, el_excluded = False, el_seasons = seasons, el_reason = reason\<rparr>)
        in if ei_foreign input then excluded ''foreign_player''
           else if ei_retired input then excluded ''retired''
           else if ei_dfa input then excluded ''dfa''
           else if ei_draft_pool input then excluded ''draft_pool''
           else if \<not> ei_evaluated input then refused ''no_evaluation''
           else if ei_current_fa input then excluded ''current_year_fa''
           else if ei_loan input then refused ''non_military_loan''
           else if seasons > 0 \<and> seasons \<le> 3 then excluded ''entry_year_1_to_3''
           else if seasons = 4 \<and> ei_military_history input then excluded ''fourth_year_military_history''
           else \<lparr>el_eligible = True, el_excluded = False, el_seasons = seasons, el_reason = ''eligible''\<rparr>)"

section \<open>The clubs\<close>

definition kbo_secondary_draft_team_name_placeholder :: "string \<Rightarrow> bool" where
  "kbo_secondary_draft_team_name_placeholder s \<longleftrightarrow>
     s = [] \<or> stricmp_equal s ''Team'' \<or> stricmp_equal s ''Unknown''"

definition kbo_secondary_draft_copy_team_name :: "sd_env \<Rightarrow> u32 \<Rightarrow> string" where
  "kbo_secondary_draft_copy_team_name env team_id =
     (let f = de_team_facts env team_id;
          city = strbuf 64 (tf_city f); nickname = strbuf 64 (tf_nickname f); full = strbuf 96 (tf_full_name f);
          given = (\<lambda>s. \<not> kbo_secondary_draft_team_name_placeholder s)
      in strbuf 96
           (if given full \<and> (CHR '' '' \<in> set full \<or> list_ex (\<lambda>c. of_char c > (127 :: nat)) full) then full
            else if given city \<and> given nickname \<and> \<not> stricmp_equal city nickname then city @ CHR '' '' # nickname
            else if given full then full
            else if given nickname then nickname
            else if given city then city
            else ''Team #'' @ show_nat (unat team_id)))"

fun kbo_secondary_draft_collect_main_teams ::
    "sd_env \<Rightarrow> fa_world \<Rightarrow> u32 \<Rightarrow> u32 list \<Rightarrow> draft_team list \<Rightarrow> draft_team list" where
  "kbo_secondary_draft_collect_main_teams env w league [] teams = teams"
| "kbo_secondary_draft_collect_main_teams env w league (t # ts) teams =
     (if length teams \<ge> TEAM_MAX then teams
      else case fw_teams w t of
          None \<Rightarrow> kbo_secondary_draft_collect_main_teams env w league ts teams
        | Some team \<Rightarrow>
            let f = de_team_facts env t
            in if tf_deleted f \<or> tm_id team = 0 \<or> tm_league_id team \<noteq> league \<or> tm_parent_team_id team \<noteq> 0
               then kbo_secondary_draft_collect_main_teams env w league ts teams
               else kbo_secondary_draft_collect_main_teams env w league ts
                      (teams @ [\<lparr>dt_id = tm_id team, dt_org = tm_id team, dt_league = tm_league_id team,
                         dt_wins = tf_wins f, dt_losses = tf_losses f, dt_ties = tf_ties f,
                         dt_games = tf_wins f + tf_losses f + tf_ties f, dt_loss_count = 0,
                         dt_name = kbo_secondary_draft_copy_team_name env (tm_id team)\<rparr>]))"

text \<open>The comparison: less is true when the first club chooses before the second.\<close>

definition kbo_secondary_draft_team_order_cmp :: "draft_team \<Rightarrow> draft_team \<Rightarrow> int" where
  "kbo_secondary_draft_team_order_cmp a b =
     (let a_points = uint (dt_wins a) * 2 + uint (dt_ties a);
          b_points = uint (dt_wins b) * 2 + uint (dt_ties b);
          left = a_points * uint (dt_games b);
          right = b_points * uint (dt_games a);
          by_id = (if dt_id a \<noteq> dt_id b then (if dt_id a < dt_id b then -1 else 1) else 0)
      in if dt_games a \<noteq> 0 \<and> dt_games b \<noteq> 0
         then (if left \<noteq> right then (if left < right then -1 else 1)
               else if dt_wins a \<noteq> dt_wins b then (if dt_wins a < dt_wins b then -1 else 1)
               else if dt_losses a \<noteq> dt_losses b then (if dt_losses a > dt_losses b then -1 else 1)
               else by_id)
         else by_id)"

text \<open>
  The call of \<open>qsort\<close>.  When every club has played, the comparison is a linear order on clubs with
  different ids and this is its only result.
\<close>

fun insert_team :: "draft_team \<Rightarrow> draft_team list \<Rightarrow> draft_team list" where
  "insert_team t [] = [t]"
| "insert_team t (x # xs) =
     (if kbo_secondary_draft_team_order_cmp t x \<le> 0 then t # x # xs else x # insert_team t xs)"

definition sort_teams :: "draft_team list \<Rightarrow> draft_team list" where
  "sort_teams teams = foldr insert_team teams []"

section \<open>Whose player it is\<close>

definition kbo_secondary_draft_owner_map_add ::
    "u32 \<Rightarrow> nat \<Rightarrow> (u32 \<times> nat) list \<Rightarrow> (u32 \<times> nat) list" where
  "kbo_secondary_draft_owner_map_add team_id owner entries =
     (if team_id = 0 then entries
      else case first_index (\<lambda>e. fst e = team_id) entries of
          Some i \<Rightarrow> entries[i := (team_id, owner)]
        | None \<Rightarrow> if length entries \<ge> OWNER_MAP_MAX then entries else entries @ [(team_id, owner)])"

definition kbo_secondary_draft_owner_index_for_org_id :: "draft_team list \<Rightarrow> u32 \<Rightarrow> nat option" where
  "kbo_secondary_draft_owner_index_for_org_id teams org = first_index (\<lambda>t. dt_id t = org \<or> dt_org t = org) teams"

fun add_affiliates ::
    "sd_env \<Rightarrow> fa_world \<Rightarrow> draft_team list \<Rightarrow> u32 list \<Rightarrow> (u32 \<times> nat) list \<Rightarrow> (u32 \<times> nat) list" where
  "add_affiliates env w teams [] entries = entries"
| "add_affiliates env w teams (t # ts) entries =
     (if length entries \<ge> OWNER_MAP_MAX then entries
      else case fw_teams w t of
          None \<Rightarrow> add_affiliates env w teams ts entries
        | Some team \<Rightarrow>
            if tf_deleted (de_team_facts env t) then add_affiliates env w teams ts entries
            else case kbo_secondary_draft_owner_index_for_org_id teams (tm_parent_team_id team) of
                None \<Rightarrow> add_affiliates env w teams ts entries
              | Some i \<Rightarrow> add_affiliates env w teams ts (kbo_secondary_draft_owner_map_add (tm_id team) i entries))"

definition kbo_secondary_draft_build_team_owner_map ::
    "sd_env \<Rightarrow> fa_world \<Rightarrow> draft_team list \<Rightarrow> (u32 \<times> nat) list" where
  "kbo_secondary_draft_build_team_owner_map env w teams =
     (let own = foldl (\<lambda>entries (i, t). kbo_secondary_draft_owner_map_add (dt_org t) i
                                          (kbo_secondary_draft_owner_map_add (dt_id t) i entries))
                  [] (enumerate 0 teams)
      in case de_team_vector env of None \<Rightarrow> own | Some ts \<Rightarrow> add_affiliates env w teams ts own)"

definition kbo_secondary_draft_owner_map_lookup :: "fa_world \<Rightarrow> (u32 \<times> nat) list \<Rightarrow> u32 \<Rightarrow> nat option" where
  "kbo_secondary_draft_owner_map_lookup w entries team_id =
     (if team_id = 0 then None
      else case map_of entries team_id of
          Some i \<Rightarrow> Some i
        | None \<Rightarrow>
            let org = kbo_org_team_id_for_team_id (fw_teams w) team_id
            in if org \<noteq> 0 \<and> org \<noteq> team_id then map_of entries org else None)"

text \<open>The owner, the club of the service, whether the player serves, whether he is lent otherwise.\<close>

definition kbo_secondary_draft_owner_index_for_player_from_map ::
    "sd_env \<Rightarrow> ms_state \<Rightarrow> (u32 \<times> nat) list \<Rightarrow> u32 \<Rightarrow> fa_player \<Rightarrow> (nat \<times> u32 \<times> bool \<times> bool) option" where
  "kbo_secondary_draft_owner_index_for_player_from_map env st entries player_id p =
     (let b = fq_base p;
          serving = (\<lambda>t. t \<noteq> 0 \<and> de_service_team env t);
          lookup = kbo_secondary_draft_owner_map_lookup (ms_world st) entries;
          reserved = fq_military p \<noteq> 0 \<or> serving (pl_current_team b) \<or> serving (pl_active_team b) \<or> serving (pl_loan_team b);
          service = (if serving (pl_current_team b) then pl_current_team b
                     else if serving (pl_loan_team b) then pl_loan_team b else pl_active_team b);
          by_service = (if reserved
                        then (case kbo_military_resolve_original_team (de_service env) st player_id service 0 0 of
                                None \<Rightarrow> None | Some (original, _) \<Rightarrow> lookup original)
                        else None)
      in case by_service of
           Some i \<Rightarrow> Some (i, service, True, False)
         | None \<Rightarrow>
             (case (case lookup (pl_active_team b) of
                      Some i \<Rightarrow> Some i
                    | None \<Rightarrow> (case lookup (pl_current_team b) of
                                Some i \<Rightarrow> Some i | None \<Rightarrow> lookup (pl_default_team b))) of
                None \<Rightarrow> None
              | Some i \<Rightarrow> Some (i, 0, False, pl_loan_team b \<noteq> 0 \<and> \<not> reserved)))"

section \<open>The players that can be chosen\<close>

definition kbo_secondary_draft_player_value_score :: "fa_player \<Rightarrow> int" where
  "kbo_secondary_draft_player_value_score p =
     (let b = fq_base p;
          age = uint (fq_age p);
          base = pl_talent_value b * 6 + pl_overall_value b * 4 + pl_ratings_value b * 2 + pl_career_value b;
          aged = (if age \<ge> 18 \<and> age \<le> 24 then base + 300
                  else if age \<ge> 25 \<and> age \<le> 28 then base + 150
                  else if age > 32 then base - (age - 32) * 60 else base)
      in if fq_salary p > 0 then aged - fq_salary p div 10000000 else aged)"

definition kbo_player_has_nonzero_evaluation :: "player_row \<Rightarrow> bool" where
  "kbo_player_has_nonzero_evaluation b \<longleftrightarrow>
     pl_overall_value b > 0 \<or> pl_talent_value b > 0 \<or> pl_ratings_value b > 0 \<or> pl_career_value b > 0"

text \<open>The declared free agents of the season as a sorted array, and the search in it.\<close>

definition kbo_secondary_draft_build_current_year_fa_lookup :: "sd_env \<Rightarrow> u32 \<Rightarrow> u32 list" where
  "kbo_secondary_draft_build_current_year_fa_lookup env season =
     (if season = 0 then []
      else sort (map fz_player
             (filter (\<lambda>d. fz_season d = season \<and> fz_player d \<noteq> 0 \<and> fz_declared d) (de_declarations env season))))"

function fa_search :: "u32 list \<Rightarrow> u32 \<Rightarrow> int \<Rightarrow> int \<Rightarrow> bool" where
  "fa_search entries player_id lo hi =
     (if lo \<le> hi
      then let mid = lo + (hi - lo) div 2; candidate = entries ! nat mid
           in if candidate = player_id then True
              else if candidate < player_id then fa_search entries player_id (mid + 1) hi
              else fa_search entries player_id lo (mid - 1)
      else False)"
  by pat_completeness auto
termination
  by (relation "measure (\<lambda>(entries, player_id, lo, hi). nat (hi - lo + 1))") auto

declare fa_search.simps [simp del]

definition kbo_secondary_draft_current_year_fa_lookup :: "u32 list \<Rightarrow> u32 \<Rightarrow> bool" where
  "kbo_secondary_draft_current_year_fa_lookup entries player_id =
     (if entries = [] \<or> player_id = 0 then False else fa_search entries player_id 0 (int (length entries) - 1))"

definition candidate_input ::
    "sd_env \<Rightarrow> ms_state \<Rightarrow> u32 list \<Rightarrow> u32 \<Rightarrow> fa_player \<Rightarrow> draft_team \<Rightarrow> bool \<Rightarrow> bool \<Rightarrow> eligibility_input" where
  "candidate_input env st fa player_id p owner military loan =
     (let days = df_service_days (de_facts env player_id)
      in \<lparr>ei_player = player_id, ei_owner_team = dt_id owner, ei_age = fq_age p, ei_service_days = days,
          ei_seasons = int (unat days div SERVICE_DAYS_PER_SEASON), ei_seasons_known = (days > 0),
          ei_foreign = kbo_player_is_foreign_for_kbo_rights (fq_base p), ei_retired = (fq_retired p \<noteq> 0),
          ei_dfa = (pl_dfa (fq_base p) \<noteq> 0), ei_draft_pool = (df_draft_eligible (de_facts env player_id) \<noteq> 0),
          ei_evaluated = kbo_player_has_nonzero_evaluation (fq_base p),
          ei_current_fa = kbo_secondary_draft_current_year_fa_lookup fa player_id,
          ei_military_history = (military \<or> md_loan_active (ms_duties st player_id) \<noteq> 0), ei_loan = loan\<rparr>)"

fun collect_players ::
    "sd_env \<Rightarrow> ms_state \<Rightarrow> draft_team list \<Rightarrow> (u32 \<times> nat) list \<Rightarrow> u32 list \<Rightarrow> u32 list
     \<Rightarrow> draft_candidate list \<Rightarrow> draft_candidate list" where
  "collect_players env st teams owners fa [] cands = cands"
| "collect_players env st teams owners fa (player_id # ids) cands =
     (if length cands \<ge> CANDIDATE_MAX then cands
      else case live_player (ms_world st) player_id of
          None \<Rightarrow> collect_players env st teams owners fa ids cands
        | Some p \<Rightarrow>
            (case kbo_secondary_draft_owner_index_for_player_from_map env st owners player_id p of
               None \<Rightarrow> collect_players env st teams owners fa ids cands
             | Some (i, service, military, loan) \<Rightarrow>
                 let owner = teams ! i;
                     input = candidate_input env st fa player_id p owner military loan;
                     d = kbo_secondary_draft_evaluate_eligibility input;
                     name = strbuf 96 (fq_name p)
                 in if \<not> el_eligible d then collect_players env st teams owners fa ids cands
                    else collect_players env st teams owners fa ids
                           (cands @ [\<lparr>dc_player = player_id, dc_owner_team = dt_id owner,
                              dc_current_team = pl_current_team (fq_base p), dc_service_team = service, dc_owner = i,
                              dc_value = kbo_secondary_draft_player_value_score p, dc_age = fq_age p,
                              dc_service_days = ei_service_days input, dc_seasons = el_seasons d,
                              dc_seasons_known = ei_seasons_known input, dc_role = fq_role p, dc_military = military,
                              dc_protected = False, dc_selected = False,
                              dc_name = (if name = [] then ''Player #'' @ show_nat (unat player_id) else name),
                              dc_reason = el_reason d\<rparr>])))"

definition kbo_secondary_draft_collect_candidates ::
    "sd_env \<Rightarrow> ms_state \<Rightarrow> u32 \<Rightarrow> draft_team list \<Rightarrow> draft_candidate list" where
  "kbo_secondary_draft_collect_candidates env st season teams =
     (case readable_vector (ms_world st) of
        None \<Rightarrow> []
      | Some (base, ids) \<Rightarrow>
          collect_players env st teams (kbo_secondary_draft_build_team_owner_map env (ms_world st) teams)
            (kbo_secondary_draft_build_current_year_fa_lookup env season) ids [])"

end
