(* ===== verification/DraftEngine.thy ===== *)
theory DraftEngine
  imports DraftRules
begin

text \<open>
  The secondary draft, second half: \<open>native/src/custom_events/secondary_draft/\<close> with the tables
  (\<open>persistence/\<close>, \<open>secondary_draft_window.c\<close>), the protected lists
  (\<open>eligibility/secondary_draft_auto_protection.c\<close>) and the draft itself (\<open>engine/\<close>).

  Preparing the schema and running a statement are one step, whose success is \<open>de_ok\<close> of its
  number.  A count that cannot be read is 0, as in the source.
\<close>

section \<open>The tables\<close>

definition draft_statement :: "sd_env \<Rightarrow> sd_state \<Rightarrow> bool \<times> sd_state" where
  "draft_statement env st = (de_ok env (sd_clock st), st\<lparr>sd_clock := sd_clock st + 1\<rparr>)"

definition counted :: "sd_env \<Rightarrow> (sd_state \<Rightarrow> nat) \<Rightarrow> sd_state \<Rightarrow> nat \<times> sd_state" where
  "counted env f st = (let (ok, st1) = draft_statement env st in (if ok then f st else 0, st1))"

definition kbo_secondary_draft_sql_run_exists :: "sd_env \<Rightarrow> u32 \<Rightarrow> sd_state \<Rightarrow> bool \<times> sd_state" where
  "kbo_secondary_draft_sql_run_exists env season st =
     (if season = 0 then (False, st)
      else let (n, st1) = counted env (\<lambda>st. length (filter (\<lambda>r. dr_run_season r = season) (sd_runs st))) st in (n > 0, st1))"

definition kbo_secondary_draft_sql_result_count :: "sd_env \<Rightarrow> u32 \<Rightarrow> sd_state \<Rightarrow> nat \<times> sd_state" where
  "kbo_secondary_draft_sql_result_count env season st =
     (if season = 0 then (0, st)
      else counted env (\<lambda>st. length (filter (\<lambda>r. fst r = season) (sd_results st))) st)"

definition kbo_secondary_draft_sql_result_player_exists :: "sd_env \<Rightarrow> u32 \<Rightarrow> u32 \<Rightarrow> sd_state \<Rightarrow> bool \<times> sd_state" where
  "kbo_secondary_draft_sql_result_player_exists env season player_id st =
     (if season = 0 \<or> player_id = 0 then (False, st)
      else let (n, st1) = counted env (\<lambda>st. length (filter (\<lambda>r. fst r = season \<and> dp_player (snd r) = player_id) (sd_results st))) st
           in (n > 0, st1))"

definition kbo_secondary_draft_sql_mark_run :: "sd_env \<Rightarrow> draft_run \<Rightarrow> sd_state \<Rightarrow> bool \<times> sd_state" where
  "kbo_secondary_draft_sql_mark_run env run st =
     (if dr_run_season run = 0 then (False, st)
      else case sql_text 256 (dr_run_source run) of
          None \<Rightarrow> (False, st)
        | Some source \<Rightarrow>
            let (ok, st1) = draft_statement env st
            in (ok, if ok
                    then st1\<lparr>sd_runs := filter (\<lambda>r. dr_run_season r \<noteq> dr_run_season run) (sd_runs st1)
                                        @ [run\<lparr>dr_run_source := source\<rparr>]\<rparr>
                    else st1))"

text \<open>A result is ignored when the season has one with its number or its player.\<close>

definition kbo_secondary_draft_sql_append_pick :: "sd_env \<Rightarrow> u32 \<Rightarrow> draft_pick \<Rightarrow> string \<Rightarrow> sd_state \<Rightarrow> bool \<times> sd_state" where
  "kbo_secondary_draft_sql_append_pick env season pick source st =
     (if season = 0 \<or> dp_player pick = 0 then (False, st)
      else case (sql_text 256 (dp_player_name pick), sql_text 256 (dp_from_name pick), sql_text 256 (dp_to_name pick),
                 sql_text 256 source) of
          (Some player_name, Some from_name, Some to_name, Some _) \<Rightarrow>
            let (ok, st1) = draft_statement env st;
                row = pick\<lparr>dp_player_name := player_name, dp_from_name := from_name, dp_to_name := to_name\<rparr>
            in (ok, if ok \<and> \<not> list_ex (\<lambda>(s, r). s = season \<and> (dp_no r = dp_no pick \<or> dp_player r = dp_player pick)) (sd_results st1)
                    then st1\<lparr>sd_results := sd_results st1 @ [(season, row)]\<rparr> else st1)
        | _ \<Rightarrow> (False, st))"

definition kbo_secondary_draft_load_run_summary :: "sd_env \<Rightarrow> u32 \<Rightarrow> sd_state \<Rightarrow> draft_run option \<times> sd_state" where
  "kbo_secondary_draft_load_run_summary env season st =
     (if season = 0 then (None, st)
      else let (ok, st1) = draft_statement env st
           in (if ok then List.find (\<lambda>r. dr_run_season r = season) (sd_runs st1) else None, st1))"

definition kbo_secondary_draft_load_results :: "sd_env \<Rightarrow> u32 \<Rightarrow> nat \<Rightarrow> sd_state \<Rightarrow> draft_pick list \<times> sd_state" where
  "kbo_secondary_draft_load_results env season max_rows st =
     (if season = 0 \<or> max_rows = 0 then ([], st)
      else let (ok, st1) = draft_statement env st
           in (if ok then take max_rows (sort_key dp_no (map snd (filter (\<lambda>r. fst r = season) (sd_results st1)))) else [], st1))"

definition kbo_secondary_draft_sql_protected_count :: "sd_env \<Rightarrow> u32 \<Rightarrow> u32 \<Rightarrow> sd_state \<Rightarrow> nat \<times> sd_state" where
  "kbo_secondary_draft_sql_protected_count env season team_id st =
     (if season = 0 \<or> team_id = 0 then (0, st)
      else counted env (\<lambda>st. length (filter (\<lambda>r. sp_season r = season \<and> sp_team r = team_id) (sd_protected st))) st)"

definition kbo_secondary_draft_sql_team_submitted :: "sd_env \<Rightarrow> u32 \<Rightarrow> u32 \<Rightarrow> sd_state \<Rightarrow> bool \<times> sd_state" where
  "kbo_secondary_draft_sql_team_submitted env season team_id st =
     (if season = 0 \<or> team_id = 0 then (False, st)
      else let (n, st1) = counted env (\<lambda>st. length (filter (\<lambda>r. ss_season r = season \<and> ss_team r = team_id) (sd_submissions st))) st;
               st2 = snd (kbo_secondary_draft_sql_protected_count env season team_id st1)
           in (n > 0, st2))"

definition protected_order :: "protected_row \<Rightarrow> nat \<times> nat" where
  "protected_order r = (sp_at r, unat (sp_player r))"

definition kbo_secondary_draft_sql_load_protected_player_ids ::
    "sd_env \<Rightarrow> u32 \<Rightarrow> u32 \<Rightarrow> nat \<Rightarrow> sd_state \<Rightarrow> u32 list \<times> sd_state" where
  "kbo_secondary_draft_sql_load_protected_player_ids env season team_id max_ids st =
     (if max_ids = 0 \<or> season = 0 \<or> team_id = 0 then ([], st)
      else let (ok, st1) = draft_statement env st
           in (if ok
               then filter (\<lambda>i. i \<noteq> 0) (take max_ids (map sp_player (sort_key protected_order
                      (filter (\<lambda>r. sp_season r = season \<and> sp_team r = team_id) (sd_protected st1)))))
               else [], st1))"

definition kbo_secondary_draft_sql_write_protected_player ::
    "sd_env \<Rightarrow> u32 \<Rightarrow> u32 \<Rightarrow> u32 \<Rightarrow> string \<Rightarrow> string \<Rightarrow> string \<Rightarrow> sd_state \<Rightarrow> bool \<times> sd_state" where
  "kbo_secondary_draft_sql_write_protected_player env season team_id player_id player_name team_name source st =
     (if season = 0 \<or> team_id = 0 \<or> player_id = 0
         \<or> sql_text 256 player_name = None \<or> sql_text 256 team_name = None \<or> sql_text 256 source = None then (False, st)
      else let (ok, st1) = draft_statement env st
           in (ok, if ok \<and> \<not> list_ex (\<lambda>r. sp_season r = season \<and> sp_team r = team_id \<and> sp_player r = player_id) (sd_protected st1)
                   then st1\<lparr>sd_protected := sd_protected st1 @
                          [\<lparr>sp_season = season, sp_team = team_id, sp_player = player_id, sp_at = de_time env (sd_clock st)\<rparr>]\<rparr>
                   else st1))"

definition kbo_secondary_draft_sql_submit_team ::
    "sd_env \<Rightarrow> u32 \<Rightarrow> u32 \<Rightarrow> string \<Rightarrow> int \<Rightarrow> string \<Rightarrow> sd_state \<Rightarrow> bool \<times> sd_state" where
  "kbo_secondary_draft_sql_submit_team env season team_id team_name players source st =
     (if season = 0 \<or> team_id = 0 \<or> sql_text 256 team_name = None \<or> sql_text 256 source = None then (False, st)
      else let (ok, st1) = draft_statement env st
           in (ok, if ok
                   then st1\<lparr>sd_submissions := filter (\<lambda>r. \<not> (ss_season r = season \<and> ss_team r = team_id)) (sd_submissions st1)
                          @ [\<lparr>ss_season = season, ss_team = team_id, ss_count = players\<rparr>]\<rparr>
                   else st1))"

definition kbo_secondary_draft_id_list_contains :: "u32 list \<Rightarrow> u32 \<Rightarrow> bool" where
  "kbo_secondary_draft_id_list_contains ids player_id \<longleftrightarrow> player_id \<noteq> 0 \<and> list_ex (\<lambda>i. i = player_id) ids"

subsection \<open>The windows\<close>

definition kbo_secondary_draft_register_window :: "sd_env \<Rightarrow> draft_window \<Rightarrow> string \<Rightarrow> sd_state \<Rightarrow> bool \<times> sd_state" where
  "kbo_secondary_draft_register_window env w source st =
     (if dw_season w = 0 \<or> dw_league w = 0 \<or> dw_open w = 0 \<or> dw_deadline w = 0 \<or> dw_draft w = 0
         \<or> dw_open w > dw_deadline w \<or> dw_deadline w \<ge> dw_draft w \<or> sql_text 256 source = None then (False, st)
      else let (ok, st1) = draft_statement env st
           in (ok, if ok then st1\<lparr>sd_windows := filter (\<lambda>x. dw_season x \<noteq> dw_season w) (sd_windows st1) @ [w]\<rparr> else st1))"

definition usable_window :: "draft_window \<Rightarrow> bool" where
  "usable_window w \<longleftrightarrow> dw_season w \<noteq> 0 \<and> dw_draft w \<noteq> 0"

definition kbo_secondary_draft_load_window :: "sd_env \<Rightarrow> u32 \<Rightarrow> sd_state \<Rightarrow> draft_window option \<times> sd_state" where
  "kbo_secondary_draft_load_window env season st =
     (if season = 0 then (None, st)
      else let (ok, st1) = draft_statement env st
           in (if ok then (case List.find (\<lambda>w. dw_season w = season) (sd_windows st1) of
                             Some w \<Rightarrow> if usable_window w then Some w else None | None \<Rightarrow> None)
               else None, st1))"

definition kbo_secondary_draft_load_window_for_draft_date ::
    "sd_env \<Rightarrow> u32 \<Rightarrow> sd_state \<Rightarrow> draft_window option \<times> sd_state" where
  "kbo_secondary_draft_load_window_for_draft_date env date st =
     (if date = 0 then (None, st)
      else let (ok, st1) = draft_statement env st;
               rows = rev (sort_key dw_season (filter (\<lambda>w. dw_draft w = date) (sd_windows st1)))
           in (if ok then (case rows of w # _ \<Rightarrow> if usable_window w then Some w else None | [] \<Rightarrow> None) else None, st1))"

section \<open>The protected lists\<close>

text \<open>The scan for the best player of a club that is not protected, from the front.\<close>

fun next_protection :: "nat \<Rightarrow> draft_candidate list \<Rightarrow> nat \<Rightarrow> (nat \<times> draft_candidate) option \<Rightarrow> (nat \<times> draft_candidate) option" where
  "next_protection team_index [] i best = best"
| "next_protection team_index (c # cs) i best =
     next_protection team_index cs (i + 1)
       (if dc_player c = 0 \<or> dc_owner c \<noteq> team_index \<or> dc_protected c \<or> dc_selected c then best
        else case best of
            None \<Rightarrow> Some (i, c)
          | Some (j, b) \<Rightarrow>
              if dc_value c > dc_value b \<or> (dc_value c = dc_value b \<and> dc_player c < dc_player b) then Some (i, c) else best)"

definition kbo_secondary_draft_next_auto_protection_candidate :: "draft_candidate list \<Rightarrow> nat \<Rightarrow> nat option" where
  "kbo_secondary_draft_next_auto_protection_candidate cands team_index =
     map_option fst (next_protection team_index cands 0 None)"

text \<open>The free places of the list are filled; \<open>slots\<close> is how many there are.\<close>

fun fill_slots ::
    "sd_env \<Rightarrow> u32 \<Rightarrow> draft_team \<Rightarrow> nat \<Rightarrow> string \<Rightarrow> nat \<Rightarrow> nat \<times> draft_candidate list \<times> sd_state
     \<Rightarrow> nat \<times> draft_candidate list \<times> sd_state" where
  "fill_slots env season team team_index source 0 acc = acc"
| "fill_slots env season team team_index source (Suc slots) (written, cands, st) =
     (case kbo_secondary_draft_next_auto_protection_candidate cands team_index of
        None \<Rightarrow> (written, cands, st)
      | Some i \<Rightarrow>
          let (ok, st1) = kbo_secondary_draft_sql_write_protected_player env season (dt_id team) (dc_player (cands ! i))
                            (dc_name (cands ! i)) (dt_name team) source st
          in if ok
             then fill_slots env season team team_index source slots
                    (written + 1, cands[i := (cands ! i)\<lparr>dc_protected := True\<rparr>], st1)
             else (written, cands, st1))"

definition protect_ids :: "u32 list \<Rightarrow> nat \<Rightarrow> draft_candidate \<Rightarrow> draft_candidate" where
  "protect_ids ids team_index c =
     (if dc_owner c = team_index \<and> kbo_secondary_draft_id_list_contains ids (dc_player c)
      then c\<lparr>dc_protected := True\<rparr> else c)"

definition draft_done :: "sd_env \<Rightarrow> u32 \<Rightarrow> sd_state \<Rightarrow> bool \<times> sd_state" where
  "draft_done env season st =
     (let (run, st1) = kbo_secondary_draft_sql_run_exists env season st
      in if run then (True, st1)
         else let (n, st2) = kbo_secondary_draft_sql_result_count env season st1 in (n > 0, st2))"

definition kbo_secondary_draft_auto_submit_team_protection_list ::
    "sd_env \<Rightarrow> u32 \<Rightarrow> draft_team \<Rightarrow> nat \<Rightarrow> string \<Rightarrow> draft_candidate list \<times> sd_state
     \<Rightarrow> (bool \<times> nat) \<times> draft_candidate list \<times> sd_state" where
  "kbo_secondary_draft_auto_submit_team_protection_list env season team team_index source = (\<lambda>(cands, st).
     if season = 0 \<or> dt_id team = 0 \<or> cands = [] then ((False, 0), cands, st)
     else
       let (finished, st1) = draft_done env season st
       in if finished then ((False, 0), cands, st1)
          else
            let (submitted, st2) = kbo_secondary_draft_sql_team_submitted env season (dt_id team) st1
            in if submitted then ((False, 0), cands, st2)
               else
                 let (saved, st3) = kbo_secondary_draft_sql_protected_count env season (dt_id team) st2
                 in if saved > PROTECTED_LIST_LIMIT then ((False, 0), cands, st3)
                    else
                      let (ids, st4) = kbo_secondary_draft_sql_load_protected_player_ids env season (dt_id team)
                                         PROTECTED_LIST_LIMIT st3;
                          (written, cands', st5) = fill_slots env season team team_index source
                                         (PROTECTED_LIST_LIMIT - saved) (0, map (protect_ids ids team_index) cands, st4);
                          (ok, st6) = kbo_secondary_draft_sql_submit_team env season (dt_id team) (dt_name team)
                                         (int (saved + written)) source st5
                      in ((ok, if ok then written else 0), cands', st6))"

fun auto_submit_loop ::
    "sd_env \<Rightarrow> u32 \<Rightarrow> string \<Rightarrow> nat \<Rightarrow> draft_team list \<Rightarrow> nat \<times> draft_candidate list \<times> sd_state
     \<Rightarrow> nat \<times> draft_candidate list \<times> sd_state" where
  "auto_submit_loop env season source i [] acc = acc"
| "auto_submit_loop env season source i (t # ts) (n, cands, st) =
     (let ((ok, _), cands', st') = kbo_secondary_draft_auto_submit_team_protection_list env season t i source (cands, st)
      in auto_submit_loop env season source (i + 1) ts (n + of_bool ok, cands', st'))"

definition kbo_secondary_draft_auto_submit_missing_protection_lists ::
    "sd_env \<Rightarrow> u32 \<Rightarrow> draft_team list \<Rightarrow> string \<Rightarrow> draft_candidate list \<times> sd_state
     \<Rightarrow> nat \<times> draft_candidate list \<times> sd_state" where
  "kbo_secondary_draft_auto_submit_missing_protection_lists env season teams source = (\<lambda>(cands, st).
     if season = 0 \<or> teams = [] \<or> cands = [] then (0, cands, st)
     else let (finished, st1) = draft_done env season st
          in if finished then (0, cands, st1) else auto_submit_loop env season source 0 teams (0, cands, st1))"

fun mark_loop ::
    "sd_env \<Rightarrow> u32 \<Rightarrow> nat list \<Rightarrow> nat \<times> draft_candidate list \<times> sd_state \<Rightarrow> nat \<times> draft_candidate list \<times> sd_state" where
  "mark_loop env season [] acc = acc"
| "mark_loop env season (i # is) (n, cands, st) =
     (case List.find (\<lambda>c. dc_owner c = i) cands of
        None \<Rightarrow> mark_loop env season is (n, cands, st)
      | Some first \<Rightarrow>
          if dc_owner_team first = 0 then mark_loop env season is (n, cands, st)
          else
            let (ids, st1) = kbo_secondary_draft_sql_load_protected_player_ids env season (dc_owner_team first)
                               PROTECTED_LIST_LIMIT st;
                fresh = (\<lambda>c. dc_owner c = i \<and> \<not> dc_protected c \<and> \<not> dc_selected c
                             \<and> kbo_secondary_draft_id_list_contains ids (dc_player c))
            in mark_loop env season is
                 (n + length (filter fresh cands), map (\<lambda>c. if fresh c then c\<lparr>dc_protected := True\<rparr> else c) cands, st1))"

definition kbo_secondary_draft_mark_protected_players ::
    "sd_env \<Rightarrow> u32 \<Rightarrow> nat \<Rightarrow> draft_candidate list \<times> sd_state \<Rightarrow> nat \<times> draft_candidate list \<times> sd_state" where
  "kbo_secondary_draft_mark_protected_players env season team_count = (\<lambda>(cands, st).
     if cands = [] \<or> team_count = 0 then (0, cands, st) else mark_loop env season [0..<team_count] (0, cands, st))"

section \<open>The choice\<close>

definition kbo_secondary_draft_selection_score :: "draft_candidate \<Rightarrow> int" where
  "kbo_secondary_draft_selection_score c =
     dc_value c * 1000
     + (if dc_age c \<ge> 18 \<and> dc_age c \<le> 27 then 250 else 0)
     + (if dc_seasons_known c \<and> dc_seasons c \<ge> 4 \<and> dc_seasons c \<le> 6 then 150 else 0)
     - uint (dc_player c mod 997)"

definition draftable :: "draft_team list \<Rightarrow> nat \<Rightarrow> draft_candidate \<Rightarrow> bool" where
  "draftable teams k c \<longleftrightarrow> \<not> dc_selected c \<and> \<not> dc_protected c \<and> dc_owner c \<noteq> k
     \<and> kbo_secondary_draft_source_loss_allows (dt_loss_count (teams ! dc_owner c))"

fun best_scan ::
    "draft_team list \<Rightarrow> nat \<Rightarrow> draft_candidate list \<Rightarrow> nat \<Rightarrow> (nat \<times> int) option \<Rightarrow> (nat \<times> int) option" where
  "best_scan teams k [] i best = best"
| "best_scan teams k (c # cs) i best =
     best_scan teams k cs (i + 1)
       (if \<not> draftable teams k c then best
        else let score = kbo_secondary_draft_selection_score c
             in case best of
                  None \<Rightarrow> Some (i, score)
                | Some (j, s) \<Rightarrow> if score > s then Some (i, score) else best)"

definition kbo_secondary_draft_best_candidate_for_team :: "draft_candidate list \<Rightarrow> draft_team list \<Rightarrow> nat \<Rightarrow> nat option" where
  "kbo_secondary_draft_best_candidate_for_team cands teams k = map_option fst (best_scan teams k cands 0 None)"

section \<open>A pick\<close>

definition SD_CASH_LIMIT :: int where "SD_CASH_LIMIT = 2000000000"

definition kbo_secondary_draft_team_cash :: "fa_world \<Rightarrow> u32 \<Rightarrow> int option" where
  "kbo_secondary_draft_team_cash w team_id =
     (case fw_finances w team_id of
        None \<Rightarrow> None
      | Some f \<Rightarrow> if fi_cash f \<le> - SD_CASH_LIMIT \<or> fi_cash f \<ge> SD_CASH_LIMIT then None
                  else Some (fi_cash f))"

definition kbo_secondary_draft_apply_cash_transfer :: "u32 \<Rightarrow> u32 \<Rightarrow> u32 \<Rightarrow> fa_world \<Rightarrow> bool \<times> fa_world" where
  "kbo_secondary_draft_apply_cash_transfer buyer seller amount w =
     (if amount = 0 \<or> amount > 2147483647 then (False, w)
      else case (kbo_secondary_draft_team_cash w buyer, kbo_secondary_draft_team_cash w seller) of
          (Some b, Some s) \<Rightarrow>
            if b < uint amount then (False, w)
            else if s + uint amount \<le> - SD_CASH_LIMIT \<or> s + uint amount \<ge> SD_CASH_LIMIT then (False, w)
            else (True, set_cash seller (s + uint amount) (set_cash buyer (b - uint amount) w))
        | _ \<Rightarrow> (False, w))"

definition kbo_secondary_draft_record_player_history :: "sd_env \<Rightarrow> draft_pick \<Rightarrow> u32 \<Rightarrow> sd_state \<Rightarrow> sd_state" where
  "kbo_secondary_draft_record_player_history env pick date st =
     (if dp_player pick = 0 \<or> date = 0 then st
      else let (ok, st1) = draft_statement env st
           in if ok then st1\<lparr>sd_events := sd_events st1 @ [Drafted_History date pick]\<rparr> else st1)"

definition set_world :: "fa_world \<Rightarrow> sd_state \<Rightarrow> sd_state" where
  "set_world w st = st\<lparr>sd_service := (sd_service st)\<lparr>ms_world := w\<rparr>\<rparr>"

definition draft_world :: "sd_state \<Rightarrow> fa_world" where
  "draft_world st = ms_world (sd_service st)"

definition kbo_secondary_draft_apply_military_rights_transfer ::
    "draft_candidate \<Rightarrow> draft_team \<Rightarrow> u32 \<Rightarrow> sd_state \<Rightarrow> bool \<times> sd_state" where
  "kbo_secondary_draft_apply_military_rights_transfer c to league st =
     (case fw_players (draft_world st) (dc_player c) of
        None \<Rightarrow> (False, st)
      | Some p \<Rightarrow>
          if dt_id to = 0 then (False, st)
          else
            let service = (if dc_service_team c \<noteq> 0 then dc_service_team c else pl_current_team (fq_base p));
                st1 = st\<lparr>sd_service := kbo_military_repair_original_team_memory (dc_player c) (dt_id to) league service 0 0
                           (sd_service st)\<rparr>
            in (case fw_players (draft_world st1) (dc_player c) of
                  None \<Rightarrow> False
                | Some p' \<Rightarrow> pl_active_team (fq_base p') = dt_id to \<or> pl_original_team (fq_base p') = dt_id to, st1))"

text \<open>Moving the chosen player; the flags say whether he moved and whether only his rights did.\<close>

definition move_pick :: "draft_candidate \<Rightarrow> draft_team \<Rightarrow> u32 \<Rightarrow> sd_state \<Rightarrow> (bool \<times> bool) \<times> sd_state" where
  "move_pick c to league st =
     (if dc_military c
      then let (ok, st1) = kbo_secondary_draft_apply_military_rights_transfer c to league st in ((ok, ok), st1)
      else let w = fst (kbo_assign_player_to_team_like_ootp (dc_player c) (dt_id to) league (draft_world st))
           in ((case fw_players w (dc_player c) of None \<Rightarrow> False | Some p \<Rightarrow> pl_current_team (fq_base p) = dt_id to, False),
               set_world w st))"

definition kbo_secondary_draft_apply_pick ::
    "sd_env \<Rightarrow> draft_candidate \<Rightarrow> draft_team \<Rightarrow> draft_team \<Rightarrow> u32 \<Rightarrow> u32 \<Rightarrow> nat \<Rightarrow> nat \<Rightarrow> sd_state
     \<Rightarrow> draft_pick option \<times> sd_state" where
  "kbo_secondary_draft_apply_pick env c from to league date round no st =
     (if live_player (draft_world st) (dc_player c) = None \<or> fw_teams (draft_world st) (dt_id to) = None then (None, st)
      else
        let ((moved, rights), st1) = move_pick c to league st
        in if \<not> moved then (None, st1)
           else
             let amount = kbo_secondary_draft_cash_for_round round;
                 (paid, w) = kbo_secondary_draft_apply_cash_transfer (dt_id to) (dt_id from) amount (draft_world st1);
                 pick = \<lparr>dp_round = of_nat round, dp_no = of_nat no, dp_player = dc_player c, dp_from = dt_id from,
                         dp_to = dt_id to, dp_cash = amount, dp_moved = True, dp_cash_applied = paid, dp_rights = rights,
                         dp_player_name = strbuf 96 (dc_name c), dp_from_name = strbuf 96 (dt_name from),
                         dp_to_name = strbuf 96 (dt_name to)\<rparr>
             in (Some pick, kbo_secondary_draft_record_player_history env pick date (set_world w st1)))"

section \<open>The draft\<close>

record draft_progress =
  pg_cands :: "draft_candidate list"
  pg_teams :: "draft_team list"
  pg_picks :: "draft_pick list"
  pg_cash :: int
  pg_state :: sd_state

record draft_setting =
  dx_season :: u32
  dx_date :: u32
  dx_league :: u32
  dx_source :: string

definition select_candidate :: "nat \<Rightarrow> draft_candidate list \<Rightarrow> draft_candidate list" where
  "select_candidate i cands = cands[i := (cands ! i)\<lparr>dc_selected := True\<rparr>]"

definition count_loss :: "nat \<Rightarrow> draft_team list \<Rightarrow> draft_team list" where
  "count_loss i teams = teams[i := (teams ! i)\<lparr>dt_loss_count := dt_loss_count (teams ! i) + 1\<rparr>]"

definition store_pick :: "sd_env \<Rightarrow> draft_setting \<Rightarrow> draft_pick \<Rightarrow> draft_progress \<Rightarrow> draft_progress" where
  "store_pick env x pick pg =
     (if length (pg_picks pg) < RESULT_MAX
      then pg\<lparr>pg_picks := pg_picks pg @ [pick], pg_cash := pg_cash pg + uint (dp_cash pick),
              pg_state := snd (kbo_secondary_draft_sql_append_pick env (dx_season x) pick (dx_source x) (pg_state pg))\<rparr>
      else pg)"

text \<open>One club's turn: at most \<open>attempts\<close> times the best candidate is tried, until one moves.\<close>

fun turn :: "sd_env \<Rightarrow> draft_setting \<Rightarrow> nat \<Rightarrow> nat \<Rightarrow> nat \<Rightarrow> draft_progress \<Rightarrow> draft_progress" where
  "turn env x round k 0 pg = pg"
| "turn env x round k (Suc attempts) pg =
     (case kbo_secondary_draft_best_candidate_for_team (pg_cands pg) (pg_teams pg) k of
        None \<Rightarrow> pg
      | Some i \<Rightarrow>
          let cands = select_candidate i (pg_cands pg);
              c = cands ! i;
              (result, st1) = kbo_secondary_draft_apply_pick env c (pg_teams pg ! dc_owner c) (pg_teams pg ! k) (dx_league x)
                                (dx_date x) round (length (pg_picks pg) + 1) (pg_state pg);
              pg1 = pg\<lparr>pg_cands := cands, pg_state := st1\<rparr>
          in case result of
               None \<Rightarrow> turn env x round k attempts pg1
             | Some pick \<Rightarrow> store_pick env x pick (pg1\<lparr>pg_teams := count_loss (dc_owner c) (pg_teams pg1)\<rparr>))"

definition draft_round :: "sd_env \<Rightarrow> draft_setting \<Rightarrow> nat \<Rightarrow> draft_progress \<Rightarrow> draft_progress" where
  "draft_round env x round pg =
     fold (\<lambda>k pg. turn env x round k (length (pg_cands pg)) pg)
       [0..<kbo_secondary_draft_round_team_limit (length (pg_teams pg)) round] pg"

definition draft_rounds :: "sd_env \<Rightarrow> draft_setting \<Rightarrow> draft_progress \<Rightarrow> draft_progress" where
  "draft_rounds env x pg = fold (draft_round env x) [1..<Suc DRAFT_ROUNDS] pg"

definition kbo_secondary_draft_resolve_event_season ::
    "sd_env \<Rightarrow> u32 \<Rightarrow> sd_state \<Rightarrow> (u32 \<times> u32) \<times> sd_state" where
  "kbo_secondary_draft_resolve_event_season env date st =
     (if date = 0 then ((0, 0), st)
      else
        let (window, st1) = kbo_secondary_draft_load_window_for_draft_date env date st;
            by_date = (if kbo_secondary_draft_is_odd_season (date div 10000) then date div 10000 else 0)
        in (case window of
              Some w \<Rightarrow> if kbo_secondary_draft_is_odd_season (dw_season w) then (dw_season w, dw_league w) else (by_date, 0)
            | None \<Rightarrow> (by_date, 0), st1))"

definition kbo_secondary_draft_completion_valid :: "sd_env \<Rightarrow> u32 \<Rightarrow> sd_state \<Rightarrow> bool \<times> sd_state" where
  "kbo_secondary_draft_completion_valid env date st =
     (let ((season, _), st1) = kbo_secondary_draft_resolve_event_season env date st
      in if season = 0 then (True, st1) else draft_done env season st1)"

definition summary_of :: "draft_setting \<Rightarrow> int \<Rightarrow> int \<Rightarrow> int \<Rightarrow> int \<Rightarrow> draft_run" where
  "summary_of x picks cands protected cash =
     \<lparr>dr_run_season = dx_season x, dr_event = dx_date x, dr_league = dx_league x, dr_picks = picks,
      dr_candidates = cands, dr_protected = protected, dr_cash_total = cash, dr_run_source = dx_source x\<rparr>"

text \<open>The draft of a season that has none yet, after the clubs have been put in their order.\<close>

definition start_draft :: "sd_env \<Rightarrow> draft_setting \<Rightarrow> draft_team list \<Rightarrow> sd_state \<Rightarrow> nat \<times> draft_progress" where
  "start_draft env x teams st =
     (let cands = kbo_secondary_draft_collect_candidates env (sd_service st) (dx_season x) teams;
          (_, cands1, st1) = kbo_secondary_draft_auto_submit_missing_protection_lists env (dx_season x) teams
                               ''secondary_draft_event_auto_protect'' (cands, st);
          (protected, cands2, st2) = kbo_secondary_draft_mark_protected_players env (dx_season x) (length teams) (cands1, st1)
      in (protected, \<lparr>pg_cands = cands2, pg_teams = teams, pg_picks = [], pg_cash = 0, pg_state = st2\<rparr>))"

definition run_draft :: "sd_env \<Rightarrow> draft_setting \<Rightarrow> draft_team list \<Rightarrow> sd_state \<Rightarrow> bool \<times> sd_state" where
  "run_draft env x teams st =
     (let (protected, pg0) = start_draft env x teams st;
          pg = draft_rounds env x pg0;
          n = int (length (pg_cands pg));
          (saved, st1) = kbo_secondary_draft_sql_mark_run env
                           (summary_of x (int (length (pg_picks pg))) n (int protected) (pg_cash pg)) (pg_state pg);
          st2 = st1\<lparr>sd_events := sd_events st1 @
                  [Results_News (dx_date x) (dx_league x) (pg_picks pg) n (int protected) (pg_cash pg)]\<rparr>
      in (saved, st2))"

definition kbo_handle_secondary_draft_event :: "sd_env \<Rightarrow> u32 \<Rightarrow> string \<Rightarrow> sd_state \<Rightarrow> bool \<times> sd_state" where
  "kbo_handle_secondary_draft_event env date source st =
     (let ((season, window_league), st1) = kbo_secondary_draft_resolve_event_season env date st;
          league = (if window_league \<noteq> 0 then window_league
                    else if de_main_league env \<noteq> 0 then de_main_league env else me_league (de_service env));
          x = \<lparr>dx_season = season, dx_date = date, dx_league = league, dx_source = source\<rparr>
      in if season = 0 then (True, st1)
         else if league = 0 then (False, st1)
         else
           let (run, st2) = kbo_secondary_draft_sql_run_exists env season st1
           in if run then (True, st2)
              else
                let (existing, st3) = kbo_secondary_draft_sql_result_count env season st2
                in if existing > 0
                   then (True, snd (kbo_secondary_draft_sql_mark_run env (summary_of x (int existing) 0 0 0) st3))
                   else
                     let teams = (case de_team_vector env of
                                    None \<Rightarrow> []
                                  | Some ts \<Rightarrow> kbo_secondary_draft_collect_main_teams env (draft_world st3) league ts [])
                     in if length teams \<le> 1 then (False, st3)
                        else run_draft env x (sort_teams teams) st3)"

end
