(* ===== verification/DraftLemmas.thy ===== *)
theory DraftLemmas
  imports DraftEngine FaCompLemmas "HOL-Library.Sublist"
begin

text \<open>
  Lemmas on the secondary draft: the two scans, what the protected lists change of the
  candidates, and the invariant of a turn.
\<close>

section \<open>The binary search\<close>

lemma fa_search_spec:
  assumes "sorted entries" and "0 \<le> lo" and "hi < int (length entries)"
  shows "fa_search entries p lo hi \<longleftrightarrow> (\<exists>i. lo \<le> int i \<and> int i \<le> hi \<and> entries ! i = p)"
  using assms
proof (induction entries p lo hi rule: fa_search.induct)
  case (1 entries p lo hi)
  show ?case
  proof (cases "lo \<le> hi")
    case False
    then show ?thesis by (subst fa_search.simps) auto
  next
    case True
    define mid where "mid = lo + (hi - lo) div 2"
    have mid: "lo \<le> mid" "mid \<le> hi" using True by (auto simp: mid_def)
    have below: "entries ! i \<le> entries ! nat mid" if "int i \<le> mid" for i
      using "1.prems" mid that by (intro sorted_nth_mono) auto
    have above: "entries ! nat mid \<le> entries ! i" if "mid \<le> int i" "int i \<le> hi" for i
      using "1.prems" mid that by (intro sorted_nth_mono) auto
    consider "entries ! nat mid = p" | "entries ! nat mid < p" | "entries ! nat mid > p" by fastforce
    then show ?thesis
    proof cases
      case 1
      have "lo \<le> int (nat mid) \<and> int (nat mid) \<le> hi \<and> entries ! nat mid = p" using 1 mid "1.prems" by auto
      then have "\<exists>i. lo \<le> int i \<and> int i \<le> hi \<and> entries ! i = p" by blast
      moreover have "fa_search entries p lo hi"
        using True 1 by (subst fa_search.simps) (simp add: Let_def mid_def)
      ultimately show ?thesis by simp
    next
      case 2
      then have ne: "entries ! nat mid \<noteq> p" by auto
      have "fa_search entries p lo hi = fa_search entries p (mid + 1) hi"
        using True 2 ne by (subst fa_search.simps) (simp add: Let_def mid_def)
      also have "\<dots> \<longleftrightarrow> (\<exists>i. mid + 1 \<le> int i \<and> int i \<le> hi \<and> entries ! i = p)"
        by (rule "1.IH"(1) [OF True mid_def refl ne 2]) (use "1.prems" mid in auto)
      also have "\<dots> \<longleftrightarrow> (\<exists>i. lo \<le> int i \<and> int i \<le> hi \<and> entries ! i = p)"
        using below 2 mid by (smt (verit) linorder_not_less)
      finally show ?thesis .
    next
      case 3
      then have ne: "entries ! nat mid \<noteq> p" "\<not> entries ! nat mid < p" by auto
      have "fa_search entries p lo hi = fa_search entries p lo (mid - 1)"
        using True 3 ne by (subst fa_search.simps) (simp add: Let_def mid_def)
      also have "\<dots> \<longleftrightarrow> (\<exists>i. lo \<le> int i \<and> int i \<le> mid - 1 \<and> entries ! i = p)"
        by (rule "1.IH"(2) [OF True mid_def refl ne]) (use "1.prems" mid in auto)
      also have "\<dots> \<longleftrightarrow> (\<exists>i. lo \<le> int i \<and> int i \<le> hi \<and> entries ! i = p)"
        using above 3 mid by (smt (verit) linorder_not_less)
      finally show ?thesis .
    qed
  qed
qed

text \<open>The search in the declared free agents of the season is membership.\<close>

lemma fa_lookup_is_membership:
  assumes "sorted entries"
  shows "kbo_secondary_draft_current_year_fa_lookup entries p \<longleftrightarrow> p \<noteq> 0 \<and> p \<in> set entries"
proof (cases "entries = [] \<or> p = 0")
  case False
  have "(\<exists>i. 0 \<le> int i \<and> int i \<le> int (length entries) - 1 \<and> entries ! i = p) \<longleftrightarrow> p \<in> set entries"
    by (auto simp: in_set_conv_nth)
  then show ?thesis
    using False fa_search_spec [OF assms, of 0 "int (length entries) - 1" p]
    by (simp add: kbo_secondary_draft_current_year_fa_lookup_def)
qed (auto simp: kbo_secondary_draft_current_year_fa_lookup_def)

section \<open>The scans\<close>

text \<open>The best candidate for a club: the first of the highest score among the draftable ones.\<close>

text \<open>
  Both scans of the draft go through a list and keep the entry that beats the one they have.
  What they return is not beaten, whenever the comparison is a strict weak order.
\<close>

fun best_of :: "('a \<Rightarrow> 'a \<Rightarrow> bool) \<Rightarrow> 'a option \<Rightarrow> 'a list \<Rightarrow> 'a option" where
  "best_of beats best [] = best"
| "best_of beats best (x # xs) =
     best_of beats (case best of None \<Rightarrow> Some x | Some y \<Rightarrow> if beats x y then Some x else best) xs"

lemma best_of_None: "best_of beats best xs = None \<longleftrightarrow> best = None \<and> xs = []"
  by (induction xs arbitrary: best) (auto split: option.split)

locale scan =
  fixes beats :: "'a \<Rightarrow> 'a \<Rightarrow> bool"
  assumes beats_asym: "beats x y \<Longrightarrow> \<not> beats y x"
    and unbeaten_trans: "\<not> beats x y \<Longrightarrow> \<not> beats y z \<Longrightarrow> \<not> beats x z"
begin

lemma best_of_unbeaten:
  assumes "best_of beats best xs = Some y"
  shows "(y \<in> set xs \<or> best = Some y) \<and> (\<forall>x \<in> set xs. \<not> beats x y) \<and> (\<forall>b. best = Some b \<longrightarrow> \<not> beats b y)"
  using assms
proof (induction xs arbitrary: best)
  case Nil
  then show ?case using beats_asym by auto
next
  case (Cons x xs)
  define z where "z = (case best of None \<Rightarrow> x | Some b \<Rightarrow> if beats x b then x else b)"
  have step: "best_of beats best (x # xs) = best_of beats (Some z) xs" by (cases best) (simp_all add: z_def)
  have z: "z = x \<or> best = Some z" "\<not> beats x z" "\<And>b. best = Some b \<Longrightarrow> \<not> beats b z"
    using beats_asym by (auto simp: z_def split: option.splits)
  note ih = Cons.IH [OF Cons.prems [unfolded step]]
  then have "\<not> beats z y" by blast
  then have "\<not> beats x y" "\<And>b. best = Some b \<Longrightarrow> \<not> beats b y" using z unbeaten_trans by blast+
  then show ?case using ih z(1) by auto
qed

end

definition scores_higher :: "nat \<times> int \<Rightarrow> nat \<times> int \<Rightarrow> bool" where
  "scores_higher x y \<longleftrightarrow> snd x > snd y"

definition protected_before :: "nat \<times> draft_candidate \<Rightarrow> nat \<times> draft_candidate \<Rightarrow> bool" where
  "protected_before x y \<longleftrightarrow> dc_value (snd x) > dc_value (snd y)
     \<or> (dc_value (snd x) = dc_value (snd y) \<and> dc_player (snd x) < dc_player (snd y))"

interpretation pick_scan: scan scores_higher
  by unfold_locales (auto simp: scores_higher_def)

interpretation protection_scan: scan protected_before
  by unfold_locales (auto simp: protected_before_def)

lemma best_scan_is_scan:
  "best_scan teams k cs n best =
     best_of scores_higher best (map (\<lambda>(i, c). (i, kbo_secondary_draft_selection_score c))
        (filter (\<lambda>(i, c). draftable teams k c) (enumerate n cs)))"
  by (induction cs arbitrary: n best) (auto simp: scores_higher_def Let_def split: option.split)

definition unprotected :: "nat \<Rightarrow> draft_candidate \<Rightarrow> bool" where
  "unprotected k c \<longleftrightarrow> dc_player c \<noteq> 0 \<and> dc_owner c = k \<and> \<not> dc_protected c \<and> \<not> dc_selected c"

lemma next_protection_is_scan:
  "next_protection k cs n best = best_of protected_before best (filter (\<lambda>(i, c). unprotected k c) (enumerate n cs))"
  by (induction cs arbitrary: n best) (auto simp: protected_before_def unprotected_def split: option.split)

text \<open>The automatic list takes the best valued of the club's players that are still free.\<close>

lemma next_auto_protection_best:
  assumes "kbo_secondary_draft_next_auto_protection_candidate cands k = Some i"
  shows "i < length cands" and "unprotected k (cands ! i)"
    and "\<And>c. c \<in> set cands \<Longrightarrow> unprotected k c \<Longrightarrow> dc_value c \<le> dc_value (cands ! i)"
proof -
  let ?xs = "filter (\<lambda>(i, c). unprotected k c) (enumerate 0 cands)"
  obtain d where d: "best_of protected_before None ?xs = Some (i, d)"
    using assms by (auto simp: kbo_secondary_draft_next_auto_protection_candidate_def next_protection_is_scan)
  note f = protection_scan.best_of_unbeaten [OF d]
  then have "(i, d) \<in> set ?xs" by simp
  then have m: "i < length cands" "d = cands ! i" "unprotected k d" by (auto simp: in_set_enumerate_eq)
  then show "i < length cands" "unprotected k (cands ! i)" by simp_all
  show "dc_value c \<le> dc_value (cands ! i)" if c: "c \<in> set cands" and u: "unprotected k c" for c
  proof -
    obtain j where j: "j < length cands" "cands ! j = c" using c by (auto simp: in_set_conv_nth)
    have "(j, c) \<in> set ?xs" using j u by (auto simp: in_set_enumerate_eq)
    then have "\<not> protected_before (j, c) (i, d)" using f by blast
    then show ?thesis using m(2) by (auto simp: protected_before_def)
  qed
qed

lemma in_scored:
  "(i, s) \<in> set (map (\<lambda>(i, c). (i, kbo_secondary_draft_selection_score c)) (filter (\<lambda>(i, c). draftable teams k c) (enumerate 0 cands)))
   \<longleftrightarrow> i < length cands \<and> draftable teams k (cands ! i) \<and> s = kbo_secondary_draft_selection_score (cands ! i)"
  by (force simp: in_set_enumerate_eq)

lemma best_candidate_None:
  "kbo_secondary_draft_best_candidate_for_team cands teams k = None \<longleftrightarrow> (\<forall>c \<in> set cands. \<not> draftable teams k c)"
proof -
  have "kbo_secondary_draft_best_candidate_for_team cands teams k = None
        \<longleftrightarrow> filter (\<lambda>(i, c). draftable teams k c) (enumerate 0 cands) = []"
    by (simp add: kbo_secondary_draft_best_candidate_for_team_def best_scan_is_scan best_of_None)
  also have "\<dots> \<longleftrightarrow> (\<forall>i < length cands. \<not> draftable teams k (cands ! i))"
    by (force simp: filter_empty_conv in_set_enumerate_eq)
  finally show ?thesis by (simp add: all_set_conv_all_nth)
qed

lemma best_candidate_Some:
  assumes "kbo_secondary_draft_best_candidate_for_team cands teams k = Some i"
  shows "i < length cands" and "draftable teams k (cands ! i)"
    and "\<And>c. c \<in> set cands \<Longrightarrow> draftable teams k c \<Longrightarrow>
           kbo_secondary_draft_selection_score c \<le> kbo_secondary_draft_selection_score (cands ! i)"
proof -
  let ?xs = "map (\<lambda>(i, c). (i, kbo_secondary_draft_selection_score c)) (filter (\<lambda>(i, c). draftable teams k c) (enumerate 0 cands))"
  obtain s where s: "best_of scores_higher None ?xs = Some (i, s)"
    using assms by (auto simp: kbo_secondary_draft_best_candidate_for_team_def best_scan_is_scan)
  note f = pick_scan.best_of_unbeaten [OF s]
  have m: "(i, s) \<in> set ?xs" using f by simp
  then show "i < length cands" "draftable teams k (cands ! i)" unfolding in_scored by simp_all
  have sc: "s = kbo_secondary_draft_selection_score (cands ! i)" using m unfolding in_scored by simp
  show "kbo_secondary_draft_selection_score c \<le> kbo_secondary_draft_selection_score (cands ! i)"
    if c: "c \<in> set cands" and d: "draftable teams k c" for c
  proof -
    obtain j where j: "j < length cands" "cands ! j = c" using c by (auto simp: in_set_conv_nth)
    then have "(j, kbo_secondary_draft_selection_score c) \<in> set ?xs" using d unfolding in_scored by simp
    then show ?thesis using f sc by (fastforce simp: scores_higher_def)
  qed
qed

section \<open>The invariant of the draft\<close>

text \<open>What holds before the first turn: the ids tell clubs and players apart, every candidate has an
  owner and nobody has been drafted.\<close>

definition draft_ready :: "draft_team list \<Rightarrow> draft_candidate list \<Rightarrow> bool" where
  "draft_ready teams cands \<longleftrightarrow> distinct (map dt_id teams) \<and> distinct (map dc_player cands)
     \<and> (\<forall>c \<in> set cands. dc_owner c < length teams)"

definition losses :: "u32 \<Rightarrow> draft_pick list \<Rightarrow> int" where
  "losses team_id picks = int (length (filter (\<lambda>p. dp_from p = team_id) picks))"

definition fair_pick :: "draft_team list \<Rightarrow> draft_candidate list \<Rightarrow> draft_pick \<Rightarrow> bool" where
  "fair_pick teams cands p \<longleftrightarrow>
     (\<exists>c \<in> set cands. dc_selected c \<and> \<not> dc_protected c \<and> dp_player p = dc_player c
        \<and> dp_from p = dt_id (teams ! dc_owner c) \<and> dp_to p \<noteq> dp_from p)"

definition draft_inv :: "draft_progress \<Rightarrow> bool" where
  "draft_inv pg \<longleftrightarrow> draft_ready (pg_teams pg) (pg_cands pg)
     \<and> (\<forall>t \<in> set (pg_teams pg). losses (dt_id t) (pg_picks pg) \<le> dt_loss_count t \<and> dt_loss_count t \<le> SOURCE_LOSS_LIMIT)
     \<and> (\<forall>p \<in> set (pg_picks pg). fair_pick (pg_teams pg) (pg_cands pg) p)
     \<and> distinct (map dp_player (pg_picks pg))
     \<and> map dp_no (pg_picks pg) = map of_nat [1..<Suc (length (pg_picks pg))]"

lemma draft_invI [intro?]:
  assumes "draft_ready (pg_teams pg) (pg_cands pg)"
    and "\<And>t. t \<in> set (pg_teams pg) \<Longrightarrow> losses (dt_id t) (pg_picks pg) \<le> dt_loss_count t \<and> dt_loss_count t \<le> SOURCE_LOSS_LIMIT"
    and "\<And>p. p \<in> set (pg_picks pg) \<Longrightarrow> fair_pick (pg_teams pg) (pg_cands pg) p"
    and "distinct (map dp_player (pg_picks pg))"
    and "map dp_no (pg_picks pg) = map of_nat [1..<Suc (length (pg_picks pg))]"
  shows "draft_inv pg"
  using assms by (simp add: draft_inv_def)

lemma update_keeps_map:
  assumes "f y = f (xs ! i)"
  shows "map f (xs[i := y]) = map f xs"
proof (cases "i < length xs")
  case True
  then have "map f (xs[i := y]) = (map f xs)[i := map f xs ! i]" using assms by (simp add: map_update)
  then show ?thesis by (simp add: list_update_id)
qed (simp add: list_update_beyond)

lemma select_candidate_map:
  "map dc_player (select_candidate i cs) = map dc_player cs"
  "map dc_owner (select_candidate i cs) = map dc_owner cs"
  "map dc_protected (select_candidate i cs) = map dc_protected cs"
  unfolding select_candidate_def by (rule update_keeps_map, simp)+

lemma count_loss_id: "map dt_id (count_loss i ts) = map dt_id ts"
  unfolding count_loss_def by (rule update_keeps_map) simp

lemma length_count_loss [simp]: "length (count_loss i ts) = length ts"
  by (simp add: count_loss_def)

lemma length_select_candidate [simp]: "length (select_candidate i cs) = length cs"
  by (simp add: select_candidate_def)

lemma draft_ready_cong:
  assumes "map dt_id ts = map dt_id us" "map dc_player cs = map dc_player ds" "map dc_owner cs = map dc_owner ds"
  shows "draft_ready ts cs = draft_ready us ds"
proof -
  have "length ts = length us" using assms(1) map_eq_imp_length_eq by blast
  moreover have "(\<forall>c \<in> set cs. dc_owner c < n) \<longleftrightarrow> (\<forall>x \<in> set (map dc_owner cs). x < n)" for n by simp
  moreover have "(\<forall>c \<in> set ds. dc_owner c < n) \<longleftrightarrow> (\<forall>x \<in> set (map dc_owner ds). x < n)" for n by simp
  ultimately show ?thesis using assms by (simp add: draft_ready_def del: set_map)
qed

lemma fair_pick_select:
  assumes "fair_pick ts cs p" "i < length cs"
  shows "fair_pick ts (select_candidate i cs) p"
proof -
  obtain j where j: "j < length cs" "dc_selected (cs ! j)" "\<not> dc_protected (cs ! j)" "dp_player p = dc_player (cs ! j)"
      "dp_from p = dt_id (ts ! dc_owner (cs ! j))" "dp_to p \<noteq> dp_from p"
    using assms(1) unfolding fair_pick_def by (metis in_set_conv_nth)
  have "select_candidate i cs ! j \<in> set (select_candidate i cs)" using j(1) by (simp add: nth_mem)
  moreover have "select_candidate i cs ! j = (cs ! j)\<lparr>dc_selected := True\<rparr> \<or> select_candidate i cs ! j = cs ! j"
    by (cases "i = j") (use j in \<open>auto simp: select_candidate_def\<close>)
  ultimately show ?thesis unfolding fair_pick_def using j by (metis draft_candidate.select_convs draft_candidate.surjective draft_candidate.update_convs(14))
qed

lemma fair_pick_teams:
  assumes "map dt_id ts = map dt_id us" "\<forall>c \<in> set cs. dc_owner c < length ts"
  shows "fair_pick ts cs p = fair_pick us cs p"
proof -
  have "dt_id (ts ! n) = dt_id (us ! n)" if "n < length ts" for n
    using assms(1) that by (metis length_map nth_map)
  then show ?thesis using assms(2) unfolding fair_pick_def by (metis (no_types, lifting))
qed

section \<open>The steps of a turn\<close>

lemma apply_pick_fields:
  assumes "kbo_secondary_draft_apply_pick env c from to league date round no st = (Some pick, st')"
  shows "dp_player pick = dc_player c" "dp_from pick = dt_id from" "dp_to pick = dt_id to"
    "dp_round pick = of_nat round" "dp_no pick = of_nat no"
  using assms by (auto simp: kbo_secondary_draft_apply_pick_def Let_def split: if_splits prod.splits)

lemma draft_inv_select:
  assumes "draft_inv pg" "i < length (pg_cands pg)"
  shows "draft_inv (pg\<lparr>pg_cands := select_candidate i (pg_cands pg), pg_state := st\<rparr>)"
proof
  let ?pg = "pg\<lparr>pg_cands := select_candidate i (pg_cands pg), pg_state := st\<rparr>"
  show "draft_ready (pg_teams ?pg) (pg_cands ?pg)"
    using assms(1) draft_ready_cong [OF refl select_candidate_map(1,2)] by (simp add: draft_inv_def)
  show "fair_pick (pg_teams ?pg) (pg_cands ?pg) p" if "p \<in> set (pg_picks ?pg)" for p
    using that assms fair_pick_select by (simp add: draft_inv_def)
qed (use assms(1) in \<open>auto simp: draft_inv_def\<close>)

text \<open>A pick is stored: its player has not been drafted before, his club may lose him.\<close>

definition new_pick :: "draft_progress \<Rightarrow> nat \<Rightarrow> draft_pick \<Rightarrow> bool" where
  "new_pick pg i p \<longleftrightarrow> i < length (pg_cands pg) \<and> \<not> dc_protected (pg_cands pg ! i) \<and> dc_selected (pg_cands pg ! i)
     \<and> dp_player p = dc_player (pg_cands pg ! i) \<and> dp_from p = dt_id (pg_teams pg ! dc_owner (pg_cands pg ! i))
     \<and> dp_to p \<noteq> dp_from p \<and> dp_no p = of_nat (length (pg_picks pg) + 1)
     \<and> dp_player p \<notin> dp_player ` set (pg_picks pg)
     \<and> dt_loss_count (pg_teams pg ! dc_owner (pg_cands pg ! i)) < SOURCE_LOSS_LIMIT"

lemma losses_append: "losses t (ps @ [p]) = losses t ps + of_bool (dp_from p = t)"
  by (simp add: losses_def)

lemma count_loss_losses:
  assumes inv: "draft_inv pg" and new: "new_pick pg i p"
    and t: "t \<in> set (count_loss (dc_owner (pg_cands pg ! i)) (pg_teams pg))"
  shows "losses (dt_id t) (pg_picks pg @ [p]) \<le> dt_loss_count t \<and> dt_loss_count t \<le> SOURCE_LOSS_LIMIT"
proof -
  let ?o = "dc_owner (pg_cands pg ! i)"
  have ready: "draft_ready (pg_teams pg) (pg_cands pg)" using inv by (simp add: draft_inv_def)
  have o: "?o < length (pg_teams pg)" using ready new by (simp add: draft_ready_def new_pick_def)
  obtain j where j: "j < length (pg_teams pg)" "t = count_loss ?o (pg_teams pg) ! j"
    using t by (metis in_set_conv_nth length_count_loss)
  have old: "losses (dt_id (pg_teams pg ! j)) (pg_picks pg) \<le> dt_loss_count (pg_teams pg ! j)
      \<and> dt_loss_count (pg_teams pg ! j) \<le> SOURCE_LOSS_LIMIT"
    using inv j(1) by (simp add: draft_inv_def)
  show ?thesis
  proof (cases "j = ?o")
    case True
    then show ?thesis using old j new o by (auto simp: count_loss_def losses_append new_pick_def)
  next
    case False
    have "dt_id (pg_teams pg ! j) \<noteq> dt_id (pg_teams pg ! ?o)"
      using ready False j(1) o by (simp add: draft_ready_def distinct_conv_nth)
    then show ?thesis using False old j new by (auto simp: count_loss_def losses_append new_pick_def)
  qed
qed

lemma draft_inv_store:
  assumes inv: "draft_inv pg" and new: "new_pick pg i p"
  shows "draft_inv (store_pick env x p (pg\<lparr>pg_teams := count_loss (dc_owner (pg_cands pg ! i)) (pg_teams pg)\<rparr>))"
proof -
  let ?ts = "count_loss (dc_owner (pg_cands pg ! i)) (pg_teams pg)"
  have ready: "draft_ready (pg_teams pg) (pg_cands pg)" using inv by (simp add: draft_inv_def)
  have ready': "draft_ready ?ts (pg_cands pg)"
    using ready draft_ready_cong [OF count_loss_id refl refl] by simp
  have fair: "fair_pick ?ts (pg_cands pg) q = fair_pick (pg_teams pg) (pg_cands pg) q" for q
    by (rule fair_pick_teams [OF count_loss_id]) (use ready in \<open>simp add: draft_ready_def\<close>)
  have fair_p: "fair_pick (pg_teams pg) (pg_cands pg) p"
    unfolding fair_pick_def by (rule bexI [of _ "pg_cands pg ! i"]) (use new in \<open>auto simp: new_pick_def\<close>)
  have l: "losses (dt_id t) (pg_picks pg @ [p]) \<le> dt_loss_count t \<and> dt_loss_count t \<le> SOURCE_LOSS_LIMIT" if "t \<in> set ?ts" for t
    by (rule count_loss_losses [OF inv new that])
  have l': "losses (dt_id t) (pg_picks pg) \<le> dt_loss_count t \<and> dt_loss_count t \<le> SOURCE_LOSS_LIMIT" if "t \<in> set ?ts" for t
    using l [OF that] by (auto simp: losses_append of_bool_def split: if_splits)
  show ?thesis
  proof (cases "length (pg_picks pg) < RESULT_MAX")
    case True
    show ?thesis
      by rule (use True ready' fair fair_p l inv new in \<open>auto simp: store_pick_def draft_inv_def new_pick_def\<close>)
  next
    case False
    show ?thesis by rule (use False ready' fair l' inv in \<open>auto simp: store_pick_def draft_inv_def\<close>)
  qed
qed

lemma draft_inv_turn:
  assumes "draft_inv pg" "k < length (pg_teams pg)"
  shows "draft_inv (turn env x round k n pg)"
  using assms
proof (induction n arbitrary: pg)
  case (Suc n)
  show ?case
  proof (cases "kbo_secondary_draft_best_candidate_for_team (pg_cands pg) (pg_teams pg) k")
    case None
    then show ?thesis using Suc.prems by simp
  next
    case (Some i)
    note best = best_candidate_Some(1,2) [OF Some]
    let ?c = "select_candidate i (pg_cands pg) ! i"
    obtain r st where r: "kbo_secondary_draft_apply_pick env ?c (pg_teams pg ! dc_owner ?c) (pg_teams pg ! k)
        (dx_league x) (dx_date x) round (length (pg_picks pg) + 1) (pg_state pg) = (r, st)" by (metis surj_pair)
    let ?pg = "pg\<lparr>pg_cands := select_candidate i (pg_cands pg), pg_state := st\<rparr>"
    have inv: "draft_inv ?pg" by (rule draft_inv_select [OF Suc.prems(1) best(1)])
    show ?thesis
    proof (cases r)
      case None
      then show ?thesis using Suc.IH [OF inv] Suc.prems(2) Some r by (simp add: Let_def)
    next
      case r_pick: (Some p)
      have c: "?c = (pg_cands pg ! i)\<lparr>dc_selected := True\<rparr>" using best(1) by (simp add: select_candidate_def)
      note fields = apply_pick_fields [OF r [unfolded r_pick]]
      have ready: "draft_ready (pg_teams pg) (pg_cands pg)" using Suc.prems(1) by (simp add: draft_inv_def)
      have fresh: "dp_player q \<noteq> dc_player (pg_cands pg ! i)" if "q \<in> set (pg_picks pg)" for q
      proof -
        have "fair_pick (pg_teams pg) (pg_cands pg) q" using Suc.prems(1) that by (simp add: draft_inv_def)
        then obtain j where j: "j < length (pg_cands pg)" "dc_selected (pg_cands pg ! j)" "dp_player q = dc_player (pg_cands pg ! j)"
          unfolding fair_pick_def by (metis in_set_conv_nth)
        have "i \<noteq> j" using j(2) best(2) by (auto simp: draftable_def)
        then show ?thesis using ready j best(1) by (auto simp: draft_ready_def distinct_conv_nth)
      qed
      have new_player: "dp_player p \<notin> dp_player ` set (pg_picks pg)" using fresh fields(1) c by fastforce
      have owner: "dc_owner (pg_cands pg ! i) < length (pg_teams pg)" "dc_owner (pg_cands pg ! i) \<noteq> k"
        using ready best by (auto simp: draft_ready_def draftable_def)
      have apart: "dt_id (pg_teams pg ! k) \<noteq> dt_id (pg_teams pg ! dc_owner (pg_cands pg ! i))"
        using ready owner Suc.prems(2) by (auto simp: draft_ready_def distinct_conv_nth)
      have "new_pick ?pg i p"
        using best fields c new_player apart
        by (auto simp: new_pick_def draftable_def kbo_secondary_draft_source_loss_allows_def)
      from draft_inv_store [OF inv this] show ?thesis using Some r r_pick by (simp add: Let_def)
    qed
  qed
qed simp

section \<open>The order of the turns\<close>

definition chosen :: "draft_progress \<Rightarrow> (u32 \<times> u32) list" where
  "chosen pg = map (\<lambda>p. (dp_round p, dp_to p)) (pg_picks pg)"

definition round_order :: "draft_team list \<Rightarrow> nat \<Rightarrow> (u32 \<times> u32) list" where
  "round_order teams round =
     map (\<lambda>k. (of_nat round, map dt_id teams ! k)) [0..<kbo_secondary_draft_round_team_limit (length teams) round]"

definition turn_order :: "draft_team list \<Rightarrow> (u32 \<times> u32) list" where
  "turn_order teams = concat (map (round_order teams) [1..<Suc DRAFT_ROUNDS])"

lemma round_order_cong: "map dt_id ts = map dt_id us \<Longrightarrow> round_order ts round = round_order us round"
  by (simp add: round_order_def map_eq_imp_length_eq [of dt_id ts dt_id us])

lemma round_limit_le: "kbo_secondary_draft_round_team_limit n round \<le> n"
  by (simp add: kbo_secondary_draft_round_team_limit_def)

lemma length_turn_order: "length (turn_order teams) = kbo_secondary_draft_expected_pick_count (length teams)"
proof -
  have "length (turn_order teams) = sum_list (map (kbo_secondary_draft_round_team_limit (length teams)) [1..<Suc DRAFT_ROUNDS])"
    by (simp add: turn_order_def round_order_def length_concat comp_def del: upt_Suc)
  moreover have "kbo_secondary_draft_round_team_limit 0 = (\<lambda>r. 0)"
    by (simp add: kbo_secondary_draft_round_team_limit_def fun_eq_iff)
  ultimately show ?thesis by (simp add: kbo_secondary_draft_expected_pick_count_def del: upt_Suc)
qed

lemma store_pick_teams: "pg_teams (store_pick env x p pg) = pg_teams pg"
  by (simp add: store_pick_def)

lemma store_pick_chosen:
  "chosen (store_pick env x p pg) = chosen pg @ [(dp_round p, dp_to p)] \<or> chosen (store_pick env x p pg) = chosen pg"
  by (simp add: store_pick_def chosen_def)

lemma turn_ids: "map dt_id (pg_teams (turn env x round k n pg)) = map dt_id (pg_teams pg)"
proof (induction n arbitrary: pg)
  case (Suc n)
  show ?case
    by (auto simp: Let_def Suc.IH store_pick_teams count_loss_id split: option.split prod.split)
qed simp

lemma turn_chosen:
  assumes "k < length (pg_teams pg)"
  shows "subseq (chosen (turn env x round k n pg)) (chosen pg @ [(of_nat round, map dt_id (pg_teams pg) ! k)])"
  using assms
proof (induction n arbitrary: pg)
  case (Suc n)
  show ?case
  proof (cases "kbo_secondary_draft_best_candidate_for_team (pg_cands pg) (pg_teams pg) k")
    case None
    then show ?thesis by (simp add: subseq_rev_drop_many)
  next
    case (Some i)
    let ?c = "select_candidate i (pg_cands pg) ! i"
    obtain r st where r: "kbo_secondary_draft_apply_pick env ?c (pg_teams pg ! dc_owner ?c) (pg_teams pg ! k)
        (dx_league x) (dx_date x) round (length (pg_picks pg) + 1) (pg_state pg) = (r, st)" by (metis surj_pair)
    let ?pg = "pg\<lparr>pg_cands := select_candidate i (pg_cands pg), pg_state := st\<rparr>"
    show ?thesis
    proof (cases r)
      case None
      have "chosen ?pg = chosen pg" by (simp add: chosen_def)
      then show ?thesis using Suc.IH [of ?pg] Suc.prems Some r None by (simp add: Let_def)
    next
      case r_pick: (Some p)
      let ?pg2 = "?pg\<lparr>pg_teams := count_loss (dc_owner ?c) (pg_teams ?pg)\<rparr>"
      have eq: "turn env x round k (Suc n) pg = store_pick env x p ?pg2" using Some r r_pick by (simp add: Let_def)
      have "chosen ?pg2 = chosen pg" by (simp add: chosen_def)
      moreover have "(dp_round p, dp_to p) = (of_nat round, map dt_id (pg_teams pg) ! k)"
        using apply_pick_fields [OF r [unfolded r_pick]] Suc.prems by simp
      ultimately show ?thesis unfolding eq using store_pick_chosen [of env x p ?pg2] by (auto simp: subseq_rev_drop_many)
    qed
  qed
qed (simp add: subseq_rev_drop_many)

lemma turns_keep:
  assumes "draft_inv pg" "\<And>k. k \<in> set ks \<Longrightarrow> k < length (pg_teams pg)"
  shows "draft_inv (fold (\<lambda>k pg. turn env x round k (length (pg_cands pg)) pg) ks pg)
    \<and> map dt_id (pg_teams (fold (\<lambda>k pg. turn env x round k (length (pg_cands pg)) pg) ks pg)) = map dt_id (pg_teams pg)
    \<and> subseq (chosen (fold (\<lambda>k pg. turn env x round k (length (pg_cands pg)) pg) ks pg))
        (chosen pg @ map (\<lambda>k. (of_nat round, map dt_id (pg_teams pg) ! k)) ks)"
  using assms
proof (induction ks arbitrary: pg)
  case (Cons k ks)
  let ?pg = "turn env x round k (length (pg_cands pg)) pg"
  have k: "k < length (pg_teams pg)" using Cons.prems by simp
  have ids: "map dt_id (pg_teams ?pg) = map dt_id (pg_teams pg)" by (rule turn_ids)
  have len: "length (pg_teams ?pg) = length (pg_teams pg)" using ids map_eq_imp_length_eq by blast
  note ih = Cons.IH [OF draft_inv_turn [OF Cons.prems(1) k], of env x round "length (pg_cands pg)"]
  have step: "subseq (chosen ?pg @ map (\<lambda>k. (of_nat round, map dt_id (pg_teams pg) ! k)) ks)
      (chosen pg @ map (\<lambda>k. (of_nat round, map dt_id (pg_teams pg) ! k)) (k # ks))"
    using list_emb_append_mono [OF turn_chosen [OF k, of env x round "length (pg_cands pg)"] subseq_order.order_refl
        [of "map (\<lambda>k. (of_nat round, map dt_id (pg_teams pg) ! k)) ks"]] by simp
  show ?case using ih Cons.prems(2) len ids subseq_order.trans [OF _ step] by simp
qed simp

lemma draft_round_keeps:
  assumes "draft_inv pg"
  shows "draft_inv (draft_round env x round pg) \<and> map dt_id (pg_teams (draft_round env x round pg)) = map dt_id (pg_teams pg)
    \<and> subseq (chosen (draft_round env x round pg)) (chosen pg @ round_order (pg_teams pg) round)"
  unfolding draft_round_def round_order_def
  by (rule turns_keep [OF assms]) (use round_limit_le in \<open>fastforce intro: less_le_trans\<close>)

lemma rounds_keep:
  assumes "draft_inv pg"
  shows "draft_inv (fold (draft_round env x) rs pg)
    \<and> map dt_id (pg_teams (fold (draft_round env x) rs pg)) = map dt_id (pg_teams pg)
    \<and> subseq (chosen (fold (draft_round env x) rs pg)) (chosen pg @ concat (map (round_order (pg_teams pg)) rs))"
  using assms
proof (induction rs arbitrary: pg)
  case (Cons r rs)
  let ?pg = "draft_round env x r pg"
  note one = draft_round_keeps [OF Cons.prems, of env x r]
  have order: "round_order (pg_teams ?pg) = round_order (pg_teams pg)" using one by (auto intro: round_order_cong)
  have step: "subseq (chosen ?pg @ concat (map (round_order (pg_teams pg)) rs))
      (chosen pg @ concat (map (round_order (pg_teams pg)) (r # rs)))"
    using list_emb_append_mono [OF conjunct2 [OF conjunct2 [OF one]] subseq_order.order_refl
        [of "concat (map (round_order (pg_teams pg)) rs)"]] by simp
  show ?case using Cons.IH [of ?pg] one order subseq_order.trans [OF _ step] by simp
qed simp

lemma draft_rounds_keep:
  assumes "draft_inv pg"
  shows "draft_inv (draft_rounds env x pg)" "map dt_id (pg_teams (draft_rounds env x pg)) = map dt_id (pg_teams pg)"
    "subseq (chosen (draft_rounds env x pg)) (chosen pg @ turn_order (pg_teams pg))"
  using rounds_keep [OF assms] by (simp_all add: draft_rounds_def turn_order_def del: upt_Suc)

section \<open>What the protected lists change\<close>

lemma protect_ids_fields [simp]:
  "dc_player (protect_ids ids k c) = dc_player c" "dc_owner (protect_ids ids k c) = dc_owner c"
  "dc_selected (protect_ids ids k c) = dc_selected c"
  by (simp_all add: protect_ids_def)

lemma fill_slots_maps:
  "map dc_player (fst (snd (fill_slots env season team k source n acc))) = map dc_player (fst (snd acc))
   \<and> map dc_owner (fst (snd (fill_slots env season team k source n acc))) = map dc_owner (fst (snd acc))"
proof (induction n arbitrary: acc)
  case (Suc n)
  obtain w cs st where acc: "acc = (w, cs, st)" by (metis prod_cases3)
  show ?case unfolding acc
    by (auto simp: Suc.IH update_keeps_map split: option.split prod.split)
qed simp

lemma auto_submit_maps:
  "map dc_player (fst (snd (kbo_secondary_draft_auto_submit_team_protection_list env season team k source cst))) = map dc_player (fst cst)
   \<and> map dc_owner (fst (snd (kbo_secondary_draft_auto_submit_team_protection_list env season team k source cst))) = map dc_owner (fst cst)"
proof -
  obtain cs st where c: "cst = (cs, st)" by (metis surj_pair)
  have f: "map dc_player cs' = map dc_player cs \<and> map dc_owner cs' = map dc_owner cs"
    if "fill_slots env season team k source n (0, map (protect_ids ids k) cs, st4) = (w, cs', st5)" for n ids st4 w cs' st5
    using fill_slots_maps [of env season team k source n "(0, map (protect_ids ids k) cs, st4)"] that by (simp add: comp_def)
  show ?thesis unfolding c kbo_secondary_draft_auto_submit_team_protection_list_def
    by (auto simp: Let_def f split: prod.split)
qed

lemma auto_submit_loop_maps:
  "map dc_player (fst (snd (auto_submit_loop env season source k ts acc))) = map dc_player (fst (snd acc))
   \<and> map dc_owner (fst (snd (auto_submit_loop env season source k ts acc))) = map dc_owner (fst (snd acc))"
proof (induction ts arbitrary: k acc)
  case (Cons t ts)
  obtain n cs st where acc: "acc = (n, cs, st)" by (metis prod_cases3)
  show ?case unfolding acc
    using auto_submit_maps [of env season t k source "(cs, st)"] by (auto simp: Cons.IH split: prod.split)
qed simp

lemma mark_loop_maps:
  "map dc_player (fst (snd (mark_loop env season ks acc))) = map dc_player (fst (snd acc))
   \<and> map dc_owner (fst (snd (mark_loop env season ks acc))) = map dc_owner (fst (snd acc))"
proof (induction ks arbitrary: acc)
  case (Cons k ks)
  obtain n cs st where acc: "acc = (n, cs, st)" by (metis prod_cases3)
  show ?case unfolding acc by (auto simp: Cons.IH Let_def comp_def split: option.split prod.split)
qed simp

lemma protection_maps:
  "map dc_player (fst (snd (kbo_secondary_draft_auto_submit_missing_protection_lists env season teams source cst))) = map dc_player (fst cst)"
  "map dc_owner (fst (snd (kbo_secondary_draft_auto_submit_missing_protection_lists env season teams source cst))) = map dc_owner (fst cst)"
  "map dc_player (fst (snd (kbo_secondary_draft_mark_protected_players env season n cst))) = map dc_player (fst cst)"
  "map dc_owner (fst (snd (kbo_secondary_draft_mark_protected_players env season n cst))) = map dc_owner (fst cst)"
  by (simp_all add: kbo_secondary_draft_auto_submit_missing_protection_lists_def kbo_secondary_draft_mark_protected_players_def
      auto_submit_loop_maps mark_loop_maps split: prod.split)

section \<open>What a turn leaves of the candidates\<close>

definition known :: "draft_candidate \<Rightarrow> u32 \<times> nat \<times> bool" where
  "known c = (dc_player c, dc_owner c, dc_protected c)"

lemma select_candidate_known: "map known (select_candidate i cs) = map known cs"
  unfolding select_candidate_def by (rule update_keeps_map) (simp add: known_def)

lemma turn_known: "map known (pg_cands (turn env x round k n pg)) = map known (pg_cands pg)"
proof (induction n arbitrary: pg)
  case (Suc n)
  show ?case
    by (auto simp: Let_def Suc.IH store_pick_def select_candidate_known split: option.split prod.split)
qed simp

lemma turns_known:
  "map known (pg_cands (fold (\<lambda>k pg. turn env x round k (length (pg_cands pg)) pg) ks pg)) = map known (pg_cands pg)"
  by (induction ks arbitrary: pg) (simp_all add: turn_known)

lemma draft_rounds_known: "map known (pg_cands (draft_rounds env x pg)) = map known (pg_cands pg)"
proof -
  have "map known (pg_cands (fold (draft_round env x) rs pg)) = map known (pg_cands pg)" for rs
    by (induction rs arbitrary: pg) (simp_all add: draft_round_def turns_known)
  then show ?thesis by (simp add: draft_rounds_def del: upt_Suc)
qed

section \<open>The candidates of the start\<close>

definition owners_below :: "nat \<Rightarrow> (u32 \<times> nat) list \<Rightarrow> bool" where
  "owners_below n entries \<longleftrightarrow> (\<forall>e \<in> set entries. snd e < n)"

lemma owner_map_add_below:
  assumes "owners_below n entries" "i < n"
  shows "owners_below n (kbo_secondary_draft_owner_map_add t i entries)"
proof -
  have "owners_below n (entries[j := (t, i)])" for j
    unfolding owners_below_def
  proof
    fix e assume "e \<in> set (entries[j := (t, i)])"
    then have "e = (t, i) \<or> e \<in> set entries" using set_update_subset_insert [of entries j "(t, i)"] by blast
    then show "snd e < n" using assms by (auto simp: owners_below_def)
  qed
  moreover have "owners_below n (entries @ [(t, i)])" using assms by (auto simp: owners_below_def)
  ultimately show ?thesis using assms(1) by (simp add: kbo_secondary_draft_owner_map_add_def split: option.split)
qed

lemma add_affiliates_below:
  "owners_below (length teams) entries \<Longrightarrow> owners_below (length teams) (add_affiliates env w teams ts entries)"
proof (induction ts arbitrary: entries)
  case (Cons t ts)
  have "owners_below (length teams) (kbo_secondary_draft_owner_map_add u i entries)"
    if "kbo_secondary_draft_owner_index_for_org_id teams org = Some i" for u i org
    using that first_index_Some owner_map_add_below [OF Cons.prems]
    by (metis kbo_secondary_draft_owner_index_for_org_id_def)
  then show ?case using Cons by (simp split: option.split)
qed simp

lemma owner_map_below: "owners_below (length teams) (kbo_secondary_draft_build_team_owner_map env w teams)"
proof -
  let ?f = "\<lambda>entries (i, t). kbo_secondary_draft_owner_map_add (dt_org t) i (kbo_secondary_draft_owner_map_add (dt_id t) i entries)"
  have "owners_below (length teams) (foldl ?f es its)"
    if "owners_below (length teams) es" "\<forall>x \<in> set its. fst x < length teams" for es its
    using that by (induction its arbitrary: es) (auto simp: owner_map_add_below)
  from this [of "[]" "enumerate 0 teams"] have "owners_below (length teams) (foldl ?f [] (enumerate 0 teams))"
    by (simp add: owners_below_def in_set_enumerate_eq)
  then show ?thesis
    by (simp add: kbo_secondary_draft_build_team_owner_map_def Let_def add_affiliates_below split: option.split)
qed

lemma owner_lookup_below:
  assumes "owners_below n entries" "kbo_secondary_draft_owner_map_lookup w entries t = Some i"
  shows "i < n"
proof -
  have "map_of entries k = Some i \<Longrightarrow> i < n" for k using assms(1) map_of_SomeD by (fastforce simp: owners_below_def)
  then show ?thesis using assms(2)
    by (auto simp: kbo_secondary_draft_owner_map_lookup_def Let_def split: if_splits option.splits)
qed

lemma player_owner_below:
  assumes e: "owners_below n entries"
    and s: "kbo_secondary_draft_owner_index_for_player_from_map env st entries q p = Some (i, service, military, loan)"
  shows "i < n"
  using s owner_lookup_below [OF e]
  by (auto simp: kbo_secondary_draft_owner_index_for_player_from_map_def Let_def split: if_splits option.splits)

definition owned :: "nat \<Rightarrow> u32 list \<Rightarrow> draft_candidate list \<Rightarrow> bool" where
  "owned n ids cands \<longleftrightarrow> (\<forall>c \<in> set cands. dc_owner c < n \<and> \<not> dc_selected c) \<and> subseq (map dc_player cands) ids"

lemma subseq_distinct_keys: "subseq xs ys \<Longrightarrow> distinct ys \<Longrightarrow> distinct xs"
  by (auto simp: subseq_conv_nths intro: distinct_nthsI)

lemma owned_longer: "owned n ids cands \<Longrightarrow> owned n (ids @ qs) cands"
  by (simp add: owned_def subseq_rev_drop_many)

lemma owned_snoc: "owned n ids cands \<Longrightarrow> dc_owner c < n \<Longrightarrow> \<not> dc_selected c \<Longrightarrow> owned n (ids @ [dc_player c]) (cands @ [c])"
  by (auto simp: owned_def intro: list_emb_append_mono)

lemma collect_players_owned:
  assumes low: "owners_below (length teams) owners"
  shows "owned (length teams) done_ids cands \<Longrightarrow>
    owned (length teams) (done_ids @ ids) (collect_players env st teams owners fa ids cands)"
proof (induction ids arbitrary: cands done_ids)
  case (Cons q ids)
  note skip = Cons.IH [OF owned_longer [OF Cons.prems, of "[q]"], simplified]
  have take: "owned (length teams) (done_ids @ q # ids) (collect_players env st teams owners fa ids (cands @ [c]))"
    if "dc_player c = q" "dc_owner c < length teams" "\<not> dc_selected c" for c
    using Cons.IH [OF owned_snoc [OF Cons.prems that(2,3)]] that(1) by simp
  show ?case
  proof (cases "length cands \<ge> CANDIDATE_MAX")
    case True
    then show ?thesis using Cons.prems by (simp add: owned_longer)
  next
    case False
    then show ?thesis
      by (auto simp: Let_def skip player_owner_below [OF low] intro!: take split: option.split)
  qed
qed simp

lemma collect_candidates_owned:
  assumes "readable_vector (ms_world st) = Some (base, ids)"
  shows "owned (length teams) ids (kbo_secondary_draft_collect_candidates env st season teams)"
  using collect_players_owned [OF owner_map_below, of teams "[]" "[]" ids] assms
  by (simp add: kbo_secondary_draft_collect_candidates_def owned_def)

section \<open>The money of the clubs\<close>

definition club_cash :: "fa_world \<Rightarrow> u32 \<Rightarrow> int" where
  "club_cash w team_id = (case fw_finances w team_id of None \<Rightarrow> 0 | Some f \<Rightarrow> fi_cash f)"

definition total_cash :: "fa_world \<Rightarrow> draft_team list \<Rightarrow> int" where
  "total_cash w teams = sum_list (map (club_cash w) (map dt_id teams))"

lemma total_cash_cong: "map dt_id ts = map dt_id us \<Longrightarrow> total_cash w ts = total_cash w us"
  by (simp add: total_cash_def)

lemma total_cash_finances: "fw_finances v = fw_finances w \<Longrightarrow> total_cash v ts = total_cash w ts"
proof -
  assume "fw_finances v = fw_finances w"
  then have "club_cash v = club_cash w" by (simp add: club_cash_def fun_eq_iff)
  then show ?thesis by (simp add: total_cash_def)
qed

lemma sum_list_transfer:
  fixes f g :: "'a \<Rightarrow> int"
  assumes "distinct xs" "a \<in> set xs" "b \<in> set xs" "a \<noteq> b"
    and "g a = f a - n" "g b = f b + n" "\<And>x. x \<noteq> a \<Longrightarrow> x \<noteq> b \<Longrightarrow> g x = f x"
  shows "sum_list (map g xs) = sum_list (map f xs)"
proof -
  have split: "sum h (set xs) = h a + (h b + sum h (set xs - {a} - {b}))" for h :: "'a \<Rightarrow> int"
    using assms(2-4) by (simp add: sum.remove [of _ a] sum.remove [of _ b])
  have "sum g (set xs - {a} - {b}) = sum f (set xs - {a} - {b})" by (rule sum.cong) (use assms(7) in auto)
  then show ?thesis using split [of g] split [of f] assms(1,5,6) by (simp add: sum_list_distinct_conv_sum_set)
qed

lemma transfer_keeps_total:
  assumes "distinct (map dt_id ts)" "t \<in> set ts" "u \<in> set ts" "dt_id t \<noteq> dt_id u"
  shows "total_cash (snd (kbo_secondary_draft_apply_cash_transfer (dt_id t) (dt_id u) amount w)) ts = total_cash w ts"
proof (cases "snd (kbo_secondary_draft_apply_cash_transfer (dt_id t) (dt_id u) amount w) = w")
  case False
  then obtain b s where b: "kbo_secondary_draft_team_cash w (dt_id t) = Some b"
      and s: "kbo_secondary_draft_team_cash w (dt_id u) = Some s"
      and w: "snd (kbo_secondary_draft_apply_cash_transfer (dt_id t) (dt_id u) amount w)
          = set_cash (dt_id u) (s + uint amount) (set_cash (dt_id t) (b - uint amount) w)"
    by (auto simp: kbo_secondary_draft_apply_cash_transfer_def Let_def split: if_splits option.splits)
  have fields: "\<exists>f. fw_finances w (dt_id t) = Some f \<and> fi_cash f = b" "\<exists>f. fw_finances w (dt_id u) = Some f \<and> fi_cash f = s"
    using b s by (auto simp: kbo_secondary_draft_team_cash_def split: option.splits if_splits)
  show ?thesis unfolding w total_cash_def
    by (rule sum_list_transfer [OF assms(1), of "dt_id t" "dt_id u" _ _ "uint amount"])
      (use assms fields in \<open>auto simp: club_cash_def set_cash_def\<close>)
qed simp

lemma repair_finances [simp]:
  "fw_finances (ms_world (kbo_military_repair_original_team_memory q t l s a b st)) = fw_finances (ms_world st)"
  by (simp add: kbo_military_repair_original_team_memory_def Let_def update_base_def update_player_def put_loan_def
      split: option.split)

lemma draft_world_frames [simp]:
  "draft_world (snd (draft_statement env st)) = draft_world st"
  "draft_world (kbo_secondary_draft_record_player_history env pick date st) = draft_world st"
  "draft_world (snd (kbo_secondary_draft_sql_append_pick env season pick source st)) = draft_world st"
  "draft_world (set_world w st) = w"
  by (auto simp: draft_statement_def kbo_secondary_draft_record_player_history_def draft_world_def set_world_def
      kbo_secondary_draft_sql_append_pick_def Let_def split: option.split)

lemma move_pick_finances: "fw_finances (draft_world (snd (move_pick c to league st))) = fw_finances (draft_world st)"
  by (auto simp: move_pick_def kbo_secondary_draft_apply_military_rights_transfer_def Let_def draft_world_def set_world_def
      kbo_assign_player_to_team_like_ootp_def assign_finances split: option.split prod.split)

lemma apply_pick_total:
  assumes "distinct (map dt_id ts)" "from \<in> set ts" "to \<in> set ts" "dt_id to \<noteq> dt_id from"
  shows "total_cash (draft_world (snd (kbo_secondary_draft_apply_pick env c from to league date round no st))) ts
       = total_cash (draft_world st) ts"
proof -
  obtain m r st1 where mv: "move_pick c to league st = ((m, r), st1)" by (metis surj_pair)
  have "total_cash (draft_world st1) ts = total_cash (draft_world st) ts"
    by (rule total_cash_finances) (use move_pick_finances [of c to league st] mv in simp)
  then show ?thesis
    by (simp add: kbo_secondary_draft_apply_pick_def Let_def mv split_beta transfer_keeps_total [OF assms(1,3,2,4)])
qed

lemma turn_total:
  assumes "draft_ready (pg_teams pg) (pg_cands pg)" "k < length (pg_teams pg)"
  shows "total_cash (draft_world (pg_state (turn env x round k n pg))) (pg_teams pg)
       = total_cash (draft_world (pg_state pg)) (pg_teams pg)
    \<and> draft_ready (pg_teams (turn env x round k n pg)) (pg_cands (turn env x round k n pg))"
  using assms
proof (induction n arbitrary: pg)
  case (Suc n)
  show ?case
  proof (cases "kbo_secondary_draft_best_candidate_for_team (pg_cands pg) (pg_teams pg) k")
    case None
    then show ?thesis using Suc.prems by simp
  next
    case (Some i)
    note best = best_candidate_Some(1,2) [OF Some]
    let ?c = "select_candidate i (pg_cands pg) ! i"
    obtain r st where r: "kbo_secondary_draft_apply_pick env ?c (pg_teams pg ! dc_owner ?c) (pg_teams pg ! k)
        (dx_league x) (dx_date x) round (length (pg_picks pg) + 1) (pg_state pg) = (r, st)" by (metis surj_pair)
    let ?pg = "pg\<lparr>pg_cands := select_candidate i (pg_cands pg), pg_state := st\<rparr>"
    have c: "dc_owner ?c = dc_owner (pg_cands pg ! i)" using best(1) by (simp add: select_candidate_def)
    have owner: "dc_owner ?c < length (pg_teams pg)" "dc_owner ?c \<noteq> k"
      using Suc.prems(1) best c by (auto simp: draft_ready_def draftable_def)
    have "dt_id (pg_teams pg ! k) \<noteq> dt_id (pg_teams pg ! dc_owner ?c)" "distinct (map dt_id (pg_teams pg))"
      using Suc.prems owner by (auto simp: draft_ready_def distinct_conv_nth)
    then have money: "total_cash (draft_world st) (pg_teams pg) = total_cash (draft_world (pg_state pg)) (pg_teams pg)"
      using apply_pick_total [of "pg_teams pg" "pg_teams pg ! dc_owner ?c" "pg_teams pg ! k"] owner Suc.prems(2) r
      by (metis nth_mem snd_conv)
    have ready: "draft_ready (pg_teams pg) (select_candidate i (pg_cands pg))"
      using Suc.prems(1) draft_ready_cong [OF refl select_candidate_map(1,2)] by simp
    have lost: "draft_ready (count_loss j (pg_teams pg)) cs = draft_ready (pg_teams pg) cs" for j cs
      by (rule draft_ready_cong [OF count_loss_id refl refl])
    show ?thesis
    proof (cases r)
      case None
      then show ?thesis using Suc.IH [of ?pg] Suc.prems(2) Some r money ready by (simp add: Let_def)
    next
      case r_pick: (Some p)
      then show ?thesis using Some r money ready by (simp add: Let_def store_pick_def lost)
    qed
  qed
qed simp

lemma turns_total:
  assumes "draft_ready (pg_teams pg) (pg_cands pg)" "\<And>k. k \<in> set ks \<Longrightarrow> k < length (pg_teams pg)"
  shows "total_cash (draft_world (pg_state (fold (\<lambda>k pg. turn env x round k (length (pg_cands pg)) pg) ks pg))) (pg_teams pg)
       = total_cash (draft_world (pg_state pg)) (pg_teams pg)
    \<and> draft_ready (pg_teams (fold (\<lambda>k pg. turn env x round k (length (pg_cands pg)) pg) ks pg))
        (pg_cands (fold (\<lambda>k pg. turn env x round k (length (pg_cands pg)) pg) ks pg))
    \<and> map dt_id (pg_teams (fold (\<lambda>k pg. turn env x round k (length (pg_cands pg)) pg) ks pg)) = map dt_id (pg_teams pg)"
  using assms
proof (induction ks arbitrary: pg)
  case (Cons k ks)
  let ?pg = "turn env x round k (length (pg_cands pg)) pg"
  have k: "k < length (pg_teams pg)" using Cons.prems by simp
  have ids: "map dt_id (pg_teams ?pg) = map dt_id (pg_teams pg)" by (rule turn_ids)
  have len: "length (pg_teams ?pg) = length (pg_teams pg)" using ids map_eq_imp_length_eq by blast
  note one = turn_total [OF Cons.prems(1) k, of env x round "length (pg_cands pg)"]
  note ih = Cons.IH [OF conjunct2 [OF one]]
  show ?case using ih one Cons.prems(2) len ids total_cash_cong [OF ids] by simp
qed simp

lemma rounds_total:
  assumes "draft_ready (pg_teams pg) (pg_cands pg)"
  shows "total_cash (draft_world (pg_state (fold (draft_round env x) rs pg))) (pg_teams pg)
       = total_cash (draft_world (pg_state pg)) (pg_teams pg)"
  using assms
proof (induction rs arbitrary: pg)
  case (Cons r rs)
  let ?pg = "draft_round env x r pg"
  have one: "total_cash (draft_world (pg_state ?pg)) (pg_teams pg) = total_cash (draft_world (pg_state pg)) (pg_teams pg)
      \<and> draft_ready (pg_teams ?pg) (pg_cands ?pg) \<and> map dt_id (pg_teams ?pg) = map dt_id (pg_teams pg)"
    unfolding draft_round_def
    by (rule turns_total [OF Cons.prems]) (use round_limit_le in \<open>fastforce intro: less_le_trans\<close>)
  then show ?case using Cons.IH [of ?pg] total_cash_cong [of "pg_teams ?pg" "pg_teams pg"] by simp
qed simp

section \<open>What the tables leave alone\<close>

definition outer :: "sd_state \<Rightarrow> ms_state \<times> draft_window list" where
  "outer st = (sd_service st, sd_windows st)"

lemma outer_statement [simp]: "outer (snd (draft_statement env st)) = outer st"
  by (simp add: draft_statement_def outer_def)

lemma outer_counted [simp]: "outer (snd (counted env f st)) = outer st"
  by (simp add: counted_def split_beta)

lemma outer_reads [simp]:
  "outer (snd (kbo_secondary_draft_sql_run_exists env season st)) = outer st"
  "outer (snd (kbo_secondary_draft_sql_result_count env season st)) = outer st"
  "outer (snd (kbo_secondary_draft_sql_protected_count env season t st)) = outer st"
  "outer (snd (kbo_secondary_draft_sql_load_protected_player_ids env season t n st)) = outer st"
  "outer (snd (kbo_secondary_draft_load_window_for_draft_date env date st)) = outer st"
  by (simp_all add: kbo_secondary_draft_sql_run_exists_def kbo_secondary_draft_sql_result_count_def
      kbo_secondary_draft_sql_protected_count_def kbo_secondary_draft_sql_load_protected_player_ids_def
      kbo_secondary_draft_load_window_for_draft_date_def split_beta)

lemma outer_submitted [simp]: "outer (snd (kbo_secondary_draft_sql_team_submitted env season t st)) = outer st"
  by (simp add: kbo_secondary_draft_sql_team_submitted_def split_beta)

lemma outer_updates [simp]:
  "outer (st\<lparr>sd_runs := a\<rparr>) = outer st" "outer (st\<lparr>sd_results := b\<rparr>) = outer st"
  "outer (st\<lparr>sd_protected := c\<rparr>) = outer st" "outer (st\<lparr>sd_submissions := d\<rparr>) = outer st"
  "outer (st\<lparr>sd_events := e\<rparr>) = outer st" "outer (st\<lparr>sd_clock := f\<rparr>) = outer st"
  by (simp_all add: outer_def)

lemma outer_writes [simp]:
  "outer (snd (kbo_secondary_draft_sql_mark_run env run st)) = outer st"
  "outer (snd (kbo_secondary_draft_sql_append_pick env season pick source st)) = outer st"
  "outer (snd (kbo_secondary_draft_sql_write_protected_player env season t q a b source st)) = outer st"
  "outer (snd (kbo_secondary_draft_sql_submit_team env season t a n source st)) = outer st"
  "outer (kbo_secondary_draft_record_player_history env pick date st) = outer st"
  by (simp_all add: kbo_secondary_draft_sql_mark_run_def kbo_secondary_draft_sql_append_pick_def
      kbo_secondary_draft_sql_write_protected_player_def kbo_secondary_draft_sql_submit_team_def
      kbo_secondary_draft_record_player_history_def Let_def split_beta split: option.split)

lemma outer_done [simp]: "outer (snd (draft_done env season st)) = outer st"
  by (simp add: draft_done_def split_beta)

lemma outer_fill [simp]: "outer (snd (snd (fill_slots env season team k source n acc))) = outer (snd (snd acc))"
proof (induction n arbitrary: acc)
  case (Suc n)
  obtain w cs st where acc: "acc = (w, cs, st)" by (metis prod_cases3)
  show ?case unfolding acc by (simp add: Suc.IH split_beta split: option.split)
qed simp

lemma outer_auto_submit [simp]:
  "outer (snd (snd (kbo_secondary_draft_auto_submit_team_protection_list env season team k source cst))) = outer (snd cst)"
proof -
  obtain cs st where c: "cst = (cs, st)" by (metis surj_pair)
  show ?thesis unfolding c kbo_secondary_draft_auto_submit_team_protection_list_def
    by (simp add: Let_def split_beta)
qed

lemma outer_auto_loop [simp]: "outer (snd (snd (auto_submit_loop env season source k ts acc))) = outer (snd (snd acc))"
proof (induction ts arbitrary: k acc)
  case (Cons t ts)
  obtain n cs st where acc: "acc = (n, cs, st)" by (metis prod_cases3)
  show ?case unfolding acc by (simp add: Cons.IH split_beta)
qed simp

lemma outer_mark_loop [simp]: "outer (snd (snd (mark_loop env season ks acc))) = outer (snd (snd acc))"
proof (induction ks arbitrary: acc)
  case (Cons k ks)
  obtain n cs st where acc: "acc = (n, cs, st)" by (metis prod_cases3)
  show ?case unfolding acc by (simp add: Cons.IH Let_def split_beta split: option.split)
qed simp

lemma outer_start [simp]: "outer (pg_state (snd (start_draft env x teams st))) = outer st"
  by (simp add: start_draft_def Let_def split_beta kbo_secondary_draft_auto_submit_missing_protection_lists_def
      kbo_secondary_draft_mark_protected_players_def)

lemma draft_world_outer: "outer st = outer st' \<Longrightarrow> draft_world st = draft_world st'"
  by (simp add: outer_def draft_world_def)

section \<open>The start of a draft\<close>

lemma start_fields:
  "pg_teams (snd (start_draft env x teams st)) = teams"
  "pg_picks (snd (start_draft env x teams st)) = []"
  "map dc_player (pg_cands (snd (start_draft env x teams st)))
     = map dc_player (kbo_secondary_draft_collect_candidates env (sd_service st) (dx_season x) teams)"
  "map dc_owner (pg_cands (snd (start_draft env x teams st)))
     = map dc_owner (kbo_secondary_draft_collect_candidates env (sd_service st) (dx_season x) teams)"
  by (simp_all add: start_draft_def Let_def split_beta protection_maps)

lemma start_ready:
  assumes v: "readable_vector (draft_world st) = Some (base, ids)" and d: "distinct ids" and t: "distinct (map dt_id teams)"
  shows "draft_ready teams (pg_cands (snd (start_draft env x teams st)))"
proof -
  let ?cs = "kbo_secondary_draft_collect_candidates env (sd_service st) (dx_season x) teams"
  have o: "owned (length teams) ids ?cs" using collect_candidates_owned v by (simp add: draft_world_def)
  then have "draft_ready teams ?cs" using d t by (auto simp: owned_def draft_ready_def dest: subseq_distinct_keys)
  then show ?thesis using draft_ready_cong [OF refl start_fields(3,4)] by blast
qed

lemma start_inv:
  assumes "readable_vector (draft_world st) = Some (base, ids)" "distinct ids" "distinct (map dt_id teams)"
    "\<forall>t \<in> set teams. dt_loss_count t = 0"
  shows "draft_inv (snd (start_draft env x teams st))"
  by rule (use start_ready [OF assms(1-3)] assms(4) in \<open>simp_all add: start_fields losses_def SOURCE_LOSS_LIMIT_def\<close>)

end
