(* ===== verification/DraftProtection.thy ===== *)
theory DraftProtection
  imports DraftLemmas
begin

text \<open>
  The protected lists of the secondary draft and the flags of the candidates: when the
  statements succeed, every candidate on the saved list of his club is marked before the
  first turn.  What the automatic lists add to the table is counted, because only 35 ids of
  a list are loaded.
\<close>

section \<open>Statements that succeed\<close>

definition reliable :: "sd_env \<Rightarrow> bool" where
  "reliable env \<longleftrightarrow> (\<forall>n. de_ok env n)"

lemma reliable_statement: "reliable env \<Longrightarrow> draft_statement env st = (True, st\<lparr>sd_clock := sd_clock st + 1\<rparr>)"
  by (simp add: draft_statement_def reliable_def)

section \<open>The saved list of a club\<close>

definition saved_rows :: "u32 \<Rightarrow> u32 \<Rightarrow> sd_state \<Rightarrow> protected_row list" where
  "saved_rows season team_id st = filter (\<lambda>r. sp_season r = season \<and> sp_team r = team_id) (sd_protected st)"

definition saved_players :: "u32 \<Rightarrow> u32 \<Rightarrow> sd_state \<Rightarrow> u32 set" where
  "saved_players season team_id st = sp_player ` set (saved_rows season team_id st)"

lemma saved_rows_cong: "sd_protected st = sd_protected st' \<Longrightarrow> saved_rows s t st = saved_rows s t st'"
  by (simp add: saved_rows_def)

lemma protected_statement [simp]: "sd_protected (snd (draft_statement env st)) = sd_protected st"
  by (simp add: draft_statement_def)

lemma protected_counted [simp]: "sd_protected (snd (counted env f st)) = sd_protected st"
  by (simp add: counted_def split_beta)

lemma protected_reads [simp]:
  "sd_protected (snd (kbo_secondary_draft_sql_run_exists env season st)) = sd_protected st"
  "sd_protected (snd (kbo_secondary_draft_sql_result_count env season st)) = sd_protected st"
  "sd_protected (snd (kbo_secondary_draft_sql_protected_count env season t st)) = sd_protected st"
  "sd_protected (snd (kbo_secondary_draft_sql_load_protected_player_ids env season t n st)) = sd_protected st"
  by (simp_all add: kbo_secondary_draft_sql_run_exists_def kbo_secondary_draft_sql_result_count_def
      kbo_secondary_draft_sql_protected_count_def kbo_secondary_draft_sql_load_protected_player_ids_def split_beta)

lemma protected_reads2 [simp]:
  "sd_protected (snd (kbo_secondary_draft_sql_team_submitted env season t st)) = sd_protected st"
  "sd_protected (snd (draft_done env season st)) = sd_protected st"
  "sd_protected (snd (kbo_secondary_draft_sql_submit_team env season t a n source st)) = sd_protected st"
  by (auto simp: kbo_secondary_draft_sql_team_submitted_def draft_done_def kbo_secondary_draft_sql_submit_team_def
      split_beta Let_def split: option.split)

text \<open>A write adds at most one row, and only to the list of its club.\<close>

lemma write_rows:
  fixes env :: sd_env and season team_id q :: u32 and a b source :: string and st :: sd_state
  defines "st' \<equiv> snd (kbo_secondary_draft_sql_write_protected_player env season team_id q a b source st)"
  shows "set (sd_protected st) \<subseteq> set (sd_protected st')"
    and "length (saved_rows s t st') \<le> length (saved_rows s t st) + of_bool (s = season \<and> t = team_id)"
  by (auto simp: st'_def kbo_secondary_draft_sql_write_protected_player_def saved_rows_def Let_def split_beta
      draft_statement_def)

lemma fill_rows:
  fixes env :: sd_env and season :: u32 and team :: draft_team and k slots :: nat and source :: string
    and acc :: "nat \<times> draft_candidate list \<times> sd_state"
  defines "st \<equiv> snd (snd acc)" and "st' \<equiv> snd (snd (fill_slots env season team k source slots acc))"
  shows "set (sd_protected st) \<subseteq> set (sd_protected st')
     \<and> length (saved_rows s t st') \<le> length (saved_rows s t st) + (if s = season \<and> t = dt_id team then slots else 0)"
  unfolding st_def st'_def
proof (induction slots arbitrary: acc)
  case (Suc n)
  obtain w cs st where acc: "acc = (w, cs, st)" by (metis prod_cases3)
  show ?case
  proof (cases "kbo_secondary_draft_next_auto_protection_candidate cs k")
    case None
    then show ?thesis by (simp add: acc)
  next
    case (Some i)
    obtain ok st1 where wr: "kbo_secondary_draft_sql_write_protected_player env season (dt_id team) (dc_player (cs ! i))
        (dc_name (cs ! i)) (dt_name team) source st = (ok, st1)" by (metis surj_pair)
    note w1 = write_rows [where st = st and env = env and season = season and team_id = "dt_id team"
        and q = "dc_player (cs ! i)" and a = "dc_name (cs ! i)" and b = "dt_name team" and source = source,
        unfolded wr snd_conv]
    note w2 = w1(2) [where s = s and t = t]
    show ?thesis
    proof (cases ok)
      case True
      then show ?thesis
        using w1(1) w2 Suc.IH [of "(w + 1, cs[i := (cs ! i)\<lparr>dc_protected := True\<rparr>], st1)"] Some
        by (auto simp: acc wr split: if_splits)
    next
      case False
      then show ?thesis using w1(1) w2 Some by (auto simp: acc wr split: if_splits)
    qed
  qed
qed simp

lemma reliable_count:
  "reliable env \<Longrightarrow> season \<noteq> 0 \<Longrightarrow> t \<noteq> 0 \<Longrightarrow>
   fst (kbo_secondary_draft_sql_protected_count env season t st) = length (saved_rows season t st)"
  by (simp add: kbo_secondary_draft_sql_protected_count_def counted_def reliable_statement saved_rows_def)

lemma auto_submit_rows:
  fixes env :: sd_env and season :: u32 and team :: draft_team and k :: nat and source :: string
    and cst :: "draft_candidate list \<times> sd_state"
  defines "st' \<equiv> snd (snd (kbo_secondary_draft_auto_submit_team_protection_list env season team k source cst))"
  assumes "reliable env"
  shows "set (sd_protected (snd cst)) \<subseteq> set (sd_protected st')
     \<and> (length (saved_rows s t (snd cst)) \<le> PROTECTED_LIST_LIMIT \<longrightarrow> length (saved_rows s t st') \<le> PROTECTED_LIST_LIMIT)"
proof -
  obtain cs st where cst: "cst = (cs, st)" by (metis surj_pair)
  obtain f st1 where 1: "draft_done env season st = (f, st1)" by (metis surj_pair)
  obtain g st2 where 2: "kbo_secondary_draft_sql_team_submitted env season (dt_id team) st1 = (g, st2)" by (metis surj_pair)
  obtain n st3 where 3: "kbo_secondary_draft_sql_protected_count env season (dt_id team) st2 = (n, st3)" by (metis surj_pair)
  obtain ids st4 where 4: "kbo_secondary_draft_sql_load_protected_player_ids env season (dt_id team)
      PROTECTED_LIST_LIMIT st3 = (ids, st4)" by (metis surj_pair)
  obtain w cs' st5 where 5: "fill_slots env season team k source (PROTECTED_LIST_LIMIT - n)
      (0, map (protect_ids ids k) cs, st4) = (w, cs', st5)" by (metis prod_cases3)
  obtain ok st6 where 6: "kbo_secondary_draft_sql_submit_team env season (dt_id team) (dt_name team)
      (int (n + w)) source st5 = (ok, st6)" by (metis surj_pair)
  have same: "sd_protected st1 = sd_protected st" "sd_protected st2 = sd_protected st"
      "sd_protected st3 = sd_protected st" "sd_protected st4 = sd_protected st" "sd_protected st6 = sd_protected st5"
    using protected_reads2(2) [of env season st] protected_reads2(1) [of env season "dt_id team" st1]
      protected_reads(3) [of env season "dt_id team" st2]
      protected_reads(4) [of env season "dt_id team" PROTECTED_LIST_LIMIT st3]
      protected_reads2(3) [where env = env and season = season and t = "dt_id team" and a = "dt_name team"
        and n = "int (n + w)" and source = source and st = st5]
    by (simp_all only: 1 2 3 4 6 snd_conv)
  show ?thesis
  proof (cases "season = 0 \<or> dt_id team = 0 \<or> cs = [] \<or> f \<or> g \<or> n > PROTECTED_LIST_LIMIT")
    case True
    then have "sd_protected st' = sd_protected st"
      unfolding st'_def cst kbo_secondary_draft_auto_submit_team_protection_list_def
      using same by (auto simp: 1 2 3 Let_def)
    then show ?thesis using cst saved_rows_cong [of st' st] by simp
  next
    case False
    then have st': "st' = st6"
      unfolding st'_def cst kbo_secondary_draft_auto_submit_team_protection_list_def
      by (simp add: 1 2 3 4 5 6 Let_def del: of_nat_add)
    have n: "n = length (saved_rows season (dt_id team) st)"
      using reliable_count [OF assms(2), of season "dt_id team" st2] False 3 saved_rows_cong [OF same(2)] by simp
    note fill = fill_rows [of "(0, map (protect_ids ids k) cs, st4)" env season team k source "PROTECTED_LIST_LIMIT - n" s t,
        unfolded 5 snd_conv]
    show ?thesis
      using fill n False saved_rows_cong [OF same(4)] saved_rows_cong [OF same(5)]
      by (auto simp: cst st' same split: if_splits)
  qed
qed

lemma auto_loop_rows:
  assumes "reliable env"
  shows "set (sd_protected (snd (snd acc))) \<subseteq> set (sd_protected (snd (snd (auto_submit_loop env season source k ts acc))))
     \<and> (length (saved_rows s t (snd (snd acc))) \<le> PROTECTED_LIST_LIMIT \<longrightarrow>
          length (saved_rows s t (snd (snd (auto_submit_loop env season source k ts acc)))) \<le> PROTECTED_LIST_LIMIT)"
proof (induction ts arbitrary: k acc)
  case (Cons team ts)
  obtain n cs st where acc: "acc = (n, cs, st)" by (metis prod_cases3)
  obtain ok w cs' st' where one: "kbo_secondary_draft_auto_submit_team_protection_list env season team k source (cs, st)
      = ((ok, w), cs', st')" by (metis surj_pair)
  note r = auto_submit_rows [OF assms, of "(cs, st)" season team k source s t, unfolded one snd_conv]
  note ih = Cons.IH [of "(n + of_bool ok, cs', st')" "k + 1", unfolded snd_conv]
  show ?case using r ih by (auto simp: acc one)
qed simp

lemma auto_lists_rows:
  assumes "reliable env"
  shows "set (sd_protected (snd cst)) \<subseteq> set (sd_protected (snd (snd
            (kbo_secondary_draft_auto_submit_missing_protection_lists env season teams source cst))))
     \<and> (length (saved_rows s t (snd cst)) \<le> PROTECTED_LIST_LIMIT \<longrightarrow>
          length (saved_rows s t (snd (snd
            (kbo_secondary_draft_auto_submit_missing_protection_lists env season teams source cst)))) \<le> PROTECTED_LIST_LIMIT)"
proof -
  obtain cs st where cst: "cst = (cs, st)" by (metis surj_pair)
  obtain f st1 where 1: "draft_done env season st = (f, st1)" by (metis surj_pair)
  have p: "sd_protected st1 = sd_protected st" using protected_reads2(2) [of env season st] by (simp add: 1)
  show ?thesis
    using auto_loop_rows [OF assms, of "(0, cs, st1)" season source 0 teams s t] p saved_rows_cong [OF p]
    by (auto simp: cst kbo_secondary_draft_auto_submit_missing_protection_lists_def 1)
qed

section \<open>The marks\<close>

text \<open>What the candidates have when they are collected, whatever is marked later.\<close>

definition own_club :: "draft_team list \<Rightarrow> draft_candidate \<Rightarrow> bool" where
  "own_club teams c \<longleftrightarrow> dc_player c \<noteq> 0 \<and> dc_owner_team c \<noteq> 0 \<and> dc_owner_team c = dt_id (teams ! dc_owner c)
     \<and> \<not> dc_selected c"

definition marked :: "draft_candidate \<Rightarrow> draft_candidate" where
  "marked c = c\<lparr>dc_protected := True\<rparr>"

lemma marked_fields [simp]:
  "own_club teams (marked c) = own_club teams c" "dc_owner (marked c) = dc_owner c"
  "dc_player (marked c) = dc_player c" "dc_protected (marked c)"
  by (simp_all add: marked_def own_club_def)

lemma eligible_identity:
  "el_eligible (kbo_secondary_draft_evaluate_eligibility input) \<Longrightarrow> ei_player input \<noteq> 0 \<and> ei_owner_team input \<noteq> 0"
  by (auto simp: kbo_secondary_draft_evaluate_eligibility_def split: if_splits)

lemma collect_players_own:
  "\<forall>c \<in> set cands. own_club teams c \<Longrightarrow>
   \<forall>c \<in> set (collect_players env st teams owners fa ids cands). own_club teams c"
proof (induction ids arbitrary: cands)
  case (Cons q ids)
  note skip = Cons.IH [OF Cons.prems]
  have take: "\<forall>c \<in> set (collect_players env st teams owners fa ids (cands @ [c])). own_club teams c"
    if "own_club teams c" for c
    using Cons.IH [of "cands @ [c]"] Cons.prems that by simp
  show ?case
  proof (cases "length cands \<ge> CANDIDATE_MAX")
    case True
    then show ?thesis using Cons.prems by simp
  next
    case False
    have new: "own_club teams c" if "el_eligible (kbo_secondary_draft_evaluate_eligibility
        (candidate_input env st fa q p (teams ! i) military loan))" "dc_player c = q" "dc_owner_team c = dt_id (teams ! i)"
        "dc_owner c = i" "\<not> dc_selected c" for p i military loan c
      using eligible_identity [OF that(1)] that(2-5) by (simp add: candidate_input_def own_club_def Let_def)
    show ?thesis
    proof (cases "\<exists>p i service military loan. live_player (ms_world st) q = Some p
        \<and> kbo_secondary_draft_owner_index_for_player_from_map env st owners q p = Some (i, service, military, loan)
        \<and> el_eligible (kbo_secondary_draft_evaluate_eligibility (candidate_input env st fa q p (teams ! i) military loan))")
      case True
      then obtain p i service military loan where p: "live_player (ms_world st) q = Some p"
          "kbo_secondary_draft_owner_index_for_player_from_map env st owners q p = Some (i, service, military, loan)"
          "el_eligible (kbo_secondary_draft_evaluate_eligibility (candidate_input env st fa q p (teams ! i) military loan))"
        by blast
      obtain c where c: "collect_players env st teams owners fa (q # ids) cands
          = collect_players env st teams owners fa ids (cands @ [c])" "dc_player c = q"
          "dc_owner_team c = dt_id (teams ! i)" "dc_owner c = i" "\<not> dc_selected c"
        using False p by (simp add: Let_def)
      show ?thesis unfolding c(1) by (rule take [OF new [OF p(3) c(2-5)]])
    next
      case none: False
      then have "collect_players env st teams owners fa (q # ids) cands = collect_players env st teams owners fa ids cands"
        using False by (auto simp: Let_def split: option.split)
      then show ?thesis using skip by simp
    qed
  qed
qed simp

lemma collect_own:
  "\<forall>c \<in> set (kbo_secondary_draft_collect_candidates env st season teams). own_club teams c"
proof (cases "readable_vector (ms_world st)")
  case (Some v)
  obtain base ids where "v = (base, ids)" by fastforce
  then show ?thesis
    using Some collect_players_own [of "[]" teams env st _ _ ids]
    unfolding kbo_secondary_draft_collect_candidates_def by simp
qed (simp add: kbo_secondary_draft_collect_candidates_def)

text \<open>Marking only sets the flag, and never clears it.\<close>

definition marking :: "(draft_candidate \<Rightarrow> draft_candidate) \<Rightarrow> bool" where
  "marking f \<longleftrightarrow> (\<forall>c. f c = c \<or> f c = marked c)"

lemma marking_keeps:
  assumes "marking f"
  shows "own_club teams (f c) = own_club teams c" "dc_owner (f c) = dc_owner c" "dc_player (f c) = dc_player c"
    "dc_protected c \<Longrightarrow> dc_protected (f c)"
  using assms marked_fields unfolding marking_def by metis+

lemma marking_comp: "marking f \<Longrightarrow> marking g \<Longrightarrow> marking (f \<circ> g)"
  unfolding marking_def marked_def comp_def
  by (metis (no_types, lifting) draft_candidate.surjective draft_candidate.update_convs(13))

lemma marking_if: "marking (\<lambda>c. if P c then c\<lparr>dc_protected := True\<rparr> else c)"
  by (simp add: marking_def marked_def)

lemma marking_id: "marking (\<lambda>c. c)"
  by (simp add: marking_def)

text \<open>The automatic lists keep whose player a candidate is.\<close>

lemma fill_slots_own:
  "\<forall>c \<in> set (fst (snd acc)). own_club teams c \<Longrightarrow>
   \<forall>c \<in> set (fst (snd (fill_slots env season team k source n acc))). own_club teams c"
proof (induction n arbitrary: acc)
  case (Suc n)
  obtain w cs st where acc: "acc = (w, cs, st)" by (metis prod_cases3)
  have upd: "\<forall>c \<in> set (cs[i := (cs ! i)\<lparr>dc_protected := True\<rparr>]). own_club teams c" for i
  proof
    fix c assume "c \<in> set (cs[i := (cs ! i)\<lparr>dc_protected := True\<rparr>])"
    then have "c \<in> set cs \<or> i < length cs \<and> c = marked (cs ! i)"
      using set_update_subset_insert [of cs i] by (cases "i < length cs") (auto simp: marked_def list_update_beyond not_less)
    then show "own_club teams c" using Suc.prems acc by auto
  qed
  show ?case
    using Suc.prems upd Suc.IH [of "(w + 1, cs[i := (cs ! i)\<lparr>dc_protected := True\<rparr>], st1)" for i st1]
    unfolding acc by (simp add: Let_def split_beta split: option.split)
qed simp

lemma auto_submit_own:
  assumes "\<forall>c \<in> set (fst cst). own_club teams c"
  shows "\<forall>c \<in> set (fst (snd (kbo_secondary_draft_auto_submit_team_protection_list env season team k source cst))). own_club teams c"
proof -
  obtain cs st where c: "cst = (cs, st)" by (metis surj_pair)
  have p: "\<forall>c \<in> set (map (protect_ids ids k) cs). own_club teams c" for ids
    using assms c by (auto simp: protect_ids_def own_club_def)
  have f: "\<forall>c \<in> set (fst (snd (fill_slots env season team k source n (0, map (protect_ids ids k) cs, s)))). own_club teams c" for n ids s
    by (rule fill_slots_own) (use p in simp)
  show ?thesis using assms f unfolding c kbo_secondary_draft_auto_submit_team_protection_list_def
    by (simp add: Let_def split_beta)
qed

lemma auto_lists_own:
  assumes "\<forall>c \<in> set (fst cst). own_club teams c"
  shows "\<forall>c \<in> set (fst (snd (kbo_secondary_draft_auto_submit_missing_protection_lists env season ts source cst))). own_club teams c"
proof -
  have loop: "\<forall>c \<in> set (fst (snd acc)). own_club teams c \<Longrightarrow>
      \<forall>c \<in> set (fst (snd (auto_submit_loop env season source k ts acc))). own_club teams c" for k acc
  proof (induction ts arbitrary: k acc)
    case (Cons t ts)
    obtain n cs st where acc: "acc = (n, cs, st)" by (metis prod_cases3)
    obtain ok w cs' st' where one: "kbo_secondary_draft_auto_submit_team_protection_list env season t k source (cs, st)
        = ((ok, w), cs', st')" by (metis surj_pair)
    have "\<forall>c \<in> set cs'. own_club teams c"
      using auto_submit_own [of "(cs, st)" teams env season t k source] Cons.prems by (simp add: acc one)
    then show ?case using Cons.IH [of "(n + of_bool ok, cs', st')" "k + 1"] by (simp add: acc one)
  qed simp
  obtain cs st where c: "cst = (cs, st)" by (metis surj_pair)
  show ?thesis using assms loop [of "(0, cs, snd (draft_done env season st))" 0]
    by (simp add: c kbo_secondary_draft_auto_submit_missing_protection_lists_def split_beta)
qed

text \<open>Loading a list of at most 35 rows finds all of them.\<close>

lemma load_all_ids:
  assumes "reliable env" and "season \<noteq> 0" and "t \<noteq> 0"
    and "length (saved_rows season t st) \<le> PROTECTED_LIST_LIMIT"
  shows "set (fst (kbo_secondary_draft_sql_load_protected_player_ids env season t PROTECTED_LIST_LIMIT st))
     = saved_players season t st - {0}"
  using assms
  by (simp add: kbo_secondary_draft_sql_load_protected_player_ids_def reliable_statement saved_rows_def saved_players_def
      draft_constants) auto

lemma contains_iff: "kbo_secondary_draft_id_list_contains ids p \<longleftrightarrow> p \<noteq> 0 \<and> p \<in> set ids"
  by (auto simp: kbo_secondary_draft_id_list_contains_def list_ex_iff)

lemma mark_loop_protected: "sd_protected (snd (snd (mark_loop env season ks acc))) = sd_protected (snd (snd acc))"
proof (induction ks arbitrary: acc)
  case (Cons k ks)
  obtain n cs st where acc: "acc = (n, cs, st)" by (metis prod_cases3)
  show ?case unfolding acc by (simp add: Cons.IH Let_def split_beta split: option.split)
qed simp

lemma mark_loop_marks:
  assumes "reliable env" and "season \<noteq> 0" and "\<forall>c \<in> set cs. own_club teams c"
  shows "\<exists>f. marking f \<and> fst (snd (mark_loop env season ks (n, cs, st))) = map f cs
     \<and> (\<forall>c \<in> set cs. dc_owner c \<in> set ks
          \<and> length (saved_rows season (dc_owner_team c) st) \<le> PROTECTED_LIST_LIMIT
          \<and> dc_player c \<in> saved_players season (dc_owner_team c) st \<longrightarrow> dc_protected (f c))"
  using assms(3)
proof (induction ks arbitrary: n cs st)
  case Nil
  then show ?case by (intro exI [of _ "\<lambda>c. c"]) (simp add: marking_id)
next
  case (Cons k ks)
  show ?case
  proof (cases "List.find (\<lambda>c. dc_owner c = k) cs")
    case None
    then have "\<forall>c \<in> set cs. dc_owner c \<noteq> k" by (auto simp: find_None_iff)
    then show ?thesis using Cons.IH [OF Cons.prems, of n st] None by auto
  next
    case (Some d)
    then have d: "d \<in> set cs" "dc_owner d = k" by (auto simp: find_Some_iff)
    let ?t = "dc_owner_team d"
    have t: "?t \<noteq> 0" "\<forall>c \<in> set cs. dc_owner c = k \<longrightarrow> dc_owner_team c = ?t"
      using Cons.prems d by (auto simp: own_club_def)
    obtain ids st1 where load: "kbo_secondary_draft_sql_load_protected_player_ids env season ?t PROTECTED_LIST_LIMIT st
        = (ids, st1)" by (metis surj_pair)
    have rows: "saved_rows season u st1 = saved_rows season u st" for u
      using saved_rows_cong [of st1 st] protected_reads(4) [of env season ?t PROTECTED_LIST_LIMIT st] load by simp
    define g :: "draft_candidate \<Rightarrow> draft_candidate" where "g = (\<lambda>c. if dc_owner c = k \<and> \<not> dc_protected c \<and> \<not> dc_selected c
        \<and> kbo_secondary_draft_id_list_contains ids (dc_player c) then c\<lparr>dc_protected := True\<rparr> else c)"
    have g: "marking g" unfolding g_def by (rule marking_if)
    have own: "\<forall>c \<in> set (map g cs). own_club teams c" using Cons.prems marking_keeps(1) [OF g] by simp
    obtain f where f: "marking f"
        "fst (snd (mark_loop env season ks (m, map g cs, st1))) = map f (map g cs)"
        "\<forall>c \<in> set (map g cs). dc_owner c \<in> set ks \<and> length (saved_rows season (dc_owner_team c) st1) \<le> PROTECTED_LIST_LIMIT
          \<and> dc_player c \<in> saved_players season (dc_owner_team c) st1 \<longrightarrow> dc_protected (f c)"
      if "m = n + length (filter (\<lambda>c. dc_owner c = k \<and> \<not> dc_protected c \<and> \<not> dc_selected c
        \<and> kbo_secondary_draft_id_list_contains ids (dc_player c)) cs)" for m
      using Cons.IH [OF own] by blast
    have loop: "fst (snd (mark_loop env season (k # ks) (n, cs, st))) = map (f \<circ> g) cs"
      using f(2) [OF refl] Some t(1) load by (simp add: Let_def g_def)
    have "dc_protected ((f \<circ> g) c)"
      if c: "c \<in> set cs" "dc_owner c \<in> set (k # ks)" "length (saved_rows season (dc_owner_team c) st) \<le> PROTECTED_LIST_LIMIT"
        "dc_player c \<in> saved_players season (dc_owner_team c) st" for c
    proof (cases "dc_owner c = k")
      case True
      then have "dc_owner_team c = ?t" using t(2) c(1) by simp
      moreover from this have "set ids = saved_players season ?t st - {0}"
        using load_all_ids [OF assms(1,2) t(1), of st] c(3) load by simp
      ultimately have "dc_protected (g c)"
        using True c Cons.prems by (auto simp: g_def contains_iff own_club_def)
      then show ?thesis using marking_keeps(4) [OF f(1) [OF refl]] by simp
    next
      case False
      then have "g c = c" by (simp add: g_def)
      then show ?thesis using f(3) [OF refl] c False by (force simp: rows saved_players_def)
    qed
    then show ?thesis using loop marking_comp [OF f(1) [OF refl] g] by blast
  qed
qed

section \<open>The flags at the start\<close>

lemma start_marks:
  assumes "reliable env" and "dx_season x \<noteq> 0"
    and "c \<in> set (pg_cands (snd (start_draft env x teams st)))" and "dc_owner c < length teams"
    and "dc_player c \<in> saved_players (dx_season x) (dt_id (teams ! dc_owner c)) (pg_state (snd (start_draft env x teams st)))"
    and "length (saved_rows (dx_season x) (dt_id (teams ! dc_owner c)) st) \<le> PROTECTED_LIST_LIMIT"
  shows "dc_protected c"
proof -
  let ?t = "dt_id (teams ! dc_owner c)"
  define cs where "cs = kbo_secondary_draft_collect_candidates env (sd_service st) (dx_season x) teams"
  obtain n cs1 st1 where auto: "kbo_secondary_draft_auto_submit_missing_protection_lists env (dx_season x) teams
      ''secondary_draft_event_auto_protect'' (cs, st) = (n, cs1, st1)" by (metis prod_cases3)
  obtain m cs2 st2 where mark: "kbo_secondary_draft_mark_protected_players env (dx_season x) (length teams) (cs1, st1)
      = (m, cs2, st2)" by (metis prod_cases3)
  have start: "pg_cands (snd (start_draft env x teams st)) = cs2" "pg_state (snd (start_draft env x teams st)) = st2"
    using auto mark by (simp_all add: start_draft_def cs_def)
  have own: "\<forall>c \<in> set cs1. own_club teams c"
    using auto_lists_own [of "(cs, st)" teams env "dx_season x" teams "''secondary_draft_event_auto_protect''"]
      collect_own [of env "sd_service st" "dx_season x" teams] by (simp add: auto flip: cs_def)
  have few: "length (saved_rows (dx_season x) ?t st1) \<le> PROTECTED_LIST_LIMIT"
    using auto_lists_rows [OF assms(1), of "(cs, st)" "dx_season x" teams "''secondary_draft_event_auto_protect''"
        "dx_season x" ?t] assms(6) by (simp add: auto)
  have ne: "cs1 \<noteq> []" "teams \<noteq> []"
    using assms(3,4) mark unfolding start by (auto simp: kbo_secondary_draft_mark_protected_players_def)
  then have loop: "mark_loop env (dx_season x) [0..<length teams] (0, cs1, st1) = (m, cs2, st2)"
    using mark by (simp add: kbo_secondary_draft_mark_protected_players_def)
  have st2: "saved_rows s u st2 = saved_rows s u st1" for s u
    using mark_loop_protected [of env "dx_season x" "[0..<length teams]" "(0, cs1, st1)"] loop by (intro saved_rows_cong) simp
  obtain f where f: "marking f" "cs2 = map f cs1"
      "\<forall>c \<in> set cs1. dc_owner c \<in> set [0..<length teams]
          \<and> length (saved_rows (dx_season x) (dc_owner_team c) st1) \<le> PROTECTED_LIST_LIMIT
          \<and> dc_player c \<in> saved_players (dx_season x) (dc_owner_team c) st1 \<longrightarrow> dc_protected (f c)"
    using mark_loop_marks [OF assms(1,2) own, of "[0..<length teams]" 0 st1] loop by auto
  obtain d where d: "d \<in> set cs1" "c = f d" using assms(3) f(2) unfolding start by auto
  have "dc_owner_team d = ?t" "dc_owner d = dc_owner c" "dc_player d = dc_player c"
    using own d marking_keeps(2,3) [OF f(1)] by (auto simp: own_club_def)
  then show ?thesis
    using f(3) d assms(4,5) few unfolding start by (simp add: saved_players_def st2)
qed

lemma start_saves:
  assumes "reliable env"
  shows "saved_players season t st \<subseteq> saved_players season t (pg_state (snd (start_draft env x teams st)))"
proof -
  define cs where "cs = kbo_secondary_draft_collect_candidates env (sd_service st) (dx_season x) teams"
  obtain n cs1 st1 where auto: "kbo_secondary_draft_auto_submit_missing_protection_lists env (dx_season x) teams
      ''secondary_draft_event_auto_protect'' (cs, st) = (n, cs1, st1)" by (metis prod_cases3)
  have "set (sd_protected st) \<subseteq> set (sd_protected st1)"
    using auto_lists_rows [OF assms, of "(cs, st)" "dx_season x" teams "''secondary_draft_event_auto_protect''"]
    by (simp add: auto)
  moreover have "sd_protected (pg_state (snd (start_draft env x teams st))) = sd_protected st1"
    using auto mark_loop_protected [of env "dx_season x" "[0..<length teams]" "(0, cs1, st1)"]
    by (simp add: start_draft_def kbo_secondary_draft_mark_protected_players_def split_beta flip: cs_def)
  ultimately show ?thesis by (auto simp: saved_players_def saved_rows_def)
qed

text \<open>A list that cannot be read protects nobody: with no working statement no candidate is marked.\<close>

lemma unread_lists_mark_nobody:
  assumes "\<forall>n. \<not> de_ok env n"
  shows "fst (snd (kbo_secondary_draft_mark_protected_players env season n (cs, st))) = cs"
proof -
  have "fst (snd (mark_loop env season ks (m, cs, st))) = cs" for ks m st
  proof (induction ks arbitrary: m st)
    case (Cons k ks)
    have "fst (kbo_secondary_draft_sql_load_protected_player_ids env season t PROTECTED_LIST_LIMIT st) = []" for t
      using assms by (simp add: kbo_secondary_draft_sql_load_protected_player_ids_def draft_statement_def)
    then show ?case by (simp add: Let_def split_beta contains_iff Cons.IH cong: map_cong split: option.split)
  qed simp
  then show ?thesis by (simp add: kbo_secondary_draft_mark_protected_players_def)
qed

end
