(* ===== verification/DraftProps.thy ===== *)
theory DraftProps
  imports DraftProtection
begin

text \<open>
  Properties of the secondary draft: the limits of a draft, the order of its turns, the best
  candidate is chosen, the money of the clubs, and the second event of a season.
\<close>

section \<open>The limits\<close>

text \<open>
  C34: Safety of the secondary draft.  Whatever happens to the single moves and statements, a
  draft takes no player twice and none from the club that chooses, no club loses more than four
  players, and the picks are numbered 1, 2, 3 and so on without a gap.  When the statements
  succeed, it takes no player who is on the saved list of his club, neither on the one saved
  before the event nor on the one the automatic protection completed, provided the club had
  saved no more than the 35 players of a list.  (With failing statements a list may not be
  loaded, and then it protects nobody: \<open>unread_lists_mark_nobody\<close>.)
\<close>

theorem draft_respects_limits:
  assumes vector: "readable_vector (draft_world st) = Some (base, ids)" "distinct ids"
    and clubs: "distinct (map dt_id teams)" "\<forall>t \<in> set teams. dt_loss_count t = 0"
  shows "let start = snd (start_draft env x teams st); picks = pg_picks (draft_rounds env x start) in
      (reliable env \<and> dx_season x \<noteq> 0 \<longrightarrow>
         (\<forall>p \<in> set picks. length (saved_rows (dx_season x) (dp_from p) st) \<le> PROTECTED_LIST_LIMIT \<longrightarrow>
            dp_player p \<notin> saved_players (dx_season x) (dp_from p) st
            \<and> dp_player p \<notin> saved_players (dx_season x) (dp_from p) (pg_state start)))
      \<and> (\<forall>p \<in> set picks. \<exists>c \<in> set (pg_cands start). \<not> dc_protected c \<and> dp_player p = dc_player c
          \<and> dp_from p = dt_id (teams ! dc_owner c) \<and> dp_to p \<noteq> dp_from p)
      \<and> distinct (map dp_player picks)
      \<and> (\<forall>t \<in> set teams. length (filter (\<lambda>p. dp_from p = dt_id t) picks) \<le> 4)
      \<and> map dp_no picks = map of_nat [1..<Suc (length picks)]"
proof -
  define start where "start = snd (start_draft env x teams st)"
  define pg where "pg = draft_rounds env x start"
  have start: "draft_inv start" "pg_teams start = teams"
    using start_inv [OF vector clubs] by (simp_all add: start_def start_fields)
  note keep = draft_rounds_keep [OF start(1), of env x, folded pg_def, unfolded start(2)]
  have fair: "\<exists>c \<in> set (pg_cands start). \<not> dc_protected c \<and> dp_player p = dc_player c
      \<and> dp_from p = dt_id (teams ! dc_owner c) \<and> dp_to p \<noteq> dp_from p" if "p \<in> set (pg_picks pg)" for p
  proof -
    have "fair_pick (pg_teams pg) (pg_cands pg) p" using keep(1) that by (simp add: draft_inv_def)
    then obtain c where c: "c \<in> set (pg_cands pg)" "\<not> dc_protected c" "dp_player p = dc_player c"
        "dp_from p = dt_id (pg_teams pg ! dc_owner c)" "dp_to p \<noteq> dp_from p" by (auto simp: fair_pick_def)
    have "known c \<in> set (map known (pg_cands start))"
      using c(1) draft_rounds_known [of env x start] by (metis image_eqI pg_def set_map)
    then obtain c' where c': "c' \<in> set (pg_cands start)" "known c' = known c" by auto
    have "dc_owner c < length (pg_teams pg)" using keep(1) c(1) by (simp add: draft_inv_def draft_ready_def)
    then have "dt_id (pg_teams pg ! dc_owner c) = dt_id (teams ! dc_owner c)"
      using keep(2) by (metis length_map nth_map)
    then show ?thesis using c c' by (auto simp: known_def intro!: bexI [of _ c'])
  qed
  have list: "dp_player p \<notin> saved_players (dx_season x) (dp_from p) st
      \<and> dp_player p \<notin> saved_players (dx_season x) (dp_from p) (pg_state start)"
    if ok: "reliable env" "dx_season x \<noteq> 0" and p: "p \<in> set (pg_picks pg)"
      and few: "length (saved_rows (dx_season x) (dp_from p) st) \<le> PROTECTED_LIST_LIMIT" for p
  proof -
    obtain c where c: "c \<in> set (pg_cands start)" "\<not> dc_protected c" "dp_player p = dc_player c"
        "dp_from p = dt_id (teams ! dc_owner c)" using fair [OF p] by blast
    have "dc_owner c < length teams" using start c(1) by (simp add: draft_inv_def draft_ready_def)
    then have "dp_player p \<notin> saved_players (dx_season x) (dp_from p) (pg_state start)"
      using start_marks [OF ok, of c teams st] c few by (auto simp: start_def)
    then show ?thesis using start_saves [OF ok(1), where st = st and x = x and teams = teams] by (auto simp: start_def)
  qed
  moreover have "length (filter (\<lambda>p. dp_from p = dt_id t) (pg_picks pg)) \<le> 4" if "t \<in> set teams" for t
  proof -
    have "dt_id t \<in> set (map dt_id (pg_teams pg))" using that keep(2) by simp
    then obtain u where "u \<in> set (pg_teams pg)" "dt_id u = dt_id t" by auto
    then show ?thesis using keep(1) by (force simp: draft_inv_def losses_def SOURCE_LOSS_LIMIT_def)
  qed
  ultimately show ?thesis
    using keep(1) fair unfolding Let_def start_def [symmetric] pg_def [symmetric] by (simp add: draft_inv_def)
qed

section \<open>The order of the turns\<close>

text \<open>
  C35: Refinement of the order of choice.  Seen as pairs of a round and a club, the picks of a
  draft are a subsequence of the announced order: three rounds of all clubs, then two of the first
  three, each in the order of the clubs.  So a club that gets nobody is passed over, no club
  chooses twice in a round, and there are at most as many picks as the rules expect.
\<close>

theorem draft_follows_turn_order:
  assumes vector: "readable_vector (draft_world st) = Some (base, ids)" "distinct ids"
    and clubs: "distinct (map dt_id teams)" "\<forall>t \<in> set teams. dt_loss_count t = 0"
  shows "let picks = pg_picks (draft_rounds env x (snd (start_draft env x teams st))) in
      subseq (map (\<lambda>p. (dp_round p, dp_to p)) picks) (turn_order teams)
      \<and> length picks \<le> kbo_secondary_draft_expected_pick_count (length teams)"
proof -
  have "subseq (chosen (draft_rounds env x (snd (start_draft env x teams st)))) (turn_order teams)"
    using draft_rounds_keep(3) [OF start_inv [OF vector clubs], of env x] by (simp add: start_fields chosen_def)
  then show ?thesis
    using list_emb_length by (fastforce simp: Let_def chosen_def simp flip: length_turn_order)
qed

section \<open>The money\<close>

text \<open>
  C36: Invariant of the money.  The fees of a secondary draft move money between the clubs that
  take part: together they have as much after the draft as before, whether or not a fee could be
  paid.
\<close>

theorem draft_keeps_money:
  assumes vector: "readable_vector (draft_world st) = Some (base, ids)" "distinct ids"
    and clubs: "distinct (map dt_id teams)"
  shows "total_cash (draft_world (snd (run_draft env x teams st))) teams = total_cash (draft_world st) teams"
proof -
  define start where "start = snd (start_draft env x teams st)"
  have teams: "pg_teams start = teams" by (simp add: start_def start_fields)
  have ready: "draft_ready (pg_teams start) (pg_cands start)"
    using start_ready [OF vector clubs] by (simp add: start_def start_fields)
  have world: "draft_world (pg_state start) = draft_world st" unfolding start_def by (rule draft_world_outer) simp
  have "total_cash (draft_world (pg_state (draft_rounds env x start))) teams = total_cash (draft_world st) teams"
    using rounds_total [OF ready] unfolding teams world draft_rounds_def .
  moreover have "draft_world (snd (run_draft env x teams st)) = draft_world (pg_state (draft_rounds env x start))"
    by (rule draft_world_outer) (simp add: run_draft_def Let_def split_beta start_def)
  ultimately show ?thesis by simp
qed

section \<open>The second event\<close>

text \<open>The state without the number of the next statement.\<close>

definition tables :: "sd_state \<Rightarrow> sd_state" where
  "tables st = st\<lparr>sd_clock := 0\<rparr>"

definition run_stored :: "u32 \<Rightarrow> sd_state \<Rightarrow> bool" where
  "run_stored season st \<longleftrightarrow> season \<noteq> 0 \<and> (\<exists>r \<in> set (sd_runs st). dr_run_season r = season)"

definition results_stored :: "u32 \<Rightarrow> sd_state \<Rightarrow> bool" where
  "results_stored season st \<longleftrightarrow> season \<noteq> 0 \<and> (\<exists>r \<in> set (sd_results st). fst r = season)"

lemma tables_clock [simp]: "tables (st\<lparr>sd_clock := n\<rparr>) = tables st"
  by (simp add: tables_def)

lemma tables_fields:
  assumes "tables st = tables st'"
  shows "sd_windows st = sd_windows st'" "run_stored season st = run_stored season st'"
    "results_stored season st = results_stored season st'"
proof -
  have "sd_windows (tables st) = sd_windows (tables st')" "sd_runs (tables st) = sd_runs (tables st')"
    "sd_results (tables st) = sd_results (tables st')" using assms by simp_all
  then show "sd_windows st = sd_windows st'" "run_stored season st = run_stored season st'"
    "results_stored season st = results_stored season st'"
    by (simp_all add: tables_def run_stored_def results_stored_def)
qed

lemma reliable_run_exists:
  assumes "reliable env"
  shows "fst (kbo_secondary_draft_sql_run_exists env season st) = run_stored season st"
    "tables (snd (kbo_secondary_draft_sql_run_exists env season st)) = tables st"
  using assms
  by (auto simp: kbo_secondary_draft_sql_run_exists_def counted_def reliable_statement run_stored_def filter_empty_conv)

lemma reliable_result_count:
  assumes "reliable env"
  shows "fst (kbo_secondary_draft_sql_result_count env season st) > 0 \<longleftrightarrow> results_stored season st"
    "tables (snd (kbo_secondary_draft_sql_result_count env season st)) = tables st"
  using assms
  by (auto simp: kbo_secondary_draft_sql_result_count_def counted_def reliable_statement results_stored_def filter_empty_conv)

lemma reliable_mark_run:
  assumes "reliable env" "dr_run_season run \<noteq> 0"
  shows "fst (kbo_secondary_draft_sql_mark_run env run st) \<longleftrightarrow> sql_text 256 (dr_run_source run) \<noteq> None"
    "sql_text 256 (dr_run_source run) \<noteq> None \<Longrightarrow>
       run_stored (dr_run_season run) (snd (kbo_secondary_draft_sql_mark_run env run st))"
    "sql_text 256 (dr_run_source run) = None \<Longrightarrow> snd (kbo_secondary_draft_sql_mark_run env run st) = st"
  using assms
  by (auto simp: kbo_secondary_draft_sql_mark_run_def reliable_statement run_stored_def split: option.split)

lemma reliable_resolve:
  assumes "reliable env"
  shows "tables (snd (kbo_secondary_draft_resolve_event_season env date st)) = tables st"
    and "sd_windows st = sd_windows st' \<Longrightarrow>
      fst (kbo_secondary_draft_resolve_event_season env date st) = fst (kbo_secondary_draft_resolve_event_season env date st')"
  using assms
  by (simp_all add: kbo_secondary_draft_resolve_event_season_def kbo_secondary_draft_load_window_for_draft_date_def
      reliable_statement split_beta Let_def)

definition event_league :: "sd_env \<Rightarrow> u32 \<Rightarrow> u32" where
  "event_league env window_league = (if window_league \<noteq> 0 then window_league
     else if de_main_league env \<noteq> 0 then de_main_league env else me_league (de_service env))"

lemma turn_windows: "sd_windows (pg_state (turn env x round k n pg)) = sd_windows (pg_state pg)"
proof (induction n arbitrary: pg)
  case (Suc n)
  have w: "outer st = outer st' \<Longrightarrow> sd_windows st = sd_windows st'" for st st' by (simp add: outer_def)
  have pick: "sd_windows (snd (kbo_secondary_draft_apply_pick env c a b league date r no st)) = sd_windows st"
    for c a b league date r no st
    by (simp add: kbo_secondary_draft_apply_pick_def move_pick_def kbo_secondary_draft_apply_military_rights_transfer_def
        Let_def split_beta set_world_def w [OF outer_writes(5)] split: option.split)
  have st: "sd_windows (pg_state (store_pick env x p pg)) = sd_windows (pg_state pg)" for p pg
    by (simp add: store_pick_def w [OF outer_writes(2)])
  show ?case by (simp add: Let_def split_beta Suc.IH pick st split: option.split)
qed simp

lemma rounds_windows: "sd_windows (pg_state (draft_rounds env x pg)) = sd_windows (pg_state pg)"
proof -
  have turns: "sd_windows (pg_state (fold (\<lambda>k pg. turn env x round k (length (pg_cands pg)) pg) ks pg)) = sd_windows (pg_state pg)"
    for round ks pg by (induction ks arbitrary: pg) (simp_all add: turn_windows)
  have "sd_windows (pg_state (fold (draft_round env x) rs pg)) = sd_windows (pg_state pg)" for rs
    by (induction rs arbitrary: pg) (simp_all add: draft_round_def turns)
  then show ?thesis by (simp add: draft_rounds_def del: upt_Suc)
qed

lemma run_draft_saved:
  assumes "reliable env" "dx_season x \<noteq> 0" "run_draft env x teams st = (True, st')"
  shows "run_stored (dx_season x) st'" "sd_windows st' = sd_windows st"
proof -
  obtain n pg0 where start: "start_draft env x teams st = (n, pg0)" by (metis surj_pair)
  define pg where "pg = draft_rounds env x pg0"
  define run where "run = summary_of x (int (length (pg_picks pg))) (int (length (pg_cands pg))) (int n) (pg_cash pg)"
  obtain saved st1 where mark: "kbo_secondary_draft_sql_mark_run env run (pg_state pg) = (saved, st1)" by (metis surj_pair)
  have saved: "saved" and st': "sd_runs st' = sd_runs st1" "sd_windows st' = sd_windows st1"
    using assms(3) by (auto simp: run_draft_def start Let_def mark [unfolded run_def] simp flip: pg_def)
  have season: "dr_run_season run = dx_season x" by (simp add: run_def summary_of_def)
  have "run_stored (dx_season x) st1"
    using reliable_mark_run(1,2) [OF assms(1), of run "pg_state pg"] assms(2) mark saved season by simp
  then show "run_stored (dx_season x) st'" using st' by (simp add: run_stored_def)
  have "outer st1 = outer (pg_state pg)" using outer_writes(1) [of env run "pg_state pg"] mark by simp
  moreover have "sd_windows (pg_state pg) = sd_windows (pg_state pg0)" unfolding pg_def by (rule rounds_windows)
  moreover have "outer (pg_state pg0) = outer st" using outer_start [of env x teams st] start by simp
  ultimately show "sd_windows st' = sd_windows st" using st' by (simp add: outer_def)
qed

lemma handled_again:
  assumes ok: "reliable env" and r: "fst (kbo_secondary_draft_resolve_event_season env date st) = (season, wl)"
    and c: "season = 0 \<or> event_league env wl \<noteq> 0 \<and> (run_stored season st \<or> results_stored season st \<and> sql_text 256 source = None)"
  shows "\<exists>st2. kbo_handle_secondary_draft_event env date source st = (True, st2) \<and> tables st2 = tables st"
proof -
  obtain st1 where 1: "kbo_secondary_draft_resolve_event_season env date st = ((season, wl), st1)"
    using r by (metis prod.collapse)
  have t1: "tables st1 = tables st" using reliable_resolve(1) [OF ok, of date st] 1 by simp
  obtain b st2 where 2: "kbo_secondary_draft_sql_run_exists env season st1 = (b, st2)" by (metis surj_pair)
  have b: "b = run_stored season st" "tables st2 = tables st"
    using reliable_run_exists [OF ok, of season st1] 2 t1 tables_fields(2) [OF t1] by simp_all
  obtain n st3 where 3: "kbo_secondary_draft_sql_result_count env season st2 = (n, st3)" by (metis surj_pair)
  have n: "n > 0 \<longleftrightarrow> results_stored season st" "tables st3 = tables st"
    using reliable_result_count [OF ok, of season st2] 3 b(2) tables_fields(3) [OF b(2)] by simp_all
  show ?thesis
  proof (cases "season = 0 \<or> b")
    case True
    then show ?thesis using c t1 b
      by (auto simp: kbo_handle_secondary_draft_event_def 1 2 Let_def event_league_def)
  next
    case False
    then have rs: "n > 0" "sql_text 256 source = None" "event_league env wl \<noteq> 0" "season \<noteq> 0" using c b n by auto
    then show ?thesis using False n(2)
      by (simp add: kbo_handle_secondary_draft_event_def 1 2 3 Let_def event_league_def summary_of_def
          reliable_mark_run(3) [OF ok])
  qed
qed

text \<open>
  C37: Safety of the event.  When the event of a secondary draft reported success and the
  database of the save answers, a second event of the same day with the same source text
  reports success and changes nothing: the draft is not held twice, no player moves and no fee is paid a second time.
\<close>

theorem second_event_changes_nothing:
  assumes ok: "reliable env" and first: "kbo_handle_secondary_draft_event env date source st = (True, st')"
  shows "\<exists>st2. kbo_handle_secondary_draft_event env date source st' = (True, st2) \<and> tables st2 = tables st'"
proof -
  obtain season wl st1 where 1: "kbo_secondary_draft_resolve_event_season env date st = ((season, wl), st1)"
    by (metis surj_pair)
  have t1: "tables st1 = tables st" using reliable_resolve(1) [OF ok, of date st] 1 by simp
  have again: ?thesis if w: "sd_windows st' = sd_windows st"
      and c: "season = 0 \<or> event_league env wl \<noteq> 0 \<and> (run_stored season st' \<or> results_stored season st' \<and> sql_text 256 source = None)"
    using handled_again [OF ok _ c, of date] reliable_resolve(2) [OF ok w, of date] 1 by simp
  obtain b st2 where 2: "kbo_secondary_draft_sql_run_exists env season st1 = (b, st2)" by (metis surj_pair)
  have b: "b = run_stored season st" "tables st2 = tables st"
    using reliable_run_exists [OF ok, of season st1] 2 t1 tables_fields(2) [OF t1] by simp_all
  obtain n st3 where 3: "kbo_secondary_draft_sql_result_count env season st2 = (n, st3)" by (metis surj_pair)
  have n: "n > 0 \<longleftrightarrow> results_stored season st" "tables st3 = tables st"
    using reliable_result_count [OF ok, of season st2] 3 b(2) tables_fields(3) [OF b(2)] by simp_all
  note handle = first [unfolded kbo_handle_secondary_draft_event_def 1 Let_def prod.case 2 3, folded event_league_def]
  show ?thesis
  proof (cases "season = 0")
    case True
    then show ?thesis using handle again tables_fields(1) [OF t1] by simp
  next
    case False
    then have league: "event_league env wl \<noteq> 0" using handle by (auto split: if_splits)
    show ?thesis
    proof (cases b)
      case True
      then have "st' = st2" using handle False league by simp
      then show ?thesis using again league b True tables_fields(1,2) [OF b(2)] by simp
    next
      case nb: False
      show ?thesis
      proof (cases "n > 0")
        case True
        let ?run = "summary_of \<lparr>dx_season = season, dx_date = date, dx_league = event_league env wl, dx_source = source\<rparr> (int n) 0 0 0"
        have st': "st' = snd (kbo_secondary_draft_sql_mark_run env ?run st3)" using handle False league nb True by simp
        have run: "dr_run_season ?run = season" "dr_run_source ?run = source" by (simp_all add: summary_of_def)
        have "sd_windows st' = sd_windows st"
          using outer_writes(1) [of env ?run st3] tables_fields(1) [OF n(2)] unfolding st' by (simp add: outer_def)
        moreover have "run_stored season st' \<or> results_stored season st' \<and> sql_text 256 source = None"
          using reliable_mark_run(2,3) [OF ok, of ?run st3] run False n True tables_fields(3) [OF n(2)] unfolding st' by fastforce
        ultimately show ?thesis using again league by blast
      next
        case nn: False
        let ?x = "\<lparr>dx_season = season, dx_date = date, dx_league = event_league env wl, dx_source = source\<rparr>"
        obtain teams where "run_draft env ?x teams st3 = (True, st')"
          using handle False league nb nn by (auto split: if_splits option.splits)
        from run_draft_saved [OF ok _ this] have "run_stored season st'" "sd_windows st' = sd_windows st3" using False by simp_all
        then show ?thesis using again league tables_fields(1) [OF n(2)] by simp
      qed
    qed
  qed
qed

section \<open>A chosen serviceman\<close>

text \<open>What the repair of the original club does to a player whose fields name another club.\<close>

lemma repaired_settled:
  assumes "pl_active_team b = home" and "pl_original_team b = home" and "home \<noteq> 0" and "home \<noteq> service"
  shows "\<exists>l. repaired_base t league service 0 0 b = b\<lparr>pl_original_league := l\<rparr>
     \<and> (pl_original_league b \<noteq> 0 \<longrightarrow> l = pl_original_league b)"
  using assms
  by (intro exI [of _ "if league \<noteq> 0 \<and> pl_original_league b = 0 then league else pl_original_league b"], cases b)
    (simp add: repaired_base_def kbo_military_service_team_id_matches_def)

lemma repair_fields:
  fixes q t l s :: u32 and a b :: u32 and st :: ms_state
  defines "st' \<equiv> kbo_military_repair_original_team_memory q t l s a b st"
  shows "fw_teams (ms_world st') = fw_teams (ms_world st)" and "ms_duties st' = ms_duties st"
    and "fw_players (ms_world st') = fw_players (ms_world st)
      \<or> fw_players (ms_world st') = (fw_players (ms_world st))(q :=
           map_option (\<lambda>p. p\<lparr>fq_base := repaired_base t l s a b (fq_base p)\<rparr>) (fw_players (ms_world st) q))"
    and "ms_loans st' = ms_loans st
      \<or> (\<exists>i loan. active_loan q st = Some (i, loan) \<and> ms_loans st' = (ms_loans st)[i := repaired_loan t l s a b loan])"
  by (auto simp: st'_def kbo_military_repair_original_team_memory_def Let_def update_base_def update_player_def
      put_loan_def split: option.split)

text \<open>
  C40: A player in military service whose fields still name his own club is never drafted.  The
  rights to him are moved with the repair of his original club, which writes only fields that are
  empty or name the club of the service, so the test that follows fails and the choice is
  dropped: no pick, no fee, no row of the draft's tables, and no other object changes.  His own
  club fields stay; what the repair may have written is an empty original league of his, and the
  record of his loan, whose original club becomes the club that was refused if the record named
  none (\<open>dropped_choice_rewrites_loan\<close>).
\<close>

theorem settled_serviceman_is_never_drafted:
  assumes player: "fw_players (draft_world st) (dc_player c) = Some p" and military: "dc_military c"
    and home: "pl_active_team (fq_base p) = home" "pl_original_team (fq_base p) = home" "home \<noteq> 0"
      "home \<noteq> dt_id to" "home \<noteq> dc_service_team c" and service: "dc_service_team c \<noteq> 0"
  shows "\<exists>st' l. kbo_secondary_draft_apply_pick env c from to league date round no st = (None, st')
      \<and> st'\<lparr>sd_service := sd_service st\<rparr> = st
      \<and> fw_finances (draft_world st') = fw_finances (draft_world st)
      \<and> fw_teams (draft_world st') = fw_teams (draft_world st)
      \<and> ms_duties (sd_service st') = ms_duties (sd_service st)
      \<and> fw_players (draft_world st') = (fw_players (draft_world st))
           (dc_player c \<mapsto> p\<lparr>fq_base := (fq_base p)\<lparr>pl_original_league := l\<rparr>\<rparr>)
      \<and> (pl_original_league (fq_base p) \<noteq> 0 \<longrightarrow> l = pl_original_league (fq_base p))
      \<and> (ms_loans (sd_service st') = ms_loans (sd_service st)
         \<or> (\<exists>i loan. active_loan (dc_player c) (sd_service st) = Some (i, loan)
              \<and> ms_loans (sd_service st') = (ms_loans (sd_service st))
                   [i := repaired_loan (dt_id to) league (dc_service_team c) 0 0 loan]))"
proof -
  let ?ms = "kbo_military_repair_original_team_memory (dc_player c) (dt_id to) league (dc_service_team c) 0 0 (sd_service st)"
  note f = repair_fields [of "dc_player c" "dt_id to" league "dc_service_team c" 0 0 "sd_service st"]
  have p: "fw_players (ms_world (sd_service st)) (dc_player c) = Some p" using player by (simp add: draft_world_def)
  obtain l where l: "repaired_base (dt_id to) league (dc_service_team c) 0 0 (fq_base p)
      = (fq_base p)\<lparr>pl_original_league := l\<rparr>" "pl_original_league (fq_base p) \<noteq> 0 \<longrightarrow> l = pl_original_league (fq_base p)"
    using repaired_settled [OF home(1-3,5), of "dt_id to" league] by blast
  have same: "p\<lparr>fq_base := (fq_base p)\<lparr>pl_original_league := pl_original_league (fq_base p)\<rparr>\<rparr> = p" by simp
  obtain k where k: "fw_players (ms_world ?ms) = (fw_players (ms_world (sd_service st)))
       (dc_player c \<mapsto> p\<lparr>fq_base := (fq_base p)\<lparr>pl_original_league := k\<rparr>\<rparr>)"
      "pl_original_league (fq_base p) \<noteq> 0 \<longrightarrow> k = pl_original_league (fq_base p)"
  proof (cases "fw_players (ms_world ?ms) = fw_players (ms_world (sd_service st))")
    case True
    show ?thesis
      by (rule that [of "pl_original_league (fq_base p)"]) (use True p in \<open>auto simp: fun_eq_iff\<close>)
  next
    case False
    then show ?thesis using f(3) p l that [of l] by simp
  qed
  let ?st' = "st\<lparr>sd_service := ?ms\<rparr>"
  have "fst (move_pick c to league st) = (False, False) \<and> snd (move_pick c to league st) \<in> {st, ?st'}"
    using military player home service k(1)
    by (auto simp: move_pick_def kbo_secondary_draft_apply_military_rights_transfer_def Let_def draft_world_def)
  then have "\<exists>st'. kbo_secondary_draft_apply_pick env c from to league date round no st = (None, st') \<and> st' \<in> {st, ?st'}"
    by (auto simp: kbo_secondary_draft_apply_pick_def split_beta)
  then obtain st' where st': "kbo_secondary_draft_apply_pick env c from to league date round no st = (None, st')"
    "st' \<in> {st, ?st'}" by blast
  show ?thesis
  proof (cases "st' = st")
    case True
    then show ?thesis using st'(1) player
      by (intro exI [of _ st] exI [of _ "pl_original_league (fq_base p)"]) (auto simp: fun_eq_iff)
  next
    case False
    then have "st' = ?st'" using st'(2) by simp
    then show ?thesis using st'(1) f(1,2,4) k
      by (intro exI [of _ ?st'] exI [of _ k]) (simp add: draft_world_def)
  qed
qed

text \<open>The dropped choice leaves its mark on a loan that names no original club.\<close>

lemma dropped_choice_rewrites_loan:
  assumes "live_player (draft_world st) (dc_player c) \<noteq> None" and "fw_teams (draft_world st) (dt_id to) \<noteq> None"
    and "dc_military c" and "dt_id to \<noteq> 0" and "dc_service_team c \<noteq> 0" and "dt_id to \<noteq> dc_service_team c"
    and "active_loan (dc_player c) (sd_service st) = Some (i, loan)" and "i < length (ms_loans (sd_service st))"
    and "ml_original_team loan = 0"
    and "kbo_secondary_draft_apply_pick env c from to league date round no st = (None, st')"
  shows "ml_original_team (ms_loans (sd_service st') ! i) = dt_id to"
proof -
  let ?ms = "kbo_military_repair_original_team_memory (dc_player c) (dt_id to) league (dc_service_team c) 0 0 (sd_service st)"
  obtain p where "fw_players (draft_world st) (dc_player c) = Some p"
    using assms(1) by (auto simp: live_player_def split: option.splits if_splits)
  then have "snd (move_pick c to league st) = st\<lparr>sd_service := ?ms\<rparr>"
    using assms(3-5)
    by (simp add: move_pick_def kbo_secondary_draft_apply_military_rights_transfer_def Let_def split_beta)
  then have "st' = st\<lparr>sd_service := ?ms\<rparr>"
    using assms(1,2,10) by (auto simp: kbo_secondary_draft_apply_pick_def split_beta Let_def split: if_splits)
  moreover have "ms_loans ?ms = (ms_loans (sd_service st))[i := repaired_loan (dt_id to) league (dc_service_team c) 0 0 loan]"
    using assms(1,4-7)
    by (auto simp: kbo_military_repair_original_team_memory_def draft_world_def update_base_def update_player_def
        put_loan_def kbo_military_service_team_id_matches_def)
  ultimately show ?thesis using assms(8,9) by (simp add: repaired_loan_def Let_def)
qed

end
