(* ===== verification/DraftDemo.thy ===== *)
theory DraftDemo
  imports DraftProps
begin

text \<open>
  Two clubs before a secondary draft, and the properties of the draft at this example.
\<close>

definition demo_draft_player :: "u32 \<Rightarrow> int \<Rightarrow> fa_player" where
  "demo_draft_player t v =
     \<lparr>fq_base = \<lparr>pl_nation = 177, pl_current_team = t, pl_active_team = t, pl_loan_team = 0, pl_original_team = t,
        pl_default_team = t, pl_current_league = 5, pl_original_league = 5, pl_draft_league = 5, pl_restricted = 0,
        pl_secondary_restricted = 0, pl_dfa = 0, pl_contract_level = 0, pl_overall_value = v, pl_talent_value = v,
        pl_ratings_value = v, pl_career_value = v\<rparr>,
      fq_age = 29, fq_role = 1, fq_retired = 0, fq_military = 0, fq_salary = 0, fq_draft_class = 0,
      fq_draft_subtype = 0, fq_draft_extra = 0, fq_generation_context = 0, fq_status = 0, fq_name = ''Park''\<rparr>"

definition demo_draft_club :: "u32 \<Rightarrow> team_row" where
  "demo_draft_club t = \<lparr>tm_id = t, tm_league_id = 5, tm_parent_team_id = 0, tm_arrays = (\<lambda>_. [0, 0])\<rparr>"

definition demo_draft_money :: financials where
  "demo_draft_money = \<lparr>fi_budget = 0, fi_scouting_budget = 0, fi_development_budget = 0, fi_draft_budget = 0,
     fi_draft_expenses = 0, fi_cash = 500000000\<rparr>"

definition demo_sd_env :: sd_env where
  "demo_sd_env =
     \<lparr>de_service = \<lparr>me_latest = Some 20251119, me_service_days = 545, me_seeds = [], me_team_by_csv = (\<lambda>_. None),
        me_live_team = (\<lambda>_. True), me_ok = (\<lambda>_. True), me_saving = (\<lambda>_. False), me_league = 5, me_enabled = True,
        me_save_ready = True, me_guard = False, me_save_started = False\<rparr>,
      de_facts = (\<lambda>_. \<lparr>df_service_days = 1000, df_draft_eligible = 0\<rparr>),
      de_team_facts = (\<lambda>t. \<lparr>tf_deleted = False, tf_wins = t * 10, tf_losses = 40, tf_ties = 0, tf_city = ''Seoul'',
        tf_nickname = ''Bears'', tf_full_name = []\<rparr>),
      de_team_vector = Some [2, 1], de_service_team = (\<lambda>_. False), de_declarations = (\<lambda>_. []), de_main_league = 5,
      de_ok = (\<lambda>_. True), de_time = (\<lambda>n. n)\<rparr>"

text \<open>Club 1 has protected its player 12, club 2 nobody; both have submitted their lists.\<close>

definition demo_sd :: sd_state where
  "demo_sd =
     \<lparr>sd_service = \<lparr>ms_world = \<lparr>fw_vector = Some (4096, [11, 12, 21]),
          fw_players = [11 \<mapsto> demo_draft_player 1 50, 12 \<mapsto> demo_draft_player 1 90, 21 \<mapsto> demo_draft_player 2 70],
          fw_teams = [1 \<mapsto> demo_draft_club 1, 2 \<mapsto> demo_draft_club 2],
          fw_finances = [1 \<mapsto> demo_draft_money, 2 \<mapsto> demo_draft_money]\<rparr>,
        ms_duties = (\<lambda>_. \<lparr>md_loan_league = 0, md_loan_active = 0, md_loan_cleared = 0, md_loan_dirty = 0,
          md_injury_active = 0, md_exempt = 0, md_days_left = 0, md_contract_status = 0, md_contract_start = 0,
          md_later_salaries = []\<rparr>),
        ms_loans = [], ms_history_keys = [], ms_events = [], ms_clock = 0\<rparr>,
      sd_runs = [], sd_results = [],
      sd_protected = [\<lparr>sp_season = 2025, sp_team = 1, sp_player = 12, sp_at = 0\<rparr>],
      sd_submissions = [\<lparr>ss_season = 2025, ss_team = 1, ss_count = 1\<rparr>, \<lparr>ss_season = 2025, ss_team = 2, ss_count = 0\<rparr>],
      sd_windows = [], sd_events = [], sd_clock = 0\<rparr>"

definition demo_draft_teams :: "draft_team list" where
  "demo_draft_teams = sort_teams (kbo_secondary_draft_collect_main_teams demo_sd_env (draft_world demo_sd) 5 [2, 1] [])"

definition demo_draft_setting :: draft_setting where
  "demo_draft_setting = \<lparr>dx_season = 2025, dx_date = 20251119, dx_league = 5, dx_source = ''demo''\<rparr>"


lemma demo_draft_teams_eq: "demo_draft_teams =
   [\<lparr>dt_id = 1, dt_org = 1, dt_league = 5, dt_wins = 10, dt_losses = 40, dt_ties = 0, dt_games = 50, dt_loss_count = 0, dt_name = ''Seoul Bears''\<rparr>,
    \<lparr>dt_id = 2, dt_org = 2, dt_league = 5, dt_wins = 20, dt_losses = 40, dt_ties = 0, dt_games = 60, dt_loss_count = 0, dt_name = ''Seoul Bears''\<rparr>]"
  by code_simp

lemma demo_draft_vector: "readable_vector (draft_world demo_sd) = Some (4096, [11, 12, 21])"
  by (simp add: readable_vector_def MAX_PLAYER_VECTOR_COUNT_def draft_world_def demo_sd_def)

lemma demo_draft_clubs: "distinct (map dt_id demo_draft_teams)" "\<forall>t \<in> set demo_draft_teams. dt_loss_count t = 0"
  by (simp_all add: demo_draft_teams_eq)

lemma demo_draft_reliable: "reliable demo_sd_env"
  by (simp add: reliable_def demo_sd_env_def)

lemma demo_event_season:
  "sd_windows st = [] \<Longrightarrow> kbo_secondary_draft_resolve_event_season demo_sd_env 20251119 st
     = ((2025, 0), st\<lparr>sd_clock := sd_clock st + 1\<rparr>)"
  by (simp add: kbo_secondary_draft_resolve_event_season_def kbo_secondary_draft_load_window_for_draft_date_def
      reliable_statement [OF demo_draft_reliable] kbo_secondary_draft_is_odd_season_def)

lemma demo_counts:
  assumes "sd_runs st = []" "sd_results st = []"
  shows "kbo_secondary_draft_sql_run_exists demo_sd_env 2025 st = (False, st\<lparr>sd_clock := sd_clock st + 1\<rparr>)"
    "kbo_secondary_draft_sql_result_count demo_sd_env 2025 st = (0, st\<lparr>sd_clock := sd_clock st + 1\<rparr>)"
  using assms
  by (simp_all add: kbo_secondary_draft_sql_run_exists_def kbo_secondary_draft_sql_result_count_def counted_def
      reliable_statement [OF demo_draft_reliable])

text \<open>The event holds the draft: the season is odd, there are two clubs and nothing is stored.\<close>

lemma demo_event_succeeds: "fst (kbo_handle_secondary_draft_event demo_sd_env 20251119 ''demo'' demo_sd)"
proof -
  have empty: "sd_windows demo_sd = []" "sd_runs demo_sd = []" "sd_results demo_sd = []"
    by (simp_all add: demo_sd_def)
  have source: "sql_text 256 ''demo'' \<noteq> None" by code_simp
  have saved: "fst (run_draft demo_sd_env x teams st)" if "dx_season x \<noteq> 0" "dx_source x = ''demo''" for x teams st
    using reliable_mark_run(1) [OF demo_draft_reliable] that source
    by (simp add: run_draft_def Let_def split_beta summary_of_def)
  have "length (kbo_secondary_draft_collect_main_teams demo_sd_env (draft_world demo_sd) 5 [2, 1] []) = 2"
    by code_simp
  moreover have "draft_world (demo_sd\<lparr>sd_clock := n\<rparr>) = draft_world demo_sd" for n by (simp add: draft_world_def)
  moreover have "de_team_vector demo_sd_env = Some [2, 1]" "de_main_league demo_sd_env = 5"
    by (simp_all add: demo_sd_env_def)
  ultimately show ?thesis
    by (simp add: kbo_handle_secondary_draft_event_def demo_event_season demo_counts empty Let_def saved
        del: kbo_secondary_draft_collect_main_teams.simps)
qed

theorem draft_respects_limits_witness:
  "let start = snd (start_draft demo_sd_env demo_draft_setting demo_draft_teams demo_sd);
       picks = pg_picks (draft_rounds demo_sd_env demo_draft_setting start) in
      (\<forall>p \<in> set picks. dp_from p = 1 \<longrightarrow> dp_player p \<noteq> 12)
      \<and> distinct (map dp_player picks)
      \<and> (\<forall>t \<in> set demo_draft_teams. length (filter (\<lambda>p. dp_from p = dt_id t) picks) \<le> 4)
      \<and> map dp_no picks = map of_nat [1..<Suc (length picks)]"
proof -
  have saved: "saved_players 2025 1 demo_sd = {12}" "length (saved_rows 2025 1 demo_sd) \<le> PROTECTED_LIST_LIMIT"
    by (simp_all add: saved_players_def saved_rows_def demo_sd_def draft_constants)
  have "dx_season demo_draft_setting = 2025" by (simp add: demo_draft_setting_def)
  then show ?thesis
    using draft_respects_limits [OF demo_draft_vector _ demo_draft_clubs, of demo_sd_env demo_draft_setting]
      demo_draft_reliable saved
    unfolding Let_def by (auto simp del: upt_Suc)
qed

theorem draft_follows_turn_order_witness:
  "let picks = pg_picks (draft_rounds demo_sd_env demo_draft_setting
                 (snd (start_draft demo_sd_env demo_draft_setting demo_draft_teams demo_sd))) in
      subseq (map (\<lambda>p. (dp_round p, dp_to p)) picks) (turn_order demo_draft_teams)
      \<and> length picks \<le> kbo_secondary_draft_expected_pick_count (length demo_draft_teams)"
  by (rule draft_follows_turn_order [OF demo_draft_vector _ demo_draft_clubs]) simp

theorem draft_keeps_money_witness:
  "total_cash (draft_world (snd (run_draft demo_sd_env demo_draft_setting demo_draft_teams demo_sd))) demo_draft_teams
     = 1000000000"
proof -
  have "total_cash (draft_world demo_sd) demo_draft_teams = 1000000000"
    by (simp add: demo_draft_teams_eq total_cash_def club_cash_def draft_world_def demo_sd_def demo_draft_money_def)
  then show ?thesis
    using draft_keeps_money [OF demo_draft_vector _ demo_draft_clubs(1), of demo_sd_env demo_draft_setting] by simp
qed

theorem second_event_changes_nothing_witness:
  "\<exists>st' st2. kbo_handle_secondary_draft_event demo_sd_env 20251119 ''demo'' demo_sd = (True, st')
     \<and> kbo_handle_secondary_draft_event demo_sd_env 20251119 ''demo'' st' = (True, st2) \<and> tables st2 = tables st'"
proof -
  obtain st' where first: "kbo_handle_secondary_draft_event demo_sd_env 20251119 ''demo'' demo_sd = (True, st')"
    using demo_event_succeeds by (metis prod.collapse)
  then show ?thesis using second_event_changes_nothing [OF demo_draft_reliable first] by blast
qed

text \<open>Player 11 of club 1 while he serves at a club 90.\<close>

definition demo_serviceman :: draft_candidate where
  "demo_serviceman = \<lparr>dc_player = 11, dc_owner_team = 1, dc_current_team = 90, dc_service_team = 90, dc_owner = 0,
     dc_value = 650, dc_age = 29, dc_service_days = 1000, dc_seasons = 6, dc_seasons_known = True, dc_role = 1,
     dc_military = True, dc_protected = False, dc_selected = True, dc_name = ''Park'', dc_reason = ''eligible''\<rparr>"

theorem settled_serviceman_is_never_drafted_witness:
  "fst (kbo_secondary_draft_apply_pick demo_sd_env demo_serviceman (demo_draft_teams ! 0) (demo_draft_teams ! 1)
     5 20251119 1 1 demo_sd) = None"
proof -
  have player: "fw_players (draft_world demo_sd) (dc_player demo_serviceman) = Some (demo_draft_player 1 50)"
    by (simp add: draft_world_def demo_sd_def demo_serviceman_def)
  have "dc_military demo_serviceman" "dc_service_team demo_serviceman = 90" by (simp_all add: demo_serviceman_def)
  moreover have "pl_active_team (fq_base (demo_draft_player 1 50)) = 1" "pl_original_team (fq_base (demo_draft_player 1 50)) = 1"
    by (simp_all add: demo_draft_player_def)
  moreover have "dt_id (demo_draft_teams ! 1) = 2" by (simp add: demo_draft_teams_eq)
  ultimately show ?thesis
    using settled_serviceman_is_never_drafted [OF player, of 1 "demo_draft_teams ! 1" demo_sd_env
        "demo_draft_teams ! 0" 5 20251119 1 1]
    by auto
qed

end
