(* ===== verification/Spec2Isabelle.thy ===== *)
theory Spec2Isabelle
  imports WaiverDate TickHistory TickConsumerProps SeasonPhaseProps CbtRulesProps CbtPayrollProps
    CbtExceptionsProps CbtDraftOrderProps CbtProcessProps WaiverRightsProps WaiverWindowProps
    CTextProps JsonTextProps ForeignPolicyProps WaiverDecisionsProps RetentionProps FaRulesProps FaSigning
    MilitaryProps DraftDemo
begin

text \<open>
  A verification development of the native layer of OOTP27 Ultimate KBO, the DLL that is loaded
  into the running game and gives its league the rules of the KBO.  Paths below are relative to
  \<open>src/native/src/\<close> of the repository.

  \<^bold>\<open>The program.\<close>  A hook notices every change of the game's current date.  The date tick checks
  it, numbers it and hands it on: synchronous consumers are called at once, polling consumers ask
  for it from their own threads.  Everything the league does is driven by these dates: the season
  phase is resolved from the dates and from captured writes of the game; in the offseason the
  competitive balance tax is computed and the draft order is changed, the clubs decide on the
  rights to their foreign players, the free agents that were signed are compensated, and in odd
  years the secondary draft is held; every day the players in military service are looked at.  The
  components keep their state in fixed-size tables in memory, mirror them to a database or a file
  of the save, read configuration files and write into the objects of the game.

  \<^bold>\<open>How the theories follow the code.\<close>  A function of the C code is one definition of the same
  name; statics of a file are the fields of a record that the definitions take and return; a
  structure is a record, an enumeration a datatype, a failing function returns an option or a
  record with its result code.  Integers keep their width (\<^theory_text>\<open>KboPrelude\<close>) wherever they can wrap.
  An object of the game is a record or a memory of bytes (\<^theory_text>\<open>GameMemory\<close>); the list of the objects
  a function looks at is an argument.

  \<^item> Shared: \<^theory_text>\<open>KboPrelude\<close> (widths, C strings, lemma collections), \<^theory_text>\<open>KeyedTable\<close> (tables
    searched from the front, read as maps), \<^theory_text>\<open>EventRing\<close> (locale of a ring of events), \<^theory_text>\<open>CText\<close> and
    \<^theory_text>\<open>JsonText\<close> (\<open>core/csv\<close>, \<open>core/sql/escape\<close>, \<open>core/core_flags/json\<close>: fields, literals, numbers).
  \<^item> Dates: \<^theory_text>\<open>TextDate\<close> (\<open>core/dates/core_text_date.c\<close>; a reference calendar that counts days
    stands beside it), \<^theory_text>\<open>WaiverDate\<close> (\<open>foreign/common/dates\<close>; a second implementation of the same
    arithmetic), \<^theory_text>\<open>MilitaryDate\<close> (\<open>military_service/seed/parse\<close>; a third one, which walks over the
    years), \<^theory_text>\<open>DateBoundary\<close> (\<open>core/dates/boundary\<close>: how much a date found in memory is
    trusted).
  \<^item> Date tick: \<^theory_text>\<open>DateTick\<close> (\<open>core/dates/tick\<close>: capture, latest, cursors), \<^theory_text>\<open>TickSync\<close>
    (synchronous consumers), \<^theory_text>\<open>TickConsumer\<close> (polling consumers).
  \<^item> Season: \<^theory_text>\<open>SeasonPhase\<close> (\<open>core/season/phase\<close>), \<^theory_text>\<open>GameMemory\<close> (offsets and reads).
  \<^item> Competitive balance tax (\<open>competitive_balance_tax/\<close>): \<^theory_text>\<open>CbtRules\<close>, \<^theory_text>\<open>CbtPayroll\<close>,
    \<^theory_text>\<open>CbtRecords\<close>, \<^theory_text>\<open>CbtExceptions\<close>, \<^theory_text>\<open>CbtDraftOrder\<close>, \<^theory_text>\<open>CbtProcess\<close>.
  \<^item> Foreign players (\<open>foreign/\<close>, \<open>team/assignment\<close>): \<^theory_text>\<open>RosterArrays\<close>, \<^theory_text>\<open>WaiverRights\<close>,
    \<^theory_text>\<open>WaiverWindow\<close>, \<^theory_text>\<open>ForeignPolicy\<close>, \<^theory_text>\<open>WaiverDecisions\<close>.
  \<^item> Free agency: \<^theory_text>\<open>FaRules\<close> (\<open>fa_rules/\<close>), \<^theory_text>\<open>FaState\<close>, \<^theory_text>\<open>FaProtection\<close>, \<^theory_text>\<open>FaCompensation\<close>
    (\<open>fa_compensation/\<close>).
  \<^item> Military service (\<open>military_service/\<close>): \<^theory_text>\<open>MilitaryService\<close> (the table of the loans, the state
    of a player, his original club), \<^theory_text>\<open>MilitaryTick\<close> (returns, seeds, the pass over the players).
  \<^item> Secondary draft (\<open>custom_events/secondary_draft/\<close>): \<^theory_text>\<open>DraftRules\<close> (rules, clubs, candidates),
    \<^theory_text>\<open>DraftEngine\<close> (tables, protected lists, picks, the event).

  A theory \<open>XProps\<close> holds the properties of \<open>X\<close>, \<open>XLemmas\<close> the lemmas several of them share;
  \<^theory_text>\<open>AiRuns\<close> and \<^theory_text>\<open>RetentionProps\<close> belong to \<^theory_text>\<open>WaiverDecisions\<close>, \<^theory_text>\<open>FaProtProps\<close>, \<^theory_text>\<open>FaSigning\<close> and the
  example \<^theory_text>\<open>FaDemo\<close> to the compensation, \<^theory_text>\<open>DraftProtection\<close> (the marks of the protected lists) and
  the example \<^theory_text>\<open>DraftDemo\<close> to the draft, \<^theory_text>\<open>TickHistory\<close> (the history of the calls) to the date tick.

  \<^bold>\<open>What is shown.\<close>
  \<^item> The date tick is specified by a log of accepted dates: \<open>tick_rep\<close> relates a state to the log
    it represents, and every operation keeps a log.  The history of a run of calls notes what was
    published; its entries form chains of consecutive dates and are the log of the state (C1).
    Cursors read the log in order and count what they missed (C2, C17), a poll returns (C6), hands its work out until it is marked (C21), and the
    dates it acknowledges increase (C7).  A synchronous dispatch calls exactly the pending
    consumers in their order and only once per date (C16, C22).  A live publish advances by
    one day (C23).
  \<^item> The three date libraries agree with the reference calendar and with each other (C13, C14, C39
    and the lemma \<open>counting_adder_agrees\<close>).
  \<^item> For fixed readings of the game the season phase moves forward over the days of a year from
    March on (C24).
  \<^item> Tax: a payroll is the sum of the highest salaries (C10), the run stores the right record of
    every club (C12), the streak of violations is the one of the records (C25), a second run
    saves the same records and announces no violation again (C26), and the draft order is only
    permuted (C15).
  \<^item> Foreign players: the rights in memory and in the database refine two maps (C3), every candidate is decided by the rule and
    once (C8, C9, C19), in a window of the configured length (C20), under a policy that is well
    formed whatever the files hold (C27).
  \<^item> Compensation: the daily run refines the machine \<open>obligation_step\<close> (C4), money moves only with
    a new row of the payment table (C5), the player taken is the first unprotected one (C11), a
    signing opens one obligation (C18), the amounts are the percentages of the rules (C28).
  \<^item> Military service: whoever has reached his return date is back on his club after the pass of
    the day, the others keep their loan (C38).
  \<^item> Secondary draft: its limits hold whatever happens to the single moves, and with a working
    database no player on a saved protected list is taken (C34); the picks follow
    the announced order (C35), money is only moved between the clubs (C36), and a second event does
    nothing (C37).  Both of its scans return the best entry (\<open>best_candidate_Some\<close>,
    \<open>next_auto_protection_best\<close>), and its binary search is membership.
  \<^item> Written text is read back: CSV, JSON literals, SQL literals (C29, C30, C31).
  \<^item> Behaviour at the limits of the fixed tables, which differs from what the code means to do, is
    stated as it is: C32, C33, C40 and the plain lemmas \<open>coalescing_poll_takes_latest\<close>,
    \<open>resync_and_cursors\<close>, \<open>full_table_drops_new_record\<close>, \<open>finished_loans_fill_the_table\<close>,
    \<open>full_designation_table_blocks\<close>, \<open>forgotten_signature_moves_again\<close>,
    \<open>stray_brace_hangs_the_reader\<close>, \<open>second_claim_is_stuck\<close>, \<open>settled_cash_is_reopened\<close>,
    \<open>manual_choice_sees_128_rows\<close>, \<open>dropped_choice_rewrites_loan\<close> and \<open>unread_lists_mark_nobody\<close>.

  \<^bold>\<open>Interfaces.\<close>  The locales state what a client relies on and are interpreted on the definitions
  of the provider: \<open>date_successor\<close> (a calendar one walks day by day, on the dates of the core),
  \<open>event_ring\<close> (on the ring of the date tick), \<open>id_set\<close> (on the roster arrays of a club),
  \<open>keyed_store\<close> (records replaced under their key, on the ledger of the obligations) and \<open>scan\<close> (a
  loop that keeps the entry that beats the others, on the choice and on the protection of the draft).

  \<^bold>\<open>Parameters.\<close>  What is not in the source is an argument: the contents of files, the rows a
  database returns and whether a write to it succeeds; the tokens the JSON tokenizer produces;
  the optimizer that may reorder candidates of a protected list (its result is used only where the
  code uses it, after the checks of the code); the texts of news.  Whether a store succeeds is
  always free, so the properties say what happens when it fails.

  \<^bold>\<open>Bounds and fuel.\<close>  The sizes of the tables are the constants of the headers: 256 ticks, 64
  captured phases, 500 tax records, 64 designations and so on.  Loops over dates and tables are
  structural recursion or have a termination proof.  Two loops of the code need not end.  The reader
  of the rules of free agency has a number of turns as its argument, because of its loop over the
  compensable cases: \<open>None\<close> is that they do not suffice, and \<^theory_text>\<open>FaRulesProps\<close> shows how many do and
  for which file none do.  The walk over the years of the military calendar is the partial function
  \<open>year_up\<close>; C39 shows that it ends on every date.  A turn of the draft tries each candidate at
  most once, so their number, which bounds the loop of the code, is enough.

  \<^bold>\<open>Not modelled.\<close>  The threads: each operation is a step that runs without interference, so the
  interlocked accesses and spin locks of the date tick are sequences of such steps.  The user
  interface, the installers of the patches and the hooks, which rewrite machine code of the game
  and mean nothing without it; start-up, logging and profiling; the SQL and file layers below the
  stores; the scans that find the league object in the memory of the game.  Of the components with
  rules of their own, the Asian games and the schedules of the calendar events, the yearly selection
  of the military service with the files of its seeds, the filing and grading of free agents, import
  limits and injuries of foreign players, captains, awards, the independent acquisitions and the
  quality of generated players are left out; those the modelled components call are parameters.
\<close>

end
